(* ===== verification/Prelude.thy ===== *)
theory Prelude
  imports
    Complex_Main
    "HOL-Library.Word"
    "HOL-Library.Char_ord"
    "HOL-Library.List_Lexorder"
    "HOL-Library.Multiset"
    "HOL-Library.Monad_Syntax"
begin

text \<open>
  Vocabulary shared by every component.  Rust's \<^verbatim>\<open>String\<close> is a list of UTF-8 bytes, which is
  what a HOL \<open>string\<close> (a list of 8-bit characters) is: \<^verbatim>\<open>len()\<close>, slicing and the byte-wise order of
  \<^verbatim>\<open>str\<close> are \<open>length\<close>, \<open>take\<close>/\<open>drop\<close> and the lexicographic order of the list.  \<^verbatim>\<open>Vec<u8>\<close> is a list
  of 8-bit words.  \<^verbatim>\<open>Result<T, E>\<close> is \<open>'e + 'a\<close> with \<open>Inl\<close> for the error; an operation with effects is
  a function \<open>'s \<Rightarrow> ('e + 'a) \<times> 's\<close>, so that the state reached before an error is kept.
\<close>

type_synonym str = string
type_synonym u8 = "8 word"
type_synonym u64 = "64 word"
type_synonym bytes = "8 word list"

text \<open>Facts about results and effects, and the unfolding set of the effect combinators.\<close>

named_theorems res_simps \<open>elimination of the result combinators\<close>
named_theorems eff_simps \<open>elimination of the effect combinators\<close>

section \<open>Results\<close>

definition r_bind :: "'e + 'a \<Rightarrow> ('a \<Rightarrow> 'e + 'b) \<Rightarrow> 'e + 'b" where
  "r_bind r k = (case r of Inl e \<Rightarrow> Inl e | Inr x \<Rightarrow> k x)"

definition map_err :: "('e \<Rightarrow> 'f) \<Rightarrow> 'e + 'a \<Rightarrow> 'f + 'a" where
  "map_err f r = (case r of Inl e \<Rightarrow> Inl (f e) | Inr x \<Rightarrow> Inr x)"

definition r_map :: "('a \<Rightarrow> 'b) \<Rightarrow> 'e + 'a \<Rightarrow> 'e + 'b" where
  "r_map f r = (case r of Inl e \<Rightarrow> Inl e | Inr x \<Rightarrow> Inr (f x))"

definition ok_or :: "'e \<Rightarrow> 'a option \<Rightarrow> 'e + 'a" where
  "ok_or e x = (case x of None \<Rightarrow> Inl e | Some y \<Rightarrow> Inr y)"

text \<open>\<^verbatim>\<open>iter().map(f).collect::<Result<Vec<_>, _>>()\<close>: stops at the first error.\<close>

fun r_collect :: "('a \<Rightarrow> 'e + 'b) \<Rightarrow> 'a list \<Rightarrow> 'e + 'b list" where
  "r_collect f [] = Inr []"
| "r_collect f (x # xs) =
     (case f x of Inl e \<Rightarrow> Inl e
      | Inr y \<Rightarrow> (case r_collect f xs of Inl e \<Rightarrow> Inl e | Inr ys \<Rightarrow> Inr (y # ys)))"

definition is_ok :: "'e + 'a \<Rightarrow> bool" where
  "is_ok r = (case r of Inl _ \<Rightarrow> False | Inr _ \<Rightarrow> True)"

lemma r_bind_simps [simp, res_simps]:
  "r_bind (Inl e) k = Inl e" "r_bind (Inr x) k = k x"
  by (simp_all add: r_bind_def)

lemma map_err_simps [simp, res_simps]:
  "map_err f (Inl e) = Inl (f e)" "map_err f (Inr x) = Inr x"
  by (simp_all add: map_err_def)

lemma r_map_simps [simp, res_simps]:
  "r_map f (Inl e) = Inl e" "r_map f (Inr x) = Inr (f x)"
  by (simp_all add: r_map_def)

lemma ok_or_simps [simp, res_simps]:
  "ok_or e None = Inl e" "ok_or e (Some x) = Inr x"
  by (simp_all add: ok_or_def)

lemma is_ok_simps [simp, res_simps]: "is_ok (Inl e) = False" "is_ok (Inr x) = True"
  by (simp_all add: is_ok_def)

lemma r_bind_Inr_iff [res_simps]: "r_bind r k = Inr y \<longleftrightarrow> (\<exists>x. r = Inr x \<and> k x = Inr y)"
  by (cases r) auto

lemma map_err_Inr_iff [simp, res_simps]: "map_err f r = Inr y \<longleftrightarrow> r = Inr y"
  by (cases r) auto

lemma r_map_Inr_iff [res_simps]: "r_map f r = Inr y \<longleftrightarrow> (\<exists>x. r = Inr x \<and> y = f x)"
  by (cases r) auto

lemma ok_or_Inr_iff [simp, res_simps]: "ok_or e x = Inr y \<longleftrightarrow> x = Some y"
  by (cases x) auto

lemma r_collect_length: "r_collect f xs = Inr ys \<Longrightarrow> length ys = length xs"
  by (induction xs arbitrary: ys) (auto split: sum.splits)

lemma r_collect_nth:
  "r_collect f xs = Inr ys \<Longrightarrow> i < length xs \<Longrightarrow> f (xs ! i) = Inr (ys ! i)"
proof (induction xs arbitrary: ys i)
  case (Cons x xs)
  then show ?case by (cases i) (auto split: sum.splits)
qed simp

lemma r_collect_total: "(\<And>x. x \<in> set xs \<Longrightarrow> f x = Inr (g x)) \<Longrightarrow> r_collect f xs = Inr (map g xs)"
  by (induction xs) auto

lemma r_collect_list_all2:
  "r_collect f xs = Inr ys \<longleftrightarrow> list_all2 (\<lambda>x y. f x = Inr y) xs ys"
proof (induction xs arbitrary: ys)
  case (Cons x xs)
  then show ?case
    by (cases "f x"; cases "r_collect f xs") (auto simp: list_all2_Cons1 simp flip: Cons.IH)
qed auto

section \<open>Effects\<close>

type_synonym ('s, 'e, 'a) eff = "'s \<Rightarrow> ('e + 'a) \<times> 's"

definition e_bind :: "('s, 'e, 'a) eff \<Rightarrow> ('a \<Rightarrow> ('s, 'e, 'b) eff) \<Rightarrow> ('s, 'e, 'b) eff" where
  "e_bind m k = (\<lambda>s. case m s of (Inl e, s') \<Rightarrow> (Inl e, s') | (Inr x, s') \<Rightarrow> k x s')"

definition e_ret :: "'a \<Rightarrow> ('s, 'e, 'a) eff" where
  "e_ret x = (\<lambda>s. (Inr x, s))"

definition e_fail :: "'e \<Rightarrow> ('s, 'e, 'a) eff" where
  "e_fail e = (\<lambda>s. (Inl e, s))"

text \<open>A pure result, and a result read off the state, inside an effectful sequence (the \<^verbatim>\<open>?\<close> operator).\<close>

definition e_lift :: "'e + 'a \<Rightarrow> ('s, 'e, 'a) eff" where
  "e_lift r = (\<lambda>s. (r, s))"

definition e_gets :: "('s \<Rightarrow> 'e + 'a) \<Rightarrow> ('s, 'e, 'a) eff" where
  "e_gets f = (\<lambda>s. (f s, s))"

definition e_map_err :: "('e \<Rightarrow> 'f) \<Rightarrow> ('s, 'e, 'a) eff \<Rightarrow> ('s, 'f, 'a) eff" where
  "e_map_err f m = (\<lambda>s. case m s of (r, s') \<Rightarrow> (map_err f r, s'))"

definition e_when :: "bool \<Rightarrow> ('s, 'e, unit) eff \<Rightarrow> ('s, 'e, unit) eff" where
  "e_when b m = (if b then m else e_ret ())"

text \<open>A \<^verbatim>\<open>for\<close> loop that leaves at the first error, and one that collects its results.\<close>

fun e_each :: "('a \<Rightarrow> ('s, 'e, unit) eff) \<Rightarrow> 'a list \<Rightarrow> ('s, 'e, unit) eff" where
  "e_each f [] = e_ret ()"
| "e_each f (x # xs) = e_bind (f x) (\<lambda>_. e_each f xs)"

fun e_map :: "('a \<Rightarrow> ('s, 'e, 'b) eff) \<Rightarrow> 'a list \<Rightarrow> ('s, 'e, 'b list) eff" where
  "e_map f [] = e_ret []"
| "e_map f (x # xs) = e_bind (f x) (\<lambda>y. e_bind (e_map f xs) (\<lambda>ys. e_ret (y # ys)))"

text \<open>A \<^verbatim>\<open>for\<close> loop over an accumulator.\<close>

fun e_fold :: "('a \<Rightarrow> 'b \<Rightarrow> ('s, 'e, 'b) eff) \<Rightarrow> 'a list \<Rightarrow> 'b \<Rightarrow> ('s, 'e, 'b) eff" where
  "e_fold f [] b = e_ret b"
| "e_fold f (x # xs) b = e_bind (f x b) (e_fold f xs)"

lemma e_bind_apply [eff_simps]:
  "e_bind m k s = (case m s of (Inl e, s') \<Rightarrow> (Inl e, s') | (Inr x, s') \<Rightarrow> k x s')"
  by (simp add: e_bind_def)

lemma e_basic_apply [simp, eff_simps]:
  "e_ret x s = (Inr x, s)" "e_fail e s = (Inl e, s)" "e_lift r s = (r, s)" "e_gets f s = (f s, s)"
  by (simp_all add: e_ret_def e_fail_def e_lift_def e_gets_def)

lemma e_when_simps [simp, eff_simps]: "e_when True m = m" "e_when False m = e_ret ()"
  by (simp_all add: e_when_def)

lemma e_map_err_apply [eff_simps]: "e_map_err f m s = (case m s of (r, s') \<Rightarrow> (map_err f r, s'))"
  by (simp add: e_map_err_def)

lemma e_bind_Inr:
  assumes "e_bind m k s = (Inr y, s2)"
  obtains x s1 where "m s = (Inr x, s1)" "k x s1 = (Inr y, s2)"
  using assms by (auto simp: e_bind_def split: prod.splits sum.splits)

lemma e_bind_cases:
  assumes "e_bind m k s = (r, s2)"
  obtains (err) e where "m s = (Inl e, s2)" "r = Inl e"
  | (ok) x s1 where "m s = (Inr x, s1)" "k x s1 = (r, s2)"
  using assms by (auto simp: e_bind_def split: prod.splits sum.splits)

text \<open>An invariant kept by every run of an effect, whether it returns or fails.\<close>

definition keeps :: "('s \<Rightarrow> bool) \<Rightarrow> ('s, 'e, 'a) eff \<Rightarrow> bool" where
  "keeps P m \<longleftrightarrow> (\<forall>s. P s \<longrightarrow> P (snd (m s)))"

lemma keepsI: "(\<And>s r s'. P s \<Longrightarrow> m s = (r, s') \<Longrightarrow> P s') \<Longrightarrow> keeps P m"
  unfolding keeps_def by (metis prod.collapse)

lemma keepsD: "keeps P m \<Longrightarrow> m s = (r, s') \<Longrightarrow> P s \<Longrightarrow> P s'"
  unfolding keeps_def by (metis snd_conv)

lemma keeps_basic [simp, intro]:
  "keeps P (e_ret x)" "keeps P (e_fail e)" "keeps P (e_lift r)" "keeps P (e_gets f)"
  by (simp_all add: keeps_def)

lemma keeps_bind [intro]: "keeps P m \<Longrightarrow> (\<And>x. keeps P (k x)) \<Longrightarrow> keeps P (e_bind m k)"
  unfolding keeps_def e_bind_def by (fastforce split: prod.splits sum.splits)

lemma keeps_map_err [intro]: "keeps P m \<Longrightarrow> keeps P (e_map_err f m)"
  unfolding keeps_def e_map_err_def by (fastforce split: prod.splits)

lemma keeps_when [intro]: "keeps P m \<Longrightarrow> keeps P (e_when b m)"
  by (cases b) auto

lemma keeps_each [intro]: "(\<And>x. x \<in> set xs \<Longrightarrow> keeps P (f x)) \<Longrightarrow> keeps P (e_each f xs)"
  by (induction xs) (auto intro!: keeps_bind)

lemma keeps_e_map [intro]: "(\<And>x. x \<in> set xs \<Longrightarrow> keeps P (f x)) \<Longrightarrow> keeps P (e_map f xs)"
  by (induction xs) (auto intro!: keeps_bind)

lemma keeps_fold [intro]: "(\<And>x b. x \<in> set xs \<Longrightarrow> keeps P (f x b)) \<Longrightarrow> keeps P (e_fold f xs b)"
  by (induction xs arbitrary: b) (auto intro!: keeps_bind)

text \<open>The same, with what holds of the value when there is one.\<close>

definition gives :: "('s \<Rightarrow> bool) \<Rightarrow> ('s, 'e, 'a) eff \<Rightarrow> ('a \<Rightarrow> bool) \<Rightarrow> bool" where
  "gives P m Q \<longleftrightarrow> keeps P m \<and> (\<forall>s x s'. P s \<longrightarrow> m s = (Inr x, s') \<longrightarrow> Q x)"

lemma givesI: "keeps P m \<Longrightarrow> (\<And>s x s'. P s \<Longrightarrow> m s = (Inr x, s') \<Longrightarrow> Q x) \<Longrightarrow> gives P m Q"
  unfolding gives_def by blast

lemma gives_keeps: "gives P m Q \<Longrightarrow> keeps P m"
  by (simp add: gives_def)

lemma gives_lift: "(\<And>x. r = Inr x \<Longrightarrow> Q x) \<Longrightarrow> gives P (e_lift r) Q"
  by (auto simp: gives_def)

lemma keeps_gives_bind:
  assumes "gives P m Q" and "\<And>x. Q x \<Longrightarrow> keeps P (k x)"
  shows "keeps P (e_bind m k)"
proof (rule keepsI)
  fix s r s' assume P: "P s" and run: "e_bind m k s = (r, s')"
  from run show "P s'"
  proof (cases rule: e_bind_cases)
    case (err e)
    then show ?thesis using assms(1) P unfolding gives_def by (blast dest: keepsD)
  next
    case (ok x s1)
    then have "P s1" "Q x" using assms(1) P unfolding gives_def by (blast dest: keepsD)+
    then show ?thesis using ok(2) assms(2) by (blast dest: keepsD)
  qed
qed

end
