(* ===== verification/Text.thy ===== *)
theory Text
  imports Prelude
begin

text \<open>
  The string operations of Rust's standard library the program uses, on UTF-8 bytes:
  \<^verbatim>\<open>trim\<close> (Unicode white space), \<^verbatim>\<open>strip_prefix\<close>, \<^verbatim>\<open>trim_end_matches\<close>, \<^verbatim>\<open>replace\<close> of a character,
  \<^verbatim>\<open>split\<close> at a character, \<^verbatim>\<open>lines\<close>, \<^verbatim>\<open>join\<close>, decimal display of an integer, the ASCII classes and
  \<^verbatim>\<open>to_ascii_lowercase\<close>, and lower-case hexadecimal of bytes.
\<close>

section \<open>White space\<close>

text \<open>The UTF-8 encodings of the code points with the Unicode property White_Space.\<close>

definition is_ws :: "str \<Rightarrow> bool" where
  "is_ws s \<longleftrightarrow> (case map of_char s :: nat list of
     [a] \<Rightarrow> (9 \<le> a \<and> a \<le> 13) \<or> a = 32
   | [a, b] \<Rightarrow> a = 194 \<and> (b = 133 \<or> b = 160)
   | [a, b, c] \<Rightarrow>
       (a = 225 \<and> b = 154 \<and> c = 128) \<or>
       (a = 226 \<and> b = 128 \<and> ((128 \<le> c \<and> c \<le> 138) \<or> c = 168 \<or> c = 169 \<or> c = 175)) \<or>
       (a = 226 \<and> b = 129 \<and> c = 159) \<or>
       (a = 227 \<and> b = 128 \<and> c = 128)
   | _ \<Rightarrow> False)"

text \<open>The number of bytes of the white-space character a string starts (ends) with, 0 if there is none.\<close>

definition ws_start :: "str \<Rightarrow> nat" where
  "ws_start s = (if is_ws (take 1 s) then 1 else if is_ws (take 2 s) then 2
     else if is_ws (take 3 s) then 3 else 0)"

definition ws_end :: "str \<Rightarrow> nat" where
  "ws_end s = (if is_ws (rev (take 1 (rev s))) then 1 else if is_ws (rev (take 2 (rev s))) then 2
     else if is_ws (rev (take 3 (rev s))) then 3 else 0)"

lemma is_ws_Nil [simp]: "\<not> is_ws []"
  by (simp add: is_ws_def)

lemma ws_start_Nil [simp]: "ws_start [] = 0" and ws_end_Nil [simp]: "ws_end [] = 0"
  by (simp_all add: ws_start_def ws_end_def)

function trim_start :: "str \<Rightarrow> str" where
  "trim_start s = (if ws_start s = 0 then s else trim_start (drop (ws_start s) s))"
  by pat_completeness auto
termination
proof (relation "measure length", goal_cases)
  case (2 s)
  then have "s \<noteq> []" by auto
  with 2 show ?case by simp
qed simp

function trim_end :: "str \<Rightarrow> str" where
  "trim_end s = (if ws_end s = 0 then s else trim_end (take (length s - ws_end s) s))"
  by pat_completeness auto
termination
proof (relation "measure length", goal_cases)
  case (2 s)
  then have "s \<noteq> []" by auto
  with 2 show ?case by simp
qed simp

declare trim_start.simps [simp del] trim_end.simps [simp del]

definition trim :: "str \<Rightarrow> str" where
  "trim s = trim_end (trim_start s)"

text \<open>\<^verbatim>\<open>s.trim().is_empty()\<close>.\<close>

definition blank :: "str \<Rightarrow> bool" where
  "blank s \<longleftrightarrow> trim s = []"

lemma trim_start_id: "ws_start s = 0 \<Longrightarrow> trim_start s = s"
  by (simp add: trim_start.simps [of s])

lemma trim_end_id: "ws_end s = 0 \<Longrightarrow> trim_end s = s"
  by (simp add: trim_end.simps [of s])

lemma trim_Nil [simp]: "trim [] = []"
  by (simp add: trim_def trim_start_id trim_end_id)

lemma blank_Nil [simp]: "blank []"
  by (simp add: blank_def)

lemma ws_start_trim_start [simp]: "ws_start (trim_start s) = 0"
proof (induction s rule: trim_start.induct)
  case (1 s)
  then show ?case by (cases "ws_start s = 0") (simp_all add: trim_start.simps [of s])
qed

lemma ws_end_trim_end [simp]: "ws_end (trim_end s) = 0"
proof (induction s rule: trim_end.induct)
  case (1 s)
  then show ?case by (cases "ws_end s = 0") (simp_all add: trim_end.simps [of s])
qed

lemma trim_end_prefix: "\<exists>t. s = trim_end s @ t"
proof (induction s rule: trim_end.induct)
  case (1 s)
  show ?case
  proof (cases "ws_end s = 0")
    case True
    then show ?thesis by (simp add: trim_end_id)
  next
    case False
    then obtain t where "take (length s - ws_end s) s = trim_end (take (length s - ws_end s) s) @ t"
      using 1 by blast
    then have "s = trim_end (take (length s - ws_end s) s) @ t @ drop (length s - ws_end s) s"
      by (metis append_take_drop_id append.assoc)
    with False show ?thesis by (subst trim_end.simps) auto
  qed
qed

lemma not_blank_if_plain_start:
  assumes "ws_start s = 0" and "s = c # t" and "\<And>u. ws_end (c # u) \<le> length u"
  shows "\<not> blank s"
proof -
  have "trim_end (c # u) \<noteq> []" for u
  proof (induction "length u" arbitrary: u rule: less_induct)
    case less
    show ?case
    proof (cases "ws_end (c # u) = 0")
      case True
      then show ?thesis by (simp add: trim_end_id)
    next
      case False
      have le: "ws_end (c # u) \<le> length u" by (rule assms(3))
      let ?v = "take (length u - ws_end (c # u)) u"
      have "take (length (c # u) - ws_end (c # u)) (c # u) = c # ?v"
        using le by (simp add: Suc_diff_le)
      moreover have "trim_end (c # ?v) \<noteq> []"
        using False le by (intro less) simp
      ultimately show ?thesis using False by (subst trim_end.simps) simp
    qed
  qed
  then show ?thesis using assms(1,2) by (simp add: blank_def trim_def trim_start_id)
qed

text \<open>Printable ASCII at both ends: nothing to trim.\<close>

definition plain_char :: "char \<Rightarrow> bool" where
  "plain_char c \<longleftrightarrow> 32 < (of_char c :: nat) \<and> (of_char c :: nat) < 127"

lemma plain_not_ws_first: "plain_char c \<Longrightarrow> \<not> is_ws (c # t)"
  by (auto simp: is_ws_def plain_char_def split: list.splits)

lemma is_ws_last: "is_ws s \<Longrightarrow> (of_char (last s) :: nat) \<le> 32 \<or> 127 < (of_char (last s) :: nat)"
  by (auto simp: is_ws_def split: list.splits)

lemma plain_not_ws_last: "plain_char c \<Longrightarrow> \<not> is_ws (t @ [c])"
  using is_ws_last [of "t @ [c]"] by (auto simp: plain_char_def)

lemma ws_start_plain: "plain_char c \<Longrightarrow> ws_start (c # s) = 0"
  by (simp add: ws_start_def plain_not_ws_first numeral_eq_Suc)

lemma ws_end_plain: "plain_char c \<Longrightarrow> ws_end (s @ [c]) = 0"
  by (simp add: ws_end_def plain_not_ws_last plain_not_ws_first numeral_eq_Suc)

lemma trim_plain:
  assumes "s = [] \<or> (plain_char (hd s) \<and> plain_char (last s))"
  shows "trim s = s"
proof (cases "s = []")
  case False
  with assms have "ws_start s = 0" using ws_start_plain [of "hd s" "tl s"] by simp
  moreover from False assms have "ws_end s = 0"
    using ws_end_plain [of "last s" "butlast s"] by simp
  ultimately show ?thesis by (simp add: trim_def trim_start_id trim_end_id)
qed simp

lemma trim_plain_newline:
  assumes "s \<noteq> []" "plain_char (hd s)" "plain_char (last s)"
  shows "trim (s @ ''\<newline>'') = s"
proof -
  have "ws_start (s @ ''\<newline>'') = 0"
    using assms ws_start_plain [of "hd s" "tl s @ ''\<newline>''"] by (cases s) simp_all
  moreover have "ws_end (s @ ''\<newline>'') = 1"
    by (simp add: ws_end_def is_ws_def)
  moreover have "ws_end s = 0"
    using assms ws_end_plain [of "last s" "butlast s"] by simp
  ultimately show ?thesis
    by (simp add: trim_def trim_start_id trim_end.simps [of "s @ ''\<newline>''"] trim_end_id)
qed

section \<open>Prefixes, suffixes and splitting\<close>

definition starts_with :: "str \<Rightarrow> str \<Rightarrow> bool" where
  "starts_with s p \<longleftrightarrow> take (length p) s = p"

definition strip_prefix :: "str \<Rightarrow> str \<Rightarrow> str option" where
  "strip_prefix p s = (if starts_with s p then Some (drop (length p) s) else None)"

definition strip_suffix :: "str \<Rightarrow> str \<Rightarrow> str option" where
  "strip_suffix p s =
     (if length p \<le> length s \<and> drop (length s - length p) s = p
      then Some (take (length s - length p) s) else None)"

lemma starts_with_append [simp]: "starts_with (p @ s) p"
  by (simp add: starts_with_def)

lemma starts_withD: "starts_with s p \<Longrightarrow> \<exists>t. s = p @ t"
  unfolding starts_with_def by (metis append_take_drop_id)

lemma strip_prefix_append [simp]: "strip_prefix p (p @ s) = Some s"
  by (simp add: strip_prefix_def)

lemma strip_prefix_Some_iff: "strip_prefix p s = Some t \<longleftrightarrow> s = p @ t"
proof
  assume "strip_prefix p s = Some t"
  then show "s = p @ t"
    by (auto simp: strip_prefix_def starts_with_def split: if_splits) (metis append_take_drop_id)
qed simp

lemma strip_suffix_append [simp]: "strip_suffix p (s @ p) = Some s"
  by (simp add: strip_suffix_def)

lemma strip_suffix_Some_iff: "strip_suffix p s = Some t \<longleftrightarrow> s = t @ p"
proof
  assume "strip_suffix p s = Some t"
  then show "s = t @ p"
    by (auto simp: strip_suffix_def split: if_splits) (metis append_take_drop_id)
qed simp

text \<open>\<^verbatim>\<open>trim_end_matches(c)\<close> and \<^verbatim>\<open>replace(a, b)\<close> for characters.\<close>

definition trim_end_char :: "char \<Rightarrow> str \<Rightarrow> str" where
  "trim_end_char c s = rev (dropWhile (\<lambda>x. x = c) (rev s))"

definition replace_char :: "char \<Rightarrow> char \<Rightarrow> str \<Rightarrow> str" where
  "replace_char a b = map (\<lambda>c. if c = a then b else c)"

text \<open>\<^verbatim>\<open>split(c)\<close>: always at least one part.\<close>

fun split_on :: "char \<Rightarrow> str \<Rightarrow> str list" where
  "split_on c [] = [[]]"
| "split_on c (x # xs) =
     (if x = c then [] # split_on c xs
      else (case split_on c xs of [] \<Rightarrow> [[x]] | p # ps \<Rightarrow> (x # p) # ps))"

lemma split_on_not_Nil [simp]: "split_on c s \<noteq> []"
  by (induction s) (auto split: list.splits)

lemma split_on_no_sep: "p \<in> set (split_on c s) \<Longrightarrow> c \<notin> set p"
  by (induction s arbitrary: p) (auto split: list.splits if_splits)

text \<open>\<^verbatim>\<open>slice.join(sep)\<close>.\<close>

fun join_with :: "str \<Rightarrow> str list \<Rightarrow> str" where
  "join_with sep [] = []"
| "join_with sep [x] = x"
| "join_with sep (x # y # ys) = x @ sep @ join_with sep (y # ys)"

lemma join_with_split_on: "join_with [c] (split_on c s) = s"
proof (induction s)
  case (Cons x xs)
  then show ?case
    by (cases "split_on c xs"; cases "tl (split_on c xs)") auto
qed simp

lemma split_on_plain: "c \<notin> set s \<Longrightarrow> split_on c s = [s]"
  by (induction s) auto

lemma split_on_append: "c \<notin> set p \<Longrightarrow> split_on c (p @ c # s) = p # split_on c s"
  by (induction p) auto

lemma split_on_join_with:
  "ps \<noteq> [] \<Longrightarrow> (\<forall>p \<in> set ps. c \<notin> set p) \<Longrightarrow> split_on c (join_with [c] ps) = ps"
proof (induction ps)
  case (Cons p ps)
  then show ?case by (cases ps) (auto simp: split_on_plain split_on_append)
qed simp

text \<open>\<^verbatim>\<open>split_once(c)\<close> and \<^verbatim>\<open>lines()\<close> (a final line end adds no line; a \<^verbatim>\<open>\r\<close> before it is dropped).\<close>

fun split_once :: "char \<Rightarrow> str \<Rightarrow> (str \<times> str) option" where
  "split_once c [] = None"
| "split_once c (x # xs) =
     (if x = c then Some ([], xs) else map_option (\<lambda>(a, b). (x # a, b)) (split_once c xs))"

lemma split_once_append [simp]: "c \<notin> set a \<Longrightarrow> split_once c (a @ c # b) = Some (a, b)"
  by (induction a) auto

lemma split_once_Some: "split_once c s = Some (a, b) \<Longrightarrow> s = a @ c # b \<and> c \<notin> set a"
  by (induction s arbitrary: a) (auto split: if_splits)

definition drop_cr :: "str \<Rightarrow> str" where
  "drop_cr l = (if l \<noteq> [] \<and> last l = CHR 0x0D then butlast l else l)"

definition lines_of :: "str \<Rightarrow> str list" where
  "lines_of s =
     (let ps = split_on CHR 0x0A s; qs = (if last ps = [] then butlast ps else ps)
      in map drop_cr (butlast qs) @ (if qs = [] then [] else [if last ps = [] then drop_cr (last qs) else last qs]))"

section \<open>ASCII classes, hexadecimal, decimal\<close>

definition is_ascii_hexdigit :: "char \<Rightarrow> bool" where
  "is_ascii_hexdigit c \<longleftrightarrow> c \<in> set ''0123456789abcdefABCDEF''"

definition is_ascii_uppercase :: "char \<Rightarrow> bool" where
  "is_ascii_uppercase c \<longleftrightarrow> c \<in> set ''ABCDEFGHIJKLMNOPQRSTUVWXYZ''"

definition is_ascii_alphanumeric :: "char \<Rightarrow> bool" where
  "is_ascii_alphanumeric c \<longleftrightarrow> c \<in> set ''0123456789abcdefghijklmnopqrstuvwxyzABCDEFGHIJKLMNOPQRSTUVWXYZ''"

definition to_ascii_lower_char :: "char \<Rightarrow> char" where
  "to_ascii_lower_char c = (if is_ascii_uppercase c then char_of (of_char c + 32 :: nat) else c)"

definition to_ascii_lowercase :: "str \<Rightarrow> str" where
  "to_ascii_lowercase = map to_ascii_lower_char"

definition hex_alphabet :: str where
  "hex_alphabet = ''0123456789abcdef''"

definition hex_digit :: "nat \<Rightarrow> char" where
  "hex_digit n = hex_alphabet ! n"

text \<open>\<^verbatim>\<open>format!("{byte:02x}")\<close> over a slice.\<close>

definition hex_byte :: "u8 \<Rightarrow> str" where
  "hex_byte b = [hex_digit (unat b div 16), hex_digit (unat b mod 16)]"

definition lower_hex :: "bytes \<Rightarrow> str" where
  "lower_hex bs = concat (map hex_byte bs)"

lemma lower_hex_simps [simp]:
  "lower_hex [] = []" "lower_hex (b # bs) = hex_byte b @ lower_hex bs"
  by (simp_all add: lower_hex_def)

lemma length_hex_byte [simp]: "length (hex_byte b) = 2"
  by (simp add: hex_byte_def)

lemma length_lower_hex [simp]: "length (lower_hex bs) = 2 * length bs"
  by (induction bs) auto

lemma length_hex_alphabet [simp]: "length hex_alphabet = 16"
  by (simp add: hex_alphabet_def)

lemma hex_digit_in: "n < 16 \<Longrightarrow> hex_digit n \<in> set hex_alphabet"
  unfolding hex_digit_def by (rule nth_mem) simp

lemma unat_u8_less [simp]: "unat (b :: u8) < 256"
  using unsigned_less [of b] by simp

lemma hex_byte_set: "set (hex_byte b) \<subseteq> set hex_alphabet"
proof -
  have "unat b div 16 < 16" using unat_u8_less [of b] by (simp add: less_mult_imp_div_less)
  then show ?thesis by (simp add: hex_byte_def hex_digit_in)
qed

lemma lower_hex_set: "set (lower_hex bs) \<subseteq> set hex_alphabet"
  using hex_byte_set by (induction bs) auto

text \<open>Decimal display of an unsigned integer.\<close>

fun show_nat :: "nat \<Rightarrow> str" where
  "show_nat n = (if n < 10 then [''0123456789'' ! n] else show_nat (n div 10) @ [''0123456789'' ! (n mod 10)])"

declare show_nat.simps [simp del]

definition str_bytes :: "str \<Rightarrow> bytes" where
  "str_bytes s = map of_char s"

lemma length_str_bytes [simp]: "length (str_bytes s) = length s"
  by (simp add: str_bytes_def)

lemma unat_of_char_u8: "unat (of_char c :: u8) = of_char c"
proof -
  have "unat (of_char c :: u8) = of_char c mod 2 ^ LENGTH(8)"
    by (metis of_nat_of_char unat_of_nat)
  then show ?thesis by simp
qed

lemma inj_str_bytes: "str_bytes s = str_bytes t \<Longrightarrow> s = t"
proof -
  have "inj (of_char :: char \<Rightarrow> u8)"
    by (rule injI) (metis of_char_eq_iff unat_of_char_u8)
  then show "str_bytes s = str_bytes t \<Longrightarrow> s = t"
    by (simp add: str_bytes_def inj_map_eq_map)
qed

end
