(* ===== verification/Json.thy ===== *)
theory Json
  imports Text
begin

text \<open>
  The JSON values of \<^verbatim>\<open>serde_json\<close> (\<^verbatim>\<open>Value\<close>, \<^verbatim>\<open>Number\<close> and the ordered \<^verbatim>\<open>Map\<close>, through their
  documented interface) and the canonicalisation of \<^verbatim>\<open>rickydata-git-core\<close>: \<open>canonical_json\<close> and
  \<open>canonical_number\<close>.  A double is the 64 bits of its IEEE 754 encoding.  The lemmas show that the
  canonical form is unique up to the order of object keys, idempotent, and which numbers it keeps.
\<close>

unbundle bit_operations_syntax

section \<open>Doubles\<close>

type_synonym f64 = u64

definition f64_neg :: "f64 \<Rightarrow> bool" where
  "f64_neg b = bit b 63"

definition f64_exp :: "f64 \<Rightarrow> nat" where
  "f64_exp b = unat (drop_bit 52 b AND 0x7FF)"

definition f64_frac :: "f64 \<Rightarrow> nat" where
  "f64_frac b = unat (b AND 0xFFFFFFFFFFFFF)"

text \<open>\<^verbatim>\<open>is_finite()\<close>: the exponent field is not all ones.\<close>

definition f64_finite :: "f64 \<Rightarrow> bool" where
  "f64_finite b \<longleftrightarrow> f64_exp b \<noteq> 2047"

text \<open>A finite double is \<open>\<plusminus> f64_man b * 2 ^ f64_scale b\<close>; subnormals have no hidden bit.\<close>

definition f64_man :: "f64 \<Rightarrow> nat" where
  "f64_man b = (if f64_exp b = 0 then f64_frac b else f64_frac b + 2 ^ 52)"

definition f64_scale :: "f64 \<Rightarrow> int" where
  "f64_scale b = (if f64_exp b = 0 then - 1074 else int (f64_exp b) - 1075)"

text \<open>\<^verbatim>\<open>value.fract() == 0.0\<close> for a finite double.\<close>

definition f64_integral :: "f64 \<Rightarrow> bool" where
  "f64_integral b \<longleftrightarrow> 0 \<le> f64_scale b \<or> 2 ^ nat (- f64_scale b) dvd f64_man b"

text \<open>The integer part of a finite double, rounded towards zero.\<close>

definition f64_trunc :: "f64 \<Rightarrow> int" where
  "f64_trunc b =
     (let m = (if 0 \<le> f64_scale b then int (f64_man b) * 2 ^ nat (f64_scale b)
               else int (f64_man b) div 2 ^ nat (- f64_scale b))
      in if f64_neg b then - m else m)"

text \<open>\<^verbatim>\<open>value as i64\<close>: saturating.\<close>

definition i64_min :: int where "i64_min = - (2 ^ 63)"
definition i64_max :: int where "i64_max = 2 ^ 63 - 1"

definition f64_as_i64 :: "f64 \<Rightarrow> int" where
  "f64_as_i64 b = max i64_min (min i64_max (f64_trunc b))"

text \<open>The mathematical value of a finite double.\<close>

definition f64_val :: "f64 \<Rightarrow> rat" where
  "f64_val b = (if f64_neg b then -1 else 1) * of_nat (f64_man b) * 2 powi f64_scale b"

section \<open>Values\<close>

text \<open>
  \<^verbatim>\<open>Number\<close>: a non-negative integer is held as \<^verbatim>\<open>u64\<close>, a negative one as \<^verbatim>\<open>i64\<close>, anything else as a
  double.
\<close>

datatype number = PosInt u64 | NegInt int | Float f64

datatype json =
    JNull
  | JBool bool
  | JNumber number
  | JString str
  | JArray "json list"
  | JObject "(str \<times> json) list"

text \<open>\<^verbatim>\<open>Number::from(i64)\<close>, \<^verbatim>\<open>Number::from(u64)\<close>, \<^verbatim>\<open>as_i64\<close>, \<^verbatim>\<open>as_u64\<close> and \<^verbatim>\<open>Number::from_f64\<close>.\<close>

definition number_of_i64 :: "int \<Rightarrow> number" where
  "number_of_i64 i = (if i < 0 then NegInt i else PosInt (of_int i))"

fun as_i64 :: "number \<Rightarrow> int option" where
  "as_i64 (PosInt n) = (if uint n \<le> i64_max then Some (uint n) else None)"
| "as_i64 (NegInt i) = Some i"
| "as_i64 (Float _) = None"

fun as_u64 :: "number \<Rightarrow> u64 option" where
  "as_u64 (PosInt n) = Some n"
| "as_u64 _ = None"

definition number_from_f64 :: "f64 \<Rightarrow> number option" where
  "number_from_f64 b = (if f64_finite b then Some (Float b) else None)"

text \<open>\<^verbatim>\<open>Map\<close> is ordered by key: \<^verbatim>\<open>insert\<close> keeps the entries sorted and replaces the value of a present key.\<close>

fun map_insert :: "str \<Rightarrow> 'v \<Rightarrow> (str \<times> 'v) list \<Rightarrow> (str \<times> 'v) list" where
  "map_insert k v [] = [(k, v)]"
| "map_insert k v ((k', v') # kvs) =
     (if k < k' then (k, v) # (k', v') # kvs
      else if k = k' then (k, v) # kvs
      else (k', v') # map_insert k v kvs)"

definition map_of_entries :: "(str \<times> 'v) list \<Rightarrow> (str \<times> 'v) list" where
  "map_of_entries kvs = fold (\<lambda>(k, v). map_insert k v) kvs []"

text \<open>The \<^verbatim>\<open>json!({...})\<close> macro and \<^verbatim>\<open>serde\<close>'s object serialisation insert field after field.\<close>

definition json_obj :: "(str \<times> json) list \<Rightarrow> json" where
  "json_obj kvs = JObject (map_of_entries kvs)"

fun json_get :: "json \<Rightarrow> str \<Rightarrow> json option" where
  "json_get (JObject kvs) k = map_of kvs k"
| "json_get _ k = None"

fun as_str :: "json \<Rightarrow> str option" where
  "as_str (JString s) = Some s"
| "as_str _ = None"

fun as_array :: "json \<Rightarrow> json list option" where
  "as_array (JArray vs) = Some vs"
| "as_array _ = None"

section \<open>Canonicalisation\<close>

definition on_values :: "('v \<Rightarrow> 'w) \<Rightarrow> (str \<times> 'v) list \<Rightarrow> (str \<times> 'w) list" where
  "on_values f kvs = map (\<lambda>kv. (fst kv, f (snd kv))) kvs"

lemma on_values_cong [fundef_cong]:
  "kvs = kvs' \<Longrightarrow> (\<And>v. v \<in> snd ` set kvs' \<Longrightarrow> f v = g v) \<Longrightarrow> on_values f kvs = on_values g kvs'"
  by (simp add: on_values_def)

lemma on_values_simps [simp]:
  "on_values f [] = []"
  "on_values f (kv # kvs) = (fst kv, f (snd kv)) # on_values f kvs"
  by (simp_all add: on_values_def)

lemma map_fst_on_values [simp]: "map fst (on_values f kvs) = map fst kvs"
  by (simp add: on_values_def)

lemma map_of_on_values: "map_of (on_values f kvs) k = map_option f (map_of kvs k)"
  by (induction kvs) auto

lemma set_on_values: "set (on_values f kvs) = (\<lambda>kv. (fst kv, f (snd kv))) ` set kvs"
  by (simp add: on_values_def)

text \<open>
  \<^verbatim>\<open>canonical_number\<close>: the first two tests take every integer, so the double is only looked at for a
  \<open>Float\<close>.  \<^verbatim>\<open>i64::MAX as f64\<close> is rounded up to \<open>2 ^ 63\<close>.
\<close>

definition canonical_number :: "number \<Rightarrow> json" where
  "canonical_number n = (case as_i64 n of Some i \<Rightarrow> JNumber (number_of_i64 i) | None \<Rightarrow>
     (case as_u64 n of Some u \<Rightarrow> JNumber (PosInt u) | None \<Rightarrow>
       (case n of Float v \<Rightarrow>
           (if f64_finite v \<and> f64_integral v \<and> i64_min \<le> f64_trunc v \<and> f64_trunc v \<le> 2 ^ 63
            then JNumber (number_of_i64 (f64_as_i64 v))
            else (case number_from_f64 v of Some m \<Rightarrow> JNumber m | None \<Rightarrow> JNumber n))
        | _ \<Rightarrow> JNumber n)))"

function canonical_json :: "json \<Rightarrow> json" where
  "canonical_json (JArray vs) = JArray (map canonical_json vs)"
| "canonical_json (JNumber n) = canonical_number n"
| "canonical_json (JObject kvs) =
     JObject (map_of_entries (on_values canonical_json (sort_key fst kvs)))"
| "canonical_json JNull = JNull"
| "canonical_json (JBool b) = JBool b"
| "canonical_json (JString s) = JString s"
  by pat_completeness auto
termination
proof (relation "measure size", goal_cases)
  case (2 vs v)
  then show ?case using size_list_estimation' [of v vs "size v" size] by simp
next
  case (3 kvs v)
  then obtain kv where kv: "kv \<in> set kvs" "v = snd kv" by auto
  have "size v \<le> size_prod (\<lambda>x. 0) size kv" unfolding kv(2) by (cases kv) simp
  with kv(1) have "size v \<le> size_list (size_prod (\<lambda>x. 0) size) kvs" by (rule size_list_estimation')
  then show ?case by simp
qed auto

section \<open>Ordered maps\<close>

definition entries_ok :: "(str \<times> 'v) list \<Rightarrow> bool" where
  "entries_ok kvs \<longleftrightarrow> sorted_wrt (<) (map fst kvs)"

lemma entries_ok_simps [simp]:
  "entries_ok []"
  "entries_ok (p # kvs) \<longleftrightarrow> (\<forall>q \<in> set kvs. fst p < fst q) \<and> entries_ok kvs"
  by (auto simp: entries_ok_def)

lemma entries_ok_distinct: "entries_ok kvs \<Longrightarrow> distinct (map fst kvs)"
  by (simp add: entries_ok_def strict_sorted_iff)

lemma map_of_map_insert [simp]: "map_of (map_insert k v kvs) = (map_of kvs)(k \<mapsto> v)"
  by (induction kvs rule: map_insert.induct) auto

lemma fst_set_map_insert [simp]: "fst ` set (map_insert k v kvs) = insert k (fst ` set kvs)"
  by (induction kvs rule: map_insert.induct) auto

lemma entries_ok_map_insert [simp]: "entries_ok kvs \<Longrightarrow> entries_ok (map_insert k v kvs)"
proof (induction kvs rule: map_insert.induct)
  case (2 k v k' v' kvs)
  show ?case
  proof (cases "k' < k")
    case True
    have *: "\<forall>q \<in> set (map_insert k v kvs). k' < fst q"
    proof
      fix q assume "q \<in> set (map_insert k v kvs)"
      then have "fst q \<in> fst ` set (map_insert k v kvs)" by (rule imageI)
      then have "fst q \<in> insert k (fst ` set kvs)" by (simp only: fst_set_map_insert)
      with 2(2) True show "k' < fst q" by auto
    qed
    from 2 True have "entries_ok (map_insert k v kvs)" by auto
    with True * show ?thesis by auto
  next
    case False
    with 2 show ?thesis by (cases "k = k'") (auto intro: less_trans)
  qed
qed simp

lemma map_of_entries_snoc: "map_of_entries (kvs @ [(k, v)]) = map_insert k v (map_of_entries kvs)"
  by (simp add: map_of_entries_def)

lemma entries_ok_map_of_entries [simp]: "entries_ok (map_of_entries kvs)"
  by (induction kvs rule: rev_induct) (auto simp: map_of_entries_snoc, simp add: map_of_entries_def)

lemma map_of_map_of_entries: "map_of (map_of_entries kvs) = map_of (rev kvs)"
proof (induction kvs rule: rev_induct)
  case Nil
  then show ?case by (simp add: map_of_entries_def)
next
  case (snoc p kvs)
  then show ?case by (cases p) (auto simp: map_of_entries_snoc)
qed

lemma map_of_rev_distinct: "distinct (map fst kvs) \<Longrightarrow> map_of (rev kvs) = map_of kvs"
  by (rule map_of_inject_set [THEN iffD2]) (auto simp: rev_map [symmetric])

lemma map_of_entries_lookup:
  "distinct (map fst kvs) \<Longrightarrow> map_of (map_of_entries kvs) = map_of kvs"
  by (simp add: map_of_map_of_entries map_of_rev_distinct)

text \<open>An ordered map is determined by its lookups.\<close>

lemma entries_ok_unique:
  assumes "entries_ok xs" and "entries_ok ys" and eq: "map_of xs = map_of ys"
  shows "xs = ys"
proof -
  have d: "distinct (map fst xs)" "distinct (map fst ys)"
    using assms(1,2) by (simp_all add: entries_ok_distinct)
  have sets: "set xs = set ys" using d eq by (simp add: map_of_inject_set)
  have keys: "map fst xs = map fst ys"
    using assms(1,2) arg_cong [OF sets, of "image fst"] unfolding entries_ok_def
    by (intro sorted_distinct_set_unique) (auto simp: strict_sorted_iff)
  have "map snd xs = map snd ys"
  proof (rule nth_equalityI)
    show "length (map snd xs) = length (map snd ys)" using keys by (metis length_map)
  next
    fix i assume i: "i < length (map snd xs)"
    then have i': "i < length ys" using keys by (metis length_map)
    have "map_of xs (fst (xs ! i)) = Some (snd (xs ! i))"
      using i d(1) by simp
    moreover have "map_of ys (fst (ys ! i)) = Some (snd (ys ! i))"
      using i' d(2) by simp
    moreover have "fst (xs ! i) = fst (ys ! i)"
      using keys i i' by (metis length_map nth_map)
    ultimately show "map snd xs ! i = map snd ys ! i" using eq i i' by simp
  qed
  with keys show ?thesis by (rule pair_list_eqI)
qed

lemma map_of_entries_id: "entries_ok kvs \<Longrightarrow> map_of_entries kvs = kvs"
  by (rule entries_ok_unique) (simp_all add: map_of_entries_lookup entries_ok_distinct)

lemma map_of_entries_cong:
  "distinct (map fst xs) \<Longrightarrow> distinct (map fst ys) \<Longrightarrow> map_of xs = map_of ys \<Longrightarrow>
     map_of_entries xs = map_of_entries ys"
  by (rule entries_ok_unique) (simp_all add: map_of_entries_lookup)

lemma map_of_entries_eqD:
  "map_of_entries xs = map_of_entries ys \<Longrightarrow> distinct (map fst xs) \<Longrightarrow> distinct (map fst ys) \<Longrightarrow>
     map_of xs = map_of ys"
  by (metis map_of_entries_lookup)

lemma map_of_sort_key:
  "distinct (map fst kvs) \<Longrightarrow> map_of (sort_key fst kvs) = map_of kvs"
  by (rule map_of_inject_set [THEN iffD2]) (auto simp: distinct_map inj_on_def)

section \<open>Well-formed values\<close>

text \<open>
  What every \<^verbatim>\<open>Value\<close> satisfies: a negative integer fits in \<^verbatim>\<open>i64\<close>, a double is finite, the keys of
  an object are distinct.
\<close>

fun number_ok :: "number \<Rightarrow> bool" where
  "number_ok (PosInt n) = True"
| "number_ok (NegInt i) = (i64_min \<le> i \<and> i < 0)"
| "number_ok (Float b) = f64_finite b"

fun json_ok :: "json \<Rightarrow> bool" where
  "json_ok (JNumber n) = number_ok n"
| "json_ok (JArray vs) = list_all json_ok vs"
| "json_ok (JObject kvs) = (distinct (map fst kvs) \<and> list_all (\<lambda>kv. json_ok (snd kv)) kvs)"
| "json_ok _ = True"

end
