(* ===== verification/Canonical.thy ===== *)
theory Canonical
  imports Json
begin

text \<open>
  What \<open>canonical_json\<close> guarantees: it always yields a well-formed value, it is idempotent, two values
  have the same canonical form exactly when they are the same document up to the order of keys and
  numbers of equal value, and a number keeps its mathematical value.  Two exceptions are part of the
  statements: the saturating cast turns the double \<open>2 ^ 63\<close> into \<open>2 ^ 63 - 1\<close>, and a double above \<open>2 ^ 63\<close>
  stays a double, so it differs from the integer of its value.
\<close>

section \<open>Numbers\<close>

lemma i64_bounds [simp]: "i64_min < 0" "0 < i64_max" "i64_min \<le> i64_max"
  by (simp_all add: i64_min_def i64_max_def)

lemma uint_of_int_i64: "0 \<le> i \<Longrightarrow> i \<le> i64_max \<Longrightarrow> uint (of_int i :: u64) = i"
  by (simp add: i64_max_def uint_word_of_int take_bit_int_eq_self)

lemma as_i64_number_of_i64: "i64_min \<le> i \<Longrightarrow> i \<le> i64_max \<Longrightarrow> as_i64 (number_of_i64 i) = Some i"
  by (simp add: number_of_i64_def uint_of_int_i64)

lemma number_ok_number_of_i64 [simp]: "i64_min \<le> i \<Longrightarrow> number_ok (number_of_i64 i)"
  by (simp add: number_of_i64_def)

lemma f64_as_i64_bounds [simp]: "i64_min \<le> f64_as_i64 b" "f64_as_i64 b \<le> i64_max"
  by (auto simp: f64_as_i64_def)

text \<open>The cases of \<open>canonical_number\<close>.\<close>

definition float_fits :: "f64 \<Rightarrow> bool" where
  "float_fits v \<longleftrightarrow> f64_finite v \<and> f64_integral v \<and> i64_min \<le> f64_trunc v \<and> f64_trunc v \<le> 2 ^ 63"

lemma canonical_number_simps:
  "canonical_number (PosInt u) = JNumber (PosInt u)"
  "i < 0 \<Longrightarrow> canonical_number (NegInt i) = JNumber (NegInt i)"
  "canonical_number (Float v) = JNumber (if float_fits v then number_of_i64 (f64_as_i64 v) else Float v)"
  by (simp_all add: canonical_number_def number_of_i64_def float_fits_def number_from_f64_def)

lemma canonical_number_JNumber: "\<exists>m. canonical_number n = JNumber m"
  by (cases n) (auto simp: canonical_number_def split: option.splits)

lemma canonical_number_neq [simp]:
  "canonical_number n \<noteq> JNull" "canonical_number n \<noteq> JBool b" "canonical_number n \<noteq> JString s"
  "canonical_number n \<noteq> JArray vs" "canonical_number n \<noteq> JObject kvs"
  "JObject kvs \<noteq> canonical_number n"
  using canonical_number_JNumber [of n] by auto

lemma canonical_number_of_i64:
  "i64_min \<le> i \<Longrightarrow> i \<le> i64_max \<Longrightarrow> canonical_number (number_of_i64 i) = JNumber (number_of_i64 i)"
  by (simp add: canonical_number_def as_i64_number_of_i64)

lemma canonical_number_ok:
  "number_ok n \<Longrightarrow> canonical_number n = JNumber m \<Longrightarrow> number_ok m"
  by (cases n) (auto simp: canonical_number_simps)

lemma canonical_number_idem:
  "number_ok n \<Longrightarrow> canonical_number n = JNumber m \<Longrightarrow> canonical_number m = JNumber m"
  by (cases n) (auto simp: canonical_number_simps canonical_number_of_i64 split: if_splits)

text \<open>The mathematical value of a number.\<close>

fun number_val :: "number \<Rightarrow> rat" where
  "number_val (PosInt u) = of_int (uint u)"
| "number_val (NegInt i) = of_int i"
| "number_val (Float b) = f64_val b"

lemma f64_val_integral:
  assumes "f64_integral b"
  shows "f64_val b = of_int (f64_trunc b)"
proof (cases "0 \<le> f64_scale b")
  case True
  then have "(2 :: rat) powi f64_scale b = 2 ^ nat (f64_scale b)"
    by (simp add: power_int_def)
  with True show ?thesis by (simp add: f64_val_def f64_trunc_def Let_def)
next
  case False
  let ?k = "nat (- f64_scale b)"
  from False have p: "(2 :: rat) powi f64_scale b = 1 / 2 ^ ?k"
    by (simp add: power_int_def power_one_over)
  from False assms obtain q where q: "f64_man b = 2 ^ ?k * q"
    by (auto simp: f64_integral_def dvd_def)
  have "int (f64_man b) div 2 ^ ?k = int q" by (simp add: q)
  with False p show ?thesis by (simp add: f64_val_def f64_trunc_def Let_def q)
qed

lemma number_val_of_i64:
  "i \<le> i64_max \<Longrightarrow> number_val (number_of_i64 i) = of_int i"
  by (simp add: number_of_i64_def uint_of_int_i64)

lemma canonical_number_val:
  assumes "canonical_number n = JNumber m" "number_ok n"
  shows "number_val m = number_val n \<or>
    (\<exists>b. n = Float b \<and> f64_val b = 2 ^ 63 \<and> m = PosInt (2 ^ 63 - 1))"
proof (cases n)
  case (Float b)
  show ?thesis
  proof (cases "float_fits b")
    case True
    then have fit: "f64_integral b" "i64_min \<le> f64_trunc b" "f64_trunc b \<le> 2 ^ 63"
      by (simp_all add: float_fits_def)
    from True assms Float have m: "m = number_of_i64 (f64_as_i64 b)"
      by (simp add: canonical_number_simps)
    show ?thesis
    proof (cases "f64_trunc b = 2 ^ 63")
      case True
      then have "f64_as_i64 b = i64_max" by (simp add: f64_as_i64_def i64_max_def i64_min_def)
      with True Float m show ?thesis
        by (simp add: f64_val_integral [OF fit(1)] number_of_i64_def i64_max_def)
    next
      case False
      with fit have "f64_as_i64 b = f64_trunc b" "f64_trunc b \<le> i64_max"
        by (simp_all add: f64_as_i64_def i64_max_def i64_min_def)
      with Float m show ?thesis by (simp add: number_val_of_i64 f64_val_integral [OF fit(1)])
    qed
  next
    case False
    with assms Float show ?thesis by (simp add: canonical_number_simps)
  qed
qed (use assms in \<open>simp_all add: canonical_number_simps\<close>)

section \<open>Numbers that canonicalisation identifies\<close>

text \<open>A finite double other than zero is fixed by its value: the three fields of the encoding are.\<close>

lemma f64_fields_eq:
  assumes "f64_neg b = f64_neg c" "f64_exp b = f64_exp c" "f64_frac b = f64_frac c"
  shows "b = c"
proof (rule bit_word_eqI)
  fix n assume n: "n < LENGTH(64)"
  have m: "(0xFFFFFFFFFFFFF :: u64) = mask 52" "(0x7FF :: u64) = mask 11" by (simp_all add: mask_eq_exp_minus_1)
  have low: "take_bit 52 b = take_bit 52 c"
    using assms(3) by (simp add: f64_frac_def m take_bit_eq_mask word_unat_eq_iff)
  have mid: "take_bit 11 (drop_bit 52 b) = take_bit 11 (drop_bit 52 c)"
    using assms(2) by (simp add: f64_exp_def m take_bit_eq_mask word_unat_eq_iff)
  consider "n < 52" | "52 \<le> n" "n < 63" | "n = 63" using n by fastforce
  then show "bit b n = bit c n"
  proof cases
    case 1
    then show ?thesis using arg_cong [OF low, where f = "\<lambda>w. bit w n"] by (simp add: bit_take_bit_iff)
  next
    case 2
    then show ?thesis using arg_cong [OF mid, where f = "\<lambda>w. bit w (n - 52)"]
      by (auto simp: bit_take_bit_iff bit_drop_bit_eq)
  next
    case 3
    then show ?thesis using assms(1) by (simp add: f64_neg_def)
  qed
qed

lemma f64_frac_less: "f64_frac b < 2 ^ 52"
proof -
  have "b AND 0xFFFFFFFFFFFFF = take_bit 52 b" by (simp add: take_bit_eq_mask mask_eq_exp_minus_1)
  then have "f64_frac b = take_bit 52 (unat b)" by (simp only: f64_frac_def unsigned_take_bit_eq)
  then show ?thesis by (simp only: take_bit_nat_less_exp)
qed

lemma f64_man_bounds: "f64_man b < 2 ^ 53" "- 1074 < f64_scale b \<Longrightarrow> 2 ^ 52 \<le> f64_man b"
  "f64_scale b = f64_scale c \<Longrightarrow> f64_man b = f64_man c \<Longrightarrow> f64_exp b = f64_exp c \<and> f64_frac b = f64_frac c"
  using f64_frac_less [of b] f64_frac_less [of c] by (auto simp: f64_man_def f64_scale_def split: if_splits)

lemma f64_val_inj:
  assumes "f64_val b = f64_val c" "f64_val b \<noteq> 0"
  shows "b = c"
proof -
  have eq: "b = c" if v: "f64_val b = f64_val c" and nz: "f64_val b \<noteq> 0" and le: "f64_scale b \<le> f64_scale c" for b c
  proof -
    have pos: "0 < (of_nat (f64_man x) * 2 powi f64_scale x :: rat)" if "f64_val x \<noteq> 0" for x
      using that by (auto simp: f64_val_def)
    note pb = pos [OF nz] and pc = pos [OF nz [unfolded v]]
    have sign: "f64_neg b = f64_neg c" and mag: "(of_nat (f64_man b) * 2 powi f64_scale b :: rat) = of_nat (f64_man c) * 2 powi f64_scale c"
      using v pb pc unfolding f64_val_def by (auto split: if_splits)
    let ?k = "nat (f64_scale c - f64_scale b)"
    have "(2 :: rat) powi f64_scale c = 2 powi (int ?k + f64_scale b)" using le by simp
    also have "\<dots> = 2 ^ ?k * 2 powi f64_scale b" by (simp only: power_int_add power_int_of_nat zero_neq_numeral [symmetric] simp_thms)
    finally have "(of_nat (f64_man b) :: rat) * 2 powi f64_scale b = of_nat (f64_man c * 2 ^ ?k) * 2 powi f64_scale b"
      using mag by simp
    then have "(of_nat (f64_man b) :: rat) = of_nat (f64_man c * 2 ^ ?k)" by (rule mult_right_cancel [THEN iffD1, rotated]) simp
    then have man: "f64_man b = f64_man c * 2 ^ ?k" by (simp only: of_nat_eq_iff)
    have "?k = 0"
    proof (rule ccontr)
      assume k: "?k \<noteq> 0"
      moreover have "- 1074 \<le> f64_scale b" by (simp add: f64_scale_def)
      ultimately have "- 1074 < f64_scale c" by simp
      then have "2 ^ 52 \<le> f64_man c" by (rule f64_man_bounds)
      moreover have "(2 :: nat) ^ 1 \<le> 2 ^ ?k" using k by (intro power_increasing) simp_all
      ultimately have "2 ^ 52 * 2 ^ 1 \<le> f64_man c * 2 ^ ?k" by (rule mult_le_mono)
      then show False using man f64_man_bounds(1) [of b] by simp
    qed
    then have "f64_scale b = f64_scale c" "f64_man b = f64_man c" using man le by simp_all
    then show "b = c" using f64_fields_eq [OF sign] f64_man_bounds(3) by blast
  qed
  show ?thesis
  proof (cases "f64_scale b \<le> f64_scale c")
    case True
    then show ?thesis by (rule eq [OF assms])
  next
    case False
    then have "f64_scale c \<le> f64_scale b" by simp
    from eq [OF assms(1) [symmetric] _ this] show ?thesis using assms by simp
  qed
qed

lemma f64_val_int:
  assumes "f64_val b = of_int z"
  shows "f64_integral b" "f64_trunc b = z"
proof -
  show i: "f64_integral b"
  proof (cases "0 \<le> f64_scale b")
    case False
    let ?k = "nat (- f64_scale b)"
    from False have p: "(2 :: rat) powi f64_scale b = 1 / 2 ^ ?k"
      by (simp add: power_int_def power_one_over)
    have "(of_nat (f64_man b) :: rat) = of_int (if f64_neg b then - z else z) * 2 ^ ?k"
      using assms p by (auto simp: f64_val_def field_simps split: if_splits)
    then have "(of_int (int (f64_man b)) :: rat) = of_int ((if f64_neg b then - z else z) * 2 ^ ?k)" by simp
    then have "int (f64_man b) = (if f64_neg b then - z else z) * 2 ^ ?k" by (simp only: of_int_eq_iff)
    then have "(2 :: int) ^ ?k dvd int (f64_man b)" by simp
    then have "int (2 ^ ?k) dvd int (f64_man b)" by simp
    then have "2 ^ ?k dvd f64_man b" by (simp only: int_dvd_int_iff)
    then show ?thesis by (simp add: f64_integral_def)
  qed (simp add: f64_integral_def)
  then show "f64_trunc b = z" using f64_val_integral [OF i] assms by simp
qed

text \<open>
  When two numbers are the same for canonical JSON, said without it: they have the same value, where the
  double \<open>2 ^ 63\<close> counts as \<open>2 ^ 63 - 1\<close>, and above \<open>2 ^ 63\<close> a double is not the integer of its value.
\<close>

fun is_double :: "number \<Rightarrow> bool" where
  "is_double (Float b) = True"
| "is_double _ = False"

definition number_reading :: "number \<Rightarrow> rat" where
  "number_reading n = (if is_double n \<and> number_val n = 2 ^ 63 then 2 ^ 63 - 1 else number_val n)"

definition same_number :: "number \<Rightarrow> number \<Rightarrow> bool" where
  "same_number n m \<longleftrightarrow> number_reading n = number_reading m \<and> (2 ^ 63 < number_reading n \<longrightarrow> is_double n = is_double m)"

definition canonical_num_ok :: "number \<Rightarrow> bool" where
  "canonical_num_ok n \<longleftrightarrow> number_ok n \<and> (case n of Float b \<Rightarrow> \<not> float_fits b | _ \<Rightarrow> True)"

lemma canonical_reading:
  assumes "canonical_number n = JNumber k" "number_ok n"
  shows "canonical_num_ok k" "number_reading k = number_reading n" "2 ^ 63 < number_reading n \<Longrightarrow> is_double k = is_double n"
proof -
  have "canonical_num_ok k \<and> number_reading k = number_reading n \<and> (2 ^ 63 < number_reading n \<longrightarrow> is_double k = is_double n)"
  proof (cases n)
    case (Float b)
    show ?thesis
    proof (cases "float_fits b")
      case False
      then show ?thesis using assms Float by (auto simp: canonical_number_simps canonical_num_ok_def)
    next
      case True
      then have k: "k = number_of_i64 (f64_as_i64 b)" using assms Float by (simp add: canonical_number_simps)
      then have nd: "\<not> is_double k" by (simp add: number_of_i64_def)
      have "f64_val b \<le> 2 ^ 63" using True
        by (simp add: float_fits_def f64_val_integral)
      then have "\<not> 2 ^ 63 < number_reading n" by (simp add: number_reading_def Float)
      moreover have "number_reading k = number_reading n"
      proof (cases "f64_val b = 2 ^ 63")
        case True
        then have "f64_trunc b = 2 ^ 63" using f64_val_int(2) [of b "2 ^ 63"] by simp
        then have "k = PosInt (2 ^ 63 - 1)" by (simp add: k f64_as_i64_def i64_min_def i64_max_def number_of_i64_def)
        with True show ?thesis by (simp add: number_reading_def Float)
      next
        case False
        then have "number_val k = number_val n" using canonical_number_val [OF assms] Float by auto
        with False nd show ?thesis by (simp add: number_reading_def Float)
      qed
      moreover have "canonical_num_ok k" using canonical_number_ok [OF assms(2,1)] nd
        by (cases k) (simp_all add: canonical_num_ok_def)
      ultimately show ?thesis by blast
    qed
  qed (use assms in \<open>auto simp: canonical_number_simps canonical_num_ok_def\<close>)
  then show "canonical_num_ok k" "number_reading k = number_reading n" "2 ^ 63 < number_reading n \<Longrightarrow> is_double k = is_double n" by blast+
qed

lemma canonical_num_unique:
  assumes "canonical_num_ok k" "canonical_num_ok l" "number_reading k = number_reading l"
    and "2 ^ 63 < number_reading k \<Longrightarrow> is_double k = is_double l"
  shows "k = l"
proof -
  have free: "number_val (Float b) \<noteq> 2 ^ 63" "number_val (Float b) = of_int z \<Longrightarrow> i64_min \<le> z \<Longrightarrow> 2 ^ 63 < z"
    if b: "canonical_num_ok (Float b)" for b z
  proof -
    have *: "2 ^ 63 < z" if "f64_val b = of_int z" "i64_min \<le> z" for z
      using b f64_val_int [OF that(1)] that(2) by (auto simp: canonical_num_ok_def float_fits_def)
    from * [of "2 ^ 63"] show "number_val (Float b) \<noteq> 2 ^ 63" by (auto simp: i64_min_def)
    show "number_val (Float b) = of_int z \<Longrightarrow> i64_min \<le> z \<Longrightarrow> 2 ^ 63 < z" using * by simp
  qed
  have reading: "number_reading x = number_val x" if "canonical_num_ok x" for x
    using free(1) that by (cases x) (simp_all add: number_reading_def)
  note eq = assms(3) [unfolded reading [OF assms(1)] reading [OF assms(2)]]
  have whole: "\<exists>z. number_val x = of_int z \<and> i64_min \<le> z \<and> x = number_of_i64 z" if "canonical_num_ok x" "\<not> is_double x" for x
  proof (cases x)
    case (PosInt u)
    have "number_val x = of_int (uint u)" by (simp only: PosInt number_val.simps)
    moreover have "i64_min \<le> uint u" by (rule order_trans [of _ 0]) (simp_all add: i64_min_def)
    moreover have "x = number_of_i64 (uint u)" by (simp add: number_of_i64_def PosInt)
    ultimately show ?thesis by blast
  qed (use that in \<open>auto simp: canonical_num_ok_def number_of_i64_def\<close>)
  have mixed: "False" if "canonical_num_ok x" "canonical_num_ok y" "number_val x = number_val y" "is_double x" "\<not> is_double y"
    "2 ^ 63 < number_val x \<Longrightarrow> is_double x = is_double y" for x y
  proof -
    note h = that
    obtain z where z: "number_val y = of_int z" "i64_min \<le> z" using whole [OF h(2,5)] by blast
    obtain b where b: "x = Float b" using h(4) by (cases x) simp_all
    have "2 ^ 63 < z" using free(2) [of b z] h(1,3) z b by simp
    then have "(2 :: rat) ^ 63 < of_int z" by simp
    then show False using h z(1) by simp
  qed
  have "is_double k = is_double l"
    using mixed [OF assms(1,2) eq] mixed [OF assms(2,1) eq [symmetric]] assms(4) eq reading [OF assms(1)] by metis
  then consider "\<not> is_double k" "\<not> is_double l" | "is_double k" "is_double l" by blast
  then show ?thesis
  proof cases
    case 1
    obtain y z where yz: "number_val k = of_int y" "k = number_of_i64 y" "number_val l = of_int z" "l = number_of_i64 z"
      using whole [OF assms(1) 1(1)] whole [OF assms(2) 1(2)] by blast
    then have "y = z" using eq by (simp only: of_int_eq_iff)
    then show ?thesis using yz by simp
  next
    case 2
    then obtain b c where kl: "k = Float b" "l = Float c" by (cases k; cases l) simp_all
    have "f64_val b \<noteq> 0" using free(2) [of b 0] assms(1) kl by (auto simp: i64_min_def)
    then show ?thesis using f64_val_inj [of b c] eq kl by simp
  qed
qed

lemma canonical_number_eq_iff:
  assumes "number_ok n" "number_ok m"
  shows "canonical_number n = canonical_number m \<longleftrightarrow> same_number n m"
proof -
  obtain k l where k: "canonical_number n = JNumber k" and l: "canonical_number m = JNumber l"
    using canonical_number_JNumber by blast
  note rk = canonical_reading [OF k assms(1)] and rl = canonical_reading [OF l assms(2)]
  show ?thesis
  proof
    assume "canonical_number n = canonical_number m"
    then have "k = l" using k l by simp
    then show "same_number n m" using rk rl unfolding same_number_def by metis
  next
    assume "same_number n m"
    then have "k = l" using rk rl unfolding same_number_def by (intro canonical_num_unique) auto
    then show "canonical_number n = canonical_number m" using k l by simp
  qed
qed

section \<open>Documents\<close>

lemma distinct_fst_sort_key [simp]: "distinct (map fst (sort_key fst kvs)) \<longleftrightarrow> distinct (map fst kvs)"
  by (rule mset_eq_imp_distinct_iff) simp

text \<open>The sort is invisible: the entries are inserted into an ordered map.\<close>

lemma canonical_json_object:
  assumes "distinct (map fst kvs)"
  shows "canonical_json (JObject kvs) = JObject (map_of_entries (on_values canonical_json kvs))"
proof -
  have "map_of_entries (on_values canonical_json (sort_key fst kvs)) =
    map_of_entries (on_values canonical_json kvs)"
    using assms by (intro map_of_entries_cong) (simp_all add: fun_eq_iff map_of_on_values map_of_sort_key)
  then show ?thesis by simp
qed

lemma json_get_canonical_json:
  assumes "json_ok v"
  shows "json_get (canonical_json v) k = map_option canonical_json (json_get v k)"
proof (cases v)
  case (JObject kvs)
  with assms have d: "distinct (map fst kvs)" by simp
  show ?thesis
    unfolding JObject canonical_json_object [OF d] json_get.simps
    using d by (subst map_of_entries_lookup) (simp_all add: map_of_on_values)
next
  case (JNumber n)
  then show ?thesis using canonical_number_JNumber [of n] by auto
qed auto

lemma list_all_entries:
  "distinct (map fst kvs) \<Longrightarrow>
     list_all (\<lambda>kv. P (snd kv)) kvs \<longleftrightarrow> (\<forall>k v. map_of kvs k = Some v \<longrightarrow> P v)"
  by (auto simp: list_all_iff)

lemma canonical_json_ok: "json_ok v \<Longrightarrow> json_ok (canonical_json v)"
proof (induction v rule: canonical_json.induct)
  case (2 n)
  then show ?case using canonical_number_JNumber [of n] canonical_number_ok [of n] by auto
next
  case (3 kvs)
  then have d: "distinct (map fst kvs)" by simp
  have IH: "json_ok (canonical_json w)" if "(k, w) \<in> set kvs" for k w
    using 3 that by (force simp: list_all_iff)
  show ?case
    unfolding canonical_json_object [OF d] json_ok.simps
  proof (intro conjI)
    show "distinct (map fst (map_of_entries (on_values canonical_json kvs)))"
      by (simp add: entries_ok_distinct)
    then show "list_all (\<lambda>kv. json_ok (snd kv)) (map_of_entries (on_values canonical_json kvs))"
      using IH d
      by (simp only: list_all_entries map_of_entries_lookup map_fst_on_values map_of_on_values)
        (auto dest: map_of_SomeD)
  qed
qed (auto simp: list_all_iff)

lemma canonical_json_idem:
  "json_ok v \<Longrightarrow> canonical_json (canonical_json v) = canonical_json v"
proof (induction v rule: canonical_json.induct)
  case (2 n)
  then show ?case using canonical_number_JNumber [of n] canonical_number_idem [of n] by auto
next
  case (3 kvs)
  then have d: "distinct (map fst kvs)" by simp
  let ?c = "\<lambda>kvs. map_of_entries (on_values canonical_json kvs)"
  have IH: "canonical_json (canonical_json w) = canonical_json w" if "map_of kvs k = Some w" for k w
    using 3 that by (force simp: list_all_iff dest!: map_of_SomeD)
  have d': "distinct (map fst (?c kvs))" by (simp add: entries_ok_distinct)
  have "map_of (on_values canonical_json (?c kvs)) k = map_of (on_values canonical_json kvs) k" for k
  proof -
    have "map_of (?c kvs) k = map_option canonical_json (map_of kvs k)"
      using d by (subst map_of_entries_lookup) (simp_all add: map_of_on_values)
    then show ?thesis using IH by (cases "map_of kvs k") (simp_all add: map_of_on_values)
  qed
  then have "?c (?c kvs) = ?c kvs"
    using d d' by (intro map_of_entries_cong) (simp_all add: fun_eq_iff)
  then show ?case
    by (simp only: canonical_json_object [OF d] canonical_json_object [OF d'])
qed (auto simp: list_all_iff)

section \<open>Equality of documents\<close>

text \<open>The same document: object keys in any order, and numbers that are the same.\<close>

inductive json_equiv :: "json \<Rightarrow> json \<Rightarrow> bool" where
  null: "json_equiv JNull JNull"
| bool: "json_equiv (JBool b) (JBool b)"
| string: "json_equiv (JString s) (JString s)"
| number: "same_number n m \<Longrightarrow> json_equiv (JNumber n) (JNumber m)"
| array: "list_all2 json_equiv vs ws \<Longrightarrow> json_equiv (JArray vs) (JArray ws)"
| object: "dom (map_of kvs) = dom (map_of kws) \<Longrightarrow>
    (\<And>k v w. map_of kvs k = Some v \<Longrightarrow> map_of kws k = Some w \<Longrightarrow> json_equiv v w) \<Longrightarrow>
    json_equiv (JObject kvs) (JObject kws)"

inductive_simps json_equiv_simps:
  "json_equiv JNull w" "json_equiv (JBool b) w" "json_equiv (JString s) w"
  "json_equiv (JNumber n) w" "json_equiv (JArray vs) w" "json_equiv (JObject kvs) w"

lemma json_equiv_canonical:
  "json_equiv v w \<Longrightarrow> json_ok v \<Longrightarrow> json_ok w \<Longrightarrow> canonical_json v = canonical_json w"
proof (induction rule: json_equiv.induct)
  case (array vs ws)
  have "map canonical_json vs = map canonical_json ws"
    using array by (induction vs ws rule: list_all2_induct) auto
  then show ?case by simp
next
  case (object kvs kws)
  then have d: "distinct (map fst kvs)" "distinct (map fst kws)" by simp_all
  have ok: "json_ok v" "json_ok w" if "map_of kvs k = Some v" "map_of kws k = Some w" for k v w
    using object.prems that d by (auto simp: list_all_entries)
  have "map_option canonical_json (map_of kvs k) = map_option canonical_json (map_of kws k)" for k
  proof (cases "map_of kvs k")
    case None
    then have "map_of kws k = None" using object.hyps(1) by (metis domIff)
    with None show ?thesis by simp
  next
    case (Some v)
    then obtain w where "map_of kws k = Some w" using object.hyps(1) by (metis domD domI)
    with Some object.IH ok show ?thesis by auto
  qed
  then show ?case
    using d unfolding canonical_json_object [OF d(1)] canonical_json_object [OF d(2)]
    by (simp add: fun_eq_iff map_of_on_values map_of_entries_cong)
qed (auto simp: canonical_number_eq_iff)

lemma canonical_json_shape:
  "canonical_json v = JNull \<longleftrightarrow> v = JNull"
  "canonical_json v = JBool b \<longleftrightarrow> v = JBool b"
  "canonical_json v = JString s \<longleftrightarrow> v = JString s"
  "canonical_json v = JArray us \<longleftrightarrow> (\<exists>vs. v = JArray vs \<and> us = map canonical_json vs)"
  by (cases v; auto)+

lemma canonical_equiv:
  "canonical_json v = canonical_json w \<Longrightarrow> json_ok v \<Longrightarrow> json_ok w \<Longrightarrow> json_equiv v w"
proof (induction v arbitrary: w rule: canonical_json.induct)
  case (1 vs)
  then obtain ws where w: "w = JArray ws" and eq: "map canonical_json vs = map canonical_json ws"
    by (metis canonical_json.simps(1) canonical_json_shape(4))
  have "list_all2 json_equiv vs ws"
    unfolding list_all2_conv_all_nth
  proof (intro conjI allI impI)
    show len: "length vs = length ws" using eq by (rule map_eq_imp_length_eq)
    fix i assume i: "i < length vs"
    have "canonical_json (vs ! i) = canonical_json (ws ! i)"
      using eq i len by (metis nth_map)
    moreover have "json_ok (vs ! i)" "json_ok (ws ! i)"
      using 1 i len unfolding w by (simp_all add: list_all_length)
    ultimately show "json_equiv (vs ! i) (ws ! i)" using "1.IH" i by simp
  qed
  then show ?case unfolding w by (rule json_equiv.array)
next
  case (2 n)
  then obtain m where "w = JNumber m"
    using canonical_number_JNumber [of n] canonical_json_shape [of w]
    by (cases w) auto
  with 2 show ?case by (auto intro: json_equiv.number simp: canonical_number_eq_iff)
next
  case (3 kvs)
  from "3.prems"(1) obtain kws where w: "w = JObject kws"
    by (cases w) auto
  from 3 w have d: "distinct (map fst kvs)" "distinct (map fst kws)" by simp_all
  have "map_of (on_values canonical_json kvs) = map_of (on_values canonical_json kws)"
    using "3.prems"(1) d unfolding w canonical_json_object [OF d(1)] canonical_json_object [OF d(2)]
    by (intro map_of_entries_eqD) simp_all
  then have eq: "map_option canonical_json (map_of kvs k) = map_option canonical_json (map_of kws k)" for k
    by (metis map_of_on_values)
  show ?case unfolding w
  proof (rule json_equiv.object)
    show "dom (map_of kvs) = dom (map_of kws)"
      using eq by (metis (no_types, lifting) domIff option.map_disc_iff subsetI subset_antisym)
  next
    fix k x y
    assume *: "map_of kvs k = Some x" "map_of kws k = Some y"
    then have "x \<in> snd ` set (sort_key fst kvs)" by (force dest: map_of_SomeD)
    moreover have "canonical_json x = canonical_json y" using eq [of k] * by simp
    moreover have "json_ok x" "json_ok y"
      using "3.prems" * d unfolding w by (auto simp: list_all_entries)
    ultimately show "json_equiv x y" using "3.IH" [of x y] by simp
  qed
next
  case 4
  then show ?case by (metis canonical_json.simps(4) canonical_json_shape(1) json_equiv.null)
next
  case (5 b)
  then show ?case by (metis canonical_json.simps(5) canonical_json_shape(2) json_equiv.bool)
next
  case (6 s)
  then show ?case by (metis canonical_json.simps(6) canonical_json_shape(3) json_equiv.string)
qed

lemma canonical_json_eq_iff:
  "json_ok v \<Longrightarrow> json_ok w \<Longrightarrow> canonical_json v = canonical_json w \<longleftrightarrow> json_equiv v w"
  using canonical_equiv json_equiv_canonical by blast

section \<open>Properties\<close>

text \<open>
  C1: two well-formed documents have the same canonical form exactly when they are the same document:
  strings, truth values and arrays are equal, objects hold the same keys, in any order, with the same
  values, and numbers have equal values, whether written as an integer or as a double.  Numbers are
  compared by \<open>same_number\<close>, which is about values and not about \<open>canonical_number\<close>, and has the two
  exceptions of the code: the double \<open>2 ^ 63\<close> counts as \<open>2 ^ 63 - 1\<close>, and above \<open>2 ^ 63\<close> a double is
  never the same as an integer.
\<close>

theorem canonical_json_unique:
  assumes "json_ok v" and "json_ok w"
  shows "canonical_json v = canonical_json w \<longleftrightarrow> json_equiv v w"
  using assms by (rule canonical_json_eq_iff)

theorem canonical_json_unique_witness:
  "canonical_json (JObject [(''b'', JNumber (PosInt 1)), (''a'', JBool True)]) =
     canonical_json (JObject [(''a'', JBool True), (''b'', JNumber (Float 0x3FF0000000000000))]) \<longleftrightarrow>
   json_equiv (JObject [(''b'', JNumber (PosInt 1)), (''a'', JBool True)])
     (JObject [(''a'', JBool True), (''b'', JNumber (Float 0x3FF0000000000000))])"
  by (rule canonical_json_unique) (simp_all add: f64_finite_def f64_exp_def)

text \<open>
  canonicalisation is idempotent on well-formed documents and keeps them well-formed, so an
  object read back and canonicalised again keeps its identity.
\<close>

theorem canonical_json_idempotent:
  assumes "json_ok v"
  shows "canonical_json (canonical_json v) = canonical_json v \<and> json_ok (canonical_json v)"
  using assms by (simp add: canonical_json_idem canonical_json_ok)

theorem canonical_json_idempotent_witness:
  "canonical_json (canonical_json (JArray [JNumber (Float 0x3FF0000000000000)])) =
     canonical_json (JArray [JNumber (Float 0x3FF0000000000000)]) \<and>
   json_ok (canonical_json (JArray [JNumber (Float 0x3FF0000000000000)]))"
proof (rule canonical_json_idempotent)
  show "json_ok (JArray [JNumber (Float 0x3FF0000000000000)])"
    by (simp add: f64_finite_def f64_exp_def) 
qed

text \<open>
  canonicalisation of a number keeps its mathematical value, except for the double \<open>2 ^ 63\<close>, which
  passes the range check (\<^verbatim>\<open>i64::MAX as f64\<close> is \<open>2 ^ 63\<close>) and is saturated to \<open>2 ^ 63 - 1\<close>.
\<close>

theorem canonical_number_value:
  assumes "number_ok n" and "canonical_number n = JNumber m"
  shows "number_val m = number_val n \<or>
    (\<exists>b. n = Float b \<and> f64_val b = 2 ^ 63 \<and> m = PosInt (2 ^ 63 - 1))"
  using assms(2,1) by (rule canonical_number_val)

theorem canonical_number_value_witness:
  "number_val (NegInt (- 5)) = number_val (NegInt (- 5)) \<or>
    (\<exists>b. NegInt (- 5) = Float b \<and> f64_val b = 2 ^ 63 \<and> NegInt (- 5) = PosInt (2 ^ 63 - 1))"
  by (rule canonical_number_value)
    (simp_all add: canonical_number_simps i64_min_def)

text \<open>
  C2: two different numbers share a canonical form: the double \<open>2 ^ 63\<close> and the integer \<open>2 ^ 63 - 1\<close>,
  while the integer \<open>2 ^ 63\<close> keeps its own.
\<close>

theorem canonical_number_collision:
  "canonical_json (JNumber (Float 0x43E0000000000000)) =
     canonical_json (JNumber (PosInt 0x7FFFFFFFFFFFFFFF)) \<and>
   number_val (Float 0x43E0000000000000) = number_val (PosInt 0x8000000000000000) \<and>
   canonical_json (JNumber (PosInt 0x8000000000000000)) \<noteq>
     canonical_json (JNumber (PosInt 0x7FFFFFFFFFFFFFFF))"
proof -
  let ?b = "0x43E0000000000000 :: u64"
  have e: "f64_exp ?b = 1086" "f64_frac ?b = 0" "\<not> f64_neg ?b"
    by (simp_all add: f64_exp_def f64_frac_def f64_neg_def)
  then have m: "f64_man ?b = 2 ^ 52" "f64_scale ?b = 11" by (simp_all add: f64_man_def f64_scale_def)
  with e have t: "f64_trunc ?b = 2 ^ 63" "f64_val ?b = 2 ^ 63"
    by (simp_all add: f64_trunc_def f64_val_def power_int_def)
  have "float_fits ?b"
    using e m t by (simp add: float_fits_def f64_finite_def f64_integral_def i64_min_def)
  moreover have "f64_as_i64 ?b = 2 ^ 63 - 1" using t by (simp add: f64_as_i64_def i64_min_def i64_max_def)
  ultimately show ?thesis
    using t by (simp add: canonical_number_simps number_of_i64_def)
qed

end
