(* ===== verification/Codec.thy ===== *)
theory Codec
  imports Canonical
begin

text \<open>
  The third-party code the program relies on, as one record of functions (\<open>lib\<close>), its documented
  behaviour as named predicates, and the field-by-field shape of \<^verbatim>\<open>serde\<close>'s derived encoders and
  decoders: a struct is an object with one entry per field, an \<^verbatim>\<open>Option\<close> field may be absent or null,
  unknown fields are ignored.  Error texts of those libraries are values of the parameter too.
\<close>

record lib =
  sha256 :: "bytes \<Rightarrow> bytes"
  to_vec :: "json \<Rightarrow> str + bytes"
  to_vec_pretty :: "json \<Rightarrow> str + bytes"
  from_slice :: "bytes \<Rightarrow> str + json"
  shape_error :: "json \<Rightarrow> str"
  utf8_error :: "bytes \<Rightarrow> str"
  json_text :: "json \<Rightarrow> str"
  uuid_v5_url :: "str \<Rightarrow> str"
  debug_opt :: "str option \<Rightarrow> str"
  hex_encode :: "bytes \<Rightarrow> str"
  hex_decode :: "str \<Rightarrow> str + bytes"
  ed_public :: "bytes \<Rightarrow> bytes"
  ed_sign :: "bytes \<Rightarrow> bytes \<Rightarrow> bytes"
  ed_key_of_bytes :: "bytes \<Rightarrow> str + bytes"
  ed_verify :: "bytes \<Rightarrow> bytes \<Rightarrow> bytes \<Rightarrow> bool"
  aes_encrypt :: "bytes \<Rightarrow> bytes \<Rightarrow> bytes \<Rightarrow> str + bytes"
  aes_decrypt :: "bytes \<Rightarrow> bytes \<Rightarrow> bytes \<Rightarrow> str + bytes"

text \<open>
  The values \<^verbatim>\<open>serde_json\<close> parses back exactly: keys in map order, no double (the feature
  \<^verbatim>\<open>float_roundtrip\<close> is off, so reading a double may lose the last bit) and at most \<open>d\<close> levels of
  arrays and objects (the parser's recursion limit allows 127).
\<close>

fun json_plain :: "nat \<Rightarrow> json \<Rightarrow> bool" where
  "json_plain d (JNumber (Float b)) = False"
| "json_plain d (JNumber n) = number_ok n"
| "json_plain d (JArray vs) = (case d of 0 \<Rightarrow> False | Suc e \<Rightarrow> list_all (json_plain e) vs)"
| "json_plain d (JObject kvs) = (case d of 0 \<Rightarrow> False
     | Suc e \<Rightarrow> entries_ok kvs \<and> list_all (\<lambda>kv. json_plain e (snd kv)) kvs)"
| "json_plain d _ = True"

definition JSON_DEPTH :: nat where "JSON_DEPTH = 127"

text \<open>
  \<^verbatim>\<open>serde_json\<close> serialises every value, different values differently, and parsing what it wrote gives
  the value back.  (A HOL string that is not valid UTF-8 is no Rust \<^verbatim>\<open>String\<close>; nothing in the program
  has such a value.)
\<close>

definition json_writer :: "lib \<Rightarrow> (json \<Rightarrow> str + bytes) \<Rightarrow> bool" where
  "json_writer L w \<longleftrightarrow>
     (\<forall>v. json_ok v \<longrightarrow> (\<exists>b. w v = Inr b \<and> (json_plain JSON_DEPTH v \<longrightarrow> from_slice L b = Inr v))) \<and>
     (\<forall>v v' b. json_ok v \<longrightarrow> json_ok v' \<longrightarrow> w v = Inr b \<longrightarrow> w v' = Inr b \<longrightarrow> v = v')"

definition json_codec :: "lib \<Rightarrow> bool" where
  "json_codec L \<longleftrightarrow> json_writer L (to_vec L) \<and> json_writer L (to_vec_pretty L)"

text \<open>\<^verbatim>\<open>hex::decode\<close> inverts \<^verbatim>\<open>hex::encode\<close>, which writes two lower-case digits a byte.\<close>

definition hex_codec :: "lib \<Rightarrow> bool" where
  "hex_codec L \<longleftrightarrow>
     (\<forall>b. hex_encode L b = lower_hex b) \<and> (\<forall>b. hex_decode L (hex_encode L b) = Inr b)"

text \<open>SHA-256 digests have 32 bytes.\<close>

definition sha_sized :: "lib \<Rightarrow> bool" where
  "sha_sized L \<longleftrightarrow> (\<forall>b. length (sha256 L b) = 32)"

text \<open>Ed25519: key and signature sizes, and a signature verifies under the public key of its seed.\<close>

definition ed_correct :: "lib \<Rightarrow> bool" where
  "ed_correct L \<longleftrightarrow> (\<forall>seed msg. length seed = 32 \<longrightarrow>
     length (ed_public L seed) = 32 \<and> length (ed_sign L seed msg) = 64 \<and>
     (\<exists>vk. ed_key_of_bytes L (ed_public L seed) = Inr vk \<and> ed_verify L vk msg (ed_sign L seed msg)))"

text \<open>AES-256-GCM: what was encrypted is decrypted under the same key and nonce.\<close>

definition aes_correct :: "lib \<Rightarrow> bool" where
  "aes_correct L \<longleftrightarrow> (\<forall>key nonce pt ct.
     length key = 32 \<longrightarrow> length nonce = 12 \<longrightarrow> aes_encrypt L key nonce pt = Inr ct \<longrightarrow>
     aes_decrypt L key nonce ct = Inr pt)"

text \<open>
  Two inputs with one digest, and two documents whose canonical bytes are such inputs.  Collisions exist
  for every function with digests of a fixed size, so what is claimed names the two inputs.
\<close>

definition sha_collision :: "lib \<Rightarrow> bytes \<Rightarrow> bytes \<Rightarrow> bool" where
  "sha_collision L a b \<longleftrightarrow> a \<noteq> b \<and> sha256 L a = sha256 L b"

definition documents_collide :: "lib \<Rightarrow> json \<Rightarrow> json \<Rightarrow> bool" where
  "documents_collide L v w \<longleftrightarrow> (\<exists>a b. to_vec L (canonical_json v) = Inr a \<and> to_vec L (canonical_json w) = Inr b \<and>
     sha_collision L a b)"

lemma json_plain_ok: "json_plain d v \<Longrightarrow> json_ok v"
  by (induction d v rule: json_plain.induct)
    (auto simp: list_all_iff entries_ok_distinct split: nat.splits)

lemma json_codecD:
  assumes "json_codec L" "json_ok v"
  obtains b where "to_vec L v = Inr b"
  using assms unfolding json_codec_def json_writer_def by blast

lemma json_codec_prettyD:
  assumes "json_codec L" "json_ok v"
  obtains b where "to_vec_pretty L v = Inr b" "json_plain JSON_DEPTH v \<Longrightarrow> from_slice L b = Inr v"
  using assms unfolding json_codec_def json_writer_def by blast

lemma from_slice_to_vec:
  "json_codec L \<Longrightarrow> json_plain JSON_DEPTH v \<Longrightarrow> to_vec L v = Inr b \<Longrightarrow> from_slice L b = Inr v"
  unfolding json_codec_def json_writer_def by (metis Inr_inject json_plain_ok)

lemma from_slice_to_vec_pretty:
  "json_codec L \<Longrightarrow> json_plain JSON_DEPTH v \<Longrightarrow> to_vec_pretty L v = Inr b \<Longrightarrow> from_slice L b = Inr v"
  unfolding json_codec_def json_writer_def by (metis Inr_inject json_plain_ok)

lemma to_vec_inj:
  assumes "json_codec L" "json_ok v" "json_ok w" "to_vec L v = Inr b" "to_vec L w = Inr b"
  shows "v = w"
  using assms unfolding json_codec_def json_writer_def by blast

lemma hex_codecD:
  "hex_codec L \<Longrightarrow> hex_decode L (hex_encode L b) = Inr b"
  "hex_codec L \<Longrightarrow> hex_encode L b = lower_hex b"
  unfolding hex_codec_def by blast+

lemma hex_encode_inj: "hex_codec L \<Longrightarrow> hex_encode L a = hex_encode L b \<Longrightarrow> a = b"
  by (metis Inr_inject hex_codecD(1))

section \<open>Encoders\<close>

definition jstr :: "str \<Rightarrow> json" where "jstr = JString"
definition ju64 :: "u64 \<Rightarrow> json" where "ju64 n = JNumber (PosInt n)"
definition jstrs :: "str list \<Rightarrow> json" where "jstrs ss = JArray (map JString ss)"

fun jopt :: "('a \<Rightarrow> json) \<Rightarrow> 'a option \<Rightarrow> json" where
  "jopt f None = JNull"
| "jopt f (Some x) = f x"

text \<open>A field with \<^verbatim>\<open>skip_serializing_if\<close>: absent when skipped.\<close>

fun opt_field :: "str \<Rightarrow> ('a \<Rightarrow> json) \<Rightarrow> 'a option \<Rightarrow> (str \<times> json) list" where
  "opt_field k f None = []"
| "opt_field k f (Some x) = [(k, f x)]"

definition list_field :: "str \<Rightarrow> ('a \<Rightarrow> json) \<Rightarrow> 'a list \<Rightarrow> (str \<times> json) list" where
  "list_field k f xs = (if xs = [] then [] else [(k, JArray (map f xs))])"

section \<open>Decoders\<close>

text \<open>A present field, an \<^verbatim>\<open>Option\<close> field, and a field with \<^verbatim>\<open>#[serde(default)]\<close>.\<close>

definition field :: "(json \<Rightarrow> 'a option) \<Rightarrow> str \<Rightarrow> json \<Rightarrow> 'a option" where
  "field d k v = Option.bind (json_get v k) d"

definition field_opt :: "(json \<Rightarrow> 'a option) \<Rightarrow> str \<Rightarrow> json \<Rightarrow> 'a option option" where
  "field_opt d k v = (case json_get v k of None \<Rightarrow> Some None | Some JNull \<Rightarrow> Some None
     | Some w \<Rightarrow> map_option Some (d w))"

definition field_default :: "'a \<Rightarrow> (json \<Rightarrow> 'a option) \<Rightarrow> str \<Rightarrow> json \<Rightarrow> 'a option" where
  "field_default x d k v = (case json_get v k of None \<Rightarrow> Some x | Some w \<Rightarrow> d w)"

fun d_str :: "json \<Rightarrow> str option" where
  "d_str (JString s) = Some s"
| "d_str _ = None"

fun d_bool :: "json \<Rightarrow> bool option" where
  "d_bool (JBool b) = Some b"
| "d_bool _ = None"

fun d_u64 :: "json \<Rightarrow> u64 option" where
  "d_u64 (JNumber (PosInt n)) = Some n"
| "d_u64 _ = None"

text \<open>Every element, or nothing.\<close>

fun o_collect :: "('a \<Rightarrow> 'b option) \<Rightarrow> 'a list \<Rightarrow> 'b list option" where
  "o_collect f [] = Some []"
| "o_collect f (x # xs) = (case f x of None \<Rightarrow> None | Some y \<Rightarrow> map_option (\<lambda>ys. y # ys) (o_collect f xs))"

fun d_list :: "(json \<Rightarrow> 'a option) \<Rightarrow> json \<Rightarrow> 'a list option" where
  "d_list d (JArray vs) = o_collect d vs"
| "d_list d _ = None"

definition from_value :: "lib \<Rightarrow> (json \<Rightarrow> 'a option) \<Rightarrow> json \<Rightarrow> str + 'a" where
  "from_value L d v = ok_or (shape_error L v) (d v)"

definition parse_as :: "lib \<Rightarrow> (json \<Rightarrow> 'a option) \<Rightarrow> bytes \<Rightarrow> str + 'a" where
  "parse_as L d b = r_bind (from_slice L b) (from_value L d)"

section \<open>Decoding what was encoded\<close>

named_theorems codec_simps \<open>evaluation of the field decoders on an encoded object\<close>

lemma o_collect_map: "(\<And>x. x \<in> set xs \<Longrightarrow> d (f x) = Some x) \<Longrightarrow> o_collect d (map f xs) = Some xs"
  by (induction xs) auto

lemma d_simps [simp, codec_simps]:
  "d_str (jstr s) = Some s" "d_u64 (ju64 n) = Some n" "d_list d_str (jstrs ss) = Some ss"
  "(\<And>x. x \<in> set xs \<Longrightarrow> d (f x) = Some x) \<Longrightarrow> d_list d (JArray (map f xs)) = Some xs"
  by (simp_all add: jstr_def ju64_def jstrs_def o_collect_map)

lemma json_get_json_obj:
  "distinct (map fst kvs) \<Longrightarrow> json_get (json_obj kvs) k = map_of kvs k"
  by (simp add: json_obj_def map_of_entries_lookup)

lemma map_of_opt_field [codec_simps]:
  "map_of (opt_field k f x @ kvs) j =
     (if j = k then (case x of None \<Rightarrow> map_of kvs j | Some y \<Rightarrow> Some (f y)) else map_of kvs j)"
  "map_of (opt_field k f x) j = (if j = k then map_option f x else None)"
  by (cases x; simp)+

lemma map_of_list_field [codec_simps]:
  "map_of (list_field k f xs @ kvs) j =
     (if j = k \<and> xs \<noteq> [] then Some (JArray (map f xs)) else map_of kvs j)"
  "map_of (list_field k f xs) j = (if j = k \<and> xs \<noteq> [] then Some (JArray (map f xs)) else None)"
  by (simp_all add: list_field_def)

lemma set_opt_field [codec_simps]: "set (map fst (opt_field k f x)) = (if x = None then {} else {k})"
  by (cases x) auto

lemma set_list_field [codec_simps]: "set (map fst (list_field k f xs)) = (if xs = [] then {} else {k})"
  by (simp add: list_field_def)

lemma fst_set_opt_field [codec_simps]: "fst ` set (opt_field k f x) = (if x = None then {} else {k})"
  by (cases x) auto

lemma fst_set_list_field [codec_simps]: "fst ` set (list_field k f xs) = (if xs = [] then {} else {k})"
  by (simp add: list_field_def)

lemma distinct_opt_field [codec_simps]: "distinct (map fst (opt_field k f x))"
  by (cases x) auto

lemma distinct_list_field [codec_simps]: "distinct (map fst (list_field k f xs))"
  by (simp add: list_field_def)

text \<open>An encoder never yields null: what an optional field needs to be read back.\<close>

lemma jnull_neq [simp]: "jstr s \<noteq> JNull" "ju64 n \<noteq> JNull" "jstrs ss \<noteq> JNull"
  by (simp_all add: jstr_def ju64_def jstrs_def)

lemma field_opt_alt:
  "field_opt d k v = (case json_get v k of None \<Rightarrow> Some None
     | Some w \<Rightarrow> if w = JNull then Some None else map_option Some (d w))"
  by (auto simp: field_opt_def split: option.splits json.splits)

lemma field_opt_jopt:
  assumes "json_get v k = Some (jopt f x)" and "\<And>y. d (f y) = Some y" and "\<And>y. f y \<noteq> JNull"
  shows "field_opt d k v = Some x"
  using assms by (cases x) (auto simp: field_opt_alt)

lemma field_opt_skip:
  assumes "json_get v k = map_option f x" and "\<And>y. d (f y) = Some y" and "\<And>y. f y \<noteq> JNull"
  shows "field_opt d k v = Some x"
  using assms by (cases x) (auto simp: field_opt_alt)

lemma field_default_list:
  assumes "json_get v k = (if xs = [] then None else Some (JArray (map f xs)))"
    and "\<And>y. y \<in> set xs \<Longrightarrow> d (f y) = Some y"
  shows "field_default [] (d_list d) k v = Some xs"
  using assms by (auto simp: field_default_def o_collect_map)

lemma json_ok_json_obj:
  assumes "distinct (map fst kvs)" and "\<And>k v. (k, v) \<in> set kvs \<Longrightarrow> json_ok v"
  shows "json_ok (json_obj kvs)"
proof -
  have "distinct (map fst (map_of_entries kvs))" by (simp add: entries_ok_distinct)
  then show ?thesis
    using assms by (auto simp: json_obj_def list_all_entries map_of_entries_lookup dest: map_of_SomeD)
qed

lemma json_plain_json_obj:
  assumes "\<And>k v. (k, v) \<in> set kvs \<Longrightarrow> json_plain d v"
  shows "json_plain (Suc d) (json_obj kvs)"
proof -
  have "set (map_of_entries kvs) \<subseteq> set kvs"
  proof
    fix p assume "p \<in> set (map_of_entries kvs)"
    then have "map_of (map_of_entries kvs) (fst p) = Some (snd p)"
      by (simp add: entries_ok_distinct)
    then have "map_of (rev kvs) (fst p) = Some (snd p)" by (simp add: map_of_map_of_entries)
    then show "p \<in> set kvs" by (auto dest: map_of_SomeD)
  qed
  then show ?thesis using assms by (auto simp: json_obj_def list_all_iff)
qed

lemma json_plain_basic [simp]:
  "json_plain d (jstr s)" "json_plain d (ju64 n)" "json_plain (Suc d) (jstrs ss)"
  by (auto simp: jstr_def ju64_def jstrs_def list_all_iff)

lemma json_plain_mono: "json_plain d v \<Longrightarrow> d \<le> e \<Longrightarrow> json_plain e v"
proof (induction d v arbitrary: e rule: json_plain.induct)
  case (3 d vs)
  then show ?case by (cases e) (auto simp: list_all_iff split: nat.splits)
next
  case (4 d kvs)
  then show ?case by (cases e) (auto simp: list_all_iff split: nat.splits)
qed auto

lemma json_ok_basic [simp]: "json_ok (jstr s)" "json_ok (ju64 n)" "json_ok (jstrs ss)"
  by (auto simp: jstr_def ju64_def jstrs_def list_all_iff)

lemma json_ok_jopt: "(\<And>y. json_ok (f y)) \<Longrightarrow> json_ok (jopt f x)"
  by (cases x) auto

lemma in_opt_field: "(k, v) \<in> set (opt_field j f x) \<longleftrightarrow> (\<exists>y. x = Some y \<and> k = j \<and> v = f y)"
  by (cases x) auto

lemma in_list_field: "(k, v) \<in> set (list_field j f xs) \<longleftrightarrow> xs \<noteq> [] \<and> k = j \<and> v = JArray (map f xs)"
  by (auto simp: list_field_def)

end
