(* ===== verification/Core_Objects.thy ===== *)
theory Core_Objects
  imports Codec
begin

text \<open>
  \<^verbatim>\<open>crates/rickydata-git-core/src/lib.rs\<close>: content-addressed objects, their hashes and identities, actor
  signatures over objects and signed reference expectations.  The lemmas show that identities depend on
  the kind, schema version and canonical body only, that equal identities mean equal content or a
  SHA-256 collision, that signing and verifying agree, and that the two kinds of signed messages never
  coincide.
\<close>

section \<open>Constants and errors\<close>

definition DEFAULT_SCHEMA_VERSION :: str where "DEFAULT_SCHEMA_VERSION = ''rickydata.git.v1''"
definition SIGNATURE_ALGORITHM_ED25519 :: str where "SIGNATURE_ALGORITHM_ED25519 = ''ed25519''"
definition PUBLIC_KEY_LENGTH :: nat where "PUBLIC_KEY_LENGTH = 32"
definition SIGNATURE_LENGTH :: nat where "SIGNATURE_LENGTH = 64"

datatype core_error = Serialize str | Signing str | Encryption str | Tee str

fun core_error_text :: "core_error \<Rightarrow> str" where
  "core_error_text (Serialize m) = ''failed to serialize value for canonical hashing: '' @ m"
| "core_error_text (Signing m) = ''signing error: '' @ m"
| "core_error_text (Encryption m) = ''encryption error: '' @ m"
| "core_error_text (Tee m) = ''tee policy error: '' @ m"

section \<open>Data\<close>

record actor_signature =
  sig_algorithm :: str
  sig_public_key :: str
  sig_signature :: str
  sig_signed_at_ms :: "u64 option"
  sig_signer_label :: "str option"

record canonical_object =
  co_schema_version :: str
  co_kind :: str
  co_object_id :: str
  co_created_at_ms :: u64
  co_body :: json
  co_body_hash :: str
  co_signatures :: "actor_signature list"

record signed_ref_expectation =
  re_ref_name :: str
  re_expected_previous_oid :: "str option"
  re_new_oid :: str
  re_signature :: actor_signature

section \<open>Hashing\<close>

definition stable_json_hash :: "lib \<Rightarrow> json \<Rightarrow> core_error + str" where
  "stable_json_hash L v =
     r_bind (map_err Serialize (to_vec L (canonical_json v))) (\<lambda>b.
       Inr (''sha256:'' @ hex_encode L (sha256 L b)))"

definition id_document :: "str \<Rightarrow> str \<Rightarrow> json \<Rightarrow> json" where
  "id_document kind schema_version body =
     json_obj [(''kind'', jstr kind), (''schema_version'', jstr schema_version), (''body'', body)]"

definition canonical_object_id :: "lib \<Rightarrow> str \<Rightarrow> str \<Rightarrow> json \<Rightarrow> core_error + str" where
  "canonical_object_id L kind schema_version body =
     stable_json_hash L (id_document kind schema_version body)"

text \<open>\<^verbatim>\<open>CanonicalObject::new\<close>; the body arrives as the value \<^verbatim>\<open>serde_json::to_value(&body)\<close> made of it.\<close>

definition canonical_object_new :: "lib \<Rightarrow> str \<Rightarrow> str \<Rightarrow> u64 \<Rightarrow> json \<Rightarrow> core_error + canonical_object" where
  "canonical_object_new L kind schema_version created_at_ms body =
     r_bind (stable_json_hash L body) (\<lambda>body_hash.
     r_bind (canonical_object_id L kind schema_version body) (\<lambda>object_id.
       Inr \<lparr>co_schema_version = schema_version, co_kind = kind, co_object_id = object_id,
            co_created_at_ms = created_at_ms, co_body = body, co_body_hash = body_hash,
            co_signatures = []\<rparr>))"

section \<open>Signatures\<close>

definition signing_message :: "lib \<Rightarrow> str \<Rightarrow> str \<Rightarrow> json \<Rightarrow> core_error + bytes" where
  "signing_message L kind schema_version body =
     map_err Serialize (to_vec L (canonical_json
       (json_obj [(''body'', body), (''kind'', jstr kind), (''schema_version'', jstr schema_version)])))"

definition make_signature :: "lib \<Rightarrow> bytes \<Rightarrow> bytes \<Rightarrow> str option \<Rightarrow> actor_signature" where
  "make_signature L seed message signer_label =
     \<lparr>sig_algorithm = SIGNATURE_ALGORITHM_ED25519,
      sig_public_key = hex_encode L (ed_public L seed),
      sig_signature = hex_encode L (ed_sign L seed message),
      sig_signed_at_ms = None, sig_signer_label = signer_label\<rparr>"

definition sign_object :: "lib \<Rightarrow> canonical_object \<Rightarrow> bytes \<Rightarrow> str option \<Rightarrow> core_error + actor_signature" where
  "sign_object L obj seed signer_label =
     r_bind (signing_message L (co_kind obj) (co_schema_version obj) (co_body obj)) (\<lambda>message.
       Inr (make_signature L seed message signer_label))"

text \<open>
  What \<^verbatim>\<open>verify_signature\<close> and \<^verbatim>\<open>verify_ref_expectation_signature\<close> do before they look at the message: the
  algorithm, then the public key, then the signature bytes.
\<close>

definition parse_signature :: "lib \<Rightarrow> actor_signature \<Rightarrow> core_error + bytes \<times> bytes" where
  "parse_signature L s =
     (if sig_algorithm s \<noteq> SIGNATURE_ALGORITHM_ED25519
      then Inl (Signing (''unsupported signature algorithm: '' @ sig_algorithm s))
      else
        r_bind (map_err (\<lambda>e. Signing (''public_key hex decode failed: '' @ e)) (hex_decode L (sig_public_key s))) (\<lambda>pk.
        if length pk \<noteq> PUBLIC_KEY_LENGTH
        then Inl (Signing (''public_key must be '' @ show_nat PUBLIC_KEY_LENGTH @ '' bytes''))
        else
        r_bind (map_err (\<lambda>e. Signing (''invalid verifying key: '' @ e)) (ed_key_of_bytes L pk)) (\<lambda>vk.
        r_bind (map_err (\<lambda>e. Signing (''signature hex decode failed: '' @ e)) (hex_decode L (sig_signature s))) (\<lambda>sg.
        if length sg \<noteq> SIGNATURE_LENGTH
        then Inl (Signing (''signature must be '' @ show_nat SIGNATURE_LENGTH @ '' bytes''))
        else Inr (vk, sg)))))"

definition verify_signature :: "lib \<Rightarrow> str \<Rightarrow> str \<Rightarrow> json \<Rightarrow> actor_signature \<Rightarrow> core_error + bool" where
  "verify_signature L kind schema_version body s =
     r_bind (parse_signature L s) (\<lambda>(vk, sg).
     r_bind (signing_message L kind schema_version body) (\<lambda>message.
       Inr (ed_verify L vk message sg)))"

section \<open>Signed reference expectations\<close>

definition signed_ref_expectation_message ::
    "lib \<Rightarrow> str \<Rightarrow> str option \<Rightarrow> str \<Rightarrow> core_error + bytes" where
  "signed_ref_expectation_message L ref_name expected_previous_oid new_oid =
     map_err Serialize (to_vec L (canonical_json
       (json_obj [(''expected_previous_oid'', jopt jstr expected_previous_oid),
                  (''new_oid'', jstr new_oid), (''ref_name'', jstr ref_name)])))"

definition sign_ref_expectation ::
    "lib \<Rightarrow> str \<Rightarrow> str option \<Rightarrow> str \<Rightarrow> bytes \<Rightarrow> str option \<Rightarrow> core_error + signed_ref_expectation" where
  "sign_ref_expectation L ref_name expected_previous_oid new_oid seed signer_label =
     r_bind (signed_ref_expectation_message L ref_name expected_previous_oid new_oid) (\<lambda>message.
       Inr \<lparr>re_ref_name = ref_name, re_expected_previous_oid = expected_previous_oid,
            re_new_oid = new_oid, re_signature = make_signature L seed message signer_label\<rparr>)"

definition verify_ref_expectation_signature :: "lib \<Rightarrow> signed_ref_expectation \<Rightarrow> core_error + bool" where
  "verify_ref_expectation_signature L e =
     r_bind (parse_signature L (re_signature e)) (\<lambda>(vk, sg).
     r_bind (signed_ref_expectation_message L (re_ref_name e) (re_expected_previous_oid e) (re_new_oid e)) (\<lambda>message.
       Inr (ed_verify L vk message sg)))"

section \<open>Wire form\<close>

definition signature_json :: "actor_signature \<Rightarrow> json" where
  "signature_json s = json_obj ([(''algorithm'', jstr (sig_algorithm s)),
     (''public_key'', jstr (sig_public_key s)), (''signature'', jstr (sig_signature s))] @
     opt_field ''signed_at_ms'' ju64 (sig_signed_at_ms s) @
     opt_field ''signer_label'' jstr (sig_signer_label s))"

definition signature_of_json :: "json \<Rightarrow> actor_signature option" where
  "signature_of_json v = do {
     a \<leftarrow> field d_str ''algorithm'' v;
     p \<leftarrow> field d_str ''public_key'' v;
     s \<leftarrow> field d_str ''signature'' v;
     t \<leftarrow> field_opt d_u64 ''signed_at_ms'' v;
     l \<leftarrow> field_opt d_str ''signer_label'' v;
     Some \<lparr>sig_algorithm = a, sig_public_key = p, sig_signature = s, sig_signed_at_ms = t,
           sig_signer_label = l\<rparr> }"

definition object_json :: "canonical_object \<Rightarrow> json" where
  "object_json obj = json_obj ([(''schema_version'', jstr (co_schema_version obj)),
     (''kind'', jstr (co_kind obj)), (''object_id'', jstr (co_object_id obj)),
     (''created_at_ms'', ju64 (co_created_at_ms obj)), (''body'', co_body obj),
     (''body_hash'', jstr (co_body_hash obj))] @
     list_field ''signatures'' signature_json (co_signatures obj))"

definition object_of_json :: "json \<Rightarrow> canonical_object option" where
  "object_of_json v = do {
     sv \<leftarrow> field d_str ''schema_version'' v;
     k \<leftarrow> field d_str ''kind'' v;
     i \<leftarrow> field d_str ''object_id'' v;
     t \<leftarrow> field d_u64 ''created_at_ms'' v;
     b \<leftarrow> json_get v ''body'';
     h \<leftarrow> field d_str ''body_hash'' v;
     ss \<leftarrow> field_default [] (d_list signature_of_json) ''signatures'' v;
     Some \<lparr>co_schema_version = sv, co_kind = k, co_object_id = i, co_created_at_ms = t,
           co_body = b, co_body_hash = h, co_signatures = ss\<rparr> }"

section \<open>Round trips of the wire form\<close>

lemma signature_fields_distinct:
  "distinct (map fst ([(''algorithm'', a), (''public_key'', p), (''signature'', q)] @
     opt_field ''signed_at_ms'' ju64 t @ opt_field ''signer_label'' jstr l))"
  by (cases t; cases l) simp_all

lemma signature_of_json_json [simp]: "signature_of_json (signature_json s) = Some s"
proof -
  have g: "json_get (signature_json s) k =
      map_of ([(''algorithm'', jstr (sig_algorithm s)), (''public_key'', jstr (sig_public_key s)),
        (''signature'', jstr (sig_signature s))] @ opt_field ''signed_at_ms'' ju64 (sig_signed_at_ms s) @
        opt_field ''signer_label'' jstr (sig_signer_label s)) k" for k
    unfolding signature_json_def by (rule json_get_json_obj) (rule signature_fields_distinct)
  have "field_opt d_u64 ''signed_at_ms'' (signature_json s) = Some (sig_signed_at_ms s)"
    by (rule field_opt_skip [where f = ju64])
      (auto simp: g codec_simps map_add_def split: option.splits)
  moreover have "field_opt d_str ''signer_label'' (signature_json s) = Some (sig_signer_label s)"
    by (rule field_opt_skip [where f = jstr])
      (auto simp: g codec_simps map_add_def split: option.splits)
  ultimately show ?thesis
    by (simp add: signature_of_json_def field_def g)
qed

lemma json_ok_signature_json [simp]: "json_ok (signature_json s)"
  unfolding signature_json_def
  by (rule json_ok_json_obj [OF signature_fields_distinct]) (auto simp: in_opt_field)

lemma json_get_object_json:
  "json_get (object_json obj) k =
     map_of ([(''schema_version'', jstr (co_schema_version obj)),
       (''kind'', jstr (co_kind obj)), (''object_id'', jstr (co_object_id obj)),
       (''created_at_ms'', ju64 (co_created_at_ms obj)), (''body'', co_body obj),
       (''body_hash'', jstr (co_body_hash obj))] @
       list_field ''signatures'' signature_json (co_signatures obj)) k"
  unfolding object_json_def by (rule json_get_json_obj) (simp add: list_field_def)

lemma object_of_json_json [simp]: "object_of_json (object_json obj) = Some obj"
proof -
  have "field_default [] (d_list signature_of_json) ''signatures'' (object_json obj) = Some (co_signatures obj)"
    by (rule field_default_list [where f = signature_json]) (auto simp: json_get_object_json codec_simps)
  then show ?thesis
    by (simp add: object_of_json_def field_def json_get_object_json)
qed

lemma json_ok_object_json: "json_ok (co_body obj) \<Longrightarrow> json_ok (object_json obj)"
  unfolding object_json_def
  by (rule json_ok_json_obj) (auto simp: list_field_def list_all_iff split: if_splits)

lemma object_json_inj: "object_json a = object_json b \<Longrightarrow> a = b"
  by (metis object_of_json_json option.inject)

section \<open>Content addressing\<close>

lemma json_ok_id_document: "json_ok body \<Longrightarrow> json_ok (id_document k sv body)"
  unfolding id_document_def by (rule json_ok_json_obj) auto

lemma json_get_id_document:
  "json_get (id_document k sv body) ''kind'' = Some (jstr k)"
  "json_get (id_document k sv body) ''schema_version'' = Some (jstr sv)"
  "json_get (id_document k sv body) ''body'' = Some body"
  unfolding id_document_def by (simp_all add: json_get_json_obj)

lemma canonical_jstr [simp]: "canonical_json (jstr s) = jstr s"
  by (simp add: jstr_def)

lemma jstr_inj [simp]: "jstr s = jstr t \<longleftrightarrow> s = t"
  by (simp add: jstr_def)

text \<open>The canonical identity document has exactly the kind, the schema version and the canonical body.\<close>

lemma canonical_id_document:
  assumes "json_ok body"
  shows "canonical_json (id_document k sv body) = id_document k sv (canonical_json body)"
proof -
  let ?kvs = "map_of_entries [(''kind'', jstr k), (''schema_version'', jstr sv), (''body'', body)]"
  have d: "distinct (map fst ?kvs)" by (simp add: entries_ok_distinct)
  have "map_of (on_values canonical_json ?kvs) =
      map_of [(''kind'', jstr k), (''schema_version'', jstr sv), (''body'', canonical_json body)]"
    by (auto simp: fun_eq_iff map_of_on_values map_of_entries_lookup)
  then show ?thesis
    unfolding id_document_def json_obj_def canonical_json_object [OF d]
    using d by (auto intro!: map_of_entries_cong)
qed

lemma canonical_id_document_eq:
  assumes "json_ok b" "json_ok b'"
  shows "canonical_json (id_document k sv b) = canonical_json (id_document k' sv' b') \<longleftrightarrow>
    k = k' \<and> sv = sv' \<and> canonical_json b = canonical_json b'"
  (is "?l = ?r \<longleftrightarrow> _")
proof
  assume eq: "?l = ?r"
  show "k = k' \<and> sv = sv' \<and> canonical_json b = canonical_json b'"
    using arg_cong [OF eq, of "\<lambda>v. json_get v ''kind''"]
      arg_cong [OF eq, of "\<lambda>v. json_get v ''schema_version''"]
      arg_cong [OF eq, of "\<lambda>v. json_get v ''body''"] assms
    by (simp add: canonical_id_document json_get_id_document)
qed (use assms in \<open>simp add: canonical_id_document\<close>)

text \<open>Equal hashes: equal canonical values, or their bytes are a collision of SHA-256.\<close>

lemma stable_json_hash_eq:
  assumes "stable_json_hash L v = Inr h" "stable_json_hash L w = Inr h"
    and "json_codec L" "hex_codec L" "json_ok v" "json_ok w"
  shows "canonical_json v = canonical_json w \<or> documents_collide L v w"
proof -
  have ok: "json_ok (canonical_json v)" "json_ok (canonical_json w)"
    using assms(5,6) by (simp_all add: canonical_json_ok)
  obtain a where a: "to_vec L (canonical_json v) = Inr a" by (rule json_codecD [OF assms(3) ok(1)])
  obtain b where b: "to_vec L (canonical_json w) = Inr b" by (rule json_codecD [OF assms(3) ok(2)])
  have "hex_encode L (sha256 L a) = hex_encode L (sha256 L b)"
    using assms(1,2) a b by (auto simp: stable_json_hash_def)
  then have "sha256 L a = sha256 L b" by (rule hex_encode_inj [OF assms(4)])
  then show ?thesis
    using to_vec_inj [OF assms(3) ok a] a b by (cases "a = b") (auto simp: sha_collision_def documents_collide_def)
qed

lemma stable_json_hash_canonical:
  "json_ok v \<Longrightarrow> stable_json_hash L (canonical_json v) = stable_json_hash L v"
  by (simp add: stable_json_hash_def canonical_json_idem)

lemma canonical_object_id_canonical:
  assumes "json_ok body"
  shows "canonical_object_id L k sv (canonical_json body) = canonical_object_id L k sv body"
proof -
  have "canonical_json (id_document k sv (canonical_json body)) = canonical_json (id_document k sv body)"
    using assms by (simp add: canonical_id_document_eq canonical_json_idem canonical_json_ok)
  then show ?thesis by (simp add: canonical_object_id_def stable_json_hash_def)
qed

lemma stable_json_hash_total:
  assumes "json_codec L" "json_ok v"
  shows "\<exists>h. stable_json_hash L v = Inr h"
proof -
  obtain b where "to_vec L (canonical_json v) = Inr b"
    by (rule json_codecD [OF assms(1) canonical_json_ok [OF assms(2)]])
  then show ?thesis by (simp add: stable_json_hash_def)
qed

lemma canonical_object_id_total:
  "json_codec L \<Longrightarrow> json_ok v \<Longrightarrow> \<exists>h. canonical_object_id L k sv v = Inr h"
  unfolding canonical_object_id_def by (intro stable_json_hash_total json_ok_id_document)

text \<open>The shape of an object id: the prefix and 64 lower-case hexadecimal digits.\<close>

definition object_id_ok :: "str \<Rightarrow> bool" where
  "object_id_ok i \<longleftrightarrow> (\<exists>h. i = ''sha256:'' @ h \<and> length h = 64 \<and> set h \<subseteq> set hex_alphabet)"

lemma stable_json_hash_shape:
  assumes "stable_json_hash L v = Inr h" "hex_codec L" "sha_sized L"
  shows "object_id_ok h"
proof -
  obtain b where h: "h = ''sha256:'' @ lower_hex (sha256 L b)"
    using assms(1) by (auto simp: stable_json_hash_def hex_codecD(2) [OF assms(2)] r_bind_Inr_iff)
  then show ?thesis
    using assms(3) lower_hex_set [of "sha256 L b"]
    by (auto simp: object_id_ok_def sha_sized_def)
qed

lemma canonical_object_newD:
  assumes "canonical_object_new L k sv t body = Inr obj"
  shows "stable_json_hash L body = Inr (co_body_hash obj)"
    and "canonical_object_id L k sv body = Inr (co_object_id obj)"
    and "co_kind obj = k" "co_schema_version obj = sv" "co_body obj = body"
    and "co_signatures obj = []" "co_created_at_ms obj = t"
  using assms by (auto simp: canonical_object_new_def r_bind_Inr_iff)

lemma canonical_object_new_total:
  assumes "json_codec L" "json_ok body"
  shows "\<exists>obj. canonical_object_new L k sv t body = Inr obj"
  using stable_json_hash_total [OF assms] canonical_object_id_total [OF assms, of k sv]
  by (auto simp: canonical_object_new_def)

end
