(* ===== verification/Reference_Lib.thy ===== *)
theory Reference_Lib
  imports Core_Objects
begin

text \<open>
  A concrete instance of the library parameter, for the witnesses: it shows that the documented laws
  of \<^verbatim>\<open>serde_json\<close>, \<^verbatim>\<open>hex\<close>, SHA-256 (digest size), Ed25519 and AES-GCM can hold together.  Values are
  written in a tagged, length-prefixed form (not JSON text), digests are a padded prefix and
  signatures a padded copy of key and message: nothing about the real formats is claimed.
\<close>

section \<open>A self-delimiting encoding of values\<close>

definition put_nat :: "nat \<Rightarrow> bytes" where
  "put_nat n = replicate n 1 @ [0]"

fun get_nat :: "bytes \<Rightarrow> (nat \<times> bytes) option" where
  "get_nat [] = None"
| "get_nat (b # bs) = (if b = 0 then Some (0, bs) else map_option (\<lambda>(n, r). (Suc n, r)) (get_nat bs))"

lemma get_put_nat [simp]: "get_nat (put_nat n @ r) = Some (n, r)"
  by (induction n) (auto simp: put_nat_def)

definition put_str :: "str \<Rightarrow> bytes" where
  "put_str s = put_nat (length s) @ str_bytes s"

definition get_str :: "bytes \<Rightarrow> (str \<times> bytes) option" where
  "get_str bs = (case get_nat bs of None \<Rightarrow> None
     | Some (n, r) \<Rightarrow> Some (map (\<lambda>b. char_of (unat b)) (take n r), drop n r))"

lemma char_of_str_bytes [simp]: "map (\<lambda>b. char_of (unat b)) (str_bytes s) = s"
  by (simp add: str_bytes_def unat_of_char_u8 comp_def)

lemma get_put_str [simp]: "get_str (put_str s @ r) = Some (s, r)"
  by (simp add: get_str_def put_str_def)

fun put :: "json \<Rightarrow> bytes" where
  "put JNull = [0]"
| "put (JBool b) = [1, if b then 1 else 0]"
| "put (JNumber (PosInt n)) = 2 # put_nat (unat n)"
| "put (JNumber (NegInt i)) = 3 # put_nat (nat (- i))"
| "put (JNumber (Float w)) = 4 # put_nat (unat w)"
| "put (JString s) = 5 # put_str s"
| "put (JArray vs) = 6 # put_nat (length vs) @ concat (map put vs)"
| "put (JObject kvs) = 7 # put_nat (length kvs) @ concat (map (\<lambda>kv. put_str (fst kv) @ put (snd kv)) kvs)"

fun get_many :: "(bytes \<Rightarrow> ('a \<times> bytes) option) \<Rightarrow> nat \<Rightarrow> bytes \<Rightarrow> ('a list \<times> bytes) option" where
  "get_many g 0 bs = Some ([], bs)"
| "get_many g (Suc n) bs = do { (x, r) \<leftarrow> g bs; (xs, r') \<leftarrow> get_many g n r; Some (x # xs, r') }"

definition get_entry :: "(bytes \<Rightarrow> (json \<times> bytes) option) \<Rightarrow> bytes \<Rightarrow> ((str \<times> json) \<times> bytes) option" where
  "get_entry g bs = do { (k, r) \<leftarrow> get_str bs; (v, r') \<leftarrow> g r; Some ((k, v), r') }"

fun get :: "nat \<Rightarrow> bytes \<Rightarrow> (json \<times> bytes) option" where
  "get 0 bs = None"
| "get (Suc f) [] = None"
| "get (Suc f) (t # bs) =
     (if t = 0 then Some (JNull, bs)
      else if t = 1 then (case bs of [] \<Rightarrow> None | b # r \<Rightarrow> Some (JBool (b = 1), r))
      else if t = 2 then do { (n, r) \<leftarrow> get_nat bs; Some (JNumber (PosInt (of_nat n)), r) }
      else if t = 3 then do { (n, r) \<leftarrow> get_nat bs; Some (JNumber (NegInt (- int n)), r) }
      else if t = 4 then do { (n, r) \<leftarrow> get_nat bs; Some (JNumber (Float (of_nat n)), r) }
      else if t = 5 then do { (s, r) \<leftarrow> get_str bs; Some (JString s, r) }
      else if t = 6 then do { (n, r) \<leftarrow> get_nat bs; (vs, r') \<leftarrow> get_many (get f) n r; Some (JArray vs, r') }
      else do { (n, r) \<leftarrow> get_nat bs; (es, r') \<leftarrow> get_many (get_entry (get f)) n r; Some (JObject es, r') })"

lemma get_many_concat:
  "(\<And>x r. x \<in> set xs \<Longrightarrow> g (p x @ r) = Some (x, r)) \<Longrightarrow>
     get_many g (length xs) (concat (map p xs) @ r) = Some (xs, r)"
  by (induction xs) auto

lemma length_concat_ge: "x \<in> set xs \<Longrightarrow> length (p x) \<le> length (concat (map p xs))"
  by (induction xs) auto

lemma put_nonempty: "0 < length (put v)"
  by (cases v rule: put.cases) auto

lemma get_put_Suc: "json_ok v \<Longrightarrow> length (put v) \<le> Suc f \<Longrightarrow> get (Suc f) (put v @ r) = Some (v, r)"
proof (induction v arbitrary: f r rule: put.induct)
  case (7 vs)
  have "get f (put v @ r) = Some (v, r)" if "v \<in> set vs" for v r
    using 7 that length_concat_ge [of v vs put] put_nonempty [of v]
    by (cases f) (auto simp: list_all_iff)
  then show ?case by (simp add: get_many_concat)
next
  case (8 kvs)
  let ?p = "\<lambda>kv. put_str (fst kv) @ put (snd kv)"
  have "get_entry (get f) (?p kv @ r) = Some (kv, r)" if "kv \<in> set kvs" for kv r
  proof -
    have "get f (put (snd kv) @ r) = Some (snd kv, r)"
      using 8 that length_concat_ge [of kv kvs ?p] put_nonempty [of "snd kv"]
      by (cases f) (auto simp: list_all_iff)
    then show ?thesis by (simp add: get_entry_def)
  qed
  then show ?case using get_many_concat [of kvs "get_entry (get f)" ?p] by simp
qed auto

lemma get_put: "json_ok v \<Longrightarrow> length (put v) \<le> f \<Longrightarrow> get f (put v @ r) = Some (v, r)"
  using get_put_Suc [of v "f - 1" r] put_nonempty [of v] by (cases f) auto

definition get_all :: "bytes \<Rightarrow> str + json" where
  "get_all bs = (case get (length bs) bs of Some (v, []) \<Rightarrow> Inr v | _ \<Rightarrow> Inl ''malformed value'')"

lemma get_all_put: "json_ok v \<Longrightarrow> get_all (put v) = Inr v"
  using get_put [of v "length (put v)" "[]"] by (simp add: get_all_def)

lemma put_inj: "json_ok v \<Longrightarrow> json_ok w \<Longrightarrow> put v = put w \<Longrightarrow> v = w"
  by (metis get_all_put Inr_inject)

section \<open>Hexadecimal\<close>

definition unhex_digit :: "char \<Rightarrow> u8" where
  "unhex_digit c = of_nat (length (takeWhile (\<lambda>x. x \<noteq> c) hex_alphabet))"

fun unhex :: "str \<Rightarrow> bytes" where
  "unhex (a # b # s) = (16 * unhex_digit a + unhex_digit b) # unhex s"
| "unhex _ = []"

lemma unhex_hex_digit: "n < 16 \<Longrightarrow> unhex_digit (hex_digit n) = of_nat n"
proof -
  assume "n < 16"
  then have "n \<in> {0..<16}" by simp
  also have "{0..<16} = set [0::nat, 1, 2, 3, 4, 5, 6, 7, 8, 9, 10, 11, 12, 13, 14, 15]"
    by (simp add: atLeastLessThan_upt upt_conv_Cons numeral_eq_Suc)
  finally show ?thesis
    by (auto simp: unhex_digit_def hex_digit_def hex_alphabet_def numeral_eq_Suc)
qed

lemma unhex_hex_byte: "unhex (hex_byte b @ s) = b # unhex s"
proof -
  have "unat b div 16 < 16" using unat_u8_less [of b] by (simp add: less_mult_imp_div_less)
  then have "unhex (hex_byte b @ s) = (16 * of_nat (unat b div 16) + of_nat (unat b mod 16)) # unhex s"
    by (simp add: hex_byte_def unhex_hex_digit)
  also have "16 * of_nat (unat b div 16) + of_nat (unat b mod 16) = (of_nat (16 * (unat b div 16) + unat b mod 16) :: u8)"
    by (simp only: of_nat_add of_nat_mult of_nat_numeral)
  also have "\<dots> = b" by (simp only: mult_div_mod_eq of_nat_unat ucast_id)
  finally show ?thesis .
qed

lemma unhex_lower_hex: "unhex (lower_hex bs) = bs"
  by (induction bs) (simp_all add: unhex_hex_byte)

section \<open>The instance\<close>

definition pad :: "nat \<Rightarrow> bytes \<Rightarrow> bytes" where
  "pad n bs = take n (bs @ replicate n 0)"

definition ref_lib :: lib where
  "ref_lib = \<lparr>sha256 = pad 32, to_vec = (\<lambda>v. Inr (put v)), to_vec_pretty = (\<lambda>v. Inr (put v)),
     from_slice = get_all, shape_error = (\<lambda>_. ''unexpected shape''),
     utf8_error = (\<lambda>_. ''invalid utf-8''), json_text = (\<lambda>_. []),
     uuid_v5_url = (\<lambda>s. s), debug_opt = (\<lambda>_. []),
     hex_encode = lower_hex, hex_decode = (\<lambda>s. Inr (unhex s)),
     ed_public = (\<lambda>seed. seed), ed_sign = (\<lambda>seed msg. pad 64 (seed @ msg)),
     ed_key_of_bytes = Inr, ed_verify = (\<lambda>vk msg sg. sg = pad 64 (vk @ msg)),
     aes_encrypt = (\<lambda>key nonce pt. Inr (key @ pt)),
     aes_decrypt = (\<lambda>key nonce ct. Inr (drop (length key) ct))\<rparr>"

lemma length_pad [simp]: "length (pad n bs) = n"
  by (simp add: pad_def)

lemma ref_lib_laws [simp]:
  "json_codec ref_lib" "hex_codec ref_lib" "sha_sized ref_lib" "ed_correct ref_lib" "aes_correct ref_lib"
  by (auto simp: ref_lib_def json_codec_def json_writer_def hex_codec_def sha_sized_def ed_correct_def
      aes_correct_def get_all_put unhex_lower_hex dest: put_inj)

end
