(* ===== verification/Core_Signing.thy ===== *)
theory Core_Signing
  imports Reference_Lib
begin

text \<open>
  The properties of \<^verbatim>\<open>rickydata-git-core\<close>'s identities and signatures: an object id names one kind,
  schema version and canonical body, what \<open>sign_object\<close> makes \<open>verify_signature\<close> accepts for every
  spelling of the same body, and a signature over an object is never one over a reference update.
\<close>

section \<open>Signed messages\<close>

lemma signing_message_total:
  assumes "json_codec L" "json_ok body"
  shows "\<exists>m. signing_message L k sv body = Inr m"
proof -
  have "json_ok (json_obj [(''body'', body), (''kind'', jstr k), (''schema_version'', jstr sv)])"
    by (rule json_ok_json_obj) (use assms in auto)
  then have "json_ok (canonical_json (json_obj
      [(''body'', body), (''kind'', jstr k), (''schema_version'', jstr sv)]))"
    by (rule canonical_json_ok)
  then obtain m where "to_vec L (canonical_json (json_obj
      [(''body'', body), (''kind'', jstr k), (''schema_version'', jstr sv)])) = Inr m"
    by (rule json_codecD [OF assms(1)])
  then show ?thesis by (simp add: signing_message_def)
qed

text \<open>The signed document is the identity document of the object.\<close>

lemma signing_document:
  "json_obj [(''body'', body), (''kind'', jstr k), (''schema_version'', jstr sv)] = id_document k sv body"
  unfolding id_document_def json_obj_def
  by (rule arg_cong [where f = JObject], rule map_of_entries_cong) (auto simp: fun_eq_iff)

lemma signing_message_eq:
  "signing_message L k sv body = map_err Serialize (to_vec L (canonical_json (id_document k sv body)))"
  by (simp add: signing_message_def signing_document)

lemma signing_message_canonical:
  assumes "json_ok b" "json_ok b'" "canonical_json b = canonical_json b'"
  shows "signing_message L k sv b = signing_message L k sv b'"
proof -
  have "canonical_json (id_document k sv b) = canonical_json (id_document k sv b')"
    using canonical_id_document_eq [OF assms(1,2)] assms(3) by blast
  then show ?thesis by (simp add: signing_message_eq)
qed

lemma signing_message_inj:
  assumes "signing_message L k sv b = Inr m" "signing_message L k' sv' b' = Inr m"
    and "json_codec L" "json_ok b" "json_ok b'"
  shows "k = k' \<and> sv = sv' \<and> canonical_json b = canonical_json b'"
proof -
  have "canonical_json (id_document k sv b) = canonical_json (id_document k' sv' b')"
    by (rule to_vec_inj [OF assms(3)])
      (use assms in \<open>auto simp: signing_message_eq canonical_json_ok json_ok_id_document\<close>)
  then show ?thesis using canonical_id_document_eq [OF assms(4,5)] by blast
qed

definition ref_document :: "str \<Rightarrow> str option \<Rightarrow> str \<Rightarrow> json" where
  "ref_document r p n = json_obj [(''expected_previous_oid'', jopt jstr p), (''new_oid'', jstr n), (''ref_name'', jstr r)]"

lemma ref_message_eq:
  "signed_ref_expectation_message L r p n = map_err Serialize (to_vec L (canonical_json (ref_document r p n)))"
  by (simp add: signed_ref_expectation_message_def ref_document_def)

lemma json_ok_ref_document [simp]: "json_ok (ref_document r p n)"
  unfolding ref_document_def by (rule json_ok_json_obj) (auto intro!: json_ok_jopt)

lemma json_get_canonical_ref:
  "json_get (canonical_json (ref_document r p n)) k =
     map_option canonical_json (map_of [(''expected_previous_oid'', jopt jstr p), (''new_oid'', jstr n), (''ref_name'', jstr r)] k)"
  unfolding ref_document_def
  by (subst json_get_canonical_json)
    (simp_all add: json_ok_ref_document [unfolded ref_document_def] json_get_json_obj)

lemma canonical_jopt_jstr [simp]: "canonical_json (jopt jstr p) = jopt jstr p"
  by (cases p) simp_all

lemma jopt_jstr_inj: "jopt jstr p = jopt jstr q \<longleftrightarrow> p = q"
  by (cases p; cases q) (simp_all add: jstr_def)

lemma ref_message_inj:
  assumes "signed_ref_expectation_message L r p n = Inr m" "signed_ref_expectation_message L r' p' n' = Inr m"
    and "json_codec L"
  shows "r = r' \<and> p = p' \<and> n = n'"
proof -
  have eq: "canonical_json (ref_document r p n) = canonical_json (ref_document r' p' n')"
    by (rule to_vec_inj [OF assms(3)]) (use assms in \<open>auto simp: ref_message_eq canonical_json_ok\<close>)
  show ?thesis
    using arg_cong [OF eq, of "\<lambda>v. json_get v ''expected_previous_oid''"]
      arg_cong [OF eq, of "\<lambda>v. json_get v ''new_oid''"]
      arg_cong [OF eq, of "\<lambda>v. json_get v ''ref_name''"]
    by (simp add: json_get_canonical_ref jopt_jstr_inj)
qed

lemma ref_message_total:
  assumes "json_codec L"
  shows "\<exists>m. signed_ref_expectation_message L r p n = Inr m"
proof -
  obtain m where "to_vec L (canonical_json (ref_document r p n)) = Inr m"
    by (rule json_codecD [OF assms]) (auto intro: canonical_json_ok)
  then show ?thesis by (simp add: ref_message_eq)
qed

text \<open>What a signature made with a 32-byte seed parses to.\<close>

lemma parse_make_signature:
  assumes "ed_correct L" "hex_codec L" "length seed = 32"
  obtains vk where "parse_signature L (make_signature L seed msg l) = Inr (vk, ed_sign L seed msg)"
    "ed_verify L vk msg (ed_sign L seed msg)"
proof -
  obtain vk where vk: "length (ed_public L seed) = 32" "length (ed_sign L seed msg) = 64"
    "ed_key_of_bytes L (ed_public L seed) = Inr vk" "ed_verify L vk msg (ed_sign L seed msg)"
    using assms unfolding ed_correct_def by blast
  then have "parse_signature L (make_signature L seed msg l) = Inr (vk, ed_sign L seed msg)"
    by (simp add: parse_signature_def make_signature_def hex_codecD [OF assms(2)]
        PUBLIC_KEY_LENGTH_def SIGNATURE_LENGTH_def hex_codecD(1) [OF assms(2), unfolded hex_codecD(2) [OF assms(2)]])
  with vk(4) show thesis by (rule that [rotated])
qed

lemma verify_signed_expectation:
  assumes "ed_correct L" "hex_codec L" "json_codec L" "length seed = 32"
    and "sign_ref_expectation L r p n seed label = Inr e"
  shows "verify_ref_expectation_signature L e = Inr True"
proof -
  obtain m where m: "signed_ref_expectation_message L r p n = Inr m"
    using ref_message_total [OF assms(3)] by blast
  obtain vk where "parse_signature L (make_signature L seed m label) = Inr (vk, ed_sign L seed m)"
    "ed_verify L vk m (ed_sign L seed m)"
    by (rule parse_make_signature [OF assms(1,2,4)])
  with assms(5) m show ?thesis
    by (auto simp: sign_ref_expectation_def verify_ref_expectation_signature_def)
qed

text \<open>A signature names the algorithm, a 32-byte key and a 64-byte signature, or it does not parse.\<close>

lemma parse_signatureD:
  assumes "parse_signature L s = Inr (vk, sg)"
  shows "sig_algorithm s = SIGNATURE_ALGORITHM_ED25519"
    and "\<exists>pk. hex_decode L (sig_public_key s) = Inr pk \<and> length pk = 32 \<and> ed_key_of_bytes L pk = Inr vk"
    and "hex_decode L (sig_signature s) = Inr sg" "length sg = 64"
  using assms by (auto simp: parse_signature_def r_bind_Inr_iff PUBLIC_KEY_LENGTH_def SIGNATURE_LENGTH_def
      split: if_splits)

section \<open>Properties\<close>

text \<open>
  C3: an object id identifies content.  Two successful computations that give the same id were given
  the same kind, the same schema version and bodies with the same canonical form, or the bytes of
  their two id documents are a collision of SHA-256.
\<close>

theorem object_id_identifies_content:
  assumes "canonical_object_id L k sv b = Inr i" "canonical_object_id L k' sv' b' = Inr i"
    and "json_codec L" "hex_codec L" "json_ok b" "json_ok b'"
  shows "(k = k' \<and> sv = sv' \<and> canonical_json b = canonical_json b') \<or>
    documents_collide L (id_document k sv b) (id_document k' sv' b')"
  using stable_json_hash_eq [OF assms(1,2) [unfolded canonical_object_id_def] assms(3,4)] assms(5,6)
  by (auto simp: json_ok_id_document canonical_id_document_eq)

theorem object_id_identifies_content_witness:
  "\<exists>i. canonical_object_id ref_lib ''note'' ''v1'' (JNumber (Float 0)) = Inr i \<and>
     canonical_object_id ref_lib ''note'' ''v1'' (JNumber (PosInt 0)) = Inr i \<and>
     ((''note'' = ''note'' \<and> ''v1'' = ''v1'' \<and>
       canonical_json (JNumber (Float 0)) = canonical_json (JNumber (PosInt 0))) \<or>
      documents_collide ref_lib (id_document ''note'' ''v1'' (JNumber (Float 0))) (id_document ''note'' ''v1'' (JNumber (PosInt 0))))"
proof -
  let ?b = "JNumber (Float 0)" and ?b' = "JNumber (PosInt 0)"
  have ok: "json_ok ?b" "json_ok ?b'" by (simp_all add: f64_finite_def f64_exp_def)
  have c: "canonical_json ?b = ?b'"
    by (simp add: canonical_number_simps float_fits_def f64_finite_def f64_exp_def f64_integral_def
        f64_man_def f64_frac_def f64_trunc_def f64_scale_def i64_min_def i64_max_def f64_as_i64_def
        number_of_i64_def f64_neg_def)
  obtain i where i: "canonical_object_id ref_lib ''note'' ''v1'' ?b = Inr i"
    using canonical_object_id_total [OF ref_lib_laws(1) ok(1)] by blast
  then have i': "canonical_object_id ref_lib ''note'' ''v1'' ?b' = Inr i"
    using canonical_object_id_canonical [OF ok(1), of ref_lib "''note''" "''v1''"] unfolding c by simp
  show ?thesis
    using object_id_identifies_content [OF i i' ref_lib_laws(1,2) ok] i i' by blast
qed

text \<open>
  C4: what \<open>sign_object\<close> makes with a 32-byte seed, \<open>verify_signature\<close> accepts, for the signed body and
  for every body with the same canonical form (reordered keys, respelled numbers).
\<close>

theorem sign_then_verify:
  assumes "ed_correct L" "hex_codec L" "json_codec L" "length seed = 32"
    and "json_ok (co_body obj)" "json_ok b" "canonical_json b = canonical_json (co_body obj)"
  shows "\<exists>s. sign_object L obj seed label = Inr s \<and>
    verify_signature L (co_kind obj) (co_schema_version obj) b s = Inr True"
proof -
  obtain m where m: "signing_message L (co_kind obj) (co_schema_version obj) (co_body obj) = Inr m"
    using signing_message_total assms by blast
  moreover have "signing_message L (co_kind obj) (co_schema_version obj) b = Inr m"
    using signing_message_canonical [OF assms(6,5,7)] m by simp
  moreover obtain vk where "parse_signature L (make_signature L seed m label) = Inr (vk, ed_sign L seed m)"
    "ed_verify L vk m (ed_sign L seed m)"
    by (rule parse_make_signature [OF assms(1,2,4)])
  ultimately show ?thesis by (simp add: sign_object_def verify_signature_def)
qed

theorem sign_then_verify_witness:
  "\<exists>s. sign_object ref_lib \<lparr>co_schema_version = ''v1'', co_kind = ''note'', co_object_id = [],
        co_created_at_ms = 0, co_body = JObject [(''b'', JNull), (''a'', JBool True)], co_body_hash = [],
        co_signatures = []\<rparr> (replicate 32 7) (Some ''me'') = Inr s \<and>
     verify_signature ref_lib ''note'' ''v1'' (JObject [(''a'', JBool True), (''b'', JNull)]) s = Inr True"
  using sign_then_verify [of ref_lib "replicate 32 7" "\<lparr>co_schema_version = ''v1'', co_kind = ''note'',
      co_object_id = [], co_created_at_ms = 0, co_body = JObject [(''b'', JNull), (''a'', JBool True)],
      co_body_hash = [], co_signatures = []\<rparr>" "JObject [(''a'', JBool True), (''b'', JNull)]" "Some ''me''"]
  by (simp add: map_of_entries_def)

text \<open>
  C5: a message signed for an object is never one signed for a reference update, so no signature can
  be replayed from one use to the other.
\<close>

theorem signing_domains_disjoint:
  assumes "signing_message L k sv b = Inr m" "signed_ref_expectation_message L r p n = Inr m'"
    and "json_codec L" "json_ok b"
  shows "m \<noteq> m'"
proof
  assume "m = m'"
  then have eq: "canonical_json (id_document k sv b) = canonical_json (ref_document r p n)"
    by (intro to_vec_inj [OF assms(3)])
      (use assms in \<open>auto simp: signing_message_eq ref_message_eq canonical_json_ok json_ok_id_document\<close>)
  then have "json_get (canonical_json (id_document k sv b)) ''kind'' =
      json_get (canonical_json (ref_document r p n)) ''kind''"
    by (simp only:)
  moreover have "json_get (canonical_json (id_document k sv b)) ''kind'' = Some (jstr k)"
    using assms(4) by (simp add: canonical_id_document json_get_id_document)
  moreover have "json_get (canonical_json (ref_document r p n)) ''kind'' = None"
    by (simp add: json_get_canonical_ref)
  ultimately show False by simp
qed

theorem signing_domains_disjoint_witness:
  "\<exists>m m'. signing_message ref_lib ''k'' ''v'' JNull = Inr m \<and>
     signed_ref_expectation_message ref_lib ''r'' None ''n'' = Inr m' \<and> m \<noteq> m'"
  using signing_message_total [OF ref_lib_laws(1), of JNull "''k''" "''v''"]
    ref_message_total [OF ref_lib_laws(1), of "''r''" None "''n''"]
    signing_domains_disjoint [of ref_lib "''k''" "''v''" JNull _ "''r''" None "''n''", OF _ _ ref_lib_laws(1)]
  by fastforce

text \<open>
  a signed reference expectation verifies, and the message it signs fixes the reference name, the
  expected previous object and the new object.
\<close>

theorem ref_expectation_signed:
  assumes "ed_correct L" "hex_codec L" "json_codec L" "length seed = 32"
    and "sign_ref_expectation L r p n seed label = Inr e"
  shows "verify_ref_expectation_signature L e = Inr True \<and>
    re_ref_name e = r \<and> re_expected_previous_oid e = p \<and> re_new_oid e = n \<and>
    (\<forall>r' p' n'. signed_ref_expectation_message L r' p' n' = signed_ref_expectation_message L r p n \<longrightarrow>
      r' = r \<and> p' = p \<and> n' = n)"
proof -
  obtain m where m: "signed_ref_expectation_message L r p n = Inr m"
    using ref_message_total [OF assms(3)] by blast
  from assms(5) m have e: "e = \<lparr>re_ref_name = r, re_expected_previous_oid = p, re_new_oid = n,
      re_signature = make_signature L seed m label\<rparr>"
    by (simp add: sign_ref_expectation_def)
  have "r' = r \<and> p' = p \<and> n' = n"
    if "signed_ref_expectation_message L r' p' n' = signed_ref_expectation_message L r p n" for r' p' n'
    using that m ref_message_inj assms(3) by metis
  moreover have "verify_ref_expectation_signature L e = Inr True"
    by (rule verify_signed_expectation [OF assms])
  ultimately show ?thesis using e by simp
qed

theorem ref_expectation_signed_witness:
  "\<exists>e. sign_ref_expectation ref_lib ''refs/x'' None ''aa'' (replicate 32 1) None = Inr e \<and>
     verify_ref_expectation_signature ref_lib e = Inr True"
proof -
  obtain m where "signed_ref_expectation_message ref_lib ''refs/x'' None ''aa'' = Inr m"
    using ref_message_total [OF ref_lib_laws(1)] by blast
  then obtain e where e: "sign_ref_expectation ref_lib ''refs/x'' None ''aa'' (replicate 32 1) None = Inr e"
    by (simp add: sign_ref_expectation_def)
  then show ?thesis
    using ref_expectation_signed [OF ref_lib_laws(4,2,1) _ e] by simp
qed

end
