(* ===== verification/Fs.thy ===== *)
theory Fs
  imports Text
begin

text \<open>
  The part of \<^verbatim>\<open>std::fs\<close> the program uses, on an explicit file system: a map from absolute paths to
  directories and files, without symbolic links.  Every call that can fail for a reason of the
  outside (permissions, a full disk, a crash between two writes) takes its outcome from a list of
  faults; a call past the end of the list meets no fault.  A torn write leaves a prefix of the new
  content, which is what \<^verbatim>\<open>std::fs::write\<close> promises; a rename replaces its target or does nothing.
\<close>

type_synonym path = "str list"

datatype fnode = Dir | File bytes

datatype fault = NoFault | Refuse str | Torn nat str

record fs =
  entries :: "(path \<times> fnode) list"
  faults :: "fault list"

definition tree :: "fs \<Rightarrow> path \<Rightarrow> fnode option" where
  "tree s = map_of (entries s)"

definition ENOENT :: str where "ENOENT = ''No such file or directory (os error 2)''"
definition EEXIST :: str where "EEXIST = ''File exists (os error 17)''"
definition ENOTDIR :: str where "ENOTDIR = ''Not a directory (os error 20)''"
definition EISDIR :: str where "EISDIR = ''Is a directory (os error 21)''"
definition INVALID_UTF8 :: str where "INVALID_UTF8 = ''stream did not contain valid UTF-8''"

definition next_fault :: "fs \<Rightarrow> fault \<times> fs" where
  "next_fault s = (case faults s of [] \<Rightarrow> (NoFault, s) | f # fl \<Rightarrow> (f, s\<lparr>faults := fl\<rparr>))"

definition set_node :: "path \<Rightarrow> fnode option \<Rightarrow> fs \<Rightarrow> fs" where
  "set_node p n s = s\<lparr>entries := (case n of None \<Rightarrow> [] | Some x \<Rightarrow> [(p, x)]) @ filter (\<lambda>e. fst e \<noteq> p) (entries s)\<rparr>"

text \<open>\<^verbatim>\<open>Path::exists\<close>; the root of the file system is always there.\<close>

definition exists_at :: "fs \<Rightarrow> path \<Rightarrow> bool" where
  "exists_at s p \<longleftrightarrow> p = [] \<or> tree s p \<noteq> None"

definition is_dir_at :: "fs \<Rightarrow> path \<Rightarrow> bool" where
  "is_dir_at s p \<longleftrightarrow> p = [] \<or> tree s p = Some Dir"

text \<open>\<^verbatim>\<open>std::fs::read\<close>.\<close>

definition lookup_file :: "fs \<Rightarrow> path \<Rightarrow> str + bytes" where
  "lookup_file s p = (case tree s p of None \<Rightarrow> Inl ENOENT | Some Dir \<Rightarrow> Inl EISDIR | Some (File b) \<Rightarrow> Inr b)"

definition fs_read :: "path \<Rightarrow> (fs, str, bytes) eff" where
  "fs_read p s = (case next_fault s of
     (NoFault, s') \<Rightarrow> (lookup_file s' p, s')
   | (Refuse e, s') \<Rightarrow> (Inl e, s')
   | (Torn n e, s') \<Rightarrow> (Inl e, s'))"

text \<open>\<^verbatim>\<open>std::fs::write\<close>: create or truncate, then write all.\<close>

definition put_file :: "path \<Rightarrow> bytes \<Rightarrow> fs \<Rightarrow> (str + unit) \<times> fs" where
  "put_file p b s =
     (if p = [] \<or> tree s p = Some Dir then (Inl EISDIR, s)
      else if is_dir_at s (butlast p) then (Inr (), set_node p (Some (File b)) s)
      else if exists_at s (butlast p) then (Inl ENOTDIR, s)
      else (Inl ENOENT, s))"

definition fs_write :: "path \<Rightarrow> bytes \<Rightarrow> (fs, str, unit) eff" where
  "fs_write p b s = (case next_fault s of
     (NoFault, s') \<Rightarrow> put_file p b s'
   | (Refuse e, s') \<Rightarrow> (Inl e, s')
   | (Torn n e, s') \<Rightarrow> (Inl e, snd (put_file p (take n b) s')))"

text \<open>\<^verbatim>\<open>std::fs::rename\<close> of a file.\<close>

definition fs_rename :: "path \<Rightarrow> path \<Rightarrow> (fs, str, unit) eff" where
  "fs_rename p q s = (case next_fault s of
     (NoFault, s') \<Rightarrow>
       (case lookup_file s' p of
          Inl e \<Rightarrow> (Inl e, s')
        | Inr b \<Rightarrow> (case put_file q b s' of
            (Inl e, s'') \<Rightarrow> (Inl e, s'')
          | (Inr u, s'') \<Rightarrow> (Inr u, if p = q then s'' else set_node p None s'')))
   | (Refuse e, s') \<Rightarrow> (Inl e, s')
   | (Torn n e, s') \<Rightarrow> (Inl e, s'))"

text \<open>
  \<^verbatim>\<open>std::fs::create_dir_all\<close>, over the ancestors of the path from the root down.  A fault can leave
  the first few of them created.
\<close>

fun ancestors_of :: "path \<Rightarrow> path list" where
  "ancestors_of [] = []"
| "ancestors_of (x # xs) = [x] # map ((#) x) (ancestors_of xs)"

fun make_dirs :: "path list \<Rightarrow> fs \<Rightarrow> (str + unit) \<times> fs" where
  "make_dirs [] s = (Inr (), s)"
| "make_dirs (p # ps) s = (case tree s p of
     None \<Rightarrow> make_dirs ps (set_node p (Some Dir) s)
   | Some Dir \<Rightarrow> make_dirs ps s
   | Some (File b) \<Rightarrow> (Inl (if ps = [] then EEXIST else ENOTDIR), s))"

definition fs_create_dir_all :: "path \<Rightarrow> (fs, str, unit) eff" where
  "fs_create_dir_all p s = (case next_fault s of
     (NoFault, s') \<Rightarrow> make_dirs (ancestors_of p) s'
   | (Refuse e, s') \<Rightarrow> (Inl e, s')
   | (Torn n e, s') \<Rightarrow> (Inl e, snd (make_dirs (take n (ancestors_of p)) s')))"

text \<open>
  \<^verbatim>\<open>std::fs::read_dir\<close>: the names in a directory, in an order of the system's choice (here, of the
  table); the callers sort what they collect.
\<close>

definition dir_names :: "fs \<Rightarrow> path \<Rightarrow> str list" where
  "dir_names s p = remdups (map last (filter (\<lambda>q. q \<noteq> [] \<and> butlast q = p) (map fst (entries s))))"

definition fs_read_dir :: "path \<Rightarrow> (fs, str, str list) eff" where
  "fs_read_dir p s = (case next_fault s of
     (NoFault, s') \<Rightarrow> (if is_dir_at s' p then Inr (dir_names s' p)
        else if exists_at s' p then Inl ENOTDIR else Inl ENOENT, s')
   | (Refuse e, s') \<Rightarrow> (Inl e, s')
   | (Torn n e, s') \<Rightarrow> (Inl e, s'))"

text \<open>
  \<^verbatim>\<open>String::from_utf8\<close>: the well-formed byte sequences of the Unicode standard (no overlong forms, no
  surrogates, nothing above U+10FFFF).
\<close>

fun utf8_valid :: "nat list \<Rightarrow> bool" where
  "utf8_valid [] = True"
| "utf8_valid (a # bs) =
     (if a < 128 then utf8_valid bs
      else (case bs of
        [] \<Rightarrow> False
      | b # cs \<Rightarrow>
         if 194 \<le> a \<and> a \<le> 223 then 128 \<le> b \<and> b \<le> 191 \<and> utf8_valid cs
         else (case cs of
           [] \<Rightarrow> False
         | c # ds \<Rightarrow>
            if 224 \<le> a \<and> a \<le> 239
            then (if a = 224 then 160 else 128) \<le> b \<and> b \<le> (if a = 237 then 159 else 191) \<and>
                 128 \<le> c \<and> c \<le> 191 \<and> utf8_valid ds
            else (case ds of
              [] \<Rightarrow> False
            | d # es \<Rightarrow>
               240 \<le> a \<and> a \<le> 244 \<and> (if a = 240 then 144 else 128) \<le> b \<and>
               b \<le> (if a = 244 then 143 else 191) \<and> 128 \<le> c \<and> c \<le> 191 \<and> 128 \<le> d \<and> d \<le> 191 \<and>
               utf8_valid es))))"

definition bytes_str :: "bytes \<Rightarrow> str" where
  "bytes_str b = map (\<lambda>x. char_of (unat x)) b"

definition from_utf8 :: "bytes \<Rightarrow> str option" where
  "from_utf8 b = (if utf8_valid (map unat b) then Some (bytes_str b) else None)"

text \<open>\<^verbatim>\<open>std::fs::read_to_string\<close>.\<close>

definition fs_read_to_string :: "path \<Rightarrow> (fs, str, str) eff" where
  "fs_read_to_string p = e_bind (fs_read p) (\<lambda>b. e_lift (ok_or INVALID_UTF8 (from_utf8 b)))"

lemma bytes_str_str_bytes [simp]: "bytes_str (str_bytes s) = s"
  by (simp add: bytes_str_def str_bytes_def unat_of_char_u8 comp_def)

lemma str_bytes_bytes_str [simp]: "str_bytes (bytes_str b) = b"
proof -
  have "of_char (char_of (unat x)) = x" for x :: u8
  proof -
    have "unat (of_char (char_of (unat x)) :: u8) = unat x"
      using unat_u8_less [of x] by (simp add: unat_of_char_u8)
    then show ?thesis by (simp only: word_unat_eq_iff)
  qed
  then show ?thesis by (simp add: bytes_str_def str_bytes_def comp_def)
qed

text \<open>ASCII text is valid UTF-8.\<close>

lemma utf8_valid_ascii: "\<forall>n \<in> set ns. n < 128 \<Longrightarrow> utf8_valid ns"
  by (induction ns) auto

lemma from_utf8_ascii:
  "\<forall>c \<in> set s. of_char c < (128 :: nat) \<Longrightarrow> from_utf8 (str_bytes s) = Some s"
proof -
  assume "\<forall>c \<in> set s. of_char c < (128 :: nat)"
  then have "utf8_valid (map unat (str_bytes s))"
    by (intro utf8_valid_ascii) (auto simp: str_bytes_def unat_of_char_u8)
  then show ?thesis by (simp add: from_utf8_def)
qed

section \<open>Facts\<close>

named_theorems fs_simps \<open>what the file operations do to the tree\<close>

lemma map_of_without: "map_of (filter (\<lambda>e. fst e \<noteq> p) es) q = (if q = p then None else map_of es q)"
  by (induction es) auto

lemma set_node_simps [simp, fs_simps]:
  "tree (set_node p n s) = (tree s)(p := n)" "faults (set_node p n s) = faults s"
  by (auto simp: set_node_def tree_def map_of_without fun_eq_iff split: option.splits)

lemma tree_faults [simp]: "tree (s\<lparr>faults := fl\<rparr>) = tree s"
  by (simp add: tree_def)

lemma next_fault_tree: "next_fault s = (f, s') \<Longrightarrow> tree s' = tree s"
  by (auto simp: next_fault_def split: list.splits)

lemma next_fault_none [simp]: "faults s = [] \<Longrightarrow> next_fault s = (NoFault, s)"
  by (simp add: next_fault_def)

text \<open>With no faults left, the operations are deterministic.\<close>

lemma calm_ops [fs_simps]:
  assumes "faults s = []"
  shows "fs_read p s = (lookup_file s p, s)"
    and "fs_write p b s = put_file p b s"
    and "fs_create_dir_all p s = make_dirs (ancestors_of p) s"
  using assms by (simp_all add: fs_read_def fs_write_def fs_create_dir_all_def)

text \<open>What each operation can change, faults included.\<close>

lemma put_file_tree:
  "put_file p b s = (r, s') \<Longrightarrow>
     (s' = s \<and> is_ok r = False) \<or> (r = Inr () \<and> s' = set_node p (Some (File b)) s \<and> p \<noteq> [] \<and> tree s p \<noteq> Some Dir \<and> is_dir_at s (butlast p))"
  by (auto simp: put_file_def split: if_splits)

lemma fs_read_tree: "fs_read p s = (r, s') \<Longrightarrow> tree s' = tree s"
  by (auto simp: fs_read_def split: prod.splits fault.splits dest: next_fault_tree)

lemma fs_read_value: "fs_read p s = (Inr b, s') \<Longrightarrow> tree s p = Some (File b)"
  by (auto simp: fs_read_def lookup_file_def split: prod.splits fault.splits option.splits fnode.splits
      dest: next_fault_tree)

lemma fs_write_tree:
  assumes "fs_write p b s = (r, s')"
  obtains (same) "tree s' = tree s" "\<not> is_ok r"
  | (torn) n where "tree s' = (tree s)(p \<mapsto> File (take n b))" "\<not> is_ok r" "p \<noteq> []" "tree s p \<noteq> Some Dir" "is_dir_at s (butlast p)"
  | (written) "tree s' = (tree s)(p \<mapsto> File b)" "r = Inr ()" "p \<noteq> []" "tree s p \<noteq> Some Dir" "is_dir_at s (butlast p)"
proof -
  obtain f s1 where n: "next_fault s = (f, s1)" by (rule prod.exhaust)
  then have t: "tree s1 = tree s" by (rule next_fault_tree)
  show thesis
  proof (cases f)
    case NoFault
    with assms n have "put_file p b s1 = (r, s')" by (simp add: fs_write_def)
    from put_file_tree [OF this] t show thesis
      by (auto simp: is_dir_at_def intro: same written)
  next
    case (Refuse e)
    with assms n t same show thesis by (auto simp: fs_write_def)
  next
    case (Torn k e)
    obtain r' s2 where p: "put_file p (take k b) s1 = (r', s2)" by (rule prod.exhaust)
    with Torn assms n have "r = Inl e" "s' = s2" by (auto simp: fs_write_def)
    with put_file_tree [OF p] t show thesis
      by (auto simp: is_dir_at_def intro: same torn)
  qed
qed

lemma fs_rename_tree:
  assumes "fs_rename p q s = (r, s')" "p \<noteq> q"
  obtains (same) "tree s' = tree s" "\<not> is_ok r"
  | (moved) b where "tree s p = Some (File b)" "tree s' = (tree s)(q \<mapsto> File b, p := None)" "r = Inr ()"
      "tree s q \<noteq> Some Dir" "is_dir_at s (butlast q)" "q \<noteq> []"
proof -
  obtain f s1 where n: "next_fault s = (f, s1)" by (rule prod.exhaust)
  then have t: "tree s1 = tree s" by (rule next_fault_tree)
  show thesis
  proof (cases f)
    case NoFault
    show thesis
    proof (cases "lookup_file s1 p")
      case (Inl e)
      with assms n t NoFault same show thesis by (auto simp: fs_rename_def)
    next
      case (Inr b)
      then have b: "tree s p = Some (File b)"
        using t by (auto simp: lookup_file_def split: option.splits fnode.splits)
      obtain r' s2 where pf: "put_file q b s1 = (r', s2)" by (rule prod.exhaust)
      from put_file_tree [OF pf] show thesis
      proof (elim disjE conjE)
        assume *: "s2 = s1" "is_ok r' = False"
        then obtain e where "r' = Inl e" by (cases r') auto
        with * assms(1) n NoFault Inr pf have "r = Inl e" "s' = s1" by (simp_all add: fs_rename_def)
        with t show thesis by (intro same) simp_all
      next
        assume *: "r' = Inr ()" "s2 = set_node q (Some (File b)) s1" "q \<noteq> []" "tree s1 q \<noteq> Some Dir"
          "is_dir_at s1 (butlast q)"
        then have "r = Inr ()" "s' = set_node p None s2"
          using assms n NoFault Inr pf by (simp_all add: fs_rename_def)
        then show thesis
          using * by (intro moved [OF b]) (simp_all add: t is_dir_at_def)
      qed
    qed
  next
    case (Refuse e)
    with assms n t same show thesis by (auto simp: fs_rename_def)
  next
    case (Torn k e)
    with assms n t same show thesis by (auto simp: fs_rename_def)
  qed
qed

lemma in_dir_names: "x \<in> set (dir_names s p) \<longleftrightarrow> tree s (p @ [x]) \<noteq> None"
proof -
  have "x \<in> set (dir_names s p) \<longleftrightarrow> (\<exists>q \<in> fst ` set (entries s). q \<noteq> [] \<and> butlast q = p \<and> last q = x)"
    by (auto simp: dir_names_def image_iff)
  also have "\<dots> \<longleftrightarrow> p @ [x] \<in> fst ` set (entries s)"
    by (metis append_butlast_last_id butlast_snoc last_snoc snoc_eq_iff_butlast)
  finally show ?thesis by (simp add: tree_def map_of_eq_None_iff)
qed

lemma distinct_dir_names [simp]: "distinct (dir_names s p)"
  by (simp add: dir_names_def)

lemma fs_read_dir_tree: "fs_read_dir p s = (r, s') \<Longrightarrow> tree s' = tree s"
  by (auto simp: fs_read_dir_def split: prod.splits fault.splits if_splits dest: next_fault_tree)

text \<open>\<^verbatim>\<open>create_dir_all\<close> only adds directories where nothing was.\<close>

lemma make_dirs_tree:
  "make_dirs ps s = (r, s') \<Longrightarrow>
     (\<forall>p. tree s' p = tree s p \<or> (p \<in> set ps \<and> tree s p = None \<and> tree s' p = Some Dir)) \<and>
     faults s' = faults s \<and> (is_ok r \<longrightarrow> (\<forall>p \<in> set ps. tree s' p = Some Dir))"
proof (induction ps s rule: make_dirs.induct)
  case (2 p ps s)
  show ?case
  proof (cases "tree s p")
    case None
    with 2 have *: "(\<forall>q. tree s' q = tree (set_node p (Some Dir) s) q \<or>
        (q \<in> set ps \<and> tree (set_node p (Some Dir) s) q = None \<and> tree s' q = Some Dir)) \<and>
      faults s' = faults (set_node p (Some Dir) s) \<and> (is_ok r \<longrightarrow> (\<forall>q \<in> set ps. tree s' q = Some Dir))"
      by simp
    then have "tree s' p = Some Dir" by (metis fun_upd_same option.distinct(1) set_node_simps(1))
    moreover have "tree s' q = tree s q \<or> (q \<in> set ps \<and> tree s q = None \<and> tree s' q = Some Dir)"
      if "q \<noteq> p" for q
      using * that by (metis fun_upd_other set_node_simps(1))
    ultimately show ?thesis using * None by (metis list.set_intros set_ConsD set_node_simps(2))
  next
    case (Some n)
    show ?thesis
    proof (cases n)
      case Dir
      with 2 Some have *: "(\<forall>q. tree s' q = tree s q \<or> (q \<in> set ps \<and> tree s q = None \<and> tree s' q = Some Dir)) \<and>
          faults s' = faults s \<and> (is_ok r \<longrightarrow> (\<forall>q \<in> set ps. tree s' q = Some Dir))" by simp
      then have "tree s' p = Some Dir" using Some Dir by (metis option.distinct(1))
      with * show ?thesis by auto
    next
      case (File b)
      with 2 Some show ?thesis by auto
    qed
  qed
qed auto

lemma fs_create_dir_all_tree:
  assumes "fs_create_dir_all p s = (r, s')"
  shows "tree s' q = tree s q \<or> (q \<in> set (ancestors_of p) \<and> tree s q = None \<and> tree s' q = Some Dir)"
    and "is_ok r \<Longrightarrow> q \<in> set (ancestors_of p) \<Longrightarrow> tree s' q = Some Dir"
proof -
  obtain f s1 where n: "next_fault s = (f, s1)" by (rule prod.exhaust)
  then have t: "tree s1 = tree s" by (rule next_fault_tree)
  show "tree s' q = tree s q \<or> (q \<in> set (ancestors_of p) \<and> tree s q = None \<and> tree s' q = Some Dir)"
  proof (cases f)
    case NoFault
    with assms n have "make_dirs (ancestors_of p) s1 = (r, s')" by (simp add: fs_create_dir_all_def)
    from make_dirs_tree [OF this] t show ?thesis by metis
  next
    case (Refuse e)
    with assms n t show ?thesis by (auto simp: fs_create_dir_all_def)
  next
    case (Torn k e)
    obtain r' s2 where m: "make_dirs (take k (ancestors_of p)) s1 = (r', s2)" by (rule prod.exhaust)
    with Torn assms n have "s' = s2" by (auto simp: fs_create_dir_all_def)
    with make_dirs_tree [OF m] t show ?thesis by (metis in_set_takeD)
  qed
  assume ok: "is_ok r" and q: "q \<in> set (ancestors_of p)"
  show "tree s' q = Some Dir"
  proof (cases f)
    case NoFault
    with assms n have "make_dirs (ancestors_of p) s1 = (r, s')" by (simp add: fs_create_dir_all_def)
    from make_dirs_tree [OF this] ok q show ?thesis by simp
  qed (use assms n ok in \<open>auto simp: fs_create_dir_all_def\<close>)
qed

lemma ancestors_of_snoc: "ancestors_of (p @ [x]) = ancestors_of p @ [p @ [x]]"
  by (induction p) auto

lemma in_ancestors_of: "q \<in> set (ancestors_of p) \<longleftrightarrow> q \<noteq> [] \<and> (\<exists>r. p = q @ r)"
proof (induction p arbitrary: q)
  case (Cons x xs)
  then show ?case by (cases q) auto
qed auto

lemma self_in_ancestors [simp]: "p \<noteq> [] \<Longrightarrow> p \<in> set (ancestors_of p)"
  by (simp add: in_ancestors_of)

text \<open>The shape of a tree: whatever exists lies in a directory.\<close>

definition fs_ok :: "fs \<Rightarrow> bool" where
  "fs_ok s \<longleftrightarrow> (\<forall>p. tree s p \<noteq> None \<longrightarrow> p \<noteq> [] \<and> is_dir_at s (butlast p))"

lemma fs_okD: "fs_ok s \<Longrightarrow> tree s p = Some n \<Longrightarrow> is_dir_at s (butlast p)"
  unfolding fs_ok_def by fastforce

lemma fs_ok_cong: "tree s' = tree s \<Longrightarrow> fs_ok s' = fs_ok s"
  by (simp add: fs_ok_def is_dir_at_def)

lemma fs_ok_put: 
  assumes "fs_ok s" "p \<noteq> []" "tree s p \<noteq> Some Dir" "is_dir_at s (butlast p)" "tree s' = (tree s)(p \<mapsto> File b)"
  shows "fs_ok s'"
  using assms unfolding fs_ok_def is_dir_at_def
  by (metis (no_types, lifting) fun_upd_apply option.discI)

lemma keeps_fs_ok_read: "keeps fs_ok (fs_read p)"
  by (rule keepsI) (metis fs_ok_cong fs_read_tree)

lemma keeps_fs_ok_write: "keeps fs_ok (fs_write p b)"
proof (rule keepsI)
  fix s r s' assume "fs_ok s" "fs_write p b s = (r, s')"
  from this(2,1) show "fs_ok s'"
    by (cases rule: fs_write_tree) (metis fs_ok_cong, metis fs_ok_put, metis fs_ok_put)
qed

end
