(* ===== verification/Core_Crypto.thy ===== *)
theory Core_Crypto
  imports Core_Signing Fs
begin

text \<open>
  The rest of \<^verbatim>\<open>crates/rickydata-git-core/src/lib.rs\<close>: encrypted bodies, key files, and the checks of
  signer receipts and TEE policies.  The random bytes of \<^verbatim>\<open>OsRng\<close> are an argument.
\<close>

definition ENCRYPTION_ALGORITHM_AES_256_GCM :: str where
  "ENCRYPTION_ALGORITHM_AES_256_GCM = ''aes-256-gcm''"
definition AES_256_KEY_LENGTH :: nat where "AES_256_KEY_LENGTH = 32"
definition AES_GCM_NONCE_LENGTH :: nat where "AES_GCM_NONCE_LENGTH = 12"
definition SECRET_KEY_LENGTH :: nat where "SECRET_KEY_LENGTH = 32"

record encryption_envelope_ref =
  env_algorithm :: str
  env_envelope_hash :: str
  env_key_ref :: "str option"

record encrypted_body =
  eb_envelope :: encryption_envelope_ref
  eb_ciphertext :: bytes
  eb_nonce :: bytes

record signer_receipt_ref =
  rec_receipt_hash :: str
  rec_operation :: str
  rec_trust_bundle_hash :: str
  rec_counter_namespace :: str
  rec_counter_value :: u64

record tee_policy =
  tee_required :: bool
  tee_accepted_trust_bundle_hashes :: "str list"
  tee_accepted_operations :: "str list"

section \<open>Encrypted bodies\<close>

definition envelope_hash :: "lib \<Rightarrow> bytes \<Rightarrow> bytes \<Rightarrow> str" where
  "envelope_hash L nonce ciphertext = ''sha256:'' @ hex_encode L (sha256 L (nonce @ ciphertext))"

definition encrypt_body ::
    "lib \<Rightarrow> bytes \<Rightarrow> bytes \<Rightarrow> bytes \<Rightarrow> str option \<Rightarrow> core_error + encrypted_body" where
  "encrypt_body L nonce plaintext key key_ref =
     r_bind (map_err (\<lambda>e. Encryption (''aes-256-gcm encrypt failed: '' @ e)) (aes_encrypt L key nonce plaintext)) (\<lambda>ciphertext.
       Inr \<lparr>eb_envelope = \<lparr>env_algorithm = ENCRYPTION_ALGORITHM_AES_256_GCM,
              env_envelope_hash = envelope_hash L nonce ciphertext, env_key_ref = key_ref\<rparr>,
            eb_ciphertext = ciphertext, eb_nonce = nonce\<rparr>)"

definition decrypt_body ::
    "lib \<Rightarrow> encryption_envelope_ref \<Rightarrow> bytes \<Rightarrow> bytes \<Rightarrow> bytes \<Rightarrow> core_error + bytes" where
  "decrypt_body L envelope ciphertext nonce key =
     (if env_algorithm envelope \<noteq> ENCRYPTION_ALGORITHM_AES_256_GCM
      then Inl (Encryption (''unsupported encryption algorithm: '' @ env_algorithm envelope))
      else if envelope_hash L nonce ciphertext \<noteq> env_envelope_hash envelope
      then Inl (Encryption ''envelope_hash does not match ciphertext+nonce'')
      else map_err (\<lambda>e. Encryption (''aes-256-gcm decrypt failed: '' @ e)) (aes_decrypt L key nonce ciphertext))"

section \<open>Key files\<close>

definition parse_signing_key :: "lib \<Rightarrow> bytes \<Rightarrow> core_error + bytes" where
  "parse_signing_key L raw =
     (if length raw = SECRET_KEY_LENGTH then Inr raw
      else
        r_bind (ok_or (Signing (''signing key is not raw bytes or utf-8: '' @ utf8_error L raw)) (from_utf8 raw)) (\<lambda>text.
        r_bind (map_err (\<lambda>e. Signing (''signing key hex decode failed: '' @ e)) (hex_decode L (trim text))) (\<lambda>decoded.
        if length decoded \<noteq> SECRET_KEY_LENGTH
        then Inl (Signing (''decoded signing key must be '' @ show_nat SECRET_KEY_LENGTH @ '' bytes, got '' @
               show_nat (length decoded)))
        else Inr decoded)))"

definition load_signing_key_from_file :: "lib \<Rightarrow> path \<Rightarrow> (fs, core_error, bytes) eff" where
  "load_signing_key_from_file L p =
     e_bind (e_map_err (\<lambda>e. Signing (''failed to read signing key: '' @ e)) (fs_read p)) (\<lambda>raw.
       e_lift (parse_signing_key L raw))"

definition parse_encryption_key :: "lib \<Rightarrow> bytes \<Rightarrow> core_error + bytes" where
  "parse_encryption_key L raw =
     r_bind (if length raw = AES_256_KEY_LENGTH then Inr raw
       else
        r_bind (ok_or (Encryption (''encryption key is not raw bytes or utf-8: '' @ utf8_error L raw)) (from_utf8 raw)) (\<lambda>text.
        map_err (\<lambda>e. Encryption (''encryption key hex decode failed: '' @ e)) (hex_decode L (trim text)))) (\<lambda>bytes.
     if length bytes \<noteq> AES_256_KEY_LENGTH
     then Inl (Encryption (''encryption key must be '' @ show_nat AES_256_KEY_LENGTH @ '' bytes, got '' @
            show_nat (length bytes)))
     else Inr bytes)"

definition load_encryption_key_from_file :: "lib \<Rightarrow> path \<Rightarrow> (fs, core_error, bytes) eff" where
  "load_encryption_key_from_file L p =
     e_bind (e_map_err (\<lambda>e. Encryption (''failed to read encryption key: '' @ e)) (fs_read p)) (\<lambda>raw.
       e_lift (parse_encryption_key L raw))"

section \<open>Receipts and policies\<close>

definition verify_signer_receipt_stub :: "signer_receipt_ref \<Rightarrow> core_error + bool" where
  "verify_signer_receipt_stub receipt =
     (if blank (rec_receipt_hash receipt) then Inl (Tee ''receipt_hash must not be empty'')
      else if \<not> starts_with (rec_receipt_hash receipt) ''sha256:''
      then Inl (Tee ''receipt_hash must be a sha256: prefixed digest'')
      else if blank (rec_operation receipt) then Inl (Tee ''operation must not be empty'')
      else if blank (rec_trust_bundle_hash receipt) then Inl (Tee ''trust_bundle_hash must not be empty'')
      else if \<not> starts_with (rec_trust_bundle_hash receipt) ''sha256:''
      then Inl (Tee ''trust_bundle_hash must be a sha256: prefixed digest'')
      else if blank (rec_counter_namespace receipt) then Inl (Tee ''counter_namespace must not be empty'')
      else if rec_counter_value receipt = 0 then Inl (Tee ''counter_value must be greater than 0'')
      else Inr True)"

definition verify_tee_policy_stub :: "tee_policy \<Rightarrow> signer_receipt_ref \<Rightarrow> core_error + bool" where
  "verify_tee_policy_stub policy receipt =
     r_bind (verify_signer_receipt_stub receipt) (\<lambda>_.
       if \<not> list_ex (\<lambda>h. h = rec_trust_bundle_hash receipt) (tee_accepted_trust_bundle_hashes policy)
       then Inl (Tee (''trust_bundle_hash '' @ rec_trust_bundle_hash receipt @ '' not in accepted_trust_bundle_hashes''))
       else if \<not> list_ex (\<lambda>p. p = rec_operation receipt) (tee_accepted_operations policy)
       then Inl (Tee (''operation '' @ rec_operation receipt @ '' not in accepted_operations''))
       else Inr True)"

section \<open>Lemmas\<close>

lemma encrypt_bodyD:
  assumes "encrypt_body L nonce pt key kr = Inr e"
  shows "aes_encrypt L key nonce pt = Inr (eb_ciphertext e)" "eb_nonce e = nonce"
    "env_algorithm (eb_envelope e) = ENCRYPTION_ALGORITHM_AES_256_GCM"
    "env_envelope_hash (eb_envelope e) = envelope_hash L nonce (eb_ciphertext e)"
    "env_key_ref (eb_envelope e) = kr"
  using assms by (auto simp: encrypt_body_def r_bind_Inr_iff)

lemma decrypt_bodyD:
  assumes "decrypt_body L env ct nonce key = Inr pt"
  shows "env_algorithm env = ENCRYPTION_ALGORITHM_AES_256_GCM"
    "env_envelope_hash env = envelope_hash L nonce ct" "aes_decrypt L key nonce ct = Inr pt"
  using assms by (auto simp: decrypt_body_def split: if_splits)

lemma envelope_hash_eq:
  assumes "envelope_hash L n c = envelope_hash L n' c'" "hex_codec L"
  shows "n @ c = n' @ c' \<or> sha_collision L (n @ c) (n' @ c')"
  using assms hex_encode_inj [OF assms(2)] by (auto simp: envelope_hash_def sha_collision_def)

lemma plain_hex: "c \<in> set hex_alphabet \<Longrightarrow> plain_char c"
  by (auto simp: hex_alphabet_def plain_char_def)

lemma trim_lower_hex:
  "trim (lower_hex bs) = lower_hex bs" "bs \<noteq> [] \<Longrightarrow> trim (lower_hex bs @ ''\<newline>'') = lower_hex bs"
proof -
  have ends: "plain_char (hd (lower_hex bs)) \<and> plain_char (last (lower_hex bs))" if "bs \<noteq> []"
  proof -
    have "lower_hex bs \<noteq> []" using that by (cases bs) (auto simp: hex_byte_def)
    then show ?thesis using lower_hex_set [of bs] plain_hex by (meson hd_in_set last_in_set subsetD)
  qed
  show "trim (lower_hex bs) = lower_hex bs" using ends by (intro trim_plain) (cases bs; simp)
  show "trim (lower_hex bs @ ''\<newline>'') = lower_hex bs" if "bs \<noteq> []"
    using ends [OF that] that by (intro trim_plain_newline) (cases bs; auto simp: hex_byte_def)+
qed

lemma hex_text_utf8: "from_utf8 (str_bytes (lower_hex bs @ ''\<newline>'')) = Some (lower_hex bs @ ''\<newline>'')"
proof (rule from_utf8_ascii)
  show "\<forall>c \<in> set (lower_hex bs @ ''\<newline>''). of_char c < (128 :: nat)"
    using lower_hex_set [of bs] plain_hex unfolding plain_char_def by fastforce
qed

lemma receipt_ok_iff:
  "verify_signer_receipt_stub r = Inr b \<longleftrightarrow> b \<and>
     starts_with (rec_receipt_hash r) ''sha256:'' \<and> \<not> blank (rec_receipt_hash r) \<and>
     \<not> blank (rec_operation r) \<and> \<not> blank (rec_trust_bundle_hash r) \<and>
     starts_with (rec_trust_bundle_hash r) ''sha256:'' \<and>
     \<not> blank (rec_counter_namespace r) \<and> rec_counter_value r \<noteq> 0"
  by (auto simp: verify_signer_receipt_stub_def)

section \<open>Properties\<close>

text \<open>
  C6: decrypting with the key and nonce of the encryption gives the plaintext back, and the envelope is
  bound to nonce and ciphertext: anything else that decrypts under the same envelope (with a nonce of
  the fixed size) is the same nonce and ciphertext, or the two are a collision of SHA-256.
\<close>

theorem encrypted_body_sealed:
  assumes "encrypt_body L nonce pt key kr = Inr e" "hex_codec L" "aes_correct L"
    and "length key = AES_256_KEY_LENGTH" "length nonce = AES_GCM_NONCE_LENGTH"
  shows "decrypt_body L (eb_envelope e) (eb_ciphertext e) (eb_nonce e) key = Inr pt \<and>
    (\<forall>ct' nonce' key' pt'. length nonce' = AES_GCM_NONCE_LENGTH \<longrightarrow>
       decrypt_body L (eb_envelope e) ct' nonce' key' = Inr pt' \<longrightarrow>
       (ct' = eb_ciphertext e \<and> nonce' = nonce) \<or> sha_collision L (nonce' @ ct') (nonce @ eb_ciphertext e))"
proof (intro conjI allI impI)
  note e = encrypt_bodyD [OF assms(1)]
  show "decrypt_body L (eb_envelope e) (eb_ciphertext e) (eb_nonce e) key = Inr pt"
    using e assms(3-5) by (simp add: decrypt_body_def aes_correct_def AES_256_KEY_LENGTH_def AES_GCM_NONCE_LENGTH_def)
  fix ct' nonce' key' pt'
  assume n: "length nonce' = AES_GCM_NONCE_LENGTH" and d: "decrypt_body L (eb_envelope e) ct' nonce' key' = Inr pt'"
  have "envelope_hash L nonce' ct' = envelope_hash L nonce (eb_ciphertext e)"
    using decrypt_bodyD(2) [OF d] e(4) by simp
  from envelope_hash_eq [OF this assms(2)] n assms(5)
  show "(ct' = eb_ciphertext e \<and> nonce' = nonce) \<or> sha_collision L (nonce' @ ct') (nonce @ eb_ciphertext e)" by auto
qed

theorem encrypted_body_sealed_witness:
  "\<exists>e. encrypt_body ref_lib (replicate 12 9) [1, 2, 3] (replicate 32 5) None = Inr e \<and>
     decrypt_body ref_lib (eb_envelope e) (eb_ciphertext e) (eb_nonce e) (replicate 32 5) = Inr [1, 2, 3]"
proof -
  obtain e where e: "encrypt_body ref_lib (replicate 12 9) [1, 2, 3] (replicate 32 5) None = Inr e"
    by (simp add: encrypt_body_def ref_lib_def)
  then show ?thesis
    using encrypted_body_sealed [OF e ref_lib_laws(2,5)] by (simp add: AES_256_KEY_LENGTH_def AES_GCM_NONCE_LENGTH_def)
qed

text \<open>
  a signing key is read the same way from its 32 raw bytes and from its hexadecimal text with a
  final newline; whatever is loaded has 32 bytes.
\<close>

theorem signing_key_forms:
  assumes "hex_codec L" "length seed = SECRET_KEY_LENGTH"
  shows "parse_signing_key L seed = Inr seed \<and>
    parse_signing_key L (str_bytes (hex_encode L seed @ ''\<newline>'')) = Inr seed \<and>
    (\<forall>raw k. parse_signing_key L raw = Inr k \<longrightarrow> length k = SECRET_KEY_LENGTH)"
proof -
  have "seed \<noteq> []" using assms(2) by (auto simp: SECRET_KEY_LENGTH_def)
  then have "parse_signing_key L (str_bytes (hex_encode L seed @ ''\<newline>'')) = Inr seed"
    using assms hex_codecD(1) [OF assms(1), of seed]
    by (simp add: parse_signing_key_def hex_codecD(2) [OF assms(1)] hex_text_utf8 trim_lower_hex
        SECRET_KEY_LENGTH_def)
  then show ?thesis using assms(2) by (auto simp: parse_signing_key_def r_bind_Inr_iff split: if_splits)
qed

theorem signing_key_forms_witness:
  "parse_signing_key ref_lib (str_bytes (hex_encode ref_lib (replicate 32 171) @ ''\<newline>'')) = Inr (replicate 32 171)"
  using signing_key_forms [OF ref_lib_laws(2), of "replicate 32 171"] by (simp add: SECRET_KEY_LENGTH_def)

text \<open>
  the TEE policy check answers \<open>True\<close> or an error, and answers \<open>True\<close> exactly for a receipt with
  the required prefixes, non-blank fields and a positive counter whose trust bundle and operation the
  policy lists.
\<close>

theorem tee_policy_accepts:
  "verify_tee_policy_stub p r = Inr b \<longleftrightarrow> b \<and>
     starts_with (rec_receipt_hash r) ''sha256:'' \<and> \<not> blank (rec_receipt_hash r) \<and>
     \<not> blank (rec_operation r) \<and> \<not> blank (rec_trust_bundle_hash r) \<and>
     starts_with (rec_trust_bundle_hash r) ''sha256:'' \<and>
     \<not> blank (rec_counter_namespace r) \<and> rec_counter_value r \<noteq> 0 \<and>
     rec_trust_bundle_hash r \<in> set (tee_accepted_trust_bundle_hashes p) \<and>
     rec_operation r \<in> set (tee_accepted_operations p)"
  by (auto simp: verify_tee_policy_stub_def r_bind_Inr_iff receipt_ok_iff list_ex_iff)

end
