(* ===== verification/Core_Schema.thy ===== *)
theory Core_Schema
  imports Core_Crypto
begin

text \<open>
  The wire form of the schema types of \<^verbatim>\<open>rickydata-git-core\<close>: privacy classes, envelopes, receipts,
  policies, source spans and symbols.  Each type has its field list, its encoder (\<open>_json\<close>), its
  decoder (\<open>_of_json\<close>) and a round-trip lemma; \<open>codec\<close> is what the decoders of larger types need of
  the encoders of their parts.
\<close>

section \<open>Codecs\<close>

definition codec :: "('a \<Rightarrow> json) \<Rightarrow> (json \<Rightarrow> 'a option) \<Rightarrow> bool" where
  "codec f d \<longleftrightarrow> (\<forall>x. d (f x) = Some x) \<and> (\<forall>x. f x \<noteq> JNull)"

definition jbool :: "bool \<Rightarrow> json" where "jbool = JBool"

definition ju32 :: "32 word \<Rightarrow> json" where "ju32 n = JNumber (PosInt (ucast n))"

definition ji32 :: "32 word \<Rightarrow> json" where "ji32 n = JNumber (number_of_i64 (sint n))"

definition jlist :: "('a \<Rightarrow> json) \<Rightarrow> 'a list \<Rightarrow> json" where "jlist f xs = JArray (map f xs)"

text \<open>A \<^verbatim>\<open>bool\<close> field skipped when false.\<close>

definition true_field :: "str \<Rightarrow> bool \<Rightarrow> (str \<times> json) list" where
  "true_field k b = (if b then [(k, JBool True)] else [])"

fun d_u32 :: "json \<Rightarrow> 32 word option" where
  "d_u32 (JNumber (PosInt n)) = (if unat n < 2 ^ 32 then Some (ucast n) else None)"
| "d_u32 _ = None"

fun d_i32 :: "json \<Rightarrow> 32 word option" where
  "d_i32 (JNumber (PosInt n)) = (if unat n < 2 ^ 31 then Some (ucast n) else None)"
| "d_i32 (JNumber (NegInt i)) = (if - (2 ^ 31) \<le> i then Some (of_int i) else None)"
| "d_i32 _ = None"

definition opt_read :: "(json \<Rightarrow> 'a option) \<Rightarrow> json \<Rightarrow> 'a option option" where
  "opt_read d v = (if v = JNull then Some None else map_option Some (d v))"

lemma field_opt_read:
  "field_opt d k v = (case json_get v k of None \<Rightarrow> Some None | Some w \<Rightarrow> opt_read d w)"
  by (cases "json_get v k") (simp_all add: field_opt_alt opt_read_def)

lemma opt_read_jopt [simp]: "codec f d \<Longrightarrow> opt_read d (jopt f x) = Some x"
  by (cases x) (simp_all add: opt_read_def codec_def)

lemma opt_read_some [simp]: "v \<noteq> JNull \<Longrightarrow> opt_read d v = map_option Some (d v)"
  by (simp add: opt_read_def)

lemma d_list_jlist [simp]: "codec f d \<Longrightarrow> d_list d (jlist f xs) = Some xs"
  by (simp add: jlist_def codec_def o_collect_map)

lemma d_list_map [simp]: "codec f d \<Longrightarrow> o_collect d (map f xs) = Some xs"
  by (simp add: codec_def o_collect_map)

lemma encoders_not_null [simp]: "jbool b \<noteq> JNull" "ju32 m \<noteq> JNull" "ji32 m \<noteq> JNull" "jlist f xs \<noteq> JNull"
  "json_obj kvs \<noteq> JNull"
  by (simp_all add: jbool_def ju32_def ji32_def jlist_def json_obj_def)

lemma d_jbool [simp]: "d_bool (jbool b) = Some b"
  by (simp add: jbool_def)

lemma d_u32_ju32 [simp]: "d_u32 (ju32 n) = Some n"
proof -
  have n: "unat n < 2 ^ 32" using unsigned_less [of n] by simp
  have "unat (ucast n :: u64) = unat n"
    using n by (simp add: unsigned_ucast_eq take_bit_nat_eq_self)
  moreover have "unat (ucast (ucast n :: u64) :: 32 word) = take_bit 32 (unat (ucast n :: u64))"
    by (subst unsigned_ucast_eq) simp
  ultimately have "unat (ucast (ucast n :: u64) :: 32 word) = unat n"
    using n by (simp only: take_bit_nat_eq_self)
  then have "ucast (ucast n :: u64) = n" by (simp only: word_unat_eq_iff)
  moreover note \<open>unat (ucast n :: u64) = unat n\<close>
  ultimately show ?thesis using n by (simp add: ju32_def)
qed

lemma d_i32_ji32 [simp]: "d_i32 (ji32 n) = Some n"
proof -
  have b: "- (2 ^ 31) \<le> sint n" "sint n < 2 ^ 31"
    using sint_greater_eq [of n] sint_less [of n] by simp_all
  show ?thesis
  proof (cases "sint n < 0")
    case True
    with b show ?thesis by (simp add: ji32_def number_of_i64_def)
  next
    case False
    have t: "take_bit 64 (sint n) = sint n" using b False by (simp add: take_bit_int_eq_self)
    have "unat (of_int (sint n) :: u64) = nat (sint n)" by (subst unsigned_of_int) (simp add: t)
    with b False have "unat (of_int (sint n) :: u64) < 2 ^ 31" by (simp del: of_int_sint)
    moreover have "ucast (of_int (sint n) :: u64) = n"
      using False by (subst unsigned_of_int) (simp add: t)
    ultimately show ?thesis using False by (simp add: ji32_def number_of_i64_def)
  qed
qed

lemma basic_codecs [simp]: "codec jstr d_str" "codec ju64 d_u64" "codec jbool d_bool" "codec ju32 d_u32"
  "codec ji32 d_i32" "codec f d \<Longrightarrow> codec (jlist f) (d_list d)"
  by (simp_all add: codec_def)

named_theorems plain_simps \<open>when an encoded value is parsed back exactly\<close>

lemma plain_encoders [simp, plain_simps]:
  "json_plain d (jbool b)" "json_plain d (ju32 m)" "json_plain d (ji32 m)"
  "json_plain (Suc d) (jlist f xs) \<longleftrightarrow> (\<forall>x \<in> set xs. json_plain d (f x))"
  "json_plain d (jopt g y) \<longleftrightarrow> (\<forall>z. y = Some z \<longrightarrow> json_plain d (g z))"
proof -
  show "json_plain d (ji32 m)"
    using sint_greater_eq [of m] by (auto simp: ji32_def number_of_i64_def i64_min_def)
  show "json_plain d (jopt g y) \<longleftrightarrow> (\<forall>z. y = Some z \<longrightarrow> json_plain d (g z))"
    by (cases y) simp_all
qed (auto simp: jbool_def ju32_def jlist_def list_all_iff)

lemma in_true_field [plain_simps]: "(k, v) \<in> set (true_field j b) \<longleftrightarrow> b \<and> k = j \<and> v = JBool True"
  by (auto simp: true_field_def)

lemmas [plain_simps] = in_opt_field in_list_field list_all_iff

text \<open>What evaluates the field lists and the decoders of a type.\<close>

lemmas wire_simps = field_def field_opt_read field_default_def list_field_def true_field_def

text \<open>A value that is parsed back exactly is canonical already.\<close>

lemma canonical_plain: "json_plain d v \<Longrightarrow> canonical_json v = v"
proof (induction d v rule: json_plain.induct)
  case (4 d kvs)
  then obtain e where e: "d = Suc e" by (cases d) auto
  with 4 have kvs: "entries_ok kvs" "\<And>kv. kv \<in> set kvs \<Longrightarrow> canonical_json (snd kv) = snd kv"
    by (auto simp: list_all_iff)
  have "on_values canonical_json kvs = kvs"
    using kvs(2) by (simp add: on_values_def map_idI)
  then show ?case
    using kvs(1) canonical_json_object [OF entries_ok_distinct [OF kvs(1)]]
    by (simp add: map_of_entries_id)
next
  case (3 d vs)
  then show ?case by (cases d) (auto simp: list_all_iff map_idI)
qed (simp_all add: canonical_number_simps)

section \<open>Types\<close>

datatype privacy_class = PublicMetadata | PrivateBody | Secret | Encrypted

fun privacy_class_str :: "privacy_class \<Rightarrow> str" where
  "privacy_class_str PublicMetadata = ''public_metadata''"
| "privacy_class_str PrivateBody = ''private_body''"
| "privacy_class_str Secret = ''secret''"
| "privacy_class_str Encrypted = ''encrypted''"

definition privacy_class_json :: "privacy_class \<Rightarrow> json" where
  "privacy_class_json x = jstr (privacy_class_str x)"

definition privacy_class_of_json :: "json \<Rightarrow> privacy_class option" where
  "privacy_class_of_json v = Option.bind (d_str v) (\<lambda>s. map_of
     [(''public_metadata'', PublicMetadata),
      (''private_body'', PrivateBody),
      (''secret'', Secret),
      (''encrypted'', Encrypted)] s)"

lemma privacy_class_round_trip [simp]: "privacy_class_of_json (privacy_class_json x) = Some x"
  by (cases x) (simp_all add: privacy_class_json_def privacy_class_of_json_def)

lemma privacy_class_not_null [simp]: "privacy_class_json x \<noteq> JNull"
  by (simp add: privacy_class_json_def)

lemma privacy_class_codec [simp]: "codec privacy_class_json privacy_class_of_json"
  by (simp add: codec_def)

lemma privacy_class_plain [simp]: "json_plain d (privacy_class_json x)"
  by (simp add: privacy_class_json_def)

definition encryption_envelope_ref_fields :: "encryption_envelope_ref \<Rightarrow> (str \<times> json) list" where
  "encryption_envelope_ref_fields x =
     [(''algorithm'', jstr (env_algorithm x)),
      (''envelope_hash'', jstr (env_envelope_hash x)),
      (''key_ref'', jopt jstr (env_key_ref x))]"

definition encryption_envelope_ref_json :: "encryption_envelope_ref \<Rightarrow> json" where
  "encryption_envelope_ref_json x = json_obj (encryption_envelope_ref_fields x)"

definition encryption_envelope_ref_of_json :: "json \<Rightarrow> encryption_envelope_ref option" where
  "encryption_envelope_ref_of_json v = do {
     x1 \<leftarrow> field d_str ''algorithm'' v;
     x2 \<leftarrow> field d_str ''envelope_hash'' v;
     x3 \<leftarrow> field_opt d_str ''key_ref'' v;
     Some \<lparr>env_algorithm = x1, env_envelope_hash = x2, env_key_ref = x3\<rparr> }"

lemma encryption_envelope_ref_get: "json_get (encryption_envelope_ref_json x) k = map_of (encryption_envelope_ref_fields x) k"
  unfolding encryption_envelope_ref_json_def by (rule json_get_json_obj) (simp add: wire_simps encryption_envelope_ref_fields_def)

lemma encryption_envelope_ref_round_trip [simp]: "encryption_envelope_ref_of_json (encryption_envelope_ref_json x) = Some x"
  by (simp add: wire_simps encryption_envelope_ref_of_json_def encryption_envelope_ref_get encryption_envelope_ref_fields_def)

lemma encryption_envelope_ref_not_null [simp]: "encryption_envelope_ref_json x \<noteq> JNull"
  by (simp add: encryption_envelope_ref_json_def)

lemma encryption_envelope_ref_codec [simp]: "codec encryption_envelope_ref_json encryption_envelope_ref_of_json"
  by (simp add: codec_def)

lemma encryption_envelope_ref_plain [simp]: "json_plain (Suc d) (encryption_envelope_ref_json x)"
  unfolding encryption_envelope_ref_json_def by (rule json_plain_json_obj) (auto simp: encryption_envelope_ref_fields_def plain_simps)

definition signer_receipt_ref_fields :: "signer_receipt_ref \<Rightarrow> (str \<times> json) list" where
  "signer_receipt_ref_fields x =
     [(''receipt_hash'', jstr (rec_receipt_hash x)),
      (''operation'', jstr (rec_operation x)),
      (''trust_bundle_hash'', jstr (rec_trust_bundle_hash x)),
      (''counter_namespace'', jstr (rec_counter_namespace x)),
      (''counter_value'', ju64 (rec_counter_value x))]"

definition signer_receipt_ref_json :: "signer_receipt_ref \<Rightarrow> json" where
  "signer_receipt_ref_json x = json_obj (signer_receipt_ref_fields x)"

definition signer_receipt_ref_of_json :: "json \<Rightarrow> signer_receipt_ref option" where
  "signer_receipt_ref_of_json v = do {
     x1 \<leftarrow> field d_str ''receipt_hash'' v;
     x2 \<leftarrow> field d_str ''operation'' v;
     x3 \<leftarrow> field d_str ''trust_bundle_hash'' v;
     x4 \<leftarrow> field d_str ''counter_namespace'' v;
     x5 \<leftarrow> field d_u64 ''counter_value'' v;
     Some \<lparr>rec_receipt_hash = x1, rec_operation = x2, rec_trust_bundle_hash = x3, rec_counter_namespace = x4, rec_counter_value = x5\<rparr> }"

lemma signer_receipt_ref_get: "json_get (signer_receipt_ref_json x) k = map_of (signer_receipt_ref_fields x) k"
  unfolding signer_receipt_ref_json_def by (rule json_get_json_obj) (simp add: wire_simps signer_receipt_ref_fields_def)

lemma signer_receipt_ref_round_trip [simp]: "signer_receipt_ref_of_json (signer_receipt_ref_json x) = Some x"
  by (simp add: wire_simps signer_receipt_ref_of_json_def signer_receipt_ref_get signer_receipt_ref_fields_def)

lemma signer_receipt_ref_not_null [simp]: "signer_receipt_ref_json x \<noteq> JNull"
  by (simp add: signer_receipt_ref_json_def)

lemma signer_receipt_ref_codec [simp]: "codec signer_receipt_ref_json signer_receipt_ref_of_json"
  by (simp add: codec_def)

lemma signer_receipt_ref_plain [simp]: "json_plain (Suc d) (signer_receipt_ref_json x)"
  unfolding signer_receipt_ref_json_def by (rule json_plain_json_obj) (auto simp: signer_receipt_ref_fields_def plain_simps)

definition tee_policy_fields :: "tee_policy \<Rightarrow> (str \<times> json) list" where
  "tee_policy_fields x =
     [(''required'', jbool (tee_required x)),
      (''accepted_trust_bundle_hashes'', jlist jstr (tee_accepted_trust_bundle_hashes x)),
      (''accepted_operations'', jlist jstr (tee_accepted_operations x))]"

definition tee_policy_json :: "tee_policy \<Rightarrow> json" where
  "tee_policy_json x = json_obj (tee_policy_fields x)"

definition tee_policy_of_json :: "json \<Rightarrow> tee_policy option" where
  "tee_policy_of_json v = do {
     x1 \<leftarrow> field d_bool ''required'' v;
     x2 \<leftarrow> field (d_list d_str) ''accepted_trust_bundle_hashes'' v;
     x3 \<leftarrow> field (d_list d_str) ''accepted_operations'' v;
     Some \<lparr>tee_required = x1, tee_accepted_trust_bundle_hashes = x2, tee_accepted_operations = x3\<rparr> }"

lemma tee_policy_get: "json_get (tee_policy_json x) k = map_of (tee_policy_fields x) k"
  unfolding tee_policy_json_def by (rule json_get_json_obj) (simp add: wire_simps tee_policy_fields_def)

lemma tee_policy_round_trip [simp]: "tee_policy_of_json (tee_policy_json x) = Some x"
  by (simp add: wire_simps tee_policy_of_json_def tee_policy_get tee_policy_fields_def)

lemma tee_policy_not_null [simp]: "tee_policy_json x \<noteq> JNull"
  by (simp add: tee_policy_json_def)

lemma tee_policy_codec [simp]: "codec tee_policy_json tee_policy_of_json"
  by (simp add: codec_def)

lemma tee_policy_plain [simp]: "json_plain (Suc (Suc d)) (tee_policy_json x)"
  unfolding tee_policy_json_def by (rule json_plain_json_obj) (auto simp: tee_policy_fields_def plain_simps)

record release_guard_policy =
  guard_required :: bool
  guard_reason :: str
  guard_signer_receipt :: "signer_receipt_ref option"

definition release_guard_policy_fields :: "release_guard_policy \<Rightarrow> (str \<times> json) list" where
  "release_guard_policy_fields x =
     [(''required'', jbool (guard_required x)),
      (''reason'', jstr (guard_reason x)),
      (''signer_receipt'', jopt signer_receipt_ref_json (guard_signer_receipt x))]"

definition release_guard_policy_json :: "release_guard_policy \<Rightarrow> json" where
  "release_guard_policy_json x = json_obj (release_guard_policy_fields x)"

definition release_guard_policy_of_json :: "json \<Rightarrow> release_guard_policy option" where
  "release_guard_policy_of_json v = do {
     x1 \<leftarrow> field d_bool ''required'' v;
     x2 \<leftarrow> field d_str ''reason'' v;
     x3 \<leftarrow> field_opt signer_receipt_ref_of_json ''signer_receipt'' v;
     Some \<lparr>guard_required = x1, guard_reason = x2, guard_signer_receipt = x3\<rparr> }"

lemma release_guard_policy_get: "json_get (release_guard_policy_json x) k = map_of (release_guard_policy_fields x) k"
  unfolding release_guard_policy_json_def by (rule json_get_json_obj) (simp add: wire_simps release_guard_policy_fields_def)

lemma release_guard_policy_round_trip [simp]: "release_guard_policy_of_json (release_guard_policy_json x) = Some x"
  by (simp add: wire_simps release_guard_policy_of_json_def release_guard_policy_get release_guard_policy_fields_def)

lemma release_guard_policy_not_null [simp]: "release_guard_policy_json x \<noteq> JNull"
  by (simp add: release_guard_policy_json_def)

lemma release_guard_policy_codec [simp]: "codec release_guard_policy_json release_guard_policy_of_json"
  by (simp add: codec_def)

lemma release_guard_policy_plain [simp]: "json_plain (Suc (Suc d)) (release_guard_policy_json x)"
  unfolding release_guard_policy_json_def by (rule json_plain_json_obj) (auto simp: release_guard_policy_fields_def plain_simps)

record source_span =
  span_file_path :: str
  span_start_line :: "32 word"
  span_start_column :: "32 word"
  span_end_line :: "32 word"
  span_end_column :: "32 word"

definition source_span_fields :: "source_span \<Rightarrow> (str \<times> json) list" where
  "source_span_fields x =
     [(''file_path'', jstr (span_file_path x)),
      (''start_line'', ju32 (span_start_line x)),
      (''start_column'', ju32 (span_start_column x)),
      (''end_line'', ju32 (span_end_line x)),
      (''end_column'', ju32 (span_end_column x))]"

definition source_span_json :: "source_span \<Rightarrow> json" where
  "source_span_json x = json_obj (source_span_fields x)"

definition source_span_of_json :: "json \<Rightarrow> source_span option" where
  "source_span_of_json v = do {
     x1 \<leftarrow> field d_str ''file_path'' v;
     x2 \<leftarrow> field d_u32 ''start_line'' v;
     x3 \<leftarrow> field d_u32 ''start_column'' v;
     x4 \<leftarrow> field d_u32 ''end_line'' v;
     x5 \<leftarrow> field d_u32 ''end_column'' v;
     Some \<lparr>span_file_path = x1, span_start_line = x2, span_start_column = x3, span_end_line = x4, span_end_column = x5\<rparr> }"

lemma source_span_get: "json_get (source_span_json x) k = map_of (source_span_fields x) k"
  unfolding source_span_json_def by (rule json_get_json_obj) (simp add: wire_simps source_span_fields_def)

lemma source_span_round_trip [simp]: "source_span_of_json (source_span_json x) = Some x"
  by (simp add: wire_simps source_span_of_json_def source_span_get source_span_fields_def)

lemma source_span_not_null [simp]: "source_span_json x \<noteq> JNull"
  by (simp add: source_span_json_def)

lemma source_span_codec [simp]: "codec source_span_json source_span_of_json"
  by (simp add: codec_def)

lemma source_span_plain [simp]: "json_plain (Suc d) (source_span_json x)"
  unfolding source_span_json_def by (rule json_plain_json_obj) (auto simp: source_span_fields_def plain_simps)

record symbol_ref =
  sym_language :: str
  sym_file_path :: str
  sym_symbol_name :: str
  sym_range :: "source_span option"
  sym_content_hash :: str

definition symbol_ref_fields :: "symbol_ref \<Rightarrow> (str \<times> json) list" where
  "symbol_ref_fields x =
     [(''language'', jstr (sym_language x)),
      (''file_path'', jstr (sym_file_path x)),
      (''symbol_name'', jstr (sym_symbol_name x)),
      (''range'', jopt source_span_json (sym_range x)),
      (''content_hash'', jstr (sym_content_hash x))]"

definition symbol_ref_json :: "symbol_ref \<Rightarrow> json" where
  "symbol_ref_json x = json_obj (symbol_ref_fields x)"

definition symbol_ref_of_json :: "json \<Rightarrow> symbol_ref option" where
  "symbol_ref_of_json v = do {
     x1 \<leftarrow> field d_str ''language'' v;
     x2 \<leftarrow> field d_str ''file_path'' v;
     x3 \<leftarrow> field d_str ''symbol_name'' v;
     x4 \<leftarrow> field_opt source_span_of_json ''range'' v;
     x5 \<leftarrow> field d_str ''content_hash'' v;
     Some \<lparr>sym_language = x1, sym_file_path = x2, sym_symbol_name = x3, sym_range = x4, sym_content_hash = x5\<rparr> }"

lemma symbol_ref_get: "json_get (symbol_ref_json x) k = map_of (symbol_ref_fields x) k"
  unfolding symbol_ref_json_def by (rule json_get_json_obj) (simp add: wire_simps symbol_ref_fields_def)

lemma symbol_ref_round_trip [simp]: "symbol_ref_of_json (symbol_ref_json x) = Some x"
  by (simp add: wire_simps symbol_ref_of_json_def symbol_ref_get symbol_ref_fields_def)

lemma symbol_ref_not_null [simp]: "symbol_ref_json x \<noteq> JNull"
  by (simp add: symbol_ref_json_def)

lemma symbol_ref_codec [simp]: "codec symbol_ref_json symbol_ref_of_json"
  by (simp add: codec_def)

lemma symbol_ref_plain [simp]: "json_plain (Suc (Suc d)) (symbol_ref_json x)"
  unfolding symbol_ref_json_def by (rule json_plain_json_obj) (auto simp: symbol_ref_fields_def plain_simps)

end
