(* ===== verification/Agent_Schema.thy ===== *)
theory Agent_Schema
  imports Core_Schema "HOL-Library.Sublist"
begin

text \<open>
  \<^verbatim>\<open>crates/rickydata-git-agent/src/lib.rs\<close>: the objects of the work ledger (intents, attempts, runs,
  traces, changes, patches, notes, manifests), their wire form, and the validation of intents and notes.
  \<^verbatim>\<open>schema_catalog\<close> prints JSON schemas made by a third-party macro and is not modelled.
\<close>

section \<open>Types\<close>

record issue_ref =
  iss_platform :: str
  iss_repository :: str
  iss_id :: str
  iss_url :: "str option"

definition issue_ref_fields :: "issue_ref \<Rightarrow> (str \<times> json) list" where
  "issue_ref_fields x =
     [(''platform'', jstr (iss_platform x)),
      (''repository'', jstr (iss_repository x)),
      (''id'', jstr (iss_id x)),
      (''url'', jopt jstr (iss_url x))]"

definition issue_ref_json :: "issue_ref \<Rightarrow> json" where
  "issue_ref_json x = json_obj (issue_ref_fields x)"

definition issue_ref_of_json :: "json \<Rightarrow> issue_ref option" where
  "issue_ref_of_json v = do {
     x1 \<leftarrow> field d_str ''platform'' v;
     x2 \<leftarrow> field d_str ''repository'' v;
     x3 \<leftarrow> field d_str ''id'' v;
     x4 \<leftarrow> field_opt d_str ''url'' v;
     Some \<lparr>iss_platform = x1, iss_repository = x2, iss_id = x3, iss_url = x4\<rparr> }"

lemma issue_ref_get: "json_get (issue_ref_json x) k = map_of (issue_ref_fields x) k"
  unfolding issue_ref_json_def by (rule json_get_json_obj) (simp add: wire_simps issue_ref_fields_def)

lemma issue_ref_round_trip [simp]: "issue_ref_of_json (issue_ref_json x) = Some x"
  by (simp add: wire_simps issue_ref_of_json_def issue_ref_get issue_ref_fields_def)

lemma issue_ref_not_null [simp]: "issue_ref_json x \<noteq> JNull"
  by (simp add: issue_ref_json_def)

lemma issue_ref_codec [simp]: "codec issue_ref_json issue_ref_of_json"
  by (simp add: codec_def)

lemma issue_ref_plain [simp]: "json_plain (Suc d) (issue_ref_json x)"
  unfolding issue_ref_json_def by (rule json_plain_json_obj) (auto simp: issue_ref_fields_def plain_simps)

record task_ref =
  task_system :: str
  task_id :: str
  task_title :: "str option"

definition task_ref_fields :: "task_ref \<Rightarrow> (str \<times> json) list" where
  "task_ref_fields x =
     [(''system'', jstr (task_system x)),
      (''id'', jstr (task_id x)),
      (''title'', jopt jstr (task_title x))]"

definition task_ref_json :: "task_ref \<Rightarrow> json" where
  "task_ref_json x = json_obj (task_ref_fields x)"

definition task_ref_of_json :: "json \<Rightarrow> task_ref option" where
  "task_ref_of_json v = do {
     x1 \<leftarrow> field d_str ''system'' v;
     x2 \<leftarrow> field d_str ''id'' v;
     x3 \<leftarrow> field_opt d_str ''title'' v;
     Some \<lparr>task_system = x1, task_id = x2, task_title = x3\<rparr> }"

lemma task_ref_get: "json_get (task_ref_json x) k = map_of (task_ref_fields x) k"
  unfolding task_ref_json_def by (rule json_get_json_obj) (simp add: wire_simps task_ref_fields_def)

lemma task_ref_round_trip [simp]: "task_ref_of_json (task_ref_json x) = Some x"
  by (simp add: wire_simps task_ref_of_json_def task_ref_get task_ref_fields_def)

lemma task_ref_not_null [simp]: "task_ref_json x \<noteq> JNull"
  by (simp add: task_ref_json_def)

lemma task_ref_codec [simp]: "codec task_ref_json task_ref_of_json"
  by (simp add: codec_def)

lemma task_ref_plain [simp]: "json_plain (Suc d) (task_ref_json x)"
  unfolding task_ref_json_def by (rule json_plain_json_obj) (auto simp: task_ref_fields_def plain_simps)

record work_intent =
  wi_objective :: str
  wi_issue_refs :: "issue_ref list"
  wi_task_refs :: "task_ref list"
  wi_base_commit :: "str option"
  wi_allowed_capabilities :: "str list"
  wi_privacy :: privacy_class
  wi_tee_policy :: "tee_policy option"
  wi_release_guard :: "release_guard_policy option"
  wi_created_by :: "str option"

definition work_intent_fields :: "work_intent \<Rightarrow> (str \<times> json) list" where
  "work_intent_fields x =
     [(''objective'', jstr (wi_objective x)),
      (''issue_refs'', jlist issue_ref_json (wi_issue_refs x)),
      (''task_refs'', jlist task_ref_json (wi_task_refs x)),
      (''base_commit'', jopt jstr (wi_base_commit x)),
      (''allowed_capabilities'', jlist jstr (wi_allowed_capabilities x)),
      (''privacy'', privacy_class_json (wi_privacy x)),
      (''tee_policy'', jopt tee_policy_json (wi_tee_policy x)),
      (''release_guard'', jopt release_guard_policy_json (wi_release_guard x)),
      (''created_by'', jopt jstr (wi_created_by x))]"

definition work_intent_json :: "work_intent \<Rightarrow> json" where
  "work_intent_json x = json_obj (work_intent_fields x)"

definition work_intent_of_json :: "json \<Rightarrow> work_intent option" where
  "work_intent_of_json v = do {
     x1 \<leftarrow> field d_str ''objective'' v;
     x2 \<leftarrow> field (d_list issue_ref_of_json) ''issue_refs'' v;
     x3 \<leftarrow> field (d_list task_ref_of_json) ''task_refs'' v;
     x4 \<leftarrow> field_opt d_str ''base_commit'' v;
     x5 \<leftarrow> field (d_list d_str) ''allowed_capabilities'' v;
     x6 \<leftarrow> field privacy_class_of_json ''privacy'' v;
     x7 \<leftarrow> field_opt tee_policy_of_json ''tee_policy'' v;
     x8 \<leftarrow> field_opt release_guard_policy_of_json ''release_guard'' v;
     x9 \<leftarrow> field_opt d_str ''created_by'' v;
     Some \<lparr>wi_objective = x1, wi_issue_refs = x2, wi_task_refs = x3, wi_base_commit = x4, wi_allowed_capabilities = x5, wi_privacy = x6, wi_tee_policy = x7, wi_release_guard = x8, wi_created_by = x9\<rparr> }"

lemma work_intent_get: "json_get (work_intent_json x) k = map_of (work_intent_fields x) k"
  unfolding work_intent_json_def by (rule json_get_json_obj) (simp add: wire_simps work_intent_fields_def)

lemma work_intent_round_trip [simp]: "work_intent_of_json (work_intent_json x) = Some x"
  by (simp add: wire_simps work_intent_of_json_def work_intent_get work_intent_fields_def)

lemma work_intent_not_null [simp]: "work_intent_json x \<noteq> JNull"
  by (simp add: work_intent_json_def)

lemma work_intent_codec [simp]: "codec work_intent_json work_intent_of_json"
  by (simp add: codec_def)

lemma work_intent_plain [simp]: "json_plain (Suc (Suc (Suc d))) (work_intent_json x)"
  unfolding work_intent_json_def by (rule json_plain_json_obj) (auto simp: work_intent_fields_def plain_simps)

datatype attempt_status = Planned | Running | Submitted | Abandoned | Integrated

fun attempt_status_str :: "attempt_status \<Rightarrow> str" where
  "attempt_status_str Planned = ''planned''"
| "attempt_status_str Running = ''running''"
| "attempt_status_str Submitted = ''submitted''"
| "attempt_status_str Abandoned = ''abandoned''"
| "attempt_status_str Integrated = ''integrated''"

definition attempt_status_json :: "attempt_status \<Rightarrow> json" where
  "attempt_status_json x = jstr (attempt_status_str x)"

definition attempt_status_of_json :: "json \<Rightarrow> attempt_status option" where
  "attempt_status_of_json v = Option.bind (d_str v) (\<lambda>s. map_of
     [(''planned'', Planned),
      (''running'', Running),
      (''submitted'', Submitted),
      (''abandoned'', Abandoned),
      (''integrated'', Integrated)] s)"

lemma attempt_status_round_trip [simp]: "attempt_status_of_json (attempt_status_json x) = Some x"
  by (cases x) (simp_all add: attempt_status_json_def attempt_status_of_json_def)

lemma attempt_status_not_null [simp]: "attempt_status_json x \<noteq> JNull"
  by (simp add: attempt_status_json_def)

lemma attempt_status_codec [simp]: "codec attempt_status_json attempt_status_of_json"
  by (simp add: codec_def)

lemma attempt_status_plain [simp]: "json_plain d (attempt_status_json x)"
  by (simp add: attempt_status_json_def)

record agent_attempt =
  att_attempt_id :: str
  att_intent_id :: str
  att_base_commit :: str
  att_agent_id :: str
  att_lease_expires_at_ms :: "u64 option"
  att_status :: attempt_status
  att_in_place :: bool

definition agent_attempt_fields :: "agent_attempt \<Rightarrow> (str \<times> json) list" where
  "agent_attempt_fields x =
     [(''attempt_id'', jstr (att_attempt_id x)),
      (''intent_id'', jstr (att_intent_id x)),
      (''base_commit'', jstr (att_base_commit x)),
      (''agent_id'', jstr (att_agent_id x)),
      (''lease_expires_at_ms'', jopt ju64 (att_lease_expires_at_ms x)),
      (''status'', attempt_status_json (att_status x))] @
     true_field ''in_place'' (att_in_place x)"

definition agent_attempt_json :: "agent_attempt \<Rightarrow> json" where
  "agent_attempt_json x = json_obj (agent_attempt_fields x)"

definition agent_attempt_of_json :: "json \<Rightarrow> agent_attempt option" where
  "agent_attempt_of_json v = do {
     x1 \<leftarrow> field d_str ''attempt_id'' v;
     x2 \<leftarrow> field d_str ''intent_id'' v;
     x3 \<leftarrow> field d_str ''base_commit'' v;
     x4 \<leftarrow> field d_str ''agent_id'' v;
     x5 \<leftarrow> field_opt d_u64 ''lease_expires_at_ms'' v;
     x6 \<leftarrow> field attempt_status_of_json ''status'' v;
     x7 \<leftarrow> field_default False d_bool ''in_place'' v;
     Some \<lparr>att_attempt_id = x1, att_intent_id = x2, att_base_commit = x3, att_agent_id = x4, att_lease_expires_at_ms = x5, att_status = x6, att_in_place = x7\<rparr> }"

lemma agent_attempt_get: "json_get (agent_attempt_json x) k = map_of (agent_attempt_fields x) k"
  unfolding agent_attempt_json_def by (rule json_get_json_obj) (cases "att_in_place x"; simp add: wire_simps agent_attempt_fields_def)

lemma agent_attempt_round_trip [simp]: "agent_attempt_of_json (agent_attempt_json x) = Some x"
  by (cases "att_in_place x"; simp add: wire_simps agent_attempt_of_json_def agent_attempt_get agent_attempt_fields_def)

lemma agent_attempt_not_null [simp]: "agent_attempt_json x \<noteq> JNull"
  by (simp add: agent_attempt_json_def)

lemma agent_attempt_codec [simp]: "codec agent_attempt_json agent_attempt_of_json"
  by (simp add: codec_def)

lemma agent_attempt_plain [simp]: "json_plain (Suc d) (agent_attempt_json x)"
  unfolding agent_attempt_json_def by (rule json_plain_json_obj) (auto simp: agent_attempt_fields_def plain_simps)

record attempt_status_transition =
  tr_attempt_id :: str
  tr_status :: attempt_status
  tr_reason :: "str option"
  tr_created_by :: "str option"
  tr_created_at_ms :: u64

definition attempt_status_transition_fields :: "attempt_status_transition \<Rightarrow> (str \<times> json) list" where
  "attempt_status_transition_fields x =
     [(''attempt_id'', jstr (tr_attempt_id x)),
      (''status'', attempt_status_json (tr_status x)),
      (''reason'', jopt jstr (tr_reason x)),
      (''created_by'', jopt jstr (tr_created_by x)),
      (''created_at_ms'', ju64 (tr_created_at_ms x))]"

definition attempt_status_transition_json :: "attempt_status_transition \<Rightarrow> json" where
  "attempt_status_transition_json x = json_obj (attempt_status_transition_fields x)"

definition attempt_status_transition_of_json :: "json \<Rightarrow> attempt_status_transition option" where
  "attempt_status_transition_of_json v = do {
     x1 \<leftarrow> field d_str ''attempt_id'' v;
     x2 \<leftarrow> field attempt_status_of_json ''status'' v;
     x3 \<leftarrow> field_opt d_str ''reason'' v;
     x4 \<leftarrow> field_opt d_str ''created_by'' v;
     x5 \<leftarrow> field d_u64 ''created_at_ms'' v;
     Some \<lparr>tr_attempt_id = x1, tr_status = x2, tr_reason = x3, tr_created_by = x4, tr_created_at_ms = x5\<rparr> }"

lemma attempt_status_transition_get: "json_get (attempt_status_transition_json x) k = map_of (attempt_status_transition_fields x) k"
  unfolding attempt_status_transition_json_def by (rule json_get_json_obj) (simp add: wire_simps attempt_status_transition_fields_def)

lemma attempt_status_transition_round_trip [simp]: "attempt_status_transition_of_json (attempt_status_transition_json x) = Some x"
  by (simp add: wire_simps attempt_status_transition_of_json_def attempt_status_transition_get attempt_status_transition_fields_def)

lemma attempt_status_transition_not_null [simp]: "attempt_status_transition_json x \<noteq> JNull"
  by (simp add: attempt_status_transition_json_def)

lemma attempt_status_transition_codec [simp]: "codec attempt_status_transition_json attempt_status_transition_of_json"
  by (simp add: codec_def)

lemma attempt_status_transition_plain [simp]: "json_plain (Suc d) (attempt_status_transition_json x)"
  unfolding attempt_status_transition_json_def by (rule json_plain_json_obj) (auto simp: attempt_status_transition_fields_def plain_simps)

datatype agent_run_result = Succeeded | Failed | Cancelled

fun agent_run_result_str :: "agent_run_result \<Rightarrow> str" where
  "agent_run_result_str Succeeded = ''succeeded''"
| "agent_run_result_str Failed = ''failed''"
| "agent_run_result_str Cancelled = ''cancelled''"

definition agent_run_result_json :: "agent_run_result \<Rightarrow> json" where
  "agent_run_result_json x = jstr (agent_run_result_str x)"

definition agent_run_result_of_json :: "json \<Rightarrow> agent_run_result option" where
  "agent_run_result_of_json v = Option.bind (d_str v) (\<lambda>s. map_of
     [(''succeeded'', Succeeded),
      (''failed'', Failed),
      (''cancelled'', Cancelled)] s)"

lemma agent_run_result_round_trip [simp]: "agent_run_result_of_json (agent_run_result_json x) = Some x"
  by (cases x) (simp_all add: agent_run_result_json_def agent_run_result_of_json_def)

lemma agent_run_result_not_null [simp]: "agent_run_result_json x \<noteq> JNull"
  by (simp add: agent_run_result_json_def)

lemma agent_run_result_codec [simp]: "codec agent_run_result_json agent_run_result_of_json"
  by (simp add: codec_def)

lemma agent_run_result_plain [simp]: "json_plain d (agent_run_result_json x)"
  by (simp add: agent_run_result_json_def)

record agent_run =
  run_run_id :: str
  run_attempt_id :: str
  run_trace_hash :: "str option"
  run_command_hashes :: "str list"
  run_rdl_manifest_hashes :: "str list"
  run_started_at_ms :: u64
  run_finished_at_ms :: "u64 option"
  run_result :: "agent_run_result option"

definition agent_run_fields :: "agent_run \<Rightarrow> (str \<times> json) list" where
  "agent_run_fields x =
     [(''run_id'', jstr (run_run_id x)),
      (''attempt_id'', jstr (run_attempt_id x)),
      (''trace_hash'', jopt jstr (run_trace_hash x)),
      (''command_hashes'', jlist jstr (run_command_hashes x)),
      (''rdl_manifest_hashes'', jlist jstr (run_rdl_manifest_hashes x)),
      (''started_at_ms'', ju64 (run_started_at_ms x)),
      (''finished_at_ms'', jopt ju64 (run_finished_at_ms x)),
      (''result'', jopt agent_run_result_json (run_result x))]"

definition agent_run_json :: "agent_run \<Rightarrow> json" where
  "agent_run_json x = json_obj (agent_run_fields x)"

definition agent_run_of_json :: "json \<Rightarrow> agent_run option" where
  "agent_run_of_json v = do {
     x1 \<leftarrow> field d_str ''run_id'' v;
     x2 \<leftarrow> field d_str ''attempt_id'' v;
     x3 \<leftarrow> field_opt d_str ''trace_hash'' v;
     x4 \<leftarrow> field (d_list d_str) ''command_hashes'' v;
     x5 \<leftarrow> field (d_list d_str) ''rdl_manifest_hashes'' v;
     x6 \<leftarrow> field d_u64 ''started_at_ms'' v;
     x7 \<leftarrow> field_opt d_u64 ''finished_at_ms'' v;
     x8 \<leftarrow> field_opt agent_run_result_of_json ''result'' v;
     Some \<lparr>run_run_id = x1, run_attempt_id = x2, run_trace_hash = x3, run_command_hashes = x4, run_rdl_manifest_hashes = x5, run_started_at_ms = x6, run_finished_at_ms = x7, run_result = x8\<rparr> }"

lemma agent_run_get: "json_get (agent_run_json x) k = map_of (agent_run_fields x) k"
  unfolding agent_run_json_def by (rule json_get_json_obj) (simp add: wire_simps agent_run_fields_def)

lemma agent_run_round_trip [simp]: "agent_run_of_json (agent_run_json x) = Some x"
  by (simp add: wire_simps agent_run_of_json_def agent_run_get agent_run_fields_def)

lemma agent_run_not_null [simp]: "agent_run_json x \<noteq> JNull"
  by (simp add: agent_run_json_def)

lemma agent_run_codec [simp]: "codec agent_run_json agent_run_of_json"
  by (simp add: codec_def)

lemma agent_run_plain [simp]: "json_plain (Suc (Suc d)) (agent_run_json x)"
  unfolding agent_run_json_def by (rule json_plain_json_obj) (auto simp: agent_run_fields_def plain_simps)

record agent_run_trace =
  trc_trace_id :: str
  trc_attempt_id :: str
  trc_command_hash :: str
  trc_command_argv :: "str list option"
  trc_executable :: "str option"
  trc_arg_count :: u64
  trc_exit_code :: "32 word option"
  trc_stdout_hash :: str
  trc_stderr_hash :: str
  trc_stdout_bytes :: u64
  trc_stderr_bytes :: u64
  trc_started_at_ms :: u64
  trc_finished_at_ms :: u64
  trc_result :: agent_run_result
  trc_privacy :: privacy_class
  trc_encrypted_body :: "encryption_envelope_ref option"

definition agent_run_trace_fields :: "agent_run_trace \<Rightarrow> (str \<times> json) list" where
  "agent_run_trace_fields x =
     [(''trace_id'', jstr (trc_trace_id x)),
      (''attempt_id'', jstr (trc_attempt_id x)),
      (''command_hash'', jstr (trc_command_hash x)),
      (''command_argv'', jopt (jlist jstr) (trc_command_argv x)),
      (''executable'', jopt jstr (trc_executable x)),
      (''arg_count'', ju64 (trc_arg_count x)),
      (''exit_code'', jopt ji32 (trc_exit_code x)),
      (''stdout_hash'', jstr (trc_stdout_hash x)),
      (''stderr_hash'', jstr (trc_stderr_hash x)),
      (''stdout_bytes'', ju64 (trc_stdout_bytes x)),
      (''stderr_bytes'', ju64 (trc_stderr_bytes x)),
      (''started_at_ms'', ju64 (trc_started_at_ms x)),
      (''finished_at_ms'', ju64 (trc_finished_at_ms x)),
      (''result'', agent_run_result_json (trc_result x)),
      (''privacy'', privacy_class_json (trc_privacy x))] @
     opt_field ''encrypted_body'' encryption_envelope_ref_json (trc_encrypted_body x)"

definition agent_run_trace_json :: "agent_run_trace \<Rightarrow> json" where
  "agent_run_trace_json x = json_obj (agent_run_trace_fields x)"

definition agent_run_trace_of_json :: "json \<Rightarrow> agent_run_trace option" where
  "agent_run_trace_of_json v = do {
     x1 \<leftarrow> field d_str ''trace_id'' v;
     x2 \<leftarrow> field d_str ''attempt_id'' v;
     x3 \<leftarrow> field d_str ''command_hash'' v;
     x4 \<leftarrow> field_opt (d_list d_str) ''command_argv'' v;
     x5 \<leftarrow> field_opt d_str ''executable'' v;
     x6 \<leftarrow> field d_u64 ''arg_count'' v;
     x7 \<leftarrow> field_opt d_i32 ''exit_code'' v;
     x8 \<leftarrow> field d_str ''stdout_hash'' v;
     x9 \<leftarrow> field d_str ''stderr_hash'' v;
     x10 \<leftarrow> field d_u64 ''stdout_bytes'' v;
     x11 \<leftarrow> field d_u64 ''stderr_bytes'' v;
     x12 \<leftarrow> field d_u64 ''started_at_ms'' v;
     x13 \<leftarrow> field d_u64 ''finished_at_ms'' v;
     x14 \<leftarrow> field agent_run_result_of_json ''result'' v;
     x15 \<leftarrow> field privacy_class_of_json ''privacy'' v;
     x16 \<leftarrow> field_opt encryption_envelope_ref_of_json ''encrypted_body'' v;
     Some \<lparr>trc_trace_id = x1, trc_attempt_id = x2, trc_command_hash = x3, trc_command_argv = x4, trc_executable = x5, trc_arg_count = x6, trc_exit_code = x7, trc_stdout_hash = x8, trc_stderr_hash = x9, trc_stdout_bytes = x10, trc_stderr_bytes = x11, trc_started_at_ms = x12, trc_finished_at_ms = x13, trc_result = x14, trc_privacy = x15, trc_encrypted_body = x16\<rparr> }"

lemma agent_run_trace_get: "json_get (agent_run_trace_json x) k = map_of (agent_run_trace_fields x) k"
  unfolding agent_run_trace_json_def by (rule json_get_json_obj) (cases "trc_encrypted_body x"; simp add: wire_simps agent_run_trace_fields_def)

lemma agent_run_trace_round_trip [simp]: "agent_run_trace_of_json (agent_run_trace_json x) = Some x"
  by (cases "trc_encrypted_body x"; simp add: wire_simps agent_run_trace_of_json_def agent_run_trace_get agent_run_trace_fields_def)

lemma agent_run_trace_not_null [simp]: "agent_run_trace_json x \<noteq> JNull"
  by (simp add: agent_run_trace_json_def)

lemma agent_run_trace_codec [simp]: "codec agent_run_trace_json agent_run_trace_of_json"
  by (simp add: codec_def)

lemma agent_run_trace_plain [simp]: "json_plain (Suc (Suc d)) (agent_run_trace_json x)"
  unfolding agent_run_trace_json_def by (rule json_plain_json_obj) (auto simp: agent_run_trace_fields_def plain_simps)

record diff_summary =
  ds_file_count :: u64
  ds_files_added :: u64
  ds_files_modified :: u64
  ds_files_deleted :: u64
  ds_files_renamed :: u64
  ds_binary_file_count :: u64
  ds_insertions :: u64
  ds_deletions :: u64

definition diff_summary_fields :: "diff_summary \<Rightarrow> (str \<times> json) list" where
  "diff_summary_fields x =
     [(''file_count'', ju64 (ds_file_count x)),
      (''files_added'', ju64 (ds_files_added x)),
      (''files_modified'', ju64 (ds_files_modified x)),
      (''files_deleted'', ju64 (ds_files_deleted x)),
      (''files_renamed'', ju64 (ds_files_renamed x)),
      (''binary_file_count'', ju64 (ds_binary_file_count x)),
      (''insertions'', ju64 (ds_insertions x)),
      (''deletions'', ju64 (ds_deletions x))]"

definition diff_summary_json :: "diff_summary \<Rightarrow> json" where
  "diff_summary_json x = json_obj (diff_summary_fields x)"

definition diff_summary_of_json :: "json \<Rightarrow> diff_summary option" where
  "diff_summary_of_json v = do {
     x1 \<leftarrow> field d_u64 ''file_count'' v;
     x2 \<leftarrow> field d_u64 ''files_added'' v;
     x3 \<leftarrow> field d_u64 ''files_modified'' v;
     x4 \<leftarrow> field d_u64 ''files_deleted'' v;
     x5 \<leftarrow> field d_u64 ''files_renamed'' v;
     x6 \<leftarrow> field d_u64 ''binary_file_count'' v;
     x7 \<leftarrow> field d_u64 ''insertions'' v;
     x8 \<leftarrow> field d_u64 ''deletions'' v;
     Some \<lparr>ds_file_count = x1, ds_files_added = x2, ds_files_modified = x3, ds_files_deleted = x4, ds_files_renamed = x5, ds_binary_file_count = x6, ds_insertions = x7, ds_deletions = x8\<rparr> }"

lemma diff_summary_get: "json_get (diff_summary_json x) k = map_of (diff_summary_fields x) k"
  unfolding diff_summary_json_def by (rule json_get_json_obj) (simp add: wire_simps diff_summary_fields_def)

lemma diff_summary_round_trip [simp]: "diff_summary_of_json (diff_summary_json x) = Some x"
  by (simp add: wire_simps diff_summary_of_json_def diff_summary_get diff_summary_fields_def)

lemma diff_summary_not_null [simp]: "diff_summary_json x \<noteq> JNull"
  by (simp add: diff_summary_json_def)

lemma diff_summary_codec [simp]: "codec diff_summary_json diff_summary_of_json"
  by (simp add: codec_def)

lemma diff_summary_plain [simp]: "json_plain (Suc d) (diff_summary_json x)"
  unfolding diff_summary_json_def by (rule json_plain_json_obj) (auto simp: diff_summary_fields_def plain_simps)

definition diff_summary_default :: diff_summary where
  "diff_summary_default = \<lparr>ds_file_count = 0, ds_files_added = 0, ds_files_modified = 0, ds_files_deleted = 0,
     ds_files_renamed = 0, ds_binary_file_count = 0, ds_insertions = 0, ds_deletions = 0\<rparr>"

record diagnostic_evidence =
  diag_code :: str
  diag_severity :: str
  diag_message :: str
  diag_span :: "source_span option"

definition diagnostic_evidence_fields :: "diagnostic_evidence \<Rightarrow> (str \<times> json) list" where
  "diagnostic_evidence_fields x =
     [(''code'', jstr (diag_code x)),
      (''severity'', jstr (diag_severity x)),
      (''message'', jstr (diag_message x)),
      (''span'', jopt source_span_json (diag_span x))]"

definition diagnostic_evidence_json :: "diagnostic_evidence \<Rightarrow> json" where
  "diagnostic_evidence_json x = json_obj (diagnostic_evidence_fields x)"

definition diagnostic_evidence_of_json :: "json \<Rightarrow> diagnostic_evidence option" where
  "diagnostic_evidence_of_json v = do {
     x1 \<leftarrow> field d_str ''code'' v;
     x2 \<leftarrow> field d_str ''severity'' v;
     x3 \<leftarrow> field d_str ''message'' v;
     x4 \<leftarrow> field_opt source_span_of_json ''span'' v;
     Some \<lparr>diag_code = x1, diag_severity = x2, diag_message = x3, diag_span = x4\<rparr> }"

lemma diagnostic_evidence_get: "json_get (diagnostic_evidence_json x) k = map_of (diagnostic_evidence_fields x) k"
  unfolding diagnostic_evidence_json_def by (rule json_get_json_obj) (simp add: wire_simps diagnostic_evidence_fields_def)

lemma diagnostic_evidence_round_trip [simp]: "diagnostic_evidence_of_json (diagnostic_evidence_json x) = Some x"
  by (simp add: wire_simps diagnostic_evidence_of_json_def diagnostic_evidence_get diagnostic_evidence_fields_def)

lemma diagnostic_evidence_not_null [simp]: "diagnostic_evidence_json x \<noteq> JNull"
  by (simp add: diagnostic_evidence_json_def)

lemma diagnostic_evidence_codec [simp]: "codec diagnostic_evidence_json diagnostic_evidence_of_json"
  by (simp add: codec_def)

lemma diagnostic_evidence_plain [simp]: "json_plain (Suc (Suc d)) (diagnostic_evidence_json x)"
  unfolding diagnostic_evidence_json_def by (rule json_plain_json_obj) (auto simp: diagnostic_evidence_fields_def plain_simps)

record change_evidence =
  chg_change_id :: str
  chg_intent_id :: str
  chg_attempt_id :: str
  chg_run_ids :: "str list"
  chg_base_commit :: str
  chg_file_paths :: "str list"
  chg_diff_summary :: diff_summary
  chg_symbols :: "symbol_ref list"
  chg_diff_hash :: str
  chg_related_contract_hashes :: "str list"
  chg_diagnostics :: "diagnostic_evidence list"

definition change_evidence_fields :: "change_evidence \<Rightarrow> (str \<times> json) list" where
  "change_evidence_fields x =
     [(''change_id'', jstr (chg_change_id x)),
      (''intent_id'', jstr (chg_intent_id x)),
      (''attempt_id'', jstr (chg_attempt_id x)),
      (''run_ids'', jlist jstr (chg_run_ids x)),
      (''base_commit'', jstr (chg_base_commit x)),
      (''file_paths'', jlist jstr (chg_file_paths x)),
      (''diff_summary'', diff_summary_json (chg_diff_summary x)),
      (''symbols'', jlist symbol_ref_json (chg_symbols x)),
      (''diff_hash'', jstr (chg_diff_hash x)),
      (''related_contract_hashes'', jlist jstr (chg_related_contract_hashes x)),
      (''diagnostics'', jlist diagnostic_evidence_json (chg_diagnostics x))]"

definition change_evidence_json :: "change_evidence \<Rightarrow> json" where
  "change_evidence_json x = json_obj (change_evidence_fields x)"

definition change_evidence_of_json :: "json \<Rightarrow> change_evidence option" where
  "change_evidence_of_json v = do {
     x1 \<leftarrow> field d_str ''change_id'' v;
     x2 \<leftarrow> field d_str ''intent_id'' v;
     x3 \<leftarrow> field d_str ''attempt_id'' v;
     x4 \<leftarrow> field (d_list d_str) ''run_ids'' v;
     x5 \<leftarrow> field d_str ''base_commit'' v;
     x6 \<leftarrow> field (d_list d_str) ''file_paths'' v;
     x7 \<leftarrow> field_default diff_summary_default diff_summary_of_json ''diff_summary'' v;
     x8 \<leftarrow> field (d_list symbol_ref_of_json) ''symbols'' v;
     x9 \<leftarrow> field d_str ''diff_hash'' v;
     x10 \<leftarrow> field (d_list d_str) ''related_contract_hashes'' v;
     x11 \<leftarrow> field (d_list diagnostic_evidence_of_json) ''diagnostics'' v;
     Some \<lparr>chg_change_id = x1, chg_intent_id = x2, chg_attempt_id = x3, chg_run_ids = x4, chg_base_commit = x5, chg_file_paths = x6, chg_diff_summary = x7, chg_symbols = x8, chg_diff_hash = x9, chg_related_contract_hashes = x10, chg_diagnostics = x11\<rparr> }"

lemma change_evidence_get: "json_get (change_evidence_json x) k = map_of (change_evidence_fields x) k"
  unfolding change_evidence_json_def by (rule json_get_json_obj) (simp add: wire_simps change_evidence_fields_def)

lemma change_evidence_round_trip [simp]: "change_evidence_of_json (change_evidence_json x) = Some x"
  by (simp add: wire_simps change_evidence_of_json_def change_evidence_get change_evidence_fields_def)

lemma change_evidence_not_null [simp]: "change_evidence_json x \<noteq> JNull"
  by (simp add: change_evidence_json_def)

lemma change_evidence_codec [simp]: "codec change_evidence_json change_evidence_of_json"
  by (simp add: codec_def)

lemma change_evidence_plain [simp]: "json_plain (Suc (Suc (Suc (Suc d)))) (change_evidence_json x)"
  unfolding change_evidence_json_def by (rule json_plain_json_obj) (auto simp: change_evidence_fields_def plain_simps)

record prepared_patch =
  pp_patch_id :: str
  pp_intent_id :: str
  pp_attempt_id :: str
  pp_base_commit :: str
  pp_change_ids :: "str list"
  pp_run_ids :: "str list"
  pp_file_paths :: "str list"
  pp_diff_hashes :: "str list"
  pp_diff_object_ids :: "str list"
  pp_related_contract_hashes :: "str list"
  pp_diagnostics :: "diagnostic_evidence list"

definition prepared_patch_fields :: "prepared_patch \<Rightarrow> (str \<times> json) list" where
  "prepared_patch_fields x =
     [(''patch_id'', jstr (pp_patch_id x)),
      (''intent_id'', jstr (pp_intent_id x)),
      (''attempt_id'', jstr (pp_attempt_id x)),
      (''base_commit'', jstr (pp_base_commit x)),
      (''change_ids'', jlist jstr (pp_change_ids x)),
      (''run_ids'', jlist jstr (pp_run_ids x)),
      (''file_paths'', jlist jstr (pp_file_paths x)),
      (''diff_hashes'', jlist jstr (pp_diff_hashes x)),
      (''diff_object_ids'', jlist jstr (pp_diff_object_ids x)),
      (''related_contract_hashes'', jlist jstr (pp_related_contract_hashes x)),
      (''diagnostics'', jlist diagnostic_evidence_json (pp_diagnostics x))]"

definition prepared_patch_json :: "prepared_patch \<Rightarrow> json" where
  "prepared_patch_json x = json_obj (prepared_patch_fields x)"

definition prepared_patch_of_json :: "json \<Rightarrow> prepared_patch option" where
  "prepared_patch_of_json v = do {
     x1 \<leftarrow> field d_str ''patch_id'' v;
     x2 \<leftarrow> field d_str ''intent_id'' v;
     x3 \<leftarrow> field d_str ''attempt_id'' v;
     x4 \<leftarrow> field d_str ''base_commit'' v;
     x5 \<leftarrow> field (d_list d_str) ''change_ids'' v;
     x6 \<leftarrow> field (d_list d_str) ''run_ids'' v;
     x7 \<leftarrow> field (d_list d_str) ''file_paths'' v;
     x8 \<leftarrow> field (d_list d_str) ''diff_hashes'' v;
     x9 \<leftarrow> field_default [] (d_list d_str) ''diff_object_ids'' v;
     x10 \<leftarrow> field (d_list d_str) ''related_contract_hashes'' v;
     x11 \<leftarrow> field (d_list diagnostic_evidence_of_json) ''diagnostics'' v;
     Some \<lparr>pp_patch_id = x1, pp_intent_id = x2, pp_attempt_id = x3, pp_base_commit = x4, pp_change_ids = x5, pp_run_ids = x6, pp_file_paths = x7, pp_diff_hashes = x8, pp_diff_object_ids = x9, pp_related_contract_hashes = x10, pp_diagnostics = x11\<rparr> }"

lemma prepared_patch_get: "json_get (prepared_patch_json x) k = map_of (prepared_patch_fields x) k"
  unfolding prepared_patch_json_def by (rule json_get_json_obj) (simp add: wire_simps prepared_patch_fields_def)

lemma prepared_patch_round_trip [simp]: "prepared_patch_of_json (prepared_patch_json x) = Some x"
  by (simp add: wire_simps prepared_patch_of_json_def prepared_patch_get prepared_patch_fields_def)

lemma prepared_patch_not_null [simp]: "prepared_patch_json x \<noteq> JNull"
  by (simp add: prepared_patch_json_def)

lemma prepared_patch_codec [simp]: "codec prepared_patch_json prepared_patch_of_json"
  by (simp add: codec_def)

lemma prepared_patch_plain [simp]: "json_plain (Suc (Suc (Suc (Suc d)))) (prepared_patch_json x)"
  unfolding prepared_patch_json_def by (rule json_plain_json_obj) (auto simp: prepared_patch_fields_def plain_simps)

record patch_diff =
  pd_patch_id :: str
  pd_attempt_id :: str
  pd_base_commit :: str
  pd_diff_hash :: str
  pd_diff_bytes :: u64
  pd_file_paths :: "str list"
  pd_encoding :: str
  pd_encoded_diff :: str

definition patch_diff_fields :: "patch_diff \<Rightarrow> (str \<times> json) list" where
  "patch_diff_fields x =
     [(''patch_id'', jstr (pd_patch_id x)),
      (''attempt_id'', jstr (pd_attempt_id x)),
      (''base_commit'', jstr (pd_base_commit x)),
      (''diff_hash'', jstr (pd_diff_hash x)),
      (''diff_bytes'', ju64 (pd_diff_bytes x)),
      (''file_paths'', jlist jstr (pd_file_paths x)),
      (''encoding'', jstr (pd_encoding x)),
      (''encoded_diff'', jstr (pd_encoded_diff x))]"

definition patch_diff_json :: "patch_diff \<Rightarrow> json" where
  "patch_diff_json x = json_obj (patch_diff_fields x)"

definition patch_diff_of_json :: "json \<Rightarrow> patch_diff option" where
  "patch_diff_of_json v = do {
     x1 \<leftarrow> field d_str ''patch_id'' v;
     x2 \<leftarrow> field d_str ''attempt_id'' v;
     x3 \<leftarrow> field d_str ''base_commit'' v;
     x4 \<leftarrow> field d_str ''diff_hash'' v;
     x5 \<leftarrow> field d_u64 ''diff_bytes'' v;
     x6 \<leftarrow> field (d_list d_str) ''file_paths'' v;
     x7 \<leftarrow> field d_str ''encoding'' v;
     x8 \<leftarrow> field d_str ''encoded_diff'' v;
     Some \<lparr>pd_patch_id = x1, pd_attempt_id = x2, pd_base_commit = x3, pd_diff_hash = x4, pd_diff_bytes = x5, pd_file_paths = x6, pd_encoding = x7, pd_encoded_diff = x8\<rparr> }"

lemma patch_diff_get: "json_get (patch_diff_json x) k = map_of (patch_diff_fields x) k"
  unfolding patch_diff_json_def by (rule json_get_json_obj) (simp add: wire_simps patch_diff_fields_def)

lemma patch_diff_round_trip [simp]: "patch_diff_of_json (patch_diff_json x) = Some x"
  by (simp add: wire_simps patch_diff_of_json_def patch_diff_get patch_diff_fields_def)

lemma patch_diff_not_null [simp]: "patch_diff_json x \<noteq> JNull"
  by (simp add: patch_diff_json_def)

lemma patch_diff_codec [simp]: "codec patch_diff_json patch_diff_of_json"
  by (simp add: codec_def)

lemma patch_diff_plain [simp]: "json_plain (Suc (Suc d)) (patch_diff_json x)"
  unfolding patch_diff_json_def by (rule json_plain_json_obj) (auto simp: patch_diff_fields_def plain_simps)

record patch_application =
  pa_patch_id :: str
  pa_attempt_id :: str
  pa_base_commit :: str
  pa_head_commit :: str
  pa_diff_hash :: str
  pa_diff_bytes :: u64
  pa_file_paths :: "str list"
  pa_applied_by :: "str option"
  pa_reason :: "str option"
  pa_idempotency_key :: "str option"
  pa_applied_at_ms :: u64

definition patch_application_fields :: "patch_application \<Rightarrow> (str \<times> json) list" where
  "patch_application_fields x =
     [(''patch_id'', jstr (pa_patch_id x)),
      (''attempt_id'', jstr (pa_attempt_id x)),
      (''base_commit'', jstr (pa_base_commit x)),
      (''head_commit'', jstr (pa_head_commit x)),
      (''diff_hash'', jstr (pa_diff_hash x)),
      (''diff_bytes'', ju64 (pa_diff_bytes x)),
      (''file_paths'', jlist jstr (pa_file_paths x)),
      (''applied_by'', jopt jstr (pa_applied_by x)),
      (''reason'', jopt jstr (pa_reason x)),
      (''idempotency_key'', jopt jstr (pa_idempotency_key x)),
      (''applied_at_ms'', ju64 (pa_applied_at_ms x))]"

definition patch_application_json :: "patch_application \<Rightarrow> json" where
  "patch_application_json x = json_obj (patch_application_fields x)"

definition patch_application_of_json :: "json \<Rightarrow> patch_application option" where
  "patch_application_of_json v = do {
     x1 \<leftarrow> field d_str ''patch_id'' v;
     x2 \<leftarrow> field d_str ''attempt_id'' v;
     x3 \<leftarrow> field d_str ''base_commit'' v;
     x4 \<leftarrow> field d_str ''head_commit'' v;
     x5 \<leftarrow> field d_str ''diff_hash'' v;
     x6 \<leftarrow> field d_u64 ''diff_bytes'' v;
     x7 \<leftarrow> field (d_list d_str) ''file_paths'' v;
     x8 \<leftarrow> field_opt d_str ''applied_by'' v;
     x9 \<leftarrow> field_opt d_str ''reason'' v;
     x10 \<leftarrow> field_opt d_str ''idempotency_key'' v;
     x11 \<leftarrow> field d_u64 ''applied_at_ms'' v;
     Some \<lparr>pa_patch_id = x1, pa_attempt_id = x2, pa_base_commit = x3, pa_head_commit = x4, pa_diff_hash = x5, pa_diff_bytes = x6, pa_file_paths = x7, pa_applied_by = x8, pa_reason = x9, pa_idempotency_key = x10, pa_applied_at_ms = x11\<rparr> }"

lemma patch_application_get: "json_get (patch_application_json x) k = map_of (patch_application_fields x) k"
  unfolding patch_application_json_def by (rule json_get_json_obj) (simp add: wire_simps patch_application_fields_def)

lemma patch_application_round_trip [simp]: "patch_application_of_json (patch_application_json x) = Some x"
  by (simp add: wire_simps patch_application_of_json_def patch_application_get patch_application_fields_def)

lemma patch_application_not_null [simp]: "patch_application_json x \<noteq> JNull"
  by (simp add: patch_application_json_def)

lemma patch_application_codec [simp]: "codec patch_application_json patch_application_of_json"
  by (simp add: codec_def)

lemma patch_application_plain [simp]: "json_plain (Suc (Suc d)) (patch_application_json x)"
  unfolding patch_application_json_def by (rule json_plain_json_obj) (auto simp: patch_application_fields_def plain_simps)

record patch_retirement =
  pr_patch_id :: str
  pr_reason :: str
  pr_retired_by :: "str option"
  pr_idempotency_key :: "str option"
  pr_retired_at_ms :: u64

definition patch_retirement_fields :: "patch_retirement \<Rightarrow> (str \<times> json) list" where
  "patch_retirement_fields x =
     [(''patch_id'', jstr (pr_patch_id x)),
      (''reason'', jstr (pr_reason x)),
      (''retired_by'', jopt jstr (pr_retired_by x)),
      (''idempotency_key'', jopt jstr (pr_idempotency_key x)),
      (''retired_at_ms'', ju64 (pr_retired_at_ms x))]"

definition patch_retirement_json :: "patch_retirement \<Rightarrow> json" where
  "patch_retirement_json x = json_obj (patch_retirement_fields x)"

definition patch_retirement_of_json :: "json \<Rightarrow> patch_retirement option" where
  "patch_retirement_of_json v = do {
     x1 \<leftarrow> field d_str ''patch_id'' v;
     x2 \<leftarrow> field d_str ''reason'' v;
     x3 \<leftarrow> field_opt d_str ''retired_by'' v;
     x4 \<leftarrow> field_opt d_str ''idempotency_key'' v;
     x5 \<leftarrow> field d_u64 ''retired_at_ms'' v;
     Some \<lparr>pr_patch_id = x1, pr_reason = x2, pr_retired_by = x3, pr_idempotency_key = x4, pr_retired_at_ms = x5\<rparr> }"

lemma patch_retirement_get: "json_get (patch_retirement_json x) k = map_of (patch_retirement_fields x) k"
  unfolding patch_retirement_json_def by (rule json_get_json_obj) (simp add: wire_simps patch_retirement_fields_def)

lemma patch_retirement_round_trip [simp]: "patch_retirement_of_json (patch_retirement_json x) = Some x"
  by (simp add: wire_simps patch_retirement_of_json_def patch_retirement_get patch_retirement_fields_def)

lemma patch_retirement_not_null [simp]: "patch_retirement_json x \<noteq> JNull"
  by (simp add: patch_retirement_json_def)

lemma patch_retirement_codec [simp]: "codec patch_retirement_json patch_retirement_of_json"
  by (simp add: codec_def)

lemma patch_retirement_plain [simp]: "json_plain (Suc d) (patch_retirement_json x)"
  unfolding patch_retirement_json_def by (rule json_plain_json_obj) (auto simp: patch_retirement_fields_def plain_simps)

record attestation_evidence =
  att_ev_evidence_id :: str
  att_ev_signer_receipt :: signer_receipt_ref
  att_ev_tee_evidence_ref :: "str option"
  att_ev_payload_hash :: str

definition attestation_evidence_fields :: "attestation_evidence \<Rightarrow> (str \<times> json) list" where
  "attestation_evidence_fields x =
     [(''evidence_id'', jstr (att_ev_evidence_id x)),
      (''signer_receipt'', signer_receipt_ref_json (att_ev_signer_receipt x)),
      (''tee_evidence_ref'', jopt jstr (att_ev_tee_evidence_ref x)),
      (''payload_hash'', jstr (att_ev_payload_hash x))]"

definition attestation_evidence_json :: "attestation_evidence \<Rightarrow> json" where
  "attestation_evidence_json x = json_obj (attestation_evidence_fields x)"

definition attestation_evidence_of_json :: "json \<Rightarrow> attestation_evidence option" where
  "attestation_evidence_of_json v = do {
     x1 \<leftarrow> field d_str ''evidence_id'' v;
     x2 \<leftarrow> field signer_receipt_ref_of_json ''signer_receipt'' v;
     x3 \<leftarrow> field_opt d_str ''tee_evidence_ref'' v;
     x4 \<leftarrow> field d_str ''payload_hash'' v;
     Some \<lparr>att_ev_evidence_id = x1, att_ev_signer_receipt = x2, att_ev_tee_evidence_ref = x3, att_ev_payload_hash = x4\<rparr> }"

lemma attestation_evidence_get: "json_get (attestation_evidence_json x) k = map_of (attestation_evidence_fields x) k"
  unfolding attestation_evidence_json_def by (rule json_get_json_obj) (simp add: wire_simps attestation_evidence_fields_def)

lemma attestation_evidence_round_trip [simp]: "attestation_evidence_of_json (attestation_evidence_json x) = Some x"
  by (simp add: wire_simps attestation_evidence_of_json_def attestation_evidence_get attestation_evidence_fields_def)

lemma attestation_evidence_not_null [simp]: "attestation_evidence_json x \<noteq> JNull"
  by (simp add: attestation_evidence_json_def)

lemma attestation_evidence_codec [simp]: "codec attestation_evidence_json attestation_evidence_of_json"
  by (simp add: codec_def)

lemma attestation_evidence_plain [simp]: "json_plain (Suc (Suc d)) (attestation_evidence_json x)"
  unfolding attestation_evidence_json_def by (rule json_plain_json_obj) (auto simp: attestation_evidence_fields_def plain_simps)

record payment_evidence =
  pay_evidence_id :: str
  pay_payment_protocol :: str
  pay_authorization_receipt_ref :: "str option"
  pay_settlement_receipt_ref :: "str option"
  pay_amount :: "str option"

definition payment_evidence_fields :: "payment_evidence \<Rightarrow> (str \<times> json) list" where
  "payment_evidence_fields x =
     [(''evidence_id'', jstr (pay_evidence_id x)),
      (''payment_protocol'', jstr (pay_payment_protocol x)),
      (''authorization_receipt_ref'', jopt jstr (pay_authorization_receipt_ref x)),
      (''settlement_receipt_ref'', jopt jstr (pay_settlement_receipt_ref x)),
      (''amount'', jopt jstr (pay_amount x))]"

definition payment_evidence_json :: "payment_evidence \<Rightarrow> json" where
  "payment_evidence_json x = json_obj (payment_evidence_fields x)"

definition payment_evidence_of_json :: "json \<Rightarrow> payment_evidence option" where
  "payment_evidence_of_json v = do {
     x1 \<leftarrow> field d_str ''evidence_id'' v;
     x2 \<leftarrow> field d_str ''payment_protocol'' v;
     x3 \<leftarrow> field_opt d_str ''authorization_receipt_ref'' v;
     x4 \<leftarrow> field_opt d_str ''settlement_receipt_ref'' v;
     x5 \<leftarrow> field_opt d_str ''amount'' v;
     Some \<lparr>pay_evidence_id = x1, pay_payment_protocol = x2, pay_authorization_receipt_ref = x3, pay_settlement_receipt_ref = x4, pay_amount = x5\<rparr> }"

lemma payment_evidence_get: "json_get (payment_evidence_json x) k = map_of (payment_evidence_fields x) k"
  unfolding payment_evidence_json_def by (rule json_get_json_obj) (simp add: wire_simps payment_evidence_fields_def)

lemma payment_evidence_round_trip [simp]: "payment_evidence_of_json (payment_evidence_json x) = Some x"
  by (simp add: wire_simps payment_evidence_of_json_def payment_evidence_get payment_evidence_fields_def)

lemma payment_evidence_not_null [simp]: "payment_evidence_json x \<noteq> JNull"
  by (simp add: payment_evidence_json_def)

lemma payment_evidence_codec [simp]: "codec payment_evidence_json payment_evidence_of_json"
  by (simp add: codec_def)

lemma payment_evidence_plain [simp]: "json_plain (Suc d) (payment_evidence_json x)"
  unfolding payment_evidence_json_def by (rule json_plain_json_obj) (auto simp: payment_evidence_fields_def plain_simps)

record agent_note =
  note_from :: str
  note_to :: str
  note_body :: str
  note_thread :: "str option"
  note_in_reply_to :: "str option"
  note_refs :: "str list"
  note_created_at_ms :: u64

definition agent_note_fields :: "agent_note \<Rightarrow> (str \<times> json) list" where
  "agent_note_fields x =
     [(''from'', jstr (note_from x)),
      (''to'', jstr (note_to x)),
      (''body'', jstr (note_body x))] @
     opt_field ''thread'' jstr (note_thread x) @
     opt_field ''in_reply_to'' jstr (note_in_reply_to x) @
     list_field ''refs'' jstr (note_refs x) @
     [(''created_at_ms'', ju64 (note_created_at_ms x))]"

definition agent_note_json :: "agent_note \<Rightarrow> json" where
  "agent_note_json x = json_obj (agent_note_fields x)"

definition agent_note_of_json :: "json \<Rightarrow> agent_note option" where
  "agent_note_of_json v = do {
     x1 \<leftarrow> field d_str ''from'' v;
     x2 \<leftarrow> field d_str ''to'' v;
     x3 \<leftarrow> field d_str ''body'' v;
     x4 \<leftarrow> field_opt d_str ''thread'' v;
     x5 \<leftarrow> field_opt d_str ''in_reply_to'' v;
     x6 \<leftarrow> field_default [] (d_list d_str) ''refs'' v;
     x7 \<leftarrow> field d_u64 ''created_at_ms'' v;
     Some \<lparr>note_from = x1, note_to = x2, note_body = x3, note_thread = x4, note_in_reply_to = x5, note_refs = x6, note_created_at_ms = x7\<rparr> }"

lemma agent_note_get: "json_get (agent_note_json x) k = map_of (agent_note_fields x) k"
  unfolding agent_note_json_def by (rule json_get_json_obj) (cases "note_thread x"; cases "note_in_reply_to x"; cases "note_refs x"; simp add: wire_simps agent_note_fields_def)

lemma agent_note_round_trip [simp]: "agent_note_of_json (agent_note_json x) = Some x"
  by (cases "note_thread x"; cases "note_in_reply_to x"; cases "note_refs x"; simp add: wire_simps agent_note_of_json_def agent_note_get agent_note_fields_def)

lemma agent_note_not_null [simp]: "agent_note_json x \<noteq> JNull"
  by (simp add: agent_note_json_def)

lemma agent_note_codec [simp]: "codec agent_note_json agent_note_of_json"
  by (simp add: codec_def)

lemma agent_note_plain [simp]: "json_plain (Suc (Suc d)) (agent_note_json x)"
  unfolding agent_note_json_def by (rule json_plain_json_obj) (auto simp: agent_note_fields_def plain_simps)

record language_adapter_manifest =
  lam_language :: str
  lam_adapter_name :: str
  lam_adapter_version :: str
  lam_source :: str
  lam_supported_object_kinds :: "str list"

definition language_adapter_manifest_fields :: "language_adapter_manifest \<Rightarrow> (str \<times> json) list" where
  "language_adapter_manifest_fields x =
     [(''language'', jstr (lam_language x)),
      (''adapter_name'', jstr (lam_adapter_name x)),
      (''adapter_version'', jstr (lam_adapter_version x)),
      (''source'', jstr (lam_source x)),
      (''supported_object_kinds'', jlist jstr (lam_supported_object_kinds x))]"

definition language_adapter_manifest_json :: "language_adapter_manifest \<Rightarrow> json" where
  "language_adapter_manifest_json x = json_obj (language_adapter_manifest_fields x)"

definition language_adapter_manifest_of_json :: "json \<Rightarrow> language_adapter_manifest option" where
  "language_adapter_manifest_of_json v = do {
     x1 \<leftarrow> field d_str ''language'' v;
     x2 \<leftarrow> field d_str ''adapter_name'' v;
     x3 \<leftarrow> field d_str ''adapter_version'' v;
     x4 \<leftarrow> field d_str ''source'' v;
     x5 \<leftarrow> field (d_list d_str) ''supported_object_kinds'' v;
     Some \<lparr>lam_language = x1, lam_adapter_name = x2, lam_adapter_version = x3, lam_source = x4, lam_supported_object_kinds = x5\<rparr> }"

lemma language_adapter_manifest_get: "json_get (language_adapter_manifest_json x) k = map_of (language_adapter_manifest_fields x) k"
  unfolding language_adapter_manifest_json_def by (rule json_get_json_obj) (simp add: wire_simps language_adapter_manifest_fields_def)

lemma language_adapter_manifest_round_trip [simp]: "language_adapter_manifest_of_json (language_adapter_manifest_json x) = Some x"
  by (simp add: wire_simps language_adapter_manifest_of_json_def language_adapter_manifest_get language_adapter_manifest_fields_def)

lemma language_adapter_manifest_not_null [simp]: "language_adapter_manifest_json x \<noteq> JNull"
  by (simp add: language_adapter_manifest_json_def)

lemma language_adapter_manifest_codec [simp]: "codec language_adapter_manifest_json language_adapter_manifest_of_json"
  by (simp add: codec_def)

lemma language_adapter_manifest_plain [simp]: "json_plain (Suc (Suc d)) (language_adapter_manifest_json x)"
  unfolding language_adapter_manifest_json_def by (rule json_plain_json_obj) (auto simp: language_adapter_manifest_fields_def plain_simps)

record contract_manifest =
  cm_name :: str
  cm_version :: str
  cm_description :: str
  cm_capabilities_required :: "str list"
  cm_input_schema_hash :: str
  cm_output_schema_hash :: "str option"
  cm_source_symbols :: "symbol_ref list"

definition contract_manifest_fields :: "contract_manifest \<Rightarrow> (str \<times> json) list" where
  "contract_manifest_fields x =
     [(''name'', jstr (cm_name x)),
      (''version'', jstr (cm_version x)),
      (''description'', jstr (cm_description x)),
      (''capabilities_required'', jlist jstr (cm_capabilities_required x)),
      (''input_schema_hash'', jstr (cm_input_schema_hash x)),
      (''output_schema_hash'', jopt jstr (cm_output_schema_hash x)),
      (''source_symbols'', jlist symbol_ref_json (cm_source_symbols x))]"

definition contract_manifest_json :: "contract_manifest \<Rightarrow> json" where
  "contract_manifest_json x = json_obj (contract_manifest_fields x)"

definition contract_manifest_of_json :: "json \<Rightarrow> contract_manifest option" where
  "contract_manifest_of_json v = do {
     x1 \<leftarrow> field d_str ''name'' v;
     x2 \<leftarrow> field d_str ''version'' v;
     x3 \<leftarrow> field d_str ''description'' v;
     x4 \<leftarrow> field (d_list d_str) ''capabilities_required'' v;
     x5 \<leftarrow> field d_str ''input_schema_hash'' v;
     x6 \<leftarrow> field_opt d_str ''output_schema_hash'' v;
     x7 \<leftarrow> field (d_list symbol_ref_of_json) ''source_symbols'' v;
     Some \<lparr>cm_name = x1, cm_version = x2, cm_description = x3, cm_capabilities_required = x4, cm_input_schema_hash = x5, cm_output_schema_hash = x6, cm_source_symbols = x7\<rparr> }"

lemma contract_manifest_get: "json_get (contract_manifest_json x) k = map_of (contract_manifest_fields x) k"
  unfolding contract_manifest_json_def by (rule json_get_json_obj) (simp add: wire_simps contract_manifest_fields_def)

lemma contract_manifest_round_trip [simp]: "contract_manifest_of_json (contract_manifest_json x) = Some x"
  by (simp add: wire_simps contract_manifest_of_json_def contract_manifest_get contract_manifest_fields_def)

lemma contract_manifest_not_null [simp]: "contract_manifest_json x \<noteq> JNull"
  by (simp add: contract_manifest_json_def)

lemma contract_manifest_codec [simp]: "codec contract_manifest_json contract_manifest_of_json"
  by (simp add: codec_def)

lemma contract_manifest_plain [simp]: "json_plain (Suc (Suc (Suc (Suc d)))) (contract_manifest_json x)"
  unfolding contract_manifest_json_def by (rule json_plain_json_obj) (auto simp: contract_manifest_fields_def plain_simps)

record discovery_object =
  disc_repository :: str
  disc_commit :: "str option"
  disc_tree :: "str option"
  disc_language_adapters :: "language_adapter_manifest list"
  disc_symbol_index_refs :: "str list"
  disc_contract_manifests :: "contract_manifest list"
  disc_privacy :: privacy_class
  disc_encrypted_body :: "encryption_envelope_ref option"

definition discovery_object_fields :: "discovery_object \<Rightarrow> (str \<times> json) list" where
  "discovery_object_fields x =
     [(''repository'', jstr (disc_repository x)),
      (''commit'', jopt jstr (disc_commit x)),
      (''tree'', jopt jstr (disc_tree x)),
      (''language_adapters'', jlist language_adapter_manifest_json (disc_language_adapters x)),
      (''symbol_index_refs'', jlist jstr (disc_symbol_index_refs x)),
      (''contract_manifests'', jlist contract_manifest_json (disc_contract_manifests x)),
      (''privacy'', privacy_class_json (disc_privacy x)),
      (''encrypted_body'', jopt encryption_envelope_ref_json (disc_encrypted_body x))]"

definition discovery_object_json :: "discovery_object \<Rightarrow> json" where
  "discovery_object_json x = json_obj (discovery_object_fields x)"

definition discovery_object_of_json :: "json \<Rightarrow> discovery_object option" where
  "discovery_object_of_json v = do {
     x1 \<leftarrow> field d_str ''repository'' v;
     x2 \<leftarrow> field_opt d_str ''commit'' v;
     x3 \<leftarrow> field_opt d_str ''tree'' v;
     x4 \<leftarrow> field (d_list language_adapter_manifest_of_json) ''language_adapters'' v;
     x5 \<leftarrow> field (d_list d_str) ''symbol_index_refs'' v;
     x6 \<leftarrow> field (d_list contract_manifest_of_json) ''contract_manifests'' v;
     x7 \<leftarrow> field privacy_class_of_json ''privacy'' v;
     x8 \<leftarrow> field_opt encryption_envelope_ref_of_json ''encrypted_body'' v;
     Some \<lparr>disc_repository = x1, disc_commit = x2, disc_tree = x3, disc_language_adapters = x4, disc_symbol_index_refs = x5, disc_contract_manifests = x6, disc_privacy = x7, disc_encrypted_body = x8\<rparr> }"

lemma discovery_object_get: "json_get (discovery_object_json x) k = map_of (discovery_object_fields x) k"
  unfolding discovery_object_json_def by (rule json_get_json_obj) (simp add: wire_simps discovery_object_fields_def)

lemma discovery_object_round_trip [simp]: "discovery_object_of_json (discovery_object_json x) = Some x"
  by (simp add: wire_simps discovery_object_of_json_def discovery_object_get discovery_object_fields_def)

lemma discovery_object_not_null [simp]: "discovery_object_json x \<noteq> JNull"
  by (simp add: discovery_object_json_def)

lemma discovery_object_codec [simp]: "codec discovery_object_json discovery_object_of_json"
  by (simp add: codec_def)

lemma discovery_object_plain [simp]: "json_plain (Suc (Suc (Suc (Suc (Suc (Suc d)))))) (discovery_object_json x)"
  unfolding discovery_object_json_def by (rule json_plain_json_obj) (auto simp: discovery_object_fields_def plain_simps)

section \<open>Validation\<close>

record intent_diagnostic =
  idg_code :: str
  idg_message :: str

definition diagnose :: "bool \<Rightarrow> str \<Rightarrow> str \<Rightarrow> intent_diagnostic list" where
  "diagnose b code message = (if b then [\<lparr>idg_code = code, idg_message = message\<rparr>] else [])"

definition looks_like_git_object_id :: "str \<Rightarrow> bool" where
  "looks_like_git_object_id value \<longleftrightarrow>
     (length value = 40 \<or> length value = 64) \<and> list_all is_ascii_hexdigit value"

definition validate_work_intent :: "work_intent \<Rightarrow> intent_diagnostic list" where
  "validate_work_intent intent =
     diagnose (blank (wi_objective intent)) ''INTENT001'' ''objective must not be empty'' @
     diagnose (wi_issue_refs intent = [] \<and> wi_task_refs intent = [])
       ''INTENT002'' ''at least one issue_refs or task_refs entry is required'' @
     diagnose (case wi_base_commit intent of Some c \<Rightarrow> \<not> looks_like_git_object_id c | None \<Rightarrow> False)
       ''INTENT003'' ''base_commit must be a 40- or 64-character hex object id when present''"

definition validate_agent_note :: "agent_note \<Rightarrow> intent_diagnostic list" where
  "validate_agent_note note =
     diagnose (blank (note_from note)) ''NOTE001'' ''from must not be empty'' @
     diagnose (blank (note_to note)) ''NOTE002'' ''to must not be empty'' @
     diagnose (blank (note_body note)) ''NOTE003'' ''body must not be empty''"

section \<open>Properties\<close>

text \<open>
  C7: every object of the work ledger is read back from the JSON it was written as, absent optional
  fields included.
\<close>

theorem schema_round_trips:
  "work_intent_of_json (work_intent_json wi) = Some wi \<and>
   agent_attempt_of_json (agent_attempt_json a) = Some a \<and>
   attempt_status_transition_of_json (attempt_status_transition_json tr) = Some tr \<and>
   agent_run_of_json (agent_run_json ru) = Some ru \<and>
   agent_run_trace_of_json (agent_run_trace_json tc) = Some tc \<and>
   change_evidence_of_json (change_evidence_json ce) = Some ce \<and>
   prepared_patch_of_json (prepared_patch_json pp) = Some pp \<and>
   patch_diff_of_json (patch_diff_json pd) = Some pd \<and>
   patch_application_of_json (patch_application_json pa) = Some pa \<and>
   patch_retirement_of_json (patch_retirement_json pr) = Some pr \<and>
   agent_note_of_json (agent_note_json no) = Some no \<and>
   discovery_object_of_json (discovery_object_json di) = Some di"
  by simp

text \<open>
  an attempt on a worktree has no \<^verbatim>\<open>in_place\<close> key on the wire, so that it has the bytes (and the
  object id) it had before the field existed, and the wire forms of the two kinds of attempts differ
  in that key only.
\<close>

theorem attempt_wire_compatible:
  "json_get (agent_attempt_json a) ''in_place'' = (if att_in_place a then Some (JBool True) else None) \<and>
   (\<forall>k. k \<noteq> ''in_place'' \<longrightarrow>
      json_get (agent_attempt_json (a\<lparr>att_in_place := \<not> att_in_place a\<rparr>)) k = json_get (agent_attempt_json a) k)"
  by (simp add: agent_attempt_get agent_attempt_fields_def true_field_def)

definition ref_attempt :: agent_attempt where
  "ref_attempt = \<lparr>att_attempt_id = ''a'', att_intent_id = ''i'', att_base_commit = ''c'', att_agent_id = ''g'',
     att_lease_expires_at_ms = None, att_status = Planned, att_in_place = True\<rparr>"

theorem attempt_wire_compatible_witness:
  "json_get (agent_attempt_json ref_attempt) ''in_place'' = Some (JBool True) \<and>
   json_get (agent_attempt_json (ref_attempt\<lparr>att_in_place := False\<rparr>)) ''status'' =
     json_get (agent_attempt_json ref_attempt) ''status''"
proof -
  have on: "att_in_place ref_attempt" by (simp add: ref_attempt_def)
  have "json_get (agent_attempt_json (ref_attempt\<lparr>att_in_place := \<not> att_in_place ref_attempt\<rparr>)) ''status'' =
      json_get (agent_attempt_json ref_attempt) ''status''"
    by (rule attempt_wire_compatible [THEN conjunct2, rule_format]) simp
  with on show ?thesis using attempt_wire_compatible [of ref_attempt] by simp
qed

text \<open>
  an intent is accepted exactly when it has an objective, an issue or a task, and a base commit
  that, when present, is 40 or 64 hexadecimal digits; a note exactly when sender, recipient and body are
  not blank.  The codes come out in a fixed order, each at most once.
\<close>

theorem validation_exact:
  "(validate_work_intent wi = [] \<longleftrightarrow>
      \<not> blank (wi_objective wi) \<and> (wi_issue_refs wi \<noteq> [] \<or> wi_task_refs wi \<noteq> []) \<and>
      (\<forall>c. wi_base_commit wi = Some c \<longrightarrow> length c \<in> {40, 64} \<and> (\<forall>x \<in> set c. is_ascii_hexdigit x))) \<and>
   subseq (map idg_code (validate_work_intent wi)) [''INTENT001'', ''INTENT002'', ''INTENT003''] \<and>
   (validate_agent_note n = [] \<longleftrightarrow> \<not> blank (note_from n) \<and> \<not> blank (note_to n) \<and> \<not> blank (note_body n)) \<and>
   subseq (map idg_code (validate_agent_note n)) [''NOTE001'', ''NOTE002'', ''NOTE003'']"
  by (auto simp: validate_work_intent_def validate_agent_note_def diagnose_def looks_like_git_object_id_def
      list_all_iff split: option.split)

definition ref_intent :: work_intent where
  "ref_intent = \<lparr>wi_objective = ''ship'', wi_issue_refs = [], wi_task_refs = [], wi_base_commit = Some ''xyz'',
     wi_allowed_capabilities = [], wi_privacy = PublicMetadata, wi_tee_policy = None, wi_release_guard = None, wi_created_by = None\<rparr>"

theorem validation_exact_witness:
  "validate_work_intent ref_intent \<noteq> [] \<and>
   validate_agent_note \<lparr>note_from = ''a'', note_to = ''b'', note_body = [], note_thread = None, note_in_reply_to = None,
     note_refs = [], note_created_at_ms = 0\<rparr> \<noteq> []"
proof -
  have "blank []" by (simp add: blank_def trim_def trim_start.simps trim_end.simps)
  then show ?thesis
    using validation_exact [of ref_intent "\<lparr>note_from = ''a'', note_to = ''b'', note_body = [], note_thread = None,
      note_in_reply_to = None, note_refs = [], note_created_at_ms = 0\<rparr>"]
    by (simp add: ref_intent_def)
qed


end
