(* ===== verification/Git_Store.thy ===== *)
theory Git_Store
  imports Agent_Schema
begin

text \<open>
  \<^verbatim>\<open>crates/rickydata-git-git/src/lib.rs\<close>: the object store inside a Git repository.  An object lives in
  a cache file under \<^verbatim>\<open>.git/rickydata/cache\<close> and as a blob behind a reference
  \<^verbatim>\<open>refs/rickydata/objects/...\<close>.  The Git implementation (\<^verbatim>\<open>gix\<close>) is a parameter: a record of functions on
  a state of any type, with its documented laws in \<open>gix_laws\<close>.  Its state is kept apart from the file
  system of the cache: \<^verbatim>\<open>gix\<close> never touches \<^verbatim>\<open>.git/rickydata\<close>, and the cache code never touches the
  object database.
\<close>

section \<open>The Git implementation\<close>

datatype previous_value = MustNotExist | MustExistAndMatch str

record 'g gix =
  discover :: "'g \<Rightarrow> path \<Rightarrow> str + path \<times> path option"
  write_blob :: "bytes \<Rightarrow> ('g, str, str) eff"
  find_reference :: "'g \<Rightarrow> str \<Rightarrow> str + str option"
  find_blob :: "'g \<Rightarrow> str \<Rightarrow> str + bytes"
  set_reference :: "str \<Rightarrow> str \<Rightarrow> previous_value \<Rightarrow> str \<Rightarrow> ('g, str, unit) eff"
  references_prefixed :: "'g \<Rightarrow> str \<Rightarrow> str + (str + str \<times> str) list"
  oid_from_hex :: "str \<Rightarrow> str + str"
  head_name :: "'g \<Rightarrow> str option"
  head_id :: "'g \<Rightarrow> str option"
  status_items :: "'g \<Rightarrow> str + (str + unit) list"
  object_hash :: "'g \<Rightarrow> str"

text \<open>
  Blobs are content-addressed and never lost; a reference transaction either fails and changes nothing
  or meets its precondition and moves that one reference.
\<close>

definition gix_laws :: "'g gix \<Rightarrow> bool" where
  "gix_laws G \<longleftrightarrow>
     (\<exists>blob_id. \<forall>g b r g'. write_blob G b g = (r, g') \<longrightarrow>
        find_reference G g' = find_reference G g \<and> discover G g' = discover G g \<and>
        (\<forall>i c. find_blob G g i = Inr c \<longrightarrow> find_blob G g' i = Inr c) \<and>
        (\<forall>i. r = Inr i \<longrightarrow> i = blob_id b \<and> find_blob G g' i = Inr b)) \<and>
     (\<forall>g n i p m r g'. set_reference G n i p m g = (r, g') \<longrightarrow>
        find_blob G g' = find_blob G g \<and> discover G g' = discover G g \<and>
        (case r of
           Inl _ \<Rightarrow> find_reference G g' = find_reference G g
         | Inr _ \<Rightarrow> find_reference G g' = (find_reference G g)(n := Inr (Some i)) \<and>
             (case p of MustNotExist \<Rightarrow> find_reference G g n = Inr None
              | MustExistAndMatch q \<Rightarrow> find_reference G g n = Inr (Some q))))"

record 'g world =
  w_fs :: fs
  w_git :: 'g

definition on_fs :: "(fs, 'e, 'a) eff \<Rightarrow> ('g world, 'e, 'a) eff" where
  "on_fs m w = (case m (w_fs w) of (r, s) \<Rightarrow> (r, w\<lparr>w_fs := s\<rparr>))"

definition on_git :: "('g, 'e, 'a) eff \<Rightarrow> ('g world, 'e, 'a) eff" where
  "on_git m w = (case m (w_git w) of (r, g) \<Rightarrow> (r, w\<lparr>w_git := g\<rparr>))"

section \<open>Errors and reports\<close>

datatype git_error =
    Discover str
  | NotGitRepository path
  | StatusError str
  | InitIo str
  | StoreNotInitialized path
  | StoreVersionMismatch path str str
  | InvalidObjectId str
  | ObjectNotFound path
  | ObjectConflict str path
  | ObjectIo str
  | ObjectParse str
  | ObjectGitWrite str
  | ObjectGitRead str
  | RefExpectationMismatch str "str option" "str option"
  | RefExpectationBadSignature str
  | RefExpectationSignatureError str str

definition path_text :: "path \<Rightarrow> str" where
  "path_text p = ''/'' @ join_with ''/'' p"

fun git_error_text :: "lib \<Rightarrow> git_error \<Rightarrow> str" where
  "git_error_text L (Discover m) = ''failed to discover repository: '' @ m"
| "git_error_text L (NotGitRepository p) = ''path is not inside a Git repository: '' @ path_text p"
| "git_error_text L (StatusError m) = ''failed to inspect repository status: '' @ m"
| "git_error_text L (InitIo m) = ''failed to initialize Rickydata Git metadata: '' @ m"
| "git_error_text L (StoreNotInitialized p) =
     ''Rickydata Git store is not initialized at '' @ path_text p @
     ''; run `rickygit init --repo <path> --json` first''"
| "git_error_text L (StoreVersionMismatch p found expected) =
     ''unsupported Rickydata Git store version `'' @ found @ ''` at '' @ path_text p @ ''; expected `'' @ expected @ ''`''"
| "git_error_text L (InvalidObjectId i) =
     ''invalid object id `'' @ i @ ''`; expected sha256:<64 lowercase hex chars>''"
| "git_error_text L (ObjectNotFound p) = ''cached object does not exist: '' @ path_text p"
| "git_error_text L (ObjectConflict i p) = ''cached object bytes conflict for '' @ i @ '' at '' @ path_text p"
| "git_error_text L (ObjectIo m) = ''failed to read or write cached object: '' @ m"
| "git_error_text L (ObjectParse m) = ''failed to parse cached object JSON: '' @ m"
| "git_error_text L (ObjectGitWrite m) =
     ''failed to write Rickydata object to Git object database or refs: '' @ m"
| "git_error_text L (ObjectGitRead m) =
     ''failed to read Rickydata object from Git object database or refs: '' @ m"
| "git_error_text L (RefExpectationMismatch r e f) =
     ''signed ref expectation for '' @ r @ '' did not match repository state: expected '' @ debug_opt L e @
     '', found '' @ debug_opt L f"
| "git_error_text L (RefExpectationBadSignature r) =
     ''signed ref expectation signature for '' @ r @ '' did not verify''"
| "git_error_text L (RefExpectationSignatureError r m) =
     ''signed ref expectation signature for '' @ r @ '' failed to validate: '' @ m"

datatype init_status = Created | AlreadyInitialized

datatype object_write_status = Written | AlreadyExists

datatype object_read_source = Cache | GitRef

record repo_inspection =
  ri_requested_path :: path
  ri_is_git_repo :: bool
  ri_root_path :: "path option"
  ri_git_dir :: "path option"
  ri_branch :: "str option"
  ri_head_commit :: "str option"
  ri_dirty :: "bool option"
  ri_object_format :: "str option"

record rickydata_init_report =
  ir_status :: init_status
  ir_repo_root :: "path option"
  ir_git_dir :: path
  ir_metadata_dir :: path
  ir_object_dir :: path
  ir_bundle_dir :: path
  ir_temp_dir :: path
  ir_refs_dir :: path
  ir_store_version :: str
  ir_created_paths :: "path list"
  ir_existing_paths :: "path list"

record object_write_report =
  wr_status :: object_write_status
  wr_object_id :: str
  wr_body_hash :: str
  wr_kind :: str
  wr_schema_version :: str
  wr_cache_path :: path
  wr_ref_name :: str
  wr_git_object_id :: str
  wr_bytes_written :: u64

record object_read_report =
  rr_object_id :: str
  rr_cache_path :: path
  rr_source :: object_read_source
  rr_object :: canonical_object

record object_list_entry =
  le_object_id :: str
  le_kind :: str
  le_body_hash :: str
  le_ref_name :: str
  le_git_object_id :: str

record object_diagnostic =
  od_code :: str
  od_message :: str

record object_verify_report =
  vr_object_id :: str
  vr_cache_path :: path
  vr_source :: object_read_source
  vr_valid :: bool
  vr_diagnostics :: "object_diagnostic list"
  vr_computed_object_id :: "str option"
  vr_computed_body_hash :: "str option"
  vr_signature_count :: "32 word"
  vr_valid_signature_count :: "32 word"

record rickydata_store =
  st_git_dir :: path
  st_temp_dir :: path

definition RICKYDATA_STORE_VERSION :: str where
  "RICKYDATA_STORE_VERSION = ''rickydata.git.store.v1''"

section \<open>Discovery and initialisation\<close>

definition has_git_marker :: "fs \<Rightarrow> path \<Rightarrow> bool" where
  "has_git_marker s p \<longleftrightarrow>
     list_ex (\<lambda>a. exists_at s (a @ [''.git'']) \<or> (a \<noteq> [] \<and> last a = ''.git'')) (rev ([] # ancestors_of p))"

definition status_has_any_change :: "'g gix \<Rightarrow> 'g \<Rightarrow> git_error + bool" where
  "status_has_any_change G g =
     r_bind (map_err StatusError (status_items G g)) (\<lambda>items. case items of
       [] \<Rightarrow> Inr False
     | item # _ \<Rightarrow> r_bind (map_err StatusError item) (\<lambda>_. Inr True))"

definition not_git_repo :: "path \<Rightarrow> repo_inspection" where
  "not_git_repo p = \<lparr>ri_requested_path = p, ri_is_git_repo = False, ri_root_path = None, ri_git_dir = None,
     ri_branch = None, ri_head_commit = None, ri_dirty = None, ri_object_format = None\<rparr>"

definition inspect_repository :: "'g gix \<Rightarrow> path \<Rightarrow> 'g world \<Rightarrow> git_error + repo_inspection" where
  "inspect_repository G p w = (case discover G (w_git w) p of
     Inl e \<Rightarrow> if has_git_marker (w_fs w) p then Inl (Discover e) else Inr (not_git_repo p)
   | Inr (git_dir, workdir) \<Rightarrow>
       r_bind (status_has_any_change G (w_git w)) (\<lambda>dirty.
         Inr \<lparr>ri_requested_path = p, ri_is_git_repo = True, ri_root_path = workdir, ri_git_dir = Some git_dir,
              ri_branch = head_name G (w_git w), ri_head_commit = head_id G (w_git w), ri_dirty = Some dirty,
              ri_object_format = Some (object_hash G (w_git w))\<rparr>))"

definition discover_repo :: "'g gix \<Rightarrow> path \<Rightarrow> ('g world, git_error, path \<times> path option) eff" where
  "discover_repo G p = e_gets (\<lambda>w. case discover G (w_git w) p of
     Inr r \<Rightarrow> Inr r
   | Inl e \<Rightarrow> if has_git_marker (w_fs w) p then Inl (Discover e) else Inl (NotGitRepository p))"

type_synonym path_log = "path list \<times> path list"

definition ensure_dir :: "path \<Rightarrow> path_log \<Rightarrow> (fs, git_error, path_log) eff" where
  "ensure_dir p l s = (case l of (created, existing) \<Rightarrow>
     if exists_at s p then (Inr (created, existing @ [p]), s)
     else e_bind (e_map_err InitIo (fs_create_dir_all p)) (\<lambda>_. e_ret (created @ [p], existing)) s)"

definition ensure_version_matches :: "path \<Rightarrow> (fs, git_error, unit) eff" where
  "ensure_version_matches p =
     e_bind (e_map_err InitIo (fs_read_to_string p)) (\<lambda>found.
       if trim found \<noteq> RICKYDATA_STORE_VERSION
       then e_fail (StoreVersionMismatch p (trim found) RICKYDATA_STORE_VERSION)
       else e_ret ())"

definition ensure_version_file :: "path \<Rightarrow> path_log \<Rightarrow> (fs, git_error, path_log) eff" where
  "ensure_version_file p l s = (case l of (created, existing) \<Rightarrow>
     if exists_at s p
     then e_bind (ensure_version_matches p) (\<lambda>_. e_ret (created, existing @ [p])) s
     else e_bind (e_map_err InitIo (fs_write p (str_bytes (RICKYDATA_STORE_VERSION @ ''\<newline>''))))
            (\<lambda>_. e_ret (created @ [p], existing)) s)"

definition metadata_dir_of :: "path \<Rightarrow> path" where
  "metadata_dir_of git_dir = git_dir @ [''rickydata'']"

definition version_file_of :: "path \<Rightarrow> path" where
  "version_file_of git_dir = metadata_dir_of git_dir @ [''VERSION'']"

definition temp_dir_of :: "path \<Rightarrow> path" where
  "temp_dir_of git_dir = metadata_dir_of git_dir @ [''tmp'']"

definition init_dirs :: "path \<Rightarrow> path list" where
  "init_dirs git_dir =
     (let metadata_dir = metadata_dir_of git_dir; cache_dir = metadata_dir @ [''cache''];
          refs_dir = git_dir @ [''refs'', ''rickydata'']
      in [metadata_dir, cache_dir, cache_dir @ [''objects'', ''sha256''], cache_dir @ [''bundles''],
          temp_dir_of git_dir, refs_dir, refs_dir @ [''objects''], refs_dir @ [''discovery''],
          refs_dir @ [''intents''], refs_dir @ [''attempts''], refs_dir @ [''runs''], refs_dir @ [''policies'']])"

definition init_report :: "path \<Rightarrow> path option \<Rightarrow> path list \<Rightarrow> path list \<Rightarrow> rickydata_init_report" where
  "init_report git_dir workdir created existing =
     \<lparr>ir_status = (if created = [] then AlreadyInitialized else Created), ir_repo_root = workdir,
      ir_git_dir = git_dir, ir_metadata_dir = metadata_dir_of git_dir,
      ir_object_dir = metadata_dir_of git_dir @ [''cache'', ''objects'', ''sha256''],
      ir_bundle_dir = metadata_dir_of git_dir @ [''cache'', ''bundles''],
      ir_temp_dir = temp_dir_of git_dir, ir_refs_dir = git_dir @ [''refs'', ''rickydata''],
      ir_store_version = RICKYDATA_STORE_VERSION,
      ir_created_paths = created, ir_existing_paths = existing\<rparr>"

definition init_rickydata_repository ::
    "'g gix \<Rightarrow> path \<Rightarrow> ('g world, git_error, rickydata_init_report) eff" where
  "init_rickydata_repository G p =
     e_bind (discover_repo G p) (\<lambda>(git_dir, workdir).
     e_bind (on_fs (e_fold ensure_dir (init_dirs git_dir) ([], []))) (\<lambda>l.
     e_bind (on_fs (ensure_version_file (version_file_of git_dir) l)) (\<lambda>(created, existing).
       e_ret (init_report git_dir workdir created existing))))"

definition open_initialized_store :: "'g gix \<Rightarrow> path \<Rightarrow> ('g world, git_error, rickydata_store) eff" where
  "open_initialized_store G p =
     e_bind (discover_repo G p) (\<lambda>(git_dir, _).
     e_bind (e_gets (\<lambda>w. if exists_at (w_fs w) (version_file_of git_dir) then Inr ()
                         else Inl (StoreNotInitialized (metadata_dir_of git_dir)))) (\<lambda>_.
     e_bind (on_fs (ensure_version_matches (version_file_of git_dir))) (\<lambda>_.
     e_bind (e_gets (\<lambda>w. if exists_at (w_fs w) (temp_dir_of git_dir) then Inr ()
                         else Inl (StoreNotInitialized (metadata_dir_of git_dir)))) (\<lambda>_.
       e_ret \<lparr>st_git_dir = git_dir, st_temp_dir = temp_dir_of git_dir\<rparr>))))"

section \<open>Names of objects\<close>

definition object_hex :: "str \<Rightarrow> git_error + str" where
  "object_hex object_id = (case strip_prefix ''sha256:'' object_id of
     None \<Rightarrow> Inl (InvalidObjectId object_id)
   | Some hex \<Rightarrow>
       if length hex \<noteq> 64 \<or> \<not> list_all is_ascii_hexdigit hex then Inl (InvalidObjectId object_id)
       else Inr (to_ascii_lowercase hex))"

definition object_cache_path :: "path \<Rightarrow> str \<Rightarrow> git_error + path" where
  "object_cache_path git_dir object_id =
     r_bind (object_hex object_id) (\<lambda>hex.
       Inr (git_dir @ [''rickydata'', ''cache'', ''objects'', ''sha256'', take 2 hex, hex @ ''.json'']))"

definition object_ref_name :: "str \<Rightarrow> git_error + str" where
  "object_ref_name object_id =
     r_bind (object_hex object_id) (\<lambda>hex. Inr (''refs/rickydata/objects/sha256/'' @ take 2 hex @ ''/'' @ hex))"

definition read_object_bytes :: "lib \<Rightarrow> bytes \<Rightarrow> git_error + canonical_object" where
  "read_object_bytes L b = map_err ObjectParse (parse_as L object_of_json b)"

definition canonical_object_bytes :: "lib \<Rightarrow> canonical_object \<Rightarrow> git_error + bytes" where
  "canonical_object_bytes L obj = map_err ObjectIo (to_vec L (canonical_json (object_json obj)))"

definition read_object_file :: "lib \<Rightarrow> path \<Rightarrow> (fs, git_error, canonical_object) eff" where
  "read_object_file L p = e_bind (e_map_err ObjectIo (fs_read p)) (\<lambda>b. e_lift (read_object_bytes L b))"

section \<open>Writing\<close>

definition write_object_cache_bytes ::
    "path \<Rightarrow> path \<Rightarrow> str \<Rightarrow> bytes \<Rightarrow> (fs, git_error, object_write_status) eff" where
  "write_object_cache_bytes temp_dir cache_path object_id object_bytes =
     e_bind (e_map_err ObjectIo (fs_create_dir_all (butlast cache_path))) (\<lambda>_.
     (\<lambda>s. if exists_at s cache_path
       then e_bind (e_map_err ObjectIo (fs_read cache_path)) (\<lambda>existing.
              if existing \<noteq> object_bytes then e_fail (ObjectConflict object_id cache_path)
              else e_ret AlreadyExists) s
       else (let temp_path = temp_dir @ [replace_char CHR '':'' CHR ''-'' object_id @ ''.tmp''] in
            e_bind (e_map_err ObjectIo (fs_write temp_path object_bytes)) (\<lambda>_.
            e_bind (e_map_err ObjectIo (fs_rename temp_path cache_path)) (\<lambda>_.
              e_ret Written)) s)))"

definition write_git_object_ref ::
    "'g gix \<Rightarrow> str \<Rightarrow> str \<Rightarrow> bytes \<Rightarrow> ('g, git_error, str) eff" where
  "write_git_object_ref G object_id ref_name object_bytes =
     e_bind (e_map_err ObjectGitWrite (write_blob G object_bytes)) (\<lambda>git_object_id.
     e_bind (e_gets (\<lambda>g. map_err ObjectGitWrite (find_reference G g ref_name))) (\<lambda>existing.
       case existing of
         Some existing_id \<Rightarrow>
           if existing_id \<noteq> git_object_id
           then e_fail (ObjectGitWrite (ref_name @ '' points to '' @ existing_id @ '', expected '' @
                  git_object_id @ '' for '' @ object_id))
           else e_ret git_object_id
       | None \<Rightarrow>
           e_bind (e_map_err ObjectGitWrite
                     (set_reference G ref_name git_object_id MustNotExist (''rickygit object '' @ object_id)))
             (\<lambda>_. e_ret git_object_id)))"

definition object_field_diagnostics ::
    "lib \<Rightarrow> str \<Rightarrow> canonical_object \<Rightarrow> git_error + (str \<times> str) \<times> object_diagnostic list" where
  "object_field_diagnostics L object_id obj =
     r_bind (map_err (\<lambda>e. ObjectIo (core_error_text e)) (stable_json_hash L (co_body obj))) (\<lambda>body_hash.
     r_bind (map_err (\<lambda>e. ObjectIo (core_error_text e))
               (canonical_object_id L (co_kind obj) (co_schema_version obj) (co_body obj))) (\<lambda>computed_id.
       Inr ((computed_id, body_hash),
         (if co_object_id obj \<noteq> object_id
          then [\<lparr>od_code = ''OBJECT003'', od_message = ''object_id field does not match requested object id''\<rparr>] else []) @
         (if co_object_id obj \<noteq> computed_id
          then [\<lparr>od_code = ''OBJECT004'', od_message = ''object_id does not match canonical kind/schema/body hash''\<rparr>] else []) @
         (if co_body_hash obj \<noteq> body_hash
          then [\<lparr>od_code = ''OBJECT005'', od_message = ''body_hash does not match canonical body hash''\<rparr>] else []))))"

definition write_report :: "object_write_status \<Rightarrow> canonical_object \<Rightarrow> path \<Rightarrow> str \<Rightarrow> str \<Rightarrow> bytes \<Rightarrow> object_write_report" where
  "write_report status obj cache_path ref_name git_object_id object_bytes =
     \<lparr>wr_status = status, wr_object_id = co_object_id obj, wr_body_hash = co_body_hash obj,
      wr_kind = co_kind obj, wr_schema_version = co_schema_version obj, wr_cache_path = cache_path,
      wr_ref_name = ref_name, wr_git_object_id = git_object_id,
      wr_bytes_written = of_nat (length object_bytes)\<rparr>"

text \<open>The common tail of the two writers: cache file first, then blob and reference.\<close>

definition store_object ::
    "'g gix \<Rightarrow> rickydata_store \<Rightarrow> canonical_object \<Rightarrow> bytes \<Rightarrow> ('g world, git_error, object_write_report) eff" where
  "store_object G store obj object_bytes =
     e_bind (e_lift (object_cache_path (st_git_dir store) (co_object_id obj))) (\<lambda>cache_path.
     e_bind (on_fs (write_object_cache_bytes (st_temp_dir store) cache_path (co_object_id obj) object_bytes)) (\<lambda>status.
     e_bind (e_lift (object_ref_name (co_object_id obj))) (\<lambda>ref_name.
     e_bind (on_git (write_git_object_ref G (co_object_id obj) ref_name object_bytes)) (\<lambda>git_object_id.
       e_ret (write_report status obj cache_path ref_name git_object_id object_bytes)))))"

definition write_cached_object ::
    "'g gix \<Rightarrow> lib \<Rightarrow> path \<Rightarrow> str \<Rightarrow> json \<Rightarrow> ('g world, git_error, object_write_report) eff" where
  "write_cached_object G L p kind body =
     e_bind (open_initialized_store G p) (\<lambda>store.
     e_bind (e_lift (map_err (\<lambda>e. ObjectIo (core_error_text e))
               (canonical_object_new L kind DEFAULT_SCHEMA_VERSION 0 (canonical_json body)))) (\<lambda>obj.
     e_bind (e_lift (canonical_object_bytes L obj)) (\<lambda>object_bytes.
       store_object G store obj object_bytes)))"

definition write_canonical_object ::
    "'g gix \<Rightarrow> lib \<Rightarrow> path \<Rightarrow> canonical_object \<Rightarrow> ('g world, git_error, object_write_report) eff" where
  "write_canonical_object G L p obj =
     e_bind (open_initialized_store G p) (\<lambda>store.
     e_bind (e_lift (object_field_diagnostics L (co_object_id obj) obj)) (\<lambda>(_, diagnostics).
       if diagnostics \<noteq> []
       then e_fail (ObjectIo (''canonical object '' @ co_object_id obj @ '' failed validation: '' @
              join_with ''; '' (map (\<lambda>d. od_code d @ '': '' @ od_message d) diagnostics)))
       else
     e_bind (e_lift (canonical_object_bytes L obj)) (\<lambda>object_bytes.
       store_object G store obj object_bytes)))"

section \<open>Reading\<close>

definition read_git_object_ref :: "'g gix \<Rightarrow> 'g \<Rightarrow> str \<Rightarrow> git_error + bytes option" where
  "read_git_object_ref G g ref_name =
     r_bind (map_err ObjectGitRead (find_reference G g ref_name)) (\<lambda>reference. case reference of
       None \<Rightarrow> Inr None
     | Some i \<Rightarrow> r_bind (map_err ObjectGitRead (find_blob G g i)) (\<lambda>b. Inr (Some b)))"

definition read_object_from_cache_or_ref ::
    "'g gix \<Rightarrow> lib \<Rightarrow> rickydata_store \<Rightarrow> path \<Rightarrow> str \<Rightarrow>
     ('g world, git_error, object_read_source \<times> canonical_object) eff" where
  "read_object_from_cache_or_ref G L store cache_path object_id w =
     (if exists_at (w_fs w) cache_path
      then e_bind (on_fs (read_object_file L cache_path)) (\<lambda>obj. e_ret (Cache, obj)) w
      else
       e_bind (e_lift (object_ref_name object_id)) (\<lambda>ref_name.
       e_bind (e_gets (\<lambda>w. read_git_object_ref G (w_git w) ref_name)) (\<lambda>blob. case blob of
         None \<Rightarrow> e_fail (ObjectNotFound cache_path)
       | Some b \<Rightarrow>
         e_bind (e_lift (read_object_bytes L b)) (\<lambda>obj.
         e_bind (e_lift (object_field_diagnostics L object_id obj)) (\<lambda>(_, diagnostics).
           if diagnostics \<noteq> []
           then e_fail (ObjectGitRead (''ref-backed object '' @ ref_name @ '' does not match requested '' @
                  object_id @ '': '' @ join_with '','' (map od_code diagnostics)))
           else
         e_bind (on_fs (write_object_cache_bytes (st_temp_dir store) cache_path object_id b)) (\<lambda>_.
           e_ret (GitRef, obj)))))) w)"

definition read_cached_object ::
    "'g gix \<Rightarrow> lib \<Rightarrow> path \<Rightarrow> str \<Rightarrow> ('g world, git_error, object_read_report) eff" where
  "read_cached_object G L p object_id =
     e_bind (open_initialized_store G p) (\<lambda>store.
     e_bind (e_lift (object_cache_path (st_git_dir store) object_id)) (\<lambda>cache_path.
     e_bind (read_object_from_cache_or_ref G L store cache_path object_id) (\<lambda>(source, obj).
       e_ret \<lparr>rr_object_id = object_id, rr_cache_path = cache_path, rr_source = source, rr_object = obj\<rparr>)))"

definition list_entry :: "'g gix \<Rightarrow> lib \<Rightarrow> 'g \<Rightarrow> str + str \<times> str \<Rightarrow> git_error + object_list_entry" where
  "list_entry G L g reference =
     r_bind (map_err ObjectGitRead reference) (\<lambda>(ref_name, i).
     r_bind (map_err ObjectGitRead (find_blob G g i)) (\<lambda>b.
     r_bind (read_object_bytes L b) (\<lambda>obj.
       Inr \<lparr>le_object_id = co_object_id obj, le_kind = co_kind obj, le_body_hash = co_body_hash obj,
            le_ref_name = ref_name, le_git_object_id = i\<rparr>)))"

definition list_ref_backed_objects ::
    "'g gix \<Rightarrow> lib \<Rightarrow> path \<Rightarrow> str option \<Rightarrow> ('g world, git_error, object_list_entry list) eff" where
  "list_ref_backed_objects G L p kind =
     e_bind (open_initialized_store G p) (\<lambda>_.
     e_bind (e_gets (\<lambda>w.
       r_bind (map_err ObjectGitRead (references_prefixed G (w_git w) ''refs/rickydata/objects/sha256/'')) (\<lambda>refs.
         r_collect (list_entry G L (w_git w)) refs))) (\<lambda>entries.
       e_ret (sort_key le_object_id
         (filter (\<lambda>e. case kind of None \<Rightarrow> True | Some k \<Rightarrow> le_kind e = k) entries))))"

section \<open>Verifying\<close>

definition append_ref_consistency_diagnostics ::
    "'g gix \<Rightarrow> lib \<Rightarrow> 'g \<Rightarrow> str \<Rightarrow> canonical_object \<Rightarrow> git_error + object_diagnostic list" where
  "append_ref_consistency_diagnostics G L g object_id obj =
     r_bind (object_ref_name object_id) (\<lambda>ref_name.
     r_bind (read_git_object_ref G g ref_name) (\<lambda>blob. case blob of
       None \<Rightarrow> Inr []
     | Some ref_bytes \<Rightarrow>
         r_bind (canonical_object_bytes L obj) (\<lambda>object_bytes.
           Inr (if ref_bytes \<noteq> object_bytes
                then [\<lparr>od_code = ''OBJECT006'',
                       od_message = ''ref-backed object bytes do not match the local cached object''\<rparr>]
                else []))))"

text \<open>The loop over the signatures: the number of valid ones and the diagnostics of the others.\<close>

fun append_signature_diagnostics ::
    "lib \<Rightarrow> canonical_object \<Rightarrow> nat \<Rightarrow> actor_signature list \<Rightarrow> 32 word \<times> object_diagnostic list" where
  "append_signature_diagnostics L obj i [] = (0, [])"
| "append_signature_diagnostics L obj i (s # ss) =
     (case append_signature_diagnostics L obj (Suc i) ss of (n, ds) \<Rightarrow>
       if sig_algorithm s \<noteq> SIGNATURE_ALGORITHM_ED25519
       then (n, \<lparr>od_code = ''OBJECT009'', od_message = ''signature['' @ show_nat i @
               ''] uses unknown algorithm `'' @ sig_algorithm s @ ''`''\<rparr> # ds)
       else (case verify_signature L (co_kind obj) (co_schema_version obj) (co_body obj) s of
           Inr True \<Rightarrow> (n + 1, ds)
         | Inr False \<Rightarrow> (n, \<lparr>od_code = ''OBJECT008'', od_message = ''signature['' @ show_nat i @
               ''] from public_key '' @ sig_public_key s @ '' did not verify against canonical body''\<rparr> # ds)
         | Inl e \<Rightarrow> (n, \<lparr>od_code = ''OBJECT008'', od_message = ''signature['' @ show_nat i @
               ''] verification failed: '' @ core_error_text e\<rparr> # ds)))"

definition is_signature_warning :: "str \<Rightarrow> bool" where
  "is_signature_warning code \<longleftrightarrow> code = ''OBJECT008'' \<or> code = ''OBJECT009''"

definition verify_object_fields ::
    "lib \<Rightarrow> str \<Rightarrow> path \<Rightarrow> object_read_source \<Rightarrow> canonical_object \<Rightarrow> object_diagnostic list \<Rightarrow>
     git_error + object_verify_report" where
  "verify_object_fields L object_id cache_path source obj diagnostics =
     r_bind (object_field_diagnostics L object_id obj) (\<lambda>((computed_id, body_hash), field_ds).
       (case append_signature_diagnostics L obj 0 (co_signatures obj) of (valid_count, sig_ds) \<Rightarrow>
        let all_ds = diagnostics @ field_ds @ sig_ds in
        Inr \<lparr>vr_object_id = object_id, vr_cache_path = cache_path, vr_source = source,
             vr_valid = (\<not> list_ex (\<lambda>d. \<not> is_signature_warning (od_code d)) all_ds),
             vr_diagnostics = all_ds, vr_computed_object_id = Some computed_id,
             vr_computed_body_hash = Some body_hash,
             vr_signature_count = of_nat (length (co_signatures obj)),
             vr_valid_signature_count = valid_count\<rparr>))"

definition failed_verification ::
    "str \<Rightarrow> path \<Rightarrow> object_read_source \<Rightarrow> str \<Rightarrow> str \<Rightarrow> object_verify_report" where
  "failed_verification object_id cache_path source code message =
     \<lparr>vr_object_id = object_id, vr_cache_path = cache_path, vr_source = source, vr_valid = False,
      vr_diagnostics = [\<lparr>od_code = code, od_message = message\<rparr>], vr_computed_object_id = None,
      vr_computed_body_hash = None, vr_signature_count = 0, vr_valid_signature_count = 0\<rparr>"

definition verify_uncached ::
    "'g gix \<Rightarrow> lib \<Rightarrow> rickydata_store \<Rightarrow> path \<Rightarrow> str \<Rightarrow> ('g world, git_error, object_verify_report) eff" where
  "verify_uncached G L store cache_path object_id w =
     (case read_object_from_cache_or_ref G L store cache_path object_id w of
        (Inr (source, obj), w') \<Rightarrow> (verify_object_fields L object_id cache_path source obj [], w')
      | (Inl (ObjectNotFound _), w') \<Rightarrow> (Inr (failed_verification object_id cache_path Cache ''OBJECT001''
            ''cached object file and ref-backed object are missing''), w')
      | (Inl e, w') \<Rightarrow> (Inr (failed_verification object_id cache_path GitRef ''OBJECT007''
            (git_error_text L e)), w'))"

definition verify_cached ::
    "'g gix \<Rightarrow> lib \<Rightarrow> path \<Rightarrow> str \<Rightarrow> ('g world, git_error, object_verify_report) eff" where
  "verify_cached G L cache_path object_id w =
     (case on_fs (read_object_file L cache_path) w of
        (Inl e, w') \<Rightarrow> (Inr (failed_verification object_id cache_path Cache ''OBJECT002''
            (git_error_text L e)), w')
      | (Inr obj, w') \<Rightarrow>
          (r_bind (append_ref_consistency_diagnostics G L (w_git w') object_id obj)
             (verify_object_fields L object_id cache_path Cache obj), w'))"

definition verify_cached_object ::
    "'g gix \<Rightarrow> lib \<Rightarrow> path \<Rightarrow> str \<Rightarrow> ('g world, git_error, object_verify_report) eff" where
  "verify_cached_object G L p object_id =
     e_bind (open_initialized_store G p) (\<lambda>store.
     e_bind (e_lift (object_cache_path (st_git_dir store) object_id)) (\<lambda>cache_path w.
       if \<not> exists_at (w_fs w) cache_path then verify_uncached G L store cache_path object_id w
       else verify_cached G L cache_path object_id w))"

end
