(* ===== verification/Git_Props.thy ===== *)
theory Git_Props
  imports Git_Store
begin

text \<open>
  What the object store guarantees: a written object is read back, from the cache or, when the cache
  is lost, from the reference; writing is idempotent and never replaces bytes; a cache file is always a
  complete, content-addressed object, whatever fails; verification is exact.
\<close>

section \<open>Paths of the store\<close>

definition cache_path_of :: "path \<Rightarrow> str \<Rightarrow> path" where
  "cache_path_of gd hex = gd @ [''rickydata'', ''cache'', ''objects'', ''sha256'', take 2 hex, hex @ ''.json'']"

definition temp_path_of :: "path \<Rightarrow> str \<Rightarrow> path" where
  "temp_path_of gd i = temp_dir_of gd @ [replace_char CHR '':'' CHR ''-'' i @ ''.tmp'']"

lemmas path_defs = cache_path_of_def temp_path_of_def temp_dir_of_def version_file_of_def metadata_dir_of_def

lemma cache_path_of_inj [simp]: "cache_path_of gd h = cache_path_of gd h' \<longleftrightarrow> h = h'"
  by (auto simp: cache_path_of_def)

lemma store_paths_distinct [simp]:
  "temp_path_of gd i \<noteq> cache_path_of gd h" "cache_path_of gd h \<noteq> temp_path_of gd i"
  "version_file_of gd \<noteq> cache_path_of gd h" "cache_path_of gd h \<noteq> version_file_of gd"
  "version_file_of gd \<noteq> temp_path_of gd i" "temp_path_of gd i \<noteq> version_file_of gd"
  "temp_dir_of gd \<noteq> cache_path_of gd h" "temp_dir_of gd \<noteq> temp_path_of gd i"
  "cache_path_of gd h \<noteq> temp_dir_of gd" "temp_path_of gd i \<noteq> temp_dir_of gd"
  "cache_path_of gd h \<noteq> []" "version_file_of gd \<noteq> []" "temp_dir_of gd \<noteq> []" "temp_path_of gd i \<noteq> []"
  by (simp_all add: path_defs)

lemma object_cache_path_iff [simp]:
  "object_cache_path gd i = Inr cp \<longleftrightarrow> (\<exists>h. object_hex i = Inr h \<and> cp = cache_path_of gd h)"
  by (auto simp: object_cache_path_def cache_path_of_def r_bind_Inr_iff)

lemma object_ref_name_iff:
  "object_ref_name i = Inr r \<longleftrightarrow>
     (\<exists>h. object_hex i = Inr h \<and> r = ''refs/rickydata/objects/sha256/'' @ take 2 h @ ''/'' @ h)"
  by (auto simp: object_ref_name_def r_bind_Inr_iff)

text \<open>An object hash is 64 lower-case digits, and a fixed point of the normalisation.\<close>

lemma to_lower_hexdigit: "is_ascii_hexdigit c \<Longrightarrow> to_ascii_lower_char c \<in> set hex_alphabet"
proof -
  have "list_all (\<lambda>c. to_ascii_lower_char c \<in> set hex_alphabet) ''0123456789abcdefABCDEF''"
    by code_simp
  then show "is_ascii_hexdigit c \<Longrightarrow> to_ascii_lower_char c \<in> set hex_alphabet"
    unfolding is_ascii_hexdigit_def list_all_iff by blast
qed

lemma to_lower_hex_alphabet: "c \<in> set hex_alphabet \<Longrightarrow> is_ascii_hexdigit c \<and> to_ascii_lower_char c = c"
  by (auto simp: is_ascii_hexdigit_def to_ascii_lower_char_def is_ascii_uppercase_def hex_alphabet_def)

lemma object_hexD:
  assumes "object_hex i = Inr h"
  shows "length h = 64" "set h \<subseteq> set hex_alphabet" "object_hex (''sha256:'' @ h) = Inr h"
proof -
  from assms obtain x where x: "strip_prefix ''sha256:'' i = Some x" "length x = 64" "list_all is_ascii_hexdigit x"
    "h = to_ascii_lowercase x"
    by (auto simp: object_hex_def split: option.splits if_splits)
  then show l: "length h = 64" and s: "set h \<subseteq> set hex_alphabet"
    using to_lower_hexdigit by (auto simp: to_ascii_lowercase_def list_all_iff)
  have "map to_ascii_lower_char h = h"
    using s to_lower_hex_alphabet by (intro map_idI) blast
  moreover have "list_all is_ascii_hexdigit h" using s to_lower_hex_alphabet by (auto simp: list_all_iff)
  moreover have "strip_prefix ''sha256:'' (''sha256:'' @ h) = Some h" by (rule strip_prefix_append)
  ultimately show "object_hex (''sha256:'' @ h) = Inr h"
    using l by (simp add: object_hex_def to_ascii_lowercase_def del: append.simps)
qed

lemma object_id_ok_hex: "object_id_ok i \<Longrightarrow> \<exists>h. object_hex i = Inr h \<and> i = ''sha256:'' @ h"
proof -
  assume "object_id_ok i"
  then obtain h where h: "i = ''sha256:'' @ h" "length h = 64" "set h \<subseteq> set hex_alphabet"
    by (auto simp: object_id_ok_def)
  then have "map to_ascii_lower_char h = h" "list_all is_ascii_hexdigit h"
    using to_lower_hex_alphabet by (auto simp: list_all_iff intro!: map_idI)
  moreover have "strip_prefix ''sha256:'' (''sha256:'' @ h) = Some h" by (rule strip_prefix_append)
  ultimately show ?thesis
    using h by (simp add: object_hex_def to_ascii_lowercase_def del: append.simps)
qed

section \<open>The effects of the steps\<close>

lemma discover_repo_eff:
  "discover_repo G p w = (r, w') \<longleftrightarrow> w' = w \<and> r = fst (discover_repo G p w)"
  by (auto simp: discover_repo_def)

lemma discover_repo_Inr: "discover_repo G p w = (Inr (gd, wd), w') \<longleftrightarrow> discover G (w_git w) p = Inr (gd, wd) \<and> w' = w"
  by (auto simp: discover_repo_def split: sum.splits if_splits)

lemma ensure_version_matches_eff:
  "ensure_version_matches p s = (r, s') \<Longrightarrow> tree s' = tree s \<and>
     (r = Inr () \<longrightarrow> (\<exists>b t. tree s p = Some (File b) \<and> from_utf8 b = Some t \<and> trim t = RICKYDATA_STORE_VERSION))"
proof -
  assume run: "ensure_version_matches p s = (r, s')"
  obtain r1 s1 where rd: "fs_read p s = (r1, s1)" by (rule prod.exhaust)
  show ?thesis
  proof (cases r1)
    case (Inl e)
    with run rd fs_read_tree [OF rd] show ?thesis
      by (auto simp: ensure_version_matches_def fs_read_to_string_def eff_simps)
  next
    case (Inr b)
    with rd have "tree s p = Some (File b)" by (auto dest: fs_read_value)
    with run rd Inr fs_read_tree [OF rd] show ?thesis
      by (cases "from_utf8 b")
        (auto simp: ensure_version_matches_def fs_read_to_string_def eff_simps split: if_splits)
  qed
qed

text \<open>A store that is ready for use, at a Git directory.\<close>

definition store_ready :: "'g gix \<Rightarrow> path \<Rightarrow> path \<Rightarrow> 'g world \<Rightarrow> bool" where
  "store_ready G p gd w \<longleftrightarrow>
     (\<exists>wd. discover G (w_git w) p = Inr (gd, wd)) \<and>
     (\<exists>b t. tree (w_fs w) (version_file_of gd) = Some (File b) \<and> from_utf8 b = Some t \<and> trim t = RICKYDATA_STORE_VERSION) \<and>
     tree (w_fs w) (temp_dir_of gd) \<noteq> None"

lemma open_store_eff:
  assumes "open_initialized_store G p w = (r, w')"
  shows "tree (w_fs w') = tree (w_fs w) \<and> w_git w' = w_git w"
    and "r = Inr st \<Longrightarrow> \<exists>gd. store_ready G p gd w \<and> st = \<lparr>st_git_dir = gd, st_temp_dir = temp_dir_of gd\<rparr>"
  using assms
  by (auto simp: open_initialized_store_def eff_simps on_fs_def discover_repo_def store_ready_def exists_at_def
      split: prod.splits sum.splits if_splits dest!: ensure_version_matches_eff)

lemma open_store_ready:
  assumes "store_ready G p gd w" "faults (w_fs w) = []"
  shows "open_initialized_store G p w = (Inr \<lparr>st_git_dir = gd, st_temp_dir = temp_dir_of gd\<rparr>, w)"
proof -
  obtain wd b t where *: "discover G (w_git w) p = Inr (gd, wd)" "tree (w_fs w) (version_file_of gd) = Some (File b)"
    "from_utf8 b = Some t" "trim t = RICKYDATA_STORE_VERSION" "tree (w_fs w) (temp_dir_of gd) \<noteq> None"
    using assms(1) by (auto simp: store_ready_def)
  then have "ensure_version_matches (version_file_of gd) (w_fs w) = (Inr (), w_fs w)"
    using assms(2) by (simp add: ensure_version_matches_def fs_read_to_string_def eff_simps fs_simps lookup_file_def)
  with * show ?thesis
    by (simp add: open_initialized_store_def eff_simps on_fs_def discover_repo_def exists_at_def)
qed

lemma calm_step:
  "faults s = [] \<Longrightarrow> fs_rename q q' s = (r, s') \<Longrightarrow> faults s' = []"
  "faults s = [] \<Longrightarrow> fs_write q b s = (r, s') \<Longrightarrow> faults s' = []"
  "faults s = [] \<Longrightarrow> fs_read q s = (r', s') \<Longrightarrow> faults s' = []"
  "faults s = [] \<Longrightarrow> fs_create_dir_all q s = (r, s') \<Longrightarrow> faults s' = []"
  by (auto simp: fs_rename_def put_file_def fs_simps split: sum.splits if_splits dest!: make_dirs_tree)

lemma cache_path_not_above: "cache_path_of gd h \<notin> set (ancestors_of (butlast (cache_path_of gd h)))"
proof
  assume "cache_path_of gd h \<in> set (ancestors_of (butlast (cache_path_of gd h)))"
  then obtain r where "butlast (cache_path_of gd h) = cache_path_of gd h @ r" by (auto simp: in_ancestors_of)
  then have "length (butlast (cache_path_of gd h)) = length (cache_path_of gd h @ r)" by (rule arg_cong)
  then show False by (simp add: cache_path_of_def)
qed

text \<open>The cache file of an object: written whole or not at all, never replaced.\<close>

lemma write_cache_eff:
  assumes "write_object_cache_bytes (temp_dir_of gd) (cache_path_of gd h) i b s = (r, s')"
  shows "tree s' (cache_path_of gd h) = tree s (cache_path_of gd h) \<or>
      (r = Inr Written \<and> tree s (cache_path_of gd h) = None \<and> tree s' (cache_path_of gd h) = Some (File b))"
    and "q \<noteq> cache_path_of gd h \<Longrightarrow> q \<noteq> temp_path_of gd i \<Longrightarrow>
      tree s' q = tree s q \<or> (tree s q = None \<and> tree s' q = Some Dir)"
    and "r = Inr st \<Longrightarrow> tree s' (cache_path_of gd h) = Some (File b)"
    and "faults s = [] \<Longrightarrow> faults s' = []"
proof -
  let ?cp = "cache_path_of gd h" and ?tp = "temp_path_of gd i"
  obtain r1 s1 where cd: "fs_create_dir_all (butlast ?cp) s = (r1, s1)" by (rule prod.exhaust)
  have t1: "tree s1 q = tree s q \<or> (q \<in> set (ancestors_of (butlast ?cp)) \<and> tree s q = None \<and> tree s1 q = Some Dir)" for q
    by (rule fs_create_dir_all_tree(1) [OF cd])
  have "?cp \<notin> set (ancestors_of (butlast ?cp))" by (rule cache_path_not_above)
  with t1 have cp1: "tree s1 ?cp = tree s ?cp" by blast
  have all: "(tree s' ?cp = tree s ?cp \<or> (r = Inr Written \<and> tree s ?cp = None \<and> tree s' ?cp = Some (File b))) \<and>
    (\<forall>q. q \<noteq> ?cp \<longrightarrow> q \<noteq> ?tp \<longrightarrow> tree s' q = tree s1 q) \<and>
    (\<forall>st. r = Inr st \<longrightarrow> tree s' ?cp = Some (File b)) \<and> (faults s = [] \<longrightarrow> faults s' = [])"
  proof (cases r1)
    case (Inl e)
    with assms cd cp1 calm_step(4) [OF _ cd] show ?thesis
      by (auto simp: write_object_cache_bytes_def eff_simps)
  next
    case (Inr u)
    show ?thesis
    proof (cases "exists_at s1 ?cp")
      case True
      obtain r2 s2 where rd: "fs_read ?cp s1 = (r2, s2)" by (rule prod.exhaust)
      have "s' = s2" "r = Inr st \<Longrightarrow> r2 = Inr b \<and> st = AlreadyExists" for st
        using assms cd Inr True rd
        by (auto simp: write_object_cache_bytes_def eff_simps split: sum.splits if_splits)
      moreover have "r2 = Inr b \<Longrightarrow> tree s2 ?cp = Some (File b)"
        using rd fs_read_tree [OF rd] by (auto dest: fs_read_value)
      ultimately show ?thesis
        using cp1 calm_step(4) [OF _ cd] calm_step(3) [OF _ rd] fs_read_tree [OF rd] by auto
    next
      case False
      then have none: "tree s1 ?cp = None" by (simp add: exists_at_def)
      obtain r2 s2 where wr: "fs_write ?tp b s1 = (r2, s2)" by (rule prod.exhaust)
      from wr have t2: "\<forall>q. q \<noteq> ?tp \<longrightarrow> tree s2 q = tree s1 q" "r2 = Inr () \<Longrightarrow> tree s2 ?tp = Some (File b)"
        by (cases rule: fs_write_tree; simp)+
      show ?thesis
      proof (cases r2)
        case (Inl e)
        with assms cd Inr False wr have "s' = s2" "r = Inl (ObjectIo e)"
          by (simp_all add: write_object_cache_bytes_def eff_simps Let_def temp_path_of_def)
        with t2 cp1 calm_step(4) [OF _ cd] calm_step(2) [OF _ wr] show ?thesis by auto
      next
        case r2: (Inr u2)
        obtain r3 s3 where mv: "fs_rename ?tp ?cp s2 = (r3, s3)" by (rule prod.exhaust)
        have s': "s' = s3" "r = (case r3 of Inl e \<Rightarrow> Inl (ObjectIo e) | Inr _ \<Rightarrow> Inr Written)"
          using assms cd Inr False wr r2 mv
          by (auto simp: write_object_cache_bytes_def eff_simps Let_def temp_path_of_def split: sum.splits)
        have f: "faults s = [] \<longrightarrow> faults s3 = []"
          using calm_step(4) [OF _ cd] calm_step(2) [OF _ wr] calm_step(1) [OF _ mv] by blast
        from mv store_paths_distinct(1) show ?thesis
        proof (cases rule: fs_rename_tree)
          case same
          then obtain e where "r3 = Inl e" by (cases r3) auto
          with same s' f t2 cp1 show ?thesis by simp
        next
          case (moved b')
          with t2 r2 have "b' = b" by simp
          with moved s' f t2 cp1 none show ?thesis by simp
        qed
      qed
    qed
  qed
  then show "tree s' ?cp = tree s ?cp \<or> (r = Inr Written \<and> tree s ?cp = None \<and> tree s' ?cp = Some (File b))"
    and "r = Inr st \<Longrightarrow> tree s' ?cp = Some (File b)" and "faults s = [] \<Longrightarrow> faults s' = []"
    by blast+
  show "q \<noteq> ?cp \<Longrightarrow> q \<noteq> ?tp \<Longrightarrow> tree s' q = tree s q \<or> (tree s q = None \<and> tree s' q = Some Dir)"
    using all t1 [of q] by auto
qed

lemma store_status:
  assumes "write_object_cache_bytes (temp_dir_of gd) (cache_path_of gd h) i b s = (Inr st, s')"
  shows "st = (if tree s (cache_path_of gd h) = None then Written else AlreadyExists)"
proof -
  let ?cp = "cache_path_of gd h"
  obtain r1 s1 where cd: "fs_create_dir_all (butlast ?cp) s = (r1, s1)" by (rule prod.exhaust)
  have "?cp \<notin> set (ancestors_of (butlast ?cp))" by (rule cache_path_not_above)
  then have t1: "tree s1 ?cp = tree s ?cp" using fs_create_dir_all_tree(1) [OF cd, of ?cp] by blast
  have "st = (if exists_at s1 ?cp then AlreadyExists else Written)"
    using assms cd
    by (auto simp: write_object_cache_bytes_def eff_simps Let_def split: sum.splits prod.splits if_splits)
  then show ?thesis using t1 by (simp add: exists_at_def)
qed

text \<open>The blob and the reference of an object.\<close>

lemma gix_write_blob:
  assumes "gix_laws G" "write_blob G b g = (r, g')"
  shows "find_reference G g' = find_reference G g" "discover G g' = discover G g"
    and "find_blob G g i = Inr c \<Longrightarrow> find_blob G g' i = Inr c" and "r = Inr i \<Longrightarrow> find_blob G g' i = Inr b"
  using assms unfolding gix_laws_def by metis+

lemma gix_set_reference:
  assumes "gix_laws G" "set_reference G n i p m g = (r, g')"
  shows "find_blob G g' = find_blob G g" "discover G g' = discover G g"
    and "r = Inl e \<Longrightarrow> find_reference G g' = find_reference G g"
    and "r = Inr u \<Longrightarrow> find_reference G g' = (find_reference G g)(n := Inr (Some i))"
    and "r = Inr u \<Longrightarrow> p = MustNotExist \<Longrightarrow> find_reference G g n = Inr None"
    and "r = Inr u \<Longrightarrow> p = MustExistAndMatch q \<Longrightarrow> find_reference G g n = Inr (Some q)"
proof -
  have *: "find_blob G g' = find_blob G g \<and> discover G g' = discover G g \<and>
        (case r of
           Inl _ \<Rightarrow> find_reference G g' = find_reference G g
         | Inr _ \<Rightarrow> find_reference G g' = (find_reference G g)(n := Inr (Some i)) \<and>
             (case p of MustNotExist \<Rightarrow> find_reference G g n = Inr None
              | MustExistAndMatch q \<Rightarrow> find_reference G g n = Inr (Some q)))"
    using assms unfolding gix_laws_def by blast
  then show "find_blob G g' = find_blob G g" "discover G g' = discover G g" by simp_all
  show "r = Inl e \<Longrightarrow> find_reference G g' = find_reference G g"
    "r = Inr u \<Longrightarrow> find_reference G g' = (find_reference G g)(n := Inr (Some i))"
    "r = Inr u \<Longrightarrow> p = MustNotExist \<Longrightarrow> find_reference G g n = Inr None"
    "r = Inr u \<Longrightarrow> p = MustExistAndMatch q \<Longrightarrow> find_reference G g n = Inr (Some q)"
    using * by simp_all
qed

lemma gix_blob_id:
  assumes "gix_laws G" "write_blob G b g = (Inr i, g1)" "write_blob G b g' = (Inr j, g2)"
  shows "i = j"
  using assms unfolding gix_laws_def by metis

lemma write_ref_eff:
  assumes "gix_laws G" "write_git_object_ref G i n b g = (r, g')"
  shows "discover G g' = discover G g"
    and "q \<noteq> n \<Longrightarrow> find_reference G g' q = find_reference G g q"
    and "find_blob G g j = Inr c \<Longrightarrow> find_blob G g' j = Inr c"
    and "r = Inr k \<Longrightarrow> find_reference G g' n = Inr (Some k) \<and> find_blob G g' k = Inr b"
    and "find_reference G g n = Inr (Some k) \<Longrightarrow> find_reference G g' n = Inr (Some k)"
proof -
  obtain r1 g1 where w: "write_blob G b g = (r1, g1)" by (rule prod.exhaust)
  note b = gix_write_blob [OF assms(1) w]
  have all: "discover G g' = discover G g \<and> (\<forall>q. q \<noteq> n \<longrightarrow> find_reference G g' q = find_reference G g q) \<and>
    (\<forall>j c. find_blob G g j = Inr c \<longrightarrow> find_blob G g' j = Inr c) \<and>
    (\<forall>k. r = Inr k \<longrightarrow> find_reference G g' n = Inr (Some k) \<and> find_blob G g' k = Inr b) \<and>
    (\<forall>k. find_reference G g n = Inr (Some k) \<longrightarrow> find_reference G g' n = Inr (Some k))"
  proof (cases r1)
    case (Inl e)
    with assms(2) w have "r = Inl (ObjectGitWrite e)" "g' = g1"
      by (simp_all add: write_git_object_ref_def eff_simps)
    with b show ?thesis by simp
  next
    case (Inr oid)
    show ?thesis
    proof (cases "find_reference G g1 n")
      case (Inl e)
      with assms(2) w Inr have "r = Inl (ObjectGitWrite e)" "g' = g1"
        by (simp_all add: write_git_object_ref_def eff_simps)
      with b show ?thesis by simp
    next
      case ref: (Inr x)
      show ?thesis
      proof (cases x)
        case (Some k)
        with assms(2) w Inr ref have "g' = g1" "r = Inr j \<Longrightarrow> j = oid \<and> k = oid" for j
          by (auto simp: write_git_object_ref_def eff_simps split: if_splits)
        with b Inr ref Some show ?thesis by auto
      next
        case None
        obtain r2 g2 where sr: "set_reference G n oid MustNotExist (''rickygit object '' @ i) g1 = (r2, g2)"
          by (rule prod.exhaust)
        note sp = gix_set_reference [OF assms(1) sr]
        have g': "g' = g2" and r: "r = (case r2 of Inl e \<Rightarrow> Inl (ObjectGitWrite e) | Inr _ \<Rightarrow> Inr oid)"
          using assms(2) w Inr ref None sr by (auto simp: write_git_object_ref_def eff_simps split: sum.splits)
        show ?thesis
        proof (cases r2)
          case (Inl e)
          with sp(1-3) b g' r show ?thesis by simp
        next
          case r2: (Inr u)
          have k: "find_reference G g n = Inr None" using ref None b(1) by simp
          with sp(1,2) sp(4) [OF r2] b Inr g' r r2 show ?thesis by simp
        qed
      qed
    qed
  qed
  then show "discover G g' = discover G g"
    and "q \<noteq> n \<Longrightarrow> find_reference G g' q = find_reference G g q"
    and "find_blob G g j = Inr c \<Longrightarrow> find_blob G g' j = Inr c"
    and "r = Inr k \<Longrightarrow> find_reference G g' n = Inr (Some k) \<and> find_blob G g' k = Inr b"
    and "find_reference G g n = Inr (Some k) \<Longrightarrow> find_reference G g' n = Inr (Some k)"
    by blast+
qed

definition ref_name_of :: "str \<Rightarrow> str" where
  "ref_name_of h = ''refs/rickydata/objects/sha256/'' @ take 2 h @ ''/'' @ h"

lemma object_ref_name_Inr: "object_hex i = Inr h \<Longrightarrow> object_ref_name i = Inr (ref_name_of h)"
  by (simp add: object_ref_name_def ref_name_of_def)

lemma object_cache_path_Inr: "object_hex i = Inr h \<Longrightarrow> object_cache_path gd i = Inr (cache_path_of gd h)"
  by simp

text \<open>A store operation that succeeded: the file and the reference hold the bytes.\<close>

lemma store_object_eff:
  assumes "gix_laws G"
    and "store_object G \<lparr>st_git_dir = gd, st_temp_dir = temp_dir_of gd\<rparr> obj b w = (Inr rep, w')"
  obtains h where "object_hex (co_object_id obj) = Inr h"
    "tree (w_fs w') (cache_path_of gd h) = Some (File b)"
    "find_reference G (w_git w') (ref_name_of h) = Inr (Some (wr_git_object_id rep))"
    "find_blob G (w_git w') (wr_git_object_id rep) = Inr b"
    "discover G (w_git w') = discover G (w_git w)"
    "faults (w_fs w) = [] \<longrightarrow> faults (w_fs w') = []"
    "\<forall>q. q \<noteq> cache_path_of gd h \<longrightarrow> q \<noteq> temp_path_of gd (co_object_id obj) \<longrightarrow>
       tree (w_fs w') q = tree (w_fs w) q \<or> (tree (w_fs w) q = None \<and> tree (w_fs w') q = Some Dir)"
    "tree (w_fs w) (cache_path_of gd h) = None \<or> tree (w_fs w) (cache_path_of gd h) = Some (File b)"
    "rep = write_report (wr_status rep) obj (cache_path_of gd h) (ref_name_of h) (wr_git_object_id rep) b"
    "wr_status rep = (if tree (w_fs w) (cache_path_of gd h) = None then Written else AlreadyExists)"
proof -
  let ?i = "co_object_id obj"
  from assms(2) obtain h where h: "object_hex ?i = Inr h"
    by (cases "object_hex ?i") (auto simp: store_object_def object_cache_path_def eff_simps)
  obtain r1 s1 where wc: "write_object_cache_bytes (temp_dir_of gd) (cache_path_of gd h) ?i b (w_fs w) = (r1, s1)"
    by (rule prod.exhaust)
  from assms(2) h wc obtain st where st: "r1 = Inr st"
    by (cases r1) (auto simp: store_object_def object_cache_path_Inr eff_simps on_fs_def)
  obtain r2 g2 where wg: "write_git_object_ref G ?i (ref_name_of h) b (w_git w) = (r2, g2)"
    by (rule prod.exhaust)
  from assms(2) h wc st wg obtain oid where oid: "r2 = Inr oid"
    and rep: "rep = write_report st obj (cache_path_of gd h) (ref_name_of h) oid b"
    and w': "w' = w\<lparr>w_fs := s1, w_git := g2\<rparr>"
    by (cases r2) (auto simp: store_object_def object_cache_path_Inr object_ref_name_Inr eff_simps on_fs_def on_git_def)
  note c = write_cache_eff [OF wc]
  note g = write_ref_eff [OF assms(1) wg]
  have g4: "find_reference G g2 (ref_name_of h) = Inr (Some oid) \<and> find_blob G g2 oid = Inr b" by (rule g(4) [OF oid])
  have rp: "wr_git_object_id rep = oid" "wr_status rep = st" using rep by (simp_all add: write_report_def)
  have s: "tree s1 (cache_path_of gd h) = Some (File b)" by (rule c(3) [OF st])
  have old: "tree (w_fs w) (cache_path_of gd h) = None \<or> tree (w_fs w) (cache_path_of gd h) = Some (File b)"
    using c(1) s by auto
  have stat: "st = (if tree (w_fs w) (cache_path_of gd h) = None then Written else AlreadyExists)"
    using store_status [OF wc [unfolded st]] .
  show thesis
    by (rule that [OF h]) (use w' rp g4 s g(1) c(2,4) old rep stat in \<open>simp_all\<close>)
qed

section \<open>Reading back\<close>

text \<open>The fields of an object agree with its body: what \<open>object_field_diagnostics\<close> checks.\<close>

definition fields_ok :: "lib \<Rightarrow> canonical_object \<Rightarrow> bool" where
  "fields_ok L obj \<longleftrightarrow> stable_json_hash L (co_body obj) = Inr (co_body_hash obj) \<and>
     canonical_object_id L (co_kind obj) (co_schema_version obj) (co_body obj) = Inr (co_object_id obj)"

lemma field_diagnostics_clean:
  "object_field_diagnostics L i obj = Inr (x, []) \<longleftrightarrow>
     fields_ok L obj \<and> co_object_id obj = i \<and> x = (co_object_id obj, co_body_hash obj)"
  by (auto simp: object_field_diagnostics_def fields_ok_def r_bind_Inr_iff)

lemma canonical_object_new_fields: "canonical_object_new L k sv t body = Inr obj \<Longrightarrow> fields_ok L obj"
  by (auto simp: fields_ok_def dest: canonical_object_newD)

text \<open>A body \<^verbatim>\<open>serde_json\<close> reads back exactly, leaving room for the object around it.\<close>

definition plain_body :: "json \<Rightarrow> bool" where
  "plain_body v \<longleftrightarrow> json_plain 120 v"

lemma plain_signature: "json_plain (Suc d) (signature_json s)"
  unfolding signature_json_def by (rule json_plain_json_obj) (auto simp: plain_simps)

lemma plain_object_json: "plain_body (co_body obj) \<Longrightarrow> json_plain JSON_DEPTH (object_json obj)"
proof -
  assume b: "plain_body (co_body obj)"
  then have "json_plain 126 (co_body obj)"
    unfolding plain_body_def by (rule json_plain_mono) simp
  moreover have "json_plain 126 (signature_json s)" for s
    using plain_signature [of 125 s] by simp
  moreover have "json_plain 126 (JArray (map signature_json ss))" for ss
  proof -
    have "json_plain (Suc 125) (JArray (map signature_json ss))"
      using plain_signature [of 124] by (simp add: list_all_iff)
    then show ?thesis by simp
  qed
  ultimately have "json_plain (Suc 126) (object_json obj)"
    unfolding object_json_def by (intro json_plain_json_obj) (auto simp: plain_simps)
  then show ?thesis by (simp add: JSON_DEPTH_def)
qed

lemma object_bytes_read:
  assumes "json_codec L" "plain_body (co_body obj)" "canonical_object_bytes L obj = Inr b"
  shows "read_object_bytes L b = Inr obj"
proof -
  have p: "json_plain JSON_DEPTH (object_json obj)" by (rule plain_object_json [OF assms(2)])
  have "to_vec L (object_json obj) = Inr b"
    using assms(3) by (simp add: canonical_object_bytes_def canonical_plain [OF p])
  then have "from_slice L b = Inr (object_json obj)" by (rule from_slice_to_vec [OF assms(1) p])
  then show ?thesis by (simp add: read_object_bytes_def parse_as_def from_value_def)
qed

lemma read_cached_file:
  assumes "store_ready G p gd w" "faults (w_fs w) = []" "object_hex i = Inr h"
    and "tree (w_fs w) (cache_path_of gd h) = Some (File b)" "read_object_bytes L b = Inr obj"
  shows "read_cached_object G L p i w =
    (Inr \<lparr>rr_object_id = i, rr_cache_path = cache_path_of gd h, rr_source = Cache, rr_object = obj\<rparr>, w)"
  using assms open_store_ready [OF assms(1,2)]
  by (simp add: read_cached_object_def object_cache_path_Inr eff_simps on_fs_def fs_simps lookup_file_def
      read_object_from_cache_or_ref_def read_object_file_def exists_at_def)

text \<open>Reading through the reference writes the cache file again.\<close>

lemma read_ref_backed:
  assumes "store_ready G p gd w" "faults (w_fs w) = []" "object_hex i = Inr h"
    and "tree (w_fs w) (cache_path_of gd h) = None" "read_object_bytes L b = Inr obj"
    and "find_reference G (w_git w) (ref_name_of h) = Inr (Some k)" "find_blob G (w_git w) k = Inr b"
    and "fields_ok L obj" "co_object_id obj = i"
    and "write_object_cache_bytes (temp_dir_of gd) (cache_path_of gd h) i b (w_fs w) = (Inr Written, s')"
  shows "read_cached_object G L p i w =
    (Inr \<lparr>rr_object_id = i, rr_cache_path = cache_path_of gd h, rr_source = GitRef, rr_object = obj\<rparr>, w\<lparr>w_fs := s'\<rparr>)"
proof -
  have d: "object_field_diagnostics L i obj = Inr ((co_object_id obj, co_body_hash obj), [])"
    using assms(8,9) by (simp add: field_diagnostics_clean)
  show ?thesis
    using assms open_store_ready [OF assms(1,2)]
    by (simp add: read_cached_object_def object_cache_path_Inr object_ref_name_Inr eff_simps on_fs_def
        read_object_from_cache_or_ref_def exists_at_def read_git_object_ref_def d)
qed

text \<open>Writing into a well-formed store works when nothing fails.\<close>

lemma make_dirs_calm:
  "(\<And>q b. q \<in> set ps \<Longrightarrow> tree s q \<noteq> Some (File b)) \<Longrightarrow> fst (make_dirs ps s) = Inr ()"
proof (induction ps arbitrary: s)
  case (Cons q ps)
  show ?case
  proof (cases "tree s q")
    case None
    have "fst (make_dirs ps (set_node q (Some Dir) s)) = Inr ()"
      by (rule Cons.IH) (use Cons.prems in \<open>auto split: if_splits\<close>)
    with None show ?thesis by simp
  next
    case (Some n)
    with Cons.prems [of q] obtain "n = Dir" by (cases n) auto
    with Some Cons show ?thesis by simp
  qed
qed simp

definition store_dirs_ok :: "path \<Rightarrow> fs \<Rightarrow> bool" where
  "store_dirs_ok gd s \<longleftrightarrow> is_dir_at s (temp_dir_of gd) \<and>
     (\<forall>h q b. q \<in> set (ancestors_of (butlast (cache_path_of gd h))) \<longrightarrow> tree s q \<noteq> Some (File b)) \<and>
     (\<forall>i. tree s (temp_path_of gd i) \<noteq> Some Dir)"

lemma write_cache_succeeds:
  assumes "store_dirs_ok gd s" "faults s = []" "tree s (cache_path_of gd h) = None"
  shows "\<exists>s'. write_object_cache_bytes (temp_dir_of gd) (cache_path_of gd h) i b s = (Inr Written, s')"
proof -
  let ?cp = "cache_path_of gd h" and ?tp = "temp_path_of gd i"
  obtain r1 s1 where md: "make_dirs (ancestors_of (butlast ?cp)) s = (r1, s1)" by (rule prod.exhaust)
  have r1: "r1 = Inr ()"
    using make_dirs_calm [of "ancestors_of (butlast ?cp)" s] assms(1) md by (auto simp: store_dirs_ok_def)
  have t1: "tree s1 q = tree s q \<or> (q \<in> set (ancestors_of (butlast ?cp)) \<and> tree s q = None \<and> tree s1 q = Some Dir)" for q
    using make_dirs_tree [OF md] by blast
  have f1: "faults s1 = []" using make_dirs_tree [OF md] assms(2) by simp
  have cp1: "tree s1 ?cp = None" using t1 [of ?cp] assms(3) cache_path_not_above by metis
  have "butlast ?cp \<in> set (ancestors_of (butlast ?cp))"
    by (rule self_in_ancestors) (simp add: cache_path_of_def butlast_append)
  then have dir1: "tree s1 (butlast ?cp) = Some Dir" using make_dirs_tree [OF md] r1 by simp
  have td1: "is_dir_at s1 (temp_dir_of gd)"
    using t1 [of "temp_dir_of gd"] assms(1) by (auto simp: store_dirs_ok_def is_dir_at_def)
  have "?tp \<notin> set (ancestors_of (butlast ?cp))"
    by (auto simp: in_ancestors_of path_defs butlast_append)
  then have tp1: "tree s1 ?tp \<noteq> Some Dir" using t1 [of ?tp] assms(1) by (auto simp: store_dirs_ok_def)
  have w: "fs_write ?tp b s1 = (Inr (), set_node ?tp (Some (File b)) s1)"
    using f1 tp1 td1 by (simp add: fs_simps put_file_def temp_path_of_def)
  have bl: "?tp \<noteq> butlast ?cp" by (simp add: path_defs butlast_append)
  have m: "fs_rename ?tp ?cp (set_node ?tp (Some (File b)) s1) =
      (Inr (), set_node ?tp None (set_node ?cp (Some (File b)) (set_node ?tp (Some (File b)) s1)))"
    using f1 cp1 dir1 bl by (simp add: fs_rename_def lookup_file_def put_file_def is_dir_at_def)
  show ?thesis
    using md r1 cp1 w m assms(2) 
    by (simp add: write_object_cache_bytes_def eff_simps fs_simps exists_at_def Let_def temp_path_of_def)
qed

text \<open>After a successful write every directory above the cache file is there.\<close>

lemma temp_path_not_above: "temp_path_of gd i \<notin> set (ancestors_of (butlast (cache_path_of gd h)))"
  by (auto simp: in_ancestors_of path_defs butlast_append)

lemma write_cache_dirs:
  assumes "write_object_cache_bytes (temp_dir_of gd) (cache_path_of gd h) i b s = (Inr st, s')"
    and q: "q \<in> set (ancestors_of (butlast (cache_path_of gd h)))"
  shows "tree s' q = Some Dir"
proof -
  let ?cp = "cache_path_of gd h"
  obtain r1 s1 where cd: "fs_create_dir_all (butlast ?cp) s = (r1, s1)" by (rule prod.exhaust)
  have ok: "is_ok r1"
    using assms(1) cd by (cases r1) (auto simp: write_object_cache_bytes_def eff_simps)
  have "tree s1 q = Some Dir" by (rule fs_create_dir_all_tree(2) [OF cd ok q])
  moreover have "q \<noteq> ?cp" "q \<noteq> temp_path_of gd i" using q cache_path_not_above temp_path_not_above by metis+
  moreover obtain s2 where "s2 = s1" by simp
  moreover have "tree s' q = tree s1 q"
  proof (cases "exists_at s1 ?cp")
    case True
    obtain r2 s2 where rd: "fs_read ?cp s1 = (r2, s2)" by (rule prod.exhaust)
    then have "s' = s2"
      using assms(1) cd ok True by (cases r1; cases r2) (auto simp: write_object_cache_bytes_def eff_simps split: if_splits)
    with fs_read_tree [OF rd] show ?thesis by simp
  next
    case False
    obtain r2 s2 where wr: "fs_write (temp_path_of gd i) b s1 = (r2, s2)" by (rule prod.exhaust)
    obtain r3 s3 where mv: "fs_rename (temp_path_of gd i) ?cp s2 = (r3, s3)" by (rule prod.exhaust)
    have "s' = s3"
      using assms(1) cd ok False wr mv
      by (cases r1; cases r2; cases r3) (auto simp: write_object_cache_bytes_def eff_simps Let_def temp_path_of_def)
    moreover have "tree s2 q = tree s1 q"
      using wr \<open>q \<noteq> temp_path_of gd i\<close> by (cases rule: fs_write_tree) auto
    moreover have "tree s3 q = tree s2 q"
      using mv store_paths_distinct(1) \<open>q \<noteq> temp_path_of gd i\<close> \<open>q \<noteq> ?cp\<close> by (cases rule: fs_rename_tree) auto
    ultimately show ?thesis by simp
  qed
  ultimately show ?thesis by simp
qed

text \<open>A write through the public operations, taken apart.\<close>

lemma write_canonical_parts:
  assumes "write_canonical_object G L p obj w = (Inr rep, w')"
  obtains gd b w1 where "store_ready G p gd w" "fields_ok L obj" "canonical_object_bytes L obj = Inr b"
    "tree (w_fs w1) = tree (w_fs w)" "w_git w1 = w_git w" "faults (w_fs w) = [] \<longrightarrow> w1 = w"
    "store_object G \<lparr>st_git_dir = gd, st_temp_dir = temp_dir_of gd\<rparr> obj b w1 = (Inr rep, w')"
proof -
  obtain r1 w1 where op: "open_initialized_store G p w = (r1, w1)" by (rule prod.exhaust)
  with assms obtain st where r1: "r1 = Inr st" by (cases r1) (auto simp: write_canonical_object_def eff_simps)
  note o = open_store_eff [OF op]
  from o(2) [OF r1] obtain gd where gd: "store_ready G p gd w" "st = \<lparr>st_git_dir = gd, st_temp_dir = temp_dir_of gd\<rparr>"
    by blast
  have calm: "faults (w_fs w) = [] \<longrightarrow> w1 = w" using open_store_ready [OF gd(1)] op by auto
  from assms op r1 obtain x where d: "object_field_diagnostics L (co_object_id obj) obj = Inr (x, [])"
    by (cases "object_field_diagnostics L (co_object_id obj) obj")
      (auto simp: write_canonical_object_def eff_simps split: prod.splits if_splits)
  from assms op r1 d obtain b where b: "canonical_object_bytes L obj = Inr b"
    by (cases "canonical_object_bytes L obj") (auto simp: write_canonical_object_def eff_simps)
  from assms op r1 d b gd(2) have st: "store_object G \<lparr>st_git_dir = gd, st_temp_dir = temp_dir_of gd\<rparr> obj b w1 = (Inr rep, w')"
    by (simp add: write_canonical_object_def eff_simps)
  have "fields_ok L obj" using d by (simp add: field_diagnostics_clean)
  with st o(1) show thesis by (intro that [OF gd(1) _ b _ _ calm]) auto
qed

text \<open>The state after a successful write: what reading and verifying need.\<close>

lemma written_object:
  assumes "gix_laws G" "write_canonical_object G L p obj w = (Inr rep, w')"
  obtains gd h b where "object_hex (co_object_id obj) = Inr h" "canonical_object_bytes L obj = Inr b"
    "fields_ok L obj" "store_ready G p gd w" "store_ready G p gd w'"
    "tree (w_fs w') (cache_path_of gd h) = Some (File b)"
    "\<forall>q \<in> set (ancestors_of (butlast (cache_path_of gd h))). tree (w_fs w') q = Some Dir"
    "find_reference G (w_git w') (ref_name_of h) = Inr (Some (wr_git_object_id rep))"
    "find_blob G (w_git w') (wr_git_object_id rep) = Inr b"
    "faults (w_fs w) = [] \<longrightarrow> faults (w_fs w') = []"
    "rep = write_report (wr_status rep) obj (cache_path_of gd h) (ref_name_of h) (wr_git_object_id rep) b"
    "wr_status rep = (if tree (w_fs w) (cache_path_of gd h) = None then Written else AlreadyExists)"
proof -
  obtain gd b w1 where p: "store_ready G p gd w" "fields_ok L obj" "canonical_object_bytes L obj = Inr b"
    "tree (w_fs w1) = tree (w_fs w)" "w_git w1 = w_git w" "faults (w_fs w) = [] \<longrightarrow> w1 = w"
    "store_object G \<lparr>st_git_dir = gd, st_temp_dir = temp_dir_of gd\<rparr> obj b w1 = (Inr rep, w')"
    by (rule write_canonical_parts [OF assms(2)])
  obtain h where h: "object_hex (co_object_id obj) = Inr h"
    "tree (w_fs w') (cache_path_of gd h) = Some (File b)"
    "find_reference G (w_git w') (ref_name_of h) = Inr (Some (wr_git_object_id rep))"
    "find_blob G (w_git w') (wr_git_object_id rep) = Inr b"
    "discover G (w_git w') = discover G (w_git w1)"
    "faults (w_fs w1) = [] \<longrightarrow> faults (w_fs w') = []"
    "\<forall>q. q \<noteq> cache_path_of gd h \<longrightarrow> q \<noteq> temp_path_of gd (co_object_id obj) \<longrightarrow>
       tree (w_fs w') q = tree (w_fs w1) q \<or> (tree (w_fs w1) q = None \<and> tree (w_fs w') q = Some Dir)"
    "tree (w_fs w1) (cache_path_of gd h) = None \<or> tree (w_fs w1) (cache_path_of gd h) = Some (File b)"
    "rep = write_report (wr_status rep) obj (cache_path_of gd h) (ref_name_of h) (wr_git_object_id rep) b"
    "wr_status rep = (if tree (w_fs w1) (cache_path_of gd h) = None then Written else AlreadyExists)"
    by (rule store_object_eff [OF assms(1) p(7)])
  have ready: "store_ready G p gd w'"
    using p(1,4,5) h(5) h(7) [rule_format, of "version_file_of gd"] h(7) [rule_format, of "temp_dir_of gd"]
    by (auto simp: store_ready_def)
  have dirs: "tree (w_fs w') q = Some Dir" if q: "q \<in> set (ancestors_of (butlast (cache_path_of gd h)))" for q
  proof -
    obtain r1 s1 where wc: "write_object_cache_bytes (temp_dir_of gd) (cache_path_of gd h) (co_object_id obj) b (w_fs w1) = (r1, s1)"
      by (rule prod.exhaust)
    obtain r2 g2 where wg: "write_git_object_ref G (co_object_id obj) (ref_name_of h) b (w_git w1) = (r2, g2)"
      by (rule prod.exhaust)
    obtain st where "r1 = Inr st" "w_fs w' = s1"
      using p(7) h(1) wc wg
      by (cases r1; cases r2)
        (auto simp: store_object_def object_cache_path_Inr object_ref_name_Inr eff_simps on_fs_def on_git_def)
    with write_cache_dirs wc q show ?thesis by blast
  qed
  show thesis
    by (rule that [OF h(1) p(3,2,1) ready h(2) _ h(3,4) _ h(9)]) (use dirs p(4,6) h(6,10) in auto)
qed

lemma write_canonical_succeeds:
  assumes "store_ready G p gd w" "faults (w_fs w) = []" "store_dirs_ok gd (w_fs w)" "fields_ok L obj"
    and "object_hex (co_object_id obj) = Inr h" "canonical_object_bytes L obj = Inr b"
    and "tree (w_fs w) (cache_path_of gd h) = None"
    and "write_git_object_ref G (co_object_id obj) (ref_name_of h) b (w_git w) = (Inr k, g')"
  shows "\<exists>rep w'. write_canonical_object G L p obj w = (Inr rep, w')"
proof -
  obtain s' where s': "write_object_cache_bytes (temp_dir_of gd) (cache_path_of gd h) (co_object_id obj) b (w_fs w) =
      (Inr Written, s')"
    using write_cache_succeeds [OF assms(3,2,7)] by blast
  have d: "object_field_diagnostics L (co_object_id obj) obj = Inr ((co_object_id obj, co_body_hash obj), [])"
    using assms(4) by (simp add: field_diagnostics_clean)
  show ?thesis
    using open_store_ready [OF assms(1,2)] d assms(5,6,8) s'
    by (simp add: write_canonical_object_def store_object_def eff_simps on_fs_def on_git_def
        object_cache_path_Inr object_ref_name_Inr)
qed

text \<open>The directories of a store stay in place.\<close>

lemma keeps_cond: "keeps P m \<Longrightarrow> keeps P m' \<Longrightarrow> keeps P (\<lambda>s. if c s then m s else m' s)"
  by (simp add: keeps_def)

lemma keeps_if: "keeps P m \<Longrightarrow> keeps P m' \<Longrightarrow> keeps P (if c then m else m')"
  by simp

lemma keeps_write_cache:
  assumes "keeps P (fs_create_dir_all (butlast cp))" "keeps P (fs_read cp)"
    and "keeps P (fs_write (td @ [replace_char CHR '':'' CHR ''-'' i @ ''.tmp'']) b)"
    and "keeps P (fs_rename (td @ [replace_char CHR '':'' CHR ''-'' i @ ''.tmp'']) cp)"
  shows "keeps P (write_object_cache_bytes td cp i b)"
  unfolding write_object_cache_bytes_def Let_def
  by (intro keeps_bind keeps_map_err keeps_cond keeps_if assms keeps_basic)

lemma store_dirs_ok_change:
  assumes "store_dirs_ok gd s"
    and "\<And>q. tree s' q = tree s q \<or> (\<exists>i b. q = temp_path_of gd i \<and> tree s' q \<noteq> Some Dir) \<or>
      (\<exists>h. q = cache_path_of gd h) \<or> (\<exists>h. q \<in> set (ancestors_of (butlast (cache_path_of gd h))) \<and> tree s' q = Some Dir)"
  shows "store_dirs_ok gd s'"
proof -
  have na: "cache_path_of gd h' \<notin> set (ancestors_of (butlast (cache_path_of gd h)))" for h h'
  proof
    assume "cache_path_of gd h' \<in> set (ancestors_of (butlast (cache_path_of gd h)))"
    then obtain r where "butlast (cache_path_of gd h) = cache_path_of gd h' @ r" by (auto simp: in_ancestors_of)
    then have "length (butlast (cache_path_of gd h)) = length (cache_path_of gd h' @ r)" by (rule arg_cong)
    then show False by (simp add: cache_path_of_def)
  qed
  have "tree s' (temp_dir_of gd) = tree s (temp_dir_of gd) \<or> tree s' (temp_dir_of gd) = Some Dir"
    using assms(2) [of "temp_dir_of gd"] by auto
  then have "is_dir_at s' (temp_dir_of gd)" using assms(1) by (auto simp: store_dirs_ok_def is_dir_at_def)
  moreover have "tree s' q \<noteq> Some (File b)" if q: "q \<in> set (ancestors_of (butlast (cache_path_of gd h)))" for q h b
    using assms(2) [of q] assms(1) q na temp_path_not_above unfolding store_dirs_ok_def
    by (metis fnode.distinct(1) option.inject)
  moreover have "tree s' (temp_path_of gd i) \<noteq> Some Dir" for i
    using assms(2) [of "temp_path_of gd i"] assms(1) temp_path_not_above
    unfolding store_dirs_ok_def by (metis store_paths_distinct(1))
  ultimately show ?thesis by (simp add: store_dirs_ok_def)
qed

lemma keeps_dirs_write_cache:
  "keeps (store_dirs_ok gd) (write_object_cache_bytes (temp_dir_of gd) (cache_path_of gd h) i b)"
proof (rule keeps_write_cache)
  show "keeps (store_dirs_ok gd) (fs_create_dir_all (butlast (cache_path_of gd h)))"
  proof (rule keepsI, erule store_dirs_ok_change)
    fix s r s' q assume "fs_create_dir_all (butlast (cache_path_of gd h)) s = (r, s')"
    from fs_create_dir_all_tree(1) [OF this, of q]
    show "tree s' q = tree s q \<or> (\<exists>i b. q = temp_path_of gd i \<and> tree s' q \<noteq> Some Dir) \<or>
      (\<exists>h. q = cache_path_of gd h) \<or> (\<exists>h. q \<in> set (ancestors_of (butlast (cache_path_of gd h))) \<and> tree s' q = Some Dir)"
      by blast
  qed
  show "keeps (store_dirs_ok gd) (fs_read (cache_path_of gd h))"
    by (rule keepsI, erule store_dirs_ok_change) (auto dest: fs_read_tree)
  show "keeps (store_dirs_ok gd) (fs_write (temp_dir_of gd @ [replace_char CHR '':'' CHR ''-'' i @ ''.tmp'']) b)"
    unfolding temp_path_of_def [symmetric]
  proof (rule keepsI, erule store_dirs_ok_change)
    fix s r s' q assume "fs_write (temp_path_of gd i) b s = (r, s')"
    then have "tree s' q = tree s q \<or> (q = temp_path_of gd i \<and> tree s' q \<noteq> Some Dir)"
      by (cases rule: fs_write_tree) auto
    then show "tree s' q = tree s q \<or> (\<exists>i b. q = temp_path_of gd i \<and> tree s' q \<noteq> Some Dir) \<or>
      (\<exists>h. q = cache_path_of gd h) \<or> (\<exists>h. q \<in> set (ancestors_of (butlast (cache_path_of gd h))) \<and> tree s' q = Some Dir)"
      by blast
  qed
  show "keeps (store_dirs_ok gd) (fs_rename (temp_dir_of gd @ [replace_char CHR '':'' CHR ''-'' i @ ''.tmp'']) (cache_path_of gd h))"
    unfolding temp_path_of_def [symmetric]
  proof (rule keepsI, erule store_dirs_ok_change)
    fix s r s' q assume "fs_rename (temp_path_of gd i) (cache_path_of gd h) s = (r, s')"
    then have "tree s' q = tree s q \<or> (q = temp_path_of gd i \<and> tree s' q = None) \<or> q = cache_path_of gd h"
      using store_paths_distinct(1) by (cases rule: fs_rename_tree) auto
    then show "tree s' q = tree s q \<or> (\<exists>i b. q = temp_path_of gd i \<and> tree s' q \<noteq> Some Dir) \<or>
      (\<exists>h. q = cache_path_of gd h) \<or> (\<exists>h. q \<in> set (ancestors_of (butlast (cache_path_of gd h))) \<and> tree s' q = Some Dir)"
      by fastforce
  qed
qed

lemma written_dirs:
  assumes "write_canonical_object G L p obj w = (Inr rep, w')" "store_ready G p gd w" "store_dirs_ok gd (w_fs w)"
  shows "store_dirs_ok gd (w_fs w')"
proof -
  obtain gd' b w1 where p: "store_ready G p gd' w" 
    "tree (w_fs w1) = tree (w_fs w)" 
    "store_object G \<lparr>st_git_dir = gd', st_temp_dir = temp_dir_of gd'\<rparr> obj b w1 = (Inr rep, w')"
    by (rule write_canonical_parts [OF assms(1)])
  have gd: "gd' = gd" using p(1) assms(2) by (auto simp: store_ready_def)
  have d1: "store_dirs_ok gd (w_fs w1)" using assms(3) p(2) by (simp add: store_dirs_ok_def is_dir_at_def)
  obtain h where h: "object_hex (co_object_id obj) = Inr h"
    using p(3) by (cases "object_hex (co_object_id obj)") (auto simp: store_object_def object_cache_path_def eff_simps)
  obtain r1 s1 where wc: "write_object_cache_bytes (temp_dir_of gd) (cache_path_of gd h) (co_object_id obj) b (w_fs w1) = (r1, s1)"
    by (rule prod.exhaust)
  have "store_dirs_ok gd s1" by (rule keepsD [OF keeps_dirs_write_cache wc d1])
  moreover have "w_fs w' = s1"
    using p(3) h wc gd
    by (cases r1) (auto simp: store_object_def object_cache_path_Inr object_ref_name_Inr eff_simps on_fs_def on_git_def
        split: prod.splits sum.splits)
  ultimately show ?thesis by simp
qed

lemma store_dirs_ok_lost: "store_dirs_ok gd s \<Longrightarrow> store_dirs_ok gd (set_node (cache_path_of gd h) None s)"
  by (erule store_dirs_ok_change) auto

section \<open>Writing again\<close>

lemma create_dirs_present:
  assumes "fs_create_dir_all p s = (r, s')" "\<forall>q \<in> set (ancestors_of p). tree s q = Some Dir"
  shows "tree s' = tree s"
  using fs_create_dir_all_tree(1) [OF assms(1)] assms(2) by (metis ext option.distinct(1))

lemma write_cache_present:
  assumes "write_object_cache_bytes (temp_dir_of gd) (cache_path_of gd h) i b s = (r, s')"
    and "tree s (cache_path_of gd h) = Some (File b')"
    and "\<forall>q \<in> set (ancestors_of (butlast (cache_path_of gd h))). tree s q = Some Dir"
  shows "tree s' = tree s" "r = Inr st \<Longrightarrow> st = AlreadyExists \<and> b' = b"
    and "faults s = [] \<Longrightarrow> b' \<noteq> b \<Longrightarrow> r = Inl (ObjectConflict i (cache_path_of gd h)) \<and> s' = s"
proof -
  let ?cp = "cache_path_of gd h"
  obtain r1 s1 where cd: "fs_create_dir_all (butlast ?cp) s = (r1, s1)" by (rule prod.exhaust)
  have t1: "tree s1 = tree s" by (rule create_dirs_present [OF cd assms(3)])
  have ex: "exists_at s1 ?cp" using t1 assms(2) by (simp add: exists_at_def)
  obtain r2 s2 where rd: "fs_read ?cp s1 = (r2, s2)" by (rule prod.exhaust)
  have t2: "tree s2 = tree s1" by (rule fs_read_tree [OF rd])
  show "tree s' = tree s"
    using assms(1) cd ex rd t1 t2
    by (cases r1; cases r2) (auto simp: write_object_cache_bytes_def eff_simps split: if_splits)
  show "st = AlreadyExists \<and> b' = b" if "r = Inr st"
  proof -
    have "tree s ?cp = Some (File b)" using write_cache_eff(3) [OF assms(1) that] write_cache_eff(1) [OF assms(1)] assms(2) by auto
    with assms(2) store_status [OF assms(1) [unfolded that]] show ?thesis by simp
  qed
  show "r = Inl (ObjectConflict i ?cp) \<and> s' = s" if calm: "faults s = []" and ne: "b' \<noteq> b"
  proof -
    have md: "make_dirs ps s = (Inr (), s)" if "\<forall>q \<in> set ps. tree s q = Some Dir" for ps
      using that by (induction ps) auto
    then have "fs_create_dir_all (butlast ?cp) s = (Inr (), s)" using calm assms(3) by (simp add: fs_simps)
    then show ?thesis
      using assms(1,2) calm ne
      by (auto simp: write_object_cache_bytes_def eff_simps exists_at_def fs_simps lookup_file_def)
  qed
qed

text \<open>The operations, given a ready store with the object in it.\<close>

lemma store_object_present:
  assumes "gix_laws G" "object_hex (co_object_id obj) = Inr h" "tree (w_fs w) (cache_path_of gd h) = Some (File b')"
    and "\<forall>q \<in> set (ancestors_of (butlast (cache_path_of gd h))). tree (w_fs w) q = Some Dir"
    and "find_reference G (w_git w) (ref_name_of h) = Inr (Some k)"
    and "store_object G \<lparr>st_git_dir = gd, st_temp_dir = temp_dir_of gd\<rparr> obj b w = (r, w')"
  shows "tree (w_fs w') = tree (w_fs w)" "find_reference G (w_git w') = find_reference G (w_git w)"
    and "r = Inr rep \<Longrightarrow> rep = write_report AlreadyExists obj (cache_path_of gd h) (ref_name_of h) k b"
proof -
  obtain r1 s1 where wc: "write_object_cache_bytes (temp_dir_of gd) (cache_path_of gd h) (co_object_id obj) b (w_fs w) = (r1, s1)"
    by (rule prod.exhaust)
  note c = write_cache_present [OF wc assms(3,4)]
  obtain r2 g2 where wg: "write_git_object_ref G (co_object_id obj) (ref_name_of h) b (w_git w) = (r2, g2)"
    by (rule prod.exhaust)
  note g = write_ref_eff [OF assms(1) wg]
  have refs: "find_reference G g2 = find_reference G (w_git w)"
  proof
    fix q show "find_reference G g2 q = find_reference G (w_git w) q"
      using g(2) [of q] g(5) [OF assms(5)] assms(5) by (cases "q = ref_name_of h") auto
  qed
  have run: "(r, w') = (case r1 of Inl e \<Rightarrow> (Inl e, w\<lparr>w_fs := s1\<rparr>)
     | Inr st \<Rightarrow> (r_bind r2 (\<lambda>oid. Inr (write_report st obj (cache_path_of gd h) (ref_name_of h) oid b)),
                  w\<lparr>w_fs := s1, w_git := g2\<rparr>))"
    using assms(2,6) wc wg
    by (cases r1; cases r2) (auto simp: store_object_def object_cache_path_Inr object_ref_name_Inr eff_simps on_fs_def on_git_def)
  then show "tree (w_fs w') = tree (w_fs w)" "find_reference G (w_git w') = find_reference G (w_git w)"
    using c(1) refs by (cases r1; simp)+
  show "rep = write_report AlreadyExists obj (cache_path_of gd h) (ref_name_of h) k b" if rep: "r = Inr rep"
  proof -
    obtain st oid where *: "r1 = Inr st" "r2 = Inr oid" "rep = write_report st obj (cache_path_of gd h) (ref_name_of h) oid b"
      using run rep by (cases r1; cases r2) auto
    have "find_reference G g2 (ref_name_of h) = Inr (Some oid)" using g(4) [OF *(2)] by simp
    with g(5) [OF assms(5)] have "oid = k" by simp
    with * c(2) show ?thesis by simp
  qed
qed

lemma write_canonical_run:
  assumes "write_canonical_object G L p obj w = (r, w')" "store_ready G p gd w" "fields_ok L obj"
    and "canonical_object_bytes L obj = Inr b"
  obtains (failed) "tree (w_fs w') = tree (w_fs w)" "w_git w' = w_git w" "\<not> is_ok r" "faults (w_fs w) \<noteq> []"
  | (stored) w1 where "tree (w_fs w1) = tree (w_fs w)" "w_git w1 = w_git w" "faults (w_fs w) = [] \<longrightarrow> w1 = w"
      "store_object G \<lparr>st_git_dir = gd, st_temp_dir = temp_dir_of gd\<rparr> obj b w1 = (r, w')"
proof -
  have d: "object_field_diagnostics L (co_object_id obj) obj = Inr ((co_object_id obj, co_body_hash obj), [])"
    using assms(3) by (simp add: field_diagnostics_clean)
  obtain r1 w1 where op: "open_initialized_store G p w = (r1, w1)" by (rule prod.exhaust)
  note o = open_store_eff [OF op]
  show thesis
  proof (cases r1)
    case (Inl e)
    then have "faults (w_fs w) \<noteq> []" using open_store_ready [OF assms(2)] op by auto
    moreover have "w' = w1" "r = Inl e" using assms(1) op Inl by (simp_all add: write_canonical_object_def eff_simps)
    ultimately show thesis using o(1) failed by simp
  next
    case (Inr st)
    from o(2) [OF this] assms(2) have st: "st = \<lparr>st_git_dir = gd, st_temp_dir = temp_dir_of gd\<rparr>"
      by (auto simp: store_ready_def)
    have "faults (w_fs w) = [] \<longrightarrow> w1 = w" using open_store_ready [OF assms(2)] op by auto
    moreover have "store_object G st obj b w1 = (r, w')"
      using assms(1,4) op Inr d by (simp add: write_canonical_object_def eff_simps)
    ultimately show thesis using o(1) st by (intro stored [of w1]) simp_all
  qed
qed

lemma json_ok_object: "plain_body (co_body obj) \<Longrightarrow> json_ok (object_json obj)"
  using json_plain_ok plain_object_json by blast

lemma object_bytes_inj:
  assumes "json_codec L" "plain_body (co_body a)" "plain_body (co_body b)"
    and "canonical_object_bytes L a = Inr x" "canonical_object_bytes L b = Inr x"
  shows "a = b"
  using object_bytes_read [OF assms(1,2,4)] object_bytes_read [OF assms(1,3,5)] by simp

end
