(* ===== verification/Git_Theorems.thy ===== *)
theory Git_Theorems
  imports Git_Props
begin

text \<open>
  The properties of the object store, with a concrete Git implementation (\<open>ref_gix\<close>, blobs named by
  the hexadecimal of their bytes) and a ready store (\<open>ref_world\<close>) for the witnesses.
\<close>

section \<open>A reference instance\<close>

record ref_git =
  rg_refs :: "(str \<times> str) list"
  rg_blobs :: "str list"

definition ref_gix :: "ref_git gix" where
  "ref_gix = \<lparr>
     discover = (\<lambda>g p. Inr ([''r'', ''.git''], Some [''r''])),
     write_blob = (\<lambda>b g. (Inr (lower_hex b), g\<lparr>rg_blobs := lower_hex b # rg_blobs g\<rparr>)),
     find_reference = (\<lambda>g n. Inr (map_of (rg_refs g) n)),
     find_blob = (\<lambda>g i. if i \<in> set (rg_blobs g) then Inr (unhex i) else Inl ''missing''),
     set_reference = (\<lambda>n i p m g.
       if map_of (rg_refs g) n = (case p of MustNotExist \<Rightarrow> None | MustExistAndMatch q \<Rightarrow> Some q)
       then (Inr (), g\<lparr>rg_refs := (n, i) # rg_refs g\<rparr>) else (Inl ''stale'', g)),
     references_prefixed = (\<lambda>g s. Inr (map Inr (filter (\<lambda>(n, i). starts_with n s) (map_of_entries (rev (rg_refs g)))))),
     oid_from_hex = Inr, head_name = (\<lambda>g. None), head_id = (\<lambda>g. None), status_items = (\<lambda>g. Inr []),
     object_hash = (\<lambda>g. ''sha1'')\<rparr>"

lemma ref_gix_laws [simp]: "gix_laws ref_gix"
  unfolding gix_laws_def
proof (intro conjI allI impI exI [where x = lower_hex])
qed (auto simp: ref_gix_def unhex_lower_hex fun_eq_iff split: sum.splits previous_value.splits if_splits)

definition ref_world :: "ref_git world" where
  "ref_world = \<lparr>w_fs = \<lparr>entries = [([''r''], Dir), ([''r'', ''.git''], Dir), ([''r'', ''.git'', ''rickydata''], Dir),
       ([''r'', ''.git'', ''rickydata'', ''tmp''], Dir),
       ([''r'', ''.git'', ''rickydata'', ''VERSION''], File (str_bytes (RICKYDATA_STORE_VERSION @ ''\<newline>'')))],
     faults = []\<rparr>, w_git = \<lparr>rg_refs = [], rg_blobs = []\<rparr>\<rparr>"

lemma version_line:
  "from_utf8 (str_bytes (RICKYDATA_STORE_VERSION @ ''\<newline>'')) = Some (RICKYDATA_STORE_VERSION @ ''\<newline>'')"
  "trim (RICKYDATA_STORE_VERSION @ ''\<newline>'') = RICKYDATA_STORE_VERSION"
  by (rule from_utf8_ascii, simp add: RICKYDATA_STORE_VERSION_def)
    (rule trim_plain_newline; simp add: RICKYDATA_STORE_VERSION_def plain_char_def)

lemma ref_world_ready: "store_ready ref_gix p [''r'', ''.git''] ref_world"
  using version_line
  by (simp add: store_ready_def ref_world_def ref_gix_def path_defs tree_def)

lemma ref_world_dirs: "store_dirs_ok [''r'', ''.git''] (w_fs ref_world)"
  by (auto simp: store_dirs_ok_def ref_world_def is_dir_at_def path_defs in_ancestors_of tree_def split: if_splits)

lemma ref_world_calm [simp]: "faults (w_fs ref_world) = []"
  by (simp add: ref_world_def)

text \<open>An object, and its successful write into the reference world.\<close>

lemma ref_object:
  obtains obj h b where "canonical_object_new ref_lib ''note'' ''v1'' 0 (JObject [(''a'', JNull)]) = Inr obj"
    "fields_ok ref_lib obj" "co_body obj = JObject [(''a'', JNull)]" "plain_body (co_body obj)"
    "object_hex (co_object_id obj) = Inr h" "canonical_object_bytes ref_lib obj = Inr b"
    "co_signatures obj = []"
proof -
  obtain obj where o: "canonical_object_new ref_lib ''note'' ''v1'' 0 (JObject [(''a'', JNull)]) = Inr obj"
    using canonical_object_new_total [OF ref_lib_laws(1)] by fastforce
  note d = canonical_object_newD [OF o]
  have "object_id_ok (co_object_id obj)"
    using d(2) unfolding canonical_object_id_def by (rule stable_json_hash_shape) simp_all
  then obtain h where h: "object_hex (co_object_id obj) = Inr h" using object_id_ok_hex by blast
  have pb: "plain_body (co_body obj)" using d(5) by (simp add: plain_body_def)
  obtain b where b: "canonical_object_bytes ref_lib obj = Inr b"
    by (simp add: canonical_object_bytes_def ref_lib_def)
  show thesis by (rule that [OF o canonical_object_new_fields [OF o] d(5) pb h b d(6)])
qed

lemma ref_world_write:
  assumes "fields_ok ref_lib obj" "object_hex (co_object_id obj) = Inr h"
    "canonical_object_bytes ref_lib obj = Inr b"
  shows "\<exists>rep w'. write_canonical_object ref_gix ref_lib [''r''] obj ref_world = (Inr rep, w')"
proof -
  have "write_git_object_ref ref_gix (co_object_id obj) (ref_name_of h) b (w_git ref_world) =
      (Inr (lower_hex b), \<lparr>rg_refs = [(ref_name_of h, lower_hex b)], rg_blobs = [lower_hex b]\<rparr>)"
    by (simp add: write_git_object_ref_def eff_simps ref_gix_def ref_world_def)
  moreover have "tree (w_fs ref_world) (cache_path_of [''r'', ''.git''] h) = None"
    by (simp add: ref_world_def cache_path_of_def tree_def)
  ultimately show ?thesis
    using write_canonical_succeeds [OF ref_world_ready ref_world_calm ref_world_dirs assms] by blast
qed

section \<open>Properties\<close>

text \<open>
  C15: an object that was written is read back, equal in every field, from the cache file the report
  names; reading changes nothing.
\<close>

theorem write_then_read:
  assumes "write_canonical_object G L p obj w = (Inr rep, w')" "faults (w_fs w) = []"
    and "gix_laws G" "json_codec L" "plain_body (co_body obj)"
  shows "read_cached_object G L p (co_object_id obj) w' =
    (Inr \<lparr>rr_object_id = co_object_id obj, rr_cache_path = wr_cache_path rep, rr_source = Cache, rr_object = obj\<rparr>, w')"
proof -
  obtain gd h b where *: "object_hex (co_object_id obj) = Inr h" "canonical_object_bytes L obj = Inr b"
    "store_ready G p gd w'" "tree (w_fs w') (cache_path_of gd h) = Some (File b)"
    "faults (w_fs w) = [] \<longrightarrow> faults (w_fs w') = []"
    "rep = write_report (wr_status rep) obj (cache_path_of gd h) (ref_name_of h) (wr_git_object_id rep) b"
    by (rule written_object [OF assms(3,1)])
  have "wr_cache_path rep = cache_path_of gd h" by (subst *(6)) (simp add: write_report_def)
  then show ?thesis
    using read_cached_file [OF *(3) _ *(1,4) object_bytes_read [OF assms(4,5) *(2)]] *(5) assms(2) by simp
qed

theorem write_then_read_witness:
  "\<exists>obj rep w'. write_canonical_object ref_gix ref_lib [''r''] obj ref_world = (Inr rep, w') \<and>
     co_body obj = JObject [(''a'', JNull)] \<and>
     read_cached_object ref_gix ref_lib [''r''] (co_object_id obj) w' =
       (Inr \<lparr>rr_object_id = co_object_id obj, rr_cache_path = wr_cache_path rep, rr_source = Cache, rr_object = obj\<rparr>, w')"
proof -
  obtain obj h b where o: "fields_ok ref_lib obj" "co_body obj = JObject [(''a'', JNull)]"
    "plain_body (co_body obj)" "object_hex (co_object_id obj) = Inr h"
    "canonical_object_bytes ref_lib obj = Inr b"
    by (rule ref_object)
  obtain rep w' where w: "write_canonical_object ref_gix ref_lib [''r''] obj ref_world = (Inr rep, w')"
    using ref_world_write [OF o(1,4,5)] by blast
  show ?thesis
    using write_then_read [OF w ref_world_calm ref_gix_laws ref_lib_laws(1) o(3)] w o(2) by blast
qed

text \<open>
  C16: the cache is only a cache.  When the file of a written object is lost, reading finds the object
  through its reference, checks it against the id, and writes the same bytes back.
\<close>

theorem cache_rebuilt_from_reference:
  assumes "write_canonical_object G L p obj w = (Inr rep, w')" "faults (w_fs w) = []"
    and "gix_laws G" "json_codec L" "plain_body (co_body obj)"
    and "discover G (w_git w) p = Inr (gd, wd)" "store_dirs_ok gd (w_fs w)"
  shows "\<exists>w''. read_cached_object G L p (co_object_id obj)
      (w'\<lparr>w_fs := set_node (wr_cache_path rep) None (w_fs w')\<rparr>) = (Inr \<lparr>rr_object_id = co_object_id obj, rr_cache_path = wr_cache_path rep, rr_source = GitRef, rr_object = obj\<rparr>, w'') \<and>
    tree (w_fs w'') (wr_cache_path rep) = tree (w_fs w') (wr_cache_path rep)"
proof -
  obtain gd' h b where *: "object_hex (co_object_id obj) = Inr h" "canonical_object_bytes L obj = Inr b" "fields_ok L obj"
    "store_ready G p gd' w'" "tree (w_fs w') (cache_path_of gd' h) = Some (File b)"
    "find_reference G (w_git w') (ref_name_of h) = Inr (Some (wr_git_object_id rep))"
    "find_blob G (w_git w') (wr_git_object_id rep) = Inr b"
    "faults (w_fs w) = [] \<longrightarrow> faults (w_fs w') = []"
    "rep = write_report (wr_status rep) obj (cache_path_of gd' h) (ref_name_of h) (wr_git_object_id rep) b"
    "store_ready G p gd' w"
    by (rule written_object [OF assms(3,1)])
  have gd: "gd' = gd" using *(10) assms(6) by (auto simp: store_ready_def)
  note * = * [unfolded gd]
  have cp: "wr_cache_path rep = cache_path_of gd h" by (subst *(9)) (simp add: write_report_def)
  let ?w = "w'\<lparr>w_fs := set_node (cache_path_of gd h) None (w_fs w')\<rparr>"
  have dirs: "store_dirs_ok gd (w_fs ?w)"
    using written_dirs [OF assms(1) *(10) assms(7)] by (simp add: store_dirs_ok_lost)
  have ready: "store_ready G p gd ?w" using *(4) by (auto simp: store_ready_def)
  have calm: "faults (w_fs ?w) = []" using *(8) assms(2) by simp
  have none: "tree (w_fs ?w) (cache_path_of gd h) = None" by simp
  obtain s' where s': "write_object_cache_bytes (temp_dir_of gd) (cache_path_of gd h) (co_object_id obj) b (w_fs ?w) =
      (Inr Written, s')"
    using write_cache_succeeds [OF dirs calm none] by blast
  have "read_cached_object G L p (co_object_id obj) ?w =
      (Inr \<lparr>rr_object_id = co_object_id obj, rr_cache_path = cache_path_of gd h, rr_source = GitRef, rr_object = obj\<rparr>,
       ?w\<lparr>w_fs := s'\<rparr>)"
    by (rule read_ref_backed [OF ready calm *(1) none object_bytes_read [OF assms(4,5) *(2)] _ _ *(3) refl s'])
      (use *(6,7) in simp_all)
  moreover have "tree s' (cache_path_of gd h) = Some (File b)" by (rule write_cache_eff(3) [OF s' refl])
  ultimately show ?thesis using *(5) cp by auto
qed

theorem cache_rebuilt_from_reference_witness:
  "\<exists>obj rep w' w''. write_canonical_object ref_gix ref_lib [''r''] obj ref_world = (Inr rep, w') \<and>
     read_cached_object ref_gix ref_lib [''r''] (co_object_id obj)
       (w'\<lparr>w_fs := set_node (wr_cache_path rep) None (w_fs w')\<rparr>) =
     (Inr \<lparr>rr_object_id = co_object_id obj, rr_cache_path = wr_cache_path rep, rr_source = GitRef, rr_object = obj\<rparr>, w'')"
proof -
  obtain obj h b where o: "fields_ok ref_lib obj" "plain_body (co_body obj)"
    "object_hex (co_object_id obj) = Inr h" "canonical_object_bytes ref_lib obj = Inr b"
    by (rule ref_object)
  obtain rep w' where w: "write_canonical_object ref_gix ref_lib [''r''] obj ref_world = (Inr rep, w')"
    using ref_world_write [OF o(1,3,4)] by blast
  have "discover ref_gix (w_git ref_world) [''r''] = Inr ([''r'', ''.git''], Some [''r''])" by (simp add: ref_gix_def)
  from cache_rebuilt_from_reference [OF w ref_world_calm ref_gix_laws ref_lib_laws(1) o(2) this ref_world_dirs] w
  show ?thesis by blast
qed


text \<open>
  writing is idempotent.  Writing a stored object again changes no file and no reference, and when
  it returns it returns the report of the first write with the status \<^verbatim>\<open>already_exists\<close>, whatever faults
  happen in between.
\<close>

theorem write_idempotent:
  assumes "write_canonical_object G L p obj w = (Inr rep, w')" "gix_laws G"
    and "write_canonical_object G L p obj w' = (r, w'')"
  shows "tree (w_fs w'') = tree (w_fs w') \<and>
    find_reference G (w_git w'') = find_reference G (w_git w') \<and>
    (\<forall>rep'. r = Inr rep' \<longrightarrow> rep' = rep\<lparr>wr_status := AlreadyExists\<rparr>)"
proof -
  obtain gd h b where *: "object_hex (co_object_id obj) = Inr h" "canonical_object_bytes L obj = Inr b" "fields_ok L obj"
    "store_ready G p gd w'" "tree (w_fs w') (cache_path_of gd h) = Some (File b)"
    "\<forall>q \<in> set (ancestors_of (butlast (cache_path_of gd h))). tree (w_fs w') q = Some Dir"
    "find_reference G (w_git w') (ref_name_of h) = Inr (Some (wr_git_object_id rep))"
    "rep = write_report (wr_status rep) obj (cache_path_of gd h) (ref_name_of h) (wr_git_object_id rep) b"
    by (rule written_object [OF assms(2,1)])
  have rep: "write_report AlreadyExists obj (cache_path_of gd h) (ref_name_of h) (wr_git_object_id rep) b =
      rep\<lparr>wr_status := AlreadyExists\<rparr>"
    by (subst (2) *(8)) (simp add: write_report_def)
  from assms(3) *(4,3,2) show ?thesis
  proof (cases rule: write_canonical_run)
    case failed
    then show ?thesis by (cases r) auto
  next
    case (stored w1)
    have "tree (w_fs w1) (cache_path_of gd h) = Some (File b)"
      "\<forall>q \<in> set (ancestors_of (butlast (cache_path_of gd h))). tree (w_fs w1) q = Some Dir"
      "find_reference G (w_git w1) (ref_name_of h) = Inr (Some (wr_git_object_id rep))"
      using *(5-7) stored(1,2) by simp_all
    note s = store_object_present [OF assms(2) *(1) this stored(4)]
    with stored(1,2) rep show ?thesis by auto
  qed
qed

theorem write_idempotent_witness:
  "\<exists>obj rep w' r w''. write_canonical_object ref_gix ref_lib [''r''] obj ref_world = (Inr rep, w') \<and>
     write_canonical_object ref_gix ref_lib [''r''] obj w' = (r, w'') \<and> tree (w_fs w'') = tree (w_fs w')"
proof -
  obtain obj h b where o: "fields_ok ref_lib obj"
    "object_hex (co_object_id obj) = Inr h" "canonical_object_bytes ref_lib obj = Inr b"
    by (rule ref_object)
  obtain rep w' where w: "write_canonical_object ref_gix ref_lib [''r''] obj ref_world = (Inr rep, w')"
    using ref_world_write [OF o] by blast
  obtain r w'' where "write_canonical_object ref_gix ref_lib [''r''] obj w' = (r, w'')" by (rule prod.exhaust)
  then show ?thesis using w write_idempotent [OF w ref_gix_laws] by blast
qed

text \<open>
  C17: a stored object is immutable.  Another object with the same id (the id ignores signatures, so
  this is what adding a signature makes) is refused with the conflict error, and nothing changes.
\<close>

theorem stored_object_immutable:
  assumes "write_canonical_object G L p obj w = (Inr rep, w')" "faults (w_fs w) = []"
    and "gix_laws G" "json_codec L" "plain_body (co_body obj)" "plain_body (co_body obj')"
    and "co_object_id obj' = co_object_id obj" "obj' \<noteq> obj" "fields_ok L obj'"
  shows "write_canonical_object G L p obj' w' =
    (Inl (ObjectConflict (co_object_id obj) (wr_cache_path rep)), w')"
proof -
  obtain gd h b where *: "object_hex (co_object_id obj) = Inr h" "canonical_object_bytes L obj = Inr b"
    "store_ready G p gd w'" "tree (w_fs w') (cache_path_of gd h) = Some (File b)"
    "\<forall>q \<in> set (ancestors_of (butlast (cache_path_of gd h))). tree (w_fs w') q = Some Dir"
    "faults (w_fs w) = [] \<longrightarrow> faults (w_fs w') = []"
    "rep = write_report (wr_status rep) obj (cache_path_of gd h) (ref_name_of h) (wr_git_object_id rep) b"
    by (rule written_object [OF assms(3,1)])
  have cp: "wr_cache_path rep = cache_path_of gd h" by (subst *(7)) (simp add: write_report_def)
  obtain b' where b': "canonical_object_bytes L obj' = Inr b'"
    using json_codecD [OF assms(4) canonical_json_ok [OF json_ok_object [OF assms(6)]]]
    by (auto simp: canonical_object_bytes_def)
  have "b \<noteq> b'" using object_bytes_inj [OF assms(4,5,6) *(2)] b' assms(8) by metis
  have calm: "faults (w_fs w') = []" using *(6) assms(2) by simp
  obtain r w'' where run: "write_canonical_object G L p obj' w' = (r, w'')" by (rule prod.exhaust)
  obtain r1 s1 where wc: "write_object_cache_bytes (temp_dir_of gd) (cache_path_of gd h) (co_object_id obj') b' (w_fs w') = (r1, s1)"
    by (rule prod.exhaust)
  have c: "r1 = Inl (ObjectConflict (co_object_id obj') (cache_path_of gd h)) \<and> s1 = w_fs w'"
    by (rule write_cache_present(3) [OF wc *(4,5) calm \<open>b \<noteq> b'\<close>])
  from run *(3) assms(9) b' have "r = Inl (ObjectConflict (co_object_id obj) (cache_path_of gd h)) \<and> w'' = w'"
  proof (cases rule: write_canonical_run)
    case failed
    with calm show ?thesis by simp
  next
    case (stored w1)
    with calm have "store_object G \<lparr>st_git_dir = gd, st_temp_dir = temp_dir_of gd\<rparr> obj' b' w' = (r, w'')" by simp
    then show ?thesis using wc c *(1) assms(7)
      by (simp add: store_object_def object_cache_path_Inr eff_simps on_fs_def)
  qed
  with run cp show ?thesis by simp
qed

theorem stored_object_immutable_witness:
  "\<exists>obj obj' rep w'. write_canonical_object ref_gix ref_lib [''r''] obj ref_world = (Inr rep, w') \<and>
     write_canonical_object ref_gix ref_lib [''r''] obj' w' =
       (Inl (ObjectConflict (co_object_id obj) (wr_cache_path rep)), w')"
proof -
  obtain obj h b where o: "fields_ok ref_lib obj" "plain_body (co_body obj)"
    "object_hex (co_object_id obj) = Inr h" "canonical_object_bytes ref_lib obj = Inr b" "co_signatures obj = []"
    by (rule ref_object)
  obtain rep w' where w: "write_canonical_object ref_gix ref_lib [''r''] obj ref_world = (Inr rep, w')"
    using ref_world_write [OF o(1,3,4)] by blast
  let ?o = "obj\<lparr>co_signatures := [make_signature ref_lib (replicate 32 1) [] None]\<rparr>"
  have "co_signatures ?o \<noteq> co_signatures obj" using o(5) by simp
  then have "?o \<noteq> obj" by metis
  then have "write_canonical_object ref_gix ref_lib [''r''] ?o w' =
      (Inl (ObjectConflict (co_object_id obj) (wr_cache_path rep)), w')"
    using o(1,2)
    by (intro stored_object_immutable [OF w ref_world_calm ref_gix_laws ref_lib_laws(1)]) (simp_all add: fields_ok_def)
  with w show ?thesis by blast
qed

end
