(* ===== verification/Ref_Update.thy ===== *)
theory Ref_Update
  imports Git_Theorems
begin

text \<open>
  \<^verbatim>\<open>write_git_object_ref_with_expectation\<close> of \<^verbatim>\<open>crates/rickydata-git-git/src/lib.rs\<close>: a reference is moved
  under a signed expectation of its previous value (compare and swap).
\<close>

datatype signed_ref_update_status = RefCreated | UpdatedFromExpected | AlreadyAtNewOid

record signed_ref_update_report =
  ur_ref_name :: str
  ur_new_oid :: str
  ur_previous_oid :: "str option"
  ur_status :: signed_ref_update_status

definition update_report ::
    "signed_ref_expectation \<Rightarrow> str option \<Rightarrow> signed_ref_update_status \<Rightarrow> signed_ref_update_report" where
  "update_report e current status = \<lparr>ur_ref_name = re_ref_name e, ur_new_oid = re_new_oid e,
     ur_previous_oid = current, ur_status = status\<rparr>"

text \<open>The reference transaction, after the expectation was compared with the current value.\<close>

definition move_reference ::
    "'g gix \<Rightarrow> signed_ref_expectation \<Rightarrow> str option \<Rightarrow> ('g world, git_error, signed_ref_update_report) eff" where
  "move_reference G e current_oid =
     e_bind (e_lift (map_err ObjectGitWrite (oid_from_hex G (re_new_oid e)))) (\<lambda>new_oid.
     e_bind (e_lift (case re_expected_previous_oid e of
         None \<Rightarrow> Inr MustNotExist
       | Some prev \<Rightarrow> r_bind (map_err ObjectGitWrite (oid_from_hex G prev)) (\<lambda>prev_oid.
           Inr (MustExistAndMatch prev_oid)))) (\<lambda>previous_value.
     e_bind (on_git (e_map_err ObjectGitWrite
       (set_reference G (re_ref_name e) new_oid previous_value
          (''rickygit signed ref expectation '' @ sig_public_key (re_signature e))))) (\<lambda>_.
     e_ret (update_report e current_oid
       (case re_expected_previous_oid e of None \<Rightarrow> RefCreated | Some _ \<Rightarrow> UpdatedFromExpected)))))"

definition write_git_object_ref_with_expectation ::
    "'g gix \<Rightarrow> lib \<Rightarrow> path \<Rightarrow> signed_ref_expectation \<Rightarrow> ('g world, git_error, signed_ref_update_report) eff" where
  "write_git_object_ref_with_expectation G L p e =
     e_bind (open_initialized_store G p) (\<lambda>_.
     e_bind (e_lift (map_err (\<lambda>err. RefExpectationSignatureError (re_ref_name e) (core_error_text err))
               (verify_ref_expectation_signature L e))) (\<lambda>valid.
     if \<not> valid then e_fail (RefExpectationBadSignature (re_ref_name e))
     else
     e_bind (e_gets (\<lambda>w. map_err ObjectGitRead (find_reference G (w_git w) (re_ref_name e)))) (\<lambda>current_oid.
       case (re_expected_previous_oid e, current_oid) of
         (None, None) \<Rightarrow> move_reference G e current_oid
       | (Some expected, Some found) \<Rightarrow>
           if expected = found
           then (if found = re_new_oid e then e_ret (update_report e current_oid AlreadyAtNewOid)
                 else move_reference G e current_oid)
           else e_fail (RefExpectationMismatch (re_ref_name e) (Some expected) (Some found))
       | (expected, found) \<Rightarrow> e_fail (RefExpectationMismatch (re_ref_name e) expected found))))"

lemma move_reference_eff:
  assumes "gix_laws G" "move_reference G e c w = (r, w')"
  shows "w_fs w' = w_fs w \<and>
    ((\<not> is_ok r \<and> find_reference G (w_git w') = find_reference G (w_git w)) \<or>
     (\<exists>new. oid_from_hex G (re_new_oid e) = Inr new \<and>
        r = Inr (update_report e c (case re_expected_previous_oid e of None \<Rightarrow> RefCreated | Some _ \<Rightarrow> UpdatedFromExpected)) \<and>
        find_reference G (w_git w') = (find_reference G (w_git w))(re_ref_name e := Inr (Some new)) \<and>
        (case re_expected_previous_oid e of
           None \<Rightarrow> find_reference G (w_git w) (re_ref_name e) = Inr None
         | Some q \<Rightarrow> (\<exists>q'. oid_from_hex G q = Inr q' \<and> find_reference G (w_git w) (re_ref_name e) = Inr (Some q')))))"
proof (cases "oid_from_hex G (re_new_oid e)")
  case (Inl err)
  with assms(2) show ?thesis by (auto simp: move_reference_def eff_simps)
next
  case (Inr new)
  show ?thesis
  proof (cases "case re_expected_previous_oid e of None \<Rightarrow> Inr MustNotExist
       | Some prev \<Rightarrow> r_bind (map_err ObjectGitWrite (oid_from_hex G prev)) (\<lambda>prev_oid. Inr (MustExistAndMatch prev_oid))")
    case (Inl err)
    with Inr assms(2) show ?thesis by (auto simp: move_reference_def eff_simps)
  next
    case pv: (Inr pv)
    obtain r1 g1 where sr: "set_reference G (re_ref_name e) new pv
        (''rickygit signed ref expectation '' @ sig_public_key (re_signature e)) (w_git w) = (r1, g1)"
      by (rule prod.exhaust)
    note s = gix_set_reference [OF assms(1) sr]
    show ?thesis
    proof (cases r1)
      case (Inl err)
      with Inr pv sr assms(2) have "r = Inl (ObjectGitWrite err)" "w' = w\<lparr>w_git := g1\<rparr>"
        by (simp_all add: move_reference_def eff_simps on_git_def)
      with s(3) [OF Inl] show ?thesis by simp
    next
      case r1: (Inr u)
      with Inr pv sr assms(2) have r: "w' = w\<lparr>w_git := g1\<rparr>"
        "r = Inr (update_report e c (case re_expected_previous_oid e of None \<Rightarrow> RefCreated | Some _ \<Rightarrow> UpdatedFromExpected))"
        by (simp_all add: move_reference_def eff_simps on_git_def)
      have "case re_expected_previous_oid e of
           None \<Rightarrow> find_reference G (w_git w) (re_ref_name e) = Inr None
         | Some q \<Rightarrow> (\<exists>q'. oid_from_hex G q = Inr q' \<and> find_reference G (w_git w) (re_ref_name e) = Inr (Some q'))"
        using pv s(5,6) [OF r1] by (cases "re_expected_previous_oid e") (auto simp: r_bind_Inr_iff)
      with r Inr s(4) [OF r1] show ?thesis by auto
    qed
  qed
qed

text \<open>
  C20: a reference moves only under a valid signature and only from the value the signer expected.
  Without success no reference changes; with success the reference had the expected value, now has the
  new one, and every other reference is as it was.
\<close>

theorem signed_ref_update_safe:
  assumes "gix_laws G" "write_git_object_ref_with_expectation G L p e w = (r, w')"
  shows "(\<not> is_ok r \<longrightarrow> find_reference G (w_git w') = find_reference G (w_git w)) \<and>
    (\<forall>rep. r = Inr rep \<longrightarrow>
       verify_ref_expectation_signature L e = Inr True \<and>
       find_reference G (w_git w) (re_ref_name e) = Inr (re_expected_previous_oid e) \<and>
       ur_previous_oid rep = re_expected_previous_oid e \<and>
       (if ur_status rep = AlreadyAtNewOid
        then re_expected_previous_oid e = Some (re_new_oid e) \<and>
             find_reference G (w_git w') = find_reference G (w_git w)
        else \<exists>new. oid_from_hex G (re_new_oid e) = Inr new \<and>
             find_reference G (w_git w') = (find_reference G (w_git w))(re_ref_name e := Inr (Some new)) \<and>
             (ur_status rep = RefCreated \<longleftrightarrow> re_expected_previous_oid e = None)))"
proof -
  obtain r1 w1 where op: "open_initialized_store G p w = (r1, w1)" by (rule prod.exhaust)
  have g1: "w_git w1 = w_git w" using open_store_eff(1) [OF op] by simp
  have fail: ?thesis if "w_git w' = w_git w" "\<not> is_ok r"
    using that by (cases r) auto
  show ?thesis
  proof (cases r1)
    case (Inl err)
    with assms(2) op g1 have "w_git w' = w_git w" "\<not> is_ok r"
      by (simp_all add: write_git_object_ref_with_expectation_def eff_simps split: prod.splits) auto
    then show ?thesis by (rule fail)
  next
    case (Inr st)
    show ?thesis
    proof (cases "verify_ref_expectation_signature L e = Inr True \<and>
        (\<exists>cur. find_reference G (w_git w) (re_ref_name e) = Inr cur \<and> cur = re_expected_previous_oid e)")
      case False
      then have "w_git w' = w_git w \<and> \<not> is_ok r"
        using assms(2) op Inr g1
        by (cases "verify_ref_expectation_signature L e"; cases "find_reference G (w_git w) (re_ref_name e)")
          (auto simp: write_git_object_ref_with_expectation_def eff_simps split: option.splits if_splits)
      then show ?thesis using fail by blast
    next
      case True
      then have v: "verify_ref_expectation_signature L e = Inr True"
        and c: "find_reference G (w_git w) (re_ref_name e) = Inr (re_expected_previous_oid e)" by auto
      show ?thesis
      proof (cases "re_expected_previous_oid e = Some (re_new_oid e)")
        case True
        with assms(2) op Inr g1 v c have "w' = w1" "r = Inr (update_report e (Some (re_new_oid e)) AlreadyAtNewOid)"
          by (simp_all add: write_git_object_ref_with_expectation_def eff_simps)
        with v c g1 True show ?thesis by (simp add: update_report_def)
      next
        case False
        with assms(2) op Inr g1 v c have "move_reference G e (re_expected_previous_oid e) w1 = (r, w')"
          by (cases "re_expected_previous_oid e")
            (auto simp: write_git_object_ref_with_expectation_def eff_simps)
        from move_reference_eff [OF assms(1) this] v c g1 show ?thesis
          by (cases r) (auto simp: update_report_def split: option.splits)
      qed
    qed
  qed
qed

theorem signed_ref_update_safe_witness:
  "\<exists>e rep w'. write_git_object_ref_with_expectation ref_gix ref_lib [''r''] e ref_world = (Inr rep, w') \<and>
     ur_status rep = RefCreated \<and> find_reference ref_gix (w_git w') ''refs/x'' = Inr (Some ''aa'') \<and>
     find_reference ref_gix (w_git ref_world) ''refs/x'' = Inr (re_expected_previous_oid e)"
proof -
  obtain m where "signed_ref_expectation_message ref_lib ''refs/x'' None ''aa'' = Inr m"
    using ref_message_total [OF ref_lib_laws(1)] by blast
  then obtain e where e: "sign_ref_expectation ref_lib ''refs/x'' None ''aa'' (replicate 32 1) None = Inr e"
    by (simp add: sign_ref_expectation_def)
  then have f: "re_ref_name e = ''refs/x''" "re_expected_previous_oid e = None" "re_new_oid e = ''aa''"
    by (auto simp: sign_ref_expectation_def r_bind_Inr_iff)
  have v: "verify_ref_expectation_signature ref_lib e = Inr True"
    by (rule verify_signed_expectation [OF ref_lib_laws(4,2,1) _ e]) simp
  have "find_reference ref_gix (w_git ref_world) ''refs/x'' = Inr None" by (simp add: ref_gix_def ref_world_def)
  then obtain rep w' where run: "write_git_object_ref_with_expectation ref_gix ref_lib [''r''] e ref_world = (Inr rep, w')"
    using open_store_ready [OF ref_world_ready [of "[''r'']"] ref_world_calm] v f
    by (simp add: write_git_object_ref_with_expectation_def eff_simps move_reference_def on_git_def)
      (simp add: ref_gix_def ref_world_def eff_simps on_git_def)
  have ops: "oid_from_hex ref_gix = Inr" "find_reference ref_gix (w_git ref_world) n = Inr None" for n
    by (simp_all add: ref_gix_def ref_world_def)
  have "ur_status rep = RefCreated" "find_reference ref_gix (w_git w') ''refs/x'' = Inr (Some ''aa'')"
    using signed_ref_update_safe [OF ref_gix_laws run] f ops by (auto split: if_splits)
  with run f(2) ops(2) show ?thesis
    by (intro exI [where x = e] exI [where x = rep] exI [where x = w']) simp
qed

end
