(* ===== verification/Git_Integrity.thy ===== *)
theory Git_Integrity
  imports Ref_Update
begin

text \<open>
  The object store as a transition system: every public operation, run with any faults, interleaved
  with any change of the Git state from outside.  The invariant is that a cache file is always a
  complete object whose content hashes to the file's name.  Then what verification reports, and the
  initialisation of the store.
\<close>

section \<open>The invariant of the cache\<close>

definition entry_ok :: "lib \<Rightarrow> str \<Rightarrow> bytes \<Rightarrow> bool" where
  "entry_ok L h b \<longleftrightarrow> (\<exists>obj. (canonical_object_bytes L obj = Inr b \<or> read_object_bytes L b = Inr obj) \<and>
     fields_ok L obj \<and> object_hex (co_object_id obj) = Inr h)"

definition cache_ok :: "lib \<Rightarrow> path \<Rightarrow> fs \<Rightarrow> bool" where
  "cache_ok L gd s \<longleftrightarrow> (\<forall>h b. tree s (cache_path_of gd h) = Some (File b) \<longrightarrow> entry_ok L h b)"

definition repo_at :: "'g gix \<Rightarrow> path \<Rightarrow> path \<Rightarrow> 'g world \<Rightarrow> bool" where
  "repo_at G gd p w \<longleftrightarrow> (\<forall>gd' wd. discover G (w_git w) p = Inr (gd', wd) \<longrightarrow> gd' = gd)"

inductive store_step :: "'g gix \<Rightarrow> lib \<Rightarrow> path \<Rightarrow> 'g world \<Rightarrow> 'g world \<Rightarrow> bool" for G L gd where
  step_init: "repo_at G gd p w \<Longrightarrow> init_rickydata_repository G p w = (r1, w') \<Longrightarrow> store_step G L gd w w'"
| step_write_cached: "repo_at G gd p w \<Longrightarrow> write_cached_object G L p kind body w = (r2, w') \<Longrightarrow> store_step G L gd w w'"
| step_write_canonical: "repo_at G gd p w \<Longrightarrow> write_canonical_object G L p obj w = (r3, w') \<Longrightarrow> store_step G L gd w w'"
| step_read: "repo_at G gd p w \<Longrightarrow> read_cached_object G L p i w = (r4, w') \<Longrightarrow> store_step G L gd w w'"
| step_list: "repo_at G gd p w \<Longrightarrow> list_ref_backed_objects G L p k w = (r5, w') \<Longrightarrow> store_step G L gd w w'"
| step_verify: "repo_at G gd p w \<Longrightarrow> verify_cached_object G L p i w = (r6, w') \<Longrightarrow> store_step G L gd w w'"
| step_update_ref: "repo_at G gd p w \<Longrightarrow> write_git_object_ref_with_expectation G L p e w = (r7, w') \<Longrightarrow> store_step G L gd w w'"
| step_outside: "tree (w_fs w') = tree (w_fs w) \<Longrightarrow> store_step G L gd w w'"

abbreviation cache_inv :: "lib \<Rightarrow> path \<Rightarrow> 'g world \<Rightarrow> bool" where
  "cache_inv L gd \<equiv> \<lambda>w. cache_ok L gd (w_fs w)"

lemma cache_ok_cong: "tree s' = tree s \<Longrightarrow> cache_ok L gd s' = cache_ok L gd s"
  by (simp add: cache_ok_def)

lemma keeps_on_fs: "keeps P m \<Longrightarrow> keeps (\<lambda>w. P (w_fs w)) (on_fs m)"
  by (auto simp: keeps_def on_fs_def split: prod.splits)

lemma keeps_on_git: "keeps (\<lambda>w. P (w_fs w)) (on_git m)"
  by (auto simp: keeps_def on_git_def split: prod.splits)

lemma keeps_same_tree: "(\<And>s r s'. m s = (r, s') \<Longrightarrow> tree s' = tree s) \<Longrightarrow> keeps (cache_ok L gd) m"
  by (rule keepsI) (metis cache_ok_cong)

lemma keeps_cache_read: "keeps (cache_ok L gd) (fs_read p)"
  by (rule keeps_same_tree) (rule fs_read_tree)

lemma keeps_cache_create: "keeps (cache_ok L gd) (fs_create_dir_all p)"
proof (rule keepsI)
  fix s r s' assume *: "cache_ok L gd s" "fs_create_dir_all p s = (r, s')"
  show "cache_ok L gd s'"
    unfolding cache_ok_def
  proof (intro allI impI)
    fix h b assume "tree s' (cache_path_of gd h) = Some (File b)"
    with fs_create_dir_all_tree(1) [OF *(2), of "cache_path_of gd h"]
    have "tree s (cache_path_of gd h) = Some (File b)" by auto
    then show "entry_ok L h b" using *(1) by (auto simp: cache_ok_def)
  qed
qed

lemma keeps_cache_write_other:
  assumes "\<And>h. p \<noteq> cache_path_of gd h"
  shows "keeps (cache_ok L gd) (fs_write p b)"
proof (rule keepsI)
  fix s r s' assume ok: "cache_ok L gd s" and run: "fs_write p b s = (r, s')"
  have "tree s' (cache_path_of gd h) = tree s (cache_path_of gd h)" for h
    using run assms [of h] by (cases rule: fs_write_tree) auto
  with ok show "cache_ok L gd s'" by (simp add: cache_ok_def)
qed

lemma keeps_cache_object:
  assumes "entry_ok L h b"
  shows "keeps (cache_ok L gd) (write_object_cache_bytes (temp_dir_of gd) (cache_path_of gd h) i b)"
proof (rule keepsI)
  fix s r s' assume ok: "cache_ok L gd s"
    and run: "write_object_cache_bytes (temp_dir_of gd) (cache_path_of gd h) i b s = (r, s')"
  show "cache_ok L gd s'"
    unfolding cache_ok_def
  proof (intro allI impI)
    fix h' b' assume f: "tree s' (cache_path_of gd h') = Some (File b')"
    show "entry_ok L h' b'"
    proof (cases "h' = h")
      case True
      with f write_cache_eff(1) [OF run] ok assms show ?thesis by (auto simp: cache_ok_def)
    next
      case False
      with f write_cache_eff(2) [OF run, of "cache_path_of gd h'"] ok show ?thesis by (auto simp: cache_ok_def)
    qed
  qed
qed

lemma keeps_cache_version: "keeps (cache_ok L gd) (ensure_version_matches p)"
  unfolding ensure_version_matches_def fs_read_to_string_def
  by (intro keeps_bind keeps_map_err keeps_if keeps_cache_read keeps_basic)

lemma keeps_open: "keeps (cache_inv L gd) (open_initialized_store G p)"
  by (rule keepsI) (metis open_store_eff(1) cache_ok_cong)

text \<open>What follows the opening of the store sees the expected directory.\<close>

lemma after_open:
  assumes "e_bind (open_initialized_store G p) k w = (r, w')" "repo_at G gd p w" "cache_inv L gd w"
    and "keeps (cache_inv L gd) (k \<lparr>st_git_dir = gd, st_temp_dir = temp_dir_of gd\<rparr>)"
  shows "cache_inv L gd w'"
  using assms(1)
proof (cases rule: e_bind_cases)
  case (err e)
  then show ?thesis using keeps_open assms(3) by (blast dest: keepsD)
next
  case (ok st w1)
  from open_store_eff(2) [OF ok(1) refl] assms(2) have "st = \<lparr>st_git_dir = gd, st_temp_dir = temp_dir_of gd\<rparr>"
    by (auto simp: repo_at_def store_ready_def)
  moreover have "cache_inv L gd w1" using keeps_open assms(3) ok(1) by (blast dest: keepsD)
  ultimately show ?thesis using ok(2) assms(4) by (blast dest: keepsD)
qed

lemma keeps_store_object:
  assumes "\<And>h. object_hex (co_object_id obj) = Inr h \<Longrightarrow> entry_ok L h b"
  shows "keeps (cache_inv L gd) (store_object G \<lparr>st_git_dir = gd, st_temp_dir = temp_dir_of gd\<rparr> obj b)"
  unfolding store_object_def rickydata_store.simps
proof (rule keeps_gives_bind)
  show "gives (cache_inv L gd) (e_lift (object_cache_path gd (co_object_id obj)))
      (\<lambda>cp. \<exists>h. object_hex (co_object_id obj) = Inr h \<and> cp = cache_path_of gd h)"
    by (rule gives_lift) simp
  fix cp assume "\<exists>h. object_hex (co_object_id obj) = Inr h \<and> cp = cache_path_of gd h"
  then obtain h where h: "object_hex (co_object_id obj) = Inr h" "cp = cache_path_of gd h" by blast
  show "keeps (cache_inv L gd)
      (e_bind (on_fs (write_object_cache_bytes (temp_dir_of gd) cp (co_object_id obj) b))
       (\<lambda>status. e_bind (e_lift (object_ref_name (co_object_id obj)))
          (\<lambda>ref_name. e_bind (on_git (write_git_object_ref G (co_object_id obj) ref_name b))
             (\<lambda>git_object_id. e_ret (write_report status obj cp ref_name git_object_id b)))))"
    unfolding h(2)
    by (intro keeps_bind keeps_on_fs keeps_on_git keeps_cache_object assms h(1) keeps_basic)
qed

lemma step_write_canonical_inv:
  assumes "repo_at G gd p w" "write_canonical_object G L p obj w = (r, w')" "cache_inv L gd w"
  shows "cache_inv L gd w'"
  using assms(2,1,3) unfolding write_canonical_object_def
proof (rule after_open)
  show "keeps (cache_inv L gd) (e_bind (e_lift (object_field_diagnostics L (co_object_id obj) obj))
     (\<lambda>(uu, diagnostics).
         if diagnostics \<noteq> []
         then e_fail (ObjectIo (''canonical object '' @ co_object_id obj @ '' failed validation: '' @
                 join_with ''; '' (map (\<lambda>d. od_code d @ '': '' @ od_message d) diagnostics)))
         else e_bind (e_lift (canonical_object_bytes L obj))
                (store_object G \<lparr>st_git_dir = gd, st_temp_dir = temp_dir_of gd\<rparr> obj)))"
  proof (rule keeps_gives_bind [OF gives_lift], assumption, clarify)
    fix x ds assume d: "object_field_diagnostics L (co_object_id obj) obj = Inr (x, ds)"
    show "keeps (cache_inv L gd)
        (if ds \<noteq> []
         then e_fail (ObjectIo (''canonical object '' @ co_object_id obj @ '' failed validation: '' @
                 join_with ''; '' (map (\<lambda>d. od_code d @ '': '' @ od_message d) ds)))
         else e_bind (e_lift (canonical_object_bytes L obj))
                (store_object G \<lparr>st_git_dir = gd, st_temp_dir = temp_dir_of gd\<rparr> obj))"
    proof (cases "ds = []")
      case True
      with d have f: "fields_ok L obj" by (simp add: field_diagnostics_clean)
      have "keeps (cache_inv L gd) (e_bind (e_lift (canonical_object_bytes L obj))
                (store_object G \<lparr>st_git_dir = gd, st_temp_dir = temp_dir_of gd\<rparr> obj))"
        by (rule keeps_gives_bind [OF gives_lift], assumption, rule keeps_store_object)
          (use f in \<open>auto simp: entry_ok_def\<close>)
      with True show ?thesis by simp
    qed simp
  qed
qed

lemma step_write_cached_inv:
  assumes "repo_at G gd p w" "write_cached_object G L p kind body w = (r, w')" "cache_inv L gd w"
  shows "cache_inv L gd w'"
  using assms(2,1,3) unfolding write_cached_object_def
proof (rule after_open)
  show "keeps (cache_inv L gd) (e_bind (e_lift (map_err (\<lambda>e. ObjectIo (core_error_text e))
         (canonical_object_new L kind DEFAULT_SCHEMA_VERSION 0 (canonical_json body))))
       (\<lambda>obj. e_bind (e_lift (canonical_object_bytes L obj))
          (store_object G \<lparr>st_git_dir = gd, st_temp_dir = temp_dir_of gd\<rparr> obj)))"
  proof (rule keeps_gives_bind [OF gives_lift], assumption, simp only: map_err_Inr_iff)
    fix obj assume n: "canonical_object_new L kind DEFAULT_SCHEMA_VERSION 0 (canonical_json body) = Inr obj"
    show "keeps (cache_inv L gd) (e_bind (e_lift (canonical_object_bytes L obj))
          (store_object G \<lparr>st_git_dir = gd, st_temp_dir = temp_dir_of gd\<rparr> obj))"
      by (rule keeps_gives_bind [OF gives_lift], assumption, rule keeps_store_object)
        (use canonical_object_new_fields [OF n] in \<open>auto simp: entry_ok_def\<close>)
  qed
qed

text \<open>Reading writes the cache only with bytes it has checked.\<close>

lemma keeps_read_or_ref:
  assumes "object_hex i = Inr h"
  shows "keeps (cache_inv L gd) (read_object_from_cache_or_ref G L \<lparr>st_git_dir = gd, st_temp_dir = temp_dir_of gd\<rparr>
    (cache_path_of gd h) i)"
proof (rule keepsI)
  fix w r w'
  assume ok: "cache_inv L gd w" and run: "read_object_from_cache_or_ref G L
      \<lparr>st_git_dir = gd, st_temp_dir = temp_dir_of gd\<rparr> (cache_path_of gd h) i w = (r, w')"
  show "cache_inv L gd w'"
  proof (cases "exists_at (w_fs w) (cache_path_of gd h)")
    case True
    have "keeps (cache_inv L gd) (e_bind (on_fs (read_object_file L (cache_path_of gd h))) (\<lambda>obj. e_ret (Cache, obj)))"
      unfolding read_object_file_def
      by (intro keeps_bind keeps_on_fs keeps_map_err keeps_cache_read keeps_basic)
    with True run ok show ?thesis
      by (simp add: read_object_from_cache_or_ref_def) (blast dest: keepsD)
  next
    case False
    show ?thesis
    proof (cases "read_git_object_ref G (w_git w) (ref_name_of h)")
      case (Inl e)
      with False run assms ok show ?thesis
        by (simp add: read_object_from_cache_or_ref_def object_ref_name_Inr eff_simps)
    next
      case (Inr blob)
      show ?thesis
      proof (cases "\<exists>b obj x. blob = Some b \<and> read_object_bytes L b = Inr obj \<and> object_field_diagnostics L i obj = Inr (x, [])")
        case True
        then obtain b obj x where b: "blob = Some b" "read_object_bytes L b = Inr obj"
          "object_field_diagnostics L i obj = Inr (x, [])" by blast
        then have "entry_ok L h b" using assms by (auto simp: entry_ok_def field_diagnostics_clean)
        then have k: "keeps (cache_inv L gd) (on_fs (write_object_cache_bytes (temp_dir_of gd) (cache_path_of gd h) i b))"
          by (intro keeps_on_fs keeps_cache_object)
        obtain r1 w1 where wr: "on_fs (write_object_cache_bytes (temp_dir_of gd) (cache_path_of gd h) i b) w = (r1, w1)"
          by (rule prod.exhaust)
        have "w' = w1"
          using False run assms Inr b wr
          by (cases r1) (auto simp: read_object_from_cache_or_ref_def object_ref_name_Inr eff_simps)
        with keepsD [OF k wr ok] show ?thesis by simp
      next
        case None: False
        have "w' = w"
          using False run assms Inr None
          by (cases blob; cases "read_object_bytes L (the blob)"; cases "object_field_diagnostics L i (projr (read_object_bytes L (the blob)))")
            (auto simp: read_object_from_cache_or_ref_def object_ref_name_Inr eff_simps split: if_splits)
        with ok show ?thesis by simp
      qed
    qed
  qed
qed

lemma keeps_cache_path:
  assumes "\<And>h. object_hex i = Inr h \<Longrightarrow> keeps (cache_inv L gd) (k (cache_path_of gd h))"
  shows "keeps (cache_inv L gd) (e_bind (e_lift (object_cache_path gd i)) k)"
  by (rule keeps_gives_bind [OF gives_lift], assumption) (use assms in auto)

lemma step_read_inv:
  assumes "repo_at G gd p w" "read_cached_object G L p i w = (r, w')" "cache_inv L gd w"
  shows "cache_inv L gd w'"
  using assms(2,1,3) unfolding read_cached_object_def
  by (rule after_open) (auto intro!: keeps_cache_path keeps_bind keeps_read_or_ref)

lemma step_list_inv:
  assumes "repo_at G gd p w" "list_ref_backed_objects G L p k w = (r, w')" "cache_inv L gd w"
  shows "cache_inv L gd w'"
  using assms(2,1,3) unfolding list_ref_backed_objects_def
  by (rule after_open) (intro keeps_bind keeps_basic)

lemma keeps_verify_uncached:
  assumes "object_hex i = Inr h"
  shows "keeps (cache_inv L gd)
    (verify_uncached G L \<lparr>st_git_dir = gd, st_temp_dir = temp_dir_of gd\<rparr> (cache_path_of gd h) i)"
proof (rule keepsI)
  fix w r w' assume ok: "cache_inv L gd w"
    and run: "verify_uncached G L \<lparr>st_git_dir = gd, st_temp_dir = temp_dir_of gd\<rparr> (cache_path_of gd h) i w = (r, w')"
  obtain r1 w1 where rd: "read_object_from_cache_or_ref G L \<lparr>st_git_dir = gd, st_temp_dir = temp_dir_of gd\<rparr>
      (cache_path_of gd h) i w = (r1, w1)" by (rule prod.exhaust)
  have "w' = w1" using run rd by (auto simp: verify_uncached_def split: sum.splits git_error.splits)
  then show "cache_inv L gd w'" using keepsD [OF keeps_read_or_ref [OF assms] rd] ok by simp
qed

lemma keeps_verify_cached: "keeps (cache_inv L gd) (verify_cached G L cp i)"
proof (rule keepsI)
  fix w r w' assume ok: "cache_inv L gd w" and run: "verify_cached G L cp i w = (r, w')"
  obtain r1 w1 where rd: "on_fs (read_object_file L cp) w = (r1, w1)" by (rule prod.exhaust)
  have k: "keeps (cache_inv L gd) (on_fs (read_object_file L cp))"
    unfolding read_object_file_def by (intro keeps_on_fs keeps_bind keeps_map_err keeps_cache_read keeps_basic)
  have "w' = w1" using run rd by (auto simp: verify_cached_def split: sum.splits)
  then show "cache_inv L gd w'" using keepsD [OF k rd] ok by simp
qed

lemma step_verify_inv:
  assumes "repo_at G gd p w" "verify_cached_object G L p i w = (r, w')" "cache_inv L gd w"
  shows "cache_inv L gd w'"
  using assms(2,1,3) unfolding verify_cached_object_def rickydata_store.simps
  by (rule after_open)
    (auto intro!: keeps_cache_path keeps_cond keeps_verify_uncached keeps_verify_cached simp: if_not_P)

lemma move_reference_fs: "move_reference G e c w = (r, w') \<Longrightarrow> w_fs w' = w_fs w"
  unfolding move_reference_def
  by (auto simp: eff_simps on_git_def split: prod.splits sum.splits option.splits)

lemma step_update_ref_inv:
  assumes "repo_at G gd p w" "write_git_object_ref_with_expectation G L p e w = (r, w')" "cache_inv L gd w"
  shows "cache_inv L gd w'"
proof -
  have m: "keeps (cache_inv L gd) (move_reference G e c)" for c
    by (rule keepsI) (simp add: move_reference_fs)
  show ?thesis
    using assms(2,1,3) unfolding write_git_object_ref_with_expectation_def
    by (rule after_open) (auto intro!: keeps_bind m split: option.split)
qed

lemma step_init_inv:
  assumes "repo_at G gd p w" "init_rickydata_repository G p w = (r, w')" "cache_inv L gd w"
  shows "cache_inv L gd w'"
proof -
  have dir: "keeps (cache_ok L gd) (ensure_dir q l)" for q l
  proof (rule keepsI)
    fix s r s' assume "cache_ok L gd s" "ensure_dir q l s = (r, s')"
    moreover have "keeps (cache_ok L gd) (e_bind (e_map_err InitIo (fs_create_dir_all q)) (\<lambda>_. e_ret x))"
      for x :: path_log by (intro keeps_bind keeps_map_err keeps_cache_create keeps_basic)
    ultimately show "cache_ok L gd s'"
      by (auto simp: ensure_dir_def split: prod.splits if_splits dest: keepsD)
  qed
  have ver: "keeps (cache_ok L gd) (ensure_version_file (version_file_of gd) l)" for l
  proof (rule keepsI)
    fix s r s' assume ok: "cache_ok L gd s" and run: "ensure_version_file (version_file_of gd) l s = (r, s')"
    have w: "keeps (cache_ok L gd) (e_bind (e_map_err InitIo (fs_write (version_file_of gd) b)) (\<lambda>_. e_ret x))"
      for b and x :: path_log by (intro keeps_bind keeps_map_err keeps_cache_write_other keeps_basic) simp
    have m: "keeps (cache_ok L gd) (e_bind (ensure_version_matches q) (\<lambda>_. e_ret x))" for q and x :: path_log
      by (intro keeps_bind keeps_cache_version keeps_basic)
    obtain created existing where l: "l = (created, existing)" by (rule prod.exhaust)
    show "cache_ok L gd s'"
    proof (cases "exists_at s (version_file_of gd)")
      case True
      with run l ok show ?thesis by (simp add: ensure_version_file_def) (blast intro: keepsD [OF m])
    next
      case False
      with run l ok show ?thesis by (simp add: ensure_version_file_def) (blast intro: keepsD [OF w])
    qed
  qed
  show ?thesis
    using assms(2) unfolding init_rickydata_repository_def
  proof (cases rule: e_bind_cases)
    case (err e)
    then show ?thesis using assms(3) by (simp add: discover_repo_def)
  next
    case (ok x w1)
    obtain gd' wd where x: "x = (gd', wd)" by (rule prod.exhaust)
    with ok(1) assms(1) have "gd' = gd" "w1 = w"
      by (auto simp: repo_at_def discover_repo_def split: sum.splits if_splits)
    with ok(2) x have "e_bind (on_fs (e_fold ensure_dir (init_dirs gd) ([], []))) (\<lambda>l.
        e_bind (on_fs (ensure_version_file (version_file_of gd) l)) (\<lambda>(created, existing).
        e_ret (init_report gd wd created existing))) w = (r, w')"
      by (simp add: init_report_def)
    moreover have "keeps (cache_inv L gd) (e_bind (on_fs (e_fold ensure_dir (init_dirs gd) ([], []))) (\<lambda>l.
        e_bind (on_fs (ensure_version_file (version_file_of gd) l)) (\<lambda>(created, existing).
        e_ret (init_report gd wd created existing))))"
      by (intro keeps_bind keeps_on_fs keeps_fold dir ver) auto
    ultimately show ?thesis using assms(3) by (blast dest: keepsD)
  qed
qed

lemma store_step_inv: "store_step G L gd w w' \<Longrightarrow> cache_inv L gd w \<Longrightarrow> cache_inv L gd w'"
proof (induction rule: store_step.induct)
  case (step_outside w' w)
  then show ?case by (simp add: cache_ok_def)
qed (blast intro: step_init_inv step_write_cached_inv step_write_canonical_inv step_read_inv step_list_inv
  step_verify_inv step_update_ref_inv)+

lemma store_steps_inv: "(store_step G L gd)\<^sup>*\<^sup>* w w' \<Longrightarrow> cache_inv L gd w \<Longrightarrow> cache_inv L gd w'"
  by (induction rule: rtranclp_induct) (auto intro: store_step_inv)

section \<open>Verification and initialisation\<close>

text \<open>Signature diagnostics are warnings; the count is the number of signatures that verify.\<close>

lemma signature_diagnostics:
  "fst (append_signature_diagnostics L obj i ss) =
     of_nat (length (filter (\<lambda>s. verify_signature L (co_kind obj) (co_schema_version obj) (co_body obj) s = Inr True) ss)) \<and>
   (\<forall>d \<in> set (snd (append_signature_diagnostics L obj i ss)). is_signature_warning (od_code d))"
proof (induction ss arbitrary: i)
  case (Cons s ss)
  have "sig_algorithm s \<noteq> SIGNATURE_ALGORITHM_ED25519 \<Longrightarrow>
      verify_signature L (co_kind obj) (co_schema_version obj) (co_body obj) s \<noteq> Inr True"
    by (simp add: verify_signature_def parse_signature_def)
  with Cons [of "Suc i"] show ?case
    by (auto simp: is_signature_warning_def split: prod.splits sum.splits bool.splits)
qed simp

lemma field_diagnostics_empty:
  "object_field_diagnostics L i obj = Inr (x, ds) \<Longrightarrow> ds = [] \<longleftrightarrow> fields_ok L obj \<and> co_object_id obj = i"
  by (auto simp: object_field_diagnostics_def fields_ok_def r_bind_Inr_iff split: if_splits)

lemma field_codes:
  "object_field_diagnostics L i obj = Inr (x, ds) \<Longrightarrow> \<forall>d \<in> set ds. \<not> is_signature_warning (od_code d)"
  by (auto simp: object_field_diagnostics_def r_bind_Inr_iff is_signature_warning_def split: if_splits)

lemma ref_codes:
  "append_ref_consistency_diagnostics G L g i obj = Inr ds \<Longrightarrow> \<forall>d \<in> set ds. \<not> is_signature_warning (od_code d)"
  by (auto simp: append_ref_consistency_diagnostics_def r_bind_Inr_iff is_signature_warning_def
      split: option.splits if_splits)

lemma ref_consistency_clean:
  assumes "object_hex i = Inr h" "append_ref_consistency_diagnostics G L g i obj = Inr ds"
  shows "ds = [] \<longleftrightarrow> (\<forall>k c. find_reference G g (ref_name_of h) = Inr (Some k) \<longrightarrow> find_blob G g k = Inr c \<longrightarrow>
    canonical_object_bytes L obj = Inr c)"
  using assms
  by (auto simp: append_ref_consistency_diagnostics_def object_ref_name_Inr read_git_object_ref_def r_bind_Inr_iff
      split: option.splits if_splits)

lemma verify_object_fieldsD:
  assumes "verify_object_fields L i cp src obj ds = Inr rep" "\<forall>d \<in> set ds. \<not> is_signature_warning (od_code d)"
  shows "vr_valid rep \<longleftrightarrow> ds = [] \<and> fields_ok L obj \<and> co_object_id obj = i"
    and "vr_valid_signature_count rep =
      of_nat (length (filter (\<lambda>s. verify_signature L (co_kind obj) (co_schema_version obj) (co_body obj) s = Inr True) (co_signatures obj)))"
    and "vr_signature_count rep = of_nat (length (co_signatures obj))"
proof -
  obtain c h fds where f: "object_field_diagnostics L i obj = Inr ((c, h), fds)"
    using assms(1) by (cases "object_field_diagnostics L i obj") (auto simp: verify_object_fields_def)
  obtain n sds where sg: "append_signature_diagnostics L obj 0 (co_signatures obj) = (n, sds)" by (rule prod.exhaust)
  have sd: "n = of_nat (length (filter (\<lambda>s. verify_signature L (co_kind obj) (co_schema_version obj) (co_body obj) s = Inr True) (co_signatures obj)))"
    "\<forall>d \<in> set sds. is_signature_warning (od_code d)"
    using signature_diagnostics [of L obj 0 "co_signatures obj"] sg by simp_all
  have rep: "vr_valid rep = (\<not> list_ex (\<lambda>d. \<not> is_signature_warning (od_code d)) (ds @ fds @ sds))"
    "vr_valid_signature_count rep = n" "vr_signature_count rep = of_nat (length (co_signatures obj))"
    using assms(1) f sg by (auto simp: verify_object_fields_def Let_def)
  have "vr_valid rep \<longleftrightarrow> ds = [] \<and> fds = []"
    using rep(1) sd(2) field_codes [OF f] assms(2) by (cases ds; cases fds) (simp_all add: list_ex_iff)
  then show "vr_valid rep \<longleftrightarrow> ds = [] \<and> fields_ok L obj \<and> co_object_id obj = i"
    using field_diagnostics_empty [OF f] by blast
  show "vr_valid_signature_count rep =
      of_nat (length (filter (\<lambda>s. verify_signature L (co_kind obj) (co_schema_version obj) (co_body obj) s = Inr True) (co_signatures obj)))"
    "vr_signature_count rep = of_nat (length (co_signatures obj))"
    using rep(2,3) sd(1) by simp_all
qed

lemma verify_cached_run:
  assumes "store_ready G p gd w" "faults (w_fs w) = []" "object_hex i = Inr h"
    and "tree (w_fs w) (cache_path_of gd h) = Some (File b)" "read_object_bytes L b = Inr obj"
  shows "verify_cached_object G L p i w =
    (r_bind (append_ref_consistency_diagnostics G L (w_git w) i obj)
       (verify_object_fields L i (cache_path_of gd h) Cache obj), w)"
  using assms open_store_ready [OF assms(1,2)]
  by (simp add: verify_cached_object_def object_cache_path_Inr eff_simps exists_at_def verify_cached_def on_fs_def
      read_object_file_def fs_simps lookup_file_def)

text \<open>Directories and the version file.\<close>

lemma exists_at_tree: "tree s' q = tree s q \<Longrightarrow> exists_at s' q = exists_at s q"
  by (simp add: exists_at_def)

lemma ensure_dir_eff:
  assumes "ensure_dir p l s = (Inr l', s')" "faults s = []"
  shows "exists_at s' p \<and> (\<forall>q. exists_at s q \<longrightarrow> exists_at s' q \<and> tree s' q = tree s q) \<and> faults s' = []"
proof -
  obtain c e where l: "l = (c, e)" by (rule prod.exhaust)
  show ?thesis
  proof (cases "exists_at s p")
    case True
    with assms l show ?thesis by (auto simp: ensure_dir_def)
  next
    case False
    obtain r1 s1 where cd: "fs_create_dir_all p s = (r1, s1)" by (rule prod.exhaust)
    with assms(1) l False have *: "is_ok r1" "s' = s1"
      by (cases r1; simp add: ensure_dir_def eff_simps)+
    from False have "p \<noteq> []" by (auto simp: exists_at_def)
    then have "tree s1 p = Some Dir" using fs_create_dir_all_tree(2) [OF cd *(1)] by simp
    moreover have "tree s1 q = tree s q" if "exists_at s q" for q
    proof (cases "q = []")
      case True
      then show ?thesis using fs_create_dir_all_tree(1) [OF cd, of q] by (auto simp: in_ancestors_of)
    next
      case False
      then show ?thesis using that fs_create_dir_all_tree(1) [OF cd, of q] by (auto simp: exists_at_def)
    qed
    moreover have "faults s1 = []" by (rule calm_step(4) [OF assms(2) cd])
    ultimately show ?thesis using *(2) by (auto simp: exists_at_def)
  qed
qed

lemma ensure_dirs_eff:
  assumes "e_fold ensure_dir ps l s = (Inr l', s')" "faults s = []"
  shows "(\<forall>p \<in> set ps. exists_at s' p) \<and> (\<forall>q. exists_at s q \<longrightarrow> exists_at s' q \<and> tree s' q = tree s q) \<and> faults s' = []"
  using assms
proof (induction ps arbitrary: l s)
  case (Cons p ps)
  from Cons.prems(1) obtain l1 s1 where *: "ensure_dir p l s = (Inr l1, s1)" "e_fold ensure_dir ps l1 s1 = (Inr l', s')"
    by (auto elim: e_bind_Inr)
  note d = ensure_dir_eff [OF *(1) Cons.prems(2)]
  with Cons.IH [OF *(2)] show ?case by auto
qed simp

lemma ensure_dirs_again:
  "\<forall>p \<in> set ps. exists_at s p \<Longrightarrow> e_fold ensure_dir ps (c, e) s = (Inr (c, e @ ps), s)"
  by (induction ps arbitrary: e) (auto simp: ensure_dir_def eff_simps)

lemma ensure_version_eff:
  assumes "ensure_version_file p l s = (Inr l', s')" "faults s = []"
  shows "\<exists>b t. tree s' p = Some (File b) \<and> from_utf8 b = Some t \<and> trim t = RICKYDATA_STORE_VERSION"
    and "\<forall>q. q \<noteq> p \<longrightarrow> tree s' q = tree s q" and "faults s' = []"
proof -
  obtain c e where l: "l = (c, e)" by (rule prod.exhaust)
  have "(\<exists>b t. tree s' p = Some (File b) \<and> from_utf8 b = Some t \<and> trim t = RICKYDATA_STORE_VERSION) \<and>
    (\<forall>q. q \<noteq> p \<longrightarrow> tree s' q = tree s q) \<and> faults s' = []"
  proof (cases "exists_at s p")
    case True
    obtain r1 s1 where m: "ensure_version_matches p s = (r1, s1)" by (rule prod.exhaust)
    with assms(1) l True obtain u where "r1 = Inr u" "s' = s1"
      by (cases r1) (auto simp: ensure_version_file_def eff_simps)
    moreover from m assms(2) have "faults s1 = []"
      by (auto simp: ensure_version_matches_def fs_read_to_string_def eff_simps fs_simps split: sum.splits if_splits)
    ultimately show ?thesis using ensure_version_matches_eff [OF m] by auto
  next
    case False
    obtain r1 s1 where wr: "fs_write p (str_bytes (RICKYDATA_STORE_VERSION @ ''\<newline>'')) s = (r1, s1)" by (rule prod.exhaust)
    with assms(1) l False have *: "is_ok r1" "s' = s1"
      by (cases r1; simp add: ensure_version_file_def eff_simps)+
    have f: "faults s1 = []" by (rule calm_step(2) [OF assms(2) wr])
    from wr show ?thesis
      by (cases rule: fs_write_tree) (use * f version_line in auto)
  qed
  then show "\<exists>b t. tree s' p = Some (File b) \<and> from_utf8 b = Some t \<and> trim t = RICKYDATA_STORE_VERSION"
    "\<forall>q. q \<noteq> p \<longrightarrow> tree s' q = tree s q" "faults s' = []" by blast+
qed

lemma init_eff:
  assumes "init_rickydata_repository G p w = (Inr rep, w')" "faults (w_fs w) = []"
  obtains gd wd where "discover G (w_git w) p = Inr (gd, wd)" "w_git w' = w_git w" "faults (w_fs w') = []"
    "\<forall>q \<in> set (init_dirs gd). exists_at (w_fs w') q"
    "\<exists>b t. tree (w_fs w') (version_file_of gd) = Some (File b) \<and> from_utf8 b = Some t \<and> trim t = RICKYDATA_STORE_VERSION"
proof -
  from assms(1) obtain gd wd where d: "discover G (w_git w) p = Inr (gd, wd)"
    by (cases "discover G (w_git w) p") (auto simp: init_rickydata_repository_def eff_simps discover_repo_def split: if_splits)
  obtain r1 s1 where f: "e_fold ensure_dir (init_dirs gd) ([], []) (w_fs w) = (r1, s1)" by (rule prod.exhaust)
  with assms(1) d obtain l where l: "r1 = Inr l"
    by (cases r1) (auto simp: init_rickydata_repository_def eff_simps discover_repo_def on_fs_def)
  obtain r2 s2 where v: "ensure_version_file (version_file_of gd) l s1 = (r2, s2)" by (rule prod.exhaust)
  with assms(1) d f l obtain l2 where l2: "r2 = Inr l2"
    by (cases r2) (auto simp: init_rickydata_repository_def eff_simps discover_repo_def on_fs_def)
  have w': "w' = w\<lparr>w_fs := s2\<rparr>"
    using assms(1) d f l v l2
    by (auto simp: init_rickydata_repository_def eff_simps discover_repo_def on_fs_def split: prod.splits)
  note fe = ensure_dirs_eff [OF f [unfolded l] assms(2)]
  note ve = ensure_version_eff [OF v [unfolded l2]]
  have "\<forall>q \<in> set (init_dirs gd). exists_at s2 q"
  proof
    fix q assume q: "q \<in> set (init_dirs gd)"
    then have "q \<noteq> version_file_of gd" by (auto simp: init_dirs_def Let_def path_defs)
    with ve(2) fe q show "exists_at s2 q" by (metis exists_at_tree)
  qed
  with d w' fe ve show thesis by (intro that) auto
qed

section \<open>Properties\<close>

text \<open>
  C18: a cache file is never partial and never wrong.  From any state without cache files, whatever
  operations run, whatever reads and writes fail or are torn, and however Git changes from outside, a
  file under an object's cache path is the whole serialisation of an object whose id and body hash are
  those of its content, and whose id is the one in the file's name.
\<close>

theorem cache_always_complete:
  assumes "(store_step G L gd)\<^sup>*\<^sup>* w w'" "\<And>h. tree (w_fs w) (cache_path_of gd h) = None"
    and "tree (w_fs w') (cache_path_of gd h) = Some (File b)"
  shows "\<exists>obj. (canonical_object_bytes L obj = Inr b \<or> read_object_bytes L b = Inr obj) \<and>
    stable_json_hash L (co_body obj) = Inr (co_body_hash obj) \<and>
    canonical_object_id L (co_kind obj) (co_schema_version obj) (co_body obj) = Inr (co_object_id obj) \<and>
    object_hex (co_object_id obj) = Inr h"
proof -
  have "cache_ok L gd (w_fs w)" using assms(2) by (simp add: cache_ok_def)
  with store_steps_inv [OF assms(1)] have "cache_ok L gd (w_fs w')" by blast
  then show ?thesis using assms(3) by (auto simp: cache_ok_def entry_ok_def fields_ok_def)
qed

theorem cache_always_complete_witness:
  "\<exists>h b w'. (store_step ref_gix ref_lib [''r'', ''.git''])\<^sup>*\<^sup>* ref_world w' \<and>
     tree (w_fs w') (cache_path_of [''r'', ''.git''] h) = Some (File b) \<and>
     (\<exists>obj. (canonical_object_bytes ref_lib obj = Inr b \<or> read_object_bytes ref_lib b = Inr obj) \<and>
        object_hex (co_object_id obj) = Inr h)"
proof -
  obtain obj h b where o: "fields_ok ref_lib obj" "object_hex (co_object_id obj) = Inr h"
    "canonical_object_bytes ref_lib obj = Inr b"
    by (rule ref_object)
  obtain rep w' where w: "write_canonical_object ref_gix ref_lib [''r''] obj ref_world = (Inr rep, w')"
    using ref_world_write [OF o] by blast
  obtain gd h' b' where *: "store_ready ref_gix [''r''] gd w'" "tree (w_fs w') (cache_path_of gd h') = Some (File b')"
    by (rule written_object [OF ref_gix_laws w])
  have gd: "gd = [''r'', ''.git'']" using *(1) by (auto simp: store_ready_def ref_gix_def)
  have "repo_at ref_gix [''r'', ''.git''] [''r''] ref_world" by (auto simp: repo_at_def ref_gix_def)
  then have s: "(store_step ref_gix ref_lib [''r'', ''.git''])\<^sup>*\<^sup>* ref_world w'"
    using step_write_canonical [OF _ w] by blast
  have none: "tree (w_fs ref_world) (cache_path_of [''r'', ''.git''] x) = None" for x
    by (simp add: ref_world_def cache_path_of_def tree_def)
  show ?thesis using cache_always_complete [OF s none] s *(2) gd by blast
qed

text \<open>
  C19: verification is exact.  For a cached object, the report says valid exactly when the object has
  the requested id, its id and body hash are those of its content, and the bytes behind its reference,
  if there is one, are its canonical bytes; signatures only count, they never make an object invalid.
\<close>

theorem verification_exact:
  assumes "store_ready G p gd w" "faults (w_fs w) = []" "object_hex i = Inr h"
    and "tree (w_fs w) (cache_path_of gd h) = Some (File b)" "read_object_bytes L b = Inr obj"
    and "verify_cached_object G L p i w = (Inr rep, w')"
  shows "w' = w \<and>
    (vr_valid rep \<longleftrightarrow> co_object_id obj = i \<and> fields_ok L obj \<and>
       (\<forall>k c. find_reference G (w_git w) (ref_name_of h) = Inr (Some k) \<longrightarrow> find_blob G (w_git w) k = Inr c \<longrightarrow>
          canonical_object_bytes L obj = Inr c)) \<and>
    vr_signature_count rep = of_nat (length (co_signatures obj)) \<and>
    vr_valid_signature_count rep =
      of_nat (length (filter (\<lambda>s. verify_signature L (co_kind obj) (co_schema_version obj) (co_body obj) s = Inr True) (co_signatures obj)))"
proof -
  have run: "r_bind (append_ref_consistency_diagnostics G L (w_git w) i obj)
       (verify_object_fields L i (cache_path_of gd h) Cache obj) = Inr rep" "w = w'"
    using assms(6) unfolding verify_cached_run [OF assms(1-5)] prod.inject by blast+
  from run(1) obtain ds where *: "append_ref_consistency_diagnostics G L (w_git w) i obj = Inr ds"
    "verify_object_fields L i (cache_path_of gd h) Cache obj ds = Inr rep" "w' = w"
    unfolding r_bind_Inr_iff using run(2) by blast
  note v = verify_object_fieldsD [OF *(2) ref_codes [OF *(1)]]
  have "vr_valid rep \<longleftrightarrow> co_object_id obj = i \<and> fields_ok L obj \<and>
       (\<forall>k c. find_reference G (w_git w) (ref_name_of h) = Inr (Some k) \<longrightarrow> find_blob G (w_git w) k = Inr c \<longrightarrow>
          canonical_object_bytes L obj = Inr c)"
    unfolding v(1) ref_consistency_clean [OF assms(3) *(1)] by blast
  note valid = this
  show ?thesis by (intro conjI *(3) valid v(3) v(2))
qed

theorem verification_exact_witness:
  "\<exists>(obj :: canonical_object) rep w w'. verify_cached_object ref_gix ref_lib [''r''] (co_object_id obj) w = (Inr rep, w') \<and>
     vr_valid rep \<and> co_body obj = JObject [(''a'', JNull)]"
proof -
  obtain obj h b where o: "fields_ok ref_lib obj" "co_body obj = JObject [(''a'', JNull)]" "plain_body (co_body obj)"
    "object_hex (co_object_id obj) = Inr h" "canonical_object_bytes ref_lib obj = Inr b"
    by (rule ref_object)
  obtain rep w where wr: "write_canonical_object ref_gix ref_lib [''r''] obj ref_world = (Inr rep, w)"
    using ref_world_write [OF o(1,4,5)] by blast
  obtain gd h' b' where *: "object_hex (co_object_id obj) = Inr h'" "canonical_object_bytes ref_lib obj = Inr b'"
    "store_ready ref_gix [''r''] gd w" "tree (w_fs w) (cache_path_of gd h') = Some (File b')"
    "find_reference ref_gix (w_git w) (ref_name_of h') = Inr (Some (wr_git_object_id rep))"
    "find_blob ref_gix (w_git w) (wr_git_object_id rep) = Inr b'"
    "faults (w_fs ref_world) = [] \<longrightarrow> faults (w_fs w) = []"
    by (rule written_object [OF ref_gix_laws wr])
  have rd: "read_object_bytes ref_lib b' = Inr obj" by (rule object_bytes_read [OF ref_lib_laws(1) o(3) *(2)])
  have calm: "faults (w_fs w) = []" using *(7) by simp
  have "append_ref_consistency_diagnostics ref_gix ref_lib (w_git w) (co_object_id obj) obj = Inr []"
    using *(1,2,5,6) by (simp add: append_ref_consistency_diagnostics_def object_ref_name_Inr read_git_object_ref_def)
  moreover have "\<exists>r. verify_object_fields ref_lib (co_object_id obj) (cache_path_of gd h') Cache obj [] = Inr r"
    using o(1) by (auto simp: verify_object_fields_def object_field_diagnostics_def fields_ok_def split: prod.split)
  ultimately obtain r where run: "verify_cached_object ref_gix ref_lib [''r''] (co_object_id obj) w = (Inr r, w)"
    using verify_cached_run [OF *(3) calm *(1,4) rd] by auto
  have "vr_valid r"
    using verification_exact [OF *(3) calm *(1,4) rd run] o(1) *(2,5,6) by auto
  with run o(2) show ?thesis by (intro exI conjI)
qed

text \<open>
  initialisation makes a usable store and is idempotent: after it succeeds the store opens, and
  initialising again creates nothing, changes nothing and says so.
\<close>

theorem init_idempotent:
  assumes "init_rickydata_repository G p w = (Inr rep, w')" "faults (w_fs w) = []"
  shows "(\<exists>store. open_initialized_store G p w' = (Inr store, w')) \<and>
    (\<exists>rep'. init_rickydata_repository G p w' = (Inr rep', w') \<and> ir_status rep' = AlreadyInitialized \<and>
       ir_created_paths rep' = [])"
proof -
  obtain gd wd where *: "discover G (w_git w) p = Inr (gd, wd)" "w_git w' = w_git w" "faults (w_fs w') = []"
    "\<forall>q \<in> set (init_dirs gd). exists_at (w_fs w') q"
    "\<exists>b t. tree (w_fs w') (version_file_of gd) = Some (File b) \<and> from_utf8 b = Some t \<and> trim t = RICKYDATA_STORE_VERSION"
    by (rule init_eff [OF assms])
  have t: "tree (w_fs w') (temp_dir_of gd) \<noteq> None"
    using *(4) by (auto simp: init_dirs_def Let_def exists_at_def path_defs)
  have "store_ready G p gd w'" using *(1,2,5) t by (simp add: store_ready_def)
  from open_store_ready [OF this *(3)] have op: "\<exists>store. open_initialized_store G p w' = (Inr store, w')" by blast
  have "ensure_version_file (version_file_of gd) (c, e) (w_fs w') = (Inr (c, e @ [version_file_of gd]), w_fs w')" for c e
    using *(3,5)
    by (auto simp: ensure_version_file_def ensure_version_matches_def fs_read_to_string_def exists_at_def eff_simps
        fs_simps lookup_file_def)
  then have "init_rickydata_repository G p w' =
      (Inr (init_report gd wd [] (init_dirs gd @ [version_file_of gd])), w')"
    using *(1,2) ensure_dirs_again [OF *(4), of "[]" "[]"]
    by (simp add: init_rickydata_repository_def eff_simps discover_repo_def on_fs_def)
  with op show ?thesis by (simp add: init_report_def)
qed

theorem init_idempotent_witness:
  "\<exists>rep w' rep'. init_rickydata_repository ref_gix [''r''] ref_world = (Inr rep, w') \<and> ir_status rep = Created \<and>
     init_rickydata_repository ref_gix [''r''] w' = (Inr rep', w') \<and> ir_status rep' = AlreadyInitialized"
proof -
  have "case init_rickydata_repository ref_gix [''r''] ref_world of
      (Inr rep, w') \<Rightarrow> ir_status rep = Created | _ \<Rightarrow> False"
    by code_simp
  then obtain rep w' where i: "init_rickydata_repository ref_gix [''r''] ref_world = (Inr rep, w')" "ir_status rep = Created"
    by (auto split: prod.splits sum.splits)
  then show ?thesis using init_idempotent [OF i(1) ref_world_calm] by blast
qed

end
