(* ===== verification/Relay_Policy.thy ===== *)
theory Relay_Policy
  imports Git_Integrity
begin

text \<open>
  \<^verbatim>\<open>crates/rickydata-git-relay/src/lib.rs\<close>, the parts every store shares: errors, requests and
  reports, the validation of objects under the signature policy, hashes of bundles and keys.  The
  environment variables of the process are a parameter.
\<close>

section \<open>Errors, requests and reports\<close>

datatype relay_error =
    InvalidObject str str
  | RelayObjectConflict str
  | RelayIo str
  | RelayJson str
  | RelayCore core_error
  | KfdbIndex str

fun relay_error_text :: "relay_error \<Rightarrow> str" where
  "relay_error_text (InvalidObject i m) = ''invalid object `'' @ i @ ''`: '' @ m"
| "relay_error_text (RelayObjectConflict i) = ''object `'' @ i @ ''` already exists with different bytes''"
| "relay_error_text (RelayIo m) = ''failed to read or write relay store: '' @ m"
| "relay_error_text (RelayJson m) = ''failed to parse relay JSON: '' @ m"
| "relay_error_text (RelayCore e) = ''failed to hash relay JSON: '' @ core_error_text e"
| "relay_error_text (KfdbIndex m) = ''failed to index relay bundle in KFDB: '' @ m"

record bundle_push_request =
  bq_repo_id :: str
  bq_idempotency_key :: str
  bq_objects :: "canonical_object list"

record bundle_push_report =
  bp_status :: str
  bp_repo_id :: str
  bp_idempotency_key :: str
  bp_accepted_object_count :: u64
  bp_duplicate_object_count :: u64
  bp_object_ids :: "str list"
  bp_bundle_hash :: str

record bundle_pull_request =
  lq_repo_id :: str
  lq_known_object_ids :: "str list"
  lq_limit :: "u64 option"

record bundle_pull_report =
  lp_status :: str
  lp_repo_id :: str
  lp_object_count :: u64
  lp_remaining_object_count :: u64
  lp_objects :: "canonical_object list"

record bundle_validation_report =
  bv_status :: str
  bv_repo_id :: str
  bv_object_count :: u64
  bv_object_ids :: "str list"
  bv_bundle_hash :: str

record repo_relay_status_report =
  rs_status :: str
  rs_repo_id :: str
  rs_object_count :: u64
  rs_object_ids_hash :: str

definition push_report_json :: "bundle_push_report \<Rightarrow> json" where
  "push_report_json r = json_obj [(''status'', jstr (bp_status r)), (''repo_id'', jstr (bp_repo_id r)),
     (''idempotency_key'', jstr (bp_idempotency_key r)),
     (''accepted_object_count'', ju64 (bp_accepted_object_count r)),
     (''duplicate_object_count'', ju64 (bp_duplicate_object_count r)),
     (''object_ids'', jlist jstr (bp_object_ids r)), (''bundle_hash'', jstr (bp_bundle_hash r))]"

definition push_report_of_json :: "json \<Rightarrow> bundle_push_report option" where
  "push_report_of_json v = do {
     s \<leftarrow> field d_str ''status'' v;
     r \<leftarrow> field d_str ''repo_id'' v;
     k \<leftarrow> field d_str ''idempotency_key'' v;
     a \<leftarrow> field d_u64 ''accepted_object_count'' v;
     d \<leftarrow> field d_u64 ''duplicate_object_count'' v;
     i \<leftarrow> field (d_list d_str) ''object_ids'' v;
     h \<leftarrow> field d_str ''bundle_hash'' v;
     Some \<lparr>bp_status = s, bp_repo_id = r, bp_idempotency_key = k, bp_accepted_object_count = a,
           bp_duplicate_object_count = d, bp_object_ids = i, bp_bundle_hash = h\<rparr> }"

lemma push_report_round_trip [simp]: "push_report_of_json (push_report_json r) = Some r"
  by (simp add: push_report_of_json_def push_report_json_def field_def json_get_json_obj)

lemma push_report_plain: "json_plain JSON_DEPTH (push_report_json r)"
proof -
  have "json_plain (Suc (Suc 0)) (push_report_json r)"
    unfolding push_report_json_def by (rule json_plain_json_obj) auto
  then show ?thesis by (rule json_plain_mono) (simp add: JSON_DEPTH_def)
qed

section \<open>The signature policy\<close>

type_synonym env = "str \<Rightarrow> str option"

definition ENFORCE_SIGNATURES_ENV :: str where "ENFORCE_SIGNATURES_ENV = ''RICKYDATA_RELAY_ENFORCE_SIGNATURES''"
definition LEGACY_UNSIGNED_REPOS_ENV :: str where
  "LEGACY_UNSIGNED_REPOS_ENV = ''RICKYDATA_RELAY_LEGACY_UNSIGNED_REPOS''"

definition signature_enforcement_enabled :: "env \<Rightarrow> bool" where
  "signature_enforcement_enabled env = (case env ENFORCE_SIGNATURES_ENV of
     None \<Rightarrow> False
   | Some v \<Rightarrow> trim v \<in> {''1'', ''true'', ''TRUE'', ''yes'', ''on''})"

definition legacy_unsigned_repo_ids :: "env \<Rightarrow> str list" where
  "legacy_unsigned_repo_ids env = (case env LEGACY_UNSIGNED_REPOS_ENV of
     None \<Rightarrow> []
   | Some v \<Rightarrow> filter (\<lambda>r. r \<noteq> []) (map trim (split_on CHR '','' v)))"

text \<open>The loop over the signatures stops at the first one that is not valid.\<close>

fun check_signatures :: "lib \<Rightarrow> canonical_object \<Rightarrow> actor_signature list \<Rightarrow> relay_error + unit" where
  "check_signatures L obj [] = Inr ()"
| "check_signatures L obj (s # ss) =
     (case verify_signature L (co_kind obj) (co_schema_version obj) (co_body obj) s of
        Inl e \<Rightarrow> Inl (InvalidObject (co_object_id obj) (''signature verification error: '' @ core_error_text e))
      | Inr ok \<Rightarrow>
          if \<not> ok then Inl (InvalidObject (co_object_id obj) (''invalid signature for public_key '' @ sig_public_key s))
          else check_signatures L obj ss)"

definition validate_object_with_signature_policy ::
    "lib \<Rightarrow> canonical_object \<Rightarrow> bool \<Rightarrow> bool \<Rightarrow> relay_error + unit" where
  "validate_object_with_signature_policy L obj require_signatures verify_present_signatures =
     r_bind (map_err RelayCore (stable_json_hash L (co_body obj))) (\<lambda>computed_body_hash.
     if co_body_hash obj \<noteq> computed_body_hash
     then Inl (InvalidObject (co_object_id obj) (''body_hash mismatch: found '' @ co_body_hash obj @
            '', computed '' @ computed_body_hash))
     else
     r_bind (map_err RelayCore (canonical_object_id L (co_kind obj) (co_schema_version obj) (co_body obj))) (\<lambda>computed_object_id.
     if co_object_id obj \<noteq> computed_object_id
     then Inl (InvalidObject (co_object_id obj) (''object_id mismatch: found '' @ co_object_id obj @
            '', computed '' @ computed_object_id))
     else if require_signatures \<and> co_signatures obj = []
     then Inl (InvalidObject (co_object_id obj) ''signature enforcement enabled but object carries no signatures'')
     else if verify_present_signatures \<and> co_signatures obj \<noteq> []
     then check_signatures L obj (co_signatures obj)
     else Inr ()))"

definition validate_object_with_policy :: "lib \<Rightarrow> canonical_object \<Rightarrow> bool \<Rightarrow> relay_error + unit" where
  "validate_object_with_policy L obj enforce = validate_object_with_signature_policy L obj enforce enforce"

definition validate_stored_object_with_policy ::
    "lib \<Rightarrow> str \<Rightarrow> canonical_object \<Rightarrow> bool \<Rightarrow> str list \<Rightarrow> relay_error + unit" where
  "validate_stored_object_with_policy L repo_id obj enforce legacy =
     validate_object_with_signature_policy L obj (enforce \<and> repo_id \<notin> set legacy) enforce"

definition validate_stored_object :: "lib \<Rightarrow> env \<Rightarrow> str \<Rightarrow> canonical_object \<Rightarrow> relay_error + unit" where
  "validate_stored_object L env repo_id obj = validate_stored_object_with_policy L repo_id obj
     (signature_enforcement_enabled env) (legacy_unsigned_repo_ids env)"

text \<open>The loop that validates a bundle: \<open>seen\<close> is the \<^verbatim>\<open>BTreeSet\<close>.\<close>

fun validate_loop :: "(canonical_object \<Rightarrow> relay_error + unit) \<Rightarrow> str list \<Rightarrow> canonical_object list \<Rightarrow>
    relay_error + str list" where
  "validate_loop v seen [] = Inr []"
| "validate_loop v seen (obj # objs) =
     r_bind (v obj) (\<lambda>_.
       if co_object_id obj \<in> set seen then validate_loop v seen objs
       else r_map ((#) (co_object_id obj)) (validate_loop v (co_object_id obj # seen) objs))"

definition validated_object_ids_with_policy ::
    "lib \<Rightarrow> str \<Rightarrow> canonical_object list \<Rightarrow> bool \<Rightarrow> str list \<Rightarrow> relay_error + str list" where
  "validated_object_ids_with_policy L repo_id objects enforce legacy =
     validate_loop (\<lambda>obj. validate_stored_object_with_policy L repo_id obj enforce legacy) [] objects"

definition validated_object_ids :: "lib \<Rightarrow> env \<Rightarrow> str \<Rightarrow> canonical_object list \<Rightarrow> relay_error + str list" where
  "validated_object_ids L env repo_id objects = validated_object_ids_with_policy L repo_id objects
     (signature_enforcement_enabled env) (legacy_unsigned_repo_ids env)"

section \<open>Hashes and bytes\<close>

definition relay_object_bytes :: "lib \<Rightarrow> canonical_object \<Rightarrow> relay_error + bytes" where
  "relay_object_bytes L obj = map_err RelayJson (to_vec L (canonical_json (object_json obj)))"

definition bundle_hash :: "lib \<Rightarrow> str list \<Rightarrow> relay_error + str" where
  "bundle_hash L object_ids =
     map_err RelayCore (stable_json_hash L (json_obj [(''object_ids'', jlist jstr object_ids)]))"

definition key_hash :: "lib \<Rightarrow> str \<Rightarrow> str" where
  "key_hash L key = lower_hex (sha256 L (str_bytes key))"

definition bundle_validation_report_of :: "lib \<Rightarrow> env \<Rightarrow> bundle_push_request \<Rightarrow> relay_error + bundle_validation_report" where
  "bundle_validation_report_of L env q =
     r_bind (validated_object_ids L env (bq_repo_id q) (bq_objects q)) (\<lambda>object_ids.
     r_bind (bundle_hash L object_ids) (\<lambda>h.
       Inr \<lparr>bv_status = ''ok'', bv_repo_id = bq_repo_id q, bv_object_count = of_nat (length (bq_objects q)),
            bv_object_ids = object_ids, bv_bundle_hash = h\<rparr>))"

section \<open>Lemmas\<close>

lemma check_signatures_ok:
  "check_signatures L obj ss = Inr u \<longleftrightarrow>
     (\<forall>s \<in> set ss. verify_signature L (co_kind obj) (co_schema_version obj) (co_body obj) s = Inr True)"
  by (induction ss) (auto split: sum.splits)

lemma validate_object_ok:
  "validate_object_with_signature_policy L obj req ver = Inr u \<longleftrightarrow>
     fields_ok L obj \<and> (req \<longrightarrow> co_signatures obj \<noteq> []) \<and>
     (ver \<longrightarrow> (\<forall>s \<in> set (co_signatures obj).
        verify_signature L (co_kind obj) (co_schema_version obj) (co_body obj) s = Inr True))"
  by (auto simp: validate_object_with_signature_policy_def fields_ok_def r_bind_Inr_iff check_signatures_ok
      split: if_splits)

text \<open>What is wrong with an object is always said as \<^verbatim>\<open>InvalidObject\<close> or an error of hashing.\<close>

fun first_ids :: "str list \<Rightarrow> canonical_object list \<Rightarrow> str list" where
  "first_ids seen [] = []"
| "first_ids seen (obj # objs) =
     (if co_object_id obj \<in> set seen then first_ids seen objs
      else co_object_id obj # first_ids (co_object_id obj # seen) objs)"

lemma validate_loop_ok:
  "validate_loop v seen objs = Inr ids \<longleftrightarrow> (\<forall>obj \<in> set objs. v obj = Inr ()) \<and> ids = first_ids seen objs"
  by (induction objs arbitrary: seen ids) (auto simp: r_bind_Inr_iff r_map_Inr_iff)

lemma first_ids_set: "set (first_ids seen objs) = co_object_id ` set objs - set seen"
  by (induction objs arbitrary: seen) auto

lemma first_ids_distinct: "distinct (first_ids seen objs)"
  by (induction objs arbitrary: seen) (auto simp: first_ids_set)

lemma relay_bytes_eq: "relay_object_bytes L obj = Inr b \<longleftrightarrow> canonical_object_bytes L obj = Inr b"
  by (simp add: relay_object_bytes_def canonical_object_bytes_def)

lemma bundle_validated:
  assumes "bundle_validation_report_of L env q = Inr rep"
  shows "\<forall>obj \<in> set (bq_objects q). fields_ok L obj"
    and "bv_object_ids rep = first_ids [] (bq_objects q)"
    and "validated_object_ids L env (bq_repo_id q) (bq_objects q) = Inr (bv_object_ids rep)"
  using assms
  by (auto simp: bundle_validation_report_of_def r_bind_Inr_iff validated_object_ids_def
      validated_object_ids_with_policy_def validate_loop_ok validate_stored_object_with_policy_def validate_object_ok)

text \<open>The canonical id of a checked object is well formed.\<close>

lemma fields_ok_id: "fields_ok L obj \<Longrightarrow> hex_codec L \<Longrightarrow> sha_sized L \<Longrightarrow> object_id_ok (co_object_id obj)"
  unfolding fields_ok_def canonical_object_id_def by (metis stable_json_hash_shape)

section \<open>Properties\<close>

text \<open>
  C21: the signature policy is exact.  A bundle passes validation exactly when every object's body hash
  and id are those of its content and, under enforcement, every object carries at least one signature
  (unless the repository is listed as legacy) and every signature it carries verifies; the ids reported
  are those of the bundle, without duplicates.
\<close>

theorem bundle_policy_exact:
  "validated_object_ids_with_policy L repo objs enforce legacy = Inr ids \<longleftrightarrow>
     (\<forall>obj \<in> set objs.
        stable_json_hash L (co_body obj) = Inr (co_body_hash obj) \<and>
        canonical_object_id L (co_kind obj) (co_schema_version obj) (co_body obj) = Inr (co_object_id obj) \<and>
        (enforce \<and> repo \<notin> set legacy \<longrightarrow> co_signatures obj \<noteq> []) \<and>
        (enforce \<longrightarrow> (\<forall>s \<in> set (co_signatures obj).
           verify_signature L (co_kind obj) (co_schema_version obj) (co_body obj) s = Inr True))) \<and>
     ids = first_ids [] objs \<and> distinct ids \<and> set ids = co_object_id ` set objs"
  by (auto simp: validated_object_ids_with_policy_def validate_loop_ok validate_stored_object_with_policy_def
      validate_object_ok fields_ok_def first_ids_distinct first_ids_set)

theorem bundle_policy_exact_witness:
  "\<exists>obj. co_body obj = JObject [(''a'', JNull)] \<and>
     validated_object_ids_with_policy ref_lib ''repo'' [obj, obj] True [''repo''] = Inr [co_object_id obj]"
proof -
  obtain obj where o: "fields_ok ref_lib obj" "co_body obj = JObject [(''a'', JNull)]" "co_signatures obj = []"
    by (rule ref_object)
  then have "validated_object_ids_with_policy ref_lib ''repo'' [obj, obj] True [''repo''] = Inr [co_object_id obj]"
    by (subst bundle_policy_exact) (simp add: fields_ok_def)
  with o(2) show ?thesis by blast
qed

end
