(* ===== verification/Relay_File.thy ===== *)
theory Relay_File
  imports Relay_Policy
begin

text \<open>
  \<^verbatim>\<open>FileRelayStore\<close> of \<^verbatim>\<open>crates/rickydata-git-relay/src/lib.rs\<close>: bundles on a file system, one directory
  per repository, one file per object and one per idempotency key.
\<close>

section \<open>The store\<close>

definition io :: "(fs, str, 'a) eff \<Rightarrow> (fs, relay_error, 'a) eff" where
  "io m = e_map_err RelayIo m"

definition repo_dir :: "lib \<Rightarrow> path \<Rightarrow> str \<Rightarrow> path" where
  "repo_dir L base repo_id = base @ [''repos'', key_hash L repo_id]"

definition file_object_path :: "lib \<Rightarrow> path \<Rightarrow> str \<Rightarrow> str \<Rightarrow> relay_error + path" where
  "file_object_path L base repo_id object_id = (case strip_prefix ''sha256:'' object_id of
     None \<Rightarrow> Inl (InvalidObject object_id ''expected sha256:<64 lowercase hex chars>'')
   | Some hex \<Rightarrow>
       if length hex \<noteq> 64 \<or> \<not> list_all (\<lambda>c. is_ascii_hexdigit c \<and> \<not> is_ascii_uppercase c) hex
       then Inl (InvalidObject object_id ''expected sha256:<64 lowercase hex chars>'')
       else Inr (repo_dir L base repo_id @ [''objects'', ''sha256'', take 2 hex, hex @ ''.json'']))"

definition read_json :: "lib \<Rightarrow> (json \<Rightarrow> 'a option) \<Rightarrow> path \<Rightarrow> (fs, relay_error, 'a) eff" where
  "read_json L d p = e_bind (io (fs_read p)) (\<lambda>b. e_lift (map_err RelayJson (parse_as L d b)))"

definition write_bytes :: "path \<Rightarrow> bytes \<Rightarrow> (fs, relay_error, unit) eff" where
  "write_bytes p b = e_bind (io (fs_create_dir_all (butlast p))) (\<lambda>_. io (fs_write p b))"

definition write_json :: "lib \<Rightarrow> path \<Rightarrow> json \<Rightarrow> (fs, relay_error, unit) eff" where
  "write_json L p v = e_bind (e_lift (map_err RelayJson (to_vec_pretty L v))) (write_bytes p)"

definition file_validate_bundle ::
    "lib \<Rightarrow> env \<Rightarrow> bundle_push_request \<Rightarrow> (fs, relay_error, bundle_validation_report) eff" where
  "file_validate_bundle L env q = e_lift (bundle_validation_report_of L env q)"

text \<open>The first pass of a push: an object already there with other bytes stops everything.\<close>

definition check_conflict ::
    "lib \<Rightarrow> path \<Rightarrow> str \<Rightarrow> canonical_object \<times> bytes \<Rightarrow> (fs, relay_error, unit) eff" where
  "check_conflict L base repo_id = (\<lambda>(obj, b).
     e_bind (e_lift (file_object_path L base repo_id (co_object_id obj))) (\<lambda>p s.
       if exists_at s p
       then e_bind (io (fs_read p)) (\<lambda>existing.
              if existing \<noteq> b then e_fail (RelayObjectConflict (co_object_id obj)) else e_ret ()) s
       else e_ret () s))"

text \<open>The second pass: write what is missing, count the rest.\<close>

definition store_missing ::
    "lib \<Rightarrow> path \<Rightarrow> str \<Rightarrow> canonical_object \<times> bytes \<Rightarrow> u64 \<times> u64 \<Rightarrow> (fs, relay_error, u64 \<times> u64) eff" where
  "store_missing L base repo_id = (\<lambda>(obj, b) (accepted, duplicate).
     e_bind (e_lift (file_object_path L base repo_id (co_object_id obj))) (\<lambda>p s.
       if exists_at s p then e_ret (accepted, duplicate + 1) s
       else e_bind (write_bytes p b) (\<lambda>_. e_ret (accepted + 1, duplicate)) s))"

definition idempotency_path :: "lib \<Rightarrow> path \<Rightarrow> str \<Rightarrow> str \<Rightarrow> path" where
  "idempotency_path L base repo_id key = repo_dir L base repo_id @ [''idempotency'', key_hash L key @ ''.json'']"

definition push_new ::
    "lib \<Rightarrow> path \<Rightarrow> bundle_push_request \<Rightarrow> bundle_validation_report \<Rightarrow> (fs, relay_error, bundle_push_report) eff" where
  "push_new L base q validation =
     e_bind (e_lift (r_collect (relay_object_bytes L) (bq_objects q))) (\<lambda>object_bytes.
     e_bind (e_each (check_conflict L base (bq_repo_id q)) (zip (bq_objects q) object_bytes)) (\<lambda>_.
     e_bind (e_fold (store_missing L base (bq_repo_id q)) (zip (bq_objects q) object_bytes) (0, 0)) (\<lambda>(accepted, duplicate).
     (let report = \<lparr>bp_status = ''ok'', bp_repo_id = bq_repo_id q, bp_idempotency_key = bq_idempotency_key q,
            bp_accepted_object_count = accepted, bp_duplicate_object_count = duplicate,
            bp_object_ids = bv_object_ids validation, bp_bundle_hash = bv_bundle_hash validation\<rparr>
      in e_bind (write_json L (idempotency_path L base (bq_repo_id q) (bq_idempotency_key q)) (push_report_json report))
           (\<lambda>_. e_ret report)))))"

definition file_push_bundle ::
    "lib \<Rightarrow> env \<Rightarrow> path \<Rightarrow> bundle_push_request \<Rightarrow> (fs, relay_error, bundle_push_report) eff" where
  "file_push_bundle L env base q =
     e_bind (file_validate_bundle L env q) (\<lambda>validation s.
       (let p = idempotency_path L base (bq_repo_id q) (bq_idempotency_key q) in
        if exists_at s p then read_json L push_report_of_json p s
        else push_new L base q validation s))"

definition file_read_object ::
    "lib \<Rightarrow> path \<Rightarrow> str \<Rightarrow> str \<Rightarrow> (fs, relay_error, canonical_object) eff" where
  "file_read_object L base repo_id object_id =
     e_bind (e_lift (file_object_path L base repo_id object_id)) (read_json L object_of_json)"

text \<open>The two nested directory scans.\<close>

definition objects_dir :: "lib \<Rightarrow> path \<Rightarrow> str \<Rightarrow> path" where
  "objects_dir L base repo_id = repo_dir L base repo_id @ [''objects'', ''sha256'']"

definition is_file_at :: "fs \<Rightarrow> path \<Rightarrow> bool" where
  "is_file_at s p \<longleftrightarrow> (case tree s p of Some (File b) \<Rightarrow> True | _ \<Rightarrow> False)"

definition ids_in :: "fs \<Rightarrow> path \<Rightarrow> str list \<Rightarrow> str list" where
  "ids_in s dir names = map (\<lambda>name. ''sha256:'' @ the (strip_suffix ''.json'' name))
     (filter (\<lambda>name. is_file_at s (dir @ [name]) \<and> strip_suffix ''.json'' name \<noteq> None) names)"

definition scan_prefix :: "path \<Rightarrow> str \<Rightarrow> str list \<Rightarrow> (fs, relay_error, str list) eff" where
  "scan_prefix dir pfx acc s =
     (if \<not> is_dir_at s (dir @ [pfx]) then e_ret acc s
      else e_bind (io (fs_read_dir (dir @ [pfx]))) (\<lambda>names.
             e_gets (\<lambda>s'. Inr (acc @ ids_in s' (dir @ [pfx]) names))) s)"

definition file_list_object_ids :: "lib \<Rightarrow> path \<Rightarrow> str \<Rightarrow> (fs, relay_error, str list) eff" where
  "file_list_object_ids L base repo_id s =
     (let dir = objects_dir L base repo_id in
      if \<not> exists_at s dir then e_ret [] s
      else e_bind (io (fs_read_dir dir)) (\<lambda>prefixes.
           e_bind (e_fold (scan_prefix dir) prefixes []) (\<lambda>ids. e_ret (sort ids))) s)"

definition file_pull_bundle ::
    "lib \<Rightarrow> path \<Rightarrow> bundle_pull_request \<Rightarrow> (fs, relay_error, bundle_pull_report) eff" where
  "file_pull_bundle L base q =
     e_bind (file_list_object_ids L base (lq_repo_id q)) (\<lambda>all_ids.
     (let object_ids = filter (\<lambda>i. i \<notin> set (lq_known_object_ids q)) all_ids;
          limit = (case lq_limit q of None \<Rightarrow> length object_ids | Some n \<Rightarrow> unat n)
      in e_bind (e_map (file_read_object L base (lq_repo_id q)) (take limit object_ids)) (\<lambda>objects.
           e_ret \<lparr>lp_status = ''ok'', lp_repo_id = lq_repo_id q,
                  lp_object_count = of_nat (length objects),
                  lp_remaining_object_count = of_nat (length object_ids - limit),
                  lp_objects = objects\<rparr>)))"

text \<open>The default method of the trait.\<close>

definition repo_status_of ::
    "lib \<Rightarrow> (str \<Rightarrow> ('s, relay_error, str list) eff) \<Rightarrow> str \<Rightarrow> ('s, relay_error, repo_relay_status_report) eff" where
  "repo_status_of L list_ids repo_id =
     e_bind (list_ids repo_id) (\<lambda>object_ids.
     e_bind (e_lift (bundle_hash L object_ids)) (\<lambda>h.
       e_ret \<lparr>rs_status = ''ok'', rs_repo_id = repo_id, rs_object_count = of_nat (length object_ids),
              rs_object_ids_hash = h\<rparr>))"

section \<open>Paths\<close>

definition object_file :: "lib \<Rightarrow> path \<Rightarrow> str \<Rightarrow> str \<Rightarrow> path" where
  "object_file L base repo_id hex = objects_dir L base repo_id @ [take 2 hex, hex @ ''.json'']"

definition hex64 :: "str \<Rightarrow> bool" where
  "hex64 h \<longleftrightarrow> length h = 64 \<and> set h \<subseteq> set hex_alphabet"

lemma lower_hexdigit: "is_ascii_hexdigit c \<and> \<not> is_ascii_uppercase c \<longleftrightarrow> c \<in> set hex_alphabet"
  by (auto simp: is_ascii_hexdigit_def is_ascii_uppercase_def hex_alphabet_def)

lemma file_object_path_iff:
  "file_object_path L base r i = Inr p \<longleftrightarrow> (\<exists>h. i = ''sha256:'' @ h \<and> hex64 h \<and> p = object_file L base r h)"
proof
  assume "file_object_path L base r i = Inr p"
  then obtain h where h: "strip_prefix ''sha256:'' i = Some h" "length h = 64"
    "list_all (\<lambda>c. is_ascii_hexdigit c \<and> \<not> is_ascii_uppercase c) h"
    "p = repo_dir L base r @ [''objects'', ''sha256'', take 2 h, h @ ''.json'']"
    by (auto simp: file_object_path_def split: option.splits if_splits)
  then show "\<exists>h. i = ''sha256:'' @ h \<and> hex64 h \<and> p = object_file L base r h"
    by (auto simp: strip_prefix_Some_iff lower_hexdigit list_all_iff hex64_def object_file_def objects_dir_def)
next
  assume "\<exists>h. i = ''sha256:'' @ h \<and> hex64 h \<and> p = object_file L base r h"
  then obtain h where h: "i = ''sha256:'' @ h" "hex64 h" "p = object_file L base r h" by blast
  have "strip_prefix ''sha256:'' i = Some h" unfolding h(1) by (rule strip_prefix_append)
  moreover have "list_all (\<lambda>c. is_ascii_hexdigit c \<and> \<not> is_ascii_uppercase c) h"
    using h(2) by (auto simp: hex64_def list_all_iff lower_hexdigit)
  ultimately show "file_object_path L base r i = Inr p"
    using h(2,3) by (simp add: file_object_path_def hex64_def object_file_def objects_dir_def)
qed

lemma object_file_inj [simp]:
  "object_file L base r h = object_file L base r h' \<longleftrightarrow> h = h'"
  by (auto simp: object_file_def)

lemma object_file_length: "length (object_file L base r h) = length base + 6"
  by (simp add: object_file_def objects_dir_def repo_dir_def)

lemma idempotency_length: "length (idempotency_path L base r k) = length base + 4"
  by (simp add: idempotency_path_def repo_dir_def)

lemma file_paths_nonempty [simp]: "object_file L base r h \<noteq> []" "idempotency_path L base r k \<noteq> []"
  by (simp_all add: object_file_def idempotency_path_def)

lemma object_not_idempotency [simp]:
  "object_file L base r h \<noteq> idempotency_path L base r' k" "idempotency_path L base r' k \<noteq> object_file L base r h"
  using object_file_length [of L base r h] idempotency_length [of L base r' k] by auto

lemma object_not_above [simp]:
  "object_file L base r h \<notin> set (ancestors_of (butlast (object_file L base r' h')))"
  "object_file L base r h \<notin> set (ancestors_of (butlast (idempotency_path L base r' k)))"
proof -
  show "object_file L base r h \<notin> set (ancestors_of (butlast (object_file L base r' h')))"
    using object_file_length [of L base r h] object_file_length [of L base r' h']
    by (auto simp: in_ancestors_of dest!: arg_cong [where f = length])
  show "object_file L base r h \<notin> set (ancestors_of (butlast (idempotency_path L base r' k)))"
    using object_file_length [of L base r h] idempotency_length [of L base r' k]
    by (auto simp: in_ancestors_of dest!: arg_cong [where f = length])
qed

lemma parent_not_above:
  assumes "p \<noteq> []"
  shows "p \<notin> set (ancestors_of (butlast p))"
proof
  assume "p \<in> set (ancestors_of (butlast p))"
  then obtain t where "butlast p = p @ t" by (auto simp: in_ancestors_of)
  then have "length (butlast p) = length (p @ t)" by (rule arg_cong)
  moreover from assms have "0 < length p" by simp
  ultimately show False by (simp del: length_greater_0_conv)
qed

section \<open>What the steps change\<close>

lemma write_bytes_eff:
  assumes "write_bytes p b s = (r, s')" "p \<noteq> []"
  shows "q \<noteq> p \<Longrightarrow> tree s' q = tree s q \<or> (q \<in> set (ancestors_of (butlast p)) \<and> tree s q = None \<and> tree s' q = Some Dir)"
    and "r = Inr u \<Longrightarrow> tree s' p = Some (File b)"
    and "\<not> is_ok r \<Longrightarrow> tree s' p = tree s p \<or> (\<exists>n. tree s' p = Some (File (take n b)))"
    and "faults s = [] \<Longrightarrow> faults s' = []"
proof -
  obtain r1 s1 where cd: "fs_create_dir_all (butlast p) s = (r1, s1)" by (rule prod.exhaust)
  have "p \<notin> set (ancestors_of (butlast p))" by (rule parent_not_above [OF assms(2)])
  then have t1: "tree s1 p = tree s p" using fs_create_dir_all_tree(1) [OF cd, of p] by blast
  have tq: "tree s1 q = tree s q \<or> (q \<in> set (ancestors_of (butlast p)) \<and> tree s q = None \<and> tree s1 q = Some Dir)"
    by (rule fs_create_dir_all_tree(1) [OF cd])
  have all: "(q \<noteq> p \<longrightarrow> tree s' q = tree s1 q) \<and> (\<forall>u. r = Inr u \<longrightarrow> tree s' p = Some (File b)) \<and>
    (\<not> is_ok r \<longrightarrow> tree s' p = tree s p \<or> (\<exists>n. tree s' p = Some (File (take n b)))) \<and> (faults s = [] \<longrightarrow> faults s' = [])"
  proof (cases r1)
    case (Inl e)
    with assms(1) cd have "s' = s1" "r = Inl (RelayIo e)" by (simp_all add: write_bytes_def io_def eff_simps)
    with t1 calm_step(4) [OF _ cd] show ?thesis by auto
  next
    case (Inr u)
    obtain r2 s2 where wr: "fs_write p b s1 = (r2, s2)" by (rule prod.exhaust)
    with assms(1) cd Inr have *: "s' = s2" "r = map_err RelayIo r2" by (simp_all add: write_bytes_def io_def eff_simps)
    have f: "faults s = [] \<longrightarrow> faults s2 = []" using calm_step(4) [OF _ cd] calm_step(2) [OF _ wr] by blast
    from wr show ?thesis
    proof (cases rule: fs_write_tree)
      case same
      with * t1 f show ?thesis by (cases r2) auto
    next
      case (torn n)
      with * t1 f show ?thesis by (cases r2) auto
    next
      case written
      with * t1 f show ?thesis by auto
    qed
  qed
  then show "r = Inr u \<Longrightarrow> tree s' p = Some (File b)"
    and "\<not> is_ok r \<Longrightarrow> tree s' p = tree s p \<or> (\<exists>n. tree s' p = Some (File (take n b)))"
    and "faults s = [] \<Longrightarrow> faults s' = []" by blast+
  show "q \<noteq> p \<Longrightarrow> tree s' q = tree s q \<or> (q \<in> set (ancestors_of (butlast p)) \<and> tree s q = None \<and> tree s' q = Some Dir)"
    using all tq by auto
qed

text \<open>A file stays as it is under every operation of the store, faults included.\<close>

definition still :: "path \<Rightarrow> bytes \<Rightarrow> fs \<Rightarrow> bool" where
  "still p b s \<longleftrightarrow> tree s p = Some (File b)"

lemma still_cong: "tree s' = tree s \<Longrightarrow> still p b s' = still p b s"
  by (simp add: still_def)

lemma keeps_still_same: "(\<And>s r s'. m s = (r, s') \<Longrightarrow> tree s' = tree s) \<Longrightarrow> keeps (still p b) m"
  by (rule keepsI) (metis still_cong)

lemma keeps_still_read: "keeps (still p b) (fs_read q)" "keeps (still p b) (fs_read_dir q)"
  by (rule keeps_still_same, erule fs_read_tree, rule keeps_still_same, erule fs_read_dir_tree)

lemma keeps_still_io: "keeps P m \<Longrightarrow> keeps P (io m)"
  unfolding io_def by (rule keeps_map_err)

lemma keeps_still_write:
  assumes "p \<noteq> q" "q \<noteq> []"
  shows "keeps (still p b) (write_bytes q c)"
proof (rule keepsI)
  fix s r s' assume "still p b s" "write_bytes q c s = (r, s')"
  with write_bytes_eff(1) [OF this(2) assms(2,1)] show "still p b s'" by (auto simp: still_def)
qed

lemma keeps_still_read_json: "keeps (still p b) (read_json L d q)"
  unfolding read_json_def by (intro keeps_bind keeps_still_io keeps_still_read keeps_basic)

lemma keeps_still_check: "keeps (still p b) (check_conflict L base r x)"
  unfolding check_conflict_def case_prod_beta
  by (intro keeps_bind keeps_cond keeps_if keeps_still_io keeps_still_read keeps_basic)

lemma keeps_gives_path:
  assumes "\<And>h. i = ''sha256:'' @ h \<Longrightarrow> hex64 h \<Longrightarrow> keeps P (k (object_file L base r h))"
  shows "keeps P (e_bind (e_lift (file_object_path L base r i)) k)"
  by (rule keeps_gives_bind [OF gives_lift], assumption) (use assms in \<open>auto simp: file_object_path_iff\<close>)

end
