(* ===== verification/Relay_Http.thy ===== *)
theory Relay_Http
  imports Relay_File
begin

text \<open>
  The \<^verbatim>\<open>RelayStore\<close> trait of \<^verbatim>\<open>crates/rickydata-git-relay/src/lib.rs\<close> as a record of operations, what
  every implementation promises as the locale \<open>relay_contract\<close>, and its client: the HTTP router with
  its bearer-token gate.  \<^verbatim>\<open>axum\<close> (matching a path to a route, decoding a JSON body) is outside: a
  request arrives as its path, the value of its authorization header and the matched route.
\<close>

section \<open>The trait\<close>

record 's relay_ops =
  op_validate :: "bundle_push_request \<Rightarrow> ('s, relay_error, bundle_validation_report) eff"
  op_push :: "bundle_push_request \<Rightarrow> ('s, relay_error, bundle_push_report) eff"
  op_pull :: "bundle_pull_request \<Rightarrow> ('s, relay_error, bundle_pull_report) eff"
  op_read :: "str \<Rightarrow> str \<Rightarrow> ('s, relay_error, canonical_object) eff"
  op_list :: "str \<Rightarrow> ('s, relay_error, str list) eff"
  op_status :: "str \<Rightarrow> ('s, relay_error, repo_relay_status_report) eff"

definition file_store :: "lib \<Rightarrow> env \<Rightarrow> path \<Rightarrow> fs relay_ops" where
  "file_store L env base = \<lparr>op_validate = file_validate_bundle L env, op_push = file_push_bundle L env base,
     op_pull = file_pull_bundle L base, op_read = file_read_object L base, op_list = file_list_object_ids L base,
     op_status = repo_status_of L (file_list_object_ids L base)\<rparr>"

section \<open>The router\<close>

definition OK :: nat where "OK = 200"
definition BAD_REQUEST :: nat where "BAD_REQUEST = 400"
definition UNAUTHORIZED :: nat where "UNAUTHORIZED = 401"
definition CONFLICT :: nat where "CONFLICT = 409"
definition INTERNAL_SERVER_ERROR :: nat where "INTERNAL_SERVER_ERROR = 500"

datatype route =
    Health
  | RepoStatus str
  | ValidateBundle str bundle_push_request
  | PushBundle str bundle_push_request
  | PullBundle str bundle_pull_request
  | GetObject str str

datatype response_body =
    HealthBody str str
  | StatusBody repo_relay_status_report
  | ValidationBody bundle_validation_report
  | PushBody bundle_push_report
  | PullBody bundle_pull_report
  | ObjectBody canonical_object
  | ErrorBody str str

record http_request =
  hr_path :: str
  hr_authorization :: "str option"
  hr_route :: route

record response =
  resp_status :: nat
  resp_body :: response_body

fun relay_error_status :: "relay_error \<Rightarrow> nat" where
  "relay_error_status (InvalidObject i m) = BAD_REQUEST"
| "relay_error_status (RelayObjectConflict i) = CONFLICT"
| "relay_error_status (RelayIo m) = INTERNAL_SERVER_ERROR"
| "relay_error_status (RelayJson m) = INTERNAL_SERVER_ERROR"
| "relay_error_status (RelayCore e) = INTERNAL_SERVER_ERROR"
| "relay_error_status (KfdbIndex m) = INTERNAL_SERVER_ERROR"

definition error_response :: "nat \<Rightarrow> str \<Rightarrow> response" where
  "error_response status message = \<lparr>resp_status = status, resp_body = ErrorBody ''error'' message\<rparr>"

definition respond :: "('a \<Rightarrow> response_body) \<Rightarrow> (relay_error + 'a) \<times> 's \<Rightarrow> response \<times> 's" where
  "respond f out = (case out of
     (Inr x, s) \<Rightarrow> (\<lparr>resp_status = OK, resp_body = f x\<rparr>, s)
   | (Inl e, s) \<Rightarrow> (error_response (relay_error_status e) (relay_error_text e), s))"

text \<open>\<^verbatim>\<open>ensure_repo_id\<close>: an empty id in the body takes the one of the path, another one is refused.\<close>

definition ensure_repo_id :: "str \<Rightarrow> str \<Rightarrow> response + str" where
  "ensure_repo_id path_repo_id body_repo_id =
     (if body_repo_id = [] then Inr path_repo_id
      else if body_repo_id \<noteq> path_repo_id
      then Inl (error_response BAD_REQUEST (''body repo_id `'' @ body_repo_id @ ''` does not match path repo_id `'' @
             path_repo_id @ ''`''))
      else Inr body_repo_id)"

definition with_repo_id :: "str \<Rightarrow> str \<Rightarrow> (str \<Rightarrow> 's \<Rightarrow> response \<times> 's) \<Rightarrow> 's \<Rightarrow> response \<times> 's" where
  "with_repo_id path_repo_id body_repo_id k s = (case ensure_repo_id path_repo_id body_repo_id of
     Inl r \<Rightarrow> (r, s) | Inr repo_id \<Rightarrow> k repo_id s)"

fun handle :: "'s relay_ops \<Rightarrow> route \<Rightarrow> 's \<Rightarrow> response \<times> 's" where
  "handle st Health s = (\<lparr>resp_status = OK, resp_body = HealthBody ''ok'' ''rickydata-git-relay''\<rparr>, s)"
| "handle st (RepoStatus r) s = respond StatusBody (op_status st r s)"
| "handle st (ValidateBundle r q) s = with_repo_id r (bq_repo_id q) (\<lambda>i s.
     respond ValidationBody (op_validate st (q\<lparr>bq_repo_id := i\<rparr>) s)) s"
| "handle st (PushBundle r q) s = with_repo_id r (bq_repo_id q) (\<lambda>i s.
     respond PushBody (op_push st (q\<lparr>bq_repo_id := i\<rparr>) s)) s"
| "handle st (PullBundle r q) s = with_repo_id r (lq_repo_id q) (\<lambda>i s.
     respond PullBody (op_pull st (q\<lparr>lq_repo_id := i\<rparr>) s)) s"
| "handle st (GetObject r i) s = respond ObjectBody (op_read st r i s)"

definition serve :: "'s relay_ops \<Rightarrow> str option \<Rightarrow> http_request \<Rightarrow> 's \<Rightarrow> response \<times> 's" where
  "serve st auth_token req s = (case auth_token of
     None \<Rightarrow> handle st (hr_route req) s
   | Some expected \<Rightarrow>
       if hr_path req = ''/health'' then handle st (hr_route req) s
       else (case Option.bind (hr_authorization req) (strip_prefix ''Bearer '') of
           Some token \<Rightarrow>
             if token = expected then handle st (hr_route req) s
             else (error_response UNAUTHORIZED ''missing or invalid bearer token'', s)
         | None \<Rightarrow> (error_response UNAUTHORIZED ''missing or invalid bearer token'', s)))"

text \<open>A run of requests, as the server takes them one after the other.\<close>

fun serve_all :: "'s relay_ops \<Rightarrow> str option \<Rightarrow> http_request list \<Rightarrow> 's \<Rightarrow> response list \<times> 's" where
  "serve_all st tok [] s = ([], s)"
| "serve_all st tok (q # qs) s = (case serve st tok q s of (r, s') \<Rightarrow>
     case serve_all st tok qs s' of (rs, s'') \<Rightarrow> (r # rs, s''))"

section \<open>What every operation keeps, every request keeps\<close>

definition ops_keep :: "('s \<Rightarrow> bool) \<Rightarrow> 's relay_ops \<Rightarrow> bool" where
  "ops_keep P st \<longleftrightarrow> (\<forall>q. keeps P (op_validate st q)) \<and> (\<forall>q. keeps P (op_push st q)) \<and>
     (\<forall>q. keeps P (op_pull st q)) \<and> (\<forall>r i. keeps P (op_read st r i)) \<and>
     (\<forall>r. keeps P (op_list st r)) \<and> (\<forall>r. keeps P (op_status st r))"

lemma respond_state: "snd (respond f out) = snd out"
  by (auto simp: respond_def split: prod.split sum.split)

lemma handle_keeps_any:
  assumes "ops_keep P st" "P s"
  shows "P (snd (handle st rt s))"
  using assms
  by (cases rt) (auto simp: ops_keep_def keeps_def with_repo_id_def respond_state split: sum.split)

lemma serve_keeps_any:
  assumes "ops_keep P st" "P s"
  shows "P (snd (serve st tok q s))"
  using assms(2) handle_keeps_any [OF assms] by (auto simp: serve_def split: option.split)

lemma serve_all_keeps_any:
  "ops_keep P st \<Longrightarrow> P s \<Longrightarrow> P (snd (serve_all st tok qs s))"
proof (induction qs arbitrary: s)
  case (Cons q qs)
  then show ?case using serve_keeps_any [OF Cons.prems, of tok q] by (auto split: prod.split) (metis snd_conv)
qed simp

section \<open>The contract of a store\<close>

locale relay_contract =
  fixes st :: "'s relay_ops"
    and check :: "bundle_push_request \<Rightarrow> relay_error + bundle_validation_report"
    and stored :: "'s \<Rightarrow> str \<Rightarrow> str \<Rightarrow> bytes option"
    and recorded :: "'s \<Rightarrow> str \<Rightarrow> str \<Rightarrow> bool"
    and parse :: "bytes \<Rightarrow> str + canonical_object"
  assumes validate_checks: "op_validate st q s = (check q, s)"
    and push_checks: "check q = Inl e \<Longrightarrow> op_push st q s = (Inl e, s)"
    and keeps_stored: "ops_keep (\<lambda>s. stored s r i = Some b) st"
    and push_stores: "op_push st q s = (Inr rep, s') \<Longrightarrow> \<not> recorded s (bq_repo_id q) (bq_idempotency_key q) \<Longrightarrow>
      obj \<in> set (bq_objects q) \<Longrightarrow> \<exists>b. stored s' (bq_repo_id q) (co_object_id obj) = Some b"
    and read_sound: "op_read st r i s = (Inr obj, s') \<Longrightarrow> \<exists>b. stored s r i = Some b \<and> parse b = Inr obj"
begin

text \<open>No request, and no sequence of requests, changes or removes a stored object.\<close>

lemma requests_keep:
  "stored s r i = Some b \<Longrightarrow> stored (snd (serve_all st tok qs s)) r i = Some b"
  by (rule serve_all_keeps_any [OF keeps_stored])

text \<open>A bundle that does not pass validation changes nothing and says why.\<close>

lemma refused_push:
  assumes "check (q\<lparr>bq_repo_id := r\<rparr>) = Inl e" "bq_repo_id q = [] \<or> bq_repo_id q = r"
  shows "handle st (PushBundle r q) s = (error_response (relay_error_status e) (relay_error_text e), s)"
  using assms by (auto simp: with_repo_id_def ensure_repo_id_def respond_def push_checks)

text \<open>What a GET answers with 200 is what is stored, and stays what it answers.\<close>

lemma get_answers_stored:
  assumes "handle st (GetObject r i) s = (resp, s')" "resp_status resp = OK"
  shows "\<exists>b obj. stored s r i = Some b \<and> parse b = Inr obj \<and> resp_body resp = ObjectBody obj"
proof -
  obtain out s1 where rd: "op_read st r i s = (out, s1)" by (rule prod.exhaust)
  show ?thesis
  proof (cases out)
    case (Inl e)
    with assms rd show ?thesis
      by (cases e) (auto simp: respond_def error_response_def OK_def BAD_REQUEST_def CONFLICT_def INTERNAL_SERVER_ERROR_def)
  next
    case (Inr obj)
    from read_sound [OF rd [unfolded Inr]] assms(1) rd Inr show ?thesis by (auto simp: respond_def)
  qed
qed

end

section \<open>The file store meets the contract\<close>

definition file_stored :: "lib \<Rightarrow> path \<Rightarrow> fs \<Rightarrow> str \<Rightarrow> str \<Rightarrow> bytes option" where
  "file_stored L base s repo_id object_id = (case file_object_path L base repo_id object_id of
     Inl _ \<Rightarrow> None
   | Inr p \<Rightarrow> (case tree s p of Some (File b) \<Rightarrow> Some b | _ \<Rightarrow> None))"

definition file_recorded :: "lib \<Rightarrow> path \<Rightarrow> fs \<Rightarrow> str \<Rightarrow> str \<Rightarrow> bool" where
  "file_recorded L base s repo_id key \<longleftrightarrow> exists_at s (idempotency_path L base repo_id key)"

lemma file_stored_iff:
  "file_stored L base s r i = Some b \<longleftrightarrow>
     (\<exists>h. i = ''sha256:'' @ h \<and> hex64 h \<and> still (object_file L base r h) b s)"
proof (cases "file_object_path L base r i")
  case (Inl e)
  then have "\<nexists>h. i = ''sha256:'' @ h \<and> hex64 h" using file_object_path_iff [of L base r i] by (metis sum.distinct(1))
  with Inl show ?thesis by (auto simp: file_stored_def)
next
  case (Inr p)
  then obtain h where "i = ''sha256:'' @ h" "hex64 h" "p = object_file L base r h"
    by (auto simp: file_object_path_iff)
  with Inr show ?thesis by (auto simp: file_stored_def still_def split: option.splits fnode.splits)
qed

lemma keeps_file_stored:
  assumes "\<And>h. keeps (still (object_file L base r h) b) m"
  shows "keeps (\<lambda>s. file_stored L base s r i = Some b) m"
proof (rule keepsI)
  fix s res s' assume "file_stored L base s r i = Some b" "m s = (res, s')"
  then show "file_stored L base s' r i = Some b"
    using assms unfolding file_stored_iff by (blast dest: keepsD)
qed

lemma store_missing_cases:
  "store_missing L base r (obj, b) (a, d) = (case file_object_path L base r (co_object_id obj) of
     Inl e \<Rightarrow> e_fail e
   | Inr p \<Rightarrow> (\<lambda>s. if exists_at s p then e_ret (a, d + 1) s
       else e_bind (write_bytes p b) (\<lambda>_. e_ret (a + 1, d)) s))"
  by (rule ext) (simp add: store_missing_def eff_simps split: sum.split)

lemma keeps_still_store:
  "keeps (still (object_file L base r0 h0) b0) (store_missing L base r x acc)"
proof -
  obtain obj b where x: "x = (obj, b)" by (rule prod.exhaust)
  obtain a d where acc: "acc = (a, d)" by (rule prod.exhaust)
  show ?thesis
  proof (cases "file_object_path L base r (co_object_id obj)")
    case (Inl e)
    show ?thesis unfolding x acc store_missing_cases Inl sum.case by (intro keeps_basic)
  next
    case (Inr p)
    then obtain h where p: "p = object_file L base r h" by (auto simp: file_object_path_iff)
    have run: "store_missing L base r x acc s = (if exists_at s p then e_ret (a, d + 1) s
       else e_bind (write_bytes p b) (\<lambda>_. e_ret (a + 1, d)) s)" for s
      unfolding x acc store_missing_cases Inr sum.case by (rule refl)
    show ?thesis
    proof (rule keepsI)
      fix s res s'
      assume st: "still (object_file L base r0 h0) b0 s" and step: "store_missing L base r x acc s = (res, s')"
      show "still (object_file L base r0 h0) b0 s'"
      proof (cases "exists_at s p")
        case True
        from step [unfolded run if_P [OF True]] st show ?thesis by (simp add: e_ret_def)
      next
        case False
        then have "object_file L base r0 h0 \<noteq> p" using st by (auto simp: still_def exists_at_def)
        then have "keeps (still (object_file L base r0 h0) b0) (e_bind (write_bytes p b) (\<lambda>_. e_ret (a + 1, d)))"
          unfolding p by (intro keeps_bind keeps_still_write keeps_basic) simp_all
        from keepsD [OF this step [unfolded run if_not_P [OF False]] st] show ?thesis .
      qed
    qed
  qed
qed

lemma keeps_still_push: "keeps (still (object_file L base r h) b) (file_push_bundle L env base q)"
proof -
  have w: "keeps (still (object_file L base r h) b) (write_json L (idempotency_path L base r' k) v)" for r' k v
    unfolding write_json_def by (intro keeps_bind keeps_still_write keeps_basic) simp_all
  have "keeps (still (object_file L base r h) b) (push_new L base q v)" for v
    unfolding push_new_def Let_def
    by (auto intro!: keeps_bind keeps_each keeps_fold keeps_still_check keeps_still_store w split: prod.split)
  then show ?thesis
    unfolding file_push_bundle_def file_validate_bundle_def Let_def
    by (intro keeps_bind keeps_cond keeps_still_read_json keeps_basic)
qed

lemma keeps_still_read_object: "keeps (still p b) (file_read_object L base r i)"
  unfolding file_read_object_def by (intro keeps_bind keeps_still_read_json keeps_basic)

lemma keeps_still_scan: "keeps (still p b) (scan_prefix dir x acc)"
  unfolding scan_prefix_def by (intro keeps_cond keeps_bind keeps_still_io keeps_still_read keeps_basic)

lemma keeps_still_list: "keeps (still p b) (file_list_object_ids L base r)"
proof -
  have "file_list_object_ids L base r = (\<lambda>s. if \<not> exists_at s (objects_dir L base r) then e_ret [] s
      else e_bind (io (fs_read_dir (objects_dir L base r))) (\<lambda>prefixes.
           e_bind (e_fold (scan_prefix (objects_dir L base r)) prefixes []) (\<lambda>ids. e_ret (sort ids))) s)"
    by (rule ext) (simp add: file_list_object_ids_def Let_def)
  then show ?thesis
    by (simp only:) (intro keeps_cond keeps_bind keeps_fold keeps_still_scan keeps_still_io keeps_still_read keeps_basic)
qed

text \<open>The first pass reads only; what it lets through is absent or has the same bytes.\<close>

definition slot :: "lib \<Rightarrow> path \<Rightarrow> str \<Rightarrow> canonical_object \<Rightarrow> path" where
  "slot L base r obj = object_file L base r (drop 7 (co_object_id obj))"

definition id64 :: "canonical_object \<Rightarrow> bool" where
  "id64 obj \<longleftrightarrow> (\<exists>h. co_object_id obj = ''sha256:'' @ h \<and> hex64 h)"

lemma file_object_path_slot:
  "file_object_path L base r (co_object_id obj) = Inr p \<longleftrightarrow> id64 obj \<and> p = slot L base r obj"
  by (auto simp: file_object_path_iff id64_def slot_def)

lemma slot_eq: "id64 a \<Longrightarrow> id64 b \<Longrightarrow> slot L base r a = slot L base r b \<longleftrightarrow> co_object_id a = co_object_id b"
  by (auto simp: id64_def slot_def)

lemma check_conflict_eff:
  assumes "check_conflict L base r (obj, b) s = (res, s')"
  shows "tree s' = tree s \<and> (faults s = [] \<longrightarrow> faults s' = []) \<and>
    (is_ok res \<longrightarrow> id64 obj \<and> (tree s (slot L base r obj) = None \<or> still (slot L base r obj) b s))"
proof (cases "file_object_path L base r (co_object_id obj)")
  case (Inl e)
  with assms show ?thesis by (auto simp: check_conflict_def eff_simps)
next
  case (Inr p)
  then have p: "id64 obj" "p = slot L base r obj" by (simp_all add: file_object_path_slot)
  show ?thesis
  proof (cases "exists_at s p")
    case False
    with assms Inr p show ?thesis by (auto simp: check_conflict_def eff_simps exists_at_def)
  next
    case True
    obtain r1 s1 where rd: "fs_read p s = (r1, s1)" by (rule prod.exhaust)
    have t: "tree s1 = tree s" "faults s = [] \<longrightarrow> faults s1 = []"
      using fs_read_tree [OF rd] calm_step(3) [OF _ rd] by auto
    show ?thesis
    proof (cases r1)
      case (Inl e)
      with assms Inr True rd t show ?thesis by (auto simp: check_conflict_def eff_simps io_def)
    next
      case r1: (Inr c)
      have f: "tree s p = Some (File c)" using fs_read_value rd r1 by simp
      have "s' = s1" "is_ok res \<longrightarrow> c = b"
        using assms Inr True rd r1 by (auto simp: check_conflict_def eff_simps io_def split: if_splits)
      with t f p show ?thesis by (auto simp: still_def)
    qed
  qed
qed

lemma check_all_eff:
  assumes "e_each (check_conflict L base r) xs s = (res, s')"
  shows "tree s' = tree s \<and> (faults s = [] \<longrightarrow> faults s' = []) \<and>
    (is_ok res \<longrightarrow> (\<forall>(obj, b) \<in> set xs. id64 obj \<and> (tree s (slot L base r obj) = None \<or> still (slot L base r obj) b s)))"
  using assms
proof (induction xs arbitrary: s)
  case (Cons x xs)
  obtain obj b where x: "x = (obj, b)" by (rule prod.exhaust)
  from Cons.prems have "e_bind (check_conflict L base r x) (\<lambda>_. e_each (check_conflict L base r) xs) s = (res, s')" by simp
  then show ?case
  proof (cases rule: e_bind_cases)
    case (err e)
    with check_conflict_eff [of L base r obj b s] x show ?thesis by auto
  next
    case (ok u s1)
    with check_conflict_eff [of L base r obj b s] Cons.IH [OF ok(2)] x show ?thesis
      by (auto simp: still_def)
  qed
qed auto

text \<open>The second pass: afterwards every object of the bundle has a file, with its bytes or those of another
  object of the bundle with the same id.\<close>

definition filled :: "lib \<Rightarrow> path \<Rightarrow> str \<Rightarrow> (canonical_object \<times> bytes) list \<Rightarrow> canonical_object \<Rightarrow> fs \<Rightarrow> bool" where
  "filled L base r xs obj s \<longleftrightarrow> (\<exists>obj' b'. (obj', b') \<in> set xs \<and> co_object_id obj' = co_object_id obj \<and>
     still (slot L base r obj) b' s)"

definition fillable :: "lib \<Rightarrow> path \<Rightarrow> str \<Rightarrow> (canonical_object \<times> bytes) list \<Rightarrow> fs \<Rightarrow> bool" where
  "fillable L base r xs s \<longleftrightarrow> (\<forall>(obj, b) \<in> set xs. id64 obj \<and> (tree s (slot L base r obj) = None \<or> filled L base r xs obj s))"

lemma store_missing_eff:
  assumes "store_missing L base r (obj, b) acc s = (res, s')" "(obj, b) \<in> set xs" "fillable L base r xs s"
  shows "(faults s = [] \<longrightarrow> faults s' = []) \<and>
    (is_ok res \<longrightarrow> fillable L base r xs s' \<and> filled L base r xs obj s' \<and>
       res = Inr (if tree s (slot L base r obj) = None then (fst acc + 1, snd acc) else (fst acc, snd acc + 1)))"
proof -
  let ?p = "slot L base r obj"
  have i: "id64 obj" "tree s ?p = None \<or> filled L base r xs obj s" using assms(2,3) by (auto simp: fillable_def)
  then have path: "file_object_path L base r (co_object_id obj) = Inr ?p" by (simp add: file_object_path_slot)
  obtain a d where acc: "acc = (a, d)" by (rule prod.exhaust)
  have ne: "?p \<noteq> []" by (simp add: slot_def)
  show ?thesis
  proof (cases "exists_at s ?p")
    case True
    with assms acc path i ne show ?thesis by (auto simp: store_missing_def eff_simps exists_at_def)
  next
    case False
    then have none: "tree s ?p = None" by (simp add: exists_at_def)
    obtain r1 s1 where w: "write_bytes ?p b s = (r1, s1)" by (rule prod.exhaust)
    have out: "s' = s1" "res = (case r1 of Inl e \<Rightarrow> Inl e | Inr _ \<Rightarrow> Inr (a + 1, d))"
      using assms(1) acc path False w by (auto simp: store_missing_def eff_simps split: sum.splits)
    note we = write_bytes_eff [OF w ne]
    have fill: "fillable L base r xs s1" if ok: "r1 = Inr u" for u
      unfolding fillable_def
    proof (clarify)
      fix obj' b' assume x: "(obj', b') \<in> set xs"
      then have o: "id64 obj'" "tree s (slot L base r obj') = None \<or> filled L base r xs obj' s"
        using assms(3) by (auto simp: fillable_def)
      show "id64 obj' \<and> (tree s1 (slot L base r obj') = None \<or> filled L base r xs obj' s1)"
      proof (cases "co_object_id obj' = co_object_id obj")
        case True
        then have "slot L base r obj' = ?p" by (simp add: slot_def)
        then show ?thesis using we(3) we(2) [OF ok] assms(2) True o(1) by (auto simp: filled_def still_def)
      next
        case False
        then have "slot L base r obj' \<noteq> ?p" using o(1) i(1) by (simp add: slot_eq)
        then have "tree s1 (slot L base r obj') = tree s (slot L base r obj')"
          using we(1) [of "slot L base r obj'"] by (auto simp: slot_def)
        then show ?thesis using o by (auto simp: filled_def still_def)
      qed
    qed
    show ?thesis
    proof (cases r1)
      case (Inl e)
      with out we(4) show ?thesis by auto
    next
      case (Inr u)
      with out we(2) [OF Inr] we(4) fill [OF Inr] assms(2) acc none show ?thesis
        by (auto simp: filled_def still_def)
    qed
  qed
qed

lemma filled_kept:
  assumes "store_missing L base r x acc s = (res, s')" "filled L base r xs obj s"
  shows "filled L base r xs obj s'"
proof -
  from assms(2) obtain obj' b' where *: "(obj', b') \<in> set xs" "co_object_id obj' = co_object_id obj"
    "still (slot L base r obj) b' s" by (auto simp: filled_def)
  have "still (slot L base r obj) b' s'"
    using keepsD [OF keeps_still_store assms(1)] *(3) unfolding slot_def by blast
  with *(1,2) show ?thesis by (auto simp: filled_def)
qed

lemma store_all_eff:
  assumes "e_fold (store_missing L base r) ys acc s = (res, s')" "set ys \<subseteq> set xs" "fillable L base r xs s"
  shows "(faults s = [] \<longrightarrow> faults s' = []) \<and>
    (\<forall>acc'. res = Inr acc' \<longrightarrow> (\<forall>(obj, b) \<in> set ys. filled L base r xs obj s') \<and>
       (\<forall>obj. filled L base r xs obj s \<longrightarrow> filled L base r xs obj s') \<and>
       fst acc' + snd acc' = fst acc + snd acc + of_nat (length ys))"
  using assms
proof (induction ys arbitrary: s acc)
  case (Cons y ys)
  obtain obj b where y: "y = (obj, b)" by (rule prod.exhaust)
  from Cons.prems(1) have "e_bind (store_missing L base r y acc) (e_fold (store_missing L base r) ys) s = (res, s')" by simp
  then show ?case
  proof (cases rule: e_bind_cases)
    case (err e)
    with store_missing_eff [of L base r obj b acc s _ s' xs] Cons.prems y show ?thesis by auto
  next
    case (ok acc1 s1)
    have e: "(faults s = [] \<longrightarrow> faults s1 = []) \<and> fillable L base r xs s1 \<and> filled L base r xs obj s1 \<and>
        fst acc1 + snd acc1 = fst acc + snd acc + 1"
      using store_missing_eff [of L base r obj b acc s "Inr acc1" s1 xs] ok(1) Cons.prems(2,3) y
      by (auto split: if_splits)
    have ih: "(faults s1 = [] \<longrightarrow> faults s' = []) \<and>
      (\<forall>acc'. res = Inr acc' \<longrightarrow> (\<forall>(obj, b) \<in> set ys. filled L base r xs obj s') \<and>
       (\<forall>obj. filled L base r xs obj s1 \<longrightarrow> filled L base r xs obj s') \<and>
       fst acc' + snd acc' = fst acc1 + snd acc1 + of_nat (length ys))"
      using Cons.IH [OF ok(2)] Cons.prems(2) e by auto
    show ?thesis
      using e ih filled_kept [OF ok(1)] y by (auto simp: algebra_simps)
  qed
qed auto

text \<open>A push that is not a replay, taken apart.\<close>

lemma push_parts:
  assumes "file_push_bundle L env base q s = (Inr rep, s')"
    and "\<not> file_recorded L base s (bq_repo_id q) (bq_idempotency_key q)"
  obtains v bs where "bundle_validation_report_of L env q = Inr v"
    "r_collect (relay_object_bytes L) (bq_objects q) = Inr bs"
    "\<forall>obj \<in> set (bq_objects q). id64 obj"
    "\<forall>obj \<in> set (bq_objects q). filled L base (bq_repo_id q) (zip (bq_objects q) bs) obj s'"
    "bp_object_ids rep = bv_object_ids v" "bp_bundle_hash rep = bv_bundle_hash v"
    "bp_accepted_object_count rep + bp_duplicate_object_count rep = of_nat (length (bq_objects q))"
    "\<exists>j. to_vec_pretty L (push_report_json rep) = Inr j \<and>
       still (idempotency_path L base (bq_repo_id q) (bq_idempotency_key q)) j s'"
    "faults s = [] \<longrightarrow> faults s' = []"
proof -
  let ?ip = "idempotency_path L base (bq_repo_id q) (bq_idempotency_key q)"
  from assms(1) obtain v where v: "bundle_validation_report_of L env q = Inr v"
    by (cases "bundle_validation_report_of L env q") (auto simp: file_push_bundle_def file_validate_bundle_def eff_simps)
  with assms have run: "push_new L base q v s = (Inr rep, s')"
    by (simp add: file_push_bundle_def file_validate_bundle_def eff_simps file_recorded_def Let_def)
  then obtain bs where bs: "r_collect (relay_object_bytes L) (bq_objects q) = Inr bs"
    by (cases "r_collect (relay_object_bytes L) (bq_objects q)") (auto simp: push_new_def eff_simps)
  let ?xs = "zip (bq_objects q) bs"
  obtain r1 s1 where c: "e_each (check_conflict L base (bq_repo_id q)) ?xs s = (r1, s1)" by (rule prod.exhaust)
  with run bs obtain u where r1: "r1 = Inr u" by (cases r1) (auto simp: push_new_def eff_simps)
  obtain r2 s2 where f: "e_fold (store_missing L base (bq_repo_id q)) ?xs (0, 0) s1 = (r2, s2)" by (rule prod.exhaust)
  with run bs c r1 obtain acc where r2: "r2 = Inr acc" by (cases r2) (auto simp: push_new_def eff_simps)
  obtain a d where acc: "acc = (a, d)" by (rule prod.exhaust)
  let ?rep = "\<lparr>bp_status = ''ok'', bp_repo_id = bq_repo_id q, bp_idempotency_key = bq_idempotency_key q,
      bp_accepted_object_count = a, bp_duplicate_object_count = d, bp_object_ids = bv_object_ids v,
      bp_bundle_hash = bv_bundle_hash v\<rparr>"
  obtain r3 s3 where w: "write_json L ?ip (push_report_json ?rep) s2 = (r3, s3)" by (rule prod.exhaust)
  with run bs c r1 f r2 acc have rep: "rep = ?rep" "s' = s3" "is_ok r3"
    by (cases r3; auto simp: push_new_def eff_simps Let_def)+
  obtain j where j: "to_vec_pretty L (push_report_json ?rep) = Inr j" "write_bytes ?ip j s2 = (r3, s3)"
    using w rep(3) by (cases "to_vec_pretty L (push_report_json ?rep)") (auto simp: write_json_def eff_simps)
  have ip: "?ip \<noteq> []" by simp
  note we = write_bytes_eff [OF j(2) ip]
  have ce: "tree s1 = tree s \<and> (faults s = [] \<longrightarrow> faults s1 = []) \<and>
    (\<forall>(obj, b) \<in> set ?xs. id64 obj \<and> (tree s (slot L base (bq_repo_id q) obj) = None \<or> still (slot L base (bq_repo_id q) obj) b s))"
    using check_all_eff [OF c] r1 by auto
  have fillable: "fillable L base (bq_repo_id q) ?xs s1"
    unfolding fillable_def
  proof (intro ballI, clarify)
    fix obj b assume x: "(obj, b) \<in> set ?xs"
    with ce have "id64 obj" "tree s1 (slot L base (bq_repo_id q) obj) = None \<or> still (slot L base (bq_repo_id q) obj) b s1"
      by (auto simp: still_def)
    with x show "id64 obj \<and> (tree s1 (slot L base (bq_repo_id q) obj) = None \<or> filled L base (bq_repo_id q) ?xs obj s1)"
      unfolding filled_def by blast
  qed
  have se: "(faults s1 = [] \<longrightarrow> faults s2 = []) \<and> (\<forall>(obj, b) \<in> set ?xs. filled L base (bq_repo_id q) ?xs obj s2) \<and>
    a + d = of_nat (length ?xs)"
    using store_all_eff [OF f subset_refl fillable] r2 acc by auto
  have len: "length bs = length (bq_objects q)" by (rule r_collect_length [OF bs])
  have all: "\<exists>b. (obj, b) \<in> set ?xs" if "obj \<in> set (bq_objects q)" for obj
    using that len by (metis in_set_impl_in_set_zip1)
  have id: "\<forall>obj \<in> set (bq_objects q). id64 obj" using all ce by fast
  have fin: "\<forall>obj \<in> set (bq_objects q). filled L base (bq_repo_id q) ?xs obj s'"
  proof
    fix obj assume "obj \<in> set (bq_objects q)"
    then have "filled L base (bq_repo_id q) ?xs obj s2" using all se by fast
    then obtain obj' b' where *: "(obj', b') \<in> set ?xs" "co_object_id obj' = co_object_id obj"
      "still (slot L base (bq_repo_id q) obj) b' s2" by (auto simp: filled_def)
    have "still (slot L base (bq_repo_id q) obj) b' s3"
      using keepsD [OF keeps_still_write j(2) *(3)] by (simp add: slot_def)
    with * rep(2) show "filled L base (bq_repo_id q) ?xs obj s'" by (auto simp: filled_def)
  qed
  obtain u3 where r3: "r3 = Inr u3" using rep(3) by (cases r3) auto
  show thesis
    by (rule that [OF v bs id fin]) (use rep se ce len j(1) we(2) [OF r3] we(4) in \<open>auto simp: still_def\<close>)
qed

lemma file_read_sound:
  assumes "file_read_object L base r i s = (Inr obj, s')"
  shows "\<exists>b. file_stored L base s r i = Some b \<and> parse_as L object_of_json b = Inr obj"
proof -
  from assms obtain p where p: "file_object_path L base r i = Inr p"
    by (cases "file_object_path L base r i") (auto simp: file_read_object_def eff_simps)
  obtain r1 s1 where rd: "fs_read p s = (r1, s1)" by (rule prod.exhaust)
  with assms p obtain b where b: "r1 = Inr b" "parse_as L object_of_json b = Inr obj"
    by (cases r1) (auto simp: file_read_object_def read_json_def io_def eff_simps)
  from fs_read_value [OF rd [unfolded b(1)]] p b(2) show ?thesis by (auto simp: file_stored_def)
qed

lemma file_store_keeps:
  assumes "\<And>q. keeps P (file_push_bundle L env base q)" "\<And>r i. keeps P (file_read_object L base r i)"
    and "\<And>r. keeps P (file_list_object_ids L base r)"
  shows "ops_keep P (file_store L env base)"
proof -
  have "keeps P (file_pull_bundle L base q)" for q
    unfolding file_pull_bundle_def Let_def by (intro keeps_bind keeps_e_map assms keeps_basic)
  moreover have "keeps P (repo_status_of L (file_list_object_ids L base) r)" for r
    unfolding repo_status_of_def by (intro keeps_bind assms keeps_basic)
  ultimately show ?thesis
    using assms by (simp add: ops_keep_def file_store_def file_validate_bundle_def)
qed

interpretation fstore: relay_contract "file_store L env base" "bundle_validation_report_of L env"
  "file_stored L base" "file_recorded L base" "parse_as L object_of_json" for L env base
proof
  fix q s
  show "op_validate (file_store L env base) q s = (bundle_validation_report_of L env q, s)"
    by (simp add: file_store_def file_validate_bundle_def)
next
  fix q s e assume "bundle_validation_report_of L env q = Inl e"
  then show "op_push (file_store L env base) q s = (Inl e, s)"
    by (simp add: file_store_def file_push_bundle_def file_validate_bundle_def eff_simps)
next
  fix r i b
  show "ops_keep (\<lambda>s. file_stored L base s r i = Some b) (file_store L env base)"
    by (intro file_store_keeps keeps_file_stored keeps_still_push keeps_still_read_object keeps_still_list)
next
  fix q s rep s' and obj :: canonical_object
  assume run: "op_push (file_store L env base) q s = (Inr rep, s')"
    and new: "\<not> file_recorded L base s (bq_repo_id q) (bq_idempotency_key q)" and o: "obj \<in> set (bq_objects q)"
  from run have "file_push_bundle L env base q s = (Inr rep, s')" by (simp add: file_store_def)
  then obtain bs where f: "\<forall>obj \<in> set (bq_objects q). id64 obj"
    "\<forall>obj \<in> set (bq_objects q). filled L base (bq_repo_id q) (zip (bq_objects q) bs) obj s'"
    by (rule push_parts [OF _ new])
  from f(1) o obtain h where h: "co_object_id obj = ''sha256:'' @ h" "hex64 h" by (auto simp: id64_def)
  from f(2) o obtain b where "still (slot L base (bq_repo_id q) obj) b s'" by (auto simp: filled_def)
  with h show "\<exists>b. file_stored L base s' (bq_repo_id q) (co_object_id obj) = Some b"
    by (auto simp: file_stored_iff slot_def)
next
  fix r i s obj s'
  assume "op_read (file_store L env base) r i s = (Inr obj, s')"
  then show "\<exists>b. file_stored L base s r i = Some b \<and> parse_as L object_of_json b = Inr obj"
    by (intro file_read_sound) (simp add: file_store_def)
qed

end
