(* ===== verification/Relay_Gcs.thy ===== *)
theory Relay_Gcs
  imports Relay_Http
begin

text \<open>
  \<^verbatim>\<open>GcsRelayStore\<close> of \<^verbatim>\<open>crates/rickydata-git-relay/src/lib.rs\<close>: the relay store kept in a bucket of
  Google Cloud Storage, one object per stored object and one per idempotency key, and beside it the
  one request of \<^verbatim>\<open>HttpKfdbIndexSink\<close>.  The HTTP client (\<^verbatim>\<open>reqwest\<close>), the clock and the sleeping of the
  process are a parameter that acts on the state \<open>'h\<close> of the outside world; the store adds its token cache.
\<close>

section \<open>The HTTP client\<close>

datatype http_method = Get | Post

text \<open>A request as it leaves the builder: the query pairs are those appended to the URL.\<close>

record http_call =
  gq_method :: http_method
  gq_url :: str
  gq_query :: "(str \<times> str) list"
  gq_headers :: "(str \<times> str) list"
  gq_bearer :: "str option"
  gq_body :: bytes

text \<open>The body of a reply may fail to arrive.\<close>

record http_reply =
  gr_status :: nat
  gr_body :: "str + bytes"

text \<open>
  What the store uses of the client: sending, the clock (in milliseconds), sleeping, parsing a URL,
  percent-encoding, and the texts of a status and of the client's own errors.
\<close>

record 'h http_client =
  ht_send :: "http_call \<Rightarrow> 'h \<Rightarrow> (str + http_reply) \<times> 'h"
  ht_now :: "'h \<Rightarrow> nat"
  ht_sleep :: "nat \<Rightarrow> 'h \<Rightarrow> 'h"
  ht_parse_url :: "str \<Rightarrow> str + str"
  ht_percent :: "str \<Rightarrow> str"
  ht_status_text :: "nat \<Rightarrow> str"
  ht_status_error :: "nat \<Rightarrow> str"
  ht_decode_error :: "str \<Rightarrow> str"
  ht_builder_error :: "str \<Rightarrow> str"

definition NOT_FOUND :: nat where "NOT_FOUND = 404"
definition PRECONDITION_FAILED :: nat where "PRECONDITION_FAILED = 412"

definition is_success :: "http_reply \<Rightarrow> bool" where
  "is_success r \<longleftrightarrow> 200 \<le> gr_status r \<and> gr_status r < 300"

definition is_server_error :: "http_reply \<Rightarrow> bool" where
  "is_server_error r \<longleftrightarrow> 500 \<le> gr_status r \<and> gr_status r < 600"

definition is_error :: "http_reply \<Rightarrow> bool" where
  "is_error r \<longleftrightarrow> 400 \<le> gr_status r \<and> gr_status r < 600"

definition error_for_status :: "'h http_client \<Rightarrow> http_reply \<Rightarrow> relay_error + http_reply" where
  "error_for_status cl r = (if is_error r then Inl (RelayIo (ht_status_error cl (gr_status r))) else Inr r)"

definition reply_bytes :: "http_reply \<Rightarrow> relay_error + bytes" where
  "reply_bytes r = map_err RelayIo (gr_body r)"

text \<open>\<^verbatim>\<open>Response::json\<close> of a \<^verbatim>\<open>Value\<close>.\<close>

definition reply_json :: "lib \<Rightarrow> 'h http_client \<Rightarrow> http_reply \<Rightarrow> relay_error + json" where
  "reply_json L cl r = r_bind (reply_bytes r) (\<lambda>b. map_err (\<lambda>e. RelayIo (ht_decode_error cl e)) (from_slice L b))"

section \<open>The store\<close>

datatype gcs_auth = NoAuth | Bearer str | Metadata str

record gcs_config =
  gc_bucket :: str
  gc_api_base_url :: str
  gc_upload_base_url :: str
  gc_auth :: gcs_auth

record cached_gcs_token =
  ct_token :: str
  ct_expires_at :: nat

record 'h gcs =
  gs_token_cache :: "cached_gcs_token option"
  gs_host :: 'h

definition gcs_with_base_urls :: "str \<Rightarrow> str \<Rightarrow> str \<Rightarrow> gcs_auth \<Rightarrow> gcs_config" where
  "gcs_with_base_urls bucket api upload auth = \<lparr>gc_bucket = bucket, gc_api_base_url = trim_end_char CHR ''/'' api,
     gc_upload_base_url = trim_end_char CHR ''/'' upload, gc_auth = auth\<rparr>"

definition gcs_new :: "str \<Rightarrow> gcs_auth \<Rightarrow> gcs_config" where
  "gcs_new bucket auth =
     gcs_with_base_urls bucket ''https://storage.googleapis.com'' ''https://storage.googleapis.com'' auth"

definition objects_prefix :: "str \<Rightarrow> str" where
  "objects_prefix repo_id = ''repos/'' @ repo_id @ ''/objects/''"

definition gcs_object_name :: "lib \<Rightarrow> str \<Rightarrow> str \<Rightarrow> str" where
  "gcs_object_name L repo_id object_id = objects_prefix repo_id @ key_hash L object_id @ ''.json''"

definition gcs_idempotency_name :: "lib \<Rightarrow> str \<Rightarrow> str \<Rightarrow> str" where
  "gcs_idempotency_name L repo_id key = ''repos/'' @ repo_id @ ''/idempotency/'' @ key_hash L key @ ''.json''"

definition gcs_object_url :: "'h http_client \<Rightarrow> gcs_config \<Rightarrow> str \<Rightarrow> str" where
  "gcs_object_url cl cfg name =
     gc_api_base_url cfg @ ''/storage/v1/b/'' @ gc_bucket cfg @ ''/o/'' @ ht_percent cl name"

text \<open>A request without headers or body of its own, before the token is added.\<close>

definition bare_get :: "str \<Rightarrow> (str \<times> str) list \<Rightarrow> http_call" where
  "bare_get url query = \<lparr>gq_method = Get, gq_url = url, gq_query = query, gq_headers = [], gq_bearer = None, gq_body = []\<rparr>"

definition upload_call :: "str \<Rightarrow> str \<Rightarrow> bytes \<Rightarrow> http_call" where
  "upload_call url name b = \<lparr>gq_method = Post, gq_url = url,
     gq_query = [(''uploadType'', ''media''), (''ifGenerationMatch'', ''0''), (''name'', name)],
     gq_headers = [], gq_bearer = None, gq_body = b\<rparr>"

definition list_call :: "str \<Rightarrow> str \<Rightarrow> str option \<Rightarrow> http_call" where
  "list_call url pfx page_token =
     bare_get url ((''prefix'', pfx) # (case page_token of None \<Rightarrow> [] | Some t \<Rightarrow> [(''pageToken'', t)]))"

definition gcs_upload_url :: "'h http_client \<Rightarrow> gcs_config \<Rightarrow> relay_error + str" where
  "gcs_upload_url cl cfg = map_err RelayIo
     (ht_parse_url cl (gc_upload_base_url cfg @ ''/upload/storage/v1/b/'' @ gc_bucket cfg @ ''/o''))"

definition gcs_list_url :: "'h http_client \<Rightarrow> gcs_config \<Rightarrow> relay_error + str" where
  "gcs_list_url cl cfg = map_err RelayIo
     (ht_parse_url cl (gc_api_base_url cfg @ ''/storage/v1/b/'' @ gc_bucket cfg @ ''/o''))"

section \<open>Sending\<close>

text \<open>
  Three attempts: a server error and a failure to send are tried again after a pause, the outcome of
  the third is final.  (Cloning the request never fails: its body is a vector.)
\<close>

fun retry_loop :: "'h http_client \<Rightarrow> http_call \<Rightarrow> str option \<Rightarrow> nat list \<Rightarrow> 'h \<Rightarrow> (relay_error + http_reply) \<times> 'h" where
  "retry_loop cl q last_error [] h =
     (Inl (RelayIo (case last_error of None \<Rightarrow> ''GCS request failed after retries'' | Some e \<Rightarrow> e)), h)"
| "retry_loop cl q last_error (attempt # attempts) h = (case ht_send cl q h of
     (Inr r, h') \<Rightarrow>
       if is_server_error r \<and> attempt < 2
       then retry_loop cl q (Some (''GCS returned '' @ ht_status_text cl (gr_status r))) attempts
              (ht_sleep cl (150 * (attempt + 1)) h')
       else (Inr r, h')
   | (Inl e, h') \<Rightarrow>
       if attempt < 2 then retry_loop cl q (Some e) attempts (ht_sleep cl (150 * (attempt + 1)) h')
       else (Inl (RelayIo e), h'))"

definition send_with_retry :: "'h http_client \<Rightarrow> http_call \<Rightarrow> ('h gcs, relay_error, http_reply) eff" where
  "send_with_retry cl q s = (case retry_loop cl q None [0, 1, 2] (gs_host s) of (r, h) \<Rightarrow> (r, s\<lparr>gs_host := h\<rparr>))"

section \<open>The token\<close>

fun contains_text :: "str \<Rightarrow> str \<Rightarrow> bool" where
  "contains_text p [] \<longleftrightarrow> p = []"
| "contains_text p (c # cs) \<longleftrightarrow> starts_with (c # cs) p \<or> contains_text p cs"

text \<open>\<^verbatim>\<open>str::replace\<close> for a pattern that is not empty: \<open>skip\<close> counts the bytes of a match still to pass.\<close>

fun replace_from :: "str \<Rightarrow> str \<Rightarrow> nat \<Rightarrow> str \<Rightarrow> str" where
  "replace_from p r skip [] = []"
| "replace_from p r skip (c # cs) =
     (case skip of
        Suc n \<Rightarrow> replace_from p r n cs
      | 0 \<Rightarrow> if starts_with (c # cs) p then r @ replace_from p r (length p - 1) cs else c # replace_from p r 0 cs)"

definition metadata_token_url_candidates :: "str \<Rightarrow> str list" where
  "metadata_token_url_candidates token_url = token_url #
     (if contains_text ''metadata.google.internal'' token_url
      then [replace_from ''metadata.google.internal'' ''169.254.169.254'' 0 token_url] else [])"

fun fetch_candidates :: "lib \<Rightarrow> 'h http_client \<Rightarrow> str list \<Rightarrow> str list \<Rightarrow> ('h gcs, relay_error, json) eff" where
  "fetch_candidates L cl errors [] =
     e_fail (RelayIo (''failed to fetch GCS metadata token: '' @ join_with ''; '' errors))"
| "fetch_candidates L cl errors (u # us) = (\<lambda>s.
     case send_with_retry cl ((bare_get u [])\<lparr>gq_headers := [(''Metadata-Flavor'', ''Google'')]\<rparr>) s of
       (Inr r, s') \<Rightarrow> e_lift (r_bind (error_for_status cl r) (reply_json L cl)) s'
     | (Inl e, s') \<Rightarrow> fetch_candidates L cl (errors @ [relay_error_text e]) us s')"

definition fetch_metadata_token :: "lib \<Rightarrow> 'h http_client \<Rightarrow> str \<Rightarrow> ('h gcs, relay_error, json) eff" where
  "fetch_metadata_token L cl token_url = fetch_candidates L cl [] (metadata_token_url_candidates token_url)"

definition cached_token :: "'h http_client \<Rightarrow> 'h gcs \<Rightarrow> str option" where
  "cached_token cl s = (case gs_token_cache s of
     Some c \<Rightarrow> if ct_expires_at c > ht_now cl (gs_host s) + 30000 then Some (ct_token c) else None
   | None \<Rightarrow> None)"

text \<open>\<^verbatim>\<open>expires_in.saturating_sub(60).max(1)\<close> seconds, 300 when the reply does not say.\<close>

definition token_lifetime :: "json \<Rightarrow> nat" where
  "token_lifetime v = max 1 ((case Option.bind (json_get v ''expires_in'') d_u64 of None \<Rightarrow> 300 | Some n \<Rightarrow> unat n) - 60)"

definition remember_token :: "'h http_client \<Rightarrow> str \<Rightarrow> nat \<Rightarrow> ('h gcs, relay_error, str option) eff" where
  "remember_token cl token lifetime s = (Inr (Some token),
     s\<lparr>gs_token_cache := Some \<lparr>ct_token = token, ct_expires_at = ht_now cl (gs_host s) + 1000 * lifetime\<rparr>\<rparr>)"

definition auth_token :: "lib \<Rightarrow> 'h http_client \<Rightarrow> gcs_config \<Rightarrow> ('h gcs, relay_error, str option) eff" where
  "auth_token L cl cfg = (case gc_auth cfg of
     NoAuth \<Rightarrow> e_ret None
   | Bearer token \<Rightarrow> e_ret (Some token)
   | Metadata token_url \<Rightarrow> (\<lambda>s. case cached_token cl s of
         Some token \<Rightarrow> (Inr (Some token), s)
       | None \<Rightarrow>
           e_bind (fetch_metadata_token L cl token_url) (\<lambda>v.
           e_bind (e_lift (ok_or (RelayIo ''GCS metadata token response missing access_token'')
                     (Option.bind (json_get v ''access_token'') as_str))) (\<lambda>token.
             remember_token cl token (token_lifetime v))) s))"

definition send_authorized :: "lib \<Rightarrow> 'h http_client \<Rightarrow> gcs_config \<Rightarrow> http_call \<Rightarrow> ('h gcs, relay_error, http_reply) eff" where
  "send_authorized L cl cfg q =
     e_bind (auth_token L cl cfg) (\<lambda>token. send_with_retry cl (q\<lparr>gq_bearer := token\<rparr>))"

section \<open>Objects of the bucket\<close>

definition media_call :: "'h http_client \<Rightarrow> gcs_config \<Rightarrow> str \<Rightarrow> http_call" where
  "media_call cl cfg name = bare_get (gcs_object_url cl cfg name) [(''alt'', ''media'')]"

definition get_bytes :: "lib \<Rightarrow> 'h http_client \<Rightarrow> gcs_config \<Rightarrow> str \<Rightarrow> ('h gcs, relay_error, bytes) eff" where
  "get_bytes L cl cfg name =
     e_bind (send_authorized L cl cfg (media_call cl cfg name)) (\<lambda>r.
     if gr_status r = NOT_FOUND then e_fail (RelayIo (''GCS object `'' @ name @ ''` was not found''))
     else e_lift (r_bind (error_for_status cl r) reply_bytes))"

datatype gcs_put_result = Written | AlreadyExists

definition put_bytes_if_absent ::
    "lib \<Rightarrow> 'h http_client \<Rightarrow> gcs_config \<Rightarrow> str \<Rightarrow> bytes \<Rightarrow> ('h gcs, relay_error, gcs_put_result) eff" where
  "put_bytes_if_absent L cl cfg name b =
     e_bind (e_lift (gcs_upload_url cl cfg)) (\<lambda>url.
     e_bind (send_authorized L cl cfg (upload_call url name b)) (\<lambda>r.
     if is_success r then e_ret Written
     else if gr_status r = PRECONDITION_FAILED \<or> gr_status r = CONFLICT then e_ret AlreadyExists
     else e_fail (RelayIo (''GCS write for `'' @ name @ ''` returned '' @ ht_status_text cl (gr_status r)))))"

definition read_json_object ::
    "lib \<Rightarrow> 'h http_client \<Rightarrow> gcs_config \<Rightarrow> (json \<Rightarrow> 'a option) \<Rightarrow> str \<Rightarrow> ('h gcs, relay_error, 'a) eff" where
  "read_json_object L cl cfg d name =
     e_bind (get_bytes L cl cfg name) (\<lambda>b. e_lift (map_err RelayJson (parse_as L d b)))"

definition put_json_if_absent ::
    "lib \<Rightarrow> 'h http_client \<Rightarrow> gcs_config \<Rightarrow> str \<Rightarrow> json \<Rightarrow> ('h gcs, relay_error, gcs_put_result) eff" where
  "put_json_if_absent L cl cfg name v =
     e_bind (e_lift (map_err RelayJson (to_vec_pretty L v))) (put_bytes_if_absent L cl cfg name)"

section \<open>Listing\<close>

text \<open>The names of one page of a listing and the token of the next page.\<close>

definition page_names :: "json \<Rightarrow> str list" where
  "page_names v = (case Option.bind (json_get v ''items'') as_array of
     None \<Rightarrow> [] | Some items \<Rightarrow> List.map_filter (\<lambda>item. Option.bind (json_get item ''name'') as_str) items)"

definition next_page :: "json \<Rightarrow> str option" where
  "next_page v = Option.bind (json_get v ''nextPageToken'') as_str"

definition list_page ::
    "lib \<Rightarrow> 'h http_client \<Rightarrow> gcs_config \<Rightarrow> str \<Rightarrow> str option \<Rightarrow> ('h gcs, relay_error, json) eff" where
  "list_page L cl cfg pfx page_token =
     e_bind (e_lift (gcs_list_url cl cfg)) (\<lambda>url.
     e_bind (send_authorized L cl cfg (list_call url pfx page_token)) (\<lambda>r.
       e_lift (r_bind (error_for_status cl r) (reply_json L cl))))"

text \<open>The loop over the pages ends only when the service says so: it may not return.\<close>

partial_function (option) list_loop ::
    "lib \<Rightarrow> 'h http_client \<Rightarrow> gcs_config \<Rightarrow> str \<Rightarrow> str list \<Rightarrow> str option \<Rightarrow> 'h gcs \<Rightarrow>
       ((relay_error + str list) \<times> 'h gcs) option" where
  "list_loop L cl cfg pfx names page_token s = (case list_page L cl cfg pfx page_token s of
     (Inl e, s') \<Rightarrow> Some (Inl e, s')
   | (Inr v, s') \<Rightarrow> (case next_page v of
         None \<Rightarrow> Some (Inr (names @ page_names v), s')
       | Some t \<Rightarrow> list_loop L cl cfg pfx (names @ page_names v) (Some t) s'))"

text \<open>
  As an operation that other operations call.  A listing that never returns has no result; its place
  is taken by an error nothing else raises, and whether it returns is a property of its own.
\<close>

definition NEVER_RETURNS :: relay_error where
  "NEVER_RETURNS = RelayIo ''the listing never returns''"

definition list_names :: "lib \<Rightarrow> 'h http_client \<Rightarrow> gcs_config \<Rightarrow> str \<Rightarrow> ('h gcs, relay_error, str list) eff" where
  "list_names L cl cfg pfx s = (case list_loop L cl cfg pfx [] None s of Some out \<Rightarrow> out | None \<Rightarrow> (Inl NEVER_RETURNS, s))"

section \<open>The operations of the trait\<close>

definition gcs_repo_status :: "lib \<Rightarrow> 'h http_client \<Rightarrow> gcs_config \<Rightarrow> str \<Rightarrow> ('h gcs, relay_error, repo_relay_status_report) eff" where
  "gcs_repo_status L cl cfg repo_id =
     e_bind (list_names L cl cfg (objects_prefix repo_id)) (\<lambda>listed. (let names = sort listed in
     e_bind (e_lift (bundle_hash L names)) (\<lambda>h.
       e_ret \<lparr>rs_status = ''ok'', rs_repo_id = repo_id, rs_object_count = of_nat (length names),
              rs_object_ids_hash = h\<rparr>)))"

text \<open>An attempt whose error is dropped: \<^verbatim>\<open>if let Ok(report) = ...\<close>.\<close>

definition e_attempt :: "('s, 'e, 'a) eff \<Rightarrow> ('s, 'e, 'a option) eff" where
  "e_attempt m s = (case m s of (Inr x, s') \<Rightarrow> (Inr (Some x), s') | (Inl e, s') \<Rightarrow> (Inr None, s'))"

definition gcs_put_object ::
    "lib \<Rightarrow> 'h http_client \<Rightarrow> gcs_config \<Rightarrow> str \<Rightarrow> str list \<Rightarrow> canonical_object \<Rightarrow> u64 \<times> u64 \<Rightarrow> ('h gcs, relay_error, u64 \<times> u64) eff" where
  "gcs_put_object L cl cfg repo_id existing_names obj = (\<lambda>(accepted, duplicate).
     (let name = gcs_object_name L repo_id (co_object_id obj) in
      if name \<in> set existing_names then e_ret (accepted, duplicate + 1)
      else e_bind (e_lift (relay_object_bytes L obj)) (\<lambda>b.
           e_bind (put_bytes_if_absent L cl cfg name b) (\<lambda>res. e_ret (case res of
             Written \<Rightarrow> (accepted + 1, duplicate) | AlreadyExists \<Rightarrow> (accepted, duplicate + 1))))))"

definition gcs_push_new ::
    "lib \<Rightarrow> 'h http_client \<Rightarrow> gcs_config \<Rightarrow> bundle_push_request \<Rightarrow> ('h gcs, relay_error, bundle_push_report) eff" where
  "gcs_push_new L cl cfg q = (let idempotency_name = gcs_idempotency_name L (bq_repo_id q) (bq_idempotency_key q) in
     e_bind (list_names L cl cfg (objects_prefix (bq_repo_id q))) (\<lambda>existing_names.
     e_bind (e_fold (gcs_put_object L cl cfg (bq_repo_id q) existing_names) (bq_objects q) (0, 0)) (\<lambda>(accepted, duplicate).
     e_bind (e_lift (bundle_hash L (map co_object_id (bq_objects q)))) (\<lambda>h.
     (let report = \<lparr>bp_status = ''ok'', bp_repo_id = bq_repo_id q, bp_idempotency_key = bq_idempotency_key q,
            bp_accepted_object_count = accepted, bp_duplicate_object_count = duplicate,
            bp_object_ids = map co_object_id (bq_objects q), bp_bundle_hash = h\<rparr>
      in e_bind (put_json_if_absent L cl cfg idempotency_name (push_report_json report)) (\<lambda>res. case res of
           Written \<Rightarrow> e_ret report
         | AlreadyExists \<Rightarrow> read_json_object L cl cfg push_report_of_json idempotency_name))))))"

definition gcs_push_bundle ::
    "lib \<Rightarrow> env \<Rightarrow> 'h http_client \<Rightarrow> gcs_config \<Rightarrow> bundle_push_request \<Rightarrow> ('h gcs, relay_error, bundle_push_report) eff" where
  "gcs_push_bundle L env cl cfg q =
     e_bind (e_lift (bundle_validation_report_of L env q)) (\<lambda>_.
     e_bind (e_attempt (read_json_object L cl cfg push_report_of_json
               (gcs_idempotency_name L (bq_repo_id q) (bq_idempotency_key q)))) (\<lambda>found. case found of
       Some report \<Rightarrow> e_ret report
     | None \<Rightarrow> gcs_push_new L cl cfg q))"

text \<open>Reading one object: parse, then validate under the policy of the repository.\<close>

definition gcs_load :: "lib \<Rightarrow> env \<Rightarrow> 'h http_client \<Rightarrow> gcs_config \<Rightarrow> str \<Rightarrow> str \<Rightarrow> ('h gcs, relay_error, canonical_object) eff" where
  "gcs_load L env cl cfg repo_id name =
     e_bind (read_json_object L cl cfg object_of_json name) (\<lambda>obj.
     e_bind (e_lift (validate_stored_object L env repo_id obj)) (\<lambda>_. e_ret obj))"

definition gcs_pull_bundle ::
    "lib \<Rightarrow> env \<Rightarrow> 'h http_client \<Rightarrow> gcs_config \<Rightarrow> bundle_pull_request \<Rightarrow> ('h gcs, relay_error, bundle_pull_report) eff" where
  "gcs_pull_bundle L env cl cfg q =
     e_bind (list_names L cl cfg (objects_prefix (lq_repo_id q))) (\<lambda>names.
     (let known_names = map (gcs_object_name L (lq_repo_id q)) (lq_known_object_ids q);
          missing_names = sort (filter (\<lambda>n. n \<notin> set known_names) names);
          limit = (case lq_limit q of None \<Rightarrow> length missing_names | Some n \<Rightarrow> unat n)
      in e_bind (e_map (gcs_load L env cl cfg (lq_repo_id q)) (take limit missing_names)) (\<lambda>objects.
           e_ret \<lparr>lp_status = ''ok'', lp_repo_id = lq_repo_id q, lp_object_count = of_nat (length objects),
                  lp_remaining_object_count = of_nat (length missing_names - limit), lp_objects = objects\<rparr>)))"

definition gcs_read_object :: "lib \<Rightarrow> env \<Rightarrow> 'h http_client \<Rightarrow> gcs_config \<Rightarrow> str \<Rightarrow> str \<Rightarrow> ('h gcs, relay_error, canonical_object) eff" where
  "gcs_read_object L env cl cfg repo_id object_id = gcs_load L env cl cfg repo_id (gcs_object_name L repo_id object_id)"

definition gcs_list_object_ids :: "lib \<Rightarrow> env \<Rightarrow> 'h http_client \<Rightarrow> gcs_config \<Rightarrow> str \<Rightarrow> ('h gcs, relay_error, str list) eff" where
  "gcs_list_object_ids L env cl cfg repo_id =
     e_bind (list_names L cl cfg (objects_prefix repo_id)) (\<lambda>names.
     e_bind (e_map (gcs_load L env cl cfg repo_id) names) (\<lambda>objects. e_ret (sort (map co_object_id objects))))"

definition gcs_store :: "lib \<Rightarrow> env \<Rightarrow> 'h http_client \<Rightarrow> gcs_config \<Rightarrow> 'h gcs relay_ops" where
  "gcs_store L env cl cfg = \<lparr>op_validate = (\<lambda>q. e_lift (bundle_validation_report_of L env q)),
     op_push = gcs_push_bundle L env cl cfg, op_pull = gcs_pull_bundle L env cl cfg,
     op_read = gcs_read_object L env cl cfg, op_list = gcs_list_object_ids L env cl cfg,
     op_status = gcs_repo_status L cl cfg\<rparr>"

end
