(* ===== verification/Relay_Props.thy ===== *)
theory Relay_Props
  imports Relay_Http
begin

text \<open>
  What the file store promises beyond the contract every store meets: the shape of its directories as
  an invariant, refusals that change nothing, pushes that succeed exactly when they should, reading
  back, replays, listing and paging.
\<close>

section \<open>The directories of the store\<close>

text \<open>Directories where the store wants directories, files where it wants files, and no other file
  among the objects.\<close>

definition dirs_above :: "lib \<Rightarrow> path \<Rightarrow> path set" where
  "dirs_above L base = {q. \<exists>r h. q \<in> set (ancestors_of (butlast (object_file L base r h)))} \<union>
     {q. \<exists>r k. q \<in> set (ancestors_of (butlast (idempotency_path L base r k)))}"

definition store_files :: "lib \<Rightarrow> path \<Rightarrow> path set" where
  "store_files L base = {object_file L base r h | r h. hex64 h} \<union> {idempotency_path L base r k | r k. True}"

definition relay_tree_ok :: "lib \<Rightarrow> path \<Rightarrow> fs \<Rightarrow> bool" where
  "relay_tree_ok L base s \<longleftrightarrow>
     (\<forall>q \<in> dirs_above L base. \<forall>b. tree s q \<noteq> Some (File b)) \<and>
     (\<forall>p \<in> store_files L base. tree s p \<noteq> Some Dir) \<and>
     (\<forall>r d n b. tree s (objects_dir L base r @ [d, n]) = Some (File b) \<longrightarrow>
        (\<exists>h. hex64 h \<and> d = take 2 h \<and> n = h @ ''.json'') \<and>
        tree s (objects_dir L base r) = Some Dir \<and> tree s (objects_dir L base r @ [d]) = Some Dir)"

lemma idempotency_not_object_dir:
  "idempotency_path L base r k \<notin> set (ancestors_of (butlast (object_file L base r' h)))"
  by (auto simp: in_ancestors_of idempotency_path_def object_file_def objects_dir_def repo_dir_def butlast_append)

lemma idempotency_not_above [simp]:
  "idempotency_path L base r k \<notin> set (ancestors_of (butlast (idempotency_path L base r' k')))"
  using idempotency_length [of L base r k] idempotency_length [of L base r' k']
  by (auto simp: in_ancestors_of dest!: arg_cong [where f = length])

lemma files_not_above: "p \<in> store_files L base \<Longrightarrow> p \<notin> dirs_above L base"
  using idempotency_not_object_dir by (fastforce simp: store_files_def dirs_above_def)

lemma above_file: "p \<in> store_files L base \<Longrightarrow> set (ancestors_of (butlast p)) \<subseteq> dirs_above L base"
  by (auto simp: store_files_def dirs_above_def)

lemma store_file_nonempty: "p \<in> store_files L base \<Longrightarrow> p \<noteq> []"
  unfolding store_files_def by (elim UnE CollectE exE conjE) simp_all

lemma object_dirs:
  "hex64 h \<Longrightarrow> objects_dir L base r @ [take 2 h, h @ ''.json''] = object_file L base r h"
  by (simp add: object_file_def)

lemma write_bytes_parents:
  assumes "write_bytes p b s = (r, s')" "p \<noteq> []"
  shows "tree s' p = tree s p \<or> (\<forall>q \<in> set (ancestors_of (butlast p)). tree s' q = Some Dir)"
proof -
  obtain r1 s1 where cd: "fs_create_dir_all (butlast p) s = (r1, s1)" by (rule prod.exhaust)
  have above: "p \<notin> set (ancestors_of (butlast p))" by (rule parent_not_above [OF assms(2)])
  show ?thesis
  proof (cases r1)
    case (Inl e)
    with assms(1) cd have "s' = s1" by (simp add: write_bytes_def io_def eff_simps)
    with fs_create_dir_all_tree(1) [OF cd, of p] above show ?thesis by auto
  next
    case (Inr u)
    obtain r2 s2 where wr: "fs_write p b s1 = (r2, s2)" by (rule prod.exhaust)
    with assms(1) cd Inr have s2: "s' = s2" by (simp add: write_bytes_def io_def eff_simps)
    have dirs: "\<forall>q \<in> set (ancestors_of (butlast p)). tree s1 q = Some Dir"
      using fs_create_dir_all_tree(2) [OF cd] Inr by simp
    from wr have "\<forall>q. q \<noteq> p \<longrightarrow> tree s2 q = tree s1 q" by (cases rule: fs_write_tree) auto
    with dirs above s2 show ?thesis by metis
  qed
qed

lemma keeps_tree_ok_write:
  assumes "p \<in> store_files L base"
  shows "keeps (relay_tree_ok L base) (write_bytes p b)"
proof (rule keepsI)
  fix s res s' assume ok: "relay_tree_ok L base s" and run: "write_bytes p b s = (res, s')"
  note ne = store_file_nonempty [OF assms]
  have other: "tree s' q = tree s q \<or> (q \<in> dirs_above L base \<and> tree s q = None \<and> tree s' q = Some Dir)" if "q \<noteq> p" for q
    using write_bytes_eff(1) [OF run ne that] above_file [OF assms] by blast
  have self: "tree s' p \<noteq> Some Dir"
  proof (cases res)
    case (Inl e)
    then have "tree s' p = tree s p \<or> (\<exists>n. tree s' p = Some (File (take n b)))"
      by (intro write_bytes_eff(3) [OF run ne]) simp
    with ok assms show ?thesis by (auto simp: relay_tree_ok_def)
  next
    case (Inr u)
    then show ?thesis using write_bytes_eff(2) [OF run ne] by simp
  qed
  have dirs: "tree s' q \<noteq> Some (File c)" if "q \<in> dirs_above L base" for q c
    using that ok other [of q] files_not_above [OF assms] unfolding relay_tree_ok_def by (metis fnode.distinct(1) option.inject)
  have files: "tree s' q \<noteq> Some Dir" if "q \<in> store_files L base" for q
    using that ok other [of q] files_not_above [OF that] self by (cases "q = p") (auto simp: relay_tree_ok_def)
  have up: "q \<in> dirs_above L base \<Longrightarrow> tree s q = Some Dir \<Longrightarrow> tree s' q = Some Dir" for q
    using other [of q] files_not_above [OF assms] by (cases "q = p") auto
  have obj: "(\<exists>h. hex64 h \<and> d = take 2 h \<and> n = h @ ''.json'') \<and>
      tree s' (objects_dir L base r @ []) = Some Dir \<and> tree s' (objects_dir L base r @ [d]) = Some Dir"
    if f: "tree s' (objects_dir L base r @ [d, n]) = Some (File c)" for r d n c
  proof -
    let ?f = "objects_dir L base r @ [d, n]"
    show ?thesis
    proof (cases "tree s' ?f = tree s ?f")
      case True
      then obtain h where h: "hex64 h" "d = take 2 h" "n = h @ ''.json''" "tree s (objects_dir L base r) = Some Dir"
        "tree s (objects_dir L base r @ [d]) = Some Dir"
        using ok f unfolding relay_tree_ok_def by metis
      have "{objects_dir L base r, objects_dir L base r @ [d]} \<subseteq> dirs_above L base"
        using h(2) by (force simp: dirs_above_def in_ancestors_of object_file_def objects_dir_def repo_dir_def butlast_append)
      with h up show ?thesis by auto
    next
      case False
      then have p: "?f = p" using other [of ?f] f by auto
      then have "length p = length base + 6" by (simp add: objects_dir_def repo_dir_def flip: p)
      with assms idempotency_length obtain r' h where h: "p = object_file L base r' h" "hex64 h"
        by (fastforce simp: store_files_def)
      with p have eq: "objects_dir L base r = objects_dir L base r'" "d = take 2 h" "n = h @ ''.json''"
        by (auto simp: object_file_def)
      have "\<forall>q \<in> set (ancestors_of (butlast p)). tree s' q = Some Dir"
        using write_bytes_parents [OF run ne] False p by simp
      then have "tree s' (objects_dir L base r) = Some Dir" "tree s' (objects_dir L base r @ [d]) = Some Dir"
        by (auto simp: in_ancestors_of objects_dir_def butlast_append simp flip: p)
      with eq h show ?thesis by auto
    qed
  qed
  show "relay_tree_ok L base s'"
    unfolding relay_tree_ok_def using dirs files obj by simp
qed

lemma relay_tree_ok_cong: "tree s' = tree s \<Longrightarrow> relay_tree_ok L base s' = relay_tree_ok L base s"
  by (simp add: relay_tree_ok_def)

lemma relay_tree_ok_empty: "relay_tree_ok L base \<lparr>entries = [], faults = fl\<rparr>"
  by (simp add: relay_tree_ok_def tree_def)


section \<open>Refusals\<close>

text \<open>A result that is a value or an error of input and output.\<close>

definition only_io :: "relay_error + 'a \<Rightarrow> bool" where
  "only_io r \<longleftrightarrow> (\<forall>e. r = Inl e \<longrightarrow> (\<exists>m. e = RelayIo m))"

lemma only_io_simps [simp]: "only_io (Inr x)" "only_io (Inl e) \<longleftrightarrow> (\<exists>m. e = RelayIo m)"
  by (simp_all add: only_io_def)

lemma only_io_io: "io m s = (r, s') \<Longrightarrow> only_io r"
  by (auto simp: io_def eff_simps only_io_def map_err_def split: prod.splits sum.splits)

lemma only_io_write_bytes: "write_bytes p b s = (r, s') \<Longrightarrow> only_io r"
  unfolding write_bytes_def by (erule e_bind_cases) (auto dest!: only_io_io)

lemma only_io_store_missing:
  assumes "store_missing L base r (obj, b) acc s = (res, s')" "id64 obj"
  shows "only_io res"
proof -
  have path: "file_object_path L base r (co_object_id obj) = Inr (slot L base r obj)"
    using assms(2) by (simp add: file_object_path_slot)
  obtain a d where acc: "acc = (a, d)" by (rule prod.exhaust)
  show ?thesis
  proof (cases "exists_at s (slot L base r obj)")
    case True
    with assms(1) show ?thesis by (auto simp: acc store_missing_cases path)
  next
    case False
    obtain r1 s1 where w: "write_bytes (slot L base r obj) b s = (r1, s1)" by (rule prod.exhaust)
    with assms(1) False have "res = (case r1 of Inl e \<Rightarrow> Inl e | Inr _ \<Rightarrow> Inr (a + 1, d))"
      by (auto simp: acc store_missing_cases path eff_simps split: sum.splits)
    with only_io_write_bytes [OF w] show ?thesis by (auto split: sum.splits)
  qed
qed

lemma only_io_store_all:
  assumes "e_fold (store_missing L base r) xs acc s = (res, s')" "\<forall>(obj, b) \<in> set xs. id64 obj"
  shows "only_io res"
  using assms
proof (induction xs arbitrary: s acc)
  case (Cons x xs)
  obtain obj b where x: "x = (obj, b)" by (rule prod.exhaust)
  from Cons.prems(1) have "e_bind (store_missing L base r x acc) (e_fold (store_missing L base r) xs) s = (res, s')" by simp
  then show ?case
  proof (cases rule: e_bind_cases)
    case (err e)
    with only_io_store_missing [of L base r obj b acc s "Inl e" s'] Cons.prems(2) x show ?thesis by auto
  next
    case (ok y s1)
    with Cons.IH [OF ok(2)] Cons.prems(2) show ?thesis by auto
  qed
qed auto

lemma write_report_succeeds:
  assumes "json_codec L"
  shows "\<exists>j. write_json L p (push_report_json rep) = write_bytes p j \<and> to_vec_pretty L (push_report_json rep) = Inr j"
proof -
  obtain j where "to_vec_pretty L (push_report_json rep) = Inr j"
    by (rule json_codec_prettyD [OF assms json_plain_ok [OF push_report_plain]])
  then show ?thesis by (auto simp: write_json_def e_bind_def e_lift_def)
qed

lemma read_json_tree: "read_json L d p s = (r, s') \<Longrightarrow> tree s' = tree s"
  unfolding read_json_def io_def
  by (erule e_bind_cases) (auto simp: eff_simps split: prod.splits dest: fs_read_tree)

text \<open>An empty store, and a bundle whose one object claims no hash at all.\<close>

definition empty_fs :: fs where "empty_fs = \<lparr>entries = [], faults = []\<rparr>"

definition forged_push :: "str \<Rightarrow> bundle_push_request" where
  "forged_push k = \<lparr>bq_repo_id = ''repo'', bq_idempotency_key = ''k'', bq_objects =
     [\<lparr>co_schema_version = ''v1'', co_kind = k, co_object_id = [], co_created_at_ms = 0, co_body = JNull,
       co_body_hash = [], co_signatures = []\<rparr>]\<rparr>"

text \<open>
  C22: a push that is refused stores nothing.  Whatever the reason, an invalid object anywhere in the
  bundle, a missing signature, a hash that is wrong, a conflict with a stored object, the store is left
  as it was; only an error of the file system itself can stop a push half way.
\<close>

theorem refused_push_changes_nothing:
  assumes "file_push_bundle L env base q s = (Inl e, s')" "\<forall>m. e \<noteq> RelayIo m" "json_codec L"
  shows "tree s' = tree s"
proof (cases "bundle_validation_report_of L env q")
  case (Inl e1)
  with assms(1) show ?thesis by (simp add: file_push_bundle_def file_validate_bundle_def eff_simps)
next
  case v: (Inr v)
  let ?p = "idempotency_path L base (bq_repo_id q) (bq_idempotency_key q)"
  show ?thesis
  proof (cases "exists_at s ?p")
    case True
    with assms(1) v show ?thesis
      by (auto simp: file_push_bundle_def file_validate_bundle_def eff_simps Let_def dest: read_json_tree)
  next
    case False
    with assms(1) v have run: "push_new L base q v s = (Inl e, s')"
      by (simp add: file_push_bundle_def file_validate_bundle_def eff_simps Let_def)
    show ?thesis
    proof (cases "r_collect (relay_object_bytes L) (bq_objects q)")
      case (Inl e2)
      with run show ?thesis by (simp add: push_new_def eff_simps)
    next
      case bs: (Inr bs)
      let ?xs = "zip (bq_objects q) bs"
      obtain r1 s1 where c: "e_each (check_conflict L base (bq_repo_id q)) ?xs s = (r1, s1)" by (rule prod.exhaust)
      note ce = check_all_eff [OF c]
      show ?thesis
      proof (cases r1)
        case (Inl e3)
        with run bs c ce show ?thesis by (simp add: push_new_def eff_simps)
      next
        case r1: (Inr u)
        obtain r2 s2 where f: "e_fold (store_missing L base (bq_repo_id q)) ?xs (0, 0) s1 = (r2, s2)" by (rule prod.exhaust)
        have io2: "only_io r2" by (rule only_io_store_all [OF f]) (use ce r1 in auto)
        show ?thesis
        proof (cases r2)
          case (Inl e4)
          with run bs c r1 f io2 assms(2) show ?thesis by (auto simp: push_new_def eff_simps)
        next
          case (Inr acc)
          obtain a d where acc: "acc = (a, d)" by (rule prod.exhaust)
          obtain rep where "e_bind (write_json L ?p (push_report_json rep)) (\<lambda>_. e_ret rep) s2 = (Inl e, s')"
            using run bs c r1 f Inr acc by (auto simp: push_new_def eff_simps Let_def)
          with write_report_succeeds [OF assms(3), of ?p rep] obtain j where
            "write_bytes ?p j s2 = (Inl e, s')"
            by (auto simp: eff_simps split: prod.splits sum.splits)
          from only_io_write_bytes [OF this] assms(2) show ?thesis by auto
        qed
      qed
    qed
  qed
qed

theorem refused_push_changes_nothing_witness:
  "\<exists>e s'. file_push_bundle ref_lib (\<lambda>_. None) [''relay''] (forged_push ''note'') empty_fs = (Inl e, s') \<and>
     tree s' = tree empty_fs"
proof -
  obtain h where h: "stable_json_hash ref_lib JNull = Inr h"
    using stable_json_hash_total [OF ref_lib_laws(1), of JNull] by auto
  have "object_id_ok h" by (rule stable_json_hash_shape [OF h]) simp_all
  then have ne: "[] \<noteq> h" by (auto simp: object_id_ok_def)
  let ?m = "''body_hash mismatch: found '' @ [] @ '', computed '' @ h"
  have push: "file_push_bundle ref_lib (\<lambda>_. None) [''relay''] (forged_push ''note'') empty_fs = (Inl (InvalidObject [] ?m), empty_fs)"
    using h ne
    by (simp add: file_push_bundle_def file_validate_bundle_def eff_simps bundle_validation_report_of_def
        validated_object_ids_def validated_object_ids_with_policy_def forged_push_def validate_stored_object_with_policy_def
        validate_object_with_signature_policy_def)
  show ?thesis
    using refused_push_changes_nothing [OF push] push by simp
qed


section \<open>A push that nothing stands against\<close>

lemma write_bytes_calm:
  assumes "faults s = []" "relay_tree_ok L base s" "p \<in> store_files L base"
  shows "\<exists>s'. write_bytes p b s = (Inr (), s')"
proof -
  obtain r1 s1 where md: "make_dirs (ancestors_of (butlast p)) s = (r1, s1)" by (rule prod.exhaust)
  have nofile: "tree s q \<noteq> Some (File c)" if "q \<in> set (ancestors_of (butlast p))" for q c
    using that assms(2) above_file [OF assms(3)] by (auto simp: relay_tree_ok_def)
  have r1: "r1 = Inr ()" using make_dirs_calm [of "ancestors_of (butlast p)" s] nofile md by auto
  have f1: "faults s1 = []" using make_dirs_tree [OF md] assms(1) by simp
  note ne = store_file_nonempty [OF assms(3)]
  have "tree s1 p = tree s p" using make_dirs_tree [OF md] parent_not_above [OF ne] by blast
  then have "tree s1 p \<noteq> Some Dir" using assms(2,3) by (simp add: relay_tree_ok_def)
  moreover have "is_dir_at s1 (butlast p)"
  proof (cases "butlast p = []")
    case False
    then have "butlast p \<in> set (ancestors_of (butlast p))" by (rule self_in_ancestors)
    then show ?thesis using make_dirs_tree [OF md] r1 by (simp add: is_dir_at_def)
  qed (simp add: is_dir_at_def)
  ultimately show ?thesis
    using assms(1) md r1 f1 ne by (auto simp: write_bytes_def io_def eff_simps fs_simps put_file_def)
qed

lemma slot_file: "id64 obj \<Longrightarrow> slot L base r obj \<in> store_files L base"
  unfolding id64_def slot_def store_files_def by (elim exE conjE) (simp, blast)

lemma idempotency_file: "idempotency_path L base r k \<in> store_files L base"
  by (auto simp: store_files_def)

lemma store_missing_succeeds:
  assumes "faults s = []" "relay_tree_ok L base s" "id64 obj"
  shows "\<exists>acc' s'. store_missing L base r (obj, b) acc s = (Inr acc', s') \<and> faults s' = [] \<and> relay_tree_ok L base s'"
proof -
  have path: "file_object_path L base r (co_object_id obj) = Inr (slot L base r obj)"
    using assms(3) by (simp add: file_object_path_slot)
  obtain a d where acc: "acc = (a, d)" by (rule prod.exhaust)
  obtain s1 where w: "write_bytes (slot L base r obj) b s = (Inr (), s1)"
    using write_bytes_calm [OF assms(1,2) slot_file [OF assms(3)]] by blast
  have "faults s1 = []" using write_bytes_eff(4) [OF w] assms(1) by (simp add: slot_def)
  moreover have "relay_tree_ok L base s1" using keepsD [OF keeps_tree_ok_write [OF slot_file [OF assms(3)]] w assms(2)] .
  ultimately show ?thesis using assms(1,2) w by (simp add: acc store_missing_cases path eff_simps)
qed

lemma store_all_succeeds:
  assumes "faults s = []" "relay_tree_ok L base s" "\<forall>(obj, b) \<in> set xs. id64 obj"
  shows "\<exists>acc' s'. e_fold (store_missing L base r) xs acc s = (Inr acc', s') \<and> faults s' = [] \<and> relay_tree_ok L base s'"
  using assms
proof (induction xs arbitrary: s acc)
  case (Cons x xs)
  obtain obj b where x: "x = (obj, b)" by (rule prod.exhaust)
  obtain acc1 s1 where one: "store_missing L base r x acc s = (Inr acc1, s1)" "faults s1 = []" "relay_tree_ok L base s1"
    using store_missing_succeeds [of s L base obj r b acc] Cons.prems x by auto
  then obtain acc2 s2 where "e_fold (store_missing L base r) xs acc1 s1 = (Inr acc2, s2)" "faults s2 = []" "relay_tree_ok L base s2"
    using Cons.IH [OF one(2,3), of acc1] Cons.prems(3) by auto
  with one(1) show ?case by (simp add: e_bind_apply)
qed simp

text \<open>In a quiet store the first pass is a test, and moves nothing.\<close>

definition no_conflict :: "lib \<Rightarrow> path \<Rightarrow> str \<Rightarrow> canonical_object \<times> bytes \<Rightarrow> fs \<Rightarrow> bool" where
  "no_conflict L base r x s \<longleftrightarrow> (\<forall>b. file_stored L base s r (co_object_id (fst x)) = Some b \<longrightarrow> b = snd x)"

lemma file_stored_slot:
  "id64 obj \<Longrightarrow> file_stored L base s r (co_object_id obj) = Some b \<longleftrightarrow> still (slot L base r obj) b s"
  by (auto simp: file_stored_iff id64_def slot_def)

lemma check_conflict_calm:
  assumes "faults s = []" "relay_tree_ok L base s" "id64 obj"
  shows "check_conflict L base r (obj, b) s =
    (if no_conflict L base r (obj, b) s then Inr () else Inl (RelayObjectConflict (co_object_id obj)), s)"
proof -
  let ?p = "slot L base r obj"
  have path: "file_object_path L base r (co_object_id obj) = Inr ?p"
    using assms(3) by (simp add: file_object_path_slot)
  have "tree s ?p \<noteq> Some Dir" using assms(2) slot_file [OF assms(3)] by (auto simp: relay_tree_ok_def)
  then consider "tree s ?p = None" | c where "tree s ?p = Some (File c)" by (metis fnode.exhaust option.exhaust)
  then show ?thesis
  proof cases
    case 1
    then show ?thesis using file_stored_slot [OF assms(3)]
      by (simp add: check_conflict_def path eff_simps exists_at_def no_conflict_def still_def slot_def)
  next
    case 2
    then show ?thesis using assms(1) file_stored_slot [OF assms(3)]
      by (simp add: check_conflict_def path eff_simps exists_at_def no_conflict_def still_def io_def fs_simps lookup_file_def)
  qed
qed

lemma check_all_calm:
  assumes "faults s = []" "relay_tree_ok L base s" "\<forall>(obj, b) \<in> set xs. id64 obj"
  shows "snd (e_each (check_conflict L base r) xs s) = s \<and>
    (is_ok (fst (e_each (check_conflict L base r) xs s)) \<longleftrightarrow> (\<forall>x \<in> set xs. no_conflict L base r x s))"
  using assms(3)
proof (induction xs)
  case (Cons x xs)
  then show ?case using check_conflict_calm [OF assms(1,2)] by (cases x) (auto simp: e_bind_apply)
qed simp


lemma relay_bytes_total:
  assumes "json_codec L" "plain_body (co_body obj)"
  shows "\<exists>b. relay_object_bytes L obj = Inr b"
proof -
  have "json_ok (canonical_json (object_json obj))"
    using plain_object_json [OF assms(2)] json_plain_ok by (simp add: canonical_plain)
  then obtain b where "to_vec L (canonical_json (object_json obj)) = Inr b"
    using assms(1) unfolding json_codec_def json_writer_def by blast
  then show ?thesis by (simp add: relay_object_bytes_def)
qed

lemma push_accepts:
  assumes "faults s = []" "relay_tree_ok L base s" "json_codec L" "hex_codec L" "sha_sized L"
    and "\<forall>obj \<in> set (bq_objects q). plain_body (co_body obj)"
    and "\<not> file_recorded L base s (bq_repo_id q) (bq_idempotency_key q)"
  shows "is_ok (fst (file_push_bundle L env base q s)) \<longleftrightarrow>
    is_ok (bundle_validation_report_of L env q) \<and>
    (\<forall>obj \<in> set (bq_objects q). \<forall>b. file_stored L base s (bq_repo_id q) (co_object_id obj) = Some b \<longrightarrow>
       relay_object_bytes L obj = Inr b)"
proof (cases "bundle_validation_report_of L env q")
  case (Inl e)
  then show ?thesis by (simp add: file_push_bundle_def file_validate_bundle_def eff_simps)
next
  case v: (Inr v)
  let ?r = "bq_repo_id q" and ?p = "idempotency_path L base (bq_repo_id q) (bq_idempotency_key q)"
  have run: "file_push_bundle L env base q s = push_new L base q v s"
    using v assms(7) by (simp add: file_push_bundle_def file_validate_bundle_def eff_simps file_recorded_def Let_def)
  have id: "\<forall>obj \<in> set (bq_objects q). id64 obj"
    using bundle_validated(1) [OF v] fields_ok_id [OF _ assms(4,5)] by (auto simp: object_id_ok_def id64_def hex64_def)
  have "\<exists>b. relay_object_bytes L obj = Inr b" if "obj \<in> set (bq_objects q)" for obj
    using relay_bytes_total that assms(3,6) by blast
  then obtain g where g: "relay_object_bytes L obj = Inr (g obj)" if "obj \<in> set (bq_objects q)" for obj by metis
  let ?bs = "map g (bq_objects q)"
  have bs: "r_collect (relay_object_bytes L) (bq_objects q) = Inr ?bs" by (rule r_collect_total) (rule g)
  let ?xs = "zip (bq_objects q) ?bs"
  have xs: "?xs = map (\<lambda>obj. (obj, g obj)) (bq_objects q)" by (simp add: zip_map2 zip_same_conv_map)
  have idx: "\<forall>(obj, b) \<in> set ?xs. id64 obj" using id by (auto simp: xs)
  obtain r1 where c: "e_each (check_conflict L base ?r) ?xs s = (r1, s)"
    using check_all_calm [OF assms(1,2) idx] by (metis prod.collapse)
  have "is_ok r1 \<longleftrightarrow> (\<forall>x \<in> set ?xs. no_conflict L base ?r x s)"
    using check_all_calm [OF assms(1,2) idx, of ?r] c by simp
  then have agree: "is_ok r1 \<longleftrightarrow> (\<forall>obj \<in> set (bq_objects q). \<forall>b.
      file_stored L base s ?r (co_object_id obj) = Some b \<longrightarrow> relay_object_bytes L obj = Inr b)"
    using g by (auto simp: xs no_conflict_def)
  show ?thesis
  proof (cases r1)
    case (Inl e)
    with run bs c agree v show ?thesis by (simp add: push_new_def eff_simps)
  next
    case (Inr u)
    obtain acc s2 where f: "e_fold (store_missing L base ?r) ?xs (0, 0) s = (Inr acc, s2)" "faults s2 = []"
      "relay_tree_ok L base s2" using store_all_succeeds [OF assms(1,2) idx] by blast
    obtain a d where acc: "acc = (a, d)" by (rule prod.exhaust)
    let ?rep = "\<lparr>bp_status = ''ok'', bp_repo_id = bq_repo_id q, bp_idempotency_key = bq_idempotency_key q,
      bp_accepted_object_count = a, bp_duplicate_object_count = d, bp_object_ids = bv_object_ids v,
      bp_bundle_hash = bv_bundle_hash v\<rparr>"
    obtain j where j: "write_json L ?p (push_report_json ?rep) = write_bytes ?p j"
      using write_report_succeeds [OF assms(3)] by blast
    obtain s3 where "write_bytes ?p j s2 = (Inr (), s3)"
      using write_bytes_calm [OF f(2,3) idempotency_file] by blast
    then have "file_push_bundle L env base q s = (Inr ?rep, s3)"
      using run bs c Inr f(1) acc j by (simp add: push_new_def eff_simps Let_def)
    with agree Inr v show ?thesis by simp
  qed
qed

text \<open>
  C23: when a push is accepted.  In a well-formed store that nothing disturbs, a bundle under a fresh
  idempotency key goes through exactly when it passes validation and every object already stored under
  one of its ids has the same bytes.
\<close>

theorem push_accepted_exactly:
  assumes "faults s = []" "relay_tree_ok L base s" "json_codec L" "hex_codec L" "sha_sized L"
    and "\<forall>obj \<in> set (bq_objects q). plain_body (co_body obj)"
    and "\<not> file_recorded L base s (bq_repo_id q) (bq_idempotency_key q)"
  shows "is_ok (fst (file_push_bundle L env base q s)) \<longleftrightarrow>
    is_ok (bundle_validation_report_of L env q) \<and>
    (\<forall>obj \<in> set (bq_objects q). \<forall>b. file_stored L base s (bq_repo_id q) (co_object_id obj) = Some b \<longrightarrow>
       relay_object_bytes L obj = Inr b)"
  by (rule push_accepts [OF assms])

text \<open>A bundle of one object, and a store without anything in it.\<close>

definition ref_push :: "canonical_object \<Rightarrow> bundle_push_request" where
  "ref_push obj = \<lparr>bq_repo_id = ''repo'', bq_idempotency_key = ''k'', bq_objects = [obj]\<rparr>"

lemma ref_push_valid:
  assumes "fields_ok ref_lib obj"
  shows "is_ok (bundle_validation_report_of ref_lib (\<lambda>_. None) (ref_push obj))"
proof -
  have "validate_object_with_signature_policy ref_lib obj False False = Inr ()"
    using assms by (simp add: validate_object_ok)
  then have "validated_object_ids ref_lib (\<lambda>_. None) ''repo'' [obj] = Inr [co_object_id obj]"
    by (simp add: validated_object_ids_def validated_object_ids_with_policy_def
        validate_stored_object_with_policy_def signature_enforcement_enabled_def)
  moreover have "json_ok (json_obj [(''object_ids'', jlist jstr [co_object_id obj])])"
    by (rule json_ok_json_obj) (auto simp: jlist_def)
  then obtain h where "stable_json_hash ref_lib (json_obj [(''object_ids'', jlist jstr [co_object_id obj])]) = Inr h"
    using stable_json_hash_total [OF ref_lib_laws(1)] by blast
  ultimately show ?thesis by (simp add: bundle_validation_report_of_def ref_push_def bundle_hash_def)
qed

lemma empty_fs_ok [simp]:
  "faults empty_fs = []" "relay_tree_ok L base empty_fs"
  "file_stored L base empty_fs r i = None" "\<not> file_recorded L base empty_fs r k"
proof -
  have t: "tree empty_fs = (\<lambda>_. None)" by (simp add: empty_fs_def tree_def fun_eq_iff)
  show "faults empty_fs = []" by (simp add: empty_fs_def)
  show "relay_tree_ok L base empty_fs" using relay_tree_ok_empty [of L base "[]"] by (simp add: empty_fs_def)
  show "file_stored L base empty_fs r i = None" by (simp add: file_stored_def t split: sum.split)
  show "\<not> file_recorded L base empty_fs r k" by (simp add: file_recorded_def exists_at_def t)
qed

lemma ref_push_runs:
  assumes "fields_ok ref_lib obj" "plain_body (co_body obj)"
  obtains rep s' where "file_push_bundle ref_lib (\<lambda>_. None) [''relay''] (ref_push obj) empty_fs = (Inr rep, s')"
proof -
  have "is_ok (fst (file_push_bundle ref_lib (\<lambda>_. None) [''relay''] (ref_push obj) empty_fs))"
    using ref_push_valid [OF assms(1)] assms(2)
    by (subst push_accepts) (simp_all add: ref_push_def)
  then show thesis using that by (metis is_ok_simps(1) obj_sumE prod.collapse)
qed

theorem push_accepted_exactly_witness:
  "\<exists>obj. co_body obj = JObject [(''a'', JNull)] \<and>
     is_ok (fst (file_push_bundle ref_lib (\<lambda>_. None) [''relay''] (ref_push obj) empty_fs))"
proof -
  obtain obj where o: "fields_ok ref_lib obj" "co_body obj = JObject [(''a'', JNull)]" "plain_body (co_body obj)"
    by (rule ref_object)
  have "is_ok (fst (file_push_bundle ref_lib (\<lambda>_. None) [''relay''] (ref_push obj) empty_fs))"
    using ref_push_valid [OF o(1)] o(3) by (subst push_accepted_exactly) (simp_all add: ref_push_def)
  with o(2) show ?thesis by blast
qed


section \<open>Reading back, and sending again\<close>

lemma read_stored:
  assumes "faults s = []" "json_codec L" "plain_body (co_body obj)" "relay_object_bytes L obj = Inr b"
    "id64 obj" "still (slot L base r obj) b s"
  shows "file_read_object L base r (co_object_id obj) s = (Inr obj, s)"
proof -
  have "file_object_path L base r (co_object_id obj) = Inr (slot L base r obj)"
    using assms(5) by (simp add: file_object_path_slot)
  moreover have "parse_as L object_of_json b = Inr obj"
    using object_bytes_read [OF assms(2,3)] assms(4) by (simp add: relay_bytes_eq read_object_bytes_def)
  ultimately show ?thesis
    using assms(1,6) by (simp add: file_read_object_def read_json_def io_def eff_simps fs_simps lookup_file_def still_def)
qed

text \<open>
  C24: what was pushed is read back.  After a push of objects with different ids, reading any of them
  returns it, equal in every field, and leaves the store alone.
\<close>

theorem pushed_objects_read_back:
  assumes "file_push_bundle L env base q s = (Inr rep, s')" "faults s = []" "json_codec L"
    and "\<not> file_recorded L base s (bq_repo_id q) (bq_idempotency_key q)"
    and "distinct (map co_object_id (bq_objects q))" "obj \<in> set (bq_objects q)" "plain_body (co_body obj)"
  shows "file_read_object L base (bq_repo_id q) (co_object_id obj) s' = (Inr obj, s')"
proof -
  obtain bs where *: "r_collect (relay_object_bytes L) (bq_objects q) = Inr bs"
    "\<forall>obj \<in> set (bq_objects q). id64 obj"
    "\<forall>obj \<in> set (bq_objects q). filled L base (bq_repo_id q) (zip (bq_objects q) bs) obj s'"
    "faults s = [] \<longrightarrow> faults s' = []"
    by (rule push_parts [OF assms(1,4)])
  from *(3) assms(6) obtain obj' b where b: "(obj', b) \<in> set (zip (bq_objects q) bs)"
    "co_object_id obj' = co_object_id obj" "still (slot L base (bq_repo_id q) obj) b s'" by (auto simp: filled_def)
  have "obj' \<in> set (bq_objects q)" using b(1) by (rule set_zip_leftD)
  then have same: "obj' = obj" using assms(5,6) b(2) by (auto simp: distinct_map dest: inj_onD)
  have "relay_object_bytes L obj' = Inr b" using *(1) b(1) by (auto simp: in_set_zip r_collect_nth)
  with same show ?thesis using read_stored [OF _ assms(3,7) _ _ b(3)] *(2,4) assms(2,6) by simp
qed

theorem pushed_objects_read_back_witness:
  "\<exists>obj rep s'. file_push_bundle ref_lib (\<lambda>_. None) [''relay''] (ref_push obj) empty_fs = (Inr rep, s') \<and>
     co_body obj = JObject [(''a'', JNull)] \<and>
     file_read_object ref_lib [''relay''] ''repo'' (co_object_id obj) s' = (Inr obj, s')"
proof -
  obtain obj where o: "fields_ok ref_lib obj" "co_body obj = JObject [(''a'', JNull)]" "plain_body (co_body obj)"
    by (rule ref_object)
  obtain rep s' where p: "file_push_bundle ref_lib (\<lambda>_. None) [''relay''] (ref_push obj) empty_fs = (Inr rep, s')"
    by (rule ref_push_runs [OF o(1,3)])
  have "file_read_object ref_lib [''relay''] (bq_repo_id (ref_push obj)) (co_object_id obj) s' = (Inr obj, s')"
    by (rule pushed_objects_read_back [OF p]) (simp_all add: ref_push_def o(3))
  with p o(2) show ?thesis by (force simp: ref_push_def)
qed

text \<open>
  Pushing is idempotent in its key.  Once a push has gone through, a second push to the same
  repository under the same key answers with the first report, whatever valid bundle it carries, and
  changes nothing: in particular a different bundle under the same key is not stored.
\<close>

theorem replayed_push_returns_first_report:
  assumes "file_push_bundle L env base q s = (Inr rep, s')" "faults s = []" "json_codec L"
    and "\<not> file_recorded L base s (bq_repo_id q) (bq_idempotency_key q)"
    and "bq_repo_id q2 = bq_repo_id q" "bq_idempotency_key q2 = bq_idempotency_key q"
    and "bundle_validation_report_of L env q2 = Inr v2"
  shows "file_push_bundle L env base q2 s' = (Inr rep, s')"
proof -
  let ?p = "idempotency_path L base (bq_repo_id q) (bq_idempotency_key q)"
  obtain j where j: "to_vec_pretty L (push_report_json rep) = Inr j" "still ?p j s'" "faults s = [] \<longrightarrow> faults s' = []"
    by (rule push_parts [OF assms(1,4)]) blast
  have "from_slice L j = Inr (push_report_json rep)"
    by (rule from_slice_to_vec_pretty [OF assms(3) push_report_plain j(1)])
  then have "parse_as L push_report_of_json j = Inr rep" by (simp add: parse_as_def from_value_def)
  then show ?thesis
    using j(2,3) assms(2,5,6,7)
    by (simp add: file_push_bundle_def file_validate_bundle_def eff_simps Let_def exists_at_def still_def
        read_json_def io_def fs_simps lookup_file_def)
qed

theorem replayed_push_returns_first_report_witness:
  "\<exists>obj rep s'. file_push_bundle ref_lib (\<lambda>_. None) [''relay''] (ref_push obj) empty_fs = (Inr rep, s') \<and>
     file_push_bundle ref_lib (\<lambda>_. None) [''relay''] ((ref_push obj)\<lparr>bq_objects := []\<rparr>) s' = (Inr rep, s')"
proof -
  obtain obj where o: "fields_ok ref_lib obj" "plain_body (co_body obj)" by (rule ref_object)
  obtain rep s' where p: "file_push_bundle ref_lib (\<lambda>_. None) [''relay''] (ref_push obj) empty_fs = (Inr rep, s')"
    by (rule ref_push_runs [OF o])
  have "json_ok (json_obj [(''object_ids'', jlist jstr [])])" by (rule json_ok_json_obj) (auto simp: jlist_def)
  then obtain h where "stable_json_hash ref_lib (json_obj [(''object_ids'', jlist jstr [])]) = Inr h"
    using stable_json_hash_total [OF ref_lib_laws(1)] by blast
  then obtain v where "bundle_validation_report_of ref_lib (\<lambda>_. None) ((ref_push obj)\<lparr>bq_objects := []\<rparr>) = Inr v"
    by (simp add: bundle_validation_report_of_def bundle_hash_def validated_object_ids_def validated_object_ids_with_policy_def)
  then show ?thesis
    using replayed_push_returns_first_report [OF p, of "(ref_push obj)\<lparr>bq_objects := []\<rparr>" v] p by auto
qed


section \<open>Under any traffic\<close>

lemma keeps_tree_ok_read: "keeps (relay_tree_ok L base) (fs_read p)" "keeps (relay_tree_ok L base) (fs_read_dir p)"
  by (rule keepsI, metis fs_read_tree relay_tree_ok_cong) (rule keepsI, metis fs_read_dir_tree relay_tree_ok_cong)

lemma keeps_tree_ok_io: "keeps P m \<Longrightarrow> keeps P (io m)"
  unfolding io_def by (rule keeps_map_err)

lemma keeps_tree_ok_store: "keeps (relay_tree_ok L base) (store_missing L base r x acc)"
proof -
  obtain obj b a d where x: "x = (obj, b)" "acc = (a, d)" by (metis prod.exhaust)
  show ?thesis
  proof (cases "file_object_path L base r (co_object_id obj)")
    case (Inl e)
    show ?thesis unfolding x store_missing_cases Inl sum.case by (rule keeps_basic)
  next
    case (Inr p)
    then have "p \<in> store_files L base" by (auto simp: file_object_path_slot slot_file)
    then show ?thesis unfolding x store_missing_cases Inr sum.case
      by (intro keeps_cond keeps_bind keeps_tree_ok_write keeps_basic)
  qed
qed

lemma keeps_tree_ok_read_json: "keeps (relay_tree_ok L base) (read_json L d p)"
  unfolding read_json_def by (intro keeps_bind keeps_tree_ok_io keeps_tree_ok_read keeps_basic)

lemma keeps_tree_ok_push: "keeps (relay_tree_ok L base) (file_push_bundle L env base q)"
proof -
  have w: "keeps (relay_tree_ok L base) (write_json L (idempotency_path L base r k) v)" for r k v
    unfolding write_json_def by (intro keeps_bind keeps_tree_ok_write idempotency_file keeps_basic)
  have c: "keeps (relay_tree_ok L base) (check_conflict L base r x)" for r x
    unfolding check_conflict_def case_prod_beta
    by (intro keeps_bind keeps_cond keeps_if keeps_tree_ok_io keeps_tree_ok_read keeps_basic)
  have "keeps (relay_tree_ok L base) (push_new L base q v)" for v
    unfolding push_new_def Let_def
    by (auto intro!: keeps_bind keeps_each keeps_fold c keeps_tree_ok_store w split: prod.split)
  then show ?thesis
    unfolding file_push_bundle_def file_validate_bundle_def Let_def
    by (intro keeps_bind keeps_cond keeps_tree_ok_read_json keeps_basic)
qed

lemma scan_tree: "scan_prefix dir x acc s = (r, s') \<Longrightarrow> tree s' = tree s"
  unfolding scan_prefix_def io_def
  by (auto simp: eff_simps split: if_splits prod.splits sum.splits dest: fs_read_dir_tree)

lemma scan_all_tree: "e_fold (scan_prefix dir) xs acc s = (r, s') \<Longrightarrow> tree s' = tree s"
proof (induction xs arbitrary: acc s)
  case (Cons x xs)
  then have "e_bind (scan_prefix dir x acc) (e_fold (scan_prefix dir) xs) s = (r, s')" by simp
  then show ?case by (rule e_bind_cases) (use Cons.IH in \<open>auto dest!: scan_tree\<close>)
qed auto

lemma list_tree: "file_list_object_ids L base r s = (res, s') \<Longrightarrow> tree s' = tree s"
  unfolding file_list_object_ids_def Let_def io_def
  by (auto simp: eff_simps split: if_splits prod.splits sum.splits dest!: fs_read_dir_tree scan_all_tree)

lemma keeps_tree_ok_list: "keeps (relay_tree_ok L base) (file_list_object_ids L base r)"
  by (rule keepsI) (metis list_tree relay_tree_ok_cong)

lemma keeps_tree_ok_get: "keeps (relay_tree_ok L base) (file_read_object L base r i)"
  unfolding file_read_object_def by (intro keeps_bind keeps_tree_ok_read_json keeps_basic)

text \<open>
  C25: under any sequence of requests, served with or without a token, valid or not, and whatever the
  file system does in between, the directories of the store stay well formed and an object once stored
  keeps its bytes for ever.
\<close>

theorem served_requests_keep_objects:
  assumes "relay_tree_ok L base s" "file_stored L base s r i = Some b"
  shows "relay_tree_ok L base (snd (serve_all (file_store L env base) token reqs s)) \<and>
    file_stored L base (snd (serve_all (file_store L env base) token reqs s)) r i = Some b"
proof
  have "ops_keep (relay_tree_ok L base) (file_store L env base)"
    by (intro file_store_keeps keeps_tree_ok_push keeps_tree_ok_get keeps_tree_ok_list)
  then show "relay_tree_ok L base (snd (serve_all (file_store L env base) token reqs s))"
    using assms(1) by (rule serve_all_keeps_any)
  show "file_stored L base (snd (serve_all (file_store L env base) token reqs s)) r i = Some b"
    using assms(2) by (rule fstore.requests_keep)
qed

theorem served_requests_keep_objects_witness:
  "\<exists>obj rep s' b. file_push_bundle ref_lib (\<lambda>_. None) [''relay''] (ref_push obj) empty_fs = (Inr rep, s') \<and>
     file_stored ref_lib [''relay''] (snd (serve_all (file_store ref_lib (\<lambda>_. None) [''relay'']) None
       [\<lparr>hr_path = ''/'', hr_authorization = None, hr_route = PushBundle ''repo'' (forged_push ''note'')\<rparr>] s'))
       ''repo'' (co_object_id obj) = Some b"
proof -
  obtain obj where o: "fields_ok ref_lib obj" "plain_body (co_body obj)" by (rule ref_object)
  obtain rep s' where p: "file_push_bundle ref_lib (\<lambda>_. None) [''relay''] (ref_push obj) empty_fs = (Inr rep, s')"
    by (rule ref_push_runs [OF o])
  have op: "op_push (file_store ref_lib (\<lambda>_. None) [''relay'']) (ref_push obj) empty_fs = (Inr rep, s')"
    using p by (simp add: file_store_def)
  have "\<exists>b. file_stored ref_lib [''relay''] s' (bq_repo_id (ref_push obj)) (co_object_id obj) = Some b"
    by (rule fstore.push_stores [OF op]) (simp_all add: ref_push_def)
  then obtain b where b: "file_stored ref_lib [''relay''] s' ''repo'' (co_object_id obj) = Some b"
    by (auto simp: ref_push_def)
  have ok: "relay_tree_ok ref_lib [''relay''] s'" by (rule keepsD [OF keeps_tree_ok_push p]) simp
  show ?thesis using served_requests_keep_objects [OF ok b] p by blast
qed

section \<open>Listing and paging\<close>

definition ids_under :: "fs \<Rightarrow> path \<Rightarrow> str \<Rightarrow> str list" where
  "ids_under s dir pfx = (if is_dir_at s (dir @ [pfx]) then ids_in s (dir @ [pfx]) (dir_names s (dir @ [pfx])) else [])"

lemma scan_calm: "faults s = [] \<Longrightarrow> scan_prefix dir pfx acc s = (Inr (acc @ ids_under s dir pfx), s)"
  by (simp add: scan_prefix_def ids_under_def io_def eff_simps fs_read_dir_def)

lemma scan_all_calm:
  "faults s = [] \<Longrightarrow> e_fold (scan_prefix dir) pfxs acc s = (Inr (acc @ concat (map (ids_under s dir) pfxs)), s)"
  by (induction pfxs arbitrary: acc) (simp_all add: scan_calm e_bind_apply)

lemma in_ids_under:
  assumes "relay_tree_ok L base s"
  shows "i \<in> set (ids_under s (objects_dir L base r) pfx) \<longleftrightarrow>
    (\<exists>h. i = ''sha256:'' @ h \<and> hex64 h \<and> pfx = take 2 h \<and> file_stored L base s r i \<noteq> None)"
proof
  assume "i \<in> set (ids_under s (objects_dir L base r) pfx)"
  then obtain n h where n: "i = ''sha256:'' @ h" "n = h @ ''.json''" "is_file_at s (objects_dir L base r @ [pfx, n])"
    by (auto simp: ids_under_def ids_in_def strip_suffix_Some_iff split: if_splits)
  then obtain b where b: "tree s (objects_dir L base r @ [pfx, n]) = Some (File b)"
    by (auto simp: is_file_at_def split: option.splits fnode.splits)
  with assms obtain h' where h: "hex64 h'" "pfx = take 2 h'" "n = h' @ ''.json''"
    unfolding relay_tree_ok_def by metis
  with n(2) have "h' = h" by simp
  with h b n show "\<exists>h. i = ''sha256:'' @ h \<and> hex64 h \<and> pfx = take 2 h \<and> file_stored L base s r i \<noteq> None"
    using file_stored_iff [of L base s r i b] by (auto simp: still_def object_file_def)
next
  assume "\<exists>h. i = ''sha256:'' @ h \<and> hex64 h \<and> pfx = take 2 h \<and> file_stored L base s r i \<noteq> None"
  then obtain h b where h: "i = ''sha256:'' @ h" "hex64 h" "pfx = take 2 h" "tree s (objects_dir L base r @ [pfx, h @ ''.json'']) = Some (File b)"
    by (auto simp: file_stored_iff still_def object_file_def)
  with assms have "is_dir_at s (objects_dir L base r @ [pfx])" unfolding relay_tree_ok_def is_dir_at_def by blast
  moreover have "strip_suffix ''.json'' (h @ ''.json'') = Some h" by (simp add: strip_suffix_Some_iff)
  ultimately show "i \<in> set (ids_under s (objects_dir L base r) pfx)"
    using h by (force simp: ids_under_def ids_in_def is_file_at_def in_dir_names)
qed

lemma distinct_ids_under: "distinct (ids_under s dir pfx)"
proof -
  have "inj_on (\<lambda>name. ''sha256:'' @ the (strip_suffix ''.json'' name)) {n. strip_suffix ''.json'' n \<noteq> None}"
    by (auto simp: inj_on_def strip_suffix_Some_iff)
  then show ?thesis
    unfolding ids_under_def ids_in_def by (auto simp: distinct_map intro: inj_on_subset)
qed


lemma distinct_ids_all:
  assumes "relay_tree_ok L base s" "distinct pfxs"
  shows "distinct (concat (map (ids_under s (objects_dir L base r)) pfxs))"
  using assms(2)
proof (induction pfxs)
  case (Cons x xs)
  have "set (ids_under s (objects_dir L base r) x) \<inter> set (concat (map (ids_under s (objects_dir L base r)) xs)) = {}"
    using Cons.prems by (auto simp: in_ids_under [OF assms(1)])
  with Cons show ?case by (simp add: distinct_ids_under)
qed simp

lemma list_calm:
  assumes "faults s = []" "relay_tree_ok L base s"
  shows "\<exists>ids. file_list_object_ids L base r s = (Inr ids, s) \<and> sorted ids \<and> distinct ids \<and>
    set ids = {i. file_stored L base s r i \<noteq> None}"
proof (cases "exists_at s (objects_dir L base r)")
  case False
  then have gone: "tree s (objects_dir L base r) \<noteq> Some Dir" by (auto simp: exists_at_def)
  have none: "file_stored L base s r i = None" for i
  proof (cases "file_stored L base s r i")
    case (Some b)
    then obtain h where "tree s (objects_dir L base r @ [take 2 h, h @ ''.json'']) = Some (File b)"
      by (auto simp: file_stored_iff still_def object_file_def)
    with assms(2) gone show ?thesis unfolding relay_tree_ok_def by blast
  qed
  have "file_list_object_ids L base r s = (Inr [], s)" using False by (simp add: file_list_object_ids_def Let_def)
  with none show ?thesis by simp
next
  case True
  let ?d = "objects_dir L base r"
  have above: "?d \<in> dirs_above L base"
    by (force simp: dirs_above_def in_ancestors_of object_file_def objects_dir_def repo_dir_def butlast_append)
  with True assms(2) have dir: "is_dir_at s ?d"
    unfolding relay_tree_ok_def exists_at_def is_dir_at_def by (metis fnode.exhaust option.exhaust)
  let ?ids = "concat (map (ids_under s ?d) (dir_names s ?d))"
  have run: "file_list_object_ids L base r s = (Inr (sort ?ids), s)"
    using True dir assms(1)
    by (simp add: file_list_object_ids_def Let_def io_def eff_simps fs_read_dir_def scan_all_calm)
  have "set ?ids = {i. file_stored L base s r i \<noteq> None}"
  proof (intro set_eqI iffI)
    fix i assume "i \<in> set ?ids"
    then show "i \<in> {i. file_stored L base s r i \<noteq> None}" by (auto simp: in_ids_under [OF assms(2)])
  next
    fix i assume i: "i \<in> {i. file_stored L base s r i \<noteq> None}"
    then obtain h b where h: "i = ''sha256:'' @ h" "hex64 h" "tree s (?d @ [take 2 h, h @ ''.json'']) = Some (File b)"
      by (auto simp: file_stored_iff still_def object_file_def)
    with assms(2) have "tree s (?d @ [take 2 h]) = Some Dir" unfolding relay_tree_ok_def by blast
    then have "take 2 h \<in> set (dir_names s ?d)" by (simp add: in_dir_names)
    with h i show "i \<in> set ?ids" by (auto simp: in_ids_under [OF assms(2)])
  qed
  moreover have "distinct ?ids" by (rule distinct_ids_all [OF assms(2)]) simp
  ultimately show ?thesis using run by (intro exI [where x = "sort ?ids"]) simp
qed

lemma read_calm:
  assumes "faults s = []" "file_stored L base s r i = Some b" "parse_as L object_of_json b = Inr obj"
  shows "file_read_object L base r i s = (Inr obj, s)"
proof -
  from assms(2) obtain p where "file_object_path L base r i = Inr p" "tree s p = Some (File b)"
    by (auto simp: file_stored_def split: sum.splits option.splits fnode.splits)
  with assms(1,3) show ?thesis
    by (simp add: file_read_object_def read_json_def io_def eff_simps fs_simps lookup_file_def)
qed

lemma e_map_calm:
  assumes "\<And>x. x \<in> set xs \<Longrightarrow> f x s = (Inr (g x), s)"
  shows "e_map f xs s = (Inr (map g xs), s)"
  using assms by (induction xs) (simp_all add: e_bind_apply)

text \<open>
  C26: a pull page is exact.  In a well-formed quiet store whose objects parse, a pull answers with the
  stored objects the client does not know, in the order of their ids, as many as the limit allows, and
  counts what remains; nothing stored is hidden and nothing else appears.
\<close>

theorem pull_page_exact:
  assumes "faults s = []" "relay_tree_ok L base s"
    and "\<forall>i b. file_stored L base s (lq_repo_id q) i = Some b \<longrightarrow> is_ok (parse_as L object_of_json b)"
  shows "\<exists>ids objs. sorted ids \<and> distinct ids \<and>
    set ids = {i. file_stored L base s (lq_repo_id q) i \<noteq> None \<and> i \<notin> set (lq_known_object_ids q)} \<and>
    list_all2 (\<lambda>i obj. \<exists>b. file_stored L base s (lq_repo_id q) i = Some b \<and> parse_as L object_of_json b = Inr obj)
      (case lq_limit q of None \<Rightarrow> ids | Some n \<Rightarrow> take (unat n) ids) objs \<and>
    file_pull_bundle L base q s = (Inr \<lparr>lp_status = ''ok'', lp_repo_id = lq_repo_id q,
      lp_object_count = of_nat (length objs), lp_remaining_object_count = of_nat (length ids - length objs),
      lp_objects = objs\<rparr>, s)"
proof -
  let ?r = "lq_repo_id q"
  obtain all where all: "file_list_object_ids L base ?r s = (Inr all, s)" "sorted all" "distinct all"
    "set all = {i. file_stored L base s ?r i \<noteq> None}" using list_calm [OF assms(1,2)] by blast
  let ?ids = "filter (\<lambda>i. i \<notin> set (lq_known_object_ids q)) all"
  let ?limit = "case lq_limit q of None \<Rightarrow> length ?ids | Some n \<Rightarrow> unat n"
  let ?page = "take ?limit ?ids"
  have page: "?page = (case lq_limit q of None \<Rightarrow> ?ids | Some n \<Rightarrow> take (unat n) ?ids)" by (simp split: option.split)
  have ex: "\<exists>b obj. file_stored L base s ?r i = Some b \<and> parse_as L object_of_json b = Inr obj"
    if "i \<in> set ?page" for i
  proof -
    have "i \<in> set ?ids" using that by (rule in_set_takeD)
    then obtain b where "file_stored L base s ?r i = Some b" using all(4) by auto
    with assms(3) show ?thesis by (metis is_ok_simps(1) obj_sumE)
  qed
  then obtain g where g: "\<exists>b. file_stored L base s ?r i = Some b \<and> parse_as L object_of_json b = Inr (g i)"
    if "i \<in> set ?page" for i by metis
  have reads: "file_read_object L base ?r i s = (Inr (g i), s)" if "i \<in> set ?page" for i
    using g [OF that] read_calm [OF assms(1)] by blast
  have "e_map (file_read_object L base ?r) ?page s = (Inr (map g ?page), s)"
    by (rule e_map_calm) (rule reads)
  then have run: "file_pull_bundle L base q s = (Inr \<lparr>lp_status = ''ok'', lp_repo_id = ?r,
      lp_object_count = of_nat (length (map g ?page)), lp_remaining_object_count = of_nat (length ?ids - length (map g ?page)),
      lp_objects = map g ?page\<rparr>, s)"
    using all(1) by (simp add: file_pull_bundle_def eff_simps Let_def min_def)
  have "list_all2 (\<lambda>i obj. \<exists>b. file_stored L base s ?r i = Some b \<and> parse_as L object_of_json b = Inr obj) ?page (map g ?page)"
    unfolding list.rel_map by (rule list.rel_refl_strong) (rule g)
  with run all show ?thesis
    by (intro exI [where x = ?ids] exI [where x = "map g ?page"]) (simp add: page sorted_wrt_filter)
qed


text \<open>A store with one object in it.\<close>

definition one_object_fs :: "lib \<Rightarrow> path \<Rightarrow> str \<Rightarrow> str \<Rightarrow> bytes \<Rightarrow> fs" where
  "one_object_fs L base r h b = \<lparr>entries = [(objects_dir L base r, Dir), (objects_dir L base r @ [take 2 h], Dir),
     (object_file L base r h, File b)], faults = []\<rparr>"

lemma one_object_tree:
  "tree (one_object_fs L base r h b) p =
    (if p = objects_dir L base r then Some Dir else if p = objects_dir L base r @ [take 2 h] then Some Dir
     else if p = object_file L base r h then Some (File b) else None)"
  by (simp add: one_object_fs_def tree_def)

lemma one_object_fs_ok:
  assumes "hex64 h"
  shows "relay_tree_ok L base (one_object_fs L base r h b)" "faults (one_object_fs L base r h b) = []"
    "file_stored L base (one_object_fs L base r h b) r i = Some c \<longleftrightarrow> i = ''sha256:'' @ h \<and> c = b"
proof -
  let ?s = "one_object_fs L base r h b"
  have dirs: "p \<notin> store_files L base" if "p = objects_dir L base r \<or> p = objects_dir L base r @ [take 2 h]" for p
    using that by (auto simp: store_files_def object_file_def idempotency_path_def objects_dir_def repo_dir_def)
  have self: "object_file L base r h \<in> store_files L base" using assms by (auto simp: store_files_def)
  have above: "object_file L base r h \<notin> dirs_above L base" by (rule files_not_above [OF self])
  have shape: "(\<exists>h. hex64 h \<and> d = take 2 h \<and> n = h @ ''.json'') \<and> tree ?s (objects_dir L base r') = Some Dir \<and>
      tree ?s (objects_dir L base r' @ [d]) = Some Dir"
    if "tree ?s (objects_dir L base r' @ [d, n]) = Some (File c)" for r' d n c
  proof -
    from that have "objects_dir L base r' @ [d, n] = object_file L base r h"
      by (auto simp: one_object_tree split: if_splits)
    then have "objects_dir L base r' = objects_dir L base r" "d = take 2 h" "n = h @ ''.json''"
      by (auto simp: object_file_def)
    with assms show ?thesis by (auto simp: one_object_tree)
  qed
  show "relay_tree_ok L base ?s"
    unfolding relay_tree_ok_def
  proof (intro conjI ballI allI impI; (elim shape [THEN conjunct1] shape [THEN conjunct2, THEN conjunct1] shape [THEN conjunct2, THEN conjunct2])?)
    fix q c assume "q \<in> dirs_above L base"
    with above show "tree ?s q \<noteq> Some (File c)" by (auto simp: one_object_tree)
  next
    fix p assume "p \<in> store_files L base"
    with dirs show "tree ?s p \<noteq> Some Dir" by (auto simp: one_object_tree)
  qed
  show "faults ?s = []" by (simp add: one_object_fs_def)
  show "file_stored L base ?s r i = Some c \<longleftrightarrow> i = ''sha256:'' @ h \<and> c = b"
    using assms by (auto simp: file_stored_iff still_def one_object_tree object_file_def)
qed

theorem pull_page_exact_witness:
  "\<exists>h b obj objs. file_pull_bundle ref_lib [''relay''] \<lparr>lq_repo_id = ''repo'', lq_known_object_ids = [], lq_limit = None\<rparr>
     (one_object_fs ref_lib [''relay''] ''repo'' h b) = (Inr \<lparr>lp_status = ''ok'', lp_repo_id = ''repo'',
       lp_object_count = of_nat (length objs), lp_remaining_object_count = 0, lp_objects = objs\<rparr>,
       one_object_fs ref_lib [''relay''] ''repo'' h b) \<and>
     objs = [obj] \<and> co_body obj = JObject [(''a'', JNull)]"
proof -
  obtain obj b where o: "fields_ok ref_lib obj" "co_body obj = JObject [(''a'', JNull)]" "plain_body (co_body obj)"
    "canonical_object_bytes ref_lib obj = Inr b"
    by (rule ref_object)
  obtain h where h: "co_object_id obj = ''sha256:'' @ h" "hex64 h"
    using fields_ok_id [OF o(1)] by (auto simp: object_id_ok_def hex64_def)
  let ?s = "one_object_fs ref_lib [''relay''] ''repo'' h b"
  let ?q = "\<lparr>lq_repo_id = ''repo'', lq_known_object_ids = [], lq_limit = None\<rparr>"
  note ok = one_object_fs_ok [OF h(2), of ref_lib "[''relay'']" "''repo''" b]
  have parse: "parse_as ref_lib object_of_json b = Inr obj"
    using object_bytes_read [OF ref_lib_laws(1) o(3,4)] by (simp add: read_object_bytes_def)
  obtain ids objs where *: "distinct ids" "set ids = {i. file_stored ref_lib [''relay''] ?s ''repo'' i \<noteq> None}"
    "list_all2 (\<lambda>i obj. \<exists>b. file_stored ref_lib [''relay''] ?s ''repo'' i = Some b \<and> parse_as ref_lib object_of_json b = Inr obj) ids objs"
    "file_pull_bundle ref_lib [''relay''] ?q ?s = (Inr \<lparr>lp_status = ''ok'', lp_repo_id = ''repo'',
      lp_object_count = of_nat (length objs), lp_remaining_object_count = of_nat (length ids - length objs), lp_objects = objs\<rparr>, ?s)"
    using pull_page_exact [OF ok(2,1), where q = ?q] parse by (auto simp: ok(3))
  have "set ids = {''sha256:'' @ h}" using *(2) ok(3) by auto
  with *(1) have ids: "ids = [''sha256:'' @ h]" by (cases ids; cases "tl ids") auto
  with *(3) have "objs = [obj]" by (auto simp: ok(3) parse list_all2_Cons1)
  with *(4) ids o(2) show ?thesis by fastforce
qed

text \<open>
  C27: a torn or altered object file is never repaired through the relay.  If the file under an object's
  id holds other bytes than the object's, which is what a crash in the middle of a write leaves behind,
  then after any further requests a push that carries that object leaves these bytes where they are, and
  it is refused unless its idempotency key is already recorded; under a recorded key the answer is the old
  report, read from its file, and nothing is stored.
\<close>

theorem torn_object_stays_refused:
  assumes "file_stored L base s (bq_repo_id q) (co_object_id obj) = Some torn" "relay_object_bytes L obj \<noteq> Inr torn"
    and "relay_tree_ok L base s" "json_codec L" "hex_codec L" "sha_sized L"
    and "s' = snd (serve_all (file_store L env base) token reqs s)" "faults s' = []"
    and "obj \<in> set (bq_objects q)" "\<forall>obj \<in> set (bq_objects q). plain_body (co_body obj)"
    and "file_push_bundle L env base q s' = (r, s'')"
  shows "file_stored L base s'' (bq_repo_id q) (co_object_id obj) = Some torn \<and>
    (\<not> file_recorded L base s' (bq_repo_id q) (bq_idempotency_key q) \<longrightarrow> (\<exists>e. r = Inl e)) \<and>
    (\<forall>rep. r = Inr rep \<longrightarrow> s'' = s' \<and>
       read_json L push_report_of_json (idempotency_path L base (bq_repo_id q) (bq_idempotency_key q)) s' = (Inr rep, s'))"
proof -
  have ops: "ops_keep (relay_tree_ok L base) (file_store L env base)"
    by (intro file_store_keeps keeps_tree_ok_push keeps_tree_ok_get keeps_tree_ok_list)
  have ok: "relay_tree_ok L base s'" unfolding assms(7) by (rule serve_all_keeps_any [OF ops assms(3)])
  have torn: "file_stored L base s' (bq_repo_id q) (co_object_id obj) = Some torn"
    unfolding assms(7) by (rule fstore.requests_keep [OF assms(1)])
  have kept: "file_stored L base s'' (bq_repo_id q) (co_object_id obj) = Some torn"
    by (rule keepsD [OF keeps_file_stored [OF keeps_still_push] assms(11) torn])
  have refused: "\<exists>e. r = Inl e" if "\<not> file_recorded L base s' (bq_repo_id q) (bq_idempotency_key q)"
  proof -
    have "\<not> is_ok (fst (file_push_bundle L env base q s'))"
      using push_accepts [OF assms(8) ok assms(4,5,6,10) that] torn assms(2,9) by blast
    then have "\<not> is_ok r" by (simp add: assms(11))
    then show ?thesis by (cases r) auto
  qed
  have "s'' = s' \<and> read_json L push_report_of_json (idempotency_path L base (bq_repo_id q) (bq_idempotency_key q)) s' = (r, s')"
    if "is_ok r"
  proof -
    have "file_recorded L base s' (bq_repo_id q) (bq_idempotency_key q)" using refused \<open>is_ok r\<close> by force
    then have "read_json L push_report_of_json (idempotency_path L base (bq_repo_id q) (bq_idempotency_key q)) s' = (r, s'')"
      using assms(11) \<open>is_ok r\<close> by (auto simp: file_push_bundle_def file_validate_bundle_def file_recorded_def Let_def eff_simps split: sum.splits)
    moreover have "snd (read_json L push_report_of_json x s') = s'" for x
      using assms(8) by (simp add: read_json_def io_def eff_simps calm_ops split: sum.split)
    ultimately show ?thesis by (metis snd_conv)
  qed
  then show ?thesis using kept refused by simp
qed

theorem torn_object_stays_refused_witness:
  "\<exists>obj h e s''. co_object_id obj = ''sha256:'' @ h \<and> fields_ok ref_lib obj \<and>
     file_push_bundle ref_lib (\<lambda>_. None) [''relay''] (ref_push obj) (one_object_fs ref_lib [''relay''] ''repo'' h []) = (Inl e, s'') \<and>
     file_stored ref_lib [''relay''] s'' ''repo'' (co_object_id obj) = Some []"
proof -
  obtain obj b where o: "fields_ok ref_lib obj" "plain_body (co_body obj)" "canonical_object_bytes ref_lib obj = Inr b"
    by (rule ref_object)
  obtain h where h: "co_object_id obj = ''sha256:'' @ h" "hex64 h"
    using fields_ok_id [OF o(1)] by (auto simp: object_id_ok_def hex64_def)
  let ?s = "one_object_fs ref_lib [''relay''] ''repo'' h []"
  note ok = one_object_fs_ok [OF h(2), of ref_lib "[''relay'']" "''repo''" "[]"]
  have "b \<noteq> []" using o(3) put_nonempty by (auto simp: canonical_object_bytes_def ref_lib_def)
  then have torn: "relay_object_bytes ref_lib obj \<noteq> Inr []" using o(3) by (simp add: relay_bytes_eq)
  have fresh: "\<not> file_recorded ref_lib [''relay''] ?s ''repo'' (bq_idempotency_key (ref_push obj))"
    by (simp add: file_recorded_def exists_at_def one_object_tree ref_push_def)
      (simp add: idempotency_path_def objects_dir_def repo_dir_def)
  obtain r s'' where run: "file_push_bundle ref_lib (\<lambda>_. None) [''relay''] (ref_push obj) ?s = (r, s'')" by (rule prod.exhaust)
  have repo: "bq_repo_id (ref_push obj) = ''repo''" "bq_objects (ref_push obj) = [obj]" by (simp_all add: ref_push_def)
  have "file_stored ref_lib [''relay''] s'' ''repo'' (co_object_id obj) = Some [] \<and> (\<exists>e. r = Inl e)"
    using torn_object_stays_refused [where token = None and reqs = "[]" and obj = obj and q = "ref_push obj", unfolded repo,
        OF _ torn ok(1) ref_lib_laws(1-3) refl, simplified, OF _ ok(2) o(2) run] ok(3) h(1) fresh by auto
  with h o(1) run show ?thesis by blast
qed

section \<open>The token\<close>

text \<open>
  C32: the bearer gate.  A server with a token serves a path other than \<^verbatim>\<open>/health\<close> only to a request that
  carries exactly that token; anything else gets 401 and touches nothing.
\<close>

theorem bearer_gate:
  assumes "hr_path req \<noteq> ''/health''"
  shows "serve st (Some expected) req s =
    (if hr_authorization req = Some (''Bearer '' @ expected) then handle st (hr_route req) s
     else (error_response UNAUTHORIZED ''missing or invalid bearer token'', s))"
proof -
  have "Option.bind (hr_authorization req) (strip_prefix ''Bearer '') = Some t \<longleftrightarrow> hr_authorization req = Some (''Bearer '' @ t)" for t
    by (cases "hr_authorization req") (auto simp: strip_prefix_Some_iff)
  moreover have "strip_prefix ''Bearer '' (''Bearer '' @ expected) = Some expected" by (rule strip_prefix_append)
  ultimately show ?thesis using assms by (auto simp: serve_def split: option.split)
qed

theorem bearer_gate_witness:
  "fst (serve (file_store ref_lib (\<lambda>_. None) [''relay'']) (Some ''t'')
     \<lparr>hr_path = ''/v1/repos/r'', hr_authorization = Some ''Bearer u'', hr_route = RepoStatus ''r''\<rparr> empty_fs) =
   error_response UNAUTHORIZED ''missing or invalid bearer token''"
  by (subst bearer_gate) simp_all

end
