(* ===== verification/Relay_Index.thy ===== *)
theory Relay_Index
  imports Relay_Props
begin

text \<open>
  The KFDB projection of \<^verbatim>\<open>crates/rickydata-git-relay/src/lib.rs\<close>: the graph operations made for a
  bundle, and \<^verbatim>\<open>IndexedRelayStore\<close>, the store that sends them to a sink after every push.  The sink
  (an HTTP service) and UUID version 5 are parameters.
\<close>

section \<open>Operations on the graph\<close>

record kfdb_write_batch =
  kb_operations :: "json list"
  kb_skip_embedding :: bool

definition KFDB_INDEX_BATCH_OPERATION_LIMIT :: nat where "KFDB_INDEX_BATCH_OPERATION_LIMIT = 100"

definition deterministic_uuid :: "lib \<Rightarrow> str list \<Rightarrow> str" where
  "deterministic_uuid L parts = uuid_v5_url L (join_with [CHR 0x1F] parts)"

definition string_value :: "str \<Rightarrow> json" where
  "string_value s = json_obj [(''String'', jstr s)]"

definition integer_value :: "int \<Rightarrow> json" where
  "integer_value i = json_obj [(''Integer'', JNumber (number_of_i64 i))]"

definition properties_object :: "(str \<times> json) list \<Rightarrow> json" where
  "properties_object properties = json_obj properties"

definition create_node :: "str \<Rightarrow> str \<Rightarrow> (str \<times> json) list \<Rightarrow> json" where
  "create_node i label properties = json_obj [(''operation'', jstr ''create_node''), (''id'', jstr i),
     (''label'', jstr label), (''mode'', jstr ''merge''), (''properties'', properties_object properties)]"

definition create_edge :: "str \<Rightarrow> str \<Rightarrow> str \<Rightarrow> str \<Rightarrow> (str \<times> json) list \<Rightarrow> json" where
  "create_edge i from_id to_id edge_type properties = json_obj [(''operation'', jstr ''create_edge''), (''id'', jstr i),
     (''from'', jstr from_id), (''to'', jstr to_id), (''edge_type'', jstr edge_type),
     (''properties'', properties_object properties)]"

definition body_string :: "canonical_object \<Rightarrow> str \<Rightarrow> str option" where
  "body_string obj fld = Option.bind (json_get (co_body obj) fld) as_str"

definition strings_of :: "json option \<Rightarrow> str list" where
  "strings_of v = (case Option.bind v as_array of None \<Rightarrow> [] | Some vs \<Rightarrow> List.map_filter as_str vs)"

definition body_string_array :: "canonical_object \<Rightarrow> str \<Rightarrow> str list" where
  "body_string_array obj fld = strings_of (json_get (co_body obj) fld)"

section \<open>Projections\<close>

definition projection_label_and_edge :: "str \<Rightarrow> (str \<times> str) option" where
  "projection_label_and_edge kind = map_of
     [(''agent.intent'', ''RickydataWorkIntent'', ''HAS_WORK_INTENT''),
      (''agent.attempt'', ''RickydataAgentAttempt'', ''HAS_AGENT_ATTEMPT''),
      (''agent.attempt_status'', ''RickydataAttemptStatusTransition'', ''HAS_ATTEMPT_STATUS''),
      (''agent.run'', ''RickydataAgentRun'', ''HAS_AGENT_RUN''),
      (''agent.run_trace'', ''RickydataAgentRunTrace'', ''HAS_AGENT_RUN_TRACE''),
      (''agent.change'', ''RickydataChangeEvidence'', ''HAS_CHANGE_EVIDENCE''),
      (''agent.patch'', ''RickydataPreparedPatch'', ''HAS_PREPARED_PATCH''),
      (''agent.patch_retirement'', ''RickydataPatchRetirement'', ''SUPERSEDES_PATCH'')] kind"

definition projection_fields :: "str \<Rightarrow> str list" where
  "projection_fields kind =
     (if kind = ''agent.intent'' then [''objective'']
      else if kind = ''agent.attempt'' \<or> kind = ''agent.attempt_status'' then [''attempt_id'']
      else if kind = ''agent.run'' then [''run_id'']
      else if kind = ''agent.run_trace'' then [''trace_id'', ''run_id'', ''attempt_id'']
      else if kind = ''agent.change'' then [''change_id'']
      else if kind = ''agent.patch'' \<or> kind = ''agent.patch_retirement'' then [''patch_id'']
      else [''trace_id'', ''attempt_id'', ''run_id'', ''change_id'', ''patch_id'', ''objective''])"

fun first_string :: "canonical_object \<Rightarrow> str list \<Rightarrow> str" where
  "first_string obj [] = co_object_id obj"
| "first_string obj (f # fs) = (case body_string obj f of Some v \<Rightarrow> v | None \<Rightarrow> first_string obj fs)"

definition projection_key :: "canonical_object \<Rightarrow> str" where
  "projection_key obj = first_string obj (projection_fields (co_kind obj))"

definition agent_projection_properties :: "lib \<Rightarrow> canonical_object \<Rightarrow> (str \<times> json) list" where
  "agent_projection_properties L obj =
     List.map_filter (\<lambda>f. map_option (\<lambda>v. (f, string_value v)) (body_string obj f))
       [''intent_id'', ''attempt_id'', ''run_id'', ''change_id'', ''patch_id'', ''base_commit'', ''diff_hash''] @
     List.map_filter (\<lambda>f. map_option (\<lambda>v. (f, string_value (json_text L v))) (json_get (co_body obj) f))
       [''run_ids'', ''change_ids'', ''file_paths'', ''diff_hashes''] @
     List.map_filter (\<lambda>f. map_option (\<lambda>v. (f, string_value (json_text L v))) (json_get (co_body obj) f))
       [''diff_summary'']"

definition file_operations :: "lib \<Rightarrow> str \<Rightarrow> str \<Rightarrow> str \<Rightarrow> json list" where
  "file_operations L repo_id projection_node_id file_path =
     (let file_node_id = deterministic_uuid L [''CodeFile'', repo_id, file_path] in
      [create_node file_node_id ''CodeFile'' [(''repo_id'', string_value repo_id), (''path'', string_value file_path),
         (''path_hash'', string_value (key_hash L file_path))],
       create_edge (deterministic_uuid L [''TOUCHES_FILE'', projection_node_id, file_node_id])
         projection_node_id file_node_id ''TOUCHES_FILE'' [(''source'', string_value ''rickydata-git-relay'')]])"

definition projection_operations :: "lib \<Rightarrow> str \<Rightarrow> canonical_object \<Rightarrow> str \<Rightarrow> json list" where
  "projection_operations L repo_id obj object_node_id = (case projection_label_and_edge (co_kind obj) of
     None \<Rightarrow> []
   | Some (label, edge_type) \<Rightarrow>
       (let key = projection_key obj;
            projection_node_id = deterministic_uuid L [label, repo_id, key]
        in [create_node projection_node_id label
              ([(''repo_id'', string_value repo_id), (''object_id'', string_value (co_object_id obj)),
                (''kind'', string_value (co_kind obj)), (''body_hash'', string_value (co_body_hash obj)),
                (''projection_key'', string_value key), (''schema_version'', string_value ''rickydata.git.kfdb.v1'')]
               @ agent_projection_properties L obj),
            create_edge (deterministic_uuid L [edge_type, object_node_id, projection_node_id])
              object_node_id projection_node_id edge_type [(''object_id'', string_value (co_object_id obj))]] @
           (if co_kind obj = ''agent.change'' \<or> co_kind obj = ''agent.patch''
            then concat (map (file_operations L repo_id projection_node_id) (body_string_array obj ''file_paths''))
            else [])))"

definition signer_label_property :: "actor_signature \<Rightarrow> (str \<times> json) list" where
  "signer_label_property sig = (case sig_signer_label sig of None \<Rightarrow> [] | Some l \<Rightarrow> [(''signer_label'', string_value l)])"

definition signature_operations :: "lib \<Rightarrow> canonical_object \<Rightarrow> str \<Rightarrow> actor_signature \<Rightarrow> json list" where
  "signature_operations L obj object_node_id sig =
     (let actor_node_id = deterministic_uuid L [''RickydataActor'', sig_public_key sig] in
      [create_node actor_node_id ''RickydataActor''
         ([(''public_key'', string_value (sig_public_key sig)), (''algorithm'', string_value (sig_algorithm sig)),
           (''schema_version'', string_value ''rickydata.git.kfdb.v1'')] @ signer_label_property sig),
       create_edge (deterministic_uuid L [''SIGNED_BY'', object_node_id, actor_node_id, sig_signature sig])
         object_node_id actor_node_id ''SIGNED_BY''
         ([(''object_id'', string_value (co_object_id obj)), (''algorithm'', string_value (sig_algorithm sig)),
           (''signature'', string_value (sig_signature sig))] @ signer_label_property sig @
          (case sig_signed_at_ms sig of None \<Rightarrow> [] | Some t \<Rightarrow> [(''signed_at_ms'', integer_value (sint t))]))])"

section \<open>Lineage\<close>

definition emit_lineage_edge ::
    "lib \<Rightarrow> str \<Rightarrow> str \<times> str \<times> canonical_object \<Rightarrow> str \<times> str \<times> str \<Rightarrow> str \<Rightarrow> json list" where
  "emit_lineage_edge L repo_id source target edge_type = (case (source, target) of
     ((source_label, source_key_field, obj), (target_label, target_projection_key, target_key_field)) \<Rightarrow>
       (let source_projection_key = (case body_string obj source_key_field of Some v \<Rightarrow> v | None \<Rightarrow> co_object_id obj);
            source_node_id = deterministic_uuid L [source_label, repo_id, source_projection_key];
            target_node_id = deterministic_uuid L [target_label, repo_id, target_projection_key]
        in [create_node target_node_id target_label
              [(''repo_id'', string_value repo_id), (target_key_field, string_value target_projection_key),
               (''projection_key'', string_value target_projection_key),
               (''schema_version'', string_value ''rickydata.git.kfdb.v1'')],
            create_edge (deterministic_uuid L [edge_type, source_node_id, target_node_id])
              source_node_id target_node_id edge_type
              [(''source_object_id'', string_value (co_object_id obj)), (''source_kind'', string_value (co_kind obj))]]))"

definition provenance_operations :: "lib \<Rightarrow> str \<Rightarrow> canonical_object \<Rightarrow> json list" where
  "provenance_operations L repo_id obj =
     (let one = (\<lambda>fld f. case body_string obj fld of None \<Rightarrow> [] | Some v \<Rightarrow> f v);
          run = (\<lambda>run_id. emit_lineage_edge L repo_id (''RickydataChangeEvidence'', ''change_id'', obj)
                   (''RickydataAgentRun'', run_id, ''run_id'') ''RUN_LINEAGE'');
          change = (\<lambda>change_id. emit_lineage_edge L repo_id (''RickydataPreparedPatch'', ''patch_id'', obj)
                   (''RickydataChangeEvidence'', change_id, ''change_id'') ''PATCH_LINEAGE'')
      in if co_kind obj = ''agent.attempt''
         then one ''intent_id'' (\<lambda>intent_id. emit_lineage_edge L repo_id (''RickydataAgentAttempt'', ''attempt_id'', obj)
                (''RickydataWorkIntent'', intent_id, ''objective'') ''INTENT_CHAIN'')
         else if co_kind obj = ''agent.run''
         then one ''attempt_id'' (\<lambda>attempt_id. emit_lineage_edge L repo_id (''RickydataAgentRun'', ''run_id'', obj)
                (''RickydataAgentAttempt'', attempt_id, ''attempt_id'') ''ATTEMPT_LINEAGE'')
         else if co_kind obj = ''agent.change''
         then concat (map run (body_string_array obj ''run_ids'')) @ one ''run_id'' run
         else if co_kind obj = ''agent.patch''
         then concat (map change (body_string_array obj ''change_ids'')) @ one ''change_id'' change
         else [])"

section \<open>The batch of a bundle\<close>

definition repo_node :: "lib \<Rightarrow> str \<Rightarrow> str" where
  "repo_node L repo_id = deterministic_uuid L [''RickydataRepository'', repo_id]"

definition bundle_node :: "lib \<Rightarrow> str \<Rightarrow> str \<Rightarrow> str" where
  "bundle_node L repo_id bundle_hash_value = deterministic_uuid L [''RickydataBundle'', repo_id, bundle_hash_value]"

definition object_node :: "lib \<Rightarrow> str \<Rightarrow> canonical_object \<Rightarrow> str" where
  "object_node L repo_id obj = deterministic_uuid L [''RickydataObjectMirror'', repo_id, co_object_id obj]"

definition object_operations :: "lib \<Rightarrow> str \<Rightarrow> str \<Rightarrow> canonical_object \<Rightarrow> relay_error + json list" where
  "object_operations L repo_id bundle_hash_value obj =
     r_bind (validate_object_with_policy L obj False) (\<lambda>_.
     r_bind (relay_object_bytes L obj) (\<lambda>b.
     (let repo_node_id = repo_node L repo_id;
          bundle_node_id = bundle_node L repo_id bundle_hash_value;
          object_node_id = object_node L repo_id obj
      in Inr ([create_node object_node_id ''RickydataObjectMirror''
           [(''repo_id'', string_value repo_id), (''object_id'', string_value (co_object_id obj)),
            (''kind'', string_value (co_kind obj)), (''schema_version'', string_value (co_schema_version obj)),
            (''body_hash'', string_value (co_body_hash obj)),
            (''canonical_byte_hash'', string_value (''sha256:'' @ lower_hex (sha256 L b))),
            (''bundle_hash'', string_value bundle_hash_value)],
         create_edge (deterministic_uuid L [''HAS_RICKYDATA_OBJECT'', repo_node_id, object_node_id])
           repo_node_id object_node_id ''HAS_RICKYDATA_OBJECT'' [(''object_id'', string_value (co_object_id obj))],
         create_edge (deterministic_uuid L [''BUNDLE_CONTAINS_OBJECT'', bundle_node_id, object_node_id])
           bundle_node_id object_node_id ''BUNDLE_CONTAINS_OBJECT'' [(''object_id'', string_value (co_object_id obj))]] @
        concat (map (signature_operations L obj object_node_id) (co_signatures obj)) @
        projection_operations L repo_id obj object_node_id @
        provenance_operations L repo_id obj))))"

definition bundle_operations :: "lib \<Rightarrow> str \<Rightarrow> str \<Rightarrow> canonical_object list \<Rightarrow> json list" where
  "bundle_operations L repo_id bundle_hash_value objects =
     (let repo_node_id = repo_node L repo_id;
          bundle_node_id = bundle_node L repo_id bundle_hash_value
      in [create_node repo_node_id ''RickydataRepository''
            [(''repo_id'', string_value repo_id), (''schema_version'', string_value ''rickydata.git.kfdb.v1'')],
          create_node bundle_node_id ''RickydataBundle''
            [(''repo_id'', string_value repo_id), (''bundle_hash'', string_value bundle_hash_value),
             (''object_count'', integer_value (sint (of_nat (length objects) :: u64))),
             (''schema_version'', string_value ''rickydata.git.kfdb.v1'')],
          create_edge (deterministic_uuid L [''HAS_RICKYDATA_BUNDLE'', repo_node_id, bundle_node_id])
            repo_node_id bundle_node_id ''HAS_RICKYDATA_BUNDLE'' [(''source'', string_value ''rickydata-git-relay'')]])"

definition kfdb_index_batch :: "lib \<Rightarrow> str \<Rightarrow> str \<Rightarrow> canonical_object list \<Rightarrow> relay_error + kfdb_write_batch" where
  "kfdb_index_batch L repo_id bundle_hash_value objects =
     r_map (\<lambda>opss. \<lparr>kb_operations = bundle_operations L repo_id bundle_hash_value objects @ concat opss,
                    kb_skip_embedding = True\<rparr>)
       (r_collect (object_operations L repo_id bundle_hash_value) objects)"

section \<open>The indexed store\<close>

text \<open>\<^verbatim>\<open>slice::chunks\<close>.\<close>

function chunks :: "nat \<Rightarrow> 'a list \<Rightarrow> 'a list list" where
  "chunks n xs = (if xs = [] \<or> n = 0 then [] else take n xs # chunks n (drop n xs))"
  by pat_completeness auto
termination by (relation "measure (\<lambda>(n, xs). length xs)") auto

declare chunks.simps [simp del]

type_synonym 'i index_sink = "kfdb_write_batch \<Rightarrow> ('i, relay_error, unit) eff"

text \<open>Send the chunks until one fails; the failure is logged and goes no further.\<close>

fun send_chunks :: "'i index_sink \<Rightarrow> bool \<Rightarrow> json list list \<Rightarrow> 'i \<Rightarrow> 'i" where
  "send_chunks sink skip [] i = i"
| "send_chunks sink skip (c # cs) i = (case sink \<lparr>kb_operations = c, kb_skip_embedding = skip\<rparr> i of
     (Inl e, i') \<Rightarrow> i'
   | (Inr u, i') \<Rightarrow> send_chunks sink skip cs i')"

definition on_inner :: "('s, 'e, 'a) eff \<Rightarrow> ('s \<times> 'i, 'e, 'a) eff" where
  "on_inner m = (\<lambda>(s, i). case m s of (r, s') \<Rightarrow> (r, (s', i)))"

definition indexed_push ::
    "lib \<Rightarrow> 's relay_ops \<Rightarrow> 'i index_sink \<Rightarrow> bundle_push_request \<Rightarrow> ('s \<times> 'i, relay_error, bundle_push_report) eff" where
  "indexed_push L inner sink q =
     e_bind (on_inner (op_push inner q)) (\<lambda>report.
     e_bind (e_lift (kfdb_index_batch L (bq_repo_id q) (bp_bundle_hash report) (bq_objects q))) (\<lambda>batch (s, i).
       (Inr report, (s, send_chunks sink (kb_skip_embedding batch)
          (chunks KFDB_INDEX_BATCH_OPERATION_LIMIT (kb_operations batch)) i))))"

definition indexed_store :: "lib \<Rightarrow> 's relay_ops \<Rightarrow> 'i index_sink \<Rightarrow> ('s \<times> 'i) relay_ops" where
  "indexed_store L inner sink = \<lparr>op_validate = (\<lambda>q. on_inner (op_validate inner q)),
     op_push = indexed_push L inner sink, op_pull = (\<lambda>q. on_inner (op_pull inner q)),
     op_read = (\<lambda>r i. on_inner (op_read inner r i)), op_list = (\<lambda>r. on_inner (op_list inner r)),
     op_status = (\<lambda>r. on_inner (op_status inner r))\<rparr>"


section \<open>The contract carries over\<close>

text \<open>A store with an index on top is a store: what the contract says of the inner one holds of both.\<close>

locale indexed_relay = relay_contract st check stored recorded parse
  for st :: "'s relay_ops" and check :: "bundle_push_request \<Rightarrow> relay_error + bundle_validation_report"
    and stored :: "'s \<Rightarrow> str \<Rightarrow> str \<Rightarrow> bytes option" and recorded :: "'s \<Rightarrow> str \<Rightarrow> str \<Rightarrow> bool"
    and parse :: "bytes \<Rightarrow> str + canonical_object" +
  fixes L :: lib and sink :: "'i index_sink"
begin

lemma on_inner_apply: "on_inner m (s, i) = (fst (m s), (snd (m s), i))"
  by (simp add: on_inner_def split: prod.split)

lemma indexed_push_inner:
  assumes "indexed_push L st sink q (s, i) = (r, (s', i'))"
  obtains r0 where "op_push st q s = (r0, s')" "\<And>x. r = Inr x \<Longrightarrow> r0 = Inr x" "\<And>e. r0 = Inl e \<Longrightarrow> r = Inl e"
proof -
  obtain r0 s0 where p: "op_push st q s = (r0, s0)" by (rule prod.exhaust)
  have "s' = s0 \<and> (\<forall>x. r = Inr x \<longrightarrow> r0 = Inr x) \<and> (\<forall>e. r0 = Inl e \<longrightarrow> r = Inl e)"
  proof (cases r0)
    case (Inl e)
    with assms p show ?thesis by (simp add: indexed_push_def e_bind_apply on_inner_apply)
  next
    case (Inr rep)
    with assms p show ?thesis
      by (auto simp: indexed_push_def e_bind_apply on_inner_apply split: sum.splits)
  qed
  with p that show thesis by blast
qed

lemma keeps_on_inner: "keeps P m \<Longrightarrow> keeps (\<lambda>s. P (fst s)) (on_inner m :: ('s \<times> 'i, 'e, 'a) eff)"
  by (auto simp: keeps_def on_inner_apply)

lemma keeps_indexed_push:
  assumes "keeps P (op_push st q)"
  shows "keeps (\<lambda>s. P (fst s)) (indexed_push L st sink q)"
proof (rule keepsI)
  fix t r t' assume P: "P (fst t)" and run: "indexed_push L st sink q t = (r, t')"
  obtain s i s' i' where t: "t = (s, i)" "t' = (s', i')" by (metis prod.exhaust)
  obtain r0 where "op_push st q s = (r0, s')" by (rule indexed_push_inner [OF run [unfolded t]])
  with assms P t show "P (fst t')" by (auto dest: keepsD)
qed

lemma indexed_keeps:
  assumes "ops_keep P st"
  shows "ops_keep (\<lambda>s. P (fst s)) (indexed_store L st sink)"
  using assms by (simp add: ops_keep_def indexed_store_def keeps_on_inner keeps_indexed_push)

end

sublocale indexed_relay \<subseteq> ix: relay_contract "indexed_store L st sink" check
  "\<lambda>s. stored (fst s)" "\<lambda>s. recorded (fst s)" parse
proof
  fix q and s :: "'s \<times> 'i"
  show "op_validate (indexed_store L st sink) q s = (check q, s)"
    by (cases s) (simp add: indexed_store_def on_inner_apply validate_checks)
next
  fix q e and s :: "'s \<times> 'i" assume "check q = Inl e"
  then show "op_push (indexed_store L st sink) q s = (Inl e, s)"
    by (cases s) (simp add: indexed_store_def indexed_push_def e_bind_apply on_inner_apply push_checks)
next
  fix r i b
  show "ops_keep (\<lambda>s. stored (fst s) r i = Some b) (indexed_store L st sink)"
    by (rule indexed_keeps [OF keeps_stored])
next
  fix q rep and s s' :: "'s \<times> 'i" and obj :: canonical_object
  assume run: "op_push (indexed_store L st sink) q s = (Inr rep, s')"
    and new: "\<not> recorded (fst s) (bq_repo_id q) (bq_idempotency_key q)" and o: "obj \<in> set (bq_objects q)"
  obtain a i a' i' where t: "s = (a, i)" "s' = (a', i')" by (metis prod.exhaust)
  from run t have "indexed_push L st sink q (a, i) = (Inr rep, (a', i'))" by (simp add: indexed_store_def)
  then obtain r0 where "op_push st q a = (r0, a')" "r0 = Inr rep" by (rule indexed_push_inner) blast
  with push_stores [of q a rep a' obj] new o t
  show "\<exists>b. stored (fst s') (bq_repo_id q) (co_object_id obj) = Some b" by simp
next
  fix r i obj and s s' :: "'s \<times> 'i"
  assume "op_read (indexed_store L st sink) r i s = (Inr obj, s')"
  then have "op_read st r i (fst s) = (Inr obj, fst s')"
    by (cases s) (auto simp: indexed_store_def on_inner_apply intro: prod_eqI)
  then show "\<exists>b. stored (fst s) r i = Some b \<and> parse b = Inr obj" by (rule read_sound)
qed

interpretation indexed_file: indexed_relay "file_store L env base" "bundle_validation_report_of L env"
  "file_stored L base" "file_recorded L base" "parse_as L object_of_json" L sink for L env base sink ..

section \<open>Properties\<close>

lemma chunks_step: "xs \<noteq> [] \<Longrightarrow> 0 < n \<Longrightarrow> chunks n xs = take n xs # chunks n (drop n xs)"
  by (simp add: chunks.simps [of n xs])

lemma chunks_Nil [simp]: "chunks n [] = []"
  by (simp add: chunks.simps)

text \<open>A sink that keeps what it is sent and breaks down after \<open>n\<close> batches.\<close>

definition recording_sink :: "nat \<Rightarrow> kfdb_write_batch list index_sink" where
  "recording_sink n b sent = (if n \<le> length sent then (Inl (KfdbIndex ''down''), sent) else (Inr (), sent @ [b]))"

lemma send_chunks_recorded:
  assumes "0 < k"
  shows "\<exists>bs. send_chunks (recording_sink n) skip (chunks k ops) sent = sent @ bs \<and>
    concat (map kb_operations bs) = take (k * (n - length sent)) ops \<and>
    (\<forall>b \<in> set bs. kb_operations b \<noteq> [] \<and> length (kb_operations b) \<le> k \<and> kb_skip_embedding b = skip)"
  using assms
proof (induction k ops arbitrary: sent rule: chunks.induct)
  case (1 k ops)
  show ?case
  proof (cases "ops = [] \<or> n \<le> length sent")
    case True
    then show ?thesis
      by (cases "ops = []") (auto simp: chunks_step [OF _ 1(2)] recording_sink_def)
  next
    case False
    let ?b = "\<lparr>kb_operations = take k ops, kb_skip_embedding = skip\<rparr>"
    have *: "\<not> (ops = [] \<or> k = 0)" using False 1(2) by simp
    obtain bs where bs: "send_chunks (recording_sink n) skip (chunks k (drop k ops)) (sent @ [?b]) = (sent @ [?b]) @ bs"
      "concat (map kb_operations bs) = take (k * (n - length (sent @ [?b]))) (drop k ops)"
      "\<forall>b \<in> set bs. kb_operations b \<noteq> [] \<and> length (kb_operations b) \<le> k \<and> kb_skip_embedding b = skip"
      using 1(1) [OF * 1(2)] by blast
    have "k * (n - length sent) = k + k * (n - length (sent @ [?b]))"
    proof -
      have "n - length sent = Suc (n - length (sent @ [?b]))" using False by (simp add: Suc_diff_Suc)
      then show ?thesis by (simp only: mult_Suc_right)
    qed
    then have "take (k * (n - length sent)) ops = take k ops @ concat (map kb_operations bs)"
      using bs(2) by (simp add: take_add)
    moreover have "send_chunks (recording_sink n) skip (chunks k ops) sent = sent @ ?b # bs"
      using False bs(1) by (simp add: chunks_step [OF _ 1(2)] recording_sink_def)
    ultimately show ?thesis using bs(3) False 1(2) by (intro exI [where x = "?b # bs"]) simp
  qed
qed

text \<open>
  the index gets the whole batch in order, in pieces of at most 100 operations, and nothing after
  the first failure.
\<close>

theorem index_sent_in_chunks:
  "\<exists>bs. send_chunks (recording_sink n) skip (chunks KFDB_INDEX_BATCH_OPERATION_LIMIT ops) [] = bs \<and>
     concat (map kb_operations bs) = take (100 * n) ops \<and>
     (\<forall>b \<in> set bs. kb_operations b \<noteq> [] \<and> length (kb_operations b) \<le> 100 \<and> kb_skip_embedding b = skip)"
  using send_chunks_recorded [of KFDB_INDEX_BATCH_OPERATION_LIMIT n skip ops "[]"]
  by (simp add: KFDB_INDEX_BATCH_OPERATION_LIMIT_def)

theorem index_sent_in_chunks_witness:
  "\<exists>bs. send_chunks (recording_sink 1) True (chunks KFDB_INDEX_BATCH_OPERATION_LIMIT (replicate 150 JNull)) [] = bs \<and>
     concat (map kb_operations bs) = replicate 100 JNull"
  using index_sent_in_chunks [of 1 True "replicate 150 JNull"] by auto

lemma index_batch_total:
  assumes "bundle_validation_report_of L env q = Inr v" "json_codec L" "\<forall>obj \<in> set (bq_objects q). plain_body (co_body obj)"
  shows "\<exists>batch. kfdb_index_batch L r h (bq_objects q) = Inr batch"
proof -
  have "\<exists>ops. object_operations L r h obj = Inr ops" if o: "obj \<in> set (bq_objects q)" for obj
  proof -
    have "validate_object_with_policy L obj False = Inr ()"
      using bundle_validated(1) [OF assms(1)] o by (simp add: validate_object_with_policy_def validate_object_ok)
    moreover obtain b where "relay_object_bytes L obj = Inr b" using relay_bytes_total assms(2,3) o by blast
    ultimately show ?thesis by (simp add: object_operations_def Let_def)
  qed
  then obtain g where "object_operations L r h obj = Inr (g obj)" if "obj \<in> set (bq_objects q)" for obj by metis
  then have "r_collect (object_operations L r h) (bq_objects q) = Inr (map g (bq_objects q))" by (rule r_collect_total)
  then show ?thesis by (simp add: kfdb_index_batch_def)
qed

text \<open>
  C33: indexing never gets in the way of storing.  A push to the indexed file store returns what the
  file store returns and leaves it in the same state, whatever the index answers.
\<close>

theorem indexing_never_affects_push:
  assumes "json_codec L" "\<forall>obj \<in> set (bq_objects q). plain_body (co_body obj)"
  shows "\<exists>i'. op_push (indexed_store L (file_store L env base) sink) q (s, i) =
    (fst (file_push_bundle L env base q s), (snd (file_push_bundle L env base q s), i'))"
proof -
  obtain r s' where p: "file_push_bundle L env base q s = (r, s')" by (rule prod.exhaust)
  then have op: "op_push (file_store L env base) q s = (r, s')" by (simp add: file_store_def)
  show ?thesis
  proof (cases r)
    case (Inl e)
    with op p show ?thesis
      by (simp add: indexed_store_def indexed_push_def e_bind_apply on_inner_def)
  next
    case (Inr rep)
    then obtain v where v: "bundle_validation_report_of L env q = Inr v"
      using p by (cases "bundle_validation_report_of L env q") (auto simp: file_push_bundle_def file_validate_bundle_def eff_simps)
    obtain batch where "kfdb_index_batch L (bq_repo_id q) (bp_bundle_hash rep) (bq_objects q) = Inr batch"
      using index_batch_total [OF v assms] by blast
    with op p Inr show ?thesis
      by (simp add: indexed_store_def indexed_push_def e_bind_apply on_inner_def)
  qed
qed

theorem indexing_never_affects_push_witness:
  "\<exists>obj rep s'. co_body obj = JObject [(''a'', JNull)] \<and>
     fst (op_push (indexed_store ref_lib (file_store ref_lib (\<lambda>_. None) [''relay'']) (recording_sink 0)) (ref_push obj) (empty_fs, []))
       = Inr rep \<and> file_push_bundle ref_lib (\<lambda>_. None) [''relay''] (ref_push obj) empty_fs = (Inr rep, s')"
proof -
  obtain obj where o: "fields_ok ref_lib obj" "co_body obj = JObject [(''a'', JNull)]" "plain_body (co_body obj)"
    by (rule ref_object)
  obtain rep s' where p: "file_push_bundle ref_lib (\<lambda>_. None) [''relay''] (ref_push obj) empty_fs = (Inr rep, s')"
    by (rule ref_push_runs [OF o(1,3)])
  have "\<forall>obj \<in> set (bq_objects (ref_push obj)). plain_body (co_body obj)" using o(3) by (simp add: ref_push_def)
  from indexing_never_affects_push [OF ref_lib_laws(1) this, of "\<lambda>_. None" "[''relay'']" "recording_sink 0" empty_fs "[]"] p o(2)
  show ?thesis by fastforce
qed


section \<open>The graph of a batch\<close>

definition op_field :: "str \<Rightarrow> json \<Rightarrow> str option" where
  "op_field k op = Option.bind (json_get op k) as_str"

definition nodes_of :: "json list \<Rightarrow> str set" where
  "nodes_of ops = {i. \<exists>op \<in> set ops. op_field ''operation'' op = Some ''create_node'' \<and> op_field ''id'' op = Some i}"

definition ends_of :: "json list \<Rightarrow> str set" where
  "ends_of ops = {i. \<exists>op \<in> set ops. op_field ''operation'' op = Some ''create_edge'' \<and>
     (op_field ''from'' op = Some i \<or> op_field ''to'' op = Some i)}"

lemma op_field_node [simp]:
  "op_field ''operation'' (create_node i l ps) = Some ''create_node''" "op_field ''id'' (create_node i l ps) = Some i"
  by (simp_all add: op_field_def create_node_def json_get_json_obj jstr_def)

lemma op_field_edge [simp]:
  "op_field ''operation'' (create_edge i f t e ps) = Some ''create_edge''"
  "op_field ''from'' (create_edge i f t e ps) = Some f" "op_field ''to'' (create_edge i f t e ps) = Some t"
  "op_field ''edge_type'' (create_edge i f t e ps) = Some e"
  by (simp_all add: op_field_def create_edge_def json_get_json_obj jstr_def)

lemma nodes_of_simps [simp]:
  "nodes_of [] = {}" "nodes_of (create_node i l ps # ops) = insert i (nodes_of ops)"
  "nodes_of (create_edge i f t e ps # ops) = nodes_of ops" "nodes_of (xs @ ys) = nodes_of xs \<union> nodes_of ys"
  "nodes_of (concat xss) = (\<Union>xs \<in> set xss. nodes_of xs)"
  by (auto simp: nodes_of_def)

lemma ends_of_simps [simp]:
  "ends_of [] = {}" "ends_of (create_node i l ps # ops) = ends_of ops"
  "ends_of (create_edge i f t e ps # ops) = {f, t} \<union> ends_of ops" "ends_of (xs @ ys) = ends_of xs \<union> ends_of ys"
  "ends_of (concat xss) = (\<Union>xs \<in> set xss. ends_of xs)"
  by (auto simp: ends_of_def)

lemma signature_ends: "ends_of (signature_operations L obj n sig) \<subseteq> insert n (nodes_of (signature_operations L obj n sig))"
  by (simp add: signature_operations_def Let_def)

lemma file_ends: "ends_of (file_operations L r n f) \<subseteq> insert n (nodes_of (file_operations L r n f))"
  by (simp add: file_operations_def Let_def)

lemma projection_ends:
  "ends_of (projection_operations L r obj n) \<subseteq> insert n (nodes_of (projection_operations L r obj n))"
proof (cases "projection_label_and_edge (co_kind obj)")
  case (Some le)
  obtain l e where le: "le = (l, e)" by (rule prod.exhaust)
  show ?thesis
    unfolding projection_operations_def Some le option.case prod.case Let_def
    by simp (use file_ends [of L r "deterministic_uuid L [l, r, projection_key obj]"] in blast)
qed (simp add: projection_operations_def)

lemma projection_node:
  "projection_label_and_edge (co_kind obj) = Some (l, e) \<Longrightarrow>
     deterministic_uuid L [l, r, projection_key obj] \<in> nodes_of (projection_operations L r obj n)"
  by (simp add: projection_operations_def Let_def)

lemma lineage_ends:
  "ends_of (emit_lineage_edge L r (sl, sk, obj) tgt e) \<subseteq>
     insert (deterministic_uuid L [sl, r, first_string obj [sk]]) (nodes_of (emit_lineage_edge L r (sl, sk, obj) tgt e))"
  by (cases tgt) (simp add: emit_lineage_edge_def Let_def split: option.split)

text \<open>The source of a lineage edge is the node the object itself is projected to.\<close>

lemma provenance_ends:
  "ends_of (provenance_operations L r obj) \<subseteq>
     nodes_of (projection_operations L r obj n) \<union> nodes_of (provenance_operations L r obj)"
proof -
  consider (attempt) "co_kind obj = ''agent.attempt''" | (run) "co_kind obj = ''agent.run''"
    | (change) "co_kind obj = ''agent.change''" | (patch) "co_kind obj = ''agent.patch''"
    | (other) "co_kind obj \<notin> {''agent.attempt'', ''agent.run'', ''agent.change'', ''agent.patch''}" by blast
  then show ?thesis
  proof cases
    case attempt
    then have "deterministic_uuid L [''RickydataAgentAttempt'', r, first_string obj [''attempt_id'']] \<in> nodes_of (projection_operations L r obj n)"
      using projection_node [of obj "''RickydataAgentAttempt''" "''HAS_AGENT_ATTEMPT''" L r n]
      by (simp add: projection_label_and_edge_def projection_key_def projection_fields_def)
    with attempt show ?thesis
      using lineage_ends [of L r "''RickydataAgentAttempt''" "''attempt_id''" obj]
      by (simp add: provenance_operations_def Let_def split: option.split) blast
  next
    case run
    then have "deterministic_uuid L [''RickydataAgentRun'', r, first_string obj [''run_id'']] \<in> nodes_of (projection_operations L r obj n)"
      using projection_node [of obj "''RickydataAgentRun''" "''HAS_AGENT_RUN''" L r n]
      by (simp add: projection_label_and_edge_def projection_key_def projection_fields_def)
    with run show ?thesis
      using lineage_ends [of L r "''RickydataAgentRun''" "''run_id''" obj]
      by (simp add: provenance_operations_def Let_def split: option.split) blast
  next
    case change
    then have "deterministic_uuid L [''RickydataChangeEvidence'', r, first_string obj [''change_id'']] \<in> nodes_of (projection_operations L r obj n)"
      using projection_node [of obj "''RickydataChangeEvidence''" "''HAS_CHANGE_EVIDENCE''" L r n]
      by (simp add: projection_label_and_edge_def projection_key_def projection_fields_def)
    with change show ?thesis
      using lineage_ends [of L r "''RickydataChangeEvidence''" "''change_id''" obj]
      by (simp add: provenance_operations_def Let_def split: option.split) blast
  next
    case patch
    then have "deterministic_uuid L [''RickydataPreparedPatch'', r, first_string obj [''patch_id'']] \<in> nodes_of (projection_operations L r obj n)"
      using projection_node [of obj "''RickydataPreparedPatch''" "''HAS_PREPARED_PATCH''" L r n]
      by (simp add: projection_label_and_edge_def projection_key_def projection_fields_def)
    with patch show ?thesis
      using lineage_ends [of L r "''RickydataPreparedPatch''" "''patch_id''" obj]
      by (simp add: provenance_operations_def Let_def split: option.split) blast
  next
    case other
    then show ?thesis by (simp add: provenance_operations_def Let_def)
  qed
qed

lemma object_ends:
  assumes "object_operations L r h obj = Inr ops"
  shows "ends_of ops \<subseteq> {repo_node L r, bundle_node L r h} \<union> nodes_of ops"
proof -
  let ?n = "object_node L r obj"
  obtain b where "ops = [create_node ?n ''RickydataObjectMirror''
           [(''repo_id'', string_value r), (''object_id'', string_value (co_object_id obj)),
            (''kind'', string_value (co_kind obj)), (''schema_version'', string_value (co_schema_version obj)),
            (''body_hash'', string_value (co_body_hash obj)),
            (''canonical_byte_hash'', string_value (''sha256:'' @ lower_hex (sha256 L b))),
            (''bundle_hash'', string_value h)],
         create_edge (deterministic_uuid L [''HAS_RICKYDATA_OBJECT'', repo_node L r, ?n])
           (repo_node L r) ?n ''HAS_RICKYDATA_OBJECT'' [(''object_id'', string_value (co_object_id obj))],
         create_edge (deterministic_uuid L [''BUNDLE_CONTAINS_OBJECT'', bundle_node L r h, ?n])
           (bundle_node L r h) ?n ''BUNDLE_CONTAINS_OBJECT'' [(''object_id'', string_value (co_object_id obj))]] @
        concat (map (signature_operations L obj ?n) (co_signatures obj)) @
        projection_operations L r obj ?n @ provenance_operations L r obj"
    using assms by (auto simp: object_operations_def r_bind_Inr_iff Let_def)
  then show ?thesis
    by simp (use signature_ends [of L obj ?n] projection_ends [of L r obj ?n] provenance_ends [of L r obj ?n] in blast)
qed

text \<open>
  C34: the graph of a bundle is closed.  Every edge of an index batch runs between two nodes that the
  same batch creates, so a batch that arrives whole leaves no edge dangling.
\<close>

theorem index_batch_closed:
  assumes "kfdb_index_batch L r h objs = Inr batch"
  shows "ends_of (kb_operations batch) \<subseteq> nodes_of (kb_operations batch)"
proof -
  obtain opss where o: "r_collect (object_operations L r h) objs = Inr opss"
    "kb_operations batch = bundle_operations L r h objs @ concat opss"
    using assms by (auto simp: kfdb_index_batch_def r_map_Inr_iff)
  have base: "{repo_node L r, bundle_node L r h} \<subseteq> nodes_of (bundle_operations L r h objs)"
    "ends_of (bundle_operations L r h objs) \<subseteq> nodes_of (bundle_operations L r h objs)"
    by (simp_all add: bundle_operations_def Let_def)
  have "ends_of ops \<subseteq> {repo_node L r, bundle_node L r h} \<union> nodes_of ops" if "ops \<in> set opss" for ops
  proof -
    from that obtain i where "i < length opss" "ops = opss ! i" by (auto simp: in_set_conv_nth)
    with r_collect_nth [OF o(1)] r_collect_length [OF o(1)]
    have "object_operations L r h (objs ! i) = Inr ops" by simp
    then show ?thesis by (rule object_ends)
  qed
  with base show ?thesis unfolding o(2) by (simp, blast)
qed

theorem index_batch_closed_witness:
  "\<exists>obj batch. co_body obj = JObject [(''a'', JNull)] \<and> kfdb_index_batch ref_lib ''repo'' ''h'' [obj] = Inr batch \<and>
     repo_node ref_lib ''repo'' \<in> nodes_of (kb_operations batch)"
proof -
  obtain obj where o: "fields_ok ref_lib obj" "co_body obj = JObject [(''a'', JNull)]" "plain_body (co_body obj)"
    by (rule ref_object)
  obtain v where "bundle_validation_report_of ref_lib (\<lambda>_. None) (ref_push obj) = Inr v"
    using ref_push_valid [OF o(1)] by (metis is_ok_simps(1) obj_sumE)
  from index_batch_total [OF this ref_lib_laws(1), of "''repo''" "''h''"] o(3)
  obtain batch where b: "kfdb_index_batch ref_lib ''repo'' ''h'' [obj] = Inr batch" by (auto simp: ref_push_def)
  then have "repo_node ref_lib ''repo'' \<in> ends_of (kb_operations batch)"
    by (auto simp: kfdb_index_batch_def r_map_Inr_iff bundle_operations_def Let_def)
  with index_batch_closed [OF b] b o(2) show ?thesis by blast
qed

definition intent_node_name :: "str \<Rightarrow> str \<Rightarrow> str" where
  "intent_node_name repo_id key = join_with [CHR 0x1F] [''RickydataWorkIntent'', repo_id, key]"

definition uuid_collision :: "lib \<Rightarrow> str \<Rightarrow> str \<Rightarrow> bool" where
  "uuid_collision L x y \<longleftrightarrow> x \<noteq> y \<and> uuid_v5_url L x = uuid_v5_url L y"

text \<open>
  the lineage from an attempt to its intent goes astray.  The attempt's \<^verbatim>\<open>INTENT_CHAIN\<close> edge ends
  at a node named after the intent's object id, while the intent is projected to a node named after its
  objective: they are the same node only if the objective happens to be the object id, or if two names
  share a UUID.
\<close>

theorem intent_chain_misses_intent:
  assumes "co_kind a = ''agent.attempt''" "body_string a ''intent_id'' = Some (co_object_id w)"
    and "co_kind w = ''agent.intent''" "body_string w ''objective'' = Some obj"
  shows "\<exists>target. (\<exists>op \<in> set (provenance_operations L r a). op_field ''edge_type'' op = Some ''INTENT_CHAIN'' \<and>
      op_field ''to'' op = Some target) \<and>
    (target \<in> nodes_of (projection_operations L r w n) \<longrightarrow>
       obj = co_object_id w \<or> uuid_collision L (intent_node_name r (co_object_id w)) (intent_node_name r obj))"
proof -
  let ?t = "uuid_v5_url L (intent_node_name r (co_object_id w))"
  have edge: "\<exists>op \<in> set (provenance_operations L r a). op_field ''edge_type'' op = Some ''INTENT_CHAIN'' \<and> op_field ''to'' op = Some ?t"
    using assms(1,2) by (simp add: provenance_operations_def emit_lineage_edge_def Let_def deterministic_uuid_def intent_node_name_def)
  have nodes: "nodes_of (projection_operations L r w n) = {uuid_v5_url L (intent_node_name r obj)}"
    using assms(3,4) by (simp add: projection_operations_def projection_label_and_edge_def Let_def
        projection_key_def projection_fields_def deterministic_uuid_def intent_node_name_def)
  have "intent_node_name r obj = intent_node_name r (co_object_id w) \<longleftrightarrow> obj = co_object_id w"
    by (simp add: intent_node_name_def)
  then have "?t \<in> nodes_of (projection_operations L r w n) \<longrightarrow>
      obj = co_object_id w \<or> uuid_collision L (intent_node_name r (co_object_id w)) (intent_node_name r obj)"
    unfolding nodes uuid_collision_def by auto
  with edge show ?thesis by blast
qed

definition ref_intent_object :: canonical_object where
  "ref_intent_object = \<lparr>co_schema_version = ''v1'', co_kind = ''agent.intent'', co_object_id = ''sha256:ab'', co_created_at_ms = 0,
     co_body = JObject [(''objective'', JString ''ship it'')], co_body_hash = ''h'', co_signatures = []\<rparr>"

definition ref_attempt_object :: canonical_object where
  "ref_attempt_object = \<lparr>co_schema_version = ''v1'', co_kind = ''agent.attempt'', co_object_id = ''sha256:cd'', co_created_at_ms = 0,
     co_body = JObject [(''intent_id'', JString ''sha256:ab'')], co_body_hash = ''h'', co_signatures = []\<rparr>"

theorem intent_chain_misses_intent_witness:
  "\<exists>target. (\<exists>op \<in> set (provenance_operations (ref_lib\<lparr>uuid_v5_url := \<lambda>n. n\<rparr>) ''repo'' ref_attempt_object).
      op_field ''to'' op = Some target) \<and>
    target \<notin> nodes_of (projection_operations (ref_lib\<lparr>uuid_v5_url := \<lambda>n. n\<rparr>) ''repo'' ref_intent_object ''n'')"
proof -
  let ?L = "ref_lib\<lparr>uuid_v5_url := \<lambda>n. n\<rparr>"
  have "\<exists>target. (\<exists>op \<in> set (provenance_operations ?L ''repo'' ref_attempt_object). op_field ''edge_type'' op = Some ''INTENT_CHAIN'' \<and>
      op_field ''to'' op = Some target) \<and>
    (target \<in> nodes_of (projection_operations ?L ''repo'' ref_intent_object ''n'') \<longrightarrow>
       ''ship it'' = co_object_id ref_intent_object \<or>
       uuid_collision ?L (intent_node_name ''repo'' (co_object_id ref_intent_object)) (intent_node_name ''repo'' ''ship it''))"
    by (rule intent_chain_misses_intent)
      (simp_all add: ref_intent_object_def ref_attempt_object_def body_string_def)
  then show ?thesis by (auto simp: ref_intent_object_def uuid_collision_def)
qed

end
