(* ===== verification/Relay_Server.thy ===== *)
theory Relay_Server
  imports Relay_Gcs Relay_Index
begin

text \<open>
  The HTTP index sink of \<^verbatim>\<open>crates/rickydata-git-relay/src/lib.rs\<close> and the start of the relay process,
  \<^verbatim>\<open>crates/rickydata-git-relay/src/main.rs\<close>: what the environment decides.  Binding the socket and running
  the server are outside.
\<close>

section \<open>The HTTP index sink\<close>

record kfdb_private_auth =
  ka_derive_session_id :: str
  ka_derive_key :: str
  ka_wallet_address :: "str option"

record http_kfdb_index_sink =
  ks_write_url :: str
  ks_bearer_token :: "str option"
  ks_private_auth :: kfdb_private_auth

definition http_kfdb_index_sink_new :: "str \<Rightarrow> str option \<Rightarrow> kfdb_private_auth \<Rightarrow> http_kfdb_index_sink" where
  "http_kfdb_index_sink_new base_url bearer_token private_auth =
     \<lparr>ks_write_url = trim_end_char CHR ''/'' base_url @ ''/api/v1/write'', ks_bearer_token = bearer_token,
      ks_private_auth = private_auth\<rparr>"

definition kfdb_write_batch_json :: "kfdb_write_batch \<Rightarrow> json" where
  "kfdb_write_batch_json b = json_obj [(''operations'', JArray (kb_operations b)), (''skip_embedding'', JBool (kb_skip_embedding b))]"

definition wallet_header :: "str option \<Rightarrow> (str \<times> str) list" where
  "wallet_header w = (case w of None \<Rightarrow> [] | Some a \<Rightarrow> [(''x-wallet-address'', a)])"

definition write_batch :: "lib \<Rightarrow> 'h http_client \<Rightarrow> http_kfdb_index_sink \<Rightarrow> 'h index_sink" where
  "write_batch L cl sink batch = (case to_vec L (kfdb_write_batch_json batch) of
     Inl e \<Rightarrow> e_fail (KfdbIndex (ht_builder_error cl e))
   | Inr body \<Rightarrow> (\<lambda>h.
       case ht_send cl \<lparr>gq_method = Post, gq_url = ks_write_url sink, gq_query = [],
              gq_headers = [(''x-derive-session-id'', ka_derive_session_id (ks_private_auth sink)),
                 (''x-derive-key'', ka_derive_key (ks_private_auth sink))] @ wallet_header (ka_wallet_address (ks_private_auth sink)),
              gq_bearer = ks_bearer_token sink, gq_body = body\<rparr> h of
         (Inl e, h') \<Rightarrow> (Inl (KfdbIndex e), h')
       | (Inr r, h') \<Rightarrow>
           if is_success r then (Inr (), h')
           else (Inl (KfdbIndex (''KFDB write returned '' @ ht_status_text cl (gr_status r) @ '': '' @
                   (case gr_body r of Inl _ \<Rightarrow> [] | Inr b \<Rightarrow> map (\<lambda>w. char_of (unat w)) b))), h')))"

section \<open>The start of the process\<close>

text \<open>\<^verbatim>\<open>std::env::var\<close>: a variable that is not there.\<close>

definition env_var :: "env \<Rightarrow> str \<Rightarrow> str + str" where
  "env_var env name = ok_or ''environment variable not found'' (env name)"

definition env_or :: "str + str \<Rightarrow> str + str \<Rightarrow> str + str" where
  "env_or a b = (case a of Inr x \<Rightarrow> Inr x | Inl _ \<Rightarrow> b)"

definition relay_addr_from_env :: "env \<Rightarrow> str" where
  "relay_addr_from_env env = (case env ''RICKYDATA_RELAY_ADDR'' of
     Some addr \<Rightarrow> addr
   | None \<Rightarrow> (case env ''PORT'' of Some port \<Rightarrow> ''0.0.0.0:'' @ port | None \<Rightarrow> ''127.0.0.1:8080''))"

definition relay_kfdb_private_auth :: "env \<Rightarrow> str + kfdb_private_auth" where
  "relay_kfdb_private_auth env =
     r_bind (env_or (env_var env ''RICKYDATA_RELAY_KFDB_DERIVE_SESSION_ID'') (env_var env ''RICKYDATA_KFDB_DERIVE_SESSION_ID'')) (\<lambda>session.
     r_bind (env_or (env_var env ''RICKYDATA_RELAY_KFDB_DERIVE_KEY'') (env_var env ''RICKYDATA_KFDB_DERIVE_KEY'')) (\<lambda>key.
       Inr \<lparr>ka_derive_session_id = session, ka_derive_key = key, ka_wallet_address =
         (case env ''RICKYDATA_RELAY_KFDB_WALLET_ADDRESS'' of Some a \<Rightarrow> Some a
          | None \<Rightarrow> env ''RICKYDATA_KFDB_WALLET_ADDRESS'')\<rparr>))"

definition METADATA_TOKEN_URL :: str where
  "METADATA_TOKEN_URL = ''http://metadata.google.internal/computeMetadata/v1/instance/service-accounts/default/token''"

definition gcs_auth_from_env :: "env \<Rightarrow> gcs_auth" where
  "gcs_auth_from_env env = (case env ''RICKYDATA_RELAY_GCS_BEARER_TOKEN'' of
     Some token \<Rightarrow> Bearer token
   | None \<Rightarrow> Metadata (case env ''RICKYDATA_RELAY_GCS_METADATA_TOKEN_URL'' of Some url \<Rightarrow> url | None \<Rightarrow> METADATA_TOKEN_URL))"

definition gcs_store_from_env :: "env \<Rightarrow> str \<Rightarrow> gcs_config" where
  "gcs_store_from_env env bucket = (case env ''RICKYDATA_RELAY_GCS_API_BASE_URL'' of
     Some api \<Rightarrow> gcs_with_base_urls bucket api
        (case env ''RICKYDATA_RELAY_GCS_UPLOAD_BASE_URL'' of Some upload \<Rightarrow> upload | None \<Rightarrow> api) (gcs_auth_from_env env)
   | None \<Rightarrow> gcs_new bucket (gcs_auth_from_env env))"

text \<open>What the process serves: the store, with or without the index, behind the gate.\<close>

datatype served_store = ServeFiles str | ServeBucket gcs_config

record relay_process =
  pr_addr :: str
  pr_auth_token :: "str option"
  pr_warned :: bool
  pr_index :: "http_kfdb_index_sink option"
  pr_store :: served_store

text \<open>An empty token counts as none, which leaves the relay open with a warning.\<close>

definition relay_auth_from_env :: "env \<Rightarrow> str option" where
  "relay_auth_from_env env = (case env ''RICKYDATA_RELAY_AUTH_TOKEN'' of
     Some token \<Rightarrow> if token = [] then None else Some token | None \<Rightarrow> None)"

definition relay_main :: "(str \<Rightarrow> str + str) \<Rightarrow> env \<Rightarrow> str + relay_process" where
  "relay_main parse_addr env =
     r_bind (parse_addr (relay_addr_from_env env)) (\<lambda>addr.
     (let auth_token = relay_auth_from_env env;
          store = (case env ''RICKYDATA_RELAY_GCS_BUCKET'' of
             Some bucket \<Rightarrow> ServeBucket (gcs_store_from_env env bucket)
           | None \<Rightarrow> ServeFiles (case env ''RICKYDATA_RELAY_STORE_DIR'' of Some d \<Rightarrow> d | None \<Rightarrow> ''.rickydata-relay''))
      in case env ''RICKYDATA_RELAY_KFDB_URL'' of
           Some kfdb_url \<Rightarrow>
             r_bind (relay_kfdb_private_auth env) (\<lambda>private_auth.
               Inr \<lparr>pr_addr = addr, pr_auth_token = auth_token, pr_warned = (auth_token = None),
                 pr_index = Some (http_kfdb_index_sink_new kfdb_url (env ''RICKYDATA_RELAY_KFDB_BEARER_TOKEN'') private_auth),
                 pr_store = store\<rparr>)
         | None \<Rightarrow> Inr \<lparr>pr_addr = addr, pr_auth_token = auth_token, pr_warned = (auth_token = None),
                 pr_index = None, pr_store = store\<rparr>))"

section \<open>Lemmas\<close>

text \<open>The gate is closed exactly when a token that is not empty is configured, and a relay without one warned.\<close>

lemma relay_gate:
  assumes "relay_main parse_addr env = Inr p"
  shows "pr_auth_token p = Some t \<longleftrightarrow> env ''RICKYDATA_RELAY_AUTH_TOKEN'' = Some t \<and> t \<noteq> []"
    and "pr_warned p \<longleftrightarrow> pr_auth_token p = None"
  using assms
  by (auto simp: relay_main_def Let_def r_bind_Inr_iff relay_auth_from_env_def split: option.splits if_splits)

text \<open>An index needs the keys of the private scope; without them the relay does not start.\<close>

lemma relay_index_keys:
  assumes "relay_main parse_addr env = Inr p" "env ''RICKYDATA_RELAY_KFDB_URL'' \<noteq> None"
  shows "\<exists>a sink. relay_kfdb_private_auth env = Inr a \<and> pr_index p = Some sink \<and> ks_private_auth sink = a"
  using assms
  by (auto simp: relay_main_def Let_def r_bind_Inr_iff http_kfdb_index_sink_new_def split: option.splits)

end
