(* ===== verification/Relay_Bucket.thy ===== *)
theory Relay_Bucket
  imports Relay_Gcs
begin

text \<open>
  What the bucket store promises.  The locale \<open>gcs_service\<close> states the documented behaviour of the
  storage service: objects are created atomically and only where there is none, reading and listing
  change nothing, a listing is a finite chain of pages.  Under it the store meets the contract of
  every relay store.
\<close>

section \<open>The service\<close>

text \<open>A conditional upload changes at most its own name, and only from nothing.\<close>

definition created :: "str \<Rightarrow> bytes \<Rightarrow> (str \<Rightarrow> bytes option) \<Rightarrow> (str \<Rightarrow> bytes option) \<Rightarrow> bool" where
  "created name b c c' \<longleftrightarrow> c' = c \<or> c name = None \<and> c' = c(name \<mapsto> b)"

text \<open>What a bundle adds: nothing is lost or replaced, and what is new are objects of the bundle.\<close>

definition bundle_added :: "lib \<Rightarrow> str \<Rightarrow> canonical_object list \<Rightarrow> (str \<Rightarrow> bytes option) \<Rightarrow> (str \<Rightarrow> bytes option) \<Rightarrow> bool" where
  "bundle_added L repo objs c c' \<longleftrightarrow> (\<forall>n b. c n = Some b \<longrightarrow> c' n = Some b) \<and>
     (\<forall>n b. c n = None \<longrightarrow> c' n = Some b \<longrightarrow>
        (\<exists>obj \<in> set objs. n = gcs_object_name L repo (co_object_id obj) \<and> relay_object_bytes L obj = Inr b))"

lemma bundle_added_refl: "bundle_added L repo objs c c"
  by (simp add: bundle_added_def)

lemma bundle_added_step:
  assumes "created (gcs_object_name L repo (co_object_id obj)) b c c1" "relay_object_bytes L obj = Inr b"
    and "bundle_added L repo objs c1 c2"
  shows "bundle_added L repo (obj # objs) c c2"
  unfolding bundle_added_def
proof (intro conjI allI impI)
  fix n x
  assume "c n = Some x"
  then have "c1 n = Some x" using assms(1) by (auto simp: created_def)
  with assms(3) show "c2 n = Some x" by (simp add: bundle_added_def)
next
  fix n x
  assume n: "c n = None" "c2 n = Some x"
  let ?P = "\<lambda>obj. n = gcs_object_name L repo (co_object_id obj) \<and> relay_object_bytes L obj = Inr x"
  show "\<exists>obj \<in> set (obj # objs). ?P obj"
  proof (cases "c1 n")
    case None
    with assms(3) n show ?thesis by (auto simp: bundle_added_def)
  next
    case (Some y)
    with assms(3) n have "y = x" by (auto simp: bundle_added_def)
    with Some n assms(1,2) show ?thesis by (auto simp: created_def split: if_splits)
  qed
qed

lemma bundle_added_skip: "bundle_added L repo objs c c' \<Longrightarrow> bundle_added L repo (obj # objs) c c'"
  unfolding bundle_added_def set_simps by (elim conjE, intro conjI) (assumption, blast)

text \<open>
  What a push leaves in the bucket: what was there stays, and a name that was free has the bytes of the
  first object of the bundle with that name.
\<close>

definition bucket_after :: "lib \<Rightarrow> str \<Rightarrow> canonical_object list \<Rightarrow> (str \<Rightarrow> bytes option) \<Rightarrow> str \<Rightarrow> bytes option" where
  "bucket_after L repo objs c n = (case c n of Some b \<Rightarrow> Some b
   | None \<Rightarrow> (case find (\<lambda>obj. gcs_object_name L repo (co_object_id obj) = n) objs of None \<Rightarrow> None
       | Some obj \<Rightarrow> (case relay_object_bytes L obj of Inr b \<Rightarrow> Some b | Inl e \<Rightarrow> None)))"

definition free_names :: "lib \<Rightarrow> str \<Rightarrow> canonical_object list \<Rightarrow> (str \<Rightarrow> bytes option) \<Rightarrow> str set" where
  "free_names L repo objs c = {n \<in> (\<lambda>obj. gcs_object_name L repo (co_object_id obj)) ` set objs. c n = None}"

lemma bucket_after_Nil [simp]: "bucket_after L repo [] c = c"
  by (rule ext) (simp add: bucket_after_def split: option.split)

lemma bucket_after_Cons:
  assumes "n = gcs_object_name L repo (co_object_id obj)"
  shows "c n \<noteq> None \<Longrightarrow> bucket_after L repo (obj # objs) c = bucket_after L repo objs c"
    and "c n = None \<Longrightarrow> relay_object_bytes L obj = Inr b \<Longrightarrow>
      bucket_after L repo (obj # objs) c = bucket_after L repo objs (c(n \<mapsto> b))"
  using assms by (auto simp: bucket_after_def fun_eq_iff split: option.splits)

lemma free_names_Cons:
  assumes "n = gcs_object_name L repo (co_object_id obj)"
  shows "c n \<noteq> None \<Longrightarrow> free_names L repo (obj # objs) c = free_names L repo objs c"
    and "c n = None \<Longrightarrow> card (free_names L repo (obj # objs) c) = Suc (card (free_names L repo objs (c(n \<mapsto> b))))"
proof -
  show "c n \<noteq> None \<Longrightarrow> free_names L repo (obj # objs) c = free_names L repo objs c"
    using assms by (auto simp: free_names_def)
  assume "c n = None"
  then have "free_names L repo (obj # objs) c = insert n (free_names L repo objs (c(n \<mapsto> b)))"
    using assms by (auto simp: free_names_def)
  moreover have "n \<notin> free_names L repo objs (c(n \<mapsto> b))" "finite (free_names L repo objs (c(n \<mapsto> b)))"
    by (simp_all add: free_names_def)
  ultimately show "card (free_names L repo (obj # objs) c) = Suc (card (free_names L repo objs (c(n \<mapsto> b))))" by simp
qed

text \<open>Whether an outcome is tried again, and a client all of whose requests are answered the first time.\<close>

definition retriable :: "str + http_reply \<Rightarrow> bool" where
  "retriable out = (case out of Inl e \<Rightarrow> True | Inr r \<Rightarrow> is_server_error r)"

definition replies_arrive :: "'h http_client \<Rightarrow> bool" where
  "replies_arrive cl \<longleftrightarrow> (\<forall>q h. \<not> retriable (fst (ht_send cl q h)))"

text \<open>
  What the answer to an upload says, as documented for uploads with \<^verbatim>\<open>ifGenerationMatch=0\<close>: success when this
  upload made the object, a conflict when there was one.
\<close>

definition upload_answers :: "'h http_client \<Rightarrow> gcs_config \<Rightarrow> ('h \<Rightarrow> str \<Rightarrow> bytes option) \<Rightarrow> bool" where
  "upload_answers cl cfg contents \<longleftrightarrow> (\<forall>url name b t h r h'. gcs_upload_url cl cfg = Inr url \<longrightarrow>
     ht_send cl ((upload_call url name b)\<lparr>gq_bearer := t\<rparr>) h = (Inr r, h') \<longrightarrow>
     (is_success r \<longrightarrow> contents h name = None) \<and>
     (gr_status r = PRECONDITION_FAILED \<or> gr_status r = CONFLICT \<longrightarrow> contents h name \<noteq> None))"

text \<open>
  The counts of a report: every object counts once; the objects put under free names are accepted and the
  others duplicates, except that an object whose upload took effect but lost its reply is a duplicate when
  it is sent again.
\<close>

definition counted :: "bool \<Rightarrow> bool \<Rightarrow> canonical_object list \<Rightarrow> str set \<Rightarrow> bundle_push_report \<Rightarrow> bool" where
  "counted answers prompt objs free rep \<longleftrightarrow> (\<exists>k \<le> length objs. (answers \<longrightarrow> k \<le> card free \<and> (prompt \<longrightarrow> k = card free)) \<and>
     bp_accepted_object_count rep = of_nat k \<and> bp_duplicate_object_count rep = of_nat (length objs - k))"

lemma gcs_names_differ [simp]:
  "gcs_object_name L repo i \<noteq> gcs_idempotency_name L repo k"
  "gcs_idempotency_name L repo k \<noteq> gcs_object_name L repo i"
proof -
  show "gcs_object_name L repo i \<noteq> gcs_idempotency_name L repo k"
  proof
    assume "gcs_object_name L repo i = gcs_idempotency_name L repo k"
    then have "''/objects/'' @ key_hash L i @ ''.json'' = ''/idempotency/'' @ key_hash L k @ ''.json''"
      unfolding gcs_object_name_def gcs_idempotency_name_def objects_prefix_def append_assoc same_append_eq .
    then have "(''/objects/'' @ key_hash L i @ ''.json'') ! 1 = (''/idempotency/'' @ key_hash L k @ ''.json'') ! 1"
      by (rule arg_cong)
    then show False by simp
  qed
  then show "gcs_idempotency_name L repo k \<noteq> gcs_object_name L repo i" by (rule not_sym)
qed

text \<open>
  \<open>contents\<close> is what the bucket holds, \<open>coming\<close> the names of a listing from a page on, \<open>pages\<close> how many
  pages are left.  The law \<open>uploading\<close> allows a write whose reply is lost: it happened or it did not.
\<close>

locale gcs_service =
  fixes L :: lib and cl :: "'h http_client" and cfg :: gcs_config
    and contents :: "'h \<Rightarrow> str \<Rightarrow> bytes option"
    and coming :: "(str \<Rightarrow> bytes option) \<Rightarrow> str \<Rightarrow> str option \<Rightarrow> str list"
    and pages :: "(str \<Rightarrow> bytes option) \<Rightarrow> str \<Rightarrow> str option \<Rightarrow> nat"
  assumes sleeping: "contents (ht_sleep cl n h) = contents h"
    and reading: "gq_method q = Get \<Longrightarrow> ht_send cl q h = (out, h') \<Longrightarrow> contents h' = contents h"
    and media: "ht_send cl ((media_call cl cfg name)\<lparr>gq_bearer := t\<rparr>) h = (Inr r, h') \<Longrightarrow> \<not> is_error r \<Longrightarrow>
      gr_body r = Inr b \<Longrightarrow> contents h name = Some b"
    and uploading: "gcs_upload_url cl cfg = Inr url \<Longrightarrow>
      ht_send cl ((upload_call url name b)\<lparr>gq_bearer := t\<rparr>) h = (out, h') \<Longrightarrow>
      contents h' = contents h \<or> contents h name = None \<and> contents h' = (contents h)(name \<mapsto> b)"
    and uploaded: "gcs_upload_url cl cfg = Inr url \<Longrightarrow>
      ht_send cl ((upload_call url name b)\<lparr>gq_bearer := t\<rparr>) h = (Inr r, h') \<Longrightarrow>
      is_success r \<or> gr_status r = PRECONDITION_FAILED \<or> gr_status r = CONFLICT \<Longrightarrow> contents h' name \<noteq> None"
    and listing: "gcs_list_url cl cfg = Inr url \<Longrightarrow>
      ht_send cl ((list_call url pfx page)\<lparr>gq_bearer := t\<rparr>) h = (Inr r, h') \<Longrightarrow> \<not> is_error r \<Longrightarrow>
      gr_body r = Inr body \<Longrightarrow> from_slice L body = Inr v \<Longrightarrow>
      coming (contents h) pfx page = page_names v @
        (case next_page v of None \<Rightarrow> [] | Some p \<Rightarrow> coming (contents h) pfx (Some p)) \<and>
      (\<forall>p. next_page v = Some p \<longrightarrow> pages (contents h) pfx (Some p) < pages (contents h) pfx page)"
    and all_names: "distinct (coming (contents h) pfx None) \<and>
      set (coming (contents h) pfx None) = {n. contents h n \<noteq> None \<and> starts_with n pfx}"
begin

abbreviation held :: "'h gcs \<Rightarrow> str \<Rightarrow> bytes option" where
  "held s \<equiv> contents (gs_host s)"

abbreviation answers :: bool where
  "answers \<equiv> upload_answers cl cfg contents"

text \<open>A relation kept by one exchange is kept by the three attempts.\<close>

lemma retry_path:
  assumes "retry_loop cl q l0 attempts h = (out, h')"
    and "\<And>h out h'. ht_send cl q h = (out, h') \<Longrightarrow> P (contents h) (contents h')"
    and "reflp P" "transp P"
  shows "P (contents h) (contents h') \<and>
    (\<forall>r. out = Inr r \<longrightarrow> (\<exists>h0. P (contents h) (contents h0) \<and> ht_send cl q h0 = (Inr r, h')))"
  using assms(1)
proof (induction attempts arbitrary: l0 h)
  case Nil
  then show ?case using assms(3) by (auto simp: reflpD)
next
  case (Cons a as)
  obtain o1 h1 where send: "ht_send cl q h = (o1, h1)" by (rule prod.exhaust)
  have step: "P (contents h) (contents h1)" by (rule assms(2) [OF send])
  have again: ?case if "retry_loop cl q l as (ht_sleep cl n h1) = (out, h')" for l n
  proof -
    note Cons.IH [OF that, unfolded sleeping]
    with step transpD [OF assms(4)] show ?thesis by blast
  qed
  show ?case
  proof (cases o1)
    case (Inl e)
    show ?thesis
    proof (cases "a < 2")
      case True
      with Cons.prems send Inl
      have "retry_loop cl q (Some e) as (ht_sleep cl (150 * (a + 1)) h1) = (out, h')" by simp
      then show ?thesis by (rule again)
    next
      case False
      with Cons.prems send Inl step show ?thesis by auto
    qed
  next
    case (Inr r)
    show ?thesis
    proof (cases "is_server_error r \<and> a < 2")
      case True
      with Cons.prems send Inr
      have "retry_loop cl q (Some (''GCS returned '' @ ht_status_text cl (gr_status r))) as
        (ht_sleep cl (150 * (a + 1)) h1) = (out, h')" by simp
      then show ?thesis by (rule again)
    next
      case False
      with Cons.prems send Inr have "out = Inr r" "h' = h1" by (auto split: if_splits)
      with send Inr step reflpD [OF assms(3)] show ?thesis by auto
    qed
  qed
qed

lemma get_retry:
  assumes "send_with_retry cl q s = (out, s')" "gq_method q = Get"
  shows "held s' = held s" and "out = Inr r \<Longrightarrow> \<exists>h h'. contents h = held s \<and> ht_send cl q h = (Inr r, h')"
proof -
  from assms(1) obtain h' where run: "retry_loop cl q None [0, 1, 2] (gs_host s) = (out, h')" and s': "s' = s\<lparr>gs_host := h'\<rparr>"
    by (auto simp: send_with_retry_def split: prod.splits)
  have "(held s) = contents h' \<and> (\<forall>r. out = Inr r \<longrightarrow> (\<exists>h0. (held s) = contents h0 \<and> ht_send cl q h0 = (Inr r, h')))"
    by (rule retry_path [OF run, where P = "(=)"]) (auto simp: reading [OF assms(2)])
  with s' show "held s' = held s" "out = Inr r \<Longrightarrow> \<exists>h h'. contents h = held s \<and> ht_send cl q h = (Inr r, h')"
    by force+
qed

lemma keeps_get: "gq_method q = Get \<Longrightarrow> keeps (\<lambda>s. held s = c) (send_with_retry cl q)"
  by (rule keepsI) (simp add: get_retry)

lemma keeps_fetch: "keeps (\<lambda>s. held s = c) (fetch_candidates L cl errors us)"
proof (induction us arbitrary: errors)
  case (Cons u us)
  show ?case
  proof (rule keepsI)
    fix s r s' assume c: "held s = c" and run: "fetch_candidates L cl errors (u # us) s = (r, s')"
    let ?q = "(bare_get u [])\<lparr>gq_headers := [(''Metadata-Flavor'', ''Google'')]\<rparr>"
    obtain r1 s1 where send: "send_with_retry cl ?q s = (r1, s1)" by (rule prod.exhaust)
    have h1: "held s1 = c" using get_retry(1) [OF send] c by (simp add: bare_get_def)
    show "held s' = c"
    proof (cases r1)
      case (Inl e)
      with run send have "fetch_candidates L cl (errors @ [relay_error_text e]) us s1 = (r, s')" by simp
      with Cons.IH h1 show ?thesis by (blast dest: keepsD)
    next
      case (Inr x)
      with run send h1 show ?thesis by auto
    qed
  qed
qed simp

lemma keeps_auth: "keeps (\<lambda>s. held s = c) (auth_token L cl cfg)"
proof (cases "gc_auth cfg")
  case (Metadata url)
  have rem: "keeps (\<lambda>s. held s = c) (remember_token cl t n)" for t n
    by (rule keepsI) (auto simp: remember_token_def)
  have f: "keeps (\<lambda>s. held s = c) (e_bind (fetch_metadata_token L cl url) (\<lambda>v.
           e_bind (e_lift (ok_or (RelayIo ''GCS metadata token response missing access_token'')
                     (Option.bind (json_get v ''access_token'') as_str))) (\<lambda>token.
             remember_token cl token (token_lifetime v))))"
    unfolding fetch_metadata_token_def by (intro keeps_bind keeps_fetch rem keeps_basic)
  show ?thesis
  proof (rule keepsI)
    fix s r s' assume c: "held s = c" and run: "auth_token L cl cfg s = (r, s')"
    show "held s' = c"
    proof (cases "cached_token cl s")
      case None
      with run Metadata show ?thesis by (auto simp: auth_token_def intro: keepsD [OF f _ c])
    next
      case (Some t)
      with run Metadata c show ?thesis by (simp add: auth_token_def)
    qed
  qed
qed (simp_all add: auth_token_def)

lemma send_get:
  assumes "send_authorized L cl cfg q s = (out, s')" "gq_method q = Get"
  shows "held s' = held s"
    and "out = Inr r \<Longrightarrow> \<exists>t h h'. contents h = held s \<and> ht_send cl (q\<lparr>gq_bearer := t\<rparr>) h = (Inr r, h')"
proof -
  have "held s' = held s \<and> (\<forall>r. out = Inr r \<longrightarrow>
    (\<exists>t h h'. contents h = held s \<and> ht_send cl (q\<lparr>gq_bearer := t\<rparr>) h = (Inr r, h')))"
    using assms(1) unfolding send_authorized_def
  proof (cases rule: e_bind_cases)
    case (err e)
    with keepsD [OF keeps_auth err(1) refl] show ?thesis by simp
  next
    case (ok t s1)
    have "held s1 = held s" by (rule keepsD [OF keeps_auth ok(1) refl])
    with get_retry [OF ok(2)] assms(2) show ?thesis by (simp, metis)
  qed
  then show "held s' = held s"
    "out = Inr r \<Longrightarrow> \<exists>t h h'. contents h = held s \<and> ht_send cl (q\<lparr>gq_bearer := t\<rparr>) h = (Inr r, h')" by blast+
qed

section \<open>Objects and pages\<close>

lemma get_bytes_held:
  assumes "get_bytes L cl cfg name s = (out, s')"
  shows "held s' = held s" and "out = Inr b \<Longrightarrow> held s name = Some b"
proof -
  have "held s' = held s \<and> (\<forall>b. out = Inr b \<longrightarrow> held s name = Some b)"
    using assms unfolding get_bytes_def
  proof (cases rule: e_bind_cases)
    case (err e)
    then show ?thesis using send_get(1) [OF err(1)] by (simp add: media_call_def bare_get_def)
  next
    case (ok r s1)
    have m: "gq_method (media_call cl cfg name) = Get" by (simp add: media_call_def bare_get_def)
    obtain t h h' where h: "contents h = held s" "ht_send cl ((media_call cl cfg name)\<lparr>gq_bearer := t\<rparr>) h = (Inr r, h')"
      using send_get(2) [OF ok(1) m refl] by blast
    have "out = Inr b \<Longrightarrow> \<not> is_error r \<and> gr_body r = Inr b" for b
      using ok(2) by (auto simp: error_for_status_def reply_bytes_def r_bind_Inr_iff split: if_splits)
    moreover have "s' = s1" using ok(2) by (auto split: if_splits)
    ultimately show ?thesis using media [OF h(2)] h(1) send_get(1) [OF ok(1) m] by simp
  qed
  then show "held s' = held s" "out = Inr b \<Longrightarrow> held s name = Some b" by blast+
qed

lemma read_json_held:
  assumes "read_json_object L cl cfg d name s = (out, s')"
  shows "held s' = held s" and "out = Inr x \<Longrightarrow> \<exists>b. held s name = Some b \<and> parse_as L d b = Inr x"
proof -
  have "held s' = held s \<and> (\<forall>x. out = Inr x \<longrightarrow> (\<exists>b. held s name = Some b \<and> parse_as L d b = Inr x))"
    using assms unfolding read_json_object_def
  proof (cases rule: e_bind_cases)
    case (err e)
    with get_bytes_held(1) [OF err(1)] show ?thesis by simp
  next
    case (ok b s1)
    with get_bytes_held [OF ok(1)] show ?thesis by auto
  qed
  then show "held s' = held s" "out = Inr x \<Longrightarrow> \<exists>b. held s name = Some b \<and> parse_as L d b = Inr x" by blast+
qed

lemma put_held:
  assumes "put_bytes_if_absent L cl cfg name b s = (out, s')"
  shows "created name b (held s) (held s')" and "out = Inr x \<Longrightarrow> held s' name \<noteq> None"
    and "out = Inr Written \<Longrightarrow> answers \<Longrightarrow> held s name = None"
    and "out = Inr AlreadyExists \<Longrightarrow> answers \<Longrightarrow> replies_arrive cl \<Longrightarrow> held s name \<noteq> None"
proof -
  have "created name b (held s) (held s') \<and> (\<forall>x. out = Inr x \<longrightarrow> held s' name \<noteq> None) \<and>
    (out = Inr Written \<longrightarrow> answers \<longrightarrow> held s name = None) \<and>
    (out = Inr AlreadyExists \<longrightarrow> answers \<longrightarrow> replies_arrive cl \<longrightarrow> held s name \<noteq> None)"
  proof (cases "gcs_upload_url cl cfg")
    case (Inl e)
    with assms show ?thesis by (auto simp: put_bytes_if_absent_def eff_simps created_def)
  next
    case (Inr url)
    note u = this
    have run: "e_bind (send_authorized L cl cfg (upload_call url name b)) (\<lambda>r.
       if is_success r then e_ret Written
       else if gr_status r = PRECONDITION_FAILED \<or> gr_status r = CONFLICT then e_ret AlreadyExists
       else e_fail (RelayIo (''GCS write for `'' @ name @ ''` returned '' @ ht_status_text cl (gr_status r)))) s = (out, s')"
      using assms u by (simp add: put_bytes_if_absent_def e_bind_def)
    have sent: "created name b (held s0) (held s1) \<and>
        (\<forall>r. o1 = Inr r \<longrightarrow> (is_success r \<longrightarrow> (answers \<longrightarrow> held s0 name = None) \<and> held s1 name \<noteq> None) \<and>
           (gr_status r = PRECONDITION_FAILED \<or> gr_status r = CONFLICT \<longrightarrow> held s1 name \<noteq> None \<and>
              (answers \<longrightarrow> replies_arrive cl \<longrightarrow> held s0 name \<noteq> None)))"
      if w: "send_with_retry cl ((upload_call url name b)\<lparr>gq_bearer := t\<rparr>) s0 = (o1, s1)" for t s0 o1 s1
    proof -
      let ?q = "(upload_call url name b)\<lparr>gq_bearer := t\<rparr>"
      from w obtain h' where l: "retry_loop cl ?q None [0, 1, 2] (gs_host s0) = (o1, h')"
        and s1: "s1 = s0\<lparr>gs_host := h'\<rparr>"
        by (auto simp: send_with_retry_def split: prod.splits)
      have path: "created name b (held s0) (contents h') \<and> (\<forall>r. o1 = Inr r \<longrightarrow> (\<exists>h0. created name b (held s0) (contents h0) \<and>
          ht_send cl ?q h0 = (Inr r, h')))"
        by (rule retry_path [OF l])
           (auto simp: created_def reflp_def transp_def dest: uploading [OF u])
      have "(is_success r \<longrightarrow> (answers \<longrightarrow> held s0 name = None) \<and> held s1 name \<noteq> None) \<and>
          (gr_status r = PRECONDITION_FAILED \<or> gr_status r = CONFLICT \<longrightarrow> held s1 name \<noteq> None \<and>
             (answers \<longrightarrow> replies_arrive cl \<longrightarrow> held s0 name \<noteq> None))" if r: "o1 = Inr r" for r
      proof -
        obtain h0 where h0: "created name b (held s0) (contents h0)" "ht_send cl ?q h0 = (Inr r, h')" using path r by blast
        have "ht_send cl ?q (gs_host s0) = (Inr r, h')" if "replies_arrive cl"
        proof -
          have "\<not> retriable (fst (ht_send cl ?q (gs_host s0)))" using that by (simp add: replies_arrive_def)
          then show ?thesis using l r by (auto simp: retriable_def split: prod.splits sum.splits if_splits)
        qed
        then have "answers \<Longrightarrow> replies_arrive cl \<Longrightarrow> gr_status r = PRECONDITION_FAILED \<or> gr_status r = CONFLICT \<Longrightarrow> held s0 name \<noteq> None"
          using u unfolding upload_answers_def by blast
        moreover have "held s0 name = None" if a: answers "is_success r"
        proof -
          have "contents h0 name = None" using a u h0(2) unfolding upload_answers_def by blast
          then show "held s0 name = None" using h0(1) by (auto simp: created_def split: if_splits)
        qed
        moreover have "gr_status r = PRECONDITION_FAILED \<or> gr_status r = CONFLICT \<or> is_success r \<Longrightarrow> held s1 name \<noteq> None"
          using uploaded [OF u h0(2)] s1 by auto
        ultimately show ?thesis by blast
      qed
      with path s1 show ?thesis by simp
    qed
    from run show ?thesis
    proof (cases rule: e_bind_cases)
      case (err e)
      from err(1) have "created name b (held s) (held s')"
        unfolding send_authorized_def
      proof (cases rule: e_bind_cases)
        case (err e)
        with keepsD [OF keeps_auth err(1) refl] show ?thesis by (simp add: created_def)
      next
        case (ok t s1)
        with keepsD [OF keeps_auth ok(1) refl] sent [OF ok(2)] show ?thesis by simp
      qed
      with err show ?thesis by simp
    next
      case (ok r s1)
      from ok(1) obtain t s2 where a: "auth_token L cl cfg s = (Inr t, s2)"
        and w: "send_with_retry cl ((upload_call url name b)\<lparr>gq_bearer := t\<rparr>) s2 = (Inr r, s1)"
        unfolding send_authorized_def by (rule e_bind_Inr)
      have "s' = s1" using ok(2) by (auto split: if_splits)
      with sent [OF w] keepsD [OF keeps_auth a refl] ok(2) show ?thesis by (auto split: if_splits)
    qed
  qed
  then show "created name b (held s) (held s')" "out = Inr x \<Longrightarrow> held s' name \<noteq> None" "out = Inr Written \<Longrightarrow> answers \<Longrightarrow> held s name = None"
    "out = Inr AlreadyExists \<Longrightarrow> answers \<Longrightarrow> replies_arrive cl \<Longrightarrow> held s name \<noteq> None" by blast+
qed

lemma list_page_held:
  assumes "list_page L cl cfg pfx page s = (out, s')"
  shows "held s' = held s"
    and "out = Inr v \<Longrightarrow> coming (held s) pfx page = page_names v @
        (case next_page v of None \<Rightarrow> [] | Some p \<Rightarrow> coming (held s) pfx (Some p))"
    and "out = Inr v \<Longrightarrow> next_page v = Some p \<Longrightarrow> pages (held s) pfx (Some p) < pages (held s) pfx page"
proof -
  have "held s' = held s \<and> (\<forall>v. out = Inr v \<longrightarrow> coming (held s) pfx page = page_names v @
        (case next_page v of None \<Rightarrow> [] | Some p \<Rightarrow> coming (held s) pfx (Some p)) \<and>
      (\<forall>p. next_page v = Some p \<longrightarrow> pages (held s) pfx (Some p) < pages (held s) pfx page))"
  proof (cases "gcs_list_url cl cfg")
    case (Inl e)
    with assms show ?thesis by (auto simp: list_page_def eff_simps)
  next
    case (Inr url)
    note u = this
    have m: "gq_method (list_call url pfx page) = Get" by (simp add: list_call_def bare_get_def)
    have run: "e_bind (send_authorized L cl cfg (list_call url pfx page))
        (\<lambda>r. e_lift (r_bind (error_for_status cl r) (reply_json L cl))) s = (out, s')"
      using assms u by (simp add: list_page_def e_bind_def)
    then show ?thesis
    proof (cases rule: e_bind_cases)
      case (err e)
      then show ?thesis using send_get(1) [OF err(1) m] by simp
    next
      case (ok r s1)
      obtain t h h' where h: "contents h = held s" "ht_send cl ((list_call url pfx page)\<lparr>gq_bearer := t\<rparr>) h = (Inr r, h')"
        using send_get(2) [OF ok(1) m refl] by blast
      have "out = Inr v \<Longrightarrow> \<exists>b. \<not> is_error r \<and> gr_body r = Inr b \<and> from_slice L b = Inr v" for v
        using ok(2) by (auto simp: error_for_status_def reply_json_def reply_bytes_def r_bind_Inr_iff split: if_splits)
      moreover have "s' = s1" using ok(2) by simp
      ultimately show ?thesis
        using listing [OF u h(2), unfolded h(1)] send_get(1) [OF ok(1) m] by metis
    qed
  qed
  note all = this
  show "held s' = held s" by (rule conjunct1 [OF all])
  show "out = Inr v \<Longrightarrow> coming (held s) pfx page = page_names v @
        (case next_page v of None \<Rightarrow> [] | Some p \<Rightarrow> coming (held s) pfx (Some p))"
    by (rule conjunct1 [OF mp [OF spec [OF conjunct2 [OF all]]]])
  show "out = Inr v \<Longrightarrow> next_page v = Some p \<Longrightarrow> pages (held s) pfx (Some p) < pages (held s) pfx page"
    by (rule mp [OF spec [OF conjunct2 [OF mp [OF spec [OF conjunct2 [OF all]]]]]])
qed

text \<open>The loop returns, and what it returns is what was to come.\<close>

lemma list_loop_returns:
  "\<exists>out s'. list_loop L cl cfg pfx names page s = Some (out, s') \<and> held s' = held s \<and>
     (\<forall>ns. out = Inr ns \<longrightarrow> ns = names @ coming (held s) pfx page)"
proof (induction "pages (held s) pfx page" arbitrary: names page s rule: less_induct)
  case less
  obtain o1 s1 where pg: "list_page L cl cfg pfx page s = (o1, s1)" by (rule prod.exhaust)
  note facts = list_page_held [OF pg]
  show ?case
  proof (cases o1)
    case (Inl e)
    with pg facts(1) show ?thesis by (subst list_loop.simps) simp
  next
    case (Inr v)
    show ?thesis
    proof (cases "next_page v")
      case None
      with pg Inr facts show ?thesis by (subst list_loop.simps) simp
    next
      case (Some p)
      have "\<exists>out s'. list_loop L cl cfg pfx (names @ page_names v) (Some p) s1 = Some (out, s') \<and> held s' = held s1 \<and>
          (\<forall>ns. out = Inr ns \<longrightarrow> ns = (names @ page_names v) @ coming (held s1) pfx (Some p))"
        using less.hyps [of s1 "Some p" "names @ page_names v"] facts(1,3) Inr Some by simp
      with pg Inr Some facts(1,2) show ?thesis by (subst list_loop.simps) simp
    qed
  qed
qed

lemma list_names_held:
  assumes "list_names L cl cfg pfx s = (out, s')"
  shows "held s' = held s"
    and "out = Inr ns \<Longrightarrow> distinct ns \<and> set ns = {n. held s n \<noteq> None \<and> starts_with n pfx}"
proof -
  obtain o1 s1 where l: "list_loop L cl cfg pfx [] None s = Some (o1, s1)" "held s1 = held s"
    "\<forall>ns. o1 = Inr ns \<longrightarrow> ns = coming (held s) pfx None"
    using list_loop_returns [of pfx "[]" None s] by auto
  with assms have "out = o1" "s' = s1" by (simp_all add: list_names_def)
  with l(2,3) all_names show "held s' = held s"
    "out = Inr ns \<Longrightarrow> distinct ns \<and> set ns = {n. held s n \<noteq> None \<and> starts_with n pfx}" by auto
qed

section \<open>Pushing\<close>

lemma put_object_held:
  assumes "gcs_put_object L cl cfg repo existing obj acc s = (out, s')"
    and "\<forall>n \<in> set existing. held s n \<noteq> None" and n: "n = gcs_object_name L repo (co_object_id obj)"
  shows "\<exists>b. held s' = held s \<or> relay_object_bytes L obj = Inr b \<and> created n b (held s) (held s')"
    and "out = Inr acc' \<Longrightarrow> held s' n \<noteq> None \<and>
      ((answers \<longrightarrow> held s n = None) \<and> acc' = (fst acc + 1, snd acc) \<or>
       (answers \<longrightarrow> replies_arrive cl \<longrightarrow> held s n \<noteq> None) \<and> acc' = (fst acc, snd acc + 1))"
proof -
  obtain a d where acc: "acc = (a, d)" by (rule prod.exhaust)
  have "(\<exists>b. held s' = held s \<or> relay_object_bytes L obj = Inr b \<and> created n b (held s) (held s')) \<and>
    (\<forall>acc'. out = Inr acc' \<longrightarrow> held s' n \<noteq> None \<and>
      ((answers \<longrightarrow> held s n = None) \<and> acc' = (fst acc + 1, snd acc) \<or>
       (answers \<longrightarrow> replies_arrive cl \<longrightarrow> held s n \<noteq> None) \<and> acc' = (fst acc, snd acc + 1)))"
  proof (cases "n \<in> set existing")
    case True
    with assms acc show ?thesis by (auto simp: gcs_put_object_def Let_def)
  next
    case False
    show ?thesis
    proof (cases "relay_object_bytes L obj")
      case (Inl e)
      with assms(1) False acc n show ?thesis by (auto simp: gcs_put_object_def Let_def eff_simps)
    next
      case (Inr b)
      obtain o1 s1 where p: "put_bytes_if_absent L cl cfg n b s = (o1, s1)" by (rule prod.exhaust)
      with assms(1) False acc Inr n have s1: "s' = s1" and
        out: "out = (case o1 of Inl e \<Rightarrow> Inl e | Inr res \<Rightarrow> Inr (case res of Written \<Rightarrow> (a + 1, d) | AlreadyExists \<Rightarrow> (a, d + 1)))"
        by (auto simp: gcs_put_object_def Let_def eff_simps split: sum.splits)
      note put = put_held [OF p]
      have "held s' n \<noteq> None \<and> ((answers \<longrightarrow> held s n = None) \<and> acc' = (a + 1, d) \<or>
          (answers \<longrightarrow> replies_arrive cl \<longrightarrow> held s n \<noteq> None) \<and> acc' = (a, d + 1))"
        if ok: "out = Inr acc'" for acc'
      proof -
        from ok out obtain res where res: "o1 = Inr res" by (cases o1) auto
        then show ?thesis using put(2) [OF res] put(3,4) ok out s1 by (cases res) auto
      qed
      then show ?thesis using put(1) Inr acc s1 by auto
    qed
  qed
  then show "\<exists>b. held s' = held s \<or> relay_object_bytes L obj = Inr b \<and> created n b (held s) (held s')"
    "out = Inr acc' \<Longrightarrow> held s' n \<noteq> None \<and>
      ((answers \<longrightarrow> held s n = None) \<and> acc' = (fst acc + 1, snd acc) \<or>
       (answers \<longrightarrow> replies_arrive cl \<longrightarrow> held s n \<noteq> None) \<and> acc' = (fst acc, snd acc + 1))" by blast+
qed

lemma put_object_grows:
  assumes "gcs_put_object L cl cfg repo existing obj acc s = (out, s')" "\<forall>n \<in> set existing. held s n \<noteq> None"
  shows "bundle_added L repo [obj] (held s) (held s')" "bundle_added L repo objs (held s') c \<Longrightarrow> bundle_added L repo (obj # objs) (held s) c"
  using put_object_held(1) [OF assms refl] bundle_added_refl
  by (auto intro: bundle_added_step bundle_added_skip)

text \<open>A push that goes through determines the bucket, and the counts up to replies that are lost.\<close>

lemma put_all_added:
  assumes "e_fold (gcs_put_object L cl cfg repo existing) objs acc s = (out, s')" "\<forall>n \<in> set existing. held s n \<noteq> None"
  shows "bundle_added L repo objs (held s) (held s')"
  using assms
proof (induction objs arbitrary: acc s)
  case (Cons obj objs)
  from Cons.prems(1) have run: "e_bind (gcs_put_object L cl cfg repo existing obj acc) (e_fold (gcs_put_object L cl cfg repo existing) objs) s = (out, s')"
    by simp
  from run show ?case
  proof (cases rule: e_bind_cases)
    case (err e)
    show ?thesis by (rule put_object_grows(2) [OF err(1) Cons.prems(2) bundle_added_refl])
  next
    case (ok acc1 s1)
    have "\<forall>n \<in> set existing. held s1 n \<noteq> None"
      using put_object_grows(1) [OF ok(1) Cons.prems(2)] Cons.prems(2) unfolding bundle_added_def by blast
    from Cons.IH [OF ok(2) this] show ?thesis by (rule put_object_grows(2) [OF ok(1) Cons.prems(2)])
  qed
qed (simp add: bundle_added_refl)

lemma put_all_exact:
  assumes "e_fold (gcs_put_object L cl cfg repo existing) objs acc s = (Inr acc', s')" "\<forall>n \<in> set existing. held s n \<noteq> None"
  shows "held s' = bucket_after L repo objs (held s) \<and> (\<forall>obj \<in> set objs. held s' (gcs_object_name L repo (co_object_id obj)) \<noteq> None) \<and>
    (\<exists>k \<le> length objs. (answers \<longrightarrow> k \<le> card (free_names L repo objs (held s)) \<and>
         (replies_arrive cl \<longrightarrow> k = card (free_names L repo objs (held s)))) \<and>
       acc' = (fst acc + of_nat k, snd acc + of_nat (length objs - k)))"
  using assms
proof (induction objs arbitrary: acc s)
  case Nil
  then show ?case by (simp add: e_ret_def free_names_def)
next
  case (Cons obj objs)
  let ?n = "gcs_object_name L repo (co_object_id obj)" and ?free = "\<lambda>objs c. card (free_names L repo objs c)"
  from Cons.prems(1) obtain acc1 s1 where step: "gcs_put_object L cl cfg repo existing obj acc s = (Inr acc1, s1)"
    and rest: "e_fold (gcs_put_object L cl cfg repo existing) objs acc1 s1 = (Inr acc', s')" by (auto elim: e_bind_Inr)
  have ex: "\<forall>n \<in> set existing. held s1 n \<noteq> None"
    using put_object_grows(1) [OF step Cons.prems(2)] Cons.prems(2) unfolding bundle_added_def by blast
  from Cons.IH [OF rest ex] obtain k where IH: "held s' = bucket_after L repo objs (held s1)"
    "\<forall>obj \<in> set objs. held s' (gcs_object_name L repo (co_object_id obj)) \<noteq> None"
    "k \<le> length objs" "answers \<longrightarrow> k \<le> ?free objs (held s1) \<and> (replies_arrive cl \<longrightarrow> k = ?free objs (held s1))"
    "acc' = (fst acc1 + of_nat k, snd acc1 + of_nat (length objs - k))" by blast
  note one = put_object_held [OF step Cons.prems(2) refl]
  have here: "held s' ?n \<noteq> None" using one(2) [OF refl] unfolding IH(1) by (auto simp: bucket_after_def)
  show ?case
  proof (cases "held s ?n")
    case (Some x)
    then have s1: "held s1 = held s" using one(1) by (auto simp: created_def)
    have same: "?free (obj # objs) (held s) = ?free objs (held s1)" "bucket_after L repo (obj # objs) (held s) = bucket_after L repo objs (held s1)"
      using Some unfolding s1 by (simp_all add: bucket_after_Cons free_names_Cons)
    consider "acc1 = (fst acc + 1, snd acc)" "\<not> answers" | "acc1 = (fst acc, snd acc + 1)"
      using one(2) [OF refl] Some by auto
    then show ?thesis
    proof cases
      case 1
      then show ?thesis using IH here same by (intro conjI exI [of _ "Suc k"]) (auto simp: algebra_simps)
    next
      case 2
      then show ?thesis using IH here same by (intro conjI exI [of _ k]) (auto simp: Suc_diff_le algebra_simps)
    qed
  next
    case None
    then obtain b where b: "relay_object_bytes L obj = Inr b" "held s1 = (held s)(?n \<mapsto> b)"
      using one by (auto simp: created_def)
    have after: "held s' = bucket_after L repo (obj # objs) (held s)"
      unfolding IH(1) b(2) by (rule sym, rule bucket_after_Cons(2)) (rule refl None b(1))+
    have free: "?free (obj # objs) (held s) = Suc (?free objs (held s1))"
      unfolding b(2) by (rule free_names_Cons(2)) (rule refl None)+
    consider "acc1 = (fst acc + 1, snd acc)" | "acc1 = (fst acc, snd acc + 1)" "answers \<longrightarrow> \<not> replies_arrive cl"
      using one(2) [OF refl] None by auto
    then show ?thesis
    proof cases
      case 1
      then show ?thesis using after here IH(2-5) free by (intro conjI exI [of _ "Suc k"]) (auto simp: algebra_simps)
    next
      case 2
      then show ?thesis using after here IH(2-5) free by (intro conjI exI [of _ k]) (auto simp: Suc_diff_le algebra_simps)
    qed
  qed
qed

end

text \<open>A report that was written is read back.\<close>

lemma report_parses:
  assumes "json_codec L" "to_vec_pretty L (push_report_json rep) = Inr j"
  shows "parse_as L push_report_of_json j = Inr rep"
proof -
  have "from_slice L j = Inr (push_report_json rep)"
    by (rule from_slice_to_vec_pretty [OF assms(1) push_report_plain assms(2)])
  then show ?thesis by (simp add: parse_as_def from_value_def)
qed

context gcs_service
begin

lemma put_json_held:
  assumes "put_json_if_absent L cl cfg name v s = (out, s')"
  shows "held s' = held s \<or> (\<exists>j. to_vec_pretty L v = Inr j \<and> created name j (held s) (held s'))"
    and "out = Inr x \<Longrightarrow> \<exists>j. to_vec_pretty L v = Inr j \<and> created name j (held s) (held s') \<and> held s' name \<noteq> None"
proof -
  have "(held s' = held s \<or> (\<exists>j. to_vec_pretty L v = Inr j \<and> created name j (held s) (held s'))) \<and>
    (\<forall>x. out = Inr x \<longrightarrow> (\<exists>j. to_vec_pretty L v = Inr j \<and> created name j (held s) (held s') \<and> held s' name \<noteq> None))"
  proof (cases "to_vec_pretty L v")
    case (Inl e)
    with assms show ?thesis by (auto simp: put_json_if_absent_def eff_simps)
  next
    case (Inr j)
    with assms have "put_bytes_if_absent L cl cfg name j s = (out, s')" by (simp add: put_json_if_absent_def e_bind_def)
    from put_held [OF this] Inr show ?thesis by auto
  qed
  then show "held s' = held s \<or> (\<exists>j. to_vec_pretty L v = Inr j \<and> created name j (held s) (held s'))"
    "out = Inr x \<Longrightarrow> \<exists>j. to_vec_pretty L v = Inr j \<and> created name j (held s) (held s') \<and> held s' name \<noteq> None"
    by blast+
qed

lemma created_grows: "created name b c c' \<Longrightarrow> c n = Some x \<Longrightarrow> c' n = Some x"
  by (auto simp: created_def)

lemma push_new_held:
  assumes "gcs_push_new L cl cfg q s = (out, s')"
  shows "held s n = Some b \<Longrightarrow> held s' n = Some b"
    and "out = Inr rep \<Longrightarrow> \<exists>c j. c = bucket_after L (bq_repo_id q) (bq_objects q) (held s) \<and>
      (\<forall>obj \<in> set (bq_objects q). c (gcs_object_name L (bq_repo_id q) (co_object_id obj)) \<noteq> None) \<and>
      created (gcs_idempotency_name L (bq_repo_id q) (bq_idempotency_key q)) j c (held s') \<and>
      held s' (gcs_idempotency_name L (bq_repo_id q) (bq_idempotency_key q)) \<noteq> None \<and>
      (\<exists>fresh. to_vec_pretty L (push_report_json fresh) = Inr j \<and>
         counted answers (replies_arrive cl) (bq_objects q) (free_names L (bq_repo_id q) (bq_objects q) (held s)) fresh \<and>
         bp_object_ids fresh = map co_object_id (bq_objects q) \<and>
         (rep = fresh \<or> (\<exists>x. held s' (gcs_idempotency_name L (bq_repo_id q) (bq_idempotency_key q)) = Some x \<and>
            parse_as L push_report_of_json x = Inr rep)))"
proof -
  let ?idn = "gcs_idempotency_name L (bq_repo_id q) (bq_idempotency_key q)"
  let ?ids = "map co_object_id (bq_objects q)"
  let ?good = "\<lambda>out. \<forall>rep. out = Inr rep \<longrightarrow> (\<exists>c j. c = bucket_after L (bq_repo_id q) (bq_objects q) (held s) \<and>
      (\<forall>obj \<in> set (bq_objects q). c (gcs_object_name L (bq_repo_id q) (co_object_id obj)) \<noteq> None) \<and>
      created ?idn j c (held s') \<and> held s' ?idn \<noteq> None \<and>
      (\<exists>fresh. to_vec_pretty L (push_report_json fresh) = Inr j \<and>
         counted answers (replies_arrive cl) (bq_objects q) (free_names L (bq_repo_id q) (bq_objects q) (held s)) fresh \<and>
         bp_object_ids fresh = ?ids \<and>
         (rep = fresh \<or> (\<exists>x. held s' ?idn = Some x \<and> parse_as L push_report_of_json x = Inr rep))))"
  let ?grown = "\<lambda>c c'. \<forall>n b. c n = Some b \<longrightarrow> c' n = (Some b :: bytes option)"
  obtain o1 s1 where l: "list_names L cl cfg (objects_prefix (bq_repo_id q)) s = (o1, s1)" by (rule prod.exhaust)
  note lh = list_names_held [OF l]
  have "?grown (held s) (held s') \<and> ?good out"
  proof (cases o1)
    case (Inl e)
    with assms l lh(1) show ?thesis by (auto simp: gcs_push_new_def Let_def e_bind_def)
  next
    case ns: (Inr ns)
    obtain o2 s2 where f: "e_fold (gcs_put_object L cl cfg (bq_repo_id q) ns) (bq_objects q) (0, 0) s1 = (o2, s2)"
      by (rule prod.exhaust)
    have "\<forall>n \<in> set ns. held s1 n \<noteq> None" using lh ns by auto
    note added = put_all_added [OF f this, unfolded lh(1)] and exact = put_all_exact [OF _ this, unfolded lh(1)]
    from added have grown2: "?grown (held s) (held s2)" by (simp add: bundle_added_def)
    show ?thesis
    proof (cases o2)
      case (Inl e)
      with assms l ns f grown2 show ?thesis by (auto simp: gcs_push_new_def Let_def e_bind_def)
    next
      case acc: (Inr acc)
      obtain a d where ad: "acc = (a, d)" by (rule prod.exhaust)
      show ?thesis
      proof (cases "bundle_hash L ?ids")
        case (Inl e)
        with assms l ns f acc ad grown2 show ?thesis by (auto simp: gcs_push_new_def Let_def e_bind_def)
      next
        case h: (Inr h)
        let ?rep = "\<lparr>bp_status = ''ok'', bp_repo_id = bq_repo_id q, bp_idempotency_key = bq_idempotency_key q,
          bp_accepted_object_count = a, bp_duplicate_object_count = d, bp_object_ids = ?ids, bp_bundle_hash = h\<rparr>"
        obtain o3 s3 where w: "put_json_if_absent L cl cfg ?idn (push_report_json ?rep) s2 = (o3, s3)" by (rule prod.exhaust)
        have run: "(case o3 of Inl e \<Rightarrow> (Inl e, s3) | Inr res \<Rightarrow> (case res of Written \<Rightarrow> e_ret ?rep
           | AlreadyExists \<Rightarrow> read_json_object L cl cfg push_report_of_json ?idn) s3) = (out, s')"
          using assms l ns f acc ad h w by (simp add: gcs_push_new_def Let_def e_bind_def split: sum.splits)
        have s3: "held s' = held s3"
          using run by (auto split: sum.splits gcs_put_result.splits dest: read_json_held(1))
        have grown3: "?grown (held s2) (held s3)"
          using put_json_held(1) [OF w] created_grows by metis
        have "?good out"
        proof (intro allI impI)
          fix rep assume out: "out = Inr rep"
          with run obtain res where res: "o3 = Inr res" by (cases o3) auto
          from put_json_held(2) [OF w res] obtain j where j: "to_vec_pretty L (push_report_json ?rep) = Inr j"
            "created ?idn j (held s2) (held s3)" "held s3 ?idn \<noteq> None" by blast
          have "rep = ?rep \<or> (\<exists>x. held s' ?idn = Some x \<and> parse_as L push_report_of_json x = Inr rep)"
            using run out res s3 by (cases res) (auto dest!: read_json_held(2))
          moreover note placed = exact [OF f [unfolded acc]]
          then have "counted answers (replies_arrive cl) (bq_objects q) (free_names L (bq_repo_id q) (bq_objects q) (held s)) ?rep"
            by (auto simp: counted_def ad)
          ultimately have "\<exists>fresh. to_vec_pretty L (push_report_json fresh) = Inr j \<and>
            counted answers (replies_arrive cl) (bq_objects q) (free_names L (bq_repo_id q) (bq_objects q) (held s)) fresh \<and>
            bp_object_ids fresh = ?ids \<and>
            (rep = fresh \<or> (\<exists>x. held s' ?idn = Some x \<and> parse_as L push_report_of_json x = Inr rep))"
            using j(1) by (intro exI [of _ ?rep]) simp
          with placed j(2,3) s3 show "\<exists>c j. c = bucket_after L (bq_repo_id q) (bq_objects q) (held s) \<and>
            (\<forall>obj \<in> set (bq_objects q). c (gcs_object_name L (bq_repo_id q) (co_object_id obj)) \<noteq> None) \<and>
            created ?idn j c (held s') \<and> held s' ?idn \<noteq> None \<and>
            (\<exists>fresh. to_vec_pretty L (push_report_json fresh) = Inr j \<and>
               counted answers (replies_arrive cl) (bq_objects q) (free_names L (bq_repo_id q) (bq_objects q) (held s)) fresh \<and>
               bp_object_ids fresh = ?ids \<and>
               (rep = fresh \<or> (\<exists>x. held s' ?idn = Some x \<and> parse_as L push_report_of_json x = Inr rep)))"
            by (intro exI [of _ "held s2"] exI [of _ j]) auto
        qed
        with grown2 grown3 s3 show ?thesis by simp
      qed
    qed
  qed
  then show "held s n = Some b \<Longrightarrow> held s' n = Some b" and "out = Inr rep \<Longrightarrow> \<exists>c j.
      c = bucket_after L (bq_repo_id q) (bq_objects q) (held s) \<and>
      (\<forall>obj \<in> set (bq_objects q). c (gcs_object_name L (bq_repo_id q) (co_object_id obj)) \<noteq> None) \<and>
      created ?idn j c (held s') \<and> held s' ?idn \<noteq> None \<and>
      (\<exists>fresh. to_vec_pretty L (push_report_json fresh) = Inr j \<and>
         counted answers (replies_arrive cl) (bq_objects q) (free_names L (bq_repo_id q) (bq_objects q) (held s)) fresh \<and>
         bp_object_ids fresh = ?ids \<and>
         (rep = fresh \<or> (\<exists>x. held s' ?idn = Some x \<and> parse_as L push_report_of_json x = Inr rep)))"
    by (elim conjE, blast)+
qed

end

context gcs_service
begin

text \<open>Everything but a push leaves the bucket alone.\<close>

lemma keeps_held:
  assumes "\<And>c. keeps (\<lambda>s. held s = c) m"
  shows "keeps (\<lambda>s. P (held s)) m"
proof (rule keepsI)
  fix s r s' assume P: "P (held s)" and run: "m s = (r, s')"
  have "held s' = held s" by (rule keepsD [OF assms run refl])
  with P show "P (held s')" by simp
qed

lemma keeps_names: "keeps (\<lambda>s. held s = c) (list_names L cl cfg pfx)"
  by (rule keepsI) (simp add: list_names_held(1))

lemma keeps_read: "keeps (\<lambda>s. held s = c) (read_json_object L cl cfg d name)"
  by (rule keepsI) (simp add: read_json_held(1))

lemma keeps_load: "keeps (\<lambda>s. held s = c) (gcs_load L env cl cfg repo name)"
  unfolding gcs_load_def by (intro keeps_bind keeps_read keeps_basic)

lemma load_held:
  assumes "gcs_load L env cl cfg repo name s = (Inr obj, s')"
  shows "\<exists>b. held s name = Some b \<and> parse_as L object_of_json b = Inr obj \<and> validate_stored_object L env repo obj = Inr ()"
proof -
  from assms obtain o1 s1 where r: "read_json_object L cl cfg object_of_json name s = (Inr o1, s1)"
    and v: "e_bind (e_lift (validate_stored_object L env repo o1)) (\<lambda>_. e_ret o1) s1 = (Inr obj, s')"
    unfolding gcs_load_def by (rule e_bind_Inr)
  from v have "o1 = obj" "validate_stored_object L env repo obj = Inr ()"
    by (auto simp: eff_simps split: sum.splits)
  with read_json_held(2) [OF r refl] show ?thesis by blast
qed

lemma keeps_pushing: "keeps (\<lambda>s. held s n = Some b) (gcs_push_bundle L env cl cfg q)"
proof -
  let ?m = "read_json_object L cl cfg push_report_of_json (gcs_idempotency_name L (bq_repo_id q) (bq_idempotency_key q))"
  have "keeps (\<lambda>s. held s n = Some b) (e_attempt ?m)"
  proof (rule keepsI)
    fix s r s' assume h: "held s n = Some b" and run: "e_attempt ?m s = (r, s')"
    obtain o1 s1 where r: "?m s = (o1, s1)" by (rule prod.exhaust)
    with run have "s' = s1" by (auto simp: e_attempt_def split: sum.splits)
    with read_json_held(1) [OF r] h show "held s' n = Some b" by simp
  qed
  moreover have "keeps (\<lambda>s. held s n = Some b) (gcs_push_new L cl cfg q)"
    by (rule keepsI) (rule push_new_held(1))
  ultimately show ?thesis
    unfolding gcs_push_bundle_def by (intro keeps_bind keeps_basic) (auto split: option.split)
qed

lemma keeps_store: "ops_keep (\<lambda>s. held s n = Some b) (gcs_store L env cl cfg)"
proof -
  have "keeps (\<lambda>s. held s n = Some b) (gcs_pull_bundle L env cl cfg q)" for q
    unfolding gcs_pull_bundle_def Let_def by (rule keeps_held, intro keeps_bind keeps_names keeps_e_map keeps_load keeps_basic)
  moreover have "keeps (\<lambda>s. held s n = Some b) (gcs_list_object_ids L env cl cfg r)" for r
    unfolding gcs_list_object_ids_def by (rule keeps_held, intro keeps_bind keeps_names keeps_e_map keeps_load keeps_basic)
  moreover have "keeps (\<lambda>s. held s n = Some b) (gcs_repo_status L cl cfg r)" for r
    unfolding gcs_repo_status_def Let_def by (rule keeps_held, intro keeps_bind keeps_names keeps_basic)
  moreover have "keeps (\<lambda>s. held s n = Some b) (gcs_read_object L env cl cfg r i)" for r i
    unfolding gcs_read_object_def by (rule keeps_held, rule keeps_load)
  ultimately show ?thesis
    using keeps_pushing by (simp add: ops_keep_def gcs_store_def)
qed

text \<open>A push under a key that is not used yet.\<close>

lemma push_held:
  assumes "gcs_push_bundle L env cl cfg q s = (Inr rep, s')"
    and "held s (gcs_idempotency_name L (bq_repo_id q) (bq_idempotency_key q)) = None"
  obtains s0 v where "bundle_validation_report_of L env q = Inr v" "held s0 = held s" "gcs_push_new L cl cfg q s0 = (Inr rep, s')"
proof -
  let ?m = "read_json_object L cl cfg push_report_of_json (gcs_idempotency_name L (bq_repo_id q) (bq_idempotency_key q))"
  obtain o1 s1 where r: "?m s = (o1, s1)" by (rule prod.exhaust)
  from read_json_held(2) [OF r] assms(2) obtain e where o1: "o1 = Inl e" by (cases o1) auto
  have a: "e_attempt ?m s = (Inr None, s1)" using r o1 by (simp add: e_attempt_def)
  from assms(1) obtain v where v: "bundle_validation_report_of L env q = Inr v"
    by (cases "bundle_validation_report_of L env q") (auto simp: gcs_push_bundle_def e_bind_def)
  with assms(1) a have "gcs_push_new L cl cfg q s1 = (Inr rep, s')"
    by (simp add: gcs_push_bundle_def e_bind_def)
  then show ?thesis using that v read_json_held(1) [OF r] by blast
qed

text \<open>A page of a pull.\<close>

lemma load_all_held:
  assumes "e_map (gcs_load L env cl cfg repo) ns s = (Inr objs, s')"
  shows "list_all2 (\<lambda>n obj. \<exists>b. held s n = Some b \<and> parse_as L object_of_json b = Inr obj \<and>
    validate_stored_object L env repo obj = Inr ()) ns objs \<and> held s' = held s"
  using assms
proof (induction ns arbitrary: s objs)
  case (Cons n ns)
  from Cons.prems obtain obj s1 objs' s2 where st: "gcs_load L env cl cfg repo n s = (Inr obj, s1)"
    "e_map (gcs_load L env cl cfg repo) ns s1 = (Inr objs', s2)" "objs = obj # objs'" "s' = s2"
    by (auto elim!: e_bind_Inr)
  have "held s1 = held s" by (rule keepsD [OF keeps_load st(1) refl])
  with Cons.IH [OF st(2) [folded st(4)]] load_held [OF st(1)] st(3) show ?case by simp
qed simp

lemma pull_held:
  assumes "gcs_pull_bundle L env cl cfg q s = (Inr rep, s')"
  obtains ns where "sorted ns" "distinct ns"
    "set ns = {n. held s n \<noteq> None \<and> starts_with n (objects_prefix (lq_repo_id q)) \<and>
       n \<notin> gcs_object_name L (lq_repo_id q) ` set (lq_known_object_ids q)}"
    "list_all2 (\<lambda>n obj. \<exists>b. held s n = Some b \<and> parse_as L object_of_json b = Inr obj \<and>
        validate_stored_object L env (lq_repo_id q) obj = Inr ())
      (case lq_limit q of None \<Rightarrow> ns | Some k \<Rightarrow> take (unat k) ns) (lp_objects rep)"
    "lp_object_count rep = of_nat (length (lp_objects rep))"
    "lp_remaining_object_count rep = of_nat (length ns - length (lp_objects rep))" "held s' = held s"
proof -
  from assms obtain names s1 where l: "list_names L cl cfg (objects_prefix (lq_repo_id q)) s = (Inr names, s1)"
    and rest: "(let known_names = map (gcs_object_name L (lq_repo_id q)) (lq_known_object_ids q);
          missing_names = sort (filter (\<lambda>n. n \<notin> set known_names) names);
          limit = (case lq_limit q of None \<Rightarrow> length missing_names | Some n \<Rightarrow> unat n)
      in e_bind (e_map (gcs_load L env cl cfg (lq_repo_id q)) (take limit missing_names)) (\<lambda>objects.
           e_ret \<lparr>lp_status = ''ok'', lp_repo_id = lq_repo_id q, lp_object_count = of_nat (length objects),
                  lp_remaining_object_count = of_nat (length missing_names - limit), lp_objects = objects\<rparr>)) s1 = (Inr rep, s')"
    unfolding gcs_pull_bundle_def by (rule e_bind_Inr)
  let ?ns = "sort (filter (\<lambda>n. n \<notin> set (map (gcs_object_name L (lq_repo_id q)) (lq_known_object_ids q))) names)"
  let ?k = "case lq_limit q of None \<Rightarrow> length ?ns | Some n \<Rightarrow> unat n"
  note lh = list_names_held [OF l]
  from rest obtain objs where m: "e_map (gcs_load L env cl cfg (lq_repo_id q)) (take ?k ?ns) s1 = (Inr objs, s')"
    and rep: "rep = \<lparr>lp_status = ''ok'', lp_repo_id = lq_repo_id q, lp_object_count = of_nat (length objs),
                  lp_remaining_object_count = of_nat (length ?ns - ?k), lp_objects = objs\<rparr>"
    unfolding Let_def by (rule e_bind_Inr) (simp add: e_ret_def)
  note la = load_all_held [OF m, unfolded lh(1)]
  have len: "length objs = min (length ?ns) ?k" using la list_all2_lengthD by fastforce
  have page: "take ?k ?ns = (case lq_limit q of None \<Rightarrow> ?ns | Some k \<Rightarrow> take (unat k) ?ns)"
    by (simp split: option.split)
  show thesis
  proof (rule that [of ?ns])
    show "sorted ?ns" "distinct ?ns" using lh(2) by simp_all
    show "set ?ns = {n. held s n \<noteq> None \<and> starts_with n (objects_prefix (lq_repo_id q)) \<and>
       n \<notin> gcs_object_name L (lq_repo_id q) ` set (lq_known_object_ids q)}" using lh(2) by auto
    show "list_all2 (\<lambda>n obj. \<exists>b. held s n = Some b \<and> parse_as L object_of_json b = Inr obj \<and>
        validate_stored_object L env (lq_repo_id q) obj = Inr ())
      (case lq_limit q of None \<Rightarrow> ?ns | Some k \<Rightarrow> take (unat k) ?ns) (lp_objects rep)"
      using la unfolding page rep by simp
    have "length ?ns - ?k = length ?ns - length objs" unfolding len by (simp add: min_def)
    then show "lp_remaining_object_count rep = of_nat (length ?ns - length (lp_objects rep))"
      by (simp only: rep bundle_pull_report.simps)
    show "lp_object_count rep = of_nat (length (lp_objects rep))" by (simp add: rep)
    show "held s' = held s" using la by blast
  qed
qed

end

section \<open>The contract\<close>

sublocale gcs_service < bucket_store: relay_contract "gcs_store L env cl cfg" "bundle_validation_report_of L env"
  "\<lambda>s r i. contents (gs_host s) (gcs_object_name L r i)"
  "\<lambda>s r k. contents (gs_host s) (gcs_idempotency_name L r k) \<noteq> None" "parse_as L object_of_json" for env
proof
  fix q s
  show "op_validate (gcs_store L env cl cfg) q s = (bundle_validation_report_of L env q, s)"
    by (simp add: gcs_store_def)
next
  fix q s e assume "bundle_validation_report_of L env q = Inl e"
  then show "op_push (gcs_store L env cl cfg) q s = (Inl e, s)"
    by (simp add: gcs_store_def gcs_push_bundle_def e_bind_def)
next
  fix r i b
  show "ops_keep (\<lambda>s. contents (gs_host s) (gcs_object_name L r i) = Some b) (gcs_store L env cl cfg)"
    by (rule keeps_store)
next
  fix q s rep s' and obj :: canonical_object
  assume run: "op_push (gcs_store L env cl cfg) q s = (Inr rep, s')"
    and new: "\<not> contents (gs_host s) (gcs_idempotency_name L (bq_repo_id q) (bq_idempotency_key q)) \<noteq> None"
    and o: "obj \<in> set (bq_objects q)"
  from run have "gcs_push_bundle L env cl cfg q s = (Inr rep, s')" by (simp add: gcs_store_def)
  then obtain s0 where "gcs_push_new L cl cfg q s0 = (Inr rep, s')" by (rule push_held) (use new in blast)+
  from push_new_held(2) [OF this refl] o created_grows
  show "\<exists>b. contents (gs_host s') (gcs_object_name L (bq_repo_id q) (co_object_id obj)) = Some b" by fast
next
  fix r i s obj s'
  assume "op_read (gcs_store L env cl cfg) r i s = (Inr obj, s')"
  then have "gcs_load L env cl cfg r (gcs_object_name L r i) s = (Inr obj, s')"
    by (simp add: gcs_store_def gcs_read_object_def)
  from load_held [OF this]
  show "\<exists>b. contents (gs_host s) (gcs_object_name L r i) = Some b \<and> parse_as L object_of_json b = Inr obj" by blast
qed

context gcs_service
begin

text \<open>What the contract says, over the model's definitions.\<close>

lemma served_held:
  "held s (gcs_object_name L r i) = Some b \<Longrightarrow>
     held (snd (serve_all (gcs_store L env cl cfg) tok qs s)) (gcs_object_name L r i) = Some b"
  by (rule bucket_store.requests_keep)

lemma answered_held:
  "handle (gcs_store L env cl cfg) (GetObject r i) s = (resp, s') \<Longrightarrow> resp_status resp = OK \<Longrightarrow>
     \<exists>b obj. held s (gcs_object_name L r i) = Some b \<and> parse_as L object_of_json b = Inr obj \<and> resp_body resp = ObjectBody obj"
  by (rule bucket_store.get_answers_stored)

end

end
