(* ===== verification/Relay_Cloud.thy ===== *)
theory Relay_Cloud
  imports Relay_Bucket Relay_Props
begin

text \<open>
  A bucket that behaves as documented, with pages of one name, which meets the laws of \<open>gcs_service\<close>,
  and the properties of the bucket store.
\<close>

section \<open>A reference bucket\<close>

type_synonym bucket = "(str \<times> bytes) list"

definition names_after :: "str list \<Rightarrow> str option \<Rightarrow> str list" where
  "names_after ns page = (case page of None \<Rightarrow> ns | Some t \<Rightarrow> filter (\<lambda>n. t < n) ns)"

definition bucket_names :: "bucket \<Rightarrow> str \<Rightarrow> str list" where
  "bucket_names b pfx = sort (remdups (filter (\<lambda>n. starts_with n pfx) (map fst b)))"

definition names_page :: "str list \<Rightarrow> json" where
  "names_page ns = (case ns of [] \<Rightarrow> JObject []
     | n # rest \<Rightarrow> JObject ((''items'', JArray [JObject [(''name'', JString n)]]) #
         (if rest = [] then [] else [(''nextPageToken'', JString n)])))"

definition reply :: "nat \<Rightarrow> bytes \<Rightarrow> str + http_reply" where
  "reply status body = Inr \<lparr>gr_status = status, gr_body = Inr body\<rparr>"

definition BUCKET_OBJECTS :: str where "BUCKET_OBJECTS = ''https://gcs/storage/v1/b/b/o/''"

definition bucket_send :: "http_call \<Rightarrow> bucket \<Rightarrow> (str + http_reply) \<times> bucket" where
  "bucket_send q b = (case gq_method q of
     Post \<Rightarrow> (case map_of (gq_query q) ''name'' of
         None \<Rightarrow> (reply 400 [], b)
       | Some n \<Rightarrow> (case map_of b n of None \<Rightarrow> (reply 200 [], (n, gq_body q) # b) | Some x \<Rightarrow> (reply 412 [], b)))
   | Get \<Rightarrow> (case map_of (gq_query q) ''prefix'' of
         Some pfx \<Rightarrow> (reply 200 (put (names_page (names_after (bucket_names b pfx) (map_of (gq_query q) ''pageToken'')))), b)
       | None \<Rightarrow> (case Option.bind (strip_prefix BUCKET_OBJECTS (gq_url q)) (map_of b) of
           Some x \<Rightarrow> (reply 200 x, b) | None \<Rightarrow> (reply 404 [], b))))"

definition bucket_client :: "bucket http_client" where
  "bucket_client = \<lparr>ht_send = bucket_send, ht_now = (\<lambda>_. 0), ht_sleep = (\<lambda>_ b. b), ht_parse_url = Inr,
     ht_percent = (\<lambda>s. s), ht_status_text = (\<lambda>_. []), ht_status_error = (\<lambda>_. []), ht_decode_error = (\<lambda>e. e),
     ht_builder_error = (\<lambda>e. e)\<rparr>"

definition bucket_config :: gcs_config where
  "bucket_config = \<lparr>gc_bucket = ''b'', gc_api_base_url = ''https://gcs'', gc_upload_base_url = ''https://gcs'', gc_auth = NoAuth\<rparr>"

definition bucket_coming :: "(str \<Rightarrow> bytes option) \<Rightarrow> str \<Rightarrow> str option \<Rightarrow> str list" where
  "bucket_coming c pfx page = names_after (sorted_list_of_set {n. c n \<noteq> None \<and> starts_with n pfx}) page"

lemma bucket_coming_eq: "bucket_coming (map_of b) pfx page = names_after (bucket_names b pfx) page"
proof -
  have "{n. map_of b n \<noteq> None \<and> starts_with n pfx} = set (filter (\<lambda>n. starts_with n pfx) (map fst b))"
    by (auto simp: map_of_eq_None_iff)
  then show ?thesis
    by (simp add: bucket_coming_def bucket_names_def sorted_list_of_set_sort_remdups del: set_filter)
qed

lemma bucket_names_sorted: "sorted (bucket_names b pfx)" "distinct (bucket_names b pfx)"
  by (simp_all add: bucket_names_def)

lemma names_after_sorted: "sorted ns \<Longrightarrow> distinct ns \<Longrightarrow> sorted (names_after ns p) \<and> distinct (names_after ns p)"
  by (auto simp: names_after_def sorted_wrt_filter split: option.split)

text \<open>What comes after the first name of a page is what comes after the page.\<close>

lemma names_after_next:
  assumes "sorted ns" "distinct ns" "names_after ns p = n # rest"
  shows "names_after ns (Some n) = rest"
proof -
  have "names_after ns (Some n) = filter (\<lambda>m. n < m) (names_after ns p)"
  proof (cases p)
    case (Some t)
    with assms(3) have "n \<in> set (filter (\<lambda>m. t < m) ns)" by (simp add: names_after_def)
    then have "t < n" by simp
    with Some show ?thesis by (auto simp: names_after_def intro!: filter_cong)
  qed (simp add: names_after_def)
  moreover have "sorted (n # rest)" "distinct (n # rest)"
    using names_after_sorted [OF assms(1,2), of p] assms(3) by simp_all
  then have "filter (\<lambda>m. n < m) (n # rest) = rest" by (auto simp: filter_id_conv less_le)
  ultimately show ?thesis using assms(3) by simp
qed

lemma page_facts:
  assumes "names_after ns p = cs" "sorted ns" "distinct ns"
  shows "cs = page_names (names_page cs) @ (case next_page (names_page cs) of None \<Rightarrow> [] | Some t \<Rightarrow> names_after ns (Some t))"
    and "next_page (names_page cs) = Some t \<Longrightarrow> length (names_after ns (Some t)) < length cs"
proof -
  have "cs = page_names (names_page cs) @ (case next_page (names_page cs) of None \<Rightarrow> [] | Some t \<Rightarrow> names_after ns (Some t)) \<and>
    (\<forall>t. next_page (names_page cs) = Some t \<longrightarrow> length (names_after ns (Some t)) < length cs)"
  proof (cases cs)
    case Nil
    then show ?thesis by (simp add: names_page_def page_names_def next_page_def)
  next
    case (Cons n rest)
    with names_after_next [OF assms(2,3)] assms(1) show ?thesis
      by (simp add: names_page_def page_names_def next_page_def List.map_filter_simps)
  qed
  then show "cs = page_names (names_page cs) @ (case next_page (names_page cs) of None \<Rightarrow> [] | Some t \<Rightarrow> names_after ns (Some t))"
    "next_page (names_page cs) = Some t \<Longrightarrow> length (names_after ns (Some t)) < length cs" by blast+
qed

lemma names_page_read: "from_slice ref_lib (put (names_page cs)) = Inr (names_page cs)"
proof -
  have "json_ok (names_page cs)" by (cases cs) (simp_all add: names_page_def)
  then show ?thesis by (simp add: ref_lib_def get_all_put)
qed

lemma bucket_calls:
  "gq_method (media_call cl cfg name) = Get" "gq_query (media_call cl cfg name) = [(''alt'', ''media'')]"
  "gq_url (media_call bucket_client bucket_config name) = BUCKET_OBJECTS @ name"
  "gq_method (upload_call url name b) = Post" "map_of (gq_query (upload_call url name b)) ''name'' = Some name"
  "gq_body (upload_call url name b) = b" "gq_method (list_call url pfx p) = Get"
  "map_of (gq_query (list_call url pfx p)) ''prefix'' = Some pfx"
  "map_of (gq_query (list_call url pfx p)) ''pageToken'' = p"
  by (simp_all add: media_call_def bare_get_def upload_call_def list_call_def gcs_object_url_def bucket_client_def
      bucket_config_def BUCKET_OBJECTS_def split: option.split)

lemma bucket_client_simps [simp]:
  "ht_send bucket_client = bucket_send" "ht_sleep bucket_client n b = b" "ht_now bucket_client b = 0"
  "gcs_upload_url bucket_client bucket_config = Inr ''https://gcs/upload/storage/v1/b/b/o''"
  "gcs_list_url bucket_client bucket_config = Inr ''https://gcs/storage/v1/b/b/o''"
  by (simp_all add: bucket_client_def bucket_config_def gcs_upload_url_def gcs_list_url_def)

lemma bucket_send_list:
  "bucket_send ((list_call url pfx p)\<lparr>gq_bearer := t\<rparr>) b =
     (reply 200 (put (names_page (names_after (bucket_names b pfx) p))), b)"
  by (simp add: bucket_send_def bucket_calls)

lemma bucket_send_media:
  "bucket_send ((media_call bucket_client bucket_config name)\<lparr>gq_bearer := t\<rparr>) b =
     (case map_of b name of Some x \<Rightarrow> (reply 200 x, b) | None \<Rightarrow> (reply 404 [], b))"
  by (simp add: bucket_send_def bucket_calls split: option.split)

lemma bucket_send_upload:
  "bucket_send ((upload_call url name x)\<lparr>gq_bearer := t\<rparr>) b =
     (case map_of b name of None \<Rightarrow> (reply 200 [], (name, x) # b) | Some y \<Rightarrow> (reply 412 [], b))"
  by (simp add: bucket_send_def bucket_calls upload_call_def split: option.split)

interpretation bucket: gcs_service ref_lib bucket_client bucket_config map_of bucket_coming
  "\<lambda>c pfx page. length (bucket_coming c pfx page)"
proof
  fix n and h :: bucket
  show "map_of (ht_sleep bucket_client n h) = map_of h" by simp
next
  fix q out and h h' :: bucket
  assume "gq_method q = Get" "ht_send bucket_client q h = (out, h')"
  then show "map_of h' = map_of h" by (auto simp: bucket_send_def split: option.splits)
next
  fix name t r b and h h' :: bucket
  assume "ht_send bucket_client ((media_call bucket_client bucket_config name)\<lparr>gq_bearer := t\<rparr>) h = (Inr r, h')"
    "\<not> is_error r" "gr_body r = Inr b"
  then show "map_of h name = Some b"
    by (auto simp: bucket_send_media reply_def is_error_def split: option.splits)
next
  fix url name b t out and h h' :: bucket
  assume "ht_send bucket_client ((upload_call url name b)\<lparr>gq_bearer := t\<rparr>) h = (out, h')"
  then show "map_of h' = map_of h \<or> map_of h name = None \<and> map_of h' = (map_of h)(name \<mapsto> b)"
    by (auto simp: bucket_send_upload split: option.splits)
next
  fix url name b t r and h h' :: bucket
  assume "ht_send bucket_client ((upload_call url name b)\<lparr>gq_bearer := t\<rparr>) h = (Inr r, h')"
  then show "map_of h' name \<noteq> None" by (auto simp: bucket_send_upload split: option.splits)
next
  fix url pfx page t r body v and h h' :: bucket
  assume send: "ht_send bucket_client ((list_call url pfx page)\<lparr>gq_bearer := t\<rparr>) h = (Inr r, h')"
    and body: "gr_body r = Inr body" and v: "from_slice ref_lib body = Inr v"
  have v: "v = names_page (names_after (bucket_names h pfx) page)"
    using send body v by (auto simp: bucket_send_list reply_def names_page_read)
  from page_facts [OF refl bucket_names_sorted, of h pfx page]
  show "bucket_coming (map_of h) pfx page = page_names v @
        (case next_page v of None \<Rightarrow> [] | Some p \<Rightarrow> bucket_coming (map_of h) pfx (Some p)) \<and>
      (\<forall>p. next_page v = Some p \<longrightarrow> length (bucket_coming (map_of h) pfx (Some p)) < length (bucket_coming (map_of h) pfx page))"
    unfolding v bucket_coming_eq by blast
next
  fix h :: bucket and pfx
  show "distinct (bucket_coming (map_of h) pfx None) \<and>
      set (bucket_coming (map_of h) pfx None) = {n. map_of h n \<noteq> None \<and> starts_with n pfx}"
    unfolding bucket_coming_eq by (auto simp: names_after_def bucket_names_def map_of_eq_None_iff)
qed

section \<open>Running the reference bucket\<close>

lemma bucket_replies:
  obtains r b' where "bucket_send q b = (Inr r, b')" "\<not> is_server_error r"
  by (cases "bucket_send q b")
     (auto simp: bucket_send_def reply_def is_server_error_def split: http_method.splits option.splits)

lemma bucket_sent:
  assumes "bucket_send (q\<lparr>gq_bearer := None\<rparr>) (gs_host s) = (out, b)"
  shows "send_authorized ref_lib bucket_client bucket_config q s =
    (case out of Inl e \<Rightarrow> (Inl (RelayIo e), s\<lparr>gs_host := b\<rparr>) | Inr r \<Rightarrow> (Inr r, s\<lparr>gs_host := b\<rparr>))"
proof -
  obtain r b' where r: "bucket_send (q\<lparr>gq_bearer := None\<rparr>) (gs_host s) = (Inr r, b')" "\<not> is_server_error r"
    by (rule bucket_replies)
  with assms have "out = Inr r" "b' = b" by simp_all
  with r show ?thesis
    by (simp add: send_authorized_def auth_token_def bucket_config_def e_bind_def send_with_retry_def)
qed

lemma bucket_get:
  "get_bytes ref_lib bucket_client bucket_config name s = (case map_of (gs_host s) name of
     Some x \<Rightarrow> (Inr x, s) | None \<Rightarrow> (Inl (RelayIo (''GCS object `'' @ name @ ''` was not found'')), s))"
proof (cases "map_of (gs_host s) name")
  case None
  then have "bucket_send ((media_call bucket_client bucket_config name)\<lparr>gq_bearer := None\<rparr>) (gs_host s) = (reply 404 [], gs_host s)"
    by (simp add: bucket_send_media)
  from bucket_sent [OF this] None show ?thesis
    by (simp add: get_bytes_def e_bind_def reply_def NOT_FOUND_def)
next
  case (Some x)
  then have "bucket_send ((media_call bucket_client bucket_config name)\<lparr>gq_bearer := None\<rparr>) (gs_host s) = (reply 200 x, gs_host s)"
    by (simp add: bucket_send_media)
  from bucket_sent [OF this] Some show ?thesis
    by (simp add: get_bytes_def e_bind_def reply_def NOT_FOUND_def error_for_status_def is_error_def reply_bytes_def)
qed

lemma bucket_put:
  "put_bytes_if_absent ref_lib bucket_client bucket_config name x s = (case map_of (gs_host s) name of
     None \<Rightarrow> (Inr Written, s\<lparr>gs_host := (name, x) # gs_host s\<rparr>) | Some y \<Rightarrow> (Inr AlreadyExists, s))"
proof (cases "map_of (gs_host s) name")
  case None
  then have "bucket_send ((upload_call url name x)\<lparr>gq_bearer := None\<rparr>) (gs_host s) = (reply 200 [], (name, x) # gs_host s)" for url
    by (simp add: bucket_send_upload)
  from bucket_sent [OF this] None show ?thesis
    by (simp add: put_bytes_if_absent_def e_bind_def reply_def is_success_def)
next
  case (Some y)
  then have "bucket_send ((upload_call url name x)\<lparr>gq_bearer := None\<rparr>) (gs_host s) = (reply 412 [], gs_host s)" for url
    by (simp add: bucket_send_upload)
  from bucket_sent [OF this] Some show ?thesis
    by (simp add: put_bytes_if_absent_def e_bind_def reply_def is_success_def PRECONDITION_FAILED_def)
qed

lemma bucket_list_page:
  "list_page ref_lib bucket_client bucket_config pfx p s = (Inr (names_page (names_after (bucket_names (gs_host s) pfx) p)), s)"
proof -
  have "bucket_send ((list_call url pfx p)\<lparr>gq_bearer := None\<rparr>) (gs_host s) =
      (reply 200 (put (names_page (names_after (bucket_names (gs_host s) pfx) p))), gs_host s)" for url
    by (rule bucket_send_list)
  from bucket_sent [OF this] show ?thesis
    by (simp add: list_page_def e_bind_def reply_def error_for_status_def is_error_def reply_json_def reply_bytes_def
        names_page_read)
qed

lemma bucket_list_loop:
  "list_loop ref_lib bucket_client bucket_config pfx names p s =
     Some (Inr (names @ names_after (bucket_names (gs_host s) pfx) p), s)"
proof (induction "length (names_after (bucket_names (gs_host s) pfx) p)" arbitrary: names p rule: less_induct)
  case less
  let ?cs = "names_after (bucket_names (gs_host s) pfx) p"
  note facts = page_facts [OF refl bucket_names_sorted, of "gs_host s" pfx p]
  show ?case
  proof (cases "next_page (names_page ?cs)")
    case None
    have "?cs = page_names (names_page ?cs)" using facts(1) unfolding None by simp
    with None show ?thesis by (subst list_loop.simps) (simp add: bucket_list_page)
  next
    case (Some t)
    have "?cs = page_names (names_page ?cs) @ names_after (bucket_names (gs_host s) pfx) (Some t)"
      using facts(1) unfolding Some by simp
    with less.hyps [OF facts(2) [OF Some], of "names @ page_names (names_page ?cs)"] Some show ?thesis
      by (subst list_loop.simps) (simp add: bucket_list_page)
  qed
qed

lemma bucket_list_names: "list_names ref_lib bucket_client bucket_config pfx s = (Inr (bucket_names (gs_host s) pfx), s)"
  by (simp add: list_names_def bucket_list_loop names_after_def)

definition bucket_state :: "bucket \<Rightarrow> bucket gcs" where
  "bucket_state b = \<lparr>gs_token_cache = None, gs_host = b\<rparr>"

text \<open>A push of one object to the empty bucket goes through.\<close>

lemma bucket_push_runs:
  assumes "fields_ok ref_lib obj" "canonical_object_bytes ref_lib obj = Inr x"
  obtains rep s' where "gcs_push_bundle ref_lib (\<lambda>_. None) bucket_client bucket_config (ref_push obj) (bucket_state []) = (Inr rep, s')"
proof -
  have "json_ok (json_obj [(''object_ids'', jlist jstr [co_object_id obj])])"
    by (rule json_ok_json_obj) (auto simp: jlist_def)
  then obtain h where h: "stable_json_hash ref_lib (json_obj [(''object_ids'', jlist jstr [co_object_id obj])]) = Inr h"
    using stable_json_hash_total [OF ref_lib_laws(1)] by blast
  obtain v where v: "bundle_validation_report_of ref_lib (\<lambda>_. None) (ref_push obj) = Inr v"
    using ref_push_valid [OF assms(1)] by (cases "bundle_validation_report_of ref_lib (\<lambda>_. None) (ref_push obj)") auto
  have b: "relay_object_bytes ref_lib obj = Inr x" using assms(2) by (simp add: relay_bytes_eq)
  have pretty: "to_vec_pretty ref_lib w = Inr (put w)" for w by (simp add: ref_lib_def)
  let ?idn = "gcs_idempotency_name ref_lib ''repo'' ''k''"
  have none: "e_attempt (read_json_object ref_lib bucket_client bucket_config push_report_of_json ?idn) (bucket_state []) =
      (Inr None, bucket_state [])"
    by (simp add: e_attempt_def read_json_object_def e_bind_def bucket_get bucket_state_def)
  obtain rep s' where run: "gcs_push_new ref_lib bucket_client bucket_config (ref_push obj) (bucket_state []) = (Inr rep, s')"
    using h b pretty
    by (simp add: gcs_push_new_def ref_push_def Let_def e_bind_def bucket_list_names bucket_state_def bucket_names_def
        gcs_put_object_def bucket_put bundle_hash_def put_json_if_absent_def)
  show thesis
    by (rule that [of rep s']) (use v none run in \<open>simp add: gcs_push_bundle_def e_bind_def ref_push_def\<close>)
qed

section \<open>Properties\<close>

text \<open>The state of the outside world before the attempt \<open>k\<close>, when all attempts before it were tried again.\<close>

fun before_attempt :: "'h http_client \<Rightarrow> http_call \<Rightarrow> nat \<Rightarrow> 'h \<Rightarrow> 'h" where
  "before_attempt cl q 0 h = h"
| "before_attempt cl q (Suc k) h = ht_sleep cl (150 * (k + 1)) (snd (ht_send cl q (before_attempt cl q k h)))"

text \<open>
  C31: a request is sent at most three times.  The result is the outcome of the first attempt that is
  neither a failure to send nor a server error, and of the third attempt when there is none; between
  two attempts the client waits 150 and then 300 milliseconds.
\<close>

theorem gcs_retry_exact:
  "\<exists>k \<le> 2. (\<forall>j < k. retriable (fst (ht_send cl q (before_attempt cl q j (gs_host s))))) \<and>
     (k = 2 \<or> \<not> retriable (fst (ht_send cl q (before_attempt cl q k (gs_host s))))) \<and>
     send_with_retry cl q s = (case ht_send cl q (before_attempt cl q k (gs_host s)) of
        (out, h) \<Rightarrow> (map_err RelayIo out, s\<lparr>gs_host := h\<rparr>))"
proof -
  let ?h = "\<lambda>k. before_attempt cl q k (gs_host s)"
  obtain o0 h0 where s0: "ht_send cl q (?h 0) = (o0, h0)" by (rule prod.exhaust)
  obtain o1 h1 where s1: "ht_send cl q (?h 1) = (o1, h1)" by (rule prod.exhaust)
  obtain o2 h2 where s2: "ht_send cl q (?h 2) = (o2, h2)" by (rule prod.exhaust)
  have h1: "?h 1 = ht_sleep cl 150 h0" and h2: "?h 2 = ht_sleep cl 300 h1"
    using s0 s1 by (simp_all add: numeral_2_eq_2)
  have two: "send_with_retry cl q s = (map_err RelayIo o2, s\<lparr>gs_host := h2\<rparr>)" if "retriable o0" "retriable o1"
    using that s0 s1 s2 h1 h2
    by (cases o0; cases o1; cases o2) (simp_all add: send_with_retry_def retriable_def)
  have one: "send_with_retry cl q s = (map_err RelayIo o1, s\<lparr>gs_host := h1\<rparr>)" if "retriable o0" "\<not> retriable o1"
    using that s0 s1 h1 by (cases o0; cases o1) (simp_all add: send_with_retry_def retriable_def)
  have zero: "send_with_retry cl q s = (map_err RelayIo o0, s\<lparr>gs_host := h0\<rparr>)" if "\<not> retriable o0"
    using that s0 by (cases o0) (simp_all add: send_with_retry_def retriable_def)
  consider (zero) "\<not> retriable o0" | (one) "retriable o0" "\<not> retriable o1" | (two) "retriable o0" "retriable o1" by blast
  then show ?thesis
  proof cases
    case zero
    then show ?thesis using \<open>\<not> retriable o0 \<Longrightarrow> _\<close> s0 by (intro exI [of _ 0]) simp
  next
    case one
    then show ?thesis using \<open>retriable o0 \<Longrightarrow> \<not> retriable o1 \<Longrightarrow> _\<close> s0 s1
      by (intro exI [of _ 1]) simp
  next
    case two
    have "j < 2 \<Longrightarrow> retriable (fst (ht_send cl q (?h j)))" for j
      using two s0 s1 by (cases "j = 0") (auto simp: less_2_cases_iff)
    then show ?thesis using \<open>retriable o0 \<Longrightarrow> retriable o1 \<Longrightarrow> _\<close> two s2 by (intro exI [of _ 2]) simp
  qed
qed

theorem gcs_retry_exact_witness:
  "send_with_retry (bucket_client\<lparr>ht_send := \<lambda>q h. if h = [] then (Inl ''timed out'', [(''x'', [])]) else (reply 200 [], h)\<rparr>)
     (bare_get ''https://gcs'' []) (bucket_state []) = (map_err RelayIo (reply 200 []), bucket_state [(''x'', [])])"
proof -
  let ?cl = "bucket_client\<lparr>ht_send := \<lambda>q h. if h = [] then (Inl ''timed out'', [(''x'', [])]) else (reply 200 [], h)\<rparr>"
  have h: "before_attempt ?cl q k [] = (if k = 0 then [] else [(''x'', [])])" for q k
    by (induction k) (auto simp: bucket_client_def)
  obtain k where k: "k = (2::nat) \<or> \<not> retriable (fst (ht_send ?cl (bare_get ''https://gcs'' []) (before_attempt ?cl (bare_get ''https://gcs'' []) k [])))"
    and run: "send_with_retry ?cl (bare_get ''https://gcs'' []) (bucket_state []) =
      (case ht_send ?cl (bare_get ''https://gcs'' []) (before_attempt ?cl (bare_get ''https://gcs'' []) k []) of
        (out, h) \<Rightarrow> (map_err RelayIo out, (bucket_state [])\<lparr>gs_host := h\<rparr>))"
    using gcs_retry_exact [of ?cl "bare_get ''https://gcs'' []" "bucket_state []"] by (auto simp: bucket_state_def)
  have "k \<noteq> 0" using k by (cases k) (auto simp: retriable_def)
  with run show ?thesis by (simp add: h bucket_state_def)
qed

text \<open>
  C28: listing the bucket returns.  When the service behaves as documented, so that its pages come to an
  end, the loop over the pages has a result, whatever fails on the way, and the bucket is as before;
  when the result is a list it has every object under the prefix exactly once.
\<close>

theorem gcs_listing_returns:
  assumes "gcs_service L cl cfg contents coming pages"
  shows "\<exists>r s'. list_loop L cl cfg pfx [] None s = Some (r, s') \<and> contents (gs_host s') = contents (gs_host s) \<and>
    (\<forall>ns. r = Inr ns \<longrightarrow> distinct ns \<and> set ns = {n. contents (gs_host s) n \<noteq> None \<and> starts_with n pfx})"
  using gcs_service.list_loop_returns [OF assms, of pfx "[]" None s] gcs_service.all_names [OF assms, of "gs_host s" pfx]
  by auto

theorem gcs_listing_returns_witness:
  "\<exists>s'. list_loop ref_lib bucket_client bucket_config ''repos/r/'' [] None
     (bucket_state [(''repos/r/x'', []), (''repos/q/y'', []), (''repos/r/w'', [])]) =
     Some (Inr [''repos/r/w'', ''repos/r/x''], s')"
proof -
  let ?s = "bucket_state [(''repos/r/x'', []), (''repos/q/y'', []), (''repos/r/w'', [])]"
  obtain r s' where l: "list_loop ref_lib bucket_client bucket_config ''repos/r/'' [] None ?s = Some (r, s')"
    using gcs_listing_returns [OF bucket.gcs_service_axioms, of "''repos/r/''" ?s] by blast
  moreover have "names_after (bucket_names (gs_host ?s) ''repos/r/'') None = [''repos/r/w'', ''repos/r/x'']"
    by (simp add: names_after_def bucket_state_def bucket_names_def starts_with_def)
  ultimately show ?thesis by (simp add: bucket_list_loop)
qed

text \<open>
  C29: what a push to the bucket does, exactly.  When it is accepted under a key that was not used, its
  bundle is valid, the bucket is then what \<open>bucket_after\<close> says with the report under the key, and every
  object of the bundle has its name taken: a name that was free has the canonical bytes of the first object
  of the bundle with that name, and a name that was taken keeps its bytes, which are not compared with the
  object's.  Every object is counted once: where the service answers uploads as documented, the objects put
  under free names are accepted and the rest duplicates, exactly so when every request is answered the
  first time; an upload that took effect but lost its reply is a duplicate when it is sent again.
\<close>

theorem gcs_push_exact:
  assumes "gcs_service L cl cfg contents coming pages" "json_codec L"
    and "gcs_push_bundle L env cl cfg q s = (Inr rep, s')"
    and "contents (gs_host s) (gcs_idempotency_name L (bq_repo_id q) (bq_idempotency_key q)) = None"
  shows "is_ok (bundle_validation_report_of L env q) \<and>
    (\<exists>c j. c = bucket_after L (bq_repo_id q) (bq_objects q) (contents (gs_host s)) \<and>
       (\<forall>obj \<in> set (bq_objects q). c (gcs_object_name L (bq_repo_id q) (co_object_id obj)) \<noteq> None) \<and>
       to_vec_pretty L (push_report_json rep) = Inr j \<and>
       contents (gs_host s') = c(gcs_idempotency_name L (bq_repo_id q) (bq_idempotency_key q) \<mapsto> j)) \<and>
    counted (upload_answers cl cfg contents) (replies_arrive cl) (bq_objects q) (free_names L (bq_repo_id q) (bq_objects q) (contents (gs_host s))) rep \<and>
    bp_object_ids rep = map co_object_id (bq_objects q)"
proof -
  let ?idn = "gcs_idempotency_name L (bq_repo_id q) (bq_idempotency_key q)"
  obtain s0 v where v: "bundle_validation_report_of L env q = Inr v" and s0: "contents (gs_host s0) = contents (gs_host s)"
    and new: "gcs_push_new L cl cfg q s0 = (Inr rep, s')"
    by (rule gcs_service.push_held [OF assms(1,3,4)])
  from gcs_service.push_new_held(2) [OF assms(1) new refl] obtain c j fresh where
    c: "c = bucket_after L (bq_repo_id q) (bq_objects q) (contents (gs_host s))"
      "\<forall>obj \<in> set (bq_objects q). c (gcs_object_name L (bq_repo_id q) (co_object_id obj)) \<noteq> None"
    and j: "created ?idn j c (contents (gs_host s'))" "contents (gs_host s') ?idn \<noteq> None"
    and fresh: "to_vec_pretty L (push_report_json fresh) = Inr j"
      "counted (upload_answers cl cfg contents) (replies_arrive cl) (bq_objects q) (free_names L (bq_repo_id q) (bq_objects q) (contents (gs_host s))) fresh"
      "bp_object_ids fresh = map co_object_id (bq_objects q)"
    and rep: "rep = fresh \<or> (\<exists>x. contents (gs_host s') ?idn = Some x \<and> parse_as L push_report_of_json x = Inr rep)"
    unfolding s0 by blast
  have "find (\<lambda>obj. gcs_object_name L (bq_repo_id q) (co_object_id obj) = ?idn) (bq_objects q) = None"
    by (simp add: find_None_iff)
  then have "c ?idn = None" unfolding c(1) bucket_after_def using assms(4) by simp
  with j have final: "contents (gs_host s') = c(?idn \<mapsto> j)" by (auto simp: created_def)
  with rep report_parses [OF assms(2) fresh(1)] have "rep = fresh" by auto
  with v c fresh final show ?thesis by auto
qed

theorem gcs_push_exact_witness:
  "\<exists>obj x rep s'. gcs_push_bundle ref_lib (\<lambda>_. None) bucket_client bucket_config (ref_push obj) (bucket_state []) = (Inr rep, s') \<and>
     co_body obj = JObject [(''a'', JNull)] \<and> relay_object_bytes ref_lib obj = Inr x \<and>
     map_of (gs_host s') (gcs_object_name ref_lib ''repo'' (co_object_id obj)) = Some x \<and>
     bp_accepted_object_count rep = 1 \<and> bp_duplicate_object_count rep = 0"
proof -
  obtain obj x where o: "fields_ok ref_lib obj" "co_body obj = JObject [(''a'', JNull)]"
    "canonical_object_bytes ref_lib obj = Inr x"
    by (rule ref_object)
  obtain rep s' where run: "gcs_push_bundle ref_lib (\<lambda>_. None) bucket_client bucket_config (ref_push obj) (bucket_state []) = (Inr rep, s')"
    by (rule bucket_push_runs [OF o(1,3)])
  have empty: "map_of (gs_host (bucket_state [])) = Map.empty" by (simp add: bucket_state_def)
  have prompt: "replies_arrive bucket_client"
    unfolding replies_arrive_def retriable_def
    by (intro allI) (metis bucket_replies bucket_client_simps(1) fst_conv sum.case(2))
  have answers: "upload_answers bucket_client bucket_config map_of"
    by (auto simp: upload_answers_def bucket_send_upload reply_def is_success_def PRECONDITION_FAILED_def CONFLICT_def
        split: option.splits)
  have one: "free_names ref_lib ''repo'' [obj] Map.empty = {gcs_object_name ref_lib ''repo'' (co_object_id obj)}"
    by (auto simp: free_names_def)
  have x: "relay_object_bytes ref_lib obj = Inr x" using o(3) by (simp add: relay_bytes_eq)
  have "map_of (gs_host s') (gcs_object_name ref_lib ''repo'' (co_object_id obj)) = Some x \<and>
     bp_accepted_object_count rep = 1 \<and> bp_duplicate_object_count rep = 0"
    using gcs_push_exact [OF bucket.gcs_service_axioms ref_lib_laws(1) run] prompt answers x
    by (auto simp: empty ref_push_def one counted_def bucket_after_def)
  with run o(2) x show ?thesis by blast
qed

text \<open>
  C30: no sequence of requests to a relay on a bucket alters a stored object, and an object that is
  answered with 200 is the one stored.
\<close>

theorem gcs_requests_keep_objects:
  assumes "gcs_service L cl cfg contents coming pages"
    and "contents (gs_host s) (gcs_object_name L r i) = Some b"
  shows "contents (gs_host (snd (serve_all (gcs_store L env cl cfg) tok qs s))) (gcs_object_name L r i) = Some b \<and>
    (\<forall>resp s'. handle (gcs_store L env cl cfg) (GetObject r i) s = (resp, s') \<longrightarrow> resp_status resp = OK \<longrightarrow>
       (\<exists>obj. parse_as L object_of_json b = Inr obj \<and> resp_body resp = ObjectBody obj))"
  using gcs_service.served_held [OF assms, of env tok qs] gcs_service.answered_held [OF assms(1)] assms(2)
  by fastforce

theorem gcs_requests_keep_objects_witness:
  "\<forall>qs. map_of (gs_host (snd (serve_all (gcs_store ref_lib (\<lambda>_. None) bucket_client bucket_config) None qs
     (bucket_state [(gcs_object_name ref_lib ''r'' ''i'', [1])])))) (gcs_object_name ref_lib ''r'' ''i'') = Some [1]"
proof
  fix qs
  have "map_of (gs_host (bucket_state [(gcs_object_name ref_lib ''r'' ''i'', [1])])) (gcs_object_name ref_lib ''r'' ''i'') = Some [1]"
    by (simp add: bucket_state_def)
  from gcs_requests_keep_objects [OF bucket.gcs_service_axioms this]
  show "map_of (gs_host (snd (serve_all (gcs_store ref_lib (\<lambda>_. None) bucket_client bucket_config) None qs
     (bucket_state [(gcs_object_name ref_lib ''r'' ''i'', [1])])))) (gcs_object_name ref_lib ''r'' ''i'') = Some [1]" by blast
qed

text \<open>
  repositories whose names nest are not kept apart.  The repository id goes into object names as it
  is, so the objects of \<open>a/objects/b\<close> are under the prefix of \<open>a\<close>: a complete pull of \<open>a\<close> hands them out.
\<close>

theorem gcs_repositories_overlap:
  assumes "gcs_service L cl cfg contents coming pages"
    and "contents (gs_host s) (gcs_object_name L (a @ ''/objects/'' @ b) i) = Some x"
    and "gcs_pull_bundle L env cl cfg \<lparr>lq_repo_id = a, lq_known_object_ids = [], lq_limit = None\<rparr> s = (Inr rep, s')"
  shows "\<exists>obj \<in> set (lp_objects rep). parse_as L object_of_json x = Inr obj"
proof -
  let ?n = "gcs_object_name L (a @ ''/objects/'' @ b) i"
  have "?n = objects_prefix a @ b @ ''/objects/'' @ key_hash L i @ ''.json''"
    by (simp add: gcs_object_name_def objects_prefix_def)
  then have pfx: "starts_with ?n (objects_prefix a)" by simp
  obtain ns where ns: "set ns = {n. contents (gs_host s) n \<noteq> None \<and> starts_with n (objects_prefix a) \<and> n \<notin> gcs_object_name L a ` {}}"
    and objs: "list_all2 (\<lambda>n obj. \<exists>b. contents (gs_host s) n = Some b \<and> parse_as L object_of_json b = Inr obj \<and>
      validate_stored_object L env a obj = Inr ()) ns (lp_objects rep)"
    by (rule gcs_service.pull_held [OF assms(1,3)]) simp
  from ns pfx assms(2) have "?n \<in> set ns" by simp
  then obtain k where "k < length ns" "ns ! k = ?n" by (auto simp: in_set_conv_nth)
  with list_all2_nthD [OF objs] list_all2_lengthD [OF objs] assms(2) show ?thesis
    by (metis nth_mem option.inject)
qed

theorem gcs_repositories_overlap_witness:
  "\<exists>obj x rep s'. co_body obj = JObject [(''a'', JNull)] \<and> obj \<in> set (lp_objects rep) \<and>
     gcs_pull_bundle ref_lib (\<lambda>_. None) bucket_client bucket_config \<lparr>lq_repo_id = ''r'', lq_known_object_ids = [], lq_limit = None\<rparr>
       (bucket_state [(gcs_object_name ref_lib (''r'' @ ''/objects/'' @ ''s'') (co_object_id obj), x)]) = (Inr rep, s')"
proof -
  obtain obj x where o: "fields_ok ref_lib obj" "co_body obj = JObject [(''a'', JNull)]" "plain_body (co_body obj)"
    "canonical_object_bytes ref_lib obj = Inr x"
    by (rule ref_object)
  let ?n = "gcs_object_name ref_lib (''r'' @ ''/objects/'' @ ''s'') (co_object_id obj)"
  let ?s = "bucket_state [(?n, x)]"
  let ?q = "\<lparr>lq_repo_id = ''r'', lq_known_object_ids = [], lq_limit = None :: u64 option\<rparr>"
  have parse: "parse_as ref_lib object_of_json x = Inr obj"
    using object_bytes_read [OF ref_lib_laws(1) o(3,4)] by (simp add: read_object_bytes_def)
  have held: "map_of (gs_host ?s) ?n = Some x" by (simp add: bucket_state_def)
  have valid: "validate_stored_object ref_lib (\<lambda>_. None) ''r'' obj = Inr ()"
    using o(1) by (simp add: validate_stored_object_def validate_stored_object_with_policy_def validate_object_ok
        signature_enforcement_enabled_def)
  have load: "gcs_load ref_lib (\<lambda>_. None) bucket_client bucket_config ''r'' ?n ?s = (Inr obj, ?s)"
    using parse held valid by (simp add: gcs_load_def read_json_object_def e_bind_def bucket_get)
  have "bucket_names (gs_host ?s) (objects_prefix ''r'') = [] \<or> bucket_names (gs_host ?s) (objects_prefix ''r'') = [?n]"
    by (simp add: bucket_names_def bucket_state_def)
  then have "is_ok (fst (gcs_pull_bundle ref_lib (\<lambda>_. None) bucket_client bucket_config ?q ?s))"
  proof
    assume "bucket_names (gs_host ?s) (objects_prefix ''r'') = []"
    then show ?thesis by (simp add: gcs_pull_bundle_def e_bind_def bucket_list_names Let_def)
  next
    assume "bucket_names (gs_host ?s) (objects_prefix ''r'') = [?n]"
    with load show ?thesis by (simp add: gcs_pull_bundle_def e_bind_def bucket_list_names Let_def)
  qed
  then obtain rep s' where run: "gcs_pull_bundle ref_lib (\<lambda>_. None) bucket_client bucket_config ?q ?s = (Inr rep, s')"
    by (metis is_ok_simps(1) obj_sumE prod.collapse)
  from gcs_repositories_overlap [OF bucket.gcs_service_axioms held run] parse have "obj \<in> set (lp_objects rep)" by auto
  with o(2) run show ?thesis by blast
qed

end
