(* ===== verification/Rdl_Manifests.thy ===== *)
theory Rdl_Manifests
  imports Agent_Schema
begin

text \<open>
  \<^verbatim>\<open>crates/rickydata-git-rdl/src/lib.rs\<close>: the manifest of every command, the classification of
  capabilities into reads and mutations, the exports with their hashes, and the discovery object that
  lists them.  \<^verbatim>\<open>rdl_core\<close> (the type of manifests with its constructor and hashes) is a dependency:
  a parameter.  So is the schema that \<^verbatim>\<open>schemars\<close> derives for a type, given by the type's name.
\<close>

section \<open>The dependency\<close>

text \<open>The three levels the crate names, and the two struct literals it builds.\<close>

datatype fix_safety = FormatOnly | LocalEdit | BehaviorPreserving

record effect_declaration =
  ed_reads :: "str list"
  ed_mutates :: "str list"
  ed_raises :: "str list"
  ed_calls_external :: bool
  ed_allocates :: bool

record error_case =
  ec_name :: str
  ec_description :: str
  ec_http_status :: "nat option"

record 'm rdl_core =
  tm_new :: "str \<Rightarrow> str \<Rightarrow> str \<Rightarrow> str list \<Rightarrow> effect_declaration \<Rightarrow> json \<Rightarrow> error_case list \<Rightarrow> fix_safety \<Rightarrow> 'm"
  tm_name :: "'m \<Rightarrow> str"
  tm_version :: "'m \<Rightarrow> str"
  tm_description :: "'m \<Rightarrow> str"
  tm_capabilities :: "'m \<Rightarrow> str list"
  tm_effects :: "'m \<Rightarrow> effect_declaration"
  tm_fix_safety :: "'m \<Rightarrow> fix_safety"
  tm_output_schema :: "'m \<Rightarrow> json"
  tm_set_output_schema :: "json \<Rightarrow> 'm \<Rightarrow> 'm"
  tm_stable_hash :: "'m \<Rightarrow> str"
  tm_input_schema_hash :: "'m \<Rightarrow> str"
  rdl_json_hash :: "json \<Rightarrow> str"

text \<open>The constructor keeps its arguments, and assigning one field leaves the others alone.\<close>

definition rdl_laws :: "'m rdl_core \<Rightarrow> bool" where
  "rdl_laws R \<longleftrightarrow>
     (\<forall>n v d c e i x f. tm_name R (tm_new R n v d c e i x f) = n \<and> tm_version R (tm_new R n v d c e i x f) = v \<and>
        tm_description R (tm_new R n v d c e i x f) = d \<and> tm_capabilities R (tm_new R n v d c e i x f) = c \<and>
        tm_effects R (tm_new R n v d c e i x f) = e \<and> tm_fix_safety R (tm_new R n v d c e i x f) = f) \<and>
     (\<forall>j m. tm_name R (tm_set_output_schema R j m) = tm_name R m \<and> tm_version R (tm_set_output_schema R j m) = tm_version R m \<and>
        tm_description R (tm_set_output_schema R j m) = tm_description R m \<and>
        tm_capabilities R (tm_set_output_schema R j m) = tm_capabilities R m \<and>
        tm_effects R (tm_set_output_schema R j m) = tm_effects R m \<and>
        tm_fix_safety R (tm_set_output_schema R j m) = tm_fix_safety R m \<and>
        tm_output_schema R (tm_set_output_schema R j m) = j)"

section \<open>Capabilities and effects\<close>

definition CAP_GIT_READ :: str where "CAP_GIT_READ = ''GitRead''"
definition CAP_LOCAL_FILE_READ :: str where "CAP_LOCAL_FILE_READ = ''LocalFileRead''"
definition CAP_LOCAL_FILE_WRITE :: str where "CAP_LOCAL_FILE_WRITE = ''LocalFileWrite''"
definition CAP_LOCAL_METADATA_READ :: str where "CAP_LOCAL_METADATA_READ = ''LocalMetadataRead''"
definition CAP_LOCAL_METADATA_WRITE :: str where "CAP_LOCAL_METADATA_WRITE = ''LocalMetadataWrite''"
definition CAP_GIT_OBJECT_WRITE :: str where "CAP_GIT_OBJECT_WRITE = ''GitObjectWrite''"
definition CAP_GIT_REF_UPDATE :: str where "CAP_GIT_REF_UPDATE = ''GitRefUpdate''"
definition CAP_WORKTREE_CREATE :: str where "CAP_WORKTREE_CREATE = ''WorktreeCreate''"
definition CAP_ISSUE_READ :: str where "CAP_ISSUE_READ = ''IssueRead''"
definition CAP_ISSUE_WRITE :: str where "CAP_ISSUE_WRITE = ''IssueWrite''"
definition CAP_TRACE_WRITE :: str where "CAP_TRACE_WRITE = ''TraceWrite''"
definition CAP_SECRET_DECRYPT :: str where "CAP_SECRET_DECRYPT = ''SecretDecrypt''"
definition CAP_TEE_ATTEST :: str where "CAP_TEE_ATTEST = ''TeeAttest''"
definition CAP_RECEIPT_VERIFY :: str where "CAP_RECEIPT_VERIFY = ''ReceiptVerify''"
definition CAP_PAY_AUTHORIZE :: str where "CAP_PAY_AUTHORIZE = ''PayAuthorize''"
definition CAP_RELAY_READ :: str where "CAP_RELAY_READ = ''RelayRead''"
definition CAP_KFDB_READ :: str where "CAP_KFDB_READ = ''KfdbRead''"
definition CAP_ACTOR_SIGN :: str where "CAP_ACTOR_SIGN = ''ActorSign''"

definition CARGO_PKG_VERSION :: str where "CARGO_PKG_VERSION = ''0.1.0''"

definition is_read_capability :: "str \<Rightarrow> bool" where
  "is_read_capability c \<longleftrightarrow> c = CAP_GIT_READ \<or> c = CAP_LOCAL_FILE_READ \<or> c = CAP_LOCAL_METADATA_READ \<or>
     c = CAP_ISSUE_READ \<or> c = CAP_RELAY_READ \<or> c = CAP_KFDB_READ \<or> c = CAP_RECEIPT_VERIFY"

text \<open>The loop pushes each capability to one of two vectors.\<close>

fun classify_loop :: "str list \<Rightarrow> str list \<Rightarrow> str list \<Rightarrow> str list \<times> str list" where
  "classify_loop reads mutates [] = (reads, mutates)"
| "classify_loop reads mutates (c # cs) =
     (if is_read_capability c then classify_loop (reads @ [c]) mutates cs
      else classify_loop reads (mutates @ [c]) cs)"

definition classify_effects :: "str list \<Rightarrow> effect_declaration" where
  "classify_effects capabilities = (case classify_loop [] [] capabilities of (reads, mutates) \<Rightarrow>
     \<lparr>ed_reads = reads, ed_mutates = mutates, ed_raises = [''CommandError''], ed_calls_external = False,
      ed_allocates = False\<rparr>)"

definition manifest ::
    "'m rdl_core \<Rightarrow> str \<Rightarrow> str \<Rightarrow> str list \<Rightarrow> fix_safety \<Rightarrow> json \<Rightarrow> json \<Rightarrow> 'm" where
  "manifest R name description capabilities_required safety input_schema output_schema =
     tm_set_output_schema R output_schema
       (tm_new R name CARGO_PKG_VERSION description capabilities_required (classify_effects capabilities_required)
          input_schema [\<lparr>ec_name = ''CommandError'',
            ec_description = ''The command failed and returned structured JSON'', ec_http_status = None\<rparr>] safety)"

section \<open>The manifests\<close>

definition command_manifest_export_schema :: json where
  "command_manifest_export_schema = json_obj [(''type'', jstr ''array''), (''title'', jstr ''CommandManifestExportList''),
     (''items'', json_obj [(''type'', jstr ''object''),
        (''description'', jstr ''Flattened RDL ToolManifest plus stable_hash, input_schema_hash, and output_schema_hash'')])]"

definition key_generate_manifest :: "'m rdl_core \<Rightarrow> (str \<Rightarrow> json) \<Rightarrow> 'm" where
  "key_generate_manifest R schema = manifest R ''key_generate''
     ''Generate a fresh ed25519 actor signing key and persist it as raw bytes''
     [CAP_LOCAL_FILE_WRITE, CAP_ACTOR_SIGN] LocalEdit
     (schema ''KeyGenerateInput'') (schema ''KeyGenerateReport'')"

definition key_show_manifest :: "'m rdl_core \<Rightarrow> (str \<Rightarrow> json) \<Rightarrow> 'm" where
  "key_show_manifest R schema = manifest R ''key_show''
     ''Inspect an ed25519 actor signing key file and report its public key''
     [CAP_LOCAL_FILE_READ, CAP_ACTOR_SIGN] FormatOnly
     (schema ''KeyShowInput'') (schema ''KeyShowReport'')"

definition key_init_manifest :: "'m rdl_core \<Rightarrow> (str \<Rightarrow> json) \<Rightarrow> 'm" where
  "key_init_manifest R schema = manifest R ''key_init''
     ''Initialize a named agent signing key at ~/.rickydata/signing-keys/{agent_id}.key''
     [CAP_LOCAL_FILE_WRITE, CAP_ACTOR_SIGN] LocalEdit
     (schema ''KeyInitInput'') (schema ''KeyInitReport'')"

definition repo_init_manifest :: "'m rdl_core \<Rightarrow> (str \<Rightarrow> json) \<Rightarrow> 'm" where
  "repo_init_manifest R schema = manifest R ''repo_init''
     ''Initialize the local Rickydata Git metadata store for a Git repository''
     [CAP_GIT_READ, CAP_LOCAL_METADATA_WRITE] LocalEdit
     (schema ''RepoInitInput'') (schema ''RickydataInitReport'')"

definition repo_status_manifest :: "'m rdl_core \<Rightarrow> (str \<Rightarrow> json) \<Rightarrow> 'm" where
  "repo_status_manifest R schema = manifest R ''repo_status''
     ''Report Git, Rickydata store, verification, and optional remote parity status without mutation''
     [CAP_GIT_READ, CAP_LOCAL_METADATA_READ] FormatOnly
     (schema ''RepoStatusInput'') (schema ''RepoStatusReport'')"

definition attempt_start_manifest :: "'m rdl_core \<Rightarrow> (str \<Rightarrow> json) \<Rightarrow> 'm" where
  "attempt_start_manifest R schema = manifest R ''attempt_start''
     ''Start an immutable AgentAttempt for an existing WorkIntent and allocate a hidden local worktree''
     [CAP_GIT_READ, CAP_LOCAL_METADATA_READ, CAP_LOCAL_METADATA_WRITE, CAP_GIT_OBJECT_WRITE, CAP_GIT_REF_UPDATE, CAP_WORKTREE_CREATE] LocalEdit
     (schema ''AttemptStartInput'') (schema ''AttemptStartReport'')"

definition attempt_list_manifest :: "'m rdl_core \<Rightarrow> (str \<Rightarrow> json) \<Rightarrow> 'm" where
  "attempt_list_manifest R schema = manifest R ''attempt_list''
     ''List repo-native AgentAttempt objects from refs/rickydata''
     [CAP_GIT_READ, CAP_LOCAL_METADATA_READ, CAP_LOCAL_METADATA_WRITE] LocalEdit
     (schema ''AttemptListInput'') (schema ''AttemptListReport'')"

definition attempt_show_manifest :: "'m rdl_core \<Rightarrow> (str \<Rightarrow> json) \<Rightarrow> 'm" where
  "attempt_show_manifest R schema = manifest R ''attempt_show''
     ''Show one repo-native AgentAttempt by attempt id''
     [CAP_GIT_READ, CAP_LOCAL_METADATA_READ, CAP_LOCAL_METADATA_WRITE] LocalEdit
     (schema ''AttemptShowInput'') (schema ''AttemptShowReport'')"

definition attempt_status_manifest :: "'m rdl_core \<Rightarrow> (str \<Rightarrow> json) \<Rightarrow> 'm" where
  "attempt_status_manifest R schema = manifest R ''attempt_status''
     ''Inspect one agent attempt, its effective status, and its worktree diff state''
     [CAP_GIT_READ, CAP_LOCAL_METADATA_READ] FormatOnly
     (schema ''AttemptShowInput'') (schema ''serde_json::Value'')"

definition attempt_abandon_manifest :: "'m rdl_core \<Rightarrow> (str \<Rightarrow> json) \<Rightarrow> 'm" where
  "attempt_abandon_manifest R schema = manifest R ''attempt_abandon''
     ''Record an append-only abandoned status transition for an attempt''
     [CAP_LOCAL_METADATA_WRITE, CAP_GIT_OBJECT_WRITE, CAP_GIT_REF_UPDATE] LocalEdit
     (schema ''AttemptTransitionInput'') (schema ''serde_json::Value'')"

definition attempt_submit_manifest :: "'m rdl_core \<Rightarrow> (str \<Rightarrow> json) \<Rightarrow> 'm" where
  "attempt_submit_manifest R schema = manifest R ''attempt_submit''
     ''Record an append-only submitted status transition for an attempt''
     [CAP_LOCAL_METADATA_WRITE, CAP_GIT_OBJECT_WRITE, CAP_GIT_REF_UPDATE] LocalEdit
     (schema ''AttemptTransitionInput'') (schema ''serde_json::Value'')"

definition repo_inspect_manifest :: "'m rdl_core \<Rightarrow> (str \<Rightarrow> json) \<Rightarrow> 'm" where
  "repo_inspect_manifest R schema = manifest R ''repo_inspect''
     ''Inspect a Git repository without mutating .git state''
     [CAP_GIT_READ] FormatOnly
     (schema ''RepoInspectInput'') (schema ''RepoInspection'')"

definition doctor_manifest :: "'m rdl_core \<Rightarrow> (str \<Rightarrow> json) \<Rightarrow> 'm" where
  "doctor_manifest R schema = manifest R ''doctor''
     ''Report local rickydata_git workspace readiness''
     [CAP_GIT_READ] BehaviorPreserving
     (schema ''DoctorInput'') (schema ''DoctorReport'')"

definition manifest_emit_manifest :: "'m rdl_core \<Rightarrow> (str \<Rightarrow> json) \<Rightarrow> 'm" where
  "manifest_emit_manifest R schema = manifest R ''manifest_emit''
     ''Emit compiled Rickydata Git command manifests''
     [] FormatOnly
     (schema ''ManifestEmitInput'') command_manifest_export_schema"

definition schema_emit_manifest :: "'m rdl_core \<Rightarrow> (str \<Rightarrow> json) \<Rightarrow> 'm" where
  "schema_emit_manifest R schema = manifest R ''schema_emit''
     ''Emit compiled Rickydata Git JSON schema catalog''
     [] FormatOnly
     (schema ''SchemaEmitInput'') (json_obj [(''type'', jstr ''object''), (''title'', jstr ''SchemaCatalog''), (''description'', jstr ''Compiled schema catalog emitted by rickydata-git-agent'')])"

definition discovery_emit_manifest :: "'m rdl_core \<Rightarrow> (str \<Rightarrow> json) \<Rightarrow> 'm" where
  "discovery_emit_manifest R schema = manifest R ''discovery_emit''
     ''Emit the compiled rust-rdl discovery object for a repository''
     [CAP_GIT_READ] FormatOnly
     (schema ''DiscoveryEmitInput'') (schema ''DiscoveryEmitReport'')"

definition issue_import_manifest :: "'m rdl_core \<Rightarrow> (str \<Rightarrow> json) \<Rightarrow> 'm" where
  "issue_import_manifest R schema = manifest R ''issue_import''
     ''Import an external issue into a repo-native WorkIntent''
     [CAP_ISSUE_READ, CAP_GIT_OBJECT_WRITE, CAP_GIT_REF_UPDATE] LocalEdit
     (schema ''IssueImportInput'') (schema ''serde_json::Value'')"

definition work_start_manifest :: "'m rdl_core \<Rightarrow> (str \<Rightarrow> json) \<Rightarrow> 'm" where
  "work_start_manifest R schema = manifest R ''work_start''
     ''Create a WorkIntent from an issue and start an isolated agent attempt''
     [CAP_ISSUE_READ, CAP_GIT_OBJECT_WRITE, CAP_GIT_REF_UPDATE, CAP_WORKTREE_CREATE] LocalEdit
     (schema ''WorkStartInput'') (schema ''serde_json::Value'')"

definition intent_validate_manifest :: "'m rdl_core \<Rightarrow> (str \<Rightarrow> json) \<Rightarrow> 'm" where
  "intent_validate_manifest R schema = manifest R ''intent_validate''
     ''Validate a work intent document before an agent starts work''
     [CAP_LOCAL_FILE_READ] BehaviorPreserving
     (schema ''IntentFileInput'') (schema ''IntentValidationReport'')"

definition intent_hash_manifest :: "'m rdl_core \<Rightarrow> (str \<Rightarrow> json) \<Rightarrow> 'm" where
  "intent_hash_manifest R schema = manifest R ''intent_hash''
     ''Compute a stable canonical hash and validation diagnostics for a work intent document''
     [CAP_LOCAL_FILE_READ] FormatOnly
     (schema ''IntentFileInput'') (schema ''IntentHashReport'')"

definition intent_write_manifest :: "'m rdl_core \<Rightarrow> (str \<Rightarrow> json) \<Rightarrow> 'm" where
  "intent_write_manifest R schema = manifest R ''intent_write''
     ''Validate and persist a WorkIntent as a repo-native agent.intent object''
     [CAP_GIT_READ, CAP_LOCAL_FILE_READ, CAP_LOCAL_METADATA_WRITE, CAP_GIT_OBJECT_WRITE, CAP_GIT_REF_UPDATE] LocalEdit
     (schema ''IntentWriteInput'') (schema ''IntentWriteReport'')"

definition intent_list_manifest :: "'m rdl_core \<Rightarrow> (str \<Rightarrow> json) \<Rightarrow> 'm" where
  "intent_list_manifest R schema = manifest R ''intent_list''
     ''List repo-native WorkIntent objects from refs/rickydata''
     [CAP_GIT_READ, CAP_LOCAL_METADATA_READ] FormatOnly
     (schema ''IntentListInput'') (schema ''IntentListReport'')"

definition intent_show_manifest :: "'m rdl_core \<Rightarrow> (str \<Rightarrow> json) \<Rightarrow> 'm" where
  "intent_show_manifest R schema = manifest R ''intent_show''
     ''Show one repo-native WorkIntent object by object id''
     [CAP_GIT_READ, CAP_LOCAL_METADATA_READ, CAP_LOCAL_METADATA_WRITE] LocalEdit
     (schema ''IntentShowInput'') (schema ''IntentShowReport'')"

definition object_write_manifest :: "'m rdl_core \<Rightarrow> (str \<Rightarrow> json) \<Rightarrow> 'm" where
  "object_write_manifest R schema = manifest R ''object_write''
     ''Write a canonical object envelope into the local cache and refs/rickydata object store''
     [CAP_GIT_READ, CAP_LOCAL_FILE_READ, CAP_LOCAL_METADATA_WRITE, CAP_GIT_OBJECT_WRITE, CAP_GIT_REF_UPDATE] LocalEdit
     (schema ''ObjectWriteInput'') (schema ''ObjectWriteReport'')"

definition object_read_manifest :: "'m rdl_core \<Rightarrow> (str \<Rightarrow> json) \<Rightarrow> 'm" where
  "object_read_manifest R schema = manifest R ''object_read''
     ''Read a canonical object envelope from the local cache or refs/rickydata object store''
     [CAP_GIT_READ, CAP_LOCAL_METADATA_READ, CAP_LOCAL_METADATA_WRITE] LocalEdit
     (schema ''ObjectReadInput'') (schema ''ObjectReadReport'')"

definition object_verify_manifest :: "'m rdl_core \<Rightarrow> (str \<Rightarrow> json) \<Rightarrow> 'm" where
  "object_verify_manifest R schema = manifest R ''object_verify''
     ''Verify a canonical object envelope from the local cache or refs/rickydata object store''
     [CAP_GIT_READ, CAP_LOCAL_METADATA_READ, CAP_LOCAL_METADATA_WRITE] LocalEdit
     (schema ''ObjectVerifyInput'') (schema ''ObjectVerifyReport'')"

definition change_detect_manifest :: "'m rdl_core \<Rightarrow> (str \<Rightarrow> json) \<Rightarrow> 'm" where
  "change_detect_manifest R schema = manifest R ''change_detect''
     ''Detect attempt worktree changes and write repo-native ChangeEvidence''
     [CAP_GIT_READ, CAP_LOCAL_METADATA_READ, CAP_LOCAL_METADATA_WRITE, CAP_GIT_OBJECT_WRITE, CAP_GIT_REF_UPDATE] LocalEdit
     (schema ''ChangeDetectInput'') (schema ''ChangeDetectReport'')"

definition patch_prepare_manifest :: "'m rdl_core \<Rightarrow> (str \<Rightarrow> json) \<Rightarrow> 'm" where
  "patch_prepare_manifest R schema = manifest R ''patch_prepare''
     ''Prepare a repo-native patch summary from existing ChangeEvidence objects''
     [CAP_GIT_READ, CAP_LOCAL_METADATA_READ, CAP_LOCAL_METADATA_WRITE, CAP_GIT_OBJECT_WRITE, CAP_GIT_REF_UPDATE] LocalEdit
     (schema ''PatchPrepareInput'') (schema ''PatchPrepareReport'')"

definition patch_list_manifest :: "'m rdl_core \<Rightarrow> (str \<Rightarrow> json) \<Rightarrow> 'm" where
  "patch_list_manifest R schema = manifest R ''patch_list''
     ''List repo-native PreparedPatch objects from refs/rickydata''
     [CAP_GIT_READ, CAP_LOCAL_METADATA_READ, CAP_LOCAL_METADATA_WRITE] LocalEdit
     (schema ''PatchListInput'') (schema ''PatchListReport'')"

definition patch_show_manifest :: "'m rdl_core \<Rightarrow> (str \<Rightarrow> json) \<Rightarrow> 'm" where
  "patch_show_manifest R schema = manifest R ''patch_show''
     ''Show one repo-native PreparedPatch object by patch id''
     [CAP_GIT_READ, CAP_LOCAL_METADATA_READ, CAP_LOCAL_METADATA_WRITE] LocalEdit
     (schema ''PatchShowInput'') (schema ''PatchShowReport'')"

definition patch_export_manifest :: "'m rdl_core \<Rightarrow> (str \<Rightarrow> json) \<Rightarrow> 'm" where
  "patch_export_manifest R schema = manifest R ''patch_export''
     ''Export a repo-native PreparedPatch as a normal Git patch file''
     [CAP_GIT_READ, CAP_LOCAL_METADATA_READ, CAP_LOCAL_METADATA_WRITE, CAP_LOCAL_FILE_WRITE] LocalEdit
     (schema ''PatchExportInput'') (schema ''PatchExportReport'')"

definition patch_apply_manifest :: "'m rdl_core \<Rightarrow> (str \<Rightarrow> json) \<Rightarrow> 'm" where
  "patch_apply_manifest R schema = manifest R ''patch_apply''
     ''Apply a repo-native PreparedPatch to a clean worktree after Git validation''
     [CAP_GIT_READ, CAP_LOCAL_METADATA_READ, CAP_LOCAL_METADATA_WRITE, CAP_LOCAL_FILE_WRITE] LocalEdit
     (schema ''PatchApplyInput'') (schema ''PatchApplyReport'')"

definition patch_checkout_manifest :: "'m rdl_core \<Rightarrow> (str \<Rightarrow> json) \<Rightarrow> 'm" where
  "patch_checkout_manifest R schema = manifest R ''patch_checkout''
     ''Check out a repo-native PreparedPatch into an isolated review worktree''
     [CAP_GIT_READ, CAP_LOCAL_METADATA_READ, CAP_LOCAL_METADATA_WRITE, CAP_WORKTREE_CREATE, CAP_LOCAL_FILE_WRITE] LocalEdit
     (schema ''PatchCheckoutInput'') (schema ''PatchCheckoutReport'')"

definition patch_retire_manifest :: "'m rdl_core \<Rightarrow> (str \<Rightarrow> json) \<Rightarrow> 'm" where
  "patch_retire_manifest R schema = manifest R ''patch_retire''
     ''Record a repo-native retirement marker for a legacy or superseded PreparedPatch''
     [CAP_GIT_READ, CAP_LOCAL_METADATA_READ, CAP_LOCAL_METADATA_WRITE, CAP_GIT_OBJECT_WRITE, CAP_GIT_REF_UPDATE] LocalEdit
     (schema ''PatchRetireInput'') (schema ''PatchRetireReport'')"

definition patch_review_queue_manifest :: "'m rdl_core \<Rightarrow> (str \<Rightarrow> json) \<Rightarrow> 'm" where
  "patch_review_queue_manifest R schema = manifest R ''patch_review_queue''
     ''List active prepared patches with apply readiness diagnostics''
     [CAP_GIT_READ, CAP_LOCAL_METADATA_READ] FormatOnly
     (schema ''PatchListInput'') (schema ''serde_json::Value'')"

definition sync_pull_manifest :: "'m rdl_core \<Rightarrow> (str \<Rightarrow> json) \<Rightarrow> 'm" where
  "sync_pull_manifest R schema = manifest R ''sync_pull''
     ''Fetch refs/rickydata from a normal Git remote''
     [CAP_GIT_READ, CAP_GIT_REF_UPDATE] LocalEdit
     (schema ''SyncInput'') (schema ''SyncReport'')"

definition sync_status_manifest :: "'m rdl_core \<Rightarrow> (str \<Rightarrow> json) \<Rightarrow> 'm" where
  "sync_status_manifest R schema = manifest R ''sync_status''
     ''Compare local and remote refs/rickydata parity without mutating refs''
     [CAP_GIT_READ] FormatOnly
     (schema ''SyncInput'') (schema ''SyncStatusReport'')"

definition sync_verify_manifest :: "'m rdl_core \<Rightarrow> (str \<Rightarrow> json) \<Rightarrow> 'm" where
  "sync_verify_manifest R schema = manifest R ''sync_verify''
     ''Verify local refs/rickydata objects and prepared patch evidence are recoverable''
     [CAP_GIT_READ, CAP_LOCAL_METADATA_READ, CAP_LOCAL_METADATA_WRITE] LocalEdit
     (schema ''SyncVerifyInput'') (schema ''SyncVerifyReport'')"

definition sync_push_manifest :: "'m rdl_core \<Rightarrow> (str \<Rightarrow> json) \<Rightarrow> 'm" where
  "sync_push_manifest R schema = manifest R ''sync_push''
     ''Push refs/rickydata to a normal Git remote''
     [CAP_GIT_READ, CAP_GIT_REF_UPDATE] LocalEdit
     (schema ''SyncInput'') (schema ''SyncReport'')"

definition relay_push_manifest :: "'m rdl_core \<Rightarrow> (str \<Rightarrow> json) \<Rightarrow> 'm" where
  "relay_push_manifest R schema = manifest R ''relay_push''
     ''Push local Rickydata objects to a relay as a content-addressed bundle''
     [CAP_GIT_READ, CAP_LOCAL_METADATA_READ] LocalEdit
     (schema ''RelayInput'') (schema ''serde_json::Value'')"

definition relay_pull_manifest :: "'m rdl_core \<Rightarrow> (str \<Rightarrow> json) \<Rightarrow> 'm" where
  "relay_pull_manifest R schema = manifest R ''relay_pull''
     ''Pull missing Rickydata objects from a relay into local cache and refs''
     [CAP_LOCAL_METADATA_WRITE, CAP_GIT_OBJECT_WRITE, CAP_GIT_REF_UPDATE] LocalEdit
     (schema ''RelayInput'') (schema ''serde_json::Value'')"

definition relay_status_manifest :: "'m rdl_core \<Rightarrow> (str \<Rightarrow> json) \<Rightarrow> 'm" where
  "relay_status_manifest R schema = manifest R ''relay_status''
     ''Compare local Rickydata object count with relay status''
     [CAP_GIT_READ, CAP_LOCAL_METADATA_READ] FormatOnly
     (schema ''RelayInput'') (schema ''serde_json::Value'')"

definition proof_manifest :: "'m rdl_core \<Rightarrow> (str \<Rightarrow> json) \<Rightarrow> 'm" where
  "proof_manifest R schema = manifest R ''proof''
     ''Verify local Rickydata objects, optional Git remote parity, relay status, and KFDB projections''
     [CAP_GIT_READ, CAP_LOCAL_METADATA_READ, CAP_RELAY_READ, CAP_KFDB_READ] FormatOnly
     (schema ''ProofInput'') (schema ''serde_json::Value'')"

definition receipt_verify_manifest :: "'m rdl_core \<Rightarrow> (str \<Rightarrow> json) \<Rightarrow> 'm" where
  "receipt_verify_manifest R schema = manifest R ''receipt_verify''
     ''Verify signatures on a Rickydata object and optionally check signer TEE health''
     [CAP_GIT_READ, CAP_LOCAL_METADATA_READ, CAP_RECEIPT_VERIFY] FormatOnly
     (schema ''ReceiptVerifyInput'') (schema ''ReceiptVerifyReport'')"

definition change_list_manifest :: "'m rdl_core \<Rightarrow> (str \<Rightarrow> json) \<Rightarrow> 'm" where
  "change_list_manifest R schema = manifest R ''change_list''
     ''List repo-native ChangeEvidence objects from refs/rickydata''
     [CAP_GIT_READ, CAP_LOCAL_METADATA_READ, CAP_LOCAL_METADATA_WRITE] LocalEdit
     (schema ''ChangeListInput'') (schema ''ChangeListReport'')"

definition change_show_manifest :: "'m rdl_core \<Rightarrow> (str \<Rightarrow> json) \<Rightarrow> 'm" where
  "change_show_manifest R schema = manifest R ''change_show''
     ''Show one repo-native ChangeEvidence object by change id''
     [CAP_GIT_READ, CAP_LOCAL_METADATA_READ, CAP_LOCAL_METADATA_WRITE] LocalEdit
     (schema ''ChangeShowInput'') (schema ''ChangeShowReport'')"

definition run_exec_manifest :: "'m rdl_core \<Rightarrow> (str \<Rightarrow> json) \<Rightarrow> 'm" where
  "run_exec_manifest R schema = manifest R ''run_exec''
     ''Execute a command inside an attempt worktree and write AgentRun plus AgentRunTrace evidence''
     [CAP_GIT_READ, CAP_LOCAL_METADATA_READ, CAP_LOCAL_METADATA_WRITE, CAP_GIT_OBJECT_WRITE, CAP_GIT_REF_UPDATE, CAP_TRACE_WRITE] LocalEdit
     (schema ''RunExecInput'') (schema ''RunExecReport'')"

definition run_list_manifest :: "'m rdl_core \<Rightarrow> (str \<Rightarrow> json) \<Rightarrow> 'm" where
  "run_list_manifest R schema = manifest R ''run_list''
     ''List repo-native AgentRun evidence objects from refs/rickydata''
     [CAP_GIT_READ, CAP_LOCAL_METADATA_READ, CAP_LOCAL_METADATA_WRITE] LocalEdit
     (schema ''RunListInput'') (schema ''RunListReport'')"

definition run_show_manifest :: "'m rdl_core \<Rightarrow> (str \<Rightarrow> json) \<Rightarrow> 'm" where
  "run_show_manifest R schema = manifest R ''run_show''
     ''Show one repo-native AgentRun evidence object by run id''
     [CAP_GIT_READ, CAP_LOCAL_METADATA_READ, CAP_LOCAL_METADATA_WRITE] LocalEdit
     (schema ''RunShowInput'') (schema ''RunShowReport'')"

definition command_manifests :: "'m rdl_core \<Rightarrow> (str \<Rightarrow> json) \<Rightarrow> 'm list" where
  "command_manifests R schema =
    [attempt_start_manifest R schema, attempt_list_manifest R schema, attempt_show_manifest R schema,
     attempt_status_manifest R schema, attempt_abandon_manifest R schema, attempt_submit_manifest R schema,
     repo_inspect_manifest R schema, repo_init_manifest R schema, repo_status_manifest R schema,
     doctor_manifest R schema, manifest_emit_manifest R schema, schema_emit_manifest R schema,
     discovery_emit_manifest R schema, issue_import_manifest R schema, work_start_manifest R schema,
     intent_validate_manifest R schema, intent_hash_manifest R schema, intent_list_manifest R schema,
     intent_show_manifest R schema, intent_write_manifest R schema, object_write_manifest R schema,
     object_read_manifest R schema, object_verify_manifest R schema, patch_prepare_manifest R schema,
     patch_list_manifest R schema, patch_show_manifest R schema, patch_export_manifest R schema,
     patch_apply_manifest R schema, patch_checkout_manifest R schema, patch_retire_manifest R schema,
     patch_review_queue_manifest R schema, change_detect_manifest R schema, change_list_manifest R schema,
     change_show_manifest R schema, run_exec_manifest R schema, run_list_manifest R schema,
     run_show_manifest R schema, sync_status_manifest R schema, sync_verify_manifest R schema,
     sync_pull_manifest R schema, sync_push_manifest R schema, relay_push_manifest R schema,
     relay_pull_manifest R schema, relay_status_manifest R schema, proof_manifest R schema,
     receipt_verify_manifest R schema, key_generate_manifest R schema, key_init_manifest R schema,
     key_show_manifest R schema]"

section \<open>Exports and discovery\<close>

record 'm command_manifest_export =
  ce_manifest :: 'm
  ce_stable_hash :: str
  ce_input_schema_hash :: str
  ce_output_schema_hash :: str

definition command_manifest_exports :: "'m rdl_core \<Rightarrow> (str \<Rightarrow> json) \<Rightarrow> 'm command_manifest_export list" where
  "command_manifest_exports R schema = sort_key (\<lambda>e. tm_name R (ce_manifest e))
     (map (\<lambda>m. \<lparr>ce_manifest = m, ce_stable_hash = tm_stable_hash R m, ce_input_schema_hash = tm_input_schema_hash R m,
        ce_output_schema_hash = rdl_json_hash R (tm_output_schema R m)\<rparr>) (command_manifests R schema))"

definition manifest_symbol_name :: "str \<Rightarrow> str" where
  "manifest_symbol_name name = (case map_of
     [(''attempt_start'', ''attempt_start_manifest''),
      (''attempt_list'', ''attempt_list_manifest''),
      (''attempt_show'', ''attempt_show_manifest''),
      (''discovery_emit'', ''discovery_emit_manifest''),
      (''doctor'', ''doctor_manifest''),
      (''intent_hash'', ''intent_hash_manifest''),
      (''intent_list'', ''intent_list_manifest''),
      (''intent_show'', ''intent_show_manifest''),
      (''intent_validate'', ''intent_validate_manifest''),
      (''intent_write'', ''intent_write_manifest''),
      (''manifest_emit'', ''manifest_emit_manifest''),
      (''object_read'', ''object_read_manifest''),
      (''object_verify'', ''object_verify_manifest''),
      (''object_write'', ''object_write_manifest''),
      (''change_detect'', ''change_detect_manifest''),
      (''change_list'', ''change_list_manifest''),
      (''change_show'', ''change_show_manifest''),
      (''patch_apply'', ''patch_apply_manifest''),
      (''patch_checkout'', ''patch_checkout_manifest''),
      (''patch_list'', ''patch_list_manifest''),
      (''patch_export'', ''patch_export_manifest''),
      (''patch_prepare'', ''patch_prepare_manifest''),
      (''patch_retire'', ''patch_retire_manifest''),
      (''patch_show'', ''patch_show_manifest''),
      (''repo_init'', ''repo_init_manifest''),
      (''repo_inspect'', ''repo_inspect_manifest''),
      (''repo_status'', ''repo_status_manifest''),
      (''run_exec'', ''run_exec_manifest''),
      (''run_list'', ''run_list_manifest''),
      (''run_show'', ''run_show_manifest''),
      (''schema_emit'', ''schema_emit_manifest''),
      (''sync_status'', ''sync_status_manifest''),
      (''sync_verify'', ''sync_verify_manifest''),
      (''sync_pull'', ''sync_pull_manifest''),
      (''sync_push'', ''sync_push_manifest''),
      (''receipt_verify'', ''receipt_verify_manifest''),
      (''key_generate'', ''key_generate_manifest''),
      (''key_init'', ''key_init_manifest''),
      (''key_show'', ''key_show_manifest'')] name of
       Some s \<Rightarrow> s | None \<Rightarrow> name)"

definition command_contract_manifest :: "'m rdl_core \<Rightarrow> 'm command_manifest_export \<Rightarrow> contract_manifest" where
  "command_contract_manifest R e = \<lparr>cm_name = tm_name R (ce_manifest e), cm_version = tm_version R (ce_manifest e),
     cm_description = tm_description R (ce_manifest e), cm_capabilities_required = tm_capabilities R (ce_manifest e),
     cm_input_schema_hash = ce_input_schema_hash e, cm_output_schema_hash = Some (ce_output_schema_hash e),
     cm_source_symbols = [\<lparr>sym_language = ''rust'', sym_file_path = ''crates/rickydata-git-rdl/src/lib.rs'',
       sym_symbol_name = manifest_symbol_name (tm_name R (ce_manifest e)), sym_range = None,
       sym_content_hash = ce_stable_hash e\<rparr>]\<rparr>"

definition rdl_discovery_object ::
    "'m rdl_core \<Rightarrow> (str \<Rightarrow> json) \<Rightarrow> str \<Rightarrow> str option \<Rightarrow> str option \<Rightarrow> discovery_object" where
  "rdl_discovery_object R schema repository commit tree_id = \<lparr>disc_repository = repository, disc_commit = commit,
     disc_tree = tree_id,
     disc_language_adapters = [\<lparr>lam_language = ''rust'', lam_adapter_name = ''rust-rdl'',
       lam_adapter_version = CARGO_PKG_VERSION, lam_source = ''compiled:rickydata-git-rdl'',
       lam_supported_object_kinds = [''CommandManifest'', ''ContractManifest'', ''DiscoveryObject'']\<rparr>],
     disc_symbol_index_refs = [],
     disc_contract_manifests = map (command_contract_manifest R) (command_manifest_exports R schema),
     disc_privacy = PublicMetadata, disc_encrypted_body = None\<rparr>"

section \<open>Lemmas\<close>

lemmas cap_defs = CAP_GIT_READ_def CAP_LOCAL_FILE_READ_def CAP_LOCAL_FILE_WRITE_def CAP_LOCAL_METADATA_READ_def CAP_LOCAL_METADATA_WRITE_def CAP_GIT_OBJECT_WRITE_def CAP_GIT_REF_UPDATE_def CAP_WORKTREE_CREATE_def CAP_ISSUE_READ_def CAP_ISSUE_WRITE_def CAP_TRACE_WRITE_def CAP_SECRET_DECRYPT_def CAP_TEE_ATTEST_def CAP_RECEIPT_VERIFY_def CAP_PAY_AUTHORIZE_def CAP_RELAY_READ_def CAP_KFDB_READ_def CAP_ACTOR_SIGN_def

lemmas manifest_defs = key_generate_manifest_def key_show_manifest_def key_init_manifest_def repo_init_manifest_def repo_status_manifest_def attempt_start_manifest_def attempt_list_manifest_def attempt_show_manifest_def attempt_status_manifest_def attempt_abandon_manifest_def attempt_submit_manifest_def repo_inspect_manifest_def doctor_manifest_def manifest_emit_manifest_def schema_emit_manifest_def discovery_emit_manifest_def issue_import_manifest_def work_start_manifest_def intent_validate_manifest_def intent_hash_manifest_def intent_write_manifest_def intent_list_manifest_def intent_show_manifest_def object_write_manifest_def object_read_manifest_def object_verify_manifest_def change_detect_manifest_def patch_prepare_manifest_def patch_list_manifest_def patch_show_manifest_def patch_export_manifest_def patch_apply_manifest_def patch_checkout_manifest_def patch_retire_manifest_def patch_review_queue_manifest_def sync_pull_manifest_def sync_status_manifest_def sync_verify_manifest_def sync_push_manifest_def relay_push_manifest_def relay_pull_manifest_def relay_status_manifest_def proof_manifest_def receipt_verify_manifest_def change_list_manifest_def change_show_manifest_def run_exec_manifest_def run_list_manifest_def run_show_manifest_def

lemma classify_loop_filter:
  "classify_loop rs ms cs = (rs @ filter is_read_capability cs, ms @ filter (\<lambda>c. \<not> is_read_capability c) cs)"
  by (induction cs arbitrary: rs ms) auto

lemma classify_effects_filter:
  "classify_effects cs = \<lparr>ed_reads = filter is_read_capability cs, ed_mutates = filter (\<lambda>c. \<not> is_read_capability c) cs,
     ed_raises = [''CommandError''], ed_calls_external = False, ed_allocates = False\<rparr>"
  by (simp add: classify_effects_def classify_loop_filter)

lemma manifest_fields [simp]:
  assumes "rdl_laws R"
  shows "tm_name R (manifest R n d c f i j) = n" "tm_version R (manifest R n d c f i j) = CARGO_PKG_VERSION"
    "tm_capabilities R (manifest R n d c f i j) = c" "tm_effects R (manifest R n d c f i j) = classify_effects c"
    "tm_fix_safety R (manifest R n d c f i j) = f" "tm_output_schema R (manifest R n d c f i j) = j"
  using assms by (simp_all add: manifest_def rdl_laws_def)

definition manifest_names :: "str list" where
  "manifest_names = [''attempt_start'', ''attempt_list'', ''attempt_show'', ''attempt_status'', ''attempt_abandon'', ''attempt_submit'', ''repo_inspect'', ''repo_init'', ''repo_status'', ''doctor'', ''manifest_emit'', ''schema_emit'', ''discovery_emit'', ''issue_import'', ''work_start'', ''intent_validate'', ''intent_hash'', ''intent_list'', ''intent_show'', ''intent_write'', ''object_write'', ''object_read'', ''object_verify'', ''patch_prepare'', ''patch_list'', ''patch_show'', ''patch_export'', ''patch_apply'', ''patch_checkout'', ''patch_retire'', ''patch_review_queue'', ''change_detect'', ''change_list'', ''change_show'', ''run_exec'', ''run_list'', ''run_show'', ''sync_status'', ''sync_verify'', ''sync_pull'', ''sync_push'', ''relay_push'', ''relay_pull'', ''relay_status'', ''proof'', ''receipt_verify'', ''key_generate'', ''key_init'', ''key_show'']"

lemma command_manifest_names:
  "rdl_laws R \<Longrightarrow> map (tm_name R) (command_manifests R schema) = manifest_names"
  by (simp add: command_manifests_def manifest_defs manifest_names_def)

lemma manifest_names_distinct: "distinct manifest_names"
  by code_simp

text \<open>Names, capabilities and labels as a table, for evaluation.\<close>

definition manifest_table :: "(str \<times> str list \<times> fix_safety) list" where
  "manifest_table = [(''attempt_start'', [CAP_GIT_READ, CAP_LOCAL_METADATA_READ, CAP_LOCAL_METADATA_WRITE, CAP_GIT_OBJECT_WRITE, CAP_GIT_REF_UPDATE, CAP_WORKTREE_CREATE], LocalEdit),
     (''attempt_list'', [CAP_GIT_READ, CAP_LOCAL_METADATA_READ, CAP_LOCAL_METADATA_WRITE], LocalEdit),
     (''attempt_show'', [CAP_GIT_READ, CAP_LOCAL_METADATA_READ, CAP_LOCAL_METADATA_WRITE], LocalEdit),
     (''attempt_status'', [CAP_GIT_READ, CAP_LOCAL_METADATA_READ], FormatOnly),
     (''attempt_abandon'', [CAP_LOCAL_METADATA_WRITE, CAP_GIT_OBJECT_WRITE, CAP_GIT_REF_UPDATE], LocalEdit),
     (''attempt_submit'', [CAP_LOCAL_METADATA_WRITE, CAP_GIT_OBJECT_WRITE, CAP_GIT_REF_UPDATE], LocalEdit),
     (''repo_inspect'', [CAP_GIT_READ], FormatOnly),
     (''repo_init'', [CAP_GIT_READ, CAP_LOCAL_METADATA_WRITE], LocalEdit),
     (''repo_status'', [CAP_GIT_READ, CAP_LOCAL_METADATA_READ], FormatOnly),
     (''doctor'', [CAP_GIT_READ], BehaviorPreserving),
     (''manifest_emit'', [], FormatOnly),
     (''schema_emit'', [], FormatOnly),
     (''discovery_emit'', [CAP_GIT_READ], FormatOnly),
     (''issue_import'', [CAP_ISSUE_READ, CAP_GIT_OBJECT_WRITE, CAP_GIT_REF_UPDATE], LocalEdit),
     (''work_start'', [CAP_ISSUE_READ, CAP_GIT_OBJECT_WRITE, CAP_GIT_REF_UPDATE, CAP_WORKTREE_CREATE], LocalEdit),
     (''intent_validate'', [CAP_LOCAL_FILE_READ], BehaviorPreserving),
     (''intent_hash'', [CAP_LOCAL_FILE_READ], FormatOnly),
     (''intent_list'', [CAP_GIT_READ, CAP_LOCAL_METADATA_READ], FormatOnly),
     (''intent_show'', [CAP_GIT_READ, CAP_LOCAL_METADATA_READ, CAP_LOCAL_METADATA_WRITE], LocalEdit),
     (''intent_write'', [CAP_GIT_READ, CAP_LOCAL_FILE_READ, CAP_LOCAL_METADATA_WRITE, CAP_GIT_OBJECT_WRITE, CAP_GIT_REF_UPDATE], LocalEdit),
     (''object_write'', [CAP_GIT_READ, CAP_LOCAL_FILE_READ, CAP_LOCAL_METADATA_WRITE, CAP_GIT_OBJECT_WRITE, CAP_GIT_REF_UPDATE], LocalEdit),
     (''object_read'', [CAP_GIT_READ, CAP_LOCAL_METADATA_READ, CAP_LOCAL_METADATA_WRITE], LocalEdit),
     (''object_verify'', [CAP_GIT_READ, CAP_LOCAL_METADATA_READ, CAP_LOCAL_METADATA_WRITE], LocalEdit),
     (''patch_prepare'', [CAP_GIT_READ, CAP_LOCAL_METADATA_READ, CAP_LOCAL_METADATA_WRITE, CAP_GIT_OBJECT_WRITE, CAP_GIT_REF_UPDATE], LocalEdit),
     (''patch_list'', [CAP_GIT_READ, CAP_LOCAL_METADATA_READ, CAP_LOCAL_METADATA_WRITE], LocalEdit),
     (''patch_show'', [CAP_GIT_READ, CAP_LOCAL_METADATA_READ, CAP_LOCAL_METADATA_WRITE], LocalEdit),
     (''patch_export'', [CAP_GIT_READ, CAP_LOCAL_METADATA_READ, CAP_LOCAL_METADATA_WRITE, CAP_LOCAL_FILE_WRITE], LocalEdit),
     (''patch_apply'', [CAP_GIT_READ, CAP_LOCAL_METADATA_READ, CAP_LOCAL_METADATA_WRITE, CAP_LOCAL_FILE_WRITE], LocalEdit),
     (''patch_checkout'', [CAP_GIT_READ, CAP_LOCAL_METADATA_READ, CAP_LOCAL_METADATA_WRITE, CAP_WORKTREE_CREATE, CAP_LOCAL_FILE_WRITE], LocalEdit),
     (''patch_retire'', [CAP_GIT_READ, CAP_LOCAL_METADATA_READ, CAP_LOCAL_METADATA_WRITE, CAP_GIT_OBJECT_WRITE, CAP_GIT_REF_UPDATE], LocalEdit),
     (''patch_review_queue'', [CAP_GIT_READ, CAP_LOCAL_METADATA_READ], FormatOnly),
     (''change_detect'', [CAP_GIT_READ, CAP_LOCAL_METADATA_READ, CAP_LOCAL_METADATA_WRITE, CAP_GIT_OBJECT_WRITE, CAP_GIT_REF_UPDATE], LocalEdit),
     (''change_list'', [CAP_GIT_READ, CAP_LOCAL_METADATA_READ, CAP_LOCAL_METADATA_WRITE], LocalEdit),
     (''change_show'', [CAP_GIT_READ, CAP_LOCAL_METADATA_READ, CAP_LOCAL_METADATA_WRITE], LocalEdit),
     (''run_exec'', [CAP_GIT_READ, CAP_LOCAL_METADATA_READ, CAP_LOCAL_METADATA_WRITE, CAP_GIT_OBJECT_WRITE, CAP_GIT_REF_UPDATE, CAP_TRACE_WRITE], LocalEdit),
     (''run_list'', [CAP_GIT_READ, CAP_LOCAL_METADATA_READ, CAP_LOCAL_METADATA_WRITE], LocalEdit),
     (''run_show'', [CAP_GIT_READ, CAP_LOCAL_METADATA_READ, CAP_LOCAL_METADATA_WRITE], LocalEdit),
     (''sync_status'', [CAP_GIT_READ], FormatOnly),
     (''sync_verify'', [CAP_GIT_READ, CAP_LOCAL_METADATA_READ, CAP_LOCAL_METADATA_WRITE], LocalEdit),
     (''sync_pull'', [CAP_GIT_READ, CAP_GIT_REF_UPDATE], LocalEdit),
     (''sync_push'', [CAP_GIT_READ, CAP_GIT_REF_UPDATE], LocalEdit),
     (''relay_push'', [CAP_GIT_READ, CAP_LOCAL_METADATA_READ], LocalEdit),
     (''relay_pull'', [CAP_LOCAL_METADATA_WRITE, CAP_GIT_OBJECT_WRITE, CAP_GIT_REF_UPDATE], LocalEdit),
     (''relay_status'', [CAP_GIT_READ, CAP_LOCAL_METADATA_READ], FormatOnly),
     (''proof'', [CAP_GIT_READ, CAP_LOCAL_METADATA_READ, CAP_RELAY_READ, CAP_KFDB_READ], FormatOnly),
     (''receipt_verify'', [CAP_GIT_READ, CAP_LOCAL_METADATA_READ, CAP_RECEIPT_VERIFY], FormatOnly),
     (''key_generate'', [CAP_LOCAL_FILE_WRITE, CAP_ACTOR_SIGN], LocalEdit),
     (''key_init'', [CAP_LOCAL_FILE_WRITE, CAP_ACTOR_SIGN], LocalEdit),
     (''key_show'', [CAP_LOCAL_FILE_READ, CAP_ACTOR_SIGN], FormatOnly)]"

lemma command_manifest_table:
  "rdl_laws R \<Longrightarrow> map (\<lambda>m. (tm_name R m, tm_capabilities R m, tm_fix_safety R m)) (command_manifests R schema) = manifest_table"
  by (simp add: command_manifests_def manifest_defs manifest_table_def)

lemma manifest_table_labels:
  "list_all (\<lambda>(n, c, f). f = FormatOnly \<and> \<not> list_all is_read_capability c \<longleftrightarrow> n = ''key_show'') manifest_table"
  by code_simp

lemma manifest_made:
  assumes "m \<in> set (command_manifests R schema)"
  shows "\<exists>n d c f i j. m = manifest R n d c f i j"
  using assms unfolding command_manifests_def manifest_defs by (simp only: set_simps insert_iff empty_iff) blast

section \<open>A reference instance\<close>

record ref_manifest =
  rm_name :: str
  rm_version :: str
  rm_description :: str
  rm_capabilities :: "str list"
  rm_effects :: effect_declaration
  rm_safety :: fix_safety
  rm_output :: json

definition ref_rdl :: "ref_manifest rdl_core" where
  "ref_rdl = \<lparr>tm_new = (\<lambda>n v d c e i x f. \<lparr>rm_name = n, rm_version = v, rm_description = d, rm_capabilities = c,
       rm_effects = e, rm_safety = f, rm_output = JNull\<rparr>),
     tm_name = rm_name, tm_version = rm_version, tm_description = rm_description, tm_capabilities = rm_capabilities,
     tm_effects = rm_effects, tm_fix_safety = rm_safety, tm_output_schema = rm_output,
     tm_set_output_schema = (\<lambda>j m. m\<lparr>rm_output := j\<rparr>), tm_stable_hash = rm_name, tm_input_schema_hash = rm_name,
     rdl_json_hash = (\<lambda>_. ''h'')\<rparr>"

lemma ref_rdl_laws: "rdl_laws ref_rdl"
  by (simp add: rdl_laws_def ref_rdl_def)

section \<open>Properties\<close>

text \<open>
  the effects of a command are its capabilities.  Every manifest declares as reads its reading
  capabilities and as mutations the others, in their order and without a loss, and a command that
  mutates is labelled \<^verbatim>\<open>FormatOnly\<close> in one case only, \<^verbatim>\<open>key_show\<close>, which signs nothing but declares the
  signing capability.
\<close>

theorem effects_declared_exactly:
  assumes "rdl_laws R" "m \<in> set (command_manifests R schema)"
  shows "ed_reads (tm_effects R m) = filter is_read_capability (tm_capabilities R m) \<and>
    ed_mutates (tm_effects R m) = filter (\<lambda>c. \<not> is_read_capability c) (tm_capabilities R m) \<and>
    set (ed_reads (tm_effects R m)) \<union> set (ed_mutates (tm_effects R m)) = set (tm_capabilities R m) \<and>
    (tm_fix_safety R m = FormatOnly \<and> ed_mutates (tm_effects R m) \<noteq> [] \<longleftrightarrow> tm_name R m = ''key_show'')"
proof -
  obtain n d c f i j where m: "m = manifest R n d c f i j" using manifest_made [OF assms(2)] by blast
  have "\<forall>m \<in> set (command_manifests R schema).
      tm_fix_safety R m = FormatOnly \<and> filter (\<lambda>c. \<not> is_read_capability c) (tm_capabilities R m) \<noteq> [] \<longleftrightarrow> tm_name R m = ''key_show''"
  proof
    fix m assume "m \<in> set (command_manifests R schema)"
    then have "(tm_name R m, tm_capabilities R m, tm_fix_safety R m) \<in> set manifest_table"
      unfolding command_manifest_table [OF assms(1), of schema, symmetric] unfolding set_map by (rule imageI)
    with manifest_table_labels
    show "tm_fix_safety R m = FormatOnly \<and> filter (\<lambda>c. \<not> is_read_capability c) (tm_capabilities R m) \<noteq> [] \<longleftrightarrow> tm_name R m = ''key_show''"
      by (fastforce simp: list_all_iff filter_empty_conv)
  qed
  with assms m show ?thesis by (auto simp: classify_effects_filter)
qed

theorem effects_declared_exactly_witness:
  "ed_mutates (tm_effects ref_rdl (run_exec_manifest ref_rdl (\<lambda>_. JNull))) =
    [CAP_LOCAL_METADATA_WRITE, CAP_GIT_OBJECT_WRITE, CAP_GIT_REF_UPDATE, CAP_TRACE_WRITE]"
proof -
  have "run_exec_manifest ref_rdl (\<lambda>_. JNull) \<in> set (command_manifests ref_rdl (\<lambda>_. JNull))"
    by (simp add: command_manifests_def)
  from effects_declared_exactly [OF ref_rdl_laws this]
  have "ed_mutates (tm_effects ref_rdl (run_exec_manifest ref_rdl (\<lambda>_. JNull))) =
    filter (\<lambda>c. \<not> is_read_capability c) (tm_capabilities ref_rdl (run_exec_manifest ref_rdl (\<lambda>_. JNull)))" by simp
  then show ?thesis
    using ref_rdl_laws by (simp add: run_exec_manifest_def is_read_capability_def cap_defs)
qed

lemma map_sort_key: "map f (sort_key f xs) = sort (map f xs)"
proof (induction xs)
  case (Cons x xs)
  have "map f (insort_key f x ys) = insort (f x) (map f ys)" for ys by (induction ys) auto
  with Cons show ?case by simp
qed simp

definition unnamed_symbols :: "str list" where
  "unnamed_symbols = [''attempt_status'', ''attempt_abandon'', ''attempt_submit'', ''issue_import'', ''work_start'', ''patch_review_queue'', ''relay_push'', ''relay_pull'', ''relay_status'', ''proof'']"

lemma symbol_names:
  "list_all (\<lambda>n. manifest_symbol_name n = (if n \<in> set unnamed_symbols then n else n @ ''_manifest'')) manifest_names"
  by code_simp

text \<open>
  the catalogue is complete.  The exports list every command once, in the order of the names, with
  the hashes of its own manifest, and the discovery object has one contract for each; the source symbol of
  a contract is the function that makes the manifest, except for ten commands the table forgets, whose
  contracts name a function that does not exist.
\<close>

theorem catalogue_complete:
  assumes "rdl_laws R"
  shows "map cm_name (disc_contract_manifests (rdl_discovery_object R schema repo commit tree_id)) = sort manifest_names \<and>
    distinct (sort manifest_names) \<and>
    (\<forall>e \<in> set (command_manifest_exports R schema).
       ce_manifest e \<in> set (command_manifests R schema) \<and> ce_stable_hash e = tm_stable_hash R (ce_manifest e) \<and>
       ce_output_schema_hash e = rdl_json_hash R (tm_output_schema R (ce_manifest e)) \<and>
       map sym_symbol_name (cm_source_symbols (command_contract_manifest R e)) =
         [if tm_name R (ce_manifest e) \<in> set unnamed_symbols then tm_name R (ce_manifest e)
          else tm_name R (ce_manifest e) @ ''_manifest''])"
proof (intro conjI ballI)
  have names: "map (\<lambda>e. tm_name R (ce_manifest e)) (command_manifest_exports R schema) = sort manifest_names"
    by (simp add: command_manifest_exports_def map_sort_key o_def command_manifest_names [OF assms])
  then show "map cm_name (disc_contract_manifests (rdl_discovery_object R schema repo commit tree_id)) = sort manifest_names"
    by (simp add: rdl_discovery_object_def o_def command_contract_manifest_def)
  show "distinct (sort manifest_names)" by (simp add: manifest_names_distinct)
  fix e assume e: "e \<in> set (command_manifest_exports R schema)"
  then show "ce_manifest e \<in> set (command_manifests R schema)" "ce_stable_hash e = tm_stable_hash R (ce_manifest e)"
    "ce_output_schema_hash e = rdl_json_hash R (tm_output_schema R (ce_manifest e))"
    by (auto simp: command_manifest_exports_def)
  from e names have "tm_name R (ce_manifest e) \<in> set manifest_names" by (metis (no_types, lifting) image_eqI list.set_map set_sort)
  with symbol_names [unfolded list_all_iff] show "map sym_symbol_name (cm_source_symbols (command_contract_manifest R e)) =
         [if tm_name R (ce_manifest e) \<in> set unnamed_symbols then tm_name R (ce_manifest e)
          else tm_name R (ce_manifest e) @ ''_manifest'']"
    by (simp add: command_contract_manifest_def)
qed

theorem catalogue_complete_witness:
  "length (disc_contract_manifests (rdl_discovery_object ref_rdl (\<lambda>_. JNull) ''repo'' None None)) = 49"
proof -
  have "length (map cm_name (disc_contract_manifests (rdl_discovery_object ref_rdl (\<lambda>_. JNull) ''repo'' None None))) =
      length (sort manifest_names)"
    using catalogue_complete [OF ref_rdl_laws, of "\<lambda>_. JNull" "''repo''" None None] by (simp only:)
  then show ?thesis by (simp add: manifest_names_def)
qed

end
