(* ===== verification/Cli_Text.thy ===== *)
theory Cli_Text
  imports Agent_Schema Git_Integrity
begin

text \<open>
  The pure helpers of \<^verbatim>\<open>crates/rickydata-git-cli/src/main.rs\<close>: hexadecimal for patches, reference
  listings and their comparison, diff statistics, names of files and repositories, intents made from
  issues, ids of attempts.  An error of the command line (\<^verbatim>\<open>anyhow\<close>) is the text of its outermost message.
\<close>

section \<open>Lossy decoding and numbers\<close>

text \<open>\<^verbatim>\<open>String::from_utf8_lossy\<close>: every maximal ill-formed part becomes one U+FFFD.\<close>

definition cont_byte :: "nat \<Rightarrow> bool" where
  "cont_byte b \<longleftrightarrow> 128 \<le> b \<and> b \<le> 191"

definition second_ok :: "nat \<Rightarrow> nat \<Rightarrow> bool" where
  "second_ok a b \<longleftrightarrow>
     (if a = 224 then 160 else if a = 240 then 144 else 128) \<le> b \<and>
     b \<le> (if a = 237 then 159 else if a = 244 then 143 else 191)"

definition REPLACEMENT :: "nat list" where "REPLACEMENT = [239, 191, 189]"

text \<open>How many bytes the sequence at the front takes, and whether it is well formed.\<close>

definition utf8_step :: "nat list \<Rightarrow> bool \<times> nat" where
  "utf8_step bs = (case bs of
     [] \<Rightarrow> (True, 0)
   | a # r \<Rightarrow>
       if a < 128 then (True, 1)
       else if 194 \<le> a \<and> a \<le> 223 then (case r of b # _ \<Rightarrow> if cont_byte b then (True, 2) else (False, 1) | [] \<Rightarrow> (False, 1))
       else if 224 \<le> a \<and> a \<le> 239 then
         (case r of b # c # _ \<Rightarrow> if \<not> second_ok a b then (False, 1) else if cont_byte c then (True, 3) else (False, 2)
          | [b] \<Rightarrow> if second_ok a b then (False, 2) else (False, 1) | [] \<Rightarrow> (False, 1))
       else if 240 \<le> a \<and> a \<le> 244 then
         (case r of b # c # d # _ \<Rightarrow> if \<not> second_ok a b then (False, 1) else if \<not> cont_byte c then (False, 2)
              else if cont_byte d then (True, 4) else (False, 3)
          | [b, c] \<Rightarrow> if \<not> second_ok a b then (False, 1) else if cont_byte c then (False, 3) else (False, 2)
          | [b] \<Rightarrow> if second_ok a b then (False, 2) else (False, 1) | [] \<Rightarrow> (False, 1))
       else (False, 1))"

function utf8_lossy :: "nat list \<Rightarrow> nat list" where
  "utf8_lossy [] = []"
| "utf8_lossy (a # r) = (case utf8_step (a # r) of
     (ok, n) \<Rightarrow> (if ok then take n (a # r) else REPLACEMENT) @ utf8_lossy (drop (max 1 n) (a # r)))"
  by pat_completeness auto
termination by (relation "measure length") auto

definition from_utf8_lossy :: "bytes \<Rightarrow> str" where
  "from_utf8_lossy b = map char_of (utf8_lossy (map unat b))"

definition digit_value :: "char \<Rightarrow> nat option" where
  "digit_value c = map_of (zip ''0123456789abcdefABCDEF'' [0, 1, 2, 3, 4, 5, 6, 7, 8, 9, 10, 11, 12, 13, 14, 15, 10, 11, 12, 13, 14, 15]) c"

text \<open>\<^verbatim>\<open>from_str_radix\<close> on an unsigned type: an optional plus sign, at least one digit, no overflow.\<close>

fun digits_value :: "nat \<Rightarrow> nat \<Rightarrow> str \<Rightarrow> nat option" where
  "digits_value radix acc [] = Some acc"
| "digits_value radix acc (c # cs) = (case digit_value c of
     None \<Rightarrow> None
   | Some d \<Rightarrow> if d < radix then digits_value radix (acc * radix + d) cs else None)"

definition parse_unsigned :: "nat \<Rightarrow> nat \<Rightarrow> str \<Rightarrow> nat option" where
  "parse_unsigned radix bound s =
     (let ds = (if s \<noteq> [] \<and> hd s = CHR ''+'' \<and> tl s \<noteq> [] then tl s else s) in
      if ds = [] then None
      else (case digits_value radix 0 ds of Some n \<Rightarrow> if n < bound then Some n else None | None \<Rightarrow> None))"

definition parse_u64 :: "str \<Rightarrow> u64 option" where
  "parse_u64 s = map_option of_nat (parse_unsigned 10 (2 ^ 64) s)"

section \<open>Hexadecimal of a patch\<close>

datatype cli_error = Bail str | Panicked str

definition encode_hex :: "bytes \<Rightarrow> str" where
  "encode_hex bs = concat (map (\<lambda>b. [hex_digit (unat (drop_bit 4 b)), hex_digit (unat (b AND 0x0F))]) bs)"

text \<open>A slice may only be taken between characters: a continuation byte at an end of it is a panic.\<close>

definition char_boundary :: "str \<Rightarrow> nat \<Rightarrow> bool" where
  "char_boundary s i \<longleftrightarrow> i = 0 \<or> i = length s \<or> (i < length s \<and> \<not> cont_byte (of_char (s ! i)))"

fun decode_from :: "nat \<Rightarrow> str \<Rightarrow> str \<Rightarrow> cli_error + bytes" where
  "decode_from i whole (a # b # r) =
     (if \<not> char_boundary whole i \<or> \<not> char_boundary whole (i + 2) then Inl (Panicked ''byte index is not a char boundary'')
      else (case parse_unsigned 16 256 [a, b] of
          None \<Rightarrow> Inl (Bail (''invalid hex byte at offset '' @ show_nat i))
        | Some n \<Rightarrow> r_map ((#) (of_nat n)) (decode_from (i + 2) whole r)))"
| "decode_from i whole s = Inr []"

definition decode_hex :: "str \<Rightarrow> cli_error + bytes" where
  "decode_hex s = (if length s mod 2 \<noteq> 0 then Inl (Bail ''hex-encoded patch diff has odd length'') else decode_from 0 s s)"

section \<open>Lists, names, ids\<close>

definition sorted_dedup :: "str list \<Rightarrow> str list" where
  "sorted_dedup values = remdups_adj (sort values)"

definition bytes_hash :: "lib \<Rightarrow> bytes \<Rightarrow> str" where
  "bytes_hash L b = ''sha256:'' @ lower_hex (sha256 L b)"

definition core_bail :: "core_error + 'a \<Rightarrow> cli_error + 'a" where
  "core_bail r = map_err (\<lambda>e. Bail (core_error_text e)) r"

text \<open>One underscore for each character that is not allowed, however many bytes it has.\<close>

definition sanitize_agent_filename :: "str \<Rightarrow> str" where
  "sanitize_agent_filename agent = concat (map (\<lambda>c.
     if is_ascii_alphanumeric c \<or> c \<in> set ''-_.'' then [c]
     else if cont_byte (of_char c) then [] else ''_'') agent)"

definition agent_key_path :: "(str \<Rightarrow> str option) \<Rightarrow> str \<Rightarrow> str list" where
  "agent_key_path env agent_id =
     [(case env ''HOME'' of Some h \<Rightarrow> h | None \<Rightarrow> ''.''), ''.rickydata'', ''signing-keys'',
      replace_char CHR '':'' CHR ''_'' agent_id @ ''.key'']"

definition parse_privacy_class :: "str \<Rightarrow> cli_error + privacy_class" where
  "parse_privacy_class value =
     (if value = ''public_metadata'' then Inr PublicMetadata
      else if value = ''private_body'' then Inr PrivateBody
      else if value = ''secret'' then Inr Secret
      else if value = ''encrypted'' then Inr Encrypted
      else Inl (Bail (''unsupported privacy class `'' @ value @ ''`'')))"

definition ensure_safe_repo_id :: "str \<Rightarrow> cli_error + unit" where
  "ensure_safe_repo_id repo_id =
     (if repo_id = [] \<or> \<not> list_all (\<lambda>c. is_ascii_alphanumeric c \<or> c \<in> set ''._-'') repo_id
      then Inl (Bail (''relay repo id `'' @ repo_id @
             ''` is invalid; use only ASCII letters, numbers, dot, underscore, and dash''))
      else Inr ())"

definition relay_url :: "str \<Rightarrow> str \<Rightarrow> str \<Rightarrow> cli_error + str" where
  "relay_url base_url repo_id path_suffix =
     r_bind (ensure_safe_repo_id repo_id) (\<lambda>_.
       Inr (trim_end_char CHR ''/'' base_url @ ''/v1/repos/'' @ repo_id @ ''/'' @ path_suffix))"

definition object_ref_name_from_id :: "str \<Rightarrow> cli_error + str" where
  "object_ref_name_from_id object_id = (case strip_prefix ''sha256:'' object_id of
     None \<Rightarrow> Inl (Bail ''object id should be a sha256 object id'')
   | Some hex \<Rightarrow>
       if length hex \<noteq> 64 \<or> \<not> list_all is_ascii_hexdigit hex
       then Inl (Bail ''object id should include 64 hex characters'')
       else Inr (''refs/rickydata/objects/sha256/'' @ take 2 hex @ ''/'' @ hex))"

definition compute_attempt_id :: "lib \<Rightarrow> str \<Rightarrow> str \<Rightarrow> str option \<Rightarrow> str \<Rightarrow> cli_error + str" where
  "compute_attempt_id L intent_id agent_id idempotency_key base_commit =
     core_bail (stable_json_hash L (json_obj [(''intent_id'', jstr intent_id), (''agent_id'', jstr agent_id),
       (''base_commit'', jstr base_commit),
       (''idempotency_key'', jstr (case idempotency_key of Some k \<Rightarrow> k | None \<Rightarrow> ''default''))]))"

text \<open>The intent of an issue; without one, of a task named after the time.\<close>

record issue_intent_fields =
  iif_platform :: str
  iif_repository :: "str option"
  iif_issue_id :: "str option"
  iif_url :: "str option"
  iif_objective :: str
  iif_base_commit :: "str option"
  iif_created_by :: "str option"
  iif_privacy :: privacy_class

definition issue_import_intent :: "u64 \<Rightarrow> issue_intent_fields \<Rightarrow> work_intent" where
  "issue_import_intent now f =
     (let issue_refs = (case (iif_repository f, iif_issue_id f) of
            (Some repository, Some i) \<Rightarrow> [\<lparr>iss_platform = iif_platform f, iss_repository = repository, iss_id = i, iss_url = iif_url f\<rparr>]
          | _ \<Rightarrow> []);
          task_refs = (if issue_refs = []
            then [\<lparr>task_system = ''agent'', task_id = ''work-'' @ show_nat (unat now), task_title = Some (iif_objective f)\<rparr>]
            else [])
      in \<lparr>wi_objective = iif_objective f, wi_issue_refs = issue_refs, wi_task_refs = task_refs,
          wi_base_commit = iif_base_commit f, wi_allowed_capabilities = [], wi_privacy = iif_privacy f,
          wi_tee_policy = None, wi_release_guard = None, wi_created_by = iif_created_by f\<rparr>)"

section \<open>Diff statistics\<close>

text \<open>The two loops of \<^verbatim>\<open>summarize_diff\<close>; the sums are \<^verbatim>\<open>u64\<close> and wrap in a release build.\<close>

definition numstat_line :: "diff_summary \<Rightarrow> str \<Rightarrow> diff_summary" where
  "numstat_line d line = (case split_on CHR 0x09 line of
     insertions # deletions # _ \<Rightarrow>
       if insertions = ''-'' \<or> deletions = ''-'' then d\<lparr>ds_binary_file_count := ds_binary_file_count d + 1\<rparr>
       else d\<lparr>ds_insertions := ds_insertions d + (case parse_u64 insertions of Some n \<Rightarrow> n | None \<Rightarrow> 0),
              ds_deletions := ds_deletions d + (case parse_u64 deletions of Some n \<Rightarrow> n | None \<Rightarrow> 0)\<rparr>
   | _ \<Rightarrow> d)"

definition name_status_line :: "diff_summary \<Rightarrow> str \<Rightarrow> diff_summary" where
  "name_status_line d line = (case hd (split_on CHR 0x09 line) of
     [] \<Rightarrow> d
   | c # _ \<Rightarrow>
       if c = CHR ''A'' then d\<lparr>ds_files_added := ds_files_added d + 1\<rparr>
       else if c = CHR ''D'' then d\<lparr>ds_files_deleted := ds_files_deleted d + 1\<rparr>
       else if c = CHR ''R'' then d\<lparr>ds_files_renamed := ds_files_renamed d + 1\<rparr>
       else if c \<in> set ''MTC'' then d\<lparr>ds_files_modified := ds_files_modified d + 1\<rparr>
       else d)"

definition summarize_diff :: "str list \<Rightarrow> bytes \<Rightarrow> bytes \<Rightarrow> diff_summary" where
  "summarize_diff file_paths numstat name_status =
     (let d0 = diff_summary_default\<lparr>ds_file_count := of_nat (length file_paths)\<rparr>;
          d1 = foldl numstat_line d0 (lines_of (from_utf8_lossy numstat))
      in foldl name_status_line d1 (lines_of (from_utf8_lossy name_status)))"

section \<open>Reference listings\<close>

fun parse_ref_loop :: "(str \<times> str) list \<Rightarrow> str list \<Rightarrow> cli_error + (str \<times> str) list" where
  "parse_ref_loop refs [] = Inr refs"
| "parse_ref_loop refs (line # lines) =
     (if blank line then parse_ref_loop refs lines
      else (case split_once CHR 0x09 line of
          None \<Rightarrow> Inl (Bail (''invalid Git ref listing line `'' @ line @ ''`''))
        | Some (object_id, ref_name) \<Rightarrow> parse_ref_loop (map_insert ref_name object_id refs) lines))"

definition parse_ref_lines :: "bytes \<Rightarrow> cli_error + (str \<times> str) list" where
  "parse_ref_lines b = parse_ref_loop [] (lines_of (from_utf8_lossy b))"

definition refs_hash :: "lib \<Rightarrow> (str \<times> str) list \<Rightarrow> cli_error + str" where
  "refs_hash L refs = core_bail (stable_json_hash L (JObject (on_values JString refs)))"

section \<open>Comparing two listings\<close>

definition RICKYDATA_REFSPEC :: str where "RICKYDATA_REFSPEC = ''refs/rickydata/*:refs/rickydata/*''"

record sync_divergent_ref =
  sd_ref_name :: str
  sd_local_object_id :: str
  sd_remote_object_id :: str

record sync_status_report =
  ss_status :: str
  ss_remote :: str
  ss_refspec :: str
  ss_local_ref_count :: nat
  ss_remote_ref_count :: nat
  ss_matching_ref_count :: nat
  ss_local_only_refs :: "str list"
  ss_remote_only_refs :: "str list"
  ss_divergent_refs :: "sync_divergent_ref list"
  ss_local_refs_hash :: str
  ss_remote_refs_hash :: str

fun compare_loop :: "(str \<times> str) list \<Rightarrow> nat \<times> str list \<times> sync_divergent_ref list \<Rightarrow> (str \<times> str) list \<Rightarrow>
    nat \<times> str list \<times> sync_divergent_ref list" where
  "compare_loop remote acc [] = acc"
| "compare_loop remote (matching, local_only, divergent) ((name, oid) # refs) =
     compare_loop remote (case map_of remote name of
         Some r \<Rightarrow> if r = oid then (matching + 1, local_only, divergent)
             else (matching, local_only, divergent @ [\<lparr>sd_ref_name = name, sd_local_object_id = oid, sd_remote_object_id = r\<rparr>])
       | None \<Rightarrow> (matching, local_only @ [name], divergent)) refs"

definition sync_status_of ::
    "lib \<Rightarrow> str \<Rightarrow> (str \<times> str) list \<Rightarrow> (str \<times> str) list \<Rightarrow> cli_error + sync_status_report" where
  "sync_status_of L remote_name local_refs remote_refs =
     (case compare_loop remote_refs (0, [], []) local_refs of (matching, local_only, divergent) \<Rightarrow>
      r_bind (refs_hash L local_refs) (\<lambda>lh.
      r_bind (refs_hash L remote_refs) (\<lambda>rh.
        Inr \<lparr>ss_status = ''ok'', ss_remote = remote_name, ss_refspec = RICKYDATA_REFSPEC,
             ss_local_ref_count = length local_refs, ss_remote_ref_count = length remote_refs,
             ss_matching_ref_count = matching, ss_local_only_refs = local_only,
             ss_remote_only_refs = filter (\<lambda>n. n \<notin> fst ` set local_refs) (map fst remote_refs),
             ss_divergent_refs = divergent, ss_local_refs_hash = lh, ss_remote_refs_hash = rh\<rparr>)))"

section \<open>ASCII text\<close>

definition ascii :: "str \<Rightarrow> bool" where
  "ascii s \<longleftrightarrow> list_all (\<lambda>c. (of_char c :: nat) < 128) s"

lemma ascii_simps [simp]:
  "ascii []" "ascii (c # s) \<longleftrightarrow> (of_char c :: nat) < 128 \<and> ascii s" "ascii (s @ t) \<longleftrightarrow> ascii s \<and> ascii t"
  by (simp_all add: ascii_def)

lemma ascii_concat: "list_all ascii xs \<Longrightarrow> ascii (concat xs)"
  by (induction xs) auto

lemma utf8_lossy_ascii: "list_all (\<lambda>b. b < 128) bs \<Longrightarrow> utf8_lossy bs = bs"
  by (induction bs rule: utf8_lossy.induct) (auto simp: utf8_step_def)

lemma from_utf8_lossy_ascii:
  assumes "ascii s"
  shows "from_utf8_lossy (str_bytes s) = s"
proof -
  have eq: "map unat (str_bytes s) = map of_char s"
    by (simp add: str_bytes_def unat_of_char_u8)
  have "utf8_lossy (map of_char s) = map of_char s"
    using assms by (intro utf8_lossy_ascii) (simp add: ascii_def list_all_iff)
  then show ?thesis by (simp add: from_utf8_lossy_def eq comp_def)
qed

lemma char_boundary_ascii: "ascii s \<Longrightarrow> i \<le> length s \<Longrightarrow> char_boundary s i"
  by (auto simp: char_boundary_def cont_byte_def ascii_def list_all_iff not_le)

section \<open>Properties of the hexadecimal form\<close>

lemma digit_value_hex_digit: "n < 16 \<Longrightarrow> digit_value (hex_digit n) = Some n"
proof -
  have "list_all (\<lambda>k. digit_value (hex_digit k) = Some k) [0..<16]" by code_simp
  then show "n < 16 \<Longrightarrow> digit_value (hex_digit n) = Some n" by (simp add: list_all_iff)
qed

lemma digit_value_Some:
  assumes "digit_value c = Some n"
  shows "n < 16 \<and> is_ascii_hexdigit c \<and> hex_digit n = to_ascii_lower_char c"
proof -
  have "list_all (\<lambda>(c, n). n < 16 \<and> is_ascii_hexdigit c \<and> hex_digit n = to_ascii_lower_char c)
    (zip ''0123456789abcdefABCDEF'' [0, 1, 2, 3, 4, 5, 6, 7, 8, 9, 10, 11, 12, 13, 14, 15, 10, 11, 12, 13, 14, 15])"
    by code_simp
  then show ?thesis using map_of_SomeD [OF assms [unfolded digit_value_def]] by (auto simp: list_all_iff)
qed

lemma digit_value_plus [simp]: "digit_value CHR ''+'' = None"
  by code_simp

lemma is_ascii_hexdigit_value: "is_ascii_hexdigit c \<Longrightarrow> \<exists>n. digit_value c = Some n"
proof -
  have "list_all (\<lambda>c. digit_value c \<noteq> None) ''0123456789abcdefABCDEF''" by code_simp
  then show "is_ascii_hexdigit c \<Longrightarrow> \<exists>n. digit_value c = Some n" by (auto simp: list_all_iff is_ascii_hexdigit_def)
qed

lemma parse_hex_pair:
  assumes "digit_value a = Some x" "digit_value b = Some y"
  shows "parse_unsigned 16 256 [a, b] = Some (16 * x + y)"
proof -
  have "a \<noteq> CHR ''+''" using assms(1) by auto
  moreover have "x < 16" "y < 16" using assms digit_value_Some by blast+
  ultimately show ?thesis using assms by (simp add: parse_unsigned_def)
qed

lemma unat_nibbles: "unat (drop_bit 4 b) = unat b div 16" "unat (b AND 0x0F) = unat b mod 16" for b :: u8
proof -
  show "unat (drop_bit 4 b) = unat b div 16" by (simp add: drop_bit_eq_div unat_div)
  have "b AND 0x0F = take_bit 4 b" by (simp add: take_bit_eq_mask mask_eq_exp_minus_1)
  then show "unat (b AND 0x0F) = unat b mod 16" by (simp add: take_bit_eq_mod unat_mod)
qed

text \<open>The encoder is the \<^verbatim>\<open>{:02x}\<close> of the standard library.\<close>

lemma encode_hex_lower_hex: "encode_hex bs = lower_hex bs"
  by (simp add: encode_hex_def lower_hex_def hex_byte_def [abs_def] unat_nibbles)

lemma ascii_hex_alphabet: "set s \<subseteq> set hex_alphabet \<Longrightarrow> ascii s"
proof -
  have "list_all (\<lambda>c. (of_char c :: nat) < 128) hex_alphabet" by code_simp
  then show "set s \<subseteq> set hex_alphabet \<Longrightarrow> ascii s" by (auto simp: ascii_def list_all_iff)
qed

lemma decode_from_hex:
  "(\<And>j. j \<le> i + length (lower_hex bs) \<Longrightarrow> char_boundary whole j) \<Longrightarrow> decode_from i whole (lower_hex bs) = Inr bs"
proof (induction bs arbitrary: i)
  case (Cons b bs)
  have "unat b div 16 < 16" using unat_u8_less [of b] by (simp add: less_mult_imp_div_less)
  then have p: "parse_unsigned 16 256 (hex_byte b) = Some (16 * (unat b div 16) + unat b mod 16)"
    unfolding hex_byte_def by (intro parse_hex_pair digit_value_hex_digit) simp_all
  have "decode_from (i + 2) whole (lower_hex bs) = Inr bs" by (rule Cons.IH) (simp add: Cons.prems)
  moreover have "char_boundary whole i" "char_boundary whole (i + 2)" using Cons.prems by simp_all
  ultimately show ?case using p by (simp add: hex_byte_def)
qed simp

lemma decode_from_digits:
  assumes "decode_from i whole s = Inr b" "list_all is_ascii_hexdigit s" "even (length s)"
  shows "lower_hex b = to_ascii_lowercase s"
  using assms
proof (induction i whole s arbitrary: b rule: decode_from.induct)
  case (1 i whole c d r)
  from 1(3) obtain x y where xy: "digit_value c = Some x" "digit_value d = Some y"
    using is_ascii_hexdigit_value [of c] is_ascii_hexdigit_value [of d] by auto
  note lt = digit_value_Some [OF xy(1)] digit_value_Some [OF xy(2)]
  from 1(2) xy obtain b' where b': "decode_from (i + 2) whole r = Inr b'" "b = of_nat (16 * x + y) # b'"
    and "char_boundary whole i" "char_boundary whole (i + 2)"
    by (auto simp: parse_hex_pair r_map_Inr_iff split: if_splits)
  moreover have "unat (of_nat (16 * x + y) :: u8) = 16 * x + y"
    using lt by (simp add: unat_of_nat del: of_nat_add of_nat_mult)
  ultimately show ?case
    using 1(1,3,4) lt xy by (simp add: parse_hex_pair hex_byte_def to_ascii_lowercase_def)
qed (auto simp: to_ascii_lowercase_def)

lemma decode_encode_hex: "decode_hex (encode_hex bs) = Inr bs"
proof -
  have "ascii (lower_hex bs)" by (rule ascii_hex_alphabet) (rule lower_hex_set)
  then have "decode_from 0 (lower_hex bs) (lower_hex bs) = Inr bs"
    by (intro decode_from_hex char_boundary_ascii) simp_all
  then show ?thesis by (simp add: decode_hex_def encode_hex_lower_hex)
qed

text \<open>
  the patch bytes of an evidence record survive their hexadecimal text.  Encoding is total and
  decoding gives the bytes back; text of hexadecimal digits that decodes is, up to letter case, the
  encoding of what it decodes to.  The decoder takes more than that: a plus sign stands for a zero.
\<close>

theorem hex_round_trip:
  "decode_hex (encode_hex bs) = Inr bs \<and>
   (decode_hex s = Inr b \<and> list_all is_ascii_hexdigit s \<longrightarrow> encode_hex b = to_ascii_lowercase s) \<and>
   decode_hex ''+f'' = Inr [15]"
proof (intro conjI impI)
  show "decode_hex (encode_hex bs) = Inr bs" by (rule decode_encode_hex)
  show "decode_hex ''+f'' = Inr [15]" by code_simp
  assume "decode_hex s = Inr b \<and> list_all is_ascii_hexdigit s"
  then show "encode_hex b = to_ascii_lowercase s"
    by (auto simp: decode_hex_def encode_hex_lower_hex even_iff_mod_2_eq_zero intro: decode_from_digits split: if_splits)
qed

theorem hex_round_trip_witness:
  "decode_hex ''0aFf'' = Inr [10, 255] \<and> encode_hex [10, 255] = to_ascii_lowercase ''0aFf''"
proof -
  have d: "decode_hex ''0aFf'' = Inr [10, 255]" "list_all is_ascii_hexdigit ''0aFf''" by code_simp+
  then show ?thesis using hex_round_trip [of _ "''0aFf''" "[10, 255]"] by blast
qed

section \<open>Properties of reference listings\<close>

text \<open>What git prints for a list of references, and the references such a listing can name.\<close>

definition ref_listing :: "(str \<times> str) list \<Rightarrow> str" where
  "ref_listing refs = concat (map (\<lambda>(name, oid). oid @ CHR 0x09 # name @ [CHR 0x0A]) refs)"

definition listable :: "(str \<times> str) list \<Rightarrow> bool" where
  "listable refs \<longleftrightarrow> entries_ok refs \<and>
     list_all (\<lambda>(name, oid). name \<noteq> [] \<and> list_all plain_char name \<and> oid \<noteq> [] \<and> list_all plain_char oid) refs"

lemma ws_end_is_ws: "ws_end s = 0 \<or> is_ws (rev (take (ws_end s) (rev s)))"
  by (simp add: ws_end_def)

lemma plain_not_blank: "plain_char c \<Longrightarrow> \<not> blank (c # s)"
proof (rule not_blank_if_plain_start [OF ws_start_plain refl])
  assume c: "plain_char c"
  fix u
  show "ws_end (c # u) \<le> length u"
  proof (rule ccontr)
    assume n: "\<not> ws_end (c # u) \<le> length u"
    then have "take (ws_end (c # u)) (rev (c # u)) = rev (c # u)" by (intro take_all) simp
    with n ws_end_is_ws [of "c # u"] have "is_ws (c # u)" by (metis bot_nat_0.extremum rev_rev_ident)
    with plain_not_ws_first [OF c] show False by blast
  qed
qed

lemma plain_char_ne [simp]: "\<not> plain_char CHR 0x09" "\<not> plain_char CHR 0x0A" "\<not> plain_char CHR 0x0D"
  by (simp_all add: plain_char_def)

lemma plain_ascii: "list_all plain_char s \<Longrightarrow> ascii s"
  by (induction s) (auto simp: plain_char_def)

lemma split_on_lines:
  "list_all (\<lambda>l. CHR 0x0A \<notin> set l) ls \<Longrightarrow> split_on CHR 0x0A (concat (map (\<lambda>l. l @ [CHR 0x0A]) ls)) = ls @ [[]]"
  by (induction ls) (auto simp: split_on_append)

lemma lines_of_lines:
  assumes "list_all (\<lambda>l. CHR 0x0A \<notin> set l \<and> CHR 0x0D \<notin> set l) ls"
  shows "lines_of (concat (map (\<lambda>l. l @ [CHR 0x0A]) ls)) = ls"
proof -
  have cr: "drop_cr l = l" if "l \<in> set ls" for l
    using assms that by (auto simp: drop_cr_def list_all_iff dest: last_in_set)
  have "split_on CHR 0x0A (concat (map (\<lambda>l. l @ [CHR 0x0A]) ls)) = ls @ [[]]"
    using assms by (intro split_on_lines) (simp add: list_all_iff)
  moreover have "map drop_cr (butlast ls) = butlast ls"
    by (rule map_idI) (auto intro: cr dest: in_set_butlastD)
  moreover have "ls \<noteq> [] \<Longrightarrow> butlast ls @ [drop_cr (last ls)] = ls" by (simp add: cr)
  ultimately show ?thesis by (simp add: lines_of_def Let_def)
qed

definition ref_line :: "str \<times> str \<Rightarrow> str" where
  "ref_line r = snd r @ CHR 0x09 # fst r"

lemma ref_listing_lines: "ref_listing refs = concat (map (\<lambda>l. l @ [CHR 0x0A]) (map ref_line refs))"
  by (simp add: ref_listing_def ref_line_def split_def comp_def)

lemma listable_line:
  assumes "listable refs" "r \<in> set refs"
  shows "\<not> blank (ref_line r)" "split_once CHR 0x09 (ref_line r) = Some (snd r, fst r)"
    "CHR 0x0A \<notin> set (ref_line r)" "CHR 0x0D \<notin> set (ref_line r)" "ascii (ref_line r)"
proof -
  from assms have p: "snd r \<noteq> []" "list_all plain_char (snd r)" "list_all plain_char (fst r)"
    by (auto simp: listable_def list_all_iff)
  then have n: "c \<in> set (snd r) \<union> set (fst r) \<Longrightarrow> plain_char c" for c by (auto simp: list_all_iff)
  show "\<not> blank (ref_line r)" using p by (cases "snd r") (simp_all add: ref_line_def plain_not_blank)
  show "split_once CHR 0x09 (ref_line r) = Some (snd r, fst r)"
    unfolding ref_line_def using n [of "CHR 0x09"] by (intro split_once_append) auto
  show "CHR 0x0A \<notin> set (ref_line r)" "CHR 0x0D \<notin> set (ref_line r)"
    using n [of "CHR 0x0A"] n [of "CHR 0x0D"] by (auto simp: ref_line_def)
  show "ascii (ref_line r)" using p by (simp add: ref_line_def plain_ascii)
qed

lemma parse_ref_loop_lines:
  assumes "\<And>r. r \<in> set rs \<Longrightarrow> \<not> blank (ref_line r) \<and> split_once CHR 0x09 (ref_line r) = Some (snd r, fst r)"
  shows "parse_ref_loop refs (map ref_line rs) = Inr (fold (\<lambda>(k, v). map_insert k v) rs refs)"
  using assms by (induction rs arbitrary: refs) (auto simp: split_def)

lemma parse_ref_loop_entries: "parse_ref_loop refs ls = Inr out \<Longrightarrow> entries_ok refs \<Longrightarrow> entries_ok out"
  by (induction refs ls rule: parse_ref_loop.induct) (auto split: if_splits option.splits)

text \<open>
  parsing inverts git's listing: the references come back in the order of their names.  Whatever
  the bytes are, a listing that parses is an ordered map, and a line without a tab is an error.
\<close>

theorem ref_listing_round_trip:
  "(listable refs \<longrightarrow> parse_ref_lines (str_bytes (ref_listing refs)) = Inr refs) \<and>
   (parse_ref_lines b = Inr refs' \<longrightarrow> entries_ok refs') \<and>
   (line \<in> set (lines_of (from_utf8_lossy b)) \<and> \<not> blank line \<and> CHR 0x09 \<notin> set line \<longrightarrow>
     (\<exists>e. parse_ref_lines b = Inl (Bail e)))"
proof (intro conjI impI)
  assume l: "listable refs"
  note line = listable_line [OF l]
  have "ascii (ref_listing refs)"
    unfolding ref_listing_lines by (rule ascii_concat) (auto simp: list_all_iff line)
  then have "from_utf8_lossy (str_bytes (ref_listing refs)) = ref_listing refs"
    by (rule from_utf8_lossy_ascii)
  moreover have "lines_of (ref_listing refs) = map ref_line refs"
    unfolding ref_listing_lines by (rule lines_of_lines) (auto simp: list_all_iff line)
  moreover have "parse_ref_loop [] (map ref_line refs) = Inr (map_of_entries refs)"
    unfolding map_of_entries_def by (rule parse_ref_loop_lines) (simp add: line)
  moreover have "map_of_entries refs = refs" using l by (intro map_of_entries_id) (simp add: listable_def)
  ultimately show "parse_ref_lines (str_bytes (ref_listing refs)) = Inr refs" by (simp add: parse_ref_lines_def)
next
  assume "parse_ref_lines b = Inr refs'"
  then show "entries_ok refs'"
    unfolding parse_ref_lines_def by (rule parse_ref_loop_entries) simp
next
  have "\<exists>e. parse_ref_loop acc ls = Inl (Bail e)"
    if "line \<in> set ls" "\<not> blank line" "CHR 0x09 \<notin> set line" for acc ls
    using that by (induction acc ls rule: parse_ref_loop.induct) (auto split: option.splits dest!: split_once_Some)
  moreover assume "line \<in> set (lines_of (from_utf8_lossy b)) \<and> \<not> blank line \<and> CHR 0x09 \<notin> set line"
  ultimately show "\<exists>e. parse_ref_lines b = Inl (Bail e)" by (simp add: parse_ref_lines_def)
qed

definition sample_refs :: "(str \<times> str) list" where
  "sample_refs = [(''refs/rickydata/a'', ''11''), (''refs/rickydata/b'', ''22'')]"

lemma sample_listable: "listable sample_refs"
proof -
  have "plain_char c" if "c \<in> set ''refs/rickydata/ab12''" for c
    using that by (auto simp: plain_char_def)
  then show ?thesis by (auto simp: listable_def sample_refs_def)
qed

theorem ref_listing_round_trip_witness:
  "parse_ref_lines (str_bytes (ref_listing sample_refs)) = Inr sample_refs \<and> entries_ok sample_refs \<and>
   (\<exists>e. parse_ref_lines (str_bytes ''deadbeef'') = Inl (Bail e))"
proof -
  have a: "parse_ref_lines (str_bytes (ref_listing sample_refs)) = Inr sample_refs"
    using ref_listing_round_trip sample_listable by blast
  have "\<not> blank ''deadbeef''" by (rule plain_not_blank) (simp add: plain_char_def)
  moreover have "from_utf8_lossy (str_bytes ''deadbeef'') = ''deadbeef''"
    by (rule from_utf8_lossy_ascii) simp
  then have "''deadbeef'' \<in> set (lines_of (from_utf8_lossy (str_bytes ''deadbeef'')))"
    by (simp add: lines_of_def)
  ultimately have "\<exists>e. parse_ref_lines (str_bytes ''deadbeef'') = Inl (Bail e)"
    using ref_listing_round_trip [of _ _ _ "''deadbeef''"] by simp
  with a ref_listing_round_trip show ?thesis by blast
qed

section \<open>Properties of the comparison\<close>

lemma compare_loop_eq:
  "compare_loop remote (m, lo, dv) refs =
     (m + length (filter (\<lambda>(n, o1). map_of remote n = Some o1) refs),
      lo @ map fst (filter (\<lambda>(n, o1). map_of remote n = None) refs),
      dv @ map (\<lambda>(n, o1). \<lparr>sd_ref_name = n, sd_local_object_id = o1, sd_remote_object_id = the (map_of remote n)\<rparr>)
        (filter (\<lambda>(n, o1). map_of remote n \<noteq> None \<and> map_of remote n \<noteq> Some o1) refs))"
proof (induction remote "(m, lo, dv)" refs arbitrary: m lo dv rule: compare_loop.induct)
  case (2 remote m lo dv n o1 refs)
  show ?case using 2 by (cases "map_of remote n") (auto split: prod.splits)
qed simp

lemma dom_map_of_entries: "fst ` set refs = dom (map_of refs)"
  by (simp add: dom_map_of_conv_image_fst)

lemma length_filter_card:
  assumes "entries_ok refs"
  shows "length (filter (\<lambda>(n, o1). P n o1) refs) = card {n. \<exists>o1. map_of refs n = Some o1 \<and> P n o1}"
proof -
  have d: "distinct (map fst refs)" by (rule entries_ok_distinct [OF assms])
  then have "distinct (map fst (filter (\<lambda>(n, o1). P n o1) refs))" by (rule distinct_map_filter)
  then have len: "card (fst ` set (filter (\<lambda>(n, o1). P n o1) refs)) = length (filter (\<lambda>(n, o1). P n o1) refs)"
    using distinct_card [of "map fst (filter (\<lambda>(n, o1). P n o1) refs)"] by (simp del: set_filter)
  have "fst ` set (filter (\<lambda>(n, o1). P n o1) refs) = {n. \<exists>o1. map_of refs n = Some o1 \<and> P n o1}" (is "?A = ?B")
  proof
    show "?A \<subseteq> ?B" using d by auto
    show "?B \<subseteq> ?A" by (auto dest!: map_of_SomeD intro!: rev_image_eqI)
  qed
  with len show ?thesis by simp
qed

lemma dom_split_card:
  fixes f g :: "str \<Rightarrow> str option"
  assumes "finite (dom f)"
  shows "card (dom f) = card {n. f n \<noteq> None \<and> f n = g n} + card {n. f n \<noteq> None \<and> g n = None} +
     card {n. f n \<noteq> None \<and> g n \<noteq> None \<and> f n \<noteq> g n}"
proof -
  let ?A = "{n. f n \<noteq> None \<and> f n = g n}" and ?B = "{n. f n \<noteq> None \<and> g n = None}"
    and ?C = "{n. f n \<noteq> None \<and> g n \<noteq> None \<and> f n \<noteq> g n}"
  have fin: "finite ?A" "finite ?B" "finite ?C" by (auto intro: finite_subset [OF _ assms])
  have "dom f = ?A \<union> ?B \<union> ?C" by auto
  then have "card (dom f) = card (?A \<union> ?B \<union> ?C)" by simp
  moreover have "card (?A \<union> ?B \<union> ?C) = card (?A \<union> ?B) + card ?C" using fin by (intro card_Un_disjoint) auto
  moreover have "card (?A \<union> ?B) = card ?A + card ?B" using fin by (intro card_Un_disjoint) auto
  ultimately show ?thesis by linarith
qed

text \<open>What a comparison has to say: a specification on the listings as maps.\<close>

definition status_spec :: "(str \<rightharpoonup> str) \<Rightarrow> (str \<rightharpoonup> str) \<Rightarrow> sync_status_report \<Rightarrow> bool" where
  "status_spec l r rep \<longleftrightarrow>
     set (ss_local_only_refs rep) = dom l - dom r \<and> set (ss_remote_only_refs rep) = dom r - dom l \<and>
     distinct (ss_local_only_refs rep) \<and> distinct (ss_remote_only_refs rep) \<and>
     (\<forall>d. d \<in> set (ss_divergent_refs rep) \<longleftrightarrow>
        l (sd_ref_name d) = Some (sd_local_object_id d) \<and> r (sd_ref_name d) = Some (sd_remote_object_id d) \<and>
        sd_local_object_id d \<noteq> sd_remote_object_id d) \<and>
     ss_matching_ref_count rep = card {n. l n \<noteq> None \<and> l n = r n} \<and>
     ss_local_ref_count rep = ss_matching_ref_count rep + length (ss_local_only_refs rep) + length (ss_divergent_refs rep) \<and>
     ss_remote_ref_count rep = ss_matching_ref_count rep + length (ss_remote_only_refs rep) + length (ss_divergent_refs rep)"

lemma length_entries: "entries_ok refs \<Longrightarrow> length refs = card (dom (map_of refs))"
  by (metis distinct_card dom_map_of_entries entries_ok_distinct length_map list.set_map)

lemma sync_status_of_fields:
  assumes "sync_status_of L remote l r = Inr rep"
  shows "ss_local_only_refs rep = map fst (filter (\<lambda>(n, o1). map_of r n = None) l)"
    "ss_remote_only_refs rep = map fst (filter (\<lambda>(n, o1). map_of l n = None) r)"
    "ss_matching_ref_count rep = length (filter (\<lambda>(n, o1). map_of r n = Some o1) l)"
    "ss_divergent_refs rep = map (\<lambda>(n, o1). \<lparr>sd_ref_name = n, sd_local_object_id = o1, sd_remote_object_id = the (map_of r n)\<rparr>)
        (filter (\<lambda>(n, o1). map_of r n \<noteq> None \<and> map_of r n \<noteq> Some o1) l)"
    "ss_local_ref_count rep = length l" "ss_remote_ref_count rep = length r"
    "refs_hash L l = Inr (ss_local_refs_hash rep)" "refs_hash L r = Inr (ss_remote_refs_hash rep)"
proof -
  have ro: "filter (\<lambda>n. n \<notin> fst ` set l) (map fst r) = map fst (filter (\<lambda>(n, o1). map_of l n = None) r)"
    by (simp add: filter_map comp_def split_def map_of_eq_None_iff)
  note f = assms [unfolded sync_status_of_def compare_loop_eq ro]
  show "ss_local_only_refs rep = map fst (filter (\<lambda>(n, o1). map_of r n = None) l)"
    "ss_remote_only_refs rep = map fst (filter (\<lambda>(n, o1). map_of l n = None) r)"
    "ss_matching_ref_count rep = length (filter (\<lambda>(n, o1). map_of r n = Some o1) l)"
    "ss_divergent_refs rep = map (\<lambda>(n, o1). \<lparr>sd_ref_name = n, sd_local_object_id = o1, sd_remote_object_id = the (map_of r n)\<rparr>)
        (filter (\<lambda>(n, o1). map_of r n \<noteq> None \<and> map_of r n \<noteq> Some o1) l)"
    "ss_local_ref_count rep = length l" "ss_remote_ref_count rep = length r"
    "refs_hash L l = Inr (ss_local_refs_hash rep)" "refs_hash L r = Inr (ss_remote_refs_hash rep)"
    using f by (auto simp: r_bind_Inr_iff)
qed

lemma sync_divergent:
  assumes "entries_ok l" "sync_status_of L remote l r = Inr rep"
  shows "d \<in> set (ss_divergent_refs rep) \<longleftrightarrow> map_of l (sd_ref_name d) = Some (sd_local_object_id d) \<and>
    map_of r (sd_ref_name d) = Some (sd_remote_object_id d) \<and> sd_local_object_id d \<noteq> sd_remote_object_id d"
proof -
  have mem: "(n, x) \<in> set l \<longleftrightarrow> map_of l n = Some x" for n x
    using entries_ok_distinct [OF assms(1)] by simp
  show ?thesis unfolding sync_status_of_fields(4) [OF assms(2)] by (cases d) (auto simp: mem image_iff; force)
qed

lemma sync_status_spec:
  assumes l: "entries_ok l" and r: "entries_ok r" and rep: "sync_status_of L remote l r = Inr rep"
  shows "status_spec (map_of l) (map_of r) rep"
proof -
  note f = sync_status_of_fields [OF rep]
  have dist: "distinct (map fst (filter P refs))" if "entries_ok refs" for P and refs :: "(str \<times> str) list"
    by (rule distinct_map_filter) (rule entries_ok_distinct [OF that])
  have sets: "fst ` set (filter (\<lambda>(n, o1). map_of b n = None) a) = dom (map_of a) - dom (map_of b)"
    for a b :: "(str \<times> str) list"
    by (auto simp: image_iff dom_map_of_entries [symmetric] map_of_eq_None_iff; force)
  note dv = sync_divergent [OF l rep]
  have m: "ss_matching_ref_count rep = card {n. map_of l n \<noteq> None \<and> map_of l n = map_of r n}"
    unfolding f(3) length_filter_card [OF l, of "\<lambda>n o1. map_of r n = Some o1"]
    by (rule arg_cong [where f = card]) auto
  have lo: "length (ss_local_only_refs rep) = card {n. map_of l n \<noteq> None \<and> map_of r n = None}"
    unfolding f(1) length_map length_filter_card [OF l, of "\<lambda>n o1. map_of r n = None"]
    by (rule arg_cong [where f = card]) auto
  have ro: "length (ss_remote_only_refs rep) = card {n. map_of r n \<noteq> None \<and> map_of l n = None}"
    unfolding f(2) length_map length_filter_card [OF r, of "\<lambda>n o1. map_of l n = None"]
    by (rule arg_cong [where f = card]) auto
  have di: "length (ss_divergent_refs rep) = card {n. map_of l n \<noteq> None \<and> map_of r n \<noteq> None \<and> map_of l n \<noteq> map_of r n}"
    unfolding f(4) length_map length_filter_card [OF l, of "\<lambda>n o1. map_of r n \<noteq> None \<and> map_of r n \<noteq> Some o1"]
    by (rule arg_cong [where f = card]) auto
  have di': "{n. map_of l n \<noteq> None \<and> map_of r n \<noteq> None \<and> map_of l n \<noteq> map_of r n} =
      {n. map_of r n \<noteq> None \<and> map_of l n \<noteq> None \<and> map_of r n \<noteq> map_of l n}"
    and m': "{n. map_of l n \<noteq> None \<and> map_of l n = map_of r n} = {n. map_of r n \<noteq> None \<and> map_of r n = map_of l n}"
    by (auto; metis)+
  have "length l = ss_matching_ref_count rep + length (ss_local_only_refs rep) + length (ss_divergent_refs rep)"
    unfolding m lo di length_entries [OF l] by (rule dom_split_card) (simp add: finite_dom_map_of)
  moreover have "length r = ss_matching_ref_count rep + length (ss_remote_only_refs rep) + length (ss_divergent_refs rep)"
    unfolding m ro di di' m' length_entries [OF r] by (rule dom_split_card) (simp add: finite_dom_map_of)
  ultimately show "status_spec (map_of l) (map_of r) rep"
    using sets [of r l] sets [of l r] dist [OF l] dist [OF r] f(5,6) dv m by (simp add: status_spec_def f(1,2))
qed

lemma no_ref_difference:
  assumes l: "entries_ok l" and r: "entries_ok r" and rep: "sync_status_of L remote l r = Inr rep"
    and e: "ss_local_only_refs rep = []" "ss_remote_only_refs rep = []" "ss_divergent_refs rep = []"
  shows "l = r \<and> ss_local_refs_hash rep = ss_remote_refs_hash rep"
proof -
  note f = sync_status_of_fields [OF rep] and spec = sync_status_spec [OF l r rep] and dv = sync_divergent [OF l rep]
  have "map_of l n = map_of r n" for n
  proof (cases "map_of l n")
    case None
    then show ?thesis using spec e(2) by (cases "map_of r n") (auto simp: status_spec_def dom_def)
  next
    case (Some x)
    then obtain y where y: "map_of r n = Some y" using spec e(1) by (cases "map_of r n") (auto simp: status_spec_def dom_def)
    have "\<not> x \<noteq> y" using dv [of "\<lparr>sd_ref_name = n, sd_local_object_id = x, sd_remote_object_id = y\<rparr>"] Some y e(3) by auto
    with Some y show ?thesis by simp
  qed
  then have "l = r" by (intro entries_ok_unique [OF l r]) auto
  with f(7,8) show "l = r \<and> ss_local_refs_hash rep = ss_remote_refs_hash rep" by simp
qed

text \<open>
  C40: a synchronisation report is the comparison of the two listings as maps: the local-only, remote-only
  and divergent references are exactly those, nothing is named twice, the counts add up on both sides;
  and when nothing is reported as different the two listings, and so their hashes, are equal.
\<close>

theorem sync_status_exact:
  assumes l: "entries_ok l" and r: "entries_ok r" and rep: "sync_status_of L remote l r = Inr rep"
  shows "status_spec (map_of l) (map_of r) rep \<and>
    (ss_local_only_refs rep = [] \<and> ss_remote_only_refs rep = [] \<and> ss_divergent_refs rep = [] \<longrightarrow>
      l = r \<and> ss_local_refs_hash rep = ss_remote_refs_hash rep)"
  using sync_status_spec [OF assms] no_ref_difference [OF assms] by blast

definition key_or_default :: "str option \<Rightarrow> str" where
  "key_or_default k = (case k of Some x \<Rightarrow> x | None \<Rightarrow> ''default'')"

definition attempt_document :: "str \<Rightarrow> str \<Rightarrow> str \<Rightarrow> str option \<Rightarrow> json" where
  "attempt_document i a b k = json_obj [(''intent_id'', jstr i), (''agent_id'', jstr a), (''base_commit'', jstr b),
     (''idempotency_key'', jstr (key_or_default k))]"

text \<open>
  an attempt id names the intent, the agent, the base commit and the idempotency key: a second start
  with all four equal gets the same id, one that differs in any gets another, unless the bytes of the two
  documents are a collision of SHA-256.
  A missing key is the key \<^verbatim>\<open>default\<close>.
\<close>

theorem attempt_id_identifies:
  assumes "json_codec L" "hex_codec L"
    and "compute_attempt_id L i1 a1 k1 b1 = Inr h1" "compute_attempt_id L i2 a2 k2 b2 = Inr h2"
  shows "(i1 = i2 \<and> a1 = a2 \<and> b1 = b2 \<and> key_or_default k1 = key_or_default k2 \<longrightarrow> h1 = h2) \<and>
    (h1 = h2 \<longrightarrow> i1 = i2 \<and> a1 = a2 \<and> b1 = b2 \<and> key_or_default k1 = key_or_default k2 \<or>
      documents_collide L (attempt_document i1 a1 b1 k1) (attempt_document i2 a2 b2 k2))"
proof -
  let ?d1 = "attempt_document i1 a1 b1 k1" and ?d2 = "attempt_document i2 a2 b2 k2"
  have h: "stable_json_hash L ?d1 = Inr h1" "stable_json_hash L ?d2 = Inr h2"
    using assms(3,4) by (simp_all add: compute_attempt_id_def core_bail_def attempt_document_def key_or_default_def)
  have ok: "json_ok (attempt_document i a b k)" for i a b k
    unfolding attempt_document_def by (rule json_ok_json_obj) auto
  have canon: "canonical_json (attempt_document i a b k) = attempt_document i a b k" for i a b k
    unfolding attempt_document_def json_obj_def by (simp add: map_of_entries_def jstr_def)
  have inj: "i1 = i2 \<and> a1 = a2 \<and> b1 = b2 \<and> key_or_default k1 = key_or_default k2" if "?d1 = ?d2"
    using that unfolding attempt_document_def json_obj_def by (simp add: map_of_entries_def jstr_def)
  have "h1 = h2 \<Longrightarrow> ?d1 = ?d2 \<or> documents_collide L ?d1 ?d2"
    using stable_json_hash_eq [OF h(1) _ assms(1,2) ok ok] h(2) unfolding canon by blast
  moreover have "h1 = h2" if "i1 = i2 \<and> a1 = a2 \<and> b1 = b2 \<and> key_or_default k1 = key_or_default k2"
    using h that unfolding attempt_document_def by simp
  ultimately show ?thesis using inj by blast
qed

lemma stable_json_hash_ref_lib: "\<exists>h. stable_json_hash ref_lib v = Inr h"
  by (simp add: stable_json_hash_def ref_lib_def)

theorem sync_status_exact_witness:
  "(\<exists>rep. sync_status_of ref_lib ''origin'' sample_refs (tl sample_refs) = Inr rep \<and>
     status_spec (map_of sample_refs) (map_of (tl sample_refs)) rep) \<and>
   (\<exists>rep. sync_status_of ref_lib ''origin'' sample_refs sample_refs = Inr rep \<and>
     ss_local_refs_hash rep = ss_remote_refs_hash rep)"
proof
  have ok: "entries_ok sample_refs" "entries_ok (tl sample_refs)" by (simp_all add: sample_refs_def)
  have total: "\<exists>rep. sync_status_of ref_lib ''origin'' l r = Inr rep" for l r
    using stable_json_hash_ref_lib [of "JObject (on_values JString l)"] stable_json_hash_ref_lib [of "JObject (on_values JString r)"]
    by (auto simp: sync_status_of_def compare_loop_eq refs_hash_def core_bail_def)
  show "\<exists>rep. sync_status_of ref_lib ''origin'' sample_refs (tl sample_refs) = Inr rep \<and>
     status_spec (map_of sample_refs) (map_of (tl sample_refs)) rep"
    using total sync_status_exact [OF ok] by blast
  obtain rep where rep: "sync_status_of ref_lib ''origin'' sample_refs sample_refs = Inr rep" using total by blast
  have "ss_local_refs_hash rep = ss_remote_refs_hash rep"
    using sync_status_of_fields [OF rep] sync_status_exact [OF ok(1) ok(1) rep] by (auto simp: sample_refs_def)
  with rep show "\<exists>rep. sync_status_of ref_lib ''origin'' sample_refs sample_refs = Inr rep \<and>
     ss_local_refs_hash rep = ss_remote_refs_hash rep" by blast
qed

theorem attempt_id_identifies_witness:
  "\<exists>h. compute_attempt_id ref_lib ''i'' ''a'' None ''b'' = Inr h \<and>
     compute_attempt_id ref_lib ''i'' ''a'' (Some ''default'') ''b'' = Inr h"
proof -
  have total: "\<exists>h. compute_attempt_id ref_lib i a k b = Inr h" for i a k b
    using stable_json_hash_ref_lib by (simp add: compute_attempt_id_def core_bail_def)
  obtain h h' where h: "compute_attempt_id ref_lib ''i'' ''a'' None ''b'' = Inr h"
      "compute_attempt_id ref_lib ''i'' ''a'' (Some ''default'') ''b'' = Inr h'"
    using total by meson
  have "h = h'"
    using attempt_id_identifies [OF _ _ h] ref_lib_laws by (simp add: key_or_default_def)
  with h show ?thesis by blast
qed

end
