(* ===== verification/Cli_Api.thy ===== *)
theory Cli_Api
  imports Cli_Text
begin

text \<open>
  What the commands of \<^verbatim>\<open>crates/rickydata-git-cli/src/main.rs\<close> stand on: the functions of the store crate
  they call, the clock, the environment, files and subprocesses, as one record of operations on a state
  of any type.  \<open>ledger\<close> is the contract of the store part, on the map from ids to objects that a state
  holds; \<^verbatim>\<open>Cli_Store\<close> shows that the Git store keeps it.
\<close>

section \<open>Subprocesses and the operations\<close>

record command =
  cmd_program :: str
  cmd_args :: "str list"
  cmd_dir :: "str option"
  cmd_env :: "(str \<times> str) list"

record process_output =
  po_code :: "32 word option"
  po_stdout :: bytes
  po_stderr :: bytes

text \<open>\<^verbatim>\<open>ExitStatus::success\<close>: exited, with code zero (a signal leaves no code).\<close>

definition po_success :: "process_output \<Rightarrow> bool" where
  "po_success o1 \<longleftrightarrow> po_code o1 = Some 0"

record http_request =
  hq_method :: str
  hq_url :: str
  hq_bearer :: "str option"
  hq_body :: "json option"

record http_response =
  hr_status :: nat
  hr_body :: bytes

record 's api =
  a_env :: "'s \<Rightarrow> str \<Rightarrow> str option"
  a_now :: "('s, str, u64) eff"
  a_spawn :: "command \<Rightarrow> ('s, str, process_output) eff"
  a_http :: "http_request \<Rightarrow> ('s, str, http_response) eff"
  a_exists :: "'s \<Rightarrow> str \<Rightarrow> bool"
  a_is_dir :: "'s \<Rightarrow> str \<Rightarrow> bool"
  a_read_file :: "str \<Rightarrow> ('s, str, bytes) eff"
  a_write_file :: "str \<Rightarrow> bytes \<Rightarrow> ('s, str, unit) eff"
  a_create_dir_all :: "str \<Rightarrow> ('s, str, unit) eff"
  a_remove_file :: "str \<Rightarrow> ('s, str, unit) eff"
  a_remove_dir_all :: "str \<Rightarrow> ('s, str, unit) eff"
  a_inspect :: "str \<Rightarrow> ('s, git_error, repo_inspection) eff"
  a_list :: "str \<Rightarrow> str option \<Rightarrow> ('s, git_error, object_list_entry list) eff"
  a_read :: "str \<Rightarrow> str \<Rightarrow> ('s, git_error, object_read_report) eff"
  a_verify :: "str \<Rightarrow> str \<Rightarrow> ('s, git_error, object_verify_report) eff"
  a_write_cached :: "str \<Rightarrow> str \<Rightarrow> json \<Rightarrow> ('s, git_error, object_write_report) eff"
  a_write_canonical :: "str \<Rightarrow> canonical_object \<Rightarrow> ('s, git_error, object_write_report) eff"

text \<open>The text of an error: \<^verbatim>\<open>Display\<close> of \<^verbatim>\<open>anyhow::Error\<close> is its outermost message.\<close>

fun cli_error_text :: "cli_error \<Rightarrow> str" where
  "cli_error_text (Bail m) = m"
| "cli_error_text (Panicked m) = m"

text \<open>\<^verbatim>\<open>.with_context(...)\<close>, an error of the store crate, a failed guard, a pure core result.\<close>

definition ctx :: "str \<Rightarrow> ('s, 'e, 'a) eff \<Rightarrow> ('s, cli_error, 'a) eff" where
  "ctx m = e_map_err (\<lambda>_. Bail m)"

definition gitm :: "lib \<Rightarrow> ('s, git_error, 'a) eff \<Rightarrow> ('s, cli_error, 'a) eff" where
  "gitm L = e_map_err (\<lambda>e. Bail (git_error_text L e))"

definition ensure :: "bool \<Rightarrow> str \<Rightarrow> ('s, cli_error, unit) eff" where
  "ensure b m = (if b then e_ret () else e_fail (Bail m))"

definition some_or :: "str \<Rightarrow> 'a option \<Rightarrow> ('s, cli_error, 'a) eff" where
  "some_or m x = (case x of Some y \<Rightarrow> e_ret y | None \<Rightarrow> e_fail (Bail m))"

definition decode :: "lib \<Rightarrow> (json \<Rightarrow> 'a option) \<Rightarrow> json \<Rightarrow> ('s, cli_error, 'a) eff" where
  "decode L d v = e_lift (map_err Bail (from_value L d v))"

definition now_ms :: "'s api \<Rightarrow> ('s, cli_error, u64) eff" where
  "now_ms A = ctx ''system time is before UNIX_EPOCH'' (a_now A)"

text \<open>\<^verbatim>\<open>Path::join\<close> on the displayed form.\<close>

definition path_join :: "str \<Rightarrow> str \<Rightarrow> str" where
  "path_join base x = (if x \<noteq> [] \<and> hd x = CHR ''/'' then x else if base = [] then x
     else if last base = CHR ''/'' then base @ x else base @ ''/'' @ x)"

section \<open>Keys and signed writes\<close>

record signing_key_args =
  sk_file :: "str option"
  sk_key :: "str option"
  sk_label :: "str option"

type_synonym signing = "(bytes \<times> str option) option"

definition load_key :: "'s api \<Rightarrow> lib \<Rightarrow> str \<Rightarrow> str \<Rightarrow> ('s, cli_error, bytes) eff" where
  "load_key A L path m = ctx m (e_bind (a_read_file A path) (\<lambda>raw.
     e_lift (map_err core_error_text (parse_signing_key L raw))))"

definition agent_key_file :: "'s api \<Rightarrow> 's \<Rightarrow> str \<Rightarrow> str" where
  "agent_key_file A s agent_id = foldl path_join [] (agent_key_path (a_env A s) agent_id)"

text \<open>The two implicit sources: a key file named by the environment, then the file of the agent.\<close>

definition key_of_agent :: "'s api \<Rightarrow> lib \<Rightarrow> str option \<Rightarrow> str option \<Rightarrow> ('s, cli_error, signing) eff" where
  "key_of_agent A L label agent_id s =
     (case (case agent_id of Some i \<Rightarrow> Some i | None \<Rightarrow> a_env A s ''RICKYGIT_AGENT_ID'') of
        None \<Rightarrow> e_ret None s
      | Some i \<Rightarrow>
          (let key_path = agent_key_file A s i in
           if a_exists A s key_path
           then e_bind (load_key A L key_path (''failed to load signing key for agent `'' @ i @ ''` from '' @ key_path))
                  (\<lambda>key. e_ret (Some (key, case label of Some l \<Rightarrow> Some l | None \<Rightarrow> Some i))) s
           else e_ret None s))"

definition key_of_env :: "'s api \<Rightarrow> lib \<Rightarrow> str option \<Rightarrow> str option \<Rightarrow> ('s, cli_error, signing) eff" where
  "key_of_env A L label agent_id s = (case a_env A s ''RICKYGIT_SIGNING_KEY_FILE'' of
     Some path \<Rightarrow>
       if a_exists A s path
       then e_bind (load_key A L path (''failed to load signing key from RICKYGIT_SIGNING_KEY_FILE='' @ path))
              (\<lambda>key. e_ret (Some (key, label))) s
       else key_of_agent A L label agent_id s
   | None \<Rightarrow> key_of_agent A L label agent_id s)"

definition resolve_signing_key :: "'s api \<Rightarrow> lib \<Rightarrow> signing_key_args \<Rightarrow> str option \<Rightarrow> ('s, cli_error, signing) eff" where
  "resolve_signing_key A L args agent_id = (case (sk_file args, sk_key args) of
     (Some _, Some _) \<Rightarrow> e_fail (Bail ''--signing-key-file and --signing-key are mutually exclusive; pick one'')
   | (Some path, None) \<Rightarrow>
       e_bind (load_key A L path (''failed to load signing key from '' @ path)) (\<lambda>key. e_ret (Some (key, sk_label args)))
   | (None, Some hex_text) \<Rightarrow>
       e_bind (e_lift (map_err (\<lambda>_. Bail ''--signing-key must be hex-encoded ed25519 seed bytes'')
                 (hex_decode L (trim hex_text)))) (\<lambda>raw.
       e_bind (ensure (length raw = SECRET_KEY_LENGTH)
                 (''--signing-key must decode to 32 bytes, got '' @ show_nat (length raw))) (\<lambda>_.
         e_ret (Some (raw, sk_label args))))
   | (None, None) \<Rightarrow> key_of_env A L (sk_label args) agent_id)"

definition write_signed_or_cached ::
    "'s api \<Rightarrow> lib \<Rightarrow> str \<Rightarrow> str \<Rightarrow> json \<Rightarrow> signing \<Rightarrow> ('s, cli_error, object_write_report) eff" where
  "write_signed_or_cached A L repo kind body signing = (case signing of
     None \<Rightarrow> gitm L (a_write_cached A repo kind body)
   | Some (key, label) \<Rightarrow>
       e_bind (e_lift (core_bail (canonical_object_new L kind DEFAULT_SCHEMA_VERSION 0 (canonical_json body)))) (\<lambda>obj.
       e_bind (e_lift (core_bail (sign_object L obj key label))) (\<lambda>sig.
         gitm L (a_write_canonical A repo (obj\<lparr>co_signatures := co_signatures obj @ [sig]\<rparr>)))))"

section \<open>The contract of the store\<close>

text \<open>
  What a state holds is a map from object ids to objects.  A listing names exactly the objects of its
  kind, once each, in the order of their ids.
\<close>

type_synonym ledger_map = "str \<rightharpoonup> canonical_object"

definition kind_matches :: "str option \<Rightarrow> canonical_object \<Rightarrow> bool" where
  "kind_matches k obj \<longleftrightarrow> (case k of None \<Rightarrow> True | Some x \<Rightarrow> co_kind obj = x)"

definition listing_of :: "ledger_map \<Rightarrow> str option \<Rightarrow> object_list_entry list \<Rightarrow> bool" where
  "listing_of M k es \<longleftrightarrow> sorted_wrt (<) (map le_object_id es) \<and>
     (\<forall>i. i \<in> le_object_id ` set es \<longleftrightarrow> (\<exists>obj. M i = Some obj \<and> kind_matches k obj)) \<and>
     (\<forall>e \<in> set es. \<exists>obj. M (le_object_id e) = Some obj \<and> le_kind e = co_kind obj)"

text \<open>Runs that leave the ledger as it is, and runs that may add one object.\<close>

definition quiet :: "('s \<Rightarrow> bool) \<Rightarrow> ('s \<Rightarrow> ledger_map) \<Rightarrow> ('s, 'e, 'a) eff \<Rightarrow> bool" where
  "quiet good objs m \<longleftrightarrow> (\<forall>s r s'. good s \<longrightarrow> m s = (r, s') \<longrightarrow> good s' \<and> objs s' = objs s)"

definition adds :: "('s \<Rightarrow> bool) \<Rightarrow> ('s \<Rightarrow> ledger_map) \<Rightarrow> canonical_object \<Rightarrow> ('s, 'e, object_write_report) eff \<Rightarrow> bool" where
  "adds good objs obj m \<longleftrightarrow> (\<forall>s r s'. good s \<longrightarrow> m s = (r, s') \<longrightarrow>
     (case r of
        Inr rep \<Rightarrow> good s' \<and> objs s' = (objs s)(co_object_id obj \<mapsto> obj) \<and> wr_object_id rep = co_object_id obj \<and>
          objs s (co_object_id obj) \<in> {None, Some obj}
      | Inl e \<Rightarrow> objs s' = objs s \<and> (objs s (co_object_id obj) \<in> {None, Some obj} \<longrightarrow> good s')))"

text \<open>The git subcommands that leave \<^verbatim>\<open>refs/rickydata\<close> and the object cache alone, and the files that are never
  in the cache: those of \<^verbatim>\<open>rickydata/tmp\<close> and \<^verbatim>\<open>rickydata/notes/state\<close>.\<close>

definition local_git :: "command \<Rightarrow> bool" where
  "local_git c \<longleftrightarrow> cmd_program c = ''git'' \<and> 2 < length (cmd_args c) \<and>
     cmd_args c ! 2 \<in> {''worktree'', ''read-tree'', ''add'', ''diff'', ''status'', ''apply'', ''rev-parse'', ''for-each-ref'', ''ls-remote''}"

definition side_file :: "str \<Rightarrow> bool" where
  "side_file x \<longleftrightarrow> (\<exists>d dir name. x = d @ ''/'' @ dir @ ''/'' @ name \<and> dir \<in> {''tmp'', ''state''} \<and>
     CHR ''/'' \<notin> set name \<and> name \<notin> {[], ''.'', ''..''})"

locale ledger =
  fixes A :: "'s api" and L :: lib and repo :: str and good :: "'s \<Rightarrow> bool" and objs :: "'s \<Rightarrow> ledger_map"
  assumes list_quiet: "quiet good objs (a_list A repo k)"
    and list_exact: "good s \<Longrightarrow> a_list A repo k s = (Inr es, s') \<Longrightarrow> listing_of (objs s) k es"
    and read_quiet: "quiet good objs (a_read A repo i)"
    and read_exact: "good s \<Longrightarrow> objs s i = Some obj \<Longrightarrow> a_read A repo i s = (Inr rep, s') \<Longrightarrow>
      rr_object rep = obj \<and> rr_object_id rep = i"
    and verify_quiet: "quiet good objs (a_verify A repo i)"
    and stored_id: "good s \<Longrightarrow> objs s i = Some obj \<Longrightarrow> co_object_id obj = i"
    and write_adds: "plain_body (co_body obj) \<Longrightarrow> adds good objs obj (a_write_canonical A repo obj)"
    and write_cached_new: "a_write_cached A repo kind body s = (r, s') \<Longrightarrow> good s \<Longrightarrow> plain_body body \<Longrightarrow>
      (\<exists>obj. canonical_object_new L kind DEFAULT_SCHEMA_VERSION 0 (canonical_json body) = Inr obj \<and>
         (case r of
            Inr rep \<Rightarrow> good s' \<and> objs s' = (objs s)(co_object_id obj \<mapsto> obj) \<and> wr_object_id rep = co_object_id obj \<and>
              objs s (co_object_id obj) \<in> {None, Some obj}
          | Inl e \<Rightarrow> objs s' = objs s \<and> (objs s (co_object_id obj) \<in> {None, Some obj} \<longrightarrow> good s'))) \<or>
      (\<exists>e. r = Inl e \<and> good s' \<and> objs s' = objs s)"
    and now_quiet: "quiet good objs (a_now A)"
    and inspect_quiet: "quiet good objs (a_inspect A repo)"
    and read_file_quiet: "quiet good objs (a_read_file A x)"
    and create_dir_quiet: "quiet good objs (a_create_dir_all A x)"
    and side_write_quiet: "side_file x \<Longrightarrow> quiet good objs (a_write_file A x b)"
    and remove_quiet: "quiet good objs (a_remove_file A x)"
    and remove_keeps: "a_remove_file A x s = (removed, s') \<Longrightarrow> objs s' = objs s"
    and spawn_quiet: "local_git c \<Longrightarrow> quiet good objs (a_spawn A c)"

section \<open>Consequences of the contract\<close>

lemma quiet_basic [simp, intro]:
  "quiet P f (e_ret x)" "quiet P f (e_fail e)" "quiet P f (e_lift r)" "quiet P f (e_gets g)" "quiet P f (ensure b m)"
  "quiet P f (some_or m y)" "quiet P f (decode L d v)"
  by (auto simp: quiet_def ensure_def some_or_def decode_def split: option.splits)

lemma quiet_bind [intro]: "quiet P f m \<Longrightarrow> (\<And>x. quiet P f (k x)) \<Longrightarrow> quiet P f (e_bind m k)"
proof (unfold quiet_def, intro allI impI)
  fix s r s' assume q: "\<forall>s r s'. P s \<longrightarrow> m s = (r, s') \<longrightarrow> P s' \<and> f s' = f s"
    "\<And>x. \<forall>s r s'. P s \<longrightarrow> k x s = (r, s') \<longrightarrow> P s' \<and> f s' = f s" and P: "P s" and run: "e_bind m k s = (r, s')"
  from run show "P s' \<and> f s' = f s"
  proof (cases rule: e_bind_cases)
    case (err e)
    then show ?thesis using q(1) P by blast
  next
    case (ok x s1)
    then have "P s1 \<and> f s1 = f s" using q(1) P by blast
    then show ?thesis using q(2) ok(2) by metis
  qed
qed

lemma quiet_map_err [simp]: "quiet P f (e_map_err g m) = quiet P f m"
  by (auto simp: quiet_def e_map_err_def split: prod.splits)

lemma quiet_lift [simp]: "quiet P f (ctx t m) = quiet P f m" "quiet P f (gitm L m') = quiet P f m'"
  by (simp_all add: ctx_def gitm_def)

lemma quiet_e_map [intro]: "(\<And>x. x \<in> set xs \<Longrightarrow> quiet P f (g x)) \<Longrightarrow> quiet P f (e_map g xs)"
  by (induction xs) (auto intro!: quiet_bind)

lemma quiet_when [intro]: "quiet P f m \<Longrightarrow> quiet P f (e_when b m)"
  by (cases b) auto

lemma quietD: "quiet P f m \<Longrightarrow> P s \<Longrightarrow> m s = (r, s') \<Longrightarrow> P s' \<and> f s' = f s"
  unfolding quiet_def by blast

lemma guards_Inr [simp]:
  "ensure b m s = (Inr u, s') \<longleftrightarrow> b \<and> s' = s" "some_or m x s = (Inr y, s') \<longleftrightarrow> x = Some y \<and> s' = s"
  "decode L d v s = (Inr y, s') \<longleftrightarrow> d v = Some y \<and> s' = s"
  by (auto simp: ensure_def some_or_def decode_def from_value_def e_fail_def split: option.splits)

lemma lifts_Inr [simp]:
  "ctx t m s = (Inr y, s') \<longleftrightarrow> m s = (Inr y, s')" "gitm L m' s = (Inr y, s') \<longleftrightarrow> m' s = (Inr y, s')"
  by (auto simp: ctx_def gitm_def e_map_err_def split: prod.splits)

lemma core_bail_Inr [simp]: "core_bail r = Inr y \<longleftrightarrow> r = Inr y"
  by (simp add: core_bail_def)

lemma canonical_plain_body: "plain_body v \<Longrightarrow> canonical_json v = v"
  unfolding plain_body_def by (rule canonical_plain)

context ledger
begin

lemma listed_object:
  assumes "good s" "a_list A repo k s = (Inr es, s')"
  shows "good s'" "objs s' = objs s" "listing_of (objs s) k es"
  using assms list_exact quietD [OF list_quiet assms] by blast+

text \<open>A signed or plain write that succeeds adds one object, with the given kind and body.\<close>

lemma written:
  assumes "good s" "plain_body body" "write_signed_or_cached A L repo kind body signing s = (r, s')"
  shows "r = Inl e \<Longrightarrow> objs s' = objs s"
    and "r = Inr rep \<Longrightarrow> \<exists>obj. good s' \<and> objs s' = (objs s)(co_object_id obj \<mapsto> obj) \<and>
      wr_object_id rep = co_object_id obj \<and> co_kind obj = kind \<and> co_body obj = body \<and>
      objs s (co_object_id obj) \<in> {None, Some obj}"
proof -
  have "(\<forall>e. r = Inl e \<longrightarrow> objs s' = objs s) \<and> (\<forall>rep. r = Inr rep \<longrightarrow>
    (\<exists>obj. good s' \<and> objs s' = (objs s)(co_object_id obj \<mapsto> obj) \<and>
      wr_object_id rep = co_object_id obj \<and> co_kind obj = kind \<and> co_body obj = body \<and>
      objs s (co_object_id obj) \<in> {None, Some obj}))"
  proof (cases signing)
    case None
    then obtain r' where w: "a_write_cached A repo kind body s = (r', s')" and r: "r = map_err (\<lambda>e. Bail (git_error_text L e)) r'"
      using assms(3) by (auto simp: write_signed_or_cached_def gitm_def e_map_err_def split: prod.splits)
    from write_cached_new [OF w assms(1,2)] show ?thesis
    proof (elim disjE exE conjE)
      fix obj assume n: "canonical_object_new L kind DEFAULT_SCHEMA_VERSION 0 (canonical_json body) = Inr obj"
        and k: "case r' of Inr rep \<Rightarrow> good s' \<and> objs s' = (objs s)(co_object_id obj \<mapsto> obj) \<and> wr_object_id rep = co_object_id obj \<and>
            objs s (co_object_id obj) \<in> {None, Some obj}
          | Inl e \<Rightarrow> objs s' = objs s \<and> (objs s (co_object_id obj) \<in> {None, Some obj} \<longrightarrow> good s')"
      show ?thesis using canonical_object_newD [OF n] k r canonical_plain_body [OF assms(2)]
        by (cases r') (auto intro!: exI [where x = obj])
    next
      fix e assume "r' = Inl e" "objs s' = objs s"
      then show ?thesis using r by simp
    qed
  next
    case (Some kl)
    obtain key label where kl: "kl = (key, label)" by (cases kl)
    show ?thesis
    proof (cases "canonical_object_new L kind DEFAULT_SCHEMA_VERSION 0 (canonical_json body)")
      case (Inl e)
      then show ?thesis using assms(3) Some kl by (auto simp: write_signed_or_cached_def eff_simps core_bail_def)
    next
      case (Inr obj)
      note d = canonical_object_newD [OF Inr]
      show ?thesis
      proof (cases "sign_object L obj key label")
        case (Inl e)
        then show ?thesis using assms(3) Some kl Inr by (auto simp: write_signed_or_cached_def eff_simps core_bail_def)
      next
        case (Inr sig)
        let ?o = "obj\<lparr>co_signatures := co_signatures obj @ [sig]\<rparr>"
        obtain r' where w: "a_write_canonical A repo ?o s = (r', s')" and r: "r = map_err (\<lambda>e. Bail (git_error_text L e)) r'"
          using assms(3) Some kl \<open>canonical_object_new _ _ _ _ _ = Inr obj\<close> Inr
          by (auto simp: write_signed_or_cached_def eff_simps core_bail_def gitm_def split: prod.splits)
        have "plain_body (co_body ?o)" using assms(2) d canonical_plain_body by simp
        from write_adds [OF this, unfolded adds_def, rule_format, OF assms(1) w]
        show ?thesis using r d canonical_plain_body [OF assms(2)] by (cases r') (auto intro!: exI [where x = ?o])
      qed
    qed
  qed
  then show "r = Inl e \<Longrightarrow> objs s' = objs s"
    and "r = Inr rep \<Longrightarrow> \<exists>obj. good s' \<and> objs s' = (objs s)(co_object_id obj \<mapsto> obj) \<and>
      wr_object_id rep = co_object_id obj \<and> co_kind obj = kind \<and> co_body obj = body \<and>
      objs s (co_object_id obj) \<in> {None, Some obj}"
    by blast+
qed

end

end
