(* ===== verification/Cli_Store.thy ===== *)
theory Cli_Store
  imports Cli_Api
begin

text \<open>
  The Git store keeps the contract of \<open>ledger\<close>: in a state whose references under
  \<^verbatim>\<open>refs/rickydata/objects/sha256/\<close> name well-formed blobs, and whose cache files agree with them, the
  ledger is what the references hold, and listing, reading and writing work on it as the contract says,
  whatever faults the file system meets.
\<close>

section \<open>The operations on a Git repository\<close>

text \<open>What lies outside: path resolution, environment, clock, subprocesses (which see everything), HTTP.\<close>

record ('g, 'p) outside =
  o_cwd :: path
  o_env :: "'p \<Rightarrow> str \<Rightarrow> str option"
  o_now :: "('p, str, u64) eff"
  o_spawn :: "command \<Rightarrow> ('g world \<times> 'p, str, process_output) eff"
  o_http :: "http_request \<Rightarrow> ('p, str, http_response) eff"

text \<open>The components of a path, relative to the current directory unless it starts with a slash.\<close>

definition resolve :: "path \<Rightarrow> str \<Rightarrow> path" where
  "resolve cwd x = foldl (\<lambda>acc c. if c = [] \<or> c = ''.'' then acc else if c = ''..'' then butlast acc else acc @ [c])
     (if x \<noteq> [] \<and> hd x = CHR ''/'' then [] else cwd) (split_on CHR ''/'' x)"

abbreviation o_path :: "('g, 'p) outside \<Rightarrow> str \<Rightarrow> path" where
  "o_path P \<equiv> resolve (o_cwd P)"

definition on_world :: "('w, 'e, 'a) eff \<Rightarrow> ('w \<times> 'p, 'e, 'a) eff" where
  "on_world m = (\<lambda>(w, p). case m w of (r, w') \<Rightarrow> (r, (w', p)))"

definition on_outside :: "('p, 'e, 'a) eff \<Rightarrow> ('w \<times> 'p, 'e, 'a) eff" where
  "on_outside m = (\<lambda>(w, p). case m p of (r, p') \<Rightarrow> (r, (w, p')))"

text \<open>\<^verbatim>\<open>std::fs::remove_file\<close> and \<^verbatim>\<open>remove_dir_all\<close>.\<close>

definition fs_remove_file :: "path \<Rightarrow> (fs, str, unit) eff" where
  "fs_remove_file p s = (case next_fault s of
     (NoFault, s') \<Rightarrow> (case lookup_file s' p of Inl e \<Rightarrow> (Inl e, s') | Inr _ \<Rightarrow> (Inr (), set_node p None s'))
   | (Refuse e, s') \<Rightarrow> (Inl e, s')
   | (Torn n e, s') \<Rightarrow> (Inl e, s'))"

definition fs_remove_dir_all :: "path \<Rightarrow> (fs, str, unit) eff" where
  "fs_remove_dir_all p s = (case next_fault s of
     (NoFault, s') \<Rightarrow>
       if tree s' p = None then (Inl ENOENT, s')
       else (Inr (), s'\<lparr>entries := filter (\<lambda>e. take (length p) (fst e) \<noteq> p) (entries s')\<rparr>)
   | (Refuse e, s') \<Rightarrow> (Inl e, s')
   | (Torn n e, s') \<Rightarrow> (Inl e, s'))"

definition git_api :: "'g gix \<Rightarrow> lib \<Rightarrow> ('g, 'p) outside \<Rightarrow> ('g world \<times> 'p) api" where
  "git_api G L P = \<lparr>
     a_env = (\<lambda>(w, p). o_env P p),
     a_now = on_outside (o_now P),
     a_spawn = o_spawn P,
     a_http = (\<lambda>q. on_outside (o_http P q)),
     a_exists = (\<lambda>(w, p) x. exists_at (w_fs w) (o_path P x)),
     a_is_dir = (\<lambda>(w, p) x. is_dir_at (w_fs w) (o_path P x)),
     a_read_file = (\<lambda>x. on_world (on_fs (fs_read (o_path P x)))),
     a_write_file = (\<lambda>x b. on_world (on_fs (fs_write (o_path P x) b))),
     a_create_dir_all = (\<lambda>x. on_world (on_fs (fs_create_dir_all (o_path P x)))),
     a_remove_file = (\<lambda>x. on_world (on_fs (fs_remove_file (o_path P x)))),
     a_remove_dir_all = (\<lambda>x. on_world (on_fs (fs_remove_dir_all (o_path P x)))),
     a_inspect = (\<lambda>repo. on_world (e_gets (inspect_repository G (o_path P repo)))),
     a_list = (\<lambda>repo k. on_world (list_ref_backed_objects G L (o_path P repo) k)),
     a_read = (\<lambda>repo i. on_world (read_cached_object G L (o_path P repo) i)),
     a_verify = (\<lambda>repo i. on_world (verify_cached_object G L (o_path P repo) i)),
     a_write_cached = (\<lambda>repo kind body. on_world (write_cached_object G L (o_path P repo) kind body)),
     a_write_canonical = (\<lambda>repo obj. on_world (write_canonical_object G L (o_path P repo) obj))\<rparr>"

section \<open>What a repository holds\<close>

definition OBJECT_PREFIX :: str where "OBJECT_PREFIX = ''refs/rickydata/objects/sha256/''"

text \<open>\<^verbatim>\<open>gix\<close>: a listing that succeeds names every reference with the prefix, once.\<close>

definition lists_exactly :: "'g gix \<Rightarrow> bool" where
  "lists_exactly G \<longleftrightarrow> (\<forall>g p rs. references_prefixed G g p = Inr rs \<longrightarrow> distinct rs \<and>
     (\<forall>n k. Inr (n, k) \<in> set rs \<longleftrightarrow> starts_with n p \<and> find_reference G g n = Inr (Some k)))"

definition id_of :: "str \<Rightarrow> str" where "id_of h = ''sha256:'' @ h"

definition hex_ok :: "str \<Rightarrow> bool" where "hex_ok h \<longleftrightarrow> object_hex (id_of h) = Inr h"

definition holds :: "'g gix \<Rightarrow> lib \<Rightarrow> 'g \<Rightarrow> str \<Rightarrow> canonical_object \<Rightarrow> bool" where
  "holds G L g h obj \<longleftrightarrow> hex_ok h \<and> (\<exists>k b. find_reference G g (ref_name_of h) = Inr (Some k) \<and>
     find_blob G g k = Inr b \<and> read_object_bytes L b = Inr obj)"

definition repo_objects :: "'g gix \<Rightarrow> lib \<Rightarrow> 'g \<Rightarrow> ledger_map" where
  "repo_objects G L g i = (case object_hex i of
     Inl _ \<Rightarrow> None
   | Inr h \<Rightarrow> if i \<noteq> id_of h then None else
       (case find_reference G g (ref_name_of h) of
          Inr (Some k) \<Rightarrow> (case find_blob G g k of
             Inr b \<Rightarrow> (case read_object_bytes L b of Inr obj \<Rightarrow> Some obj | Inl _ \<Rightarrow> None)
           | Inl _ \<Rightarrow> None)
        | _ \<Rightarrow> None))"

lemma object_hex_id: "object_hex i = Inr h \<Longrightarrow> hex_ok h"
  unfolding hex_ok_def id_of_def by (rule object_hexD(3))

lemma hex_ok_id [simp]: "hex_ok h \<Longrightarrow> object_hex (id_of h) = Inr h"
  by (simp add: hex_ok_def)

lemma id_of_inj [simp]: "id_of h = id_of h' \<longleftrightarrow> h = h'"
  by (simp add: id_of_def)

lemma ref_name_inj:
  assumes "ref_name_of h = ref_name_of h'" "hex_ok h" "hex_ok h'"
  shows "h = h'"
proof -
  have l: "length h = 64" "length h' = 64" using assms(2,3) object_hexD(1) unfolding hex_ok_def by blast+
  have "drop (length ''refs/rickydata/objects/sha256/'' + 3) (ref_name_of x) = x" if "length x = 64" for x
    using that by (simp add: ref_name_of_def drop_Cons')
  then show ?thesis using assms(1) l by metis
qed

lemma holds_hex: "holds G L g h obj \<Longrightarrow> hex_ok h"
  by (simp add: holds_def)

lemma repo_objects_iff: "repo_objects G L g i = Some obj \<longleftrightarrow> (\<exists>h. i = id_of h \<and> holds G L g h obj)"
  by (auto simp: repo_objects_def holds_def hex_ok_def split: sum.splits option.splits if_splits)

lemma repo_objects_id: "repo_objects G L g (id_of h) = Some obj \<longleftrightarrow> holds G L g h obj"
  by (auto simp: repo_objects_iff)

definition refs_good :: "'g gix \<Rightarrow> lib \<Rightarrow> 'g \<Rightarrow> bool" where
  "refs_good G L g \<longleftrightarrow> (\<forall>n k. starts_with n OBJECT_PREFIX \<longrightarrow> find_reference G g n = Inr (Some k) \<longrightarrow>
     (\<exists>h obj. n = ref_name_of h \<and> holds G L g h obj \<and> co_object_id obj = id_of h))"

definition cache_agrees :: "'g gix \<Rightarrow> lib \<Rightarrow> path \<Rightarrow> 'g world \<Rightarrow> bool" where
  "cache_agrees G L gd w \<longleftrightarrow> (\<forall>h obj b. holds G L (w_git w) h obj \<longrightarrow>
     tree (w_fs w) (cache_path_of gd h) = Some (File b) \<longrightarrow> read_object_bytes L b = Inr obj)"

definition store_good :: "'g gix \<Rightarrow> lib \<Rightarrow> path \<Rightarrow> 'g world \<Rightarrow> bool" where
  "store_good G L p w \<longleftrightarrow> gix_laws G \<and> lists_exactly G \<and> json_codec L \<and> hex_codec L \<and> sha_sized L \<and>
     refs_good G L (w_git w) \<and>
     (\<forall>gd wd. discover G (w_git w) p = Inr (gd, wd) \<longrightarrow> cache_agrees G L gd w)"

lemma starts_ref_name [simp]: "starts_with (ref_name_of h) OBJECT_PREFIX"
  unfolding ref_name_of_def OBJECT_PREFIX_def by (rule starts_with_append)

lemma refs_goodD:
  assumes "refs_good G L g" "find_reference G g (ref_name_of h) = Inr (Some k)" "hex_ok h"
  obtains obj where "holds G L g h obj" "co_object_id obj = id_of h"
proof -
  obtain h' obj where *: "ref_name_of h = ref_name_of h'" "holds G L g h' obj" "co_object_id obj = id_of h'"
    using assms(1,2) starts_ref_name unfolding refs_good_def by blast
  moreover have "hex_ok h'" using *(2) by (simp add: holds_def)
  ultimately have "h' = h" using ref_name_inj assms(3) by metis
  with * that show thesis by blast
qed

lemma store_good_cong:
  "tree (w_fs w') = tree (w_fs w) \<Longrightarrow> w_git w' = w_git w \<Longrightarrow> store_good G L p w' = store_good G L p w"
  by (simp add: store_good_def cache_agrees_def)

section \<open>Listing\<close>

lemma listed_entries:
  assumes "lists_exactly G" "refs_good G L g" "references_prefixed G g OBJECT_PREFIX = Inr rs"
    and "r_collect (list_entry G L g) rs = Inr es"
  shows "distinct (map le_object_id es)"
    and "i \<in> le_object_id ` {e \<in> set es. P (le_kind e)} \<longleftrightarrow> (\<exists>obj. repo_objects G L g i = Some obj \<and> P (co_kind obj))"
    and "e \<in> set es \<Longrightarrow> \<exists>obj. repo_objects G L g (le_object_id e) = Some obj \<and> le_kind e = co_kind obj"
proof -
  have len: "length es = length rs" and nth: "\<And>j. j < length rs \<Longrightarrow> list_entry G L g (rs ! j) = Inr (es ! j)"
    using r_collect_length [OF assms(4)] r_collect_nth [OF assms(4)] by auto
  have rs: "distinct rs" "\<And>n k. Inr (n, k) \<in> set rs \<longleftrightarrow> starts_with n OBJECT_PREFIX \<and> find_reference G g n = Inr (Some k)"
    using assms(1,3) unfolding lists_exactly_def by blast+
  have entry: "\<exists>h obj k. rs ! j = Inr (ref_name_of h, k) \<and> find_reference G g (ref_name_of h) = Inr (Some k) \<and>
      holds G L g h obj \<and> le_object_id (es ! j) = id_of h \<and> le_kind (es ! j) = co_kind obj" if j: "j < length rs" for j
  proof -
    obtain n k where nk: "rs ! j = Inr (n, k)" using nth [OF j] by (cases "rs ! j") (auto simp: list_entry_def)
    obtain b o1 where *: "find_blob G g k = Inr b" "read_object_bytes L b = Inr o1"
      "\<lparr>le_object_id = co_object_id o1, le_kind = co_kind o1, le_body_hash = co_body_hash o1, le_ref_name = n,
        le_git_object_id = k\<rparr> = es ! j"
      using nth [OF j] nk by (auto simp: list_entry_def r_bind_Inr_iff)
    note e = nk *(1,2)
    have e4: "le_object_id (es ! j) = co_object_id o1" "le_kind (es ! j) = co_kind o1"
      unfolding *(3) [symmetric] by simp_all
    have "Inr (n, k) \<in> set rs" using e(1) j nth_mem by metis
    then have n: "starts_with n OBJECT_PREFIX" "find_reference G g n = Inr (Some k)" using rs(2) by blast+
    then obtain h obj where h: "n = ref_name_of h" "holds G L g h obj" "co_object_id obj = id_of h"
      using assms(2) unfolding refs_good_def by blast
    then have "obj = o1" using n(2) e(2,3) by (auto simp: holds_def)
    with h e e4 n show ?thesis by auto
  qed
  have ids: "le_object_id (es ! a) \<noteq> le_object_id (es ! b)" if ab: "a < length rs" "b < length rs" "a \<noteq> b" for a b
  proof
    assume eq: "le_object_id (es ! a) = le_object_id (es ! b)"
    obtain h k where a: "rs ! a = Inr (ref_name_of h, k)" "find_reference G g (ref_name_of h) = Inr (Some k)"
      "le_object_id (es ! a) = id_of h" using entry [OF ab(1)] by blast
    obtain h' k' where b: "rs ! b = Inr (ref_name_of h', k')" "find_reference G g (ref_name_of h') = Inr (Some k')"
      "le_object_id (es ! b) = id_of h'" using entry [OF ab(2)] by blast
    have "rs ! a = rs ! b" using a b eq by simp
    with rs(1) ab show False by (simp add: nth_eq_iff_index_eq)
  qed
  then show "distinct (map le_object_id es)" by (auto simp: distinct_conv_nth len)
  show e: "\<exists>obj. repo_objects G L g (le_object_id e) = Some obj \<and> le_kind e = co_kind obj" if "e \<in> set es" for e
    using that entry len by (metis in_set_conv_nth repo_objects_id)
  show "i \<in> le_object_id ` {e \<in> set es. P (le_kind e)} \<longleftrightarrow> (\<exists>obj. repo_objects G L g i = Some obj \<and> P (co_kind obj))"
  proof
    assume "i \<in> le_object_id ` {e \<in> set es. P (le_kind e)}"
    then show "\<exists>obj. repo_objects G L g i = Some obj \<and> P (co_kind obj)" using e by fastforce
  next
    assume "\<exists>obj. repo_objects G L g i = Some obj \<and> P (co_kind obj)"
    then obtain obj h where o1: "i = id_of h" "holds G L g h obj" "P (co_kind obj)" by (auto simp: repo_objects_iff)
    then obtain k where "find_reference G g (ref_name_of h) = Inr (Some k)" by (auto simp: holds_def)
    then have "Inr (ref_name_of h, k) \<in> set rs" using rs(2) by simp
    then obtain j where j: "j < length rs" "rs ! j = Inr (ref_name_of h, k)" by (auto simp: in_set_conv_nth)
    obtain h' obj' k' where *: "rs ! j = Inr (ref_name_of h', k')" "holds G L g h' obj'"
      "le_object_id (es ! j) = id_of h'" "le_kind (es ! j) = co_kind obj'" using entry [OF j(1)] by blast
    have "h' = h" using * j(2) o1(2) ref_name_inj [of h' h] by (simp add: holds_def)
    moreover have "obj' = obj" using *(2) o1(2) \<open>h' = h\<close> by (auto simp: holds_def)
    moreover have "es ! j \<in> set es" using j(1) len by simp
    ultimately show "i \<in> le_object_id ` {e \<in> set es. P (le_kind e)}" using * o1(1,3) by (auto intro!: image_eqI [where x = "es ! j"])
  qed
qed

lemma list_run:
  assumes "list_ref_backed_objects G L p k w = (r, w')"
  shows "tree (w_fs w') = tree (w_fs w)" "w_git w' = w_git w"
    and "r = Inr es \<Longrightarrow> \<exists>rs es0. references_prefixed G (w_git w) OBJECT_PREFIX = Inr rs \<and>
      r_collect (list_entry G L (w_git w)) rs = Inr es0 \<and>
      es = sort_key le_object_id (filter (\<lambda>e. case k of None \<Rightarrow> True | Some k \<Rightarrow> le_kind e = k) es0)"
proof -
  obtain r1 w1 where op: "open_initialized_store G p w = (r1, w1)" by (rule prod.exhaust)
  note o = open_store_eff(1) [OF op]
  have w': "w' = w1" using assms op by (cases r1) (auto simp: list_ref_backed_objects_def eff_simps split: sum.splits)
  with o show "tree (w_fs w') = tree (w_fs w)" "w_git w' = w_git w" by simp_all
  assume "r = Inr es"
  with assms op o show "\<exists>rs es0. references_prefixed G (w_git w) OBJECT_PREFIX = Inr rs \<and>
      r_collect (list_entry G L (w_git w)) rs = Inr es0 \<and>
      es = sort_key le_object_id (filter (\<lambda>e. case k of None \<Rightarrow> True | Some k \<Rightarrow> le_kind e = k) es0)"
    by (cases r1) (auto simp: list_ref_backed_objects_def eff_simps r_bind_Inr_iff OBJECT_PREFIX_def split: sum.splits)
qed

lemma list_listing:
  assumes "store_good G L p w" "list_ref_backed_objects G L p k w = (Inr es, w')"
  shows "listing_of (repo_objects G L (w_git w)) k es"
proof -
  let ?P = "\<lambda>e. case k of None \<Rightarrow> True | Some x \<Rightarrow> le_kind e = x"
  from list_run(3) [OF assms(2) refl] obtain rs es0 where
    rs: "references_prefixed G (w_git w) OBJECT_PREFIX = Inr rs" "r_collect (list_entry G L (w_git w)) rs = Inr es0"
    and es: "es = sort_key le_object_id (filter ?P es0)" by blast
  have g: "lists_exactly G" "refs_good G L (w_git w)" using assms(1) by (simp_all add: store_good_def)
  note l = listed_entries [OF g rs]
  have "distinct (map le_object_id (filter ?P es0))" by (rule distinct_map_filter [OF l(1)])
  then have "distinct (map le_object_id es)" by (simp add: es distinct_map)
  moreover have "sorted (map le_object_id es)" by (simp add: es)
  moreover have "i \<in> le_object_id ` set es \<longleftrightarrow> (\<exists>obj. repo_objects G L (w_git w) i = Some obj \<and> kind_matches k obj)" for i
    using l(2) [of i "\<lambda>x. case k of None \<Rightarrow> True | Some y \<Rightarrow> x = y"] by (simp add: es kind_matches_def)
  moreover have "\<forall>e \<in> set es. \<exists>obj. repo_objects G L (w_git w) (le_object_id e) = Some obj \<and> le_kind e = co_kind obj"
    using l(3) by (simp add: es)
  ultimately show ?thesis by (simp add: listing_of_def strict_sorted_iff)
qed

section \<open>Reading\<close>

text \<open>A cache file written with the bytes of the reference, or in a place without a reference.\<close>

lemma cache_agrees_write:
  assumes c: "cache_agrees G L gd w"
    and wr: "write_object_cache_bytes (temp_dir_of gd) (cache_path_of gd h) i b (w_fs w) = (r, s')"
    and ok: "\<And>obj. holds G L (w_git w) h obj \<Longrightarrow> read_object_bytes L b = Inr obj"
  shows "cache_agrees G L gd (w\<lparr>w_fs := s'\<rparr>)"
  unfolding cache_agrees_def
proof (intro allI impI)
  fix h' obj b' assume h': "holds G L (w_git (w\<lparr>w_fs := s'\<rparr>)) h' obj" "tree (w_fs (w\<lparr>w_fs := s'\<rparr>)) (cache_path_of gd h') = Some (File b')"
  show "read_object_bytes L b' = Inr obj"
  proof (cases "tree (w_fs w) (cache_path_of gd h') = Some (File b')")
    case True
    then show ?thesis using c h'(1) unfolding cache_agrees_def by simp
  next
    case False
    then have "h' = h" using write_cache_eff(2) [OF wr, of "cache_path_of gd h'"] h'(2) by fastforce
    moreover have "b' = b" using write_cache_eff(1) [OF wr] False h'(2) \<open>h' = h\<close> by auto
    ultimately show ?thesis using ok h'(1) by simp
  qed
qed

lemma read_run:
  assumes g: "store_good G L p w" and run: "read_cached_object G L p i w = (r, w')"
  shows "store_good G L p w'" "w_git w' = w_git w"
    and "r = Inr rep \<Longrightarrow> rr_object_id rep = i \<and> (\<forall>h obj. i = id_of h \<longrightarrow> holds G L (w_git w) h obj \<longrightarrow> rr_object rep = obj)"
proof -
  have refs: "refs_good G L (w_git w)" using g by (simp add: store_good_def)
  have "store_good G L p w' \<and> w_git w' = w_git w \<and>
    (\<forall>rep. r = Inr rep \<longrightarrow> rr_object_id rep = i \<and> (\<forall>h obj. i = id_of h \<longrightarrow> holds G L (w_git w) h obj \<longrightarrow> rr_object rep = obj))"
    using run unfolding read_cached_object_def
  proof (cases rule: e_bind_cases)
    case (err e)
    note o = open_store_eff(1) [OF err(1)]
    show ?thesis using o err(2) g store_good_cong [of w' w] by simp
  next
    case (ok st w1)
    note o = open_store_eff(1) [OF ok(1)]
    obtain gd where ready: "store_ready G p gd w" and st: "st = \<lparr>st_git_dir = gd, st_temp_dir = temp_dir_of gd\<rparr>"
      using open_store_eff(2) [OF ok(1) refl] by blast
    have g1: "store_good G L p w1" using g o store_good_cong by blast
    obtain wd where disc: "discover G (w_git w) p = Inr (gd, wd)" using ready by (auto simp: store_ready_def)
    have agrees: "cache_agrees G L gd w1" using g1 disc o by (auto simp: store_good_def)
    show ?thesis
    proof (cases "object_hex i")
      case (Inl e)
      then have "r = Inl e \<and> w' = w1" using ok(2) st by (simp add: object_cache_path_def eff_simps)
      with g1 o show ?thesis by simp
    next
      case (Inr h)
      obtain q w2 where q: "read_object_from_cache_or_ref G L st (cache_path_of gd h) i w1 = (q, w2)" by (rule prod.exhaust)
      have fin: "w' = w2" "\<And>rep. r = Inr rep \<Longrightarrow> \<exists>src obj. q = Inr (src, obj) \<and> rr_object rep = obj \<and> rr_object_id rep = i"
        using ok(2) Inr st q by (cases q; auto simp: object_cache_path_Inr eff_simps)+
      have hid: "i = id_of h' \<Longrightarrow> hex_ok h' \<Longrightarrow> h' = h" for h' using Inr by auto
      show ?thesis
      proof (cases "exists_at (w_fs w1) (cache_path_of gd h)")
        case True
        then obtain r3 s3 where rd: "fs_read (cache_path_of gd h) (w_fs w1) = (r3, s3)"
          and w2: "w2 = w1\<lparr>w_fs := s3\<rparr>" and qv: "\<And>src obj. q = Inr (src, obj) \<Longrightarrow> \<exists>b. r3 = Inr b \<and> read_object_bytes L b = Inr obj"
          using q by (auto simp: read_object_from_cache_or_ref_def read_object_file_def eff_simps on_fs_def split: prod.splits sum.splits)
        have t: "tree s3 = tree (w_fs w1)" by (rule fs_read_tree [OF rd])
        have "rr_object rep = obj" if "r = Inr rep" "i = id_of h'" "holds G L (w_git w) h' obj" for rep h' obj
        proof -
          obtain src o1 where "q = Inr (src, o1)" "rr_object rep = o1" using fin(2) [OF \<open>r = Inr rep\<close>] by blast
          then obtain b where b: "r3 = Inr b" "read_object_bytes L b = Inr o1" using qv by blast
          then have "tree (w_fs w1) (cache_path_of gd h) = Some (File b)" using fs_read_value rd by metis
          moreover have "h' = h" using that hid by (simp add: holds_def)
          ultimately show ?thesis using agrees that(3) o b(2) \<open>rr_object rep = o1\<close> unfolding cache_agrees_def by auto
        qed
        moreover have "store_good G L p w'" using g1 t fin(1) w2 store_good_cong [of w' w1] by simp
        ultimately show ?thesis using fin w2 o by fastforce
      next
        case False
        note def = q [unfolded read_object_from_cache_or_ref_def if_not_P [OF False]]
        have ref: "object_ref_name i = Inr (ref_name_of h)" by (rule object_ref_name_Inr [OF Inr])
        show ?thesis
        proof (cases "\<exists>k b obj x. find_reference G (w_git w1) (ref_name_of h) = Inr (Some k) \<and> find_blob G (w_git w1) k = Inr b \<and>
            read_object_bytes L b = Inr obj \<and> object_field_diagnostics L i obj = Inr (x, [])")
          case False
          then have "w2 = w1" "\<not> is_ok q"
            using def ref by (auto simp: eff_simps read_git_object_ref_def r_bind_def map_err_def split: sum.splits option.splits if_splits)
          with g1 o fin show ?thesis by (cases q) auto
        next
          case True
          then obtain k b obj x where k: "find_reference G (w_git w1) (ref_name_of h) = Inr (Some k)" "find_blob G (w_git w1) k = Inr b"
            "read_object_bytes L b = Inr obj" "object_field_diagnostics L i obj = Inr (x, [])" by blast
          obtain r3 s3 where wr: "write_object_cache_bytes (temp_dir_of gd) (cache_path_of gd h) i b (w_fs w1) = (r3, s3)"
            by (rule prod.exhaust)
          have w2: "w2 = w1\<lparr>w_fs := s3\<rparr>" and qv: "\<And>src o1. q = Inr (src, o1) \<Longrightarrow> o1 = obj"
            using def ref k wr st by (auto simp: eff_simps read_git_object_ref_def on_fs_def split: sum.splits prod.splits)
          have hk: "holds G L (w_git w1) h obj" using k object_hex_id [OF Inr] by (auto simp: holds_def)
          have "cache_agrees G L gd w2" unfolding w2
            by (rule cache_agrees_write [OF agrees wr]) (use k in \<open>auto simp: holds_def\<close>)
          then have "store_good G L p w2" using g1 disc o w2 by (auto simp: store_good_def)
          moreover have "rr_object rep = obj'" if "r = Inr rep" "i = id_of h'" "holds G L (w_git w) h' obj'" for rep h' obj'
            using fin(2) [OF that(1)] qv hk that o hid [of h'] by (auto simp: holds_def)
          ultimately show ?thesis using fin w2 o by fastforce
        qed
      qed
    qed
  qed
  then show "store_good G L p w'" "w_git w' = w_git w"
    and "r = Inr rep \<Longrightarrow> rr_object_id rep = i \<and> (\<forall>h obj. i = id_of h \<longrightarrow> holds G L (w_git w) h obj \<longrightarrow> rr_object rep = obj)"
    by blast+
qed

section \<open>Writing\<close>

text \<open>A failed reference update leaves every reference as it was.\<close>

lemma write_ref_fail:
  assumes "gix_laws G" "write_git_object_ref G i n b g = (Inl e, g')"
  shows "find_reference G g' = find_reference G g"
proof -
  obtain r1 g1 where w: "write_blob G b g = (r1, g1)" by (rule prod.exhaust)
  note bl = gix_write_blob(1) [OF assms(1) w]
  show ?thesis
  proof (cases "\<exists>oid. r1 = Inr oid \<and> find_reference G g1 n = Inr None")
    case True
    then obtain oid where o: "r1 = Inr oid" "find_reference G g1 n = Inr None" by blast
    obtain r2 g2 where sr: "set_reference G n oid MustNotExist (''rickygit object '' @ i) g1 = (r2, g2)" by (rule prod.exhaust)
    have "g' = g2 \<and> (\<exists>e'. r2 = Inl e')"
      using assms(2) w o sr by (cases r2) (simp_all add: write_git_object_ref_def eff_simps)
    then show ?thesis using gix_set_reference(3) [OF assms(1) sr] bl by auto
  next
    case False
    then have "g' = g1" using assms(2) w
      by (cases r1; cases "find_reference G g1 n") (auto simp: write_git_object_ref_def eff_simps split: option.splits if_splits)
    with bl show ?thesis by simp
  qed
qed

lemma holds_mono:
  assumes "find_reference G g' (ref_name_of h) = find_reference G g (ref_name_of h)"
    and "\<And>k b. find_blob G g k = Inr b \<Longrightarrow> find_blob G g' k = Inr b" and "refs_good G L g"
  shows "holds G L g' h obj \<longleftrightarrow> holds G L g h obj"
proof
  assume "holds G L g h obj"
  then show "holds G L g' h obj" using assms(1,2) by (auto simp: holds_def)
next
  assume h': "holds G L g' h obj"
  then obtain k b where k: "find_reference G g (ref_name_of h) = Inr (Some k)" "find_blob G g' k = Inr b"
    "read_object_bytes L b = Inr obj" "hex_ok h" using assms(1) by (auto simp: holds_def)
  obtain o1 where o1: "holds G L g h o1" by (rule refs_goodD [OF assms(3) k(1,4)])
  then obtain b1 where "find_blob G g k = Inr b1" "read_object_bytes L b1 = Inr o1" using k(1) by (auto simp: holds_def)
  then have "o1 = obj" using assms(2) k(2,3) by fastforce
  with o1 show "holds G L g h obj" by simp
qed

lemma store_object_run:
  assumes g: "store_good G L p w" and disc: "discover G (w_git w) p = Inr (gd, wd)"
    and id: "object_hex (co_object_id obj) = Inr h" "co_object_id obj = id_of h"
    and b: "read_object_bytes L b = Inr obj"
    and run: "store_object G \<lparr>st_git_dir = gd, st_temp_dir = temp_dir_of gd\<rparr> obj b w = (r, w')"
  shows "case r of
      Inr rep \<Rightarrow> store_good G L p w' \<and> repo_objects G L (w_git w') = (repo_objects G L (w_git w))(co_object_id obj \<mapsto> obj) \<and>
        wr_object_id rep = co_object_id obj \<and> repo_objects G L (w_git w) (co_object_id obj) \<in> {None, Some obj}
    | Inl e \<Rightarrow> repo_objects G L (w_git w') = repo_objects G L (w_git w) \<and>
        (repo_objects G L (w_git w) (co_object_id obj) \<in> {None, Some obj} \<longrightarrow> store_good G L p w')"
proof -
  have laws: "gix_laws G" and refs: "refs_good G L (w_git w)" and agrees: "cache_agrees G L gd w"
    using g disc by (auto simp: store_good_def)
  have hk: "hex_ok h" using id by (simp add: hex_ok_def)
  have cond: "(repo_objects G L (w_git w) (co_object_id obj) \<in> {None, Some obj}) \<longleftrightarrow>
      (\<forall>o1. holds G L (w_git w) h o1 \<longrightarrow> read_object_bytes L b = Inr o1)"
  proof (cases "repo_objects G L (w_git w) (id_of h)")
    case None
    then have "\<not> holds G L (w_git w) h o1" for o1 by (metis repo_objects_id option.distinct(1))
    with None show ?thesis by (simp add: id(2))
  next
    case (Some a)
    then have "holds G L (w_git w) h o1 \<longleftrightarrow> o1 = a" for o1 by (metis repo_objects_id option.inject)
    with Some b show ?thesis by (auto simp: id(2))
  qed
  obtain r1 s1 where wr: "write_object_cache_bytes (temp_dir_of gd) (cache_path_of gd h) (co_object_id obj) b (w_fs w) = (r1, s1)"
    by (rule prod.exhaust)
  let ?w1 = "w\<lparr>w_fs := s1\<rparr>"
  have g1: "store_good G L p ?w1" if "\<forall>o1. holds G L (w_git w) h o1 \<longrightarrow> read_object_bytes L b = Inr o1"
    using cache_agrees_write [OF agrees wr] that g disc by (auto simp: store_good_def)
  show ?thesis
  proof (cases r1)
    case (Inl e)
    then have "w' = ?w1 \<and> r = Inl e"
      using run id wr by (simp add: store_object_def object_cache_path_Inr eff_simps on_fs_def)
    with g1 cond show ?thesis by simp
  next
    case (Inr st)
    have cfile: "tree s1 (cache_path_of gd h) = Some (File b)" by (rule write_cache_eff(3) [OF wr Inr])
    obtain r2 g2 where gr: "write_git_object_ref G (co_object_id obj) (ref_name_of h) b (w_git w) = (r2, g2)"
      by (rule prod.exhaust)
    note e = write_ref_eff [OF laws gr]
    have w': "w' = ?w1\<lparr>w_git := g2\<rparr>"
      and r: "r = (case r2 of Inl e \<Rightarrow> Inl e | Inr k \<Rightarrow> Inr (write_report st obj (cache_path_of gd h) (ref_name_of h) k b))"
      using run id wr Inr gr object_ref_name_Inr [OF id(1)]
      by (auto simp: store_object_def object_cache_path_Inr eff_simps on_fs_def on_git_def split: sum.splits)
    show ?thesis
    proof (cases r2)
      case r2: (Inl err)
      have fr: "find_reference G g2 = find_reference G (w_git w)" using write_ref_fail [OF laws] gr r2 by metis
      have same: "holds G L g2 h' o1 \<longleftrightarrow> holds G L (w_git w) h' o1" for h' o1
        using fr e(3) refs by (intro holds_mono) simp_all
      then have objs: "repo_objects G L g2 = repo_objects G L (w_git w)"
        by (intro ext option.expand) (metis repo_objects_iff option.exhaust option.sel is_none_code(1) option.distinct(1))+
      have "store_good G L p w'" if "store_good G L p ?w1"
        using that same fr e(1) unfolding store_good_def refs_good_def cache_agrees_def w' by simp
      with g1 cond objs r r2 w' show ?thesis by simp
    next
      case r2: (Inr k)
      have fk: "find_reference G g2 (ref_name_of h) = Inr (Some k)" "find_blob G g2 k = Inr b" using e(4) [OF r2] by blast+
      have "read_object_bytes L b = Inr o1" if ho: "holds G L (w_git w) h o1" for o1
      proof -
        obtain k0 b0 where k0: "find_reference G (w_git w) (ref_name_of h) = Inr (Some k0)" "find_blob G (w_git w) k0 = Inr b0"
          "read_object_bytes L b0 = Inr o1" using ho by (auto simp: holds_def)
        have "k0 = k" using e(5) [OF k0(1)] fk(1) by simp
        then have "b0 = b" using e(3) [OF k0(2)] fk(2) by simp
        with k0 show ?thesis by simp
      qed
      then have fresh: "repo_objects G L (w_git w) (co_object_id obj) \<in> {None, Some obj}" using cond by blast
      have new: "holds G L g2 h o1 \<longleftrightarrow> o1 = obj" for o1 using fk b hk by (auto simp: holds_def)
      have old: "holds G L g2 h' o1 \<longleftrightarrow> holds G L (w_git w) h' o1" if "h' \<noteq> h" "hex_ok h'" for h' o1
        using ref_name_inj [of h' h] that hk e(2,3) refs by (intro holds_mono) auto
      have holds2: "holds G L g2 h' o1 \<longleftrightarrow> (if h' = h then o1 = obj else holds G L (w_git w) h' o1)" for h' o1
        using new old holds_hex by metis
      have objs: "repo_objects G L g2 = (repo_objects G L (w_git w))(co_object_id obj \<mapsto> obj)"
      proof
        fix i
        have "repo_objects G L g2 i = Some o1 \<longleftrightarrow> ((repo_objects G L (w_git w))(co_object_id obj \<mapsto> obj)) i = Some o1" for o1
          by (auto simp: repo_objects_iff holds2 id(2) split: if_splits)
        then show "repo_objects G L g2 i = ((repo_objects G L (w_git w))(co_object_id obj \<mapsto> obj)) i"
          by (metis not_Some_eq)
      qed
      have refs2: "refs_good G L g2" unfolding refs_good_def
      proof (intro allI impI)
        fix n j assume n: "starts_with n OBJECT_PREFIX" "find_reference G g2 n = Inr (Some j)"
        show "\<exists>h' o1. n = ref_name_of h' \<and> holds G L g2 h' o1 \<and> co_object_id o1 = id_of h'"
        proof (cases "n = ref_name_of h")
          case True
          then show ?thesis using new id(2) by blast
        next
          case False
          then have "find_reference G (w_git w) n = Inr (Some j)" using e(2) n(2) by simp
          then obtain h' o1 where h': "n = ref_name_of h'" "holds G L (w_git w) h' o1" "co_object_id o1 = id_of h'"
            using refs n(1) unfolding refs_good_def by blast
          then have "holds G L g2 h' o1" using False holds2 by auto
          with h' show ?thesis by blast
        qed
      qed
      have agrees2: "cache_agrees G L gd w'" unfolding cache_agrees_def
      proof (intro allI impI)
        fix h' o1 b' assume h': "holds G L (w_git w') h' o1" "tree (w_fs w') (cache_path_of gd h') = Some (File b')"
        show "read_object_bytes L b' = Inr o1"
        proof (cases "h' = h")
          case True
          then show ?thesis using h' new cfile b w' by auto
        next
          case False
          then have "tree (w_fs w) (cache_path_of gd h') = Some (File b')"
            using write_cache_eff(2) [OF wr, of "cache_path_of gd h'"] h'(2) w' by auto
          moreover have "holds G L (w_git w) h' o1" using h'(1) False holds2 w' by auto
          ultimately show ?thesis using agrees unfolding cache_agrees_def by blast
        qed
      qed
      have "store_good G L p w'" using g disc refs2 agrees2 e(1) w' by (auto simp: store_good_def)
      with objs r r2 w' fresh show ?thesis by (simp add: write_report_def)
    qed
  qed
qed

lemma fields_ok_id_of:
  assumes "fields_ok L obj" "hex_codec L" "sha_sized L"
  obtains h where "object_hex (co_object_id obj) = Inr h" "co_object_id obj = id_of h"
proof -
  have "object_id_ok (co_object_id obj)"
    using assms unfolding fields_ok_def canonical_object_id_def by (blast intro: stable_json_hash_shape)
  then show thesis using object_id_ok_hex that unfolding id_of_def by blast
qed

text \<open>Both writers open the store, check or make the object, and store its bytes.\<close>

lemma write_canonical_good:
  assumes g: "store_good G L p w" and pb: "plain_body (co_body obj)" and run: "write_canonical_object G L p obj w = (r, w')"
  shows "case r of
      Inr rep \<Rightarrow> store_good G L p w' \<and> repo_objects G L (w_git w') = (repo_objects G L (w_git w))(co_object_id obj \<mapsto> obj) \<and>
        wr_object_id rep = co_object_id obj \<and> repo_objects G L (w_git w) (co_object_id obj) \<in> {None, Some obj}
    | Inl e \<Rightarrow> repo_objects G L (w_git w') = repo_objects G L (w_git w) \<and>
        (repo_objects G L (w_git w) (co_object_id obj) \<in> {None, Some obj} \<longrightarrow> store_good G L p w')"
  using run unfolding write_canonical_object_def
proof (cases rule: e_bind_cases)
  case (err e)
  note o = open_store_eff(1) [OF err(1)]
  show ?thesis using o err(2) g store_good_cong [of w' w] by simp
next
  case (ok st w1)
  note o = open_store_eff(1) [OF ok(1)]
  obtain gd where ready: "store_ready G p gd w" and st: "st = \<lparr>st_git_dir = gd, st_temp_dir = temp_dir_of gd\<rparr>"
    using open_store_eff(2) [OF ok(1) refl] by blast
  have g1: "store_good G L p w1" using g o store_good_cong by blast
  obtain wd where disc: "discover G (w_git w1) p = Inr (gd, wd)" using ready o by (auto simp: store_ready_def)
  have laws: "json_codec L" "hex_codec L" "sha_sized L" using g by (simp_all add: store_good_def)
  show ?thesis
  proof (cases "\<exists>x b. object_field_diagnostics L (co_object_id obj) obj = Inr (x, []) \<and> canonical_object_bytes L obj = Inr b")
    case True
    then obtain x b where d: "object_field_diagnostics L (co_object_id obj) obj = Inr (x, [])" "canonical_object_bytes L obj = Inr b" by blast
    have "fields_ok L obj" using d(1) field_diagnostics_clean by blast
    then obtain h where h: "object_hex (co_object_id obj) = Inr h" "co_object_id obj = id_of h"
      by (rule fields_ok_id_of [OF _ laws(2,3)])
    have "store_object G \<lparr>st_git_dir = gd, st_temp_dir = temp_dir_of gd\<rparr> obj b w1 = (r, w')"
      using ok(2) d st by (cases x) (simp add: eff_simps)
    from store_object_run [OF g1 disc h object_bytes_read [OF laws(1) pb d(2)] this] o show ?thesis by (cases r) simp_all
  next
    case False
    then have "w' = w1 \<and> \<not> is_ok r"
      using ok(2) by (auto simp: eff_simps split: sum.splits if_splits)
    with g1 o show ?thesis by (cases r) auto
  qed
qed

lemma write_cached_good:
  assumes g: "store_good G L p w" and pb: "plain_body body" and run: "write_cached_object G L p kind body w = (r, w')"
  shows "(\<exists>obj. canonical_object_new L kind DEFAULT_SCHEMA_VERSION 0 (canonical_json body) = Inr obj \<and>
      (case r of
        Inr rep \<Rightarrow> store_good G L p w' \<and> repo_objects G L (w_git w') = (repo_objects G L (w_git w))(co_object_id obj \<mapsto> obj) \<and>
          wr_object_id rep = co_object_id obj \<and> repo_objects G L (w_git w) (co_object_id obj) \<in> {None, Some obj}
      | Inl e \<Rightarrow> repo_objects G L (w_git w') = repo_objects G L (w_git w) \<and>
          (repo_objects G L (w_git w) (co_object_id obj) \<in> {None, Some obj} \<longrightarrow> store_good G L p w'))) \<or>
    (\<exists>e. r = Inl e \<and> store_good G L p w' \<and> repo_objects G L (w_git w') = repo_objects G L (w_git w))"
  using run unfolding write_cached_object_def
proof (cases rule: e_bind_cases)
  case (err e)
  note o = open_store_eff(1) [OF err(1)]
  show ?thesis using o err(2) g store_good_cong [of w' w] by simp
next
  case (ok st w1)
  note o = open_store_eff(1) [OF ok(1)]
  obtain gd where ready: "store_ready G p gd w" and st: "st = \<lparr>st_git_dir = gd, st_temp_dir = temp_dir_of gd\<rparr>"
    using open_store_eff(2) [OF ok(1) refl] by blast
  have g1: "store_good G L p w1" using g o store_good_cong by blast
  obtain wd where disc: "discover G (w_git w1) p = Inr (gd, wd)" using ready o by (auto simp: store_ready_def)
  have laws: "json_codec L" "hex_codec L" "sha_sized L" using g by (simp_all add: store_good_def)
  show ?thesis
  proof (cases "\<exists>obj b. canonical_object_new L kind DEFAULT_SCHEMA_VERSION 0 (canonical_json body) = Inr obj \<and> canonical_object_bytes L obj = Inr b")
    case True
    then obtain obj b where d: "canonical_object_new L kind DEFAULT_SCHEMA_VERSION 0 (canonical_json body) = Inr obj"
      "canonical_object_bytes L obj = Inr b" by blast
    obtain h where h: "object_hex (co_object_id obj) = Inr h" "co_object_id obj = id_of h"
      by (rule fields_ok_id_of [OF canonical_object_new_fields [OF d(1)] laws(2,3)])
    have "store_object G \<lparr>st_git_dir = gd, st_temp_dir = temp_dir_of gd\<rparr> obj b w1 = (r, w')"
      using ok(2) d st by (simp add: eff_simps)
    moreover have "plain_body (co_body obj)" using canonical_object_newD(5) [OF d(1)] pb canonical_plain_body by simp
    ultimately show ?thesis
      using store_object_run [OF g1 disc h object_bytes_read [OF laws(1) _ d(2)]] d(1) o by (cases r) fastforce+
  next
    case False
    then have "w' = w1 \<and> \<not> is_ok r"
      using ok(2) by (auto simp: eff_simps split: sum.splits if_splits)
    with g1 o show ?thesis by (cases r) auto
  qed
qed

section \<open>The interpretation\<close>

text \<open>The subcommands of git named in \<open>local_git\<close> leave the objects of the ledger and their cache alone.\<close>

definition spawn_keeps :: "'g gix \<Rightarrow> lib \<Rightarrow> ('g, 'p) outside \<Rightarrow> path \<Rightarrow> bool" where
  "spawn_keeps G L P p \<longleftrightarrow> (\<forall>c s r s'. local_git c \<longrightarrow> o_spawn P c s = (r, s') \<longrightarrow> store_good G L p (fst s) \<longrightarrow>
     store_good G L p (fst s') \<and> repo_objects G L (w_git (fst s')) = repo_objects G L (w_git (fst s)))"

definition host_good :: "'g gix \<Rightarrow> lib \<Rightarrow> ('g, 'p) outside \<Rightarrow> str \<Rightarrow> 'g world \<times> 'p \<Rightarrow> bool" where
  "host_good G L P repo s \<longleftrightarrow> store_good G L (o_path P repo) (fst s) \<and> spawn_keeps G L P (o_path P repo)"

definition host_objects :: "'g gix \<Rightarrow> lib \<Rightarrow> 'g world \<times> 'p \<Rightarrow> ledger_map" where
  "host_objects G L s = repo_objects G L (w_git (fst s))"

lemma on_world_iff: "on_world m s = (r, s') \<longleftrightarrow> m (fst s) = (r, fst s') \<and> snd s' = snd s"
  by (cases s; cases s') (auto simp: on_world_def split: prod.splits)

lemma on_outside_world: "on_outside m s = (r, s') \<Longrightarrow> fst s' = fst s"
  by (cases s) (auto simp: on_outside_def split: prod.splits)

lemma on_world_fs:
  assumes "on_world (on_fs m) s = (r, s')"
  shows "m (w_fs (fst s)) = (r, w_fs (fst s')) \<and> w_git (fst s') = w_git (fst s)"
proof -
  obtain x where "m (w_fs (fst s)) = (r, x)" "fst s' = (fst s)\<lparr>w_fs := x\<rparr>"
    using assms by (auto simp: on_world_iff on_fs_def split: prod.splits)
  then show ?thesis by simp
qed

lemmas host_defs = git_api_def host_good_def host_objects_def

lemma host_list:
  "a_list (git_api G L P) repo k s = (r, s') \<Longrightarrow> list_ref_backed_objects G L (o_path P repo) k (fst s) = (r, fst s')"
  by (simp add: host_defs on_world_iff)

lemma host_read:
  "a_read (git_api G L P) repo i s = (r, s') \<Longrightarrow> read_cached_object G L (o_path P repo) i (fst s) = (r, fst s')"
  by (simp add: host_defs on_world_iff)

text \<open>A run on files that makes no cache file, and a path of the temporary directory is never one.\<close>

lemma host_fs:
  assumes "\<And>s r s' gd h b. m s = (r, s') \<Longrightarrow> tree (w_fs (fst s')) (cache_path_of gd h) = Some (File b) \<Longrightarrow>
      tree (w_fs (fst s)) (cache_path_of gd h) = Some (File b)"
    and "\<And>s r s'. m s = (r, s') \<Longrightarrow> w_git (fst s') = w_git (fst s)"
  shows "quiet (host_good G L P repo) (host_objects G L) m"
  unfolding quiet_def
proof (intro allI impI)
  fix s r s' assume g: "host_good G L P repo s" and run: "m s = (r, s')"
  note a = assms(1) [OF run] assms(2) [OF run]
  have "store_good G L (o_path P repo) (fst s')"
    using g a unfolding host_good_def store_good_def cache_agrees_def by metis
  then show "host_good G L P repo s' \<and> host_objects G L s' = host_objects G L s"
    using g a by (simp add: host_good_def host_objects_def)
qed

lemma split_on_snoc: "CHR ''/'' \<notin> set n \<Longrightarrow> split_on CHR ''/'' (d @ CHR ''/'' # n) = split_on CHR ''/'' d @ [n]"
proof (induction d)
  case (Cons x xs)
  then show ?case by (cases "split_on CHR ''/'' xs") (auto simp: split_on_plain)
qed (simp add: split_on_plain)

lemma side_not_cache:
  assumes "side_file x"
  shows "resolve cwd x \<noteq> cache_path_of gd h"
proof
  assume eq: "resolve cwd x = cache_path_of gd h"
  obtain d dir n where x: "x = d @ CHR ''/'' # dir @ CHR ''/'' # n" "dir \<in> {''tmp'', ''state''}" "CHR ''/'' \<notin> set n" "n \<notin> {[], ''.'', ''..''}"
    using assms by (auto simp: side_file_def)
  have "CHR ''/'' \<notin> set dir" using x(2) by auto
  then have "split_on CHR ''/'' x = split_on CHR ''/'' d @ [dir, n]"
    using split_on_snoc [OF x(3), of "d @ CHR ''/'' # dir"] split_on_snoc [of dir d] by (simp add: x(1))
  then obtain q where q: "resolve cwd x = q @ [dir, n]" using x(2,4) by (auto simp: resolve_def)
  have "cache_path_of gd h = (gd @ [''rickydata'', ''cache'', ''objects'', ''sha256'']) @ [take 2 h, h @ ''.json'']"
    by (simp add: cache_path_of_def)
  with eq q have "length (take 2 h) = length dir" by simp
  with x(2) show False by auto
qed

lemma fs_remove_file_tree:
  "fs_remove_file p s = (r, s') \<Longrightarrow> \<forall>q. tree s' q = tree s q \<or> tree s' q = None"
  by (auto simp: fs_remove_file_def next_fault_tree split: prod.splits fault.splits sum.splits if_splits)

text \<open>Verifying an object leaves the state a read leaves.\<close>

lemma verify_as_read: "snd (verify_cached_object G L p i w) = snd (read_cached_object G L p i w)"
proof (cases "open_initialized_store G p w")
  case (Pair r w1)
  show ?thesis
  proof (cases r)
    case (Inl e)
    with Pair show ?thesis by (simp add: verify_cached_object_def read_cached_object_def e_bind_apply)
  next
    case (Inr st)
    show ?thesis
    proof (cases "object_cache_path (st_git_dir st) i")
      case (Inl e)
      with Pair Inr show ?thesis by (simp add: verify_cached_object_def read_cached_object_def eff_simps)
    next
      case (Inr c)
      obtain q w2 where q: "read_object_from_cache_or_ref G L st c i w1 = (q, w2)" by (rule prod.exhaust)
      have "snd (read_cached_object G L p i w) = snd (read_object_from_cache_or_ref G L st c i w1)"
        unfolding read_cached_object_def e_bind_apply e_basic_apply Pair \<open>r = Inr st\<close> prod.case sum.case Inr q
        by (cases q) (auto split: prod.split)
      moreover have "snd (verify_cached_object G L p i w) = snd (if \<not> exists_at (w_fs w1) c
          then verify_uncached G L st c i w1 else verify_cached G L c i w1)"
        unfolding verify_cached_object_def e_bind_apply e_basic_apply Pair \<open>r = Inr st\<close> prod.case sum.case Inr by (rule refl)
      moreover have "snd (verify_uncached G L st c i w1) = snd (read_object_from_cache_or_ref G L st c i w1)"
        by (auto simp: verify_uncached_def split: prod.split sum.split git_error.split)
      moreover have "exists_at (w_fs w1) c \<Longrightarrow> snd (verify_cached G L c i w1) = snd (read_object_from_cache_or_ref G L st c i w1)"
        by (auto simp: verify_cached_def read_object_from_cache_or_ref_def eff_simps split: prod.split sum.split)
      ultimately show ?thesis by (cases "exists_at (w_fs w1) c") simp_all
    qed
  qed
qed

lemma host_ledger: "ledger (git_api G L P) L repo (host_good G L P repo) (host_objects G L)"
proof
  fix k
  show "quiet (host_good G L P repo) (host_objects G L) (a_list (git_api G L P) repo k)"
    unfolding quiet_def
  proof (intro allI impI)
    fix s r s' assume g: "host_good G L P repo s" and run: "a_list (git_api G L P) repo k s = (r, s')"
    note l = list_run(1,2) [OF host_list [OF run]]
    show "host_good G L P repo s' \<and> host_objects G L s' = host_objects G L s"
      using g store_good_cong [OF l] l(2) by (simp add: host_good_def host_objects_def)
  qed
next
  fix s k es s' assume g: "host_good G L P repo s" and run: "a_list (git_api G L P) repo k s = (Inr es, s')"
  show "listing_of (host_objects G L s) k es"
    using list_listing [OF g [unfolded host_good_def, THEN conjunct1] host_list [OF run]] by (simp add: host_objects_def)
next
  fix i
  show "quiet (host_good G L P repo) (host_objects G L) (a_read (git_api G L P) repo i)"
    unfolding quiet_def
  proof (intro allI impI)
    fix s r s' assume g: "host_good G L P repo s" and run: "a_read (git_api G L P) repo i s = (r, s')"
    show "host_good G L P repo s' \<and> host_objects G L s' = host_objects G L s"
      using read_run(1,2) [OF g [unfolded host_good_def, THEN conjunct1] host_read [OF run]] g by (simp add: host_good_def host_objects_def)
  qed
next
  fix i
  show "quiet (host_good G L P repo) (host_objects G L) (a_verify (git_api G L P) repo i)"
    unfolding quiet_def
  proof (intro allI impI)
    fix s r s' assume g: "host_good G L P repo s" and run: "a_verify (git_api G L P) repo i s = (r, s')"
    have "verify_cached_object G L (o_path P repo) i (fst s) = (r, fst s')" using run by (simp add: host_defs on_world_iff)
    then obtain r' where rd: "read_cached_object G L (o_path P repo) i (fst s) = (r', fst s')"
      using verify_as_read [of G L "o_path P repo" i "fst s"] by (metis prod.collapse snd_conv)
    show "host_good G L P repo s' \<and> host_objects G L s' = host_objects G L s"
      using read_run(1,2) [OF g [unfolded host_good_def, THEN conjunct1] rd] g by (simp add: host_good_def host_objects_def)
  qed
next
  fix s i obj rep s'
  assume g: "host_good G L P repo s" and o1: "host_objects G L s i = Some obj"
    and run: "a_read (git_api G L P) repo i s = (Inr rep, s')"
  obtain h where "i = id_of h" "holds G L (w_git (fst s)) h obj" using o1 by (auto simp: host_objects_def repo_objects_iff)
  then show "rr_object rep = obj \<and> rr_object_id rep = i"
    using read_run(3) [OF g [unfolded host_good_def, THEN conjunct1] host_read [OF run] refl] by blast
next
  fix s i and obj :: canonical_object assume g: "host_good G L P repo s" and o1: "host_objects G L s i = Some obj"
  obtain h where h: "i = id_of h" "holds G L (w_git (fst s)) h obj" using o1 by (auto simp: host_objects_def repo_objects_iff)
  then obtain k where k: "find_reference G (w_git (fst s)) (ref_name_of h) = Inr (Some k)" "hex_ok h" by (auto simp: holds_def)
  have rg: "refs_good G L (w_git (fst s))" using g by (simp add: host_good_def store_good_def)
  obtain o2 where "holds G L (w_git (fst s)) h o2" "co_object_id o2 = id_of h" by (rule refs_goodD [OF rg k])
  moreover have "o2 = obj" using h(2) \<open>holds G L (w_git (fst s)) h o2\<close> by (auto simp: holds_def)
  ultimately show "co_object_id obj = i" using h(1) by simp
next
  fix obj :: canonical_object assume pb: "plain_body (co_body obj)"
  show "adds (host_good G L P repo) (host_objects G L) obj (a_write_canonical (git_api G L P) repo obj)"
    unfolding adds_def
  proof (intro allI impI)
    fix s r s' assume g: "host_good G L P repo s" and run: "a_write_canonical (git_api G L P) repo obj s = (r, s')"
    have "write_canonical_object G L (o_path P repo) obj (fst s) = (r, fst s')" using run by (simp add: host_defs on_world_iff)
    from write_canonical_good [OF g [unfolded host_good_def, THEN conjunct1] pb this]
    show "case r of Inr rep \<Rightarrow> host_good G L P repo s' \<and> host_objects G L s' = (host_objects G L s)(co_object_id obj \<mapsto> obj) \<and>
          wr_object_id rep = co_object_id obj \<and> host_objects G L s (co_object_id obj) \<in> {None, Some obj}
        | Inl e \<Rightarrow> host_objects G L s' = host_objects G L s \<and>
          (host_objects G L s (co_object_id obj) \<in> {None, Some obj} \<longrightarrow> host_good G L P repo s')"
      using g by (cases r) (simp_all add: host_good_def host_objects_def)
  qed
next
  fix kind body s r s'
  assume run: "a_write_cached (git_api G L P) repo kind body s = (r, s')" and g: "host_good G L P repo s" and pb: "plain_body body"
  have "write_cached_object G L (o_path P repo) kind body (fst s) = (r, fst s')" using run by (simp add: host_defs on_world_iff)
  from write_cached_good [OF g [unfolded host_good_def, THEN conjunct1] pb this]
  show "(\<exists>obj. canonical_object_new L kind DEFAULT_SCHEMA_VERSION 0 (canonical_json body) = Inr obj \<and>
         (case r of
            Inr rep \<Rightarrow> host_good G L P repo s' \<and> host_objects G L s' = (host_objects G L s)(co_object_id obj \<mapsto> obj) \<and>
              wr_object_id rep = co_object_id obj \<and> host_objects G L s (co_object_id obj) \<in> {None, Some obj}
          | Inl e \<Rightarrow> host_objects G L s' = host_objects G L s \<and>
              (host_objects G L s (co_object_id obj) \<in> {None, Some obj} \<longrightarrow> host_good G L P repo s'))) \<or>
      (\<exists>e. r = Inl e \<and> host_good G L P repo s' \<and> host_objects G L s' = host_objects G L s)"
    using g by (cases r) (simp_all add: host_good_def host_objects_def)
next
  show "quiet (host_good G L P repo) (host_objects G L) (a_now (git_api G L P))"
    unfolding quiet_def by (auto simp: git_api_def host_good_def host_objects_def dest!: on_outside_world)
  show "quiet (host_good G L P repo) (host_objects G L) (a_inspect (git_api G L P) repo)"
    unfolding quiet_def by (auto simp: git_api_def host_good_def host_objects_def on_world_iff)
next
  fix x
  show "quiet (host_good G L P repo) (host_objects G L) (a_read_file (git_api G L P) x)"
    by (rule host_fs) (auto simp: git_api_def fs_read_tree dest!: on_world_fs)
  show "quiet (host_good G L P repo) (host_objects G L) (a_create_dir_all (git_api G L P) x)"
  proof (rule host_fs)
    fix s r s' h b gd assume "a_create_dir_all (git_api G L P) x s = (r, s')"
      and t: "tree (w_fs (fst s')) (cache_path_of gd h) = Some (File b)"
    then have "fs_create_dir_all (o_path P x) (w_fs (fst s)) = (r, w_fs (fst s'))"
      by (auto simp: git_api_def dest!: on_world_fs)
    from fs_create_dir_all_tree(1) [OF this, of "cache_path_of gd h"] t
    show "tree (w_fs (fst s)) (cache_path_of gd h) = Some (File b)" by auto
  qed (auto simp: git_api_def dest!: on_world_fs)
next
  fix x b assume x: "side_file x"
  show "quiet (host_good G L P repo) (host_objects G L) (a_write_file (git_api G L P) x b)"
  proof (rule host_fs)
    fix s r s' h b' gd assume "a_write_file (git_api G L P) x b s = (r, s')"
      and t: "tree (w_fs (fst s')) (cache_path_of gd h) = Some (File b')"
    then have "fs_write (o_path P x) b (w_fs (fst s)) = (r, w_fs (fst s'))"
      by (auto simp: git_api_def dest!: on_world_fs)
    then have "tree (w_fs (fst s')) (cache_path_of gd h) = tree (w_fs (fst s)) (cache_path_of gd h)"
      using side_not_cache [OF x, of "o_cwd P" gd h] by (cases rule: fs_write_tree) auto
    with t show "tree (w_fs (fst s)) (cache_path_of gd h) = Some (File b')" by simp
  qed (auto simp: git_api_def dest!: on_world_fs)
next
  fix x
  show "quiet (host_good G L P repo) (host_objects G L) (a_remove_file (git_api G L P) x)"
  proof (rule host_fs)
    fix s r s' h b gd assume "a_remove_file (git_api G L P) x s = (r, s')"
      and t: "tree (w_fs (fst s')) (cache_path_of gd h) = Some (File b)"
    then have "fs_remove_file (o_path P x) (w_fs (fst s)) = (r, w_fs (fst s'))"
      by (auto simp: git_api_def dest!: on_world_fs)
    from fs_remove_file_tree [OF this] t show "tree (w_fs (fst s)) (cache_path_of gd h) = Some (File b)"
      by (metis option.distinct(1))
  qed (auto simp: git_api_def dest!: on_world_fs)
next
  fix x s r s' assume "a_remove_file (git_api G L P) x s = (r, s')"
  then show "host_objects G L s' = host_objects G L s"
    by (auto simp: git_api_def host_objects_def dest!: on_world_fs)
next
  fix c assume "local_git c"
  then show "quiet (host_good G L P repo) (host_objects G L) (a_spawn (git_api G L P) c)"
    unfolding quiet_def host_good_def host_objects_def spawn_keeps_def by (simp add: git_api_def)
qed

interpretation git_ledger: ledger "git_api G L P" L repo "host_good G L P repo" "host_objects G L"
  for G :: "'g gix" and L and P :: "('g, 'p) outside" and repo
  by (rule host_ledger)

end
