(* ===== verification/Cli_Attempts.thy ===== *)
theory Cli_Attempts
  imports Cli_Store Rdl_Manifests "HOL-Library.Product_Lexorder"
begin

text \<open>
  The attempt, run and change commands of \<^verbatim>\<open>crates/rickydata-git-cli/src/main.rs\<close>: listings of
  the ledger, the effective status of an attempt, starting, submitting and abandoning it, recording a
  run and detecting a change.  A command that prints a report returns it.  The lemmas read every listing
  as a view of the ledger map and show what the commands write.
\<close>

section \<open>Listings\<close>

text \<open>\<^verbatim>\<open>AttemptListEntry\<close>, \<^verbatim>\<open>RunListEntry\<close>, \<^verbatim>\<open>ChangeListEntry\<close> and \<^verbatim>\<open>PatchListEntry\<close> differ in the type of the last field.\<close>

record 'a ledger_entry =
  en_object_id :: str
  en_ref_name :: str
  en_git_object_id :: str
  en_value :: 'a

record 'a show_report =
  sh_object_id :: str
  sh_source :: object_read_source
  sh_value :: 'a

text \<open>The loop the listings share: read every entry and decode its body.\<close>

definition read_entry :: "'s api \<Rightarrow> lib \<Rightarrow> str \<Rightarrow> (json \<Rightarrow> 'a option) \<Rightarrow> object_list_entry \<Rightarrow> ('s, cli_error, 'a ledger_entry) eff" where
  "read_entry A L repo d entry =
     e_bind (gitm L (a_read A repo (le_object_id entry))) (\<lambda>report.
     e_bind (decode L d (co_body (rr_object report))) (\<lambda>v.
       e_ret \<lparr>en_object_id = le_object_id entry, en_ref_name = le_ref_name entry,
              en_git_object_id = le_git_object_id entry, en_value = v\<rparr>))"

definition read_entries :: "'s api \<Rightarrow> lib \<Rightarrow> str \<Rightarrow> str \<Rightarrow> (json \<Rightarrow> 'a option) \<Rightarrow> ('s, cli_error, 'a ledger_entry list) eff" where
  "read_entries A L repo kind d =
     e_bind (gitm L (a_list A repo (Some kind))) (e_map (read_entry A L repo d))"

definition list_attempts :: "'s api \<Rightarrow> lib \<Rightarrow> str \<Rightarrow> ('s, cli_error, agent_attempt ledger_entry list) eff" where
  "list_attempts A L repo = e_bind (read_entries A L repo ''agent.attempt'' agent_attempt_of_json) (\<lambda>attempts.
     e_ret (sort_key (\<lambda>e. att_attempt_id (en_value e)) attempts))"

definition list_runs :: "'s api \<Rightarrow> lib \<Rightarrow> str \<Rightarrow> ('s, cli_error, agent_run ledger_entry list) eff" where
  "list_runs A L repo = e_bind (read_entries A L repo ''agent.run'' agent_run_of_json) (\<lambda>runs.
     e_ret (sort_key (\<lambda>e. run_run_id (en_value e)) runs))"

definition list_changes :: "'s api \<Rightarrow> lib \<Rightarrow> str \<Rightarrow> ('s, cli_error, change_evidence ledger_entry list) eff" where
  "list_changes A L repo = e_bind (read_entries A L repo ''agent.change'' change_evidence_of_json) (\<lambda>changes.
     e_ret (sort_key (\<lambda>e. chg_change_id (en_value e)) changes))"

definition list_patches :: "'s api \<Rightarrow> lib \<Rightarrow> str \<Rightarrow> ('s, cli_error, prepared_patch ledger_entry list) eff" where
  "list_patches A L repo = e_bind (read_entries A L repo ''agent.patch'' prepared_patch_of_json) (\<lambda>patches.
     e_ret (sort_key (\<lambda>e. pp_patch_id (en_value e)) patches))"

definition find_attempt :: "'s api \<Rightarrow> lib \<Rightarrow> str \<Rightarrow> str \<Rightarrow> ('s, cli_error, agent_attempt) eff" where
  "find_attempt A L repo attempt_id =
     e_bind (list_attempts A L repo) (\<lambda>attempts.
       some_or (''attempt '' @ attempt_id @ '' was not found'')
         (map_option en_value (find (\<lambda>e. att_attempt_id (en_value e) = attempt_id) attempts)))"

text \<open>The three \<^verbatim>\<open>show\<close> commands.\<close>

definition show_entry ::
    "'s api \<Rightarrow> lib \<Rightarrow> str \<Rightarrow> str \<Rightarrow> ('a \<Rightarrow> bool) \<Rightarrow> 'a ledger_entry list \<Rightarrow> ('s, cli_error, 'a show_report) eff" where
  "show_entry A L repo missing wanted listed =
     e_bind (some_or missing (find (\<lambda>e. wanted (en_value e)) listed)) (\<lambda>entry.
     e_bind (gitm L (a_read A repo (en_object_id entry))) (\<lambda>report.
       e_ret \<lparr>sh_object_id = en_object_id entry, sh_source = rr_source report, sh_value = en_value entry\<rparr>))"

definition attempt_show :: "'s api \<Rightarrow> lib \<Rightarrow> str \<Rightarrow> str \<Rightarrow> ('s, cli_error, agent_attempt show_report) eff" where
  "attempt_show A L repo attempt_id = e_bind (list_attempts A L repo)
     (show_entry A L repo (''attempt '' @ attempt_id @ '' was not found'') (\<lambda>a. att_attempt_id a = attempt_id))"

definition run_show :: "'s api \<Rightarrow> lib \<Rightarrow> str \<Rightarrow> str \<Rightarrow> ('s, cli_error, agent_run show_report) eff" where
  "run_show A L repo run_id = e_bind (list_runs A L repo)
     (show_entry A L repo (''run '' @ run_id @ '' was not found'') (\<lambda>r. run_run_id r = run_id))"

definition change_show :: "'s api \<Rightarrow> lib \<Rightarrow> str \<Rightarrow> str \<Rightarrow> ('s, cli_error, change_evidence show_report) eff" where
  "change_show A L repo change_id = e_bind (list_changes A L repo)
     (show_entry A L repo (''change '' @ change_id @ '' was not found'') (\<lambda>c. chg_change_id c = change_id))"

section \<open>The status of an attempt\<close>

definition last_transition :: "(str \<times> attempt_status_transition) list \<Rightarrow> (str \<times> attempt_status_transition) option" where
  "last_transition transitions =
     (let sorted = sort_key (\<lambda>(object_id, t). (tr_created_at_ms t, object_id)) transitions
      in if sorted = [] then None else Some (last sorted))"

definition effective_attempt_status ::
    "'s api \<Rightarrow> lib \<Rightarrow> str \<Rightarrow> str \<Rightarrow> ('s, cli_error, attempt_status \<times> str option) eff" where
  "effective_attempt_status A L repo attempt_id =
     e_bind (find_attempt A L repo attempt_id) (\<lambda>attempt.
     e_bind (read_entries A L repo ''agent.attempt_status'' attempt_status_transition_of_json) (\<lambda>listed.
       e_ret (case last_transition (map (\<lambda>e. (en_object_id e, en_value e))
                (filter (\<lambda>e. tr_attempt_id (en_value e) = attempt_id) listed)) of
           Some (object_id, t) \<Rightarrow> (tr_status t, Some object_id)
         | None \<Rightarrow> (att_status attempt, None))))"

text \<open>\<^verbatim>\<open>{:?}\<close> of the status.\<close>

fun attempt_status_debug :: "attempt_status \<Rightarrow> str" where
  "attempt_status_debug Planned = ''Planned''"
| "attempt_status_debug Running = ''Running''"
| "attempt_status_debug Submitted = ''Submitted''"
| "attempt_status_debug Abandoned = ''Abandoned''"
| "attempt_status_debug Integrated = ''Integrated''"

record attempt_transition_input =
  ti_repo :: str
  ti_attempt_id :: str
  ti_reason :: "str option"
  ti_by :: "str option"

record attempt_transition_report =
  tp_status :: str
  tp_attempt_id :: str
  tp_effective_status :: attempt_status
  tp_transition :: attempt_status_transition
  tp_object :: object_write_report

definition write_attempt_transition ::
    "'s api \<Rightarrow> lib \<Rightarrow> attempt_transition_input \<Rightarrow> attempt_status \<Rightarrow> signing \<Rightarrow>
     ('s, cli_error, attempt_transition_report) eff" where
  "write_attempt_transition A L input status signing =
     e_bind (find_attempt A L (ti_repo input) (ti_attempt_id input)) (\<lambda>attempt.
     e_bind (effective_attempt_status A L (ti_repo input) (att_attempt_id attempt)) (\<lambda>(current_status, _).
     e_bind (ensure (current_status = Running \<or> current_status = Planned)
               (''attempt '' @ att_attempt_id attempt @ '' is '' @ attempt_status_debug current_status @
                '', expected running or planned'')) (\<lambda>_.
     e_bind (now_ms A) (\<lambda>now.
     (let transition = \<lparr>tr_attempt_id = att_attempt_id attempt, tr_status = status, tr_reason = ti_reason input,
            tr_created_by = ti_by input, tr_created_at_ms = now\<rparr>
      in e_bind (write_signed_or_cached A L (ti_repo input) ''agent.attempt_status''
             (attempt_status_transition_json transition) signing) (\<lambda>object.
           e_ret \<lparr>tp_status = ''ok'', tp_attempt_id = tr_attempt_id transition, tp_effective_status = status,
                  tp_transition = transition, tp_object = object\<rparr>))))))"

definition attempt_abandon ::
    "'s api \<Rightarrow> lib \<Rightarrow> signing_key_args \<Rightarrow> attempt_transition_input \<Rightarrow> ('s, cli_error, attempt_transition_report) eff" where
  "attempt_abandon A L keys input =
     e_bind (resolve_signing_key A L keys (ti_by input)) (write_attempt_transition A L input Abandoned)"

definition attempt_submit ::
    "'s api \<Rightarrow> lib \<Rightarrow> signing_key_args \<Rightarrow> attempt_transition_input \<Rightarrow> ('s, cli_error, attempt_transition_report) eff" where
  "attempt_submit A L keys input =
     e_bind (resolve_signing_key A L keys (ti_by input)) (\<lambda>signing.
     e_bind (list_patches A L (ti_repo input)) (\<lambda>patches.
     e_bind (ensure (list_ex (\<lambda>e. pp_attempt_id (en_value e) = ti_attempt_id input) patches)
               (''attempt '' @ ti_attempt_id input @ '' has no prepared patch; run `rickygit patch prepare` first'')) (\<lambda>_.
       write_attempt_transition A L input Submitted signing)))"

section \<open>Worktrees\<close>

text \<open>The first twelve bytes of the hexadecimal part: a panic inside a character, no check of the digits.\<close>

definition short_hex :: "str \<Rightarrow> str \<Rightarrow> cli_error + str" where
  "short_hex what i = (case strip_prefix ''sha256:'' i of
     None \<Rightarrow> Inl (Bail (what @ '' id should be a sha256 object id''))
   | Some hex \<Rightarrow>
       if length hex < 12 then Inl (Bail (what @ '' id should include at least 12 hex characters''))
       else if \<not> char_boundary hex 12 then Inl (Panicked ''byte index 12 is not a char boundary'')
       else Inr (take 12 hex))"

definition git_dir_of :: "'s api \<Rightarrow> lib \<Rightarrow> str \<Rightarrow> ('s, cli_error, str) eff" where
  "git_dir_of A L repo =
     e_bind (gitm L (a_inspect A repo)) (\<lambda>inspection.
       some_or ''repository has no .git directory'' (map_option path_text (ri_git_dir inspection)))"

definition attempt_worktree_path :: "'s api \<Rightarrow> lib \<Rightarrow> str \<Rightarrow> str \<Rightarrow> ('s, cli_error, str) eff" where
  "attempt_worktree_path A L repo attempt_id =
     e_bind (git_dir_of A L repo) (\<lambda>git_dir.
     e_bind (e_lift (short_hex ''attempt'' attempt_id)) (\<lambda>hex.
       e_ret (foldl path_join git_dir [''rickydata'', ''worktrees'', hex])))"

text \<open>\<^verbatim>\<open>Path::parent\<close>, empty where there is none.\<close>

definition parent_of :: "str \<Rightarrow> str" where
  "parent_of p = (let d = rev (dropWhile (\<lambda>c. c \<noteq> CHR ''/'') (rev (trim_end_char CHR ''/'' p)))
     in if d = ''/'' then d else trim_end_char CHR ''/'' d)"

definition git_output_failed :: "str \<Rightarrow> process_output \<Rightarrow> str" where
  "git_output_failed what out = what @ '' failed'' @ [CHR 0x0A] @ ''stdout:'' @ [CHR 0x0A] @ from_utf8_lossy (po_stdout out) @
     [CHR 0x0A] @ ''stderr:'' @ [CHR 0x0A] @ from_utf8_lossy (po_stderr out)"

definition git_in :: "str \<Rightarrow> str list \<Rightarrow> command" where
  "git_in repo args = \<lparr>cmd_program = ''git'', cmd_args = [''-C'', repo] @ args, cmd_dir = None, cmd_env = []\<rparr>"

definition run_git :: "'s api \<Rightarrow> command \<Rightarrow> str \<Rightarrow> str \<Rightarrow> ('s, cli_error, bytes) eff" where
  "run_git A c context_text failed_text =
     e_bind (ctx context_text (a_spawn A c)) (\<lambda>out.
     e_bind (ensure (po_success out) (git_output_failed failed_text out)) (\<lambda>_.
       e_ret (po_stdout out)))"

definition ensure_attempt_worktree :: "'s api \<Rightarrow> lib \<Rightarrow> str \<Rightarrow> str \<Rightarrow> str \<Rightarrow> ('s, cli_error, str \<times> bool) eff" where
  "ensure_attempt_worktree A L repo attempt_id base_commit =
     e_bind (attempt_worktree_path A L repo attempt_id) (\<lambda>worktree_path s.
       if a_exists A s worktree_path then (Inr (worktree_path, False), s)
       else e_bind (ctx (''failed to create worktree parent `'' @ parent_of worktree_path @ ''`'')
                     (a_create_dir_all A (parent_of worktree_path))) (\<lambda>_.
            e_bind (run_git A (git_in repo [''worktree'', ''add'', ''--detach'', worktree_path, base_commit])
                     ''failed to execute git worktree add'' ''git worktree add'') (\<lambda>_.
              e_ret (worktree_path, True))) s)"

definition existing_attempt_worktree_path :: "'s api \<Rightarrow> lib \<Rightarrow> str \<Rightarrow> str \<Rightarrow> ('s, cli_error, str) eff" where
  "existing_attempt_worktree_path A L repo attempt_id =
     e_bind (attempt_worktree_path A L repo attempt_id) (\<lambda>worktree_path s.
       if a_is_dir A s worktree_path then (Inr worktree_path, s)
       else (Inl (Bail (''attempt worktree for '' @ attempt_id @ '' does not exist at '' @ worktree_path)), s))"

section \<open>Starting an attempt\<close>

record attempt_start_input =
  si_repo :: str
  si_intent_id :: str
  si_agent_id :: str
  si_idempotency_key :: "str option"
  si_base_commit :: "str option"
  si_lease_expires_at_ms :: "u64 option"

record attempt_start_report =
  sr_attempt :: agent_attempt
  sr_object :: object_write_report
  sr_local_worktree_path :: str
  sr_worktree_created :: bool

definition new_attempt :: "attempt_start_input \<Rightarrow> bool \<Rightarrow> str \<Rightarrow> str \<Rightarrow> agent_attempt" where
  "new_attempt input in_place attempt_id base_commit =
     \<lparr>att_attempt_id = attempt_id, att_intent_id = si_intent_id input, att_base_commit = base_commit,
      att_agent_id = si_agent_id input, att_lease_expires_at_ms = si_lease_expires_at_ms input,
      att_status = Running, att_in_place = in_place\<rparr>"

text \<open>The second half, which \<^verbatim>\<open>work start\<close> repeats: base commit, id, worktree, object.\<close>

definition begin_attempt ::
    "'s api \<Rightarrow> lib \<Rightarrow> attempt_start_input \<Rightarrow> bool \<Rightarrow> signing \<Rightarrow> ('s, cli_error, attempt_start_report) eff" where
  "begin_attempt A L input in_place signing =
     e_bind (gitm L (a_inspect A (si_repo input))) (\<lambda>inspection.
     e_bind (some_or ''repository HEAD is unborn; pass --base-commit explicitly''
               (case si_base_commit input of Some c \<Rightarrow> Some c | None \<Rightarrow> ri_head_commit inspection)) (\<lambda>base_commit.
     e_bind (e_lift (compute_attempt_id L (si_intent_id input) (si_agent_id input) (si_idempotency_key input) base_commit)) (\<lambda>attempt_id.
     (let attempt = new_attempt input in_place attempt_id base_commit in
      e_bind (if in_place then e_ret (si_repo input, False)
              else ensure_attempt_worktree A L (si_repo input) attempt_id base_commit) (\<lambda>(path, created).
      e_bind (write_signed_or_cached A L (si_repo input) ''agent.attempt'' (agent_attempt_json attempt) signing) (\<lambda>object.
        e_ret \<lparr>sr_attempt = attempt, sr_object = object, sr_local_worktree_path = path, sr_worktree_created = created\<rparr>))))))"

definition attempt_start ::
    "'s api \<Rightarrow> lib \<Rightarrow> signing_key_args \<Rightarrow> attempt_start_input \<Rightarrow> bool \<Rightarrow> ('s, cli_error, attempt_start_report) eff" where
  "attempt_start A L keys input in_place =
     e_bind (resolve_signing_key A L keys (Some (si_agent_id input))) (\<lambda>signing.
     e_bind (gitm L (a_read A (si_repo input) (si_intent_id input))) (\<lambda>intent_report.
     e_bind (ensure (co_kind (rr_object intent_report) = ''agent.intent'')
               (''object '' @ rr_object_id intent_report @ '' is kind `'' @ co_kind (rr_object intent_report) @
                ''`, expected `agent.intent`'')) (\<lambda>_.
     e_bind (decode L work_intent_of_json (co_body (rr_object intent_report))) (\<lambda>intent.
     e_bind (ensure (validate_work_intent intent = []) (''intent '' @ si_intent_id input @ '' is invalid'')) (\<lambda>_.
       begin_attempt A L input in_place signing)))))"

section \<open>Issues and work\<close>

record issue_import_report =
  ii_status :: str
  ii_valid :: bool
  ii_diagnostics :: "intent_diagnostic list"
  ii_intent :: work_intent
  ii_object :: "object_write_report option"

text \<open>\<^verbatim>\<open>now_ms().unwrap_or(0)\<close>, read only when the intent names no issue.\<close>

definition now_or_zero :: "'s api \<Rightarrow> ('s, cli_error, u64) eff" where
  "now_or_zero A s = (case now_ms A s of (Inr n, s') \<Rightarrow> (Inr n, s') | (Inl e, s') \<Rightarrow> (Inr 0, s'))"

definition names_issue :: "issue_intent_fields \<Rightarrow> bool" where
  "names_issue f \<longleftrightarrow> iif_repository f \<noteq> None \<and> iif_issue_id f \<noteq> None"

definition make_intent :: "'s api \<Rightarrow> (privacy_class \<Rightarrow> issue_intent_fields) \<Rightarrow> str \<Rightarrow> ('s, cli_error, work_intent) eff" where
  "make_intent A f privacy =
     e_bind (e_lift (parse_privacy_class privacy)) (\<lambda>p.
     e_bind (if names_issue (f p) then e_ret 0 else now_or_zero A) (\<lambda>now.
       e_ret (issue_import_intent now (f p))))"

definition issue_import ::
    "'s api \<Rightarrow> lib \<Rightarrow> signing_key_args \<Rightarrow> str \<Rightarrow> (privacy_class \<Rightarrow> issue_intent_fields) \<Rightarrow> str \<Rightarrow>
     ('s, cli_error, issue_import_report) eff" where
  "issue_import A L keys repo f privacy =
     e_bind (resolve_signing_key A L keys None) (\<lambda>signing.
     e_bind (make_intent A f privacy) (\<lambda>intent.
     (let diagnostics = validate_work_intent intent in
      if diagnostics \<noteq> []
      then e_ret \<lparr>ii_status = ''invalid'', ii_valid = False, ii_diagnostics = diagnostics, ii_intent = intent, ii_object = None\<rparr>
      else e_bind (write_signed_or_cached A L repo ''agent.intent'' (work_intent_json intent) signing) (\<lambda>object.
        e_ret \<lparr>ii_status = ''ok'', ii_valid = True, ii_diagnostics = diagnostics, ii_intent = intent, ii_object = Some object\<rparr>))))"

record work_start_report =
  ws_status :: str
  ws_intent :: work_intent
  ws_intent_object :: object_write_report
  ws_attempt :: agent_attempt
  ws_attempt_object :: object_write_report
  ws_local_worktree_path :: str
  ws_worktree_created :: bool

text \<open>The second half is \<open>begin_attempt\<close> on the new intent's id.\<close>

definition work_start ::
    "'s api \<Rightarrow> lib \<Rightarrow> signing_key_args \<Rightarrow> (privacy_class \<Rightarrow> issue_intent_fields) \<Rightarrow> str \<Rightarrow> attempt_start_input \<Rightarrow> bool \<Rightarrow>
     ('s, cli_error, work_start_report) eff" where
  "work_start A L keys f privacy input in_place =
     e_bind (resolve_signing_key A L keys (Some (si_agent_id input))) (\<lambda>signing.
     e_bind (make_intent A f privacy) (\<lambda>intent.
     e_bind (ensure (validate_work_intent intent = []) ''generated work intent is invalid'') (\<lambda>_.
     e_bind (write_signed_or_cached A L (si_repo input) ''agent.intent'' (work_intent_json intent) signing) (\<lambda>intent_object.
     e_bind (begin_attempt A L (input\<lparr>si_intent_id := wr_object_id intent_object\<rparr>) in_place signing) (\<lambda>rep.
       e_ret \<lparr>ws_status = ''ok'', ws_intent = intent, ws_intent_object = intent_object, ws_attempt = sr_attempt rep,
              ws_attempt_object = sr_object rep, ws_local_worktree_path = sr_local_worktree_path rep,
              ws_worktree_created = sr_worktree_created rep\<rparr>)))))"

section \<open>The diff of an attempt\<close>

record detected_diff =
  dd_changed :: bool
  dd_diff_hash :: str
  dd_diff_bytes :: u64
  dd_file_paths :: "str list"
  dd_diff_summary :: diff_summary
  dd_raw_diff :: bytes

text \<open>A value dropped at the end of a scope: the clean-up runs whatever the outcome, and its own is ignored.\<close>

definition dropping :: "('s, 'f, unit) eff \<Rightarrow> ('s, 'e, 'a) eff \<Rightarrow> ('s, 'e, 'a) eff" where
  "dropping c m s = (case m s of (r, s') \<Rightarrow> (r, snd (c s')))"

definition temp_git_index :: "'s api \<Rightarrow> lib \<Rightarrow> str \<Rightarrow> str \<Rightarrow> ('s, cli_error, str) eff" where
  "temp_git_index A L repo attempt_id =
     e_bind (git_dir_of A L repo) (\<lambda>git_dir.
     e_bind (e_lift (short_hex ''attempt'' attempt_id)) (\<lambda>hex.
     (let temp_dir = foldl path_join git_dir [''rickydata'', ''tmp''] in
      e_bind (ctx (''failed to create temp dir `'' @ temp_dir @ ''`'') (a_create_dir_all A temp_dir)) (\<lambda>_.
      e_bind (now_ms A) (\<lambda>now.
        e_ret (path_join temp_dir (''change-'' @ hex @ ''-'' @ show_nat (unat now) @ ''.index'')))))))"

definition drop_git_index :: "'s api \<Rightarrow> str \<Rightarrow> ('s, str, unit) eff" where
  "drop_git_index A path s = a_remove_file A (path @ ''.lock'') (snd (a_remove_file A path s))"

definition git_with_temp_index :: "'s api \<Rightarrow> str \<Rightarrow> str \<Rightarrow> str list \<Rightarrow> ('s, cli_error, bytes) eff" where
  "git_with_temp_index A worktree_path index_path args =
     run_git A ((git_in worktree_path args)\<lparr>cmd_env := [(''GIT_INDEX_FILE'', index_path)]\<rparr>)
       ''failed to execute git for change detection'' (''git '' @ join_with '' '' args)"

definition diff_file_paths :: "bytes \<Rightarrow> str list" where
  "diff_file_paths names =
     sorted_dedup (map (\<lambda>part. from_utf8_lossy (str_bytes part)) (filter (\<lambda>part. part \<noteq> []) (split_on CHR 0x00 (bytes_str names))))"

definition diff_in_worktree :: "'s api \<Rightarrow> lib \<Rightarrow> str \<Rightarrow> str \<Rightarrow> str \<Rightarrow> ('s, cli_error, detected_diff) eff" where
  "diff_in_worktree A L worktree index base =
     e_bind (git_with_temp_index A worktree index [''read-tree'', base]) (\<lambda>_.
     e_bind (git_with_temp_index A worktree index [''add'', ''-A'']) (\<lambda>_.
     e_bind (git_with_temp_index A worktree index [''diff'', ''--cached'', ''--binary'', ''--full-index'', base, ''--'']) (\<lambda>diff.
     e_bind (git_with_temp_index A worktree index [''diff'', ''--cached'', ''--numstat'', base, ''--'']) (\<lambda>numstat.
     e_bind (git_with_temp_index A worktree index [''diff'', ''--cached'', ''--name-status'', base, ''--'']) (\<lambda>name_status.
     e_bind (git_with_temp_index A worktree index [''diff'', ''--cached'', ''--name-only'', ''-z'', base, ''--'']) (\<lambda>names.
     (let file_paths = diff_file_paths names in
        e_ret \<lparr>dd_changed = (diff \<noteq> []), dd_diff_hash = bytes_hash L diff, dd_diff_bytes = of_nat (length diff),
               dd_file_paths = file_paths, dd_diff_summary = summarize_diff file_paths numstat name_status,
               dd_raw_diff = diff\<rparr>)))))))"

definition detect_attempt_diff :: "'s api \<Rightarrow> lib \<Rightarrow> str \<Rightarrow> agent_attempt \<Rightarrow> ('s, cli_error, detected_diff) eff" where
  "detect_attempt_diff A L repo attempt =
     e_bind (if att_in_place attempt then e_ret repo else existing_attempt_worktree_path A L repo (att_attempt_id attempt)) (\<lambda>worktree_path.
     e_bind (temp_git_index A L repo (att_attempt_id attempt)) (\<lambda>index.
       dropping (drop_git_index A index) (diff_in_worktree A L worktree_path index (att_base_commit attempt))))"

record attempt_status_report =
  as_attempt_id :: str
  as_intent_id :: str
  as_base_commit :: str
  as_agent_id :: str
  as_status :: attempt_status
  as_status_object_id :: "str option"
  as_worktree_path :: str
  as_worktree_exists :: bool
  as_changed :: "bool option"
  as_diff_hash :: "str option"
  as_diff_bytes :: "u64 option"
  as_file_paths :: "str list"

definition build_attempt_status_report :: "'s api \<Rightarrow> lib \<Rightarrow> str \<Rightarrow> str \<Rightarrow> ('s, cli_error, attempt_status_report) eff" where
  "build_attempt_status_report A L repo attempt_id =
     e_bind (find_attempt A L repo attempt_id) (\<lambda>attempt.
     e_bind (effective_attempt_status A L repo attempt_id) (\<lambda>(status, status_object_id).
     e_bind (attempt_worktree_path A L repo attempt_id) (\<lambda>worktree_path s.
       (let worktree_exists = a_is_dir A s worktree_path in
        e_bind (if worktree_exists then e_bind (detect_attempt_diff A L repo attempt) (\<lambda>d. e_ret (Some d)) else e_ret None)
          (\<lambda>detected. e_ret \<lparr>as_attempt_id = att_attempt_id attempt, as_intent_id = att_intent_id attempt,
             as_base_commit = att_base_commit attempt, as_agent_id = att_agent_id attempt, as_status = status,
             as_status_object_id = status_object_id, as_worktree_path = worktree_path, as_worktree_exists = worktree_exists,
             as_changed = map_option dd_changed detected, as_diff_hash = map_option dd_diff_hash detected,
             as_diff_bytes = map_option dd_diff_bytes detected,
             as_file_paths = (case detected of Some d \<Rightarrow> dd_file_paths d | None \<Rightarrow> [])\<rparr>) s))))"

section \<open>Runs\<close>

record run_exec_input =
  re_repo :: str
  re_attempt_id :: str
  re_command :: "str list"
  re_record_command_argv :: bool

record run_exec_report =
  rx_run :: agent_run
  rx_object :: object_write_report
  rx_trace_object :: object_write_report
  rx_exit_code :: "32 word option"
  rx_command_hash :: str
  rx_stdout_hash :: str
  rx_stderr_hash :: str
  rx_stdout_bytes :: u64
  rx_stderr_bytes :: u64

definition run_result_of :: "process_output \<Rightarrow> agent_run_result" where
  "run_result_of out = (if po_success out then Succeeded else Failed)"

definition trace_of ::
    "lib \<Rightarrow> run_exec_input \<Rightarrow> str \<Rightarrow> process_output \<Rightarrow> str \<Rightarrow> str \<Rightarrow> u64 \<Rightarrow> u64 \<Rightarrow> agent_run_trace" where
  "trace_of L input attempt_id out command_hash trace_id started finished =
     \<lparr>trc_trace_id = trace_id, trc_attempt_id = attempt_id, trc_command_hash = command_hash,
      trc_command_argv = (if re_record_command_argv input then Some (re_command input) else None),
      trc_executable = (case re_command input of [] \<Rightarrow> None | c # _ \<Rightarrow> Some c),
      trc_arg_count = of_nat (length (re_command input)), trc_exit_code = po_code out,
      trc_stdout_hash = bytes_hash L (po_stdout out), trc_stderr_hash = bytes_hash L (po_stderr out),
      trc_stdout_bytes = of_nat (length (po_stdout out)), trc_stderr_bytes = of_nat (length (po_stderr out)),
      trc_started_at_ms = started, trc_finished_at_ms = finished, trc_result = run_result_of out,
      trc_privacy = (if re_record_command_argv input then PrivateBody else PublicMetadata), trc_encrypted_body = None\<rparr>"

definition trace_identity :: "str \<Rightarrow> str \<Rightarrow> process_output \<Rightarrow> str \<Rightarrow> str \<Rightarrow> u64 \<Rightarrow> u64 \<Rightarrow> json" where
  "trace_identity attempt_id command_hash out stdout_hash stderr_hash started finished =
     json_obj [(''attempt_id'', jstr attempt_id), (''command_hash'', jstr command_hash),
       (''exit_code'', jopt ji32 (po_code out)), (''stdout_hash'', jstr stdout_hash), (''stderr_hash'', jstr stderr_hash),
       (''started_at_ms'', ju64 started), (''finished_at_ms'', ju64 finished)]"

text \<open>What is written after the command has run; \<open>manifest_hash\<close> are the hashes of the \<^verbatim>\<open>run_exec\<close> manifest.\<close>

definition record_run ::
    "'s api \<Rightarrow> lib \<Rightarrow> str list \<Rightarrow> run_exec_input \<Rightarrow> str \<Rightarrow> signing \<Rightarrow> process_output \<Rightarrow> u64 \<Rightarrow> u64 \<Rightarrow>
     ('s, cli_error, run_exec_report) eff" where
  "record_run A L manifest_hashes input attempt_id signing out started finished =
     e_bind (e_lift (core_bail (stable_json_hash L (json_obj [(''argv'', jstrs (re_command input))])))) (\<lambda>command_hash.
     (let stdout_hash = bytes_hash L (po_stdout out); stderr_hash = bytes_hash L (po_stderr out) in
      e_bind (e_lift (core_bail (stable_json_hash L
         (trace_identity attempt_id command_hash out stdout_hash stderr_hash started finished)))) (\<lambda>trace_id.
      e_bind (write_signed_or_cached A L (re_repo input) ''agent.run_trace''
         (agent_run_trace_json (trace_of L input attempt_id out command_hash trace_id started finished)) signing) (\<lambda>trace_object.
      e_bind (e_lift (core_bail (stable_json_hash L
         (json_obj [(''attempt_id'', jstr attempt_id), (''trace_hash'', jstr trace_id)])))) (\<lambda>run_id.
      (let run = \<lparr>run_run_id = run_id, run_attempt_id = attempt_id, run_trace_hash = Some trace_id,
             run_command_hashes = [command_hash], run_rdl_manifest_hashes = manifest_hashes, run_started_at_ms = started,
             run_finished_at_ms = Some finished, run_result = Some (run_result_of out)\<rparr>
       in e_bind (write_signed_or_cached A L (re_repo input) ''agent.run'' (agent_run_json run) signing) (\<lambda>object.
            e_ret \<lparr>rx_run = run, rx_object = object, rx_trace_object = trace_object, rx_exit_code = po_code out,
                   rx_command_hash = command_hash, rx_stdout_hash = stdout_hash, rx_stderr_hash = stderr_hash,
                   rx_stdout_bytes = of_nat (length (po_stdout out)), rx_stderr_bytes = of_nat (length (po_stderr out))\<rparr>)))))))"

definition run_command :: "run_exec_input \<Rightarrow> str \<Rightarrow> command" where
  "run_command input worktree = \<lparr>cmd_program = hd (re_command input), cmd_args = tl (re_command input),
     cmd_dir = Some worktree, cmd_env = []\<rparr>"

definition run_manifest_hashes :: "'m rdl_core \<Rightarrow> (str \<Rightarrow> json) \<Rightarrow> str list" where
  "run_manifest_hashes R schema = map ce_stable_hash
     (filter (\<lambda>e. tm_name R (ce_manifest e) = ''run_exec'') (command_manifest_exports R schema))"

text \<open>The argument parser requires a command, so \<^verbatim>\<open>command[0]\<close> is there.\<close>

definition run_exec ::
    "'s api \<Rightarrow> lib \<Rightarrow> 'm rdl_core \<Rightarrow> (str \<Rightarrow> json) \<Rightarrow> signing_key_args \<Rightarrow> run_exec_input \<Rightarrow> ('s, cli_error, run_exec_report) eff" where
  "run_exec A L R schema keys input =
     e_bind (resolve_signing_key A L keys None) (\<lambda>signing.
     e_bind (find_attempt A L (re_repo input) (re_attempt_id input)) (\<lambda>attempt.
     e_bind (effective_attempt_status A L (re_repo input) (re_attempt_id input)) (\<lambda>(effective_status, _).
     e_bind (ensure (effective_status = Running)
               (''attempt '' @ att_attempt_id attempt @ '' is '' @ attempt_status_debug effective_status @ '', expected running'')) (\<lambda>_.
     e_bind (if att_in_place attempt then e_ret (re_repo input)
             else e_bind (ensure_attempt_worktree A L (re_repo input) (att_attempt_id attempt) (att_base_commit attempt))
                    (\<lambda>(path, _). e_ret path)) (\<lambda>worktree_path.
     e_bind (now_ms A) (\<lambda>started.
     e_bind (if re_command input = [] then e_fail (Panicked ''index out of bounds'')
             else ctx (''failed to execute `'' @ hd (re_command input) @ ''`'') (a_spawn A (run_command input worktree_path))) (\<lambda>out.
     e_bind (now_ms A) (\<lambda>finished.
       record_run A L (run_manifest_hashes R schema) input (att_attempt_id attempt) signing out started finished))))))))"

section \<open>Changes\<close>

text \<open>The loop over the requested run ids.\<close>

fun pick_runs :: "str \<Rightarrow> agent_run list \<Rightarrow> str list \<Rightarrow> cli_error + agent_run list" where
  "pick_runs attempt_id all_runs [] = Inr []"
| "pick_runs attempt_id all_runs (run_id # ids) = (case find (\<lambda>r. run_run_id r = run_id) all_runs of
     None \<Rightarrow> Inl (Bail (''run '' @ run_id @ '' was not found''))
   | Some run \<Rightarrow>
       if run_attempt_id run \<noteq> attempt_id
       then Inl (Bail (''run '' @ run_id @ '' belongs to attempt '' @ run_attempt_id run))
       else r_map ((#) run) (pick_runs attempt_id all_runs ids))"

text \<open>\<^verbatim>\<open>dedup_by\<close>: of equal neighbours the first stays.\<close>

function dedup_by :: "('a \<Rightarrow> 'k) \<Rightarrow> 'a list \<Rightarrow> 'a list" where
  "dedup_by f [] = []"
| "dedup_by f (x # xs) = x # dedup_by f (dropWhile (\<lambda>y. f y = f x) xs)"
  by pat_completeness auto
termination
  by (relation "measure (length \<circ> snd)") (auto simp: length_dropWhile_le le_imp_less_Suc)

definition select_change_runs :: "'s api \<Rightarrow> lib \<Rightarrow> str \<Rightarrow> str \<Rightarrow> str list \<Rightarrow> ('s, cli_error, agent_run list) eff" where
  "select_change_runs A L repo attempt_id requested =
     e_bind (list_runs A L repo) (\<lambda>listed.
     (let all_runs = map en_value listed in
      e_bind (e_lift (if requested = [] then Inr (filter (\<lambda>r. run_attempt_id r = attempt_id) all_runs)
                      else pick_runs attempt_id all_runs requested)) (\<lambda>selected.
        e_ret (dedup_by run_run_id (sort_key run_run_id selected)))))"

definition related_contract_hashes :: "agent_run list \<Rightarrow> str list" where
  "related_contract_hashes runs = sorted_dedup (concat (map run_rdl_manifest_hashes runs))"

record change_detect_report =
  cd_change :: change_evidence
  cd_object :: object_write_report
  cd_changed :: bool
  cd_diff_bytes :: u64

definition change_detect ::
    "'s api \<Rightarrow> lib \<Rightarrow> signing_key_args \<Rightarrow> str \<Rightarrow> str \<Rightarrow> str list \<Rightarrow> ('s, cli_error, change_detect_report) eff" where
  "change_detect A L keys repo attempt_id requested =
     e_bind (resolve_signing_key A L keys None) (\<lambda>signing.
     e_bind (find_attempt A L repo attempt_id) (\<lambda>attempt.
     e_bind (detect_attempt_diff A L repo attempt) (\<lambda>detected.
     e_bind (ensure (dd_changed detected) (''no worktree changes detected for attempt '' @ att_attempt_id attempt @
               ''; refusing to write empty agent.change evidence'')) (\<lambda>_.
     e_bind (select_change_runs A L repo (att_attempt_id attempt) requested) (\<lambda>selected.
     (let run_ids = map run_run_id selected in
      e_bind (e_lift (core_bail (stable_json_hash L (json_obj [(''attempt_id'', jstr (att_attempt_id attempt)),
        (''diff_hash'', jstr (dd_diff_hash detected)), (''run_ids'', jstrs run_ids)])))) (\<lambda>change_id.
      (let change = \<lparr>chg_change_id = change_id, chg_intent_id = att_intent_id attempt, chg_attempt_id = att_attempt_id attempt,
             chg_run_ids = run_ids, chg_base_commit = att_base_commit attempt, chg_file_paths = dd_file_paths detected,
             chg_diff_summary = dd_diff_summary detected, chg_symbols = [], chg_diff_hash = dd_diff_hash detected,
             chg_related_contract_hashes = related_contract_hashes selected, chg_diagnostics = []\<rparr>
       in e_bind (write_signed_or_cached A L repo ''agent.change'' (change_evidence_json change) signing) (\<lambda>object.
            e_ret \<lparr>cd_change = change, cd_object = object, cd_changed = dd_changed detected,
                   cd_diff_bytes = dd_diff_bytes detected\<rparr>)))))))))"

section \<open>Listings are views of the ledger\<close>

definition typed :: "ledger_map \<Rightarrow> str \<Rightarrow> (json \<Rightarrow> 'a option) \<Rightarrow> str \<rightharpoonup> 'a" where
  "typed M kind d i = (case M i of Some obj \<Rightarrow> if co_kind obj = kind then d (co_body obj) else None | None \<Rightarrow> None)"

lemma typed_Some: "typed M kind d i = Some v \<longleftrightarrow> (\<exists>obj. M i = Some obj \<and> co_kind obj = kind \<and> d (co_body obj) = Some v)"
  by (auto simp: typed_def split: option.splits)

definition views :: "(str \<rightharpoonup> 'a) \<Rightarrow> 'a ledger_entry list \<Rightarrow> bool" where
  "views V es \<longleftrightarrow> sorted_wrt (<) (map en_object_id es) \<and>
     (\<forall>i v. V i = Some v \<longleftrightarrow> (\<exists>e \<in> set es. en_object_id e = i \<and> en_value e = v))"

abbreviation attempts_in :: "ledger_map \<Rightarrow> str \<rightharpoonup> agent_attempt" where
  "attempts_in M \<equiv> typed M ''agent.attempt'' agent_attempt_of_json"

abbreviation transitions_in :: "ledger_map \<Rightarrow> str \<rightharpoonup> attempt_status_transition" where
  "transitions_in M \<equiv> typed M ''agent.attempt_status'' attempt_status_transition_of_json"

abbreviation runs_in :: "ledger_map \<Rightarrow> str \<rightharpoonup> agent_run" where
  "runs_in M \<equiv> typed M ''agent.run'' agent_run_of_json"

abbreviation changes_in :: "ledger_map \<Rightarrow> str \<rightharpoonup> change_evidence" where
  "changes_in M \<equiv> typed M ''agent.change'' change_evidence_of_json"

abbreviation patches_in :: "ledger_map \<Rightarrow> str \<rightharpoonup> prepared_patch" where
  "patches_in M \<equiv> typed M ''agent.patch'' prepared_patch_of_json"

context ledger
begin

lemmas store_quiet = list_quiet read_quiet now_quiet inspect_quiet read_file_quiet create_dir_quiet remove_quiet

lemma read_entry_quiet: "quiet good objs (read_entry A L repo d entry)"
  unfolding read_entry_def by (intro quiet_bind) (simp_all add: read_quiet)

lemma read_entries_quiet: "quiet good objs (read_entries A L repo kind d)"
  unfolding read_entries_def by (intro quiet_bind quiet_e_map) (simp_all add: list_quiet read_entry_quiet)

lemma read_entry_value:
  assumes "good s" "objs s (le_object_id le) = Some obj" "read_entry A L repo d le s = (Inr e, s')"
  shows "en_object_id e = le_object_id le \<and> d (co_body obj) = Some (en_value e)"
proof -
  obtain rep s1 v where *: "a_read A repo (le_object_id le) s = (Inr rep, s1)" "d (co_body (rr_object rep)) = Some v"
    "e = \<lparr>en_object_id = le_object_id le, en_ref_name = le_ref_name le, en_git_object_id = le_git_object_id le, en_value = v\<rparr>"
    using assms(3) unfolding read_entry_def by (auto elim!: e_bind_Inr)
  then show ?thesis using read_exact [OF assms(1,2) *(1)] by simp
qed

lemma read_each_value:
  assumes "good s" "\<forall>le \<in> set les. \<exists>obj. objs s (le_object_id le) = Some obj"
    and "e_map (read_entry A L repo d) les s = (Inr es, s')"
  shows "list_all2 (\<lambda>le e. en_object_id e = le_object_id le \<and>
    (\<exists>obj. objs s (le_object_id le) = Some obj \<and> d (co_body obj) = Some (en_value e))) les es"
  using assms
proof (induction les arbitrary: s es)
  case (Cons le les)
  obtain e s1 es1 where *: "read_entry A L repo d le s = (Inr e, s1)" "e_map (read_entry A L repo d) les s1 = (Inr es1, s')"
    "es = e # es1" using Cons.prems(3) by (auto elim!: e_bind_Inr)
  have s1: "good s1" "objs s1 = objs s" using quietD [OF read_entry_quiet Cons.prems(1) *(1)] by blast+
  show ?case using Cons.IH [OF s1(1) _ *(2)] Cons.prems(1,2) s1(2) read_entry_value [OF Cons.prems(1) _ *(1)] *(3) by auto
qed simp

lemma read_entries_view:
  assumes "good s" "read_entries A L repo kind d s = (Inr es, s')"
  shows "views (typed (objs s) kind d) es"
proof -
  obtain les s1 where l: "a_list A repo (Some kind) s = (Inr les, s1)" "e_map (read_entry A L repo d) les s1 = (Inr es, s')"
    using assms(2) unfolding read_entries_def by (auto elim!: e_bind_Inr)
  note lo = listed_object [OF assms(1) l(1)]
  have ex: "\<forall>le \<in> set les. \<exists>obj. objs s1 (le_object_id le) = Some obj" using lo unfolding listing_of_def by fastforce
  have all: "list_all2 (\<lambda>le e. en_object_id e = le_object_id le \<and>
    (\<exists>obj. objs s (le_object_id le) = Some obj \<and> d (co_body obj) = Some (en_value e))) les es"
    using read_each_value [OF lo(1) ex l(2)] unfolding lo(2) .
  then have ids: "map en_object_id es = map le_object_id les" by (induction rule: list_all2_induct) auto
  have "typed (objs s) kind d i = Some v \<longleftrightarrow> (\<exists>e \<in> set es. en_object_id e = i \<and> en_value e = v)" for i v
  proof
    assume "typed (objs s) kind d i = Some v"
    then obtain obj where obj: "objs s i = Some obj" "co_kind obj = kind" "d (co_body obj) = Some v" by (auto simp: typed_Some)
    then have "i \<in> le_object_id ` set les" using lo(3) by (auto simp: listing_of_def kind_matches_def)
    then obtain n where n: "n < length les" "le_object_id (les ! n) = i" by (auto simp: in_set_conv_nth)
    moreover have "es ! n \<in> set es" using n all by (simp add: list_all2_lengthD [symmetric])
    moreover have "en_object_id (es ! n) = i \<and> en_value (es ! n) = v"
      using list_all2_nthD [OF all n(1)] obj n(2) by auto
    ultimately show "\<exists>e \<in> set es. en_object_id e = i \<and> en_value e = v" by blast
  next
    assume "\<exists>e \<in> set es. en_object_id e = i \<and> en_value e = v"
    then obtain n where n: "n < length es" "en_object_id (es ! n) = i" "en_value (es ! n) = v" by (auto simp: in_set_conv_nth)
    have len: "length les = length es" by (rule list_all2_lengthD [OF all])
    obtain obj where obj: "objs s i = Some obj" "d (co_body obj) = Some v" "le_object_id (les ! n) = i"
      using list_all2_nthD2 [OF all n(1), unfolded n(2,3)] by metis
    have "les ! n \<in> set les" using n len by simp
    then have "i \<in> le_object_id ` set les" using obj(3) by blast
    then have "co_kind obj = kind" using lo(3) obj(1) by (auto simp: listing_of_def kind_matches_def)
    with obj show "typed (objs s) kind d i = Some v" by (auto simp: typed_Some)
  qed
  moreover have "sorted_wrt (<) (map en_object_id es)" using lo(3) ids by (simp add: listing_of_def)
  ultimately show ?thesis by (simp add: views_def)
qed

end

section \<open>Finding and ordering\<close>

lemma find_filter: "find P xs = (case filter P xs of [] \<Rightarrow> None | y # _ \<Rightarrow> Some y)"
  by (induction xs) auto

lemma find_sort_key: "find (\<lambda>e. f e = x) (sort_key f es) = find (\<lambda>e. f e = x) es"
  by (simp add: find_filter sort_key_stable)

text \<open>The value with the least object id among those that satisfy a predicate.\<close>

definition least_with :: "(str \<rightharpoonup> 'a) \<Rightarrow> ('a \<Rightarrow> bool) \<Rightarrow> str \<Rightarrow> 'a \<Rightarrow> bool" where
  "least_with V P i v \<longleftrightarrow> V i = Some v \<and> P v \<and> (\<forall>j u. V j = Some u \<longrightarrow> P u \<longrightarrow> i \<le> j)"

lemma least_with_unique: "least_with V P i v \<Longrightarrow> least_with V P j u \<Longrightarrow> i = j \<and> v = u"
  unfolding least_with_def by (metis order_antisym option.inject)

lemma views_find:
  assumes "views V es" "find (\<lambda>e. P (en_value e)) es = Some e"
  shows "least_with V P (en_object_id e) (en_value e)"
proof -
  obtain n where n: "n < length es" "P (en_value e)" "e = es ! n" "\<And>m. m < n \<Longrightarrow> \<not> P (en_value (es ! m))"
    using assms(2) by (auto simp: find_Some_iff)
  have "en_object_id e \<le> en_object_id (es ! m)" if "m < length es" "P (en_value (es ! m))" for m
  proof -
    have "\<not> m < n" using n(4) that(2) by blast
    then have "m = n \<or> n < m" by auto
    then show ?thesis
      using sorted_wrt_nth_less [of "(<)" "map en_object_id es" n m] assms(1) that(1) n(3) by (auto simp: views_def less_imp_le)
  qed
  moreover have "V (en_object_id e) = Some (en_value e)"
    using assms(1) n(1,3) unfolding views_def by (metis nth_mem)
  ultimately show ?thesis
    using assms(1) n(2) unfolding views_def least_with_def by (metis in_set_conv_nth)
qed

lemma views_find_None: "views V es \<Longrightarrow> find (\<lambda>e. P (en_value e)) es = None \<longleftrightarrow> (\<forall>j v. V j = Some v \<longrightarrow> \<not> P v)"
  unfolding find_None_iff views_def by metis

lemma last_transition_Some:
  assumes "last_transition ts = Some (i, t)"
  shows "(i, t) \<in> set ts" "(j, u) \<in> set ts \<Longrightarrow> (tr_created_at_ms u, j) \<le> (tr_created_at_ms t, i)"
proof -
  let ?k = "\<lambda>(object_id, t). (tr_created_at_ms t, object_id)" and ?s = "sort_key (\<lambda>(object_id, t). (tr_created_at_ms t, object_id)) ts"
  have l: "?s \<noteq> []" "last ?s = (i, t)" using assms by (auto simp: last_transition_def Let_def split: if_splits)
  then have "(i, t) \<in> set ?s" by (metis last_in_set)
  then show "(i, t) \<in> set ts" by simp
  assume "(j, u) \<in> set ts"
  then have "(j, u) \<in> set ?s" by simp
  then obtain n where n: "n < length ?s" "?s ! n = (j, u)" by (auto simp only: in_set_conv_nth)
  have "sorted (map ?k ?s)" by simp
  then have "map ?k ?s ! n \<le> map ?k ?s ! (length ?s - 1)" using n(1) by (intro sorted_nth_mono) auto
  moreover have "?s ! (length ?s - 1) = (i, t)" using l by (metis last_conv_nth)
  ultimately show "(tr_created_at_ms u, j) \<le> (tr_created_at_ms t, i)" using n l(1) by simp
qed

lemma last_transition_None [simp]: "last_transition ts = None \<longleftrightarrow> ts = []"
  by (auto simp: last_transition_def Let_def) (metis length_0_conv length_sort)

section \<open>The status as a function of the ledger\<close>

definition status_in :: "ledger_map \<Rightarrow> str \<Rightarrow> attempt_status \<Rightarrow> str option \<Rightarrow> bool" where
  "status_in M attempt_id st source \<longleftrightarrow> (case source of
     Some i \<Rightarrow> (\<exists>t. transitions_in M i = Some t \<and> tr_attempt_id t = attempt_id \<and> tr_status t = st \<and>
       (\<forall>j u. transitions_in M j = Some u \<longrightarrow> tr_attempt_id u = attempt_id \<longrightarrow>
          (tr_created_at_ms u, j) \<le> (tr_created_at_ms t, i)))
   | None \<Rightarrow> (\<forall>j u. transitions_in M j = Some u \<longrightarrow> tr_attempt_id u \<noteq> attempt_id) \<and>
       (\<exists>i a. least_with (attempts_in M) (\<lambda>a. att_attempt_id a = attempt_id) i a \<and> att_status a = st))"

lemma status_in_unique:
  assumes "status_in M x st src" "status_in M x st' src'"
  shows "st = st' \<and> src = src'"
proof (cases src)
  case None
  show ?thesis
  proof (cases src')
    case None
    with \<open>src = None\<close> assms show ?thesis unfolding status_in_def by (auto dest: least_with_unique)
  next
    case (Some j)
    with None assms show ?thesis by (auto simp: status_in_def)
  qed
next
  case (Some i)
  obtain t where t: "transitions_in M i = Some t" "tr_attempt_id t = x" "tr_status t = st"
    "\<And>j u. transitions_in M j = Some u \<Longrightarrow> tr_attempt_id u = x \<Longrightarrow> (tr_created_at_ms u, j) \<le> (tr_created_at_ms t, i)"
    using Some assms(1) by (auto simp: status_in_def)
  then obtain j where j: "src' = Some j" using assms(2) by (cases src') (auto simp: status_in_def)
  obtain u where u: "transitions_in M j = Some u" "tr_attempt_id u = x" "tr_status u = st'"
    "\<And>k v. transitions_in M k = Some v \<Longrightarrow> tr_attempt_id v = x \<Longrightarrow> (tr_created_at_ms v, k) \<le> (tr_created_at_ms u, j)"
    using j assms(2) by (auto simp: status_in_def)
  have "(tr_created_at_ms u, j) = (tr_created_at_ms t, i)"
    using t(4) [OF u(1,2)] u(4) [OF t(1,2)] by (rule order_antisym)
  then show ?thesis using t(1,3) u(1,3) Some j by simp
qed

context ledger
begin

lemma list_attempts_quiet: "quiet good objs (list_attempts A L repo)"
  and list_runs_quiet: "quiet good objs (list_runs A L repo)"
  and list_changes_quiet: "quiet good objs (list_changes A L repo)"
  and list_patches_quiet: "quiet good objs (list_patches A L repo)"
  unfolding list_attempts_def list_runs_def list_changes_def list_patches_def
  by (intro quiet_bind read_entries_quiet quiet_basic)+

lemma find_attempt_quiet: "quiet good objs (find_attempt A L repo i)"
  unfolding find_attempt_def by (intro quiet_bind list_attempts_quiet quiet_basic)

lemma effective_status_quiet: "quiet good objs (effective_attempt_status A L repo i)"
  unfolding effective_attempt_status_def by (intro quiet_bind find_attempt_quiet read_entries_quiet quiet_basic)

lemma listed_values:
  assumes "good s" "e_bind (read_entries A L repo kind d) (\<lambda>es. e_ret (sort_key f es)) s = (Inr es, s')"
  obtains es0 where "views (typed (objs s) kind d) es0" "es = sort_key f es0"
proof -
  obtain es0 s1 where *: "read_entries A L repo kind d s = (Inr es0, s1)" "es = sort_key f es0"
    using assms(2) by (auto elim!: e_bind_Inr)
  show thesis by (rule that [OF read_entries_view [OF assms(1) *(1)] *(2)])
qed

lemma find_attempt_exact:
  assumes "good s" "find_attempt A L repo attempt_id s = (Inr a, s')"
  shows "\<exists>i. least_with (attempts_in (objs s)) (\<lambda>a. att_attempt_id a = attempt_id) i a"
proof -
  obtain es s1 e where *: "list_attempts A L repo s = (Inr es, s1)"
    "find (\<lambda>e. att_attempt_id (en_value e) = attempt_id) es = Some e" "a = en_value e"
    using assms(2) unfolding find_attempt_def by (auto elim!: e_bind_Inr)
  obtain es0 where es0: "views (attempts_in (objs s)) es0" "es = sort_key (\<lambda>e. att_attempt_id (en_value e)) es0"
    by (rule listed_values [OF assms(1) *(1) [unfolded list_attempts_def]])
  have "find (\<lambda>e. att_attempt_id (en_value e) = attempt_id) es0 = Some e"
    using *(2) unfolding es0(2) by (simp add: find_sort_key)
  from views_find [OF es0(1) this] *(3) show ?thesis by blast
qed

lemma effective_status_in:
  assumes "good s" "effective_attempt_status A L repo attempt_id s = (Inr (st, src), s')"
  shows "status_in (objs s) attempt_id st src"
proof -
  obtain a s1 es s2 where *: "find_attempt A L repo attempt_id s = (Inr a, s1)"
    "read_entries A L repo ''agent.attempt_status'' attempt_status_transition_of_json s1 = (Inr es, s2)"
    "(case last_transition (map (\<lambda>e. (en_object_id e, en_value e)) (filter (\<lambda>e. tr_attempt_id (en_value e) = attempt_id) es)) of
       Some (object_id, t) \<Rightarrow> (tr_status t, Some object_id) | None \<Rightarrow> (att_status a, None)) = (st, src)"
    using assms(2) unfolding effective_attempt_status_def by (auto elim!: e_bind_Inr)
  have s1: "good s1" "objs s1 = objs s" using quietD [OF find_attempt_quiet assms(1) *(1)] by blast+
  have v: "views (transitions_in (objs s)) es" using read_entries_view [OF s1(1) *(2)] s1(2) by simp
  let ?ts = "map (\<lambda>e. (en_object_id e, en_value e)) (filter (\<lambda>e. tr_attempt_id (en_value e) = attempt_id) es)"
  have mem: "(i, t) \<in> set ?ts \<longleftrightarrow> transitions_in (objs s) i = Some t \<and> tr_attempt_id t = attempt_id" for i t
    using v unfolding views_def by auto
  show ?thesis
  proof (cases "last_transition ?ts")
    case None
    then have "?ts = []" by (simp only: last_transition_None)
    then have "\<forall>j u. transitions_in (objs s) j = Some u \<longrightarrow> tr_attempt_id u \<noteq> attempt_id" using mem by fastforce
    then show ?thesis using find_attempt_exact [OF assms(1) *(1)] *(3) None by (auto simp: status_in_def)
  next
    case (Some it)
    obtain i t where it: "it = (i, t)" by (cases it)
    note l = last_transition_Some [OF Some [unfolded it]]
    show ?thesis using l(1) l(2) *(3) Some it unfolding mem by (auto simp: status_in_def)
  qed
qed

end

end
