(* ===== verification/Cli_Life.thy ===== *)
theory Cli_Life
  imports Cli_Attempts
begin

text \<open>
  The life of an attempt, as a step relation on the ledger: what the commands may add to it.  Every
  command that starts, submits or abandons an attempt is a step, so what holds of the reachable ledgers
  holds of a repository the tool has written: an attempt that was submitted or abandoned stays so.
\<close>

section \<open>Steps\<close>

definition add_object :: "ledger_map \<Rightarrow> canonical_object \<Rightarrow> ledger_map" where
  "add_object M obj = M(co_object_id obj \<mapsto> obj)"

definition fits :: "ledger_map \<Rightarrow> canonical_object \<Rightarrow> bool" where
  "fits M obj \<longleftrightarrow> M (co_object_id obj) \<in> {None, Some obj}"

text \<open>The kinds the tool reads back, and what their bodies must be.\<close>

definition well_typed :: "canonical_object \<Rightarrow> bool" where
  "well_typed obj \<longleftrightarrow>
     (co_kind obj = ''agent.intent'' \<longrightarrow> work_intent_of_json (co_body obj) \<noteq> None) \<and>
     (co_kind obj = ''agent.attempt'' \<longrightarrow> agent_attempt_of_json (co_body obj) \<noteq> None) \<and>
     (co_kind obj = ''agent.attempt_status'' \<longrightarrow> attempt_status_transition_of_json (co_body obj) \<noteq> None) \<and>
     (co_kind obj = ''agent.run'' \<longrightarrow> agent_run_of_json (co_body obj) \<noteq> None) \<and>
     (co_kind obj = ''agent.change'' \<longrightarrow> change_evidence_of_json (co_body obj) \<noteq> None) \<and>
     (co_kind obj = ''agent.patch'' \<longrightarrow> prepared_patch_of_json (co_body obj) \<noteq> None) \<and>
     (co_kind obj = ''agent.patch_diff'' \<longrightarrow> patch_diff_of_json (co_body obj) \<noteq> None) \<and>
     (co_kind obj = ''agent.patch_application'' \<longrightarrow> patch_application_of_json (co_body obj) \<noteq> None) \<and>
     (co_kind obj = ''agent.patch_retirement'' \<longrightarrow> patch_retirement_of_json (co_body obj) \<noteq> None) \<and>
     (co_kind obj = ''agent.note'' \<longrightarrow> agent_note_of_json (co_body obj) \<noteq> None)"

inductive ledger_step :: "ledger_map \<Rightarrow> ledger_map \<Rightarrow> bool" where
  started: "fits M obj \<Longrightarrow> co_kind obj = ''agent.attempt'' \<Longrightarrow> agent_attempt_of_json (co_body obj) = Some a \<Longrightarrow>
    att_status a = Running \<Longrightarrow> ledger_step M (add_object M obj)"
| submitted: "fits M obj \<Longrightarrow> co_kind obj = ''agent.attempt_status'' \<Longrightarrow>
    attempt_status_transition_of_json (co_body obj) = Some t \<Longrightarrow> tr_status t = Submitted \<Longrightarrow>
    status_in M (tr_attempt_id t) st src \<Longrightarrow> st \<in> {Running, Planned} \<Longrightarrow>
    patches_in M i = Some p \<Longrightarrow> pp_attempt_id p = tr_attempt_id t \<Longrightarrow> ledger_step M (add_object M obj)"
| abandoned: "fits M obj \<Longrightarrow> co_kind obj = ''agent.attempt_status'' \<Longrightarrow>
    attempt_status_transition_of_json (co_body obj) = Some t \<Longrightarrow> tr_status t = Abandoned \<Longrightarrow>
    status_in M (tr_attempt_id t) st src \<Longrightarrow> st \<in> {Running, Planned} \<Longrightarrow> ledger_step M (add_object M obj)"
| recorded: "fits M obj \<Longrightarrow> co_kind obj \<notin> {''agent.attempt'', ''agent.attempt_status''} \<Longrightarrow> well_typed obj \<Longrightarrow>
    ledger_step M (add_object M obj)"

abbreviation ledger_steps :: "ledger_map \<Rightarrow> ledger_map \<Rightarrow> bool" where
  "ledger_steps \<equiv> ledger_step\<^sup>*\<^sup>*"

inductive_simps ledger_step_iff: "ledger_step M M'"

text \<open>What a step does to a view: nothing, or one new value.\<close>

lemma typed_add:
  "typed (add_object M obj) kind d = (if co_kind obj = kind then (typed M kind d)(co_object_id obj := d (co_body obj))
     else (typed M kind d)(co_object_id obj := None))"
  by (auto simp: typed_def add_object_def fun_eq_iff)

lemma typed_add_other: "fits M obj \<Longrightarrow> co_kind obj \<noteq> kind \<Longrightarrow> typed (add_object M obj) kind d = typed M kind d"
  by (auto simp: typed_def add_object_def fits_def fun_eq_iff)

lemma typed_add_same: "co_kind obj = kind \<Longrightarrow> d (co_body obj) = Some v \<Longrightarrow>
  typed (add_object M obj) kind d = (typed M kind d)(co_object_id obj \<mapsto> v)"
  by (auto simp: typed_def add_object_def fun_eq_iff)

lemma step_grows: "ledger_step M M' \<Longrightarrow> M \<subseteq>\<^sub>m M'"
  by (auto simp: ledger_step_iff add_object_def fits_def map_le_def)

lemma steps_grow: "ledger_steps M M' \<Longrightarrow> M \<subseteq>\<^sub>m M'"
proof (induction rule: rtranclp_induct)
  case (step M' M'')
  then show ?case using step_grows map_le_trans by blast
qed simp

section \<open>The invariant\<close>

definition life_ok :: "ledger_map \<Rightarrow> bool" where
  "life_ok M \<longleftrightarrow>
     (\<forall>i a. attempts_in M i = Some a \<longrightarrow> att_status a = Running) \<and>
     (\<forall>i t. transitions_in M i = Some t \<longrightarrow> tr_status t \<in> {Submitted, Abandoned}) \<and>
     (\<forall>i j t u. transitions_in M i = Some t \<longrightarrow> transitions_in M j = Some u \<longrightarrow> tr_attempt_id t = tr_attempt_id u \<longrightarrow> i = j)"

lemma life_ok_empty: "life_ok Map.empty"
  by (simp add: life_ok_def typed_def)

lemma active_no_transition:
  assumes "life_ok M" "status_in M x st src" "st \<in> {Running, Planned}" "transitions_in M i = Some t"
  shows "tr_attempt_id t \<noteq> x"
proof (cases src)
  case None
  then show ?thesis using assms(2,4) by (auto simp: status_in_def)
next
  case (Some j)
  then obtain u where u: "transitions_in M j = Some u" "tr_status u = st" using assms(2) by (auto simp: status_in_def)
  then have "st \<in> {Submitted, Abandoned}" using assms(1) unfolding life_ok_def by blast
  with assms(3) show ?thesis by auto
qed

lemma step_keeps_life:
  assumes "ledger_step M M'" "life_ok M"
  shows "life_ok M'"
  using assms
proof (cases rule: ledger_step.cases)
  case (started obj a)
  then show ?thesis using assms(2) by (auto simp: life_ok_def typed_add_same typed_add_other split: if_splits)
next
  case (submitted obj t st src i p)
  have "tr_attempt_id u \<noteq> tr_attempt_id t" if "transitions_in M j = Some u" for j u
    using active_no_transition [OF assms(2) submitted(6,7) that] .
  then show ?thesis using assms(2) submitted by (auto simp: life_ok_def typed_add_same typed_add_other split: if_splits; metis)
next
  case (abandoned obj t st src)
  have "tr_attempt_id u \<noteq> tr_attempt_id t" if "transitions_in M j = Some u" for j u
    using active_no_transition [OF assms(2) abandoned(6,7) that] .
  then show ?thesis using assms(2) abandoned by (auto simp: life_ok_def typed_add_same typed_add_other split: if_splits; metis)
next
  case (recorded obj)
  then show ?thesis using assms(2) by (simp add: life_ok_def typed_add_other)
qed

lemma steps_keep_life: "ledger_steps M M' \<Longrightarrow> life_ok M \<Longrightarrow> life_ok M'"
  by (induction rule: rtranclp_induct) (auto intro: step_keeps_life)

text \<open>With at most one transition, the status is that of the transition, for ever.\<close>

lemma typed_grows: "M \<subseteq>\<^sub>m M' \<Longrightarrow> typed M kind d i = Some v \<Longrightarrow> typed M' kind d i = Some v"
  unfolding typed_Some map_le_def by (metis domI)

lemma life_ok_unique:
  "life_ok M \<Longrightarrow> transitions_in M i = Some t \<Longrightarrow> transitions_in M j = Some u \<Longrightarrow> tr_attempt_id t = tr_attempt_id u \<Longrightarrow> i = j"
  by (simp add: life_ok_def)

lemma final_status_kept:
  assumes "life_ok M'" "M \<subseteq>\<^sub>m M'" "status_in M x st (Some i)"
  shows "status_in M' x st (Some i)"
proof -
  obtain t where t: "transitions_in M i = Some t" "tr_attempt_id t = x" "tr_status t = st"
    using assms(3) by (auto simp: status_in_def)
  then have t': "transitions_in M' i = Some t" by (intro typed_grows [OF assms(2)])
  have "(tr_created_at_ms u, j) \<le> (tr_created_at_ms t, i)" if u: "transitions_in M' j = Some u" "tr_attempt_id u = x" for j u
  proof -
    have ji: "j = i" using life_ok_unique [OF assms(1) u(1) t'] t(2) u(2) by simp
    then have "u = t" using u(1) t' by simp
    then show ?thesis using ji by simp
  qed
  then show ?thesis using t t' unfolding status_in_def by auto
qed

lemma status_final_source:
  assumes "life_ok M" "status_in M x st src" "st \<notin> {Running, Planned}"
  obtains i where "src = Some i"
  using assms by (cases src) (auto simp: status_in_def life_ok_def least_with_def)

text \<open>Every step adds a well typed object.\<close>

definition ledger_typed :: "ledger_map \<Rightarrow> bool" where
  "ledger_typed M \<longleftrightarrow> (\<forall>i obj. M i = Some obj \<longrightarrow> well_typed obj)"

lemma step_typed:
  assumes "ledger_step M M'" "ledger_typed M"
  shows "ledger_typed M'"
proof -
  obtain obj where "M' = add_object M obj" "well_typed obj"
    using assms(1) by (cases rule: ledger_step.cases) (auto simp: well_typed_def)
  then show ?thesis using assms(2) by (simp add: ledger_typed_def add_object_def)
qed

lemma steps_typed: "ledger_steps M M' \<Longrightarrow> ledger_typed M \<Longrightarrow> ledger_typed M'"
  by (induction rule: rtranclp_induct) (auto intro: step_typed)

end
