(* ===== verification/Cli_Patches.thy ===== *)
theory Cli_Patches
  imports Cli_Attempts
begin

text \<open>
  The patch commands of \<^verbatim>\<open>crates/rickydata-git-cli/src/main.rs\<close>: preparing a patch from the evidence of an
  attempt, resolving its diff, applying it to the repository, exporting it, checking it out for review,
  retiring it, and the review queue.  The lemmas are stated under the contract of the store.
\<close>

section \<open>Inputs and reports\<close>

record patch_apply_input =
  pai_repo :: str
  pai_patch_id :: str
  pai_allow_dirty :: bool
  pai_allow_base_drift :: bool
  pai_applied_by :: "str option"
  pai_reason :: "str option"
  pai_idempotency_key :: "str option"

record patch_apply_report =
  par_patch_id :: str
  par_attempt_id :: str
  par_base_commit :: str
  par_head_commit :: str
  par_applied :: bool
  par_diff_hash :: str
  par_diff_bytes :: u64
  par_file_count :: nat
  par_file_paths :: "str list"
  par_application :: patch_application
  par_object :: object_write_report
  par_replayed :: bool

record patch_checkout_input =
  pci_repo :: str
  pci_patch_id :: str
  pci_path :: "str option"
  pci_force :: bool
  pci_allow_base_drift :: bool

record patch_checkout_report =
  pcr_patch_id :: str
  pcr_attempt_id :: str
  pcr_base_commit :: str
  pcr_head_commit :: str
  pcr_checkout_path :: str
  pcr_applied :: bool
  pcr_diff_hash :: str
  pcr_diff_bytes :: u64
  pcr_file_count :: nat
  pcr_file_paths :: "str list"
  pcr_replaced :: bool

record patch_export_input =
  pei_repo :: str
  pei_patch_id :: str
  pei_output :: str
  pei_force :: bool

record patch_export_report =
  per_patch_id :: str
  per_attempt_id :: str
  per_base_commit :: str
  per_output_path :: str
  per_diff_hash :: str
  per_diff_bytes :: u64
  per_file_count :: nat
  per_file_paths :: "str list"
  per_overwritten :: bool

record patch_prepare_report =
  ppr_patch :: prepared_patch
  ppr_object :: object_write_report
  ppr_change_count :: nat
  ppr_file_count :: nat

record patch_retire_input =
  pri_repo :: str
  pri_patch_id :: str
  pri_reason :: str
  pri_retired_by :: "str option"
  pri_idempotency_key :: "str option"

record patch_retire_report =
  prr_retirement :: patch_retirement
  prr_object :: object_write_report

record patch_review_queue_entry =
  rq_patch_id :: str
  rq_intent_id :: str
  rq_attempt_id :: str
  rq_attempt_status :: "attempt_status option"
  rq_base_commit :: str
  rq_file_count :: nat
  rq_file_paths :: "str list"
  rq_run_count :: nat
  rq_change_count :: nat
  rq_apply_ready :: bool
  rq_diagnostics :: "str list"

record patch_review_queue_report =
  rqr_status :: str
  rqr_patch_count :: nat
  rqr_ready_count :: nat
  rqr_patches :: "patch_review_queue_entry list"

section \<open>Resolving the diff of a patch\<close>

text \<open>\<^verbatim>\<open>{:?}\<close> of strings; a character beyond ASCII is taken to be printable.\<close>

definition debug_char :: "char \<Rightarrow> str" where
  "debug_char c = (if c = CHR 0x22 then [CHR 0x5C, CHR 0x22] else if c = CHR 0x5C then [CHR 0x5C, CHR 0x5C]
     else if c = CHR 0x0A then [CHR 0x5C, CHR ''n''] else if c = CHR 0x0D then [CHR 0x5C, CHR ''r'']
     else if c = CHR 0x09 then [CHR 0x5C, CHR ''t''] else if c = CHR 0x00 then [CHR 0x5C, CHR ''0'']
     else if (of_char c :: nat) < 16 then [CHR 0x5C] @ ''u{'' @ [hex_digit (of_char c)] @ ''}''
     else if (of_char c :: nat) < 32 \<or> (of_char c :: nat) = 127
       then [CHR 0x5C] @ ''u{'' @ [hex_digit (of_char c div 16), hex_digit (of_char c mod 16)] @ ''}''
     else [c])"

definition debug_strs :: "str list \<Rightarrow> str" where
  "debug_strs ss = ''['' @ join_with '', '' (map (\<lambda>s. [CHR 0x22] @ concat (map debug_char s) @ [CHR 0x22]) ss) @ '']''"

record resolved_patch_diff =
  rd_diff_hash :: str
  rd_diff_bytes :: u64
  rd_file_paths :: "str list"
  rd_raw_diff :: bytes

text \<open>The checks on a recorded diff, in their order, and what is read back.\<close>

definition recorded_diff :: "lib \<Rightarrow> prepared_patch \<Rightarrow> str \<Rightarrow> patch_diff \<Rightarrow> cli_error + resolved_patch_diff" where
  "recorded_diff L patch diff_object_id pd =
    (let what = ''patch diff object '' @ diff_object_id in
     if pd_patch_id pd \<noteq> pp_patch_id patch
     then Inl (Bail (what @ '' belongs to patch '' @ pd_patch_id pd @ '', expected '' @ pp_patch_id patch))
     else if pd_attempt_id pd \<noteq> pp_attempt_id patch
     then Inl (Bail (what @ '' belongs to attempt '' @ pd_attempt_id pd @ '', expected '' @ pp_attempt_id patch))
     else if pd_base_commit pd \<noteq> pp_base_commit patch
     then Inl (Bail (what @ '' has base commit '' @ pd_base_commit pd @ '', expected '' @ pp_base_commit patch))
     else if pd_encoding pd \<noteq> ''hex''
     then Inl (Bail (what @ '' uses unsupported encoding `'' @ pd_encoding pd @ ''`''))
     else if pd_diff_hash pd \<notin> set (pp_diff_hashes patch)
     then Inl (Bail (what @ '' hash '' @ pd_diff_hash pd @ '' is not listed in prepared patch hashes '' @ debug_strs (pp_diff_hashes patch)))
     else r_bind (decode_hex (pd_encoded_diff pd)) (\<lambda>raw_diff.
       if bytes_hash L raw_diff \<noteq> pd_diff_hash pd
       then Inl (Bail (what @ '' decoded hash '' @ bytes_hash L raw_diff @ '' does not match recorded '' @ pd_diff_hash pd))
       else if of_nat (length raw_diff) \<noteq> pd_diff_bytes pd
       then Inl (Bail (what @ '' decoded byte length '' @ show_nat (length raw_diff) @ '' does not match recorded '' @
              show_nat (unat (pd_diff_bytes pd))))
       else Inr \<lparr>rd_diff_hash = pd_diff_hash pd, rd_diff_bytes = pd_diff_bytes pd, rd_file_paths = pd_file_paths pd,
              rd_raw_diff = raw_diff\<rparr>))"

definition resolve_patch_diff ::
    "'s api \<Rightarrow> lib \<Rightarrow> str \<Rightarrow> prepared_patch \<Rightarrow> agent_attempt \<Rightarrow> ('s, cli_error, resolved_patch_diff) eff" where
  "resolve_patch_diff A L repo patch attempt = (case pp_diff_object_ids patch of
     diff_object_id # _ \<Rightarrow>
       e_bind (gitm L (a_read A repo diff_object_id)) (\<lambda>report.
       e_bind (ensure (co_kind (rr_object report) = ''agent.patch_diff'')
                 (''object '' @ rr_object_id report @ '' is kind `'' @ co_kind (rr_object report) @
                  ''`, expected `agent.patch_diff`'')) (\<lambda>_.
       e_bind (decode L patch_diff_of_json (co_body (rr_object report))) (\<lambda>pd.
         e_lift (recorded_diff L patch diff_object_id pd))))
   | [] \<Rightarrow>
       e_bind (detect_attempt_diff A L repo attempt) (\<lambda>detected.
       e_bind (ensure (dd_diff_hash detected \<in> set (pp_diff_hashes patch))
                 (''current attempt worktree diff hash '' @ dd_diff_hash detected @
                  '' does not match prepared patch hashes '' @ debug_strs (pp_diff_hashes patch))) (\<lambda>_.
         e_ret \<lparr>rd_diff_hash = dd_diff_hash detected, rd_diff_bytes = dd_diff_bytes detected,
                rd_file_paths = dd_file_paths detected, rd_raw_diff = dd_raw_diff detected\<rparr>)))"

section \<open>What the commands share\<close>

definition find_patch :: "'s api \<Rightarrow> lib \<Rightarrow> str \<Rightarrow> str \<Rightarrow> ('s, cli_error, prepared_patch ledger_entry) eff" where
  "find_patch A L repo patch_id =
     e_bind (list_patches A L repo) (\<lambda>patches.
       some_or (''patch '' @ patch_id @ '' was not found'') (find (\<lambda>e. pp_patch_id (en_value e) = patch_id) patches))"

definition attempt_of_patch :: "'s api \<Rightarrow> lib \<Rightarrow> str \<Rightarrow> prepared_patch \<Rightarrow> ('s, cli_error, agent_attempt) eff" where
  "attempt_of_patch A L repo patch =
     e_bind (find_attempt A L repo (pp_attempt_id patch)) (\<lambda>attempt.
     e_bind (ensure (att_base_commit attempt = pp_base_commit patch)
               (''attempt '' @ att_attempt_id attempt @ '' base commit '' @ att_base_commit attempt @
                '' does not match prepared patch base commit '' @ pp_base_commit patch)) (\<lambda>_.
       e_ret attempt))"

definition head_of_patch :: "'s api \<Rightarrow> lib \<Rightarrow> str \<Rightarrow> bool \<Rightarrow> prepared_patch \<Rightarrow> ('s, cli_error, str) eff" where
  "head_of_patch A L repo allow_base_drift patch =
     e_bind (gitm L (a_inspect A repo)) (\<lambda>inspection.
     e_bind (some_or ''repository HEAD does not point to a commit'' (ri_head_commit inspection)) (\<lambda>head_commit.
     e_bind (ensure (allow_base_drift \<or> head_commit = pp_base_commit patch)
               (''repository HEAD '' @ head_commit @ '' does not match prepared patch base commit '' @
                pp_base_commit patch @ ''; pass --allow-base-drift to override'')) (\<lambda>_.
       e_ret head_commit)))"

definition diff_to ::
    "'s api \<Rightarrow> lib \<Rightarrow> str \<Rightarrow> str \<Rightarrow> prepared_patch \<Rightarrow> agent_attempt \<Rightarrow> ('s, cli_error, resolved_patch_diff) eff" where
  "diff_to A L use repo patch attempt =
     e_bind (resolve_patch_diff A L repo patch attempt) (\<lambda>resolved.
     e_bind (ensure (rd_raw_diff resolved \<noteq> []) (''patch '' @ pp_patch_id patch @ '' has no diff bytes to '' @ use)) (\<lambda>_.
       e_ret resolved))"

text \<open>\<^verbatim>\<open>TempPatchFile\<close>; the file is removed when it goes out of scope, see \<open>dropping\<close>.\<close>

definition temp_patch_file :: "'s api \<Rightarrow> lib \<Rightarrow> str \<Rightarrow> str \<Rightarrow> bytes \<Rightarrow> ('s, cli_error, str) eff" where
  "temp_patch_file A L repo patch_id patch_bytes =
     e_bind (git_dir_of A L repo) (\<lambda>git_dir.
     e_bind (e_lift (short_hex ''patch'' patch_id)) (\<lambda>hex.
     (let temp_dir = foldl path_join git_dir [''rickydata'', ''tmp''] in
      e_bind (ctx (''failed to create temp dir `'' @ temp_dir @ ''`'') (a_create_dir_all A temp_dir)) (\<lambda>_.
      e_bind (now_ms A) (\<lambda>now.
      (let file_path = path_join temp_dir (''apply-'' @ hex @ ''-'' @ show_nat (unat now) @ ''.patch'') in
       e_bind (ctx (''failed to write temp patch `'' @ file_path @ ''`'') (a_write_file A file_path patch_bytes)) (\<lambda>_.
         e_ret file_path)))))))"

definition ensure_clean_worktree :: "'s api \<Rightarrow> str \<Rightarrow> ('s, cli_error, unit) eff" where
  "ensure_clean_worktree A repo =
     e_bind (run_git A (git_in repo [''status'', ''--porcelain'', ''-z'']) ''failed to execute git status'' ''git status'') (\<lambda>out.
       ensure (out = []) ''worktree is dirty; pass --allow-dirty to override'')"

definition git_apply_file :: "'s api \<Rightarrow> str \<Rightarrow> str \<Rightarrow> bool \<Rightarrow> ('s, cli_error, unit) eff" where
  "git_apply_file A repo patch_file check =
     e_bind (run_git A (git_in repo ([''apply''] @ (if check then [''--check''] else []) @ [patch_file]))
              ''failed to execute git apply'' (''git apply'' @ (if check then '' --check'' else []))) (\<lambda>_. e_ret ())"

section \<open>Applying\<close>

text \<open>The listing is searched entry by entry: entries after the first match are not read.\<close>

fun search_applications ::
    "'s api \<Rightarrow> lib \<Rightarrow> str \<Rightarrow> str \<Rightarrow> str \<Rightarrow> object_list_entry list \<Rightarrow>
     ('s, cli_error, (patch_application \<times> object_write_report) option) eff" where
  "search_applications A L repo patch_id key [] = e_ret None"
| "search_applications A L repo patch_id key (entry # rest) =
     e_bind (gitm L (a_read A repo (le_object_id entry))) (\<lambda>report.
     e_bind (decode L patch_application_of_json (co_body (rr_object report))) (\<lambda>application.
       if pa_patch_id application = patch_id \<and> pa_idempotency_key application = Some key
       then e_ret (Some (application,
         \<lparr>wr_status = AlreadyExists, wr_object_id = le_object_id entry, wr_body_hash = le_body_hash entry,
          wr_kind = le_kind entry, wr_schema_version = co_schema_version (rr_object report),
          wr_cache_path = rr_cache_path report, wr_ref_name = le_ref_name entry,
          wr_git_object_id = le_git_object_id entry, wr_bytes_written = 0\<rparr>))
       else search_applications A L repo patch_id key rest))"

definition find_patch_application_by_idempotency ::
    "'s api \<Rightarrow> lib \<Rightarrow> str \<Rightarrow> str \<Rightarrow> str \<Rightarrow> ('s, cli_error, (patch_application \<times> object_write_report) option) eff" where
  "find_patch_application_by_idempotency A L repo patch_id key =
     e_bind (gitm L (a_list A repo (Some ''agent.patch_application''))) (search_applications A L repo patch_id key)"

definition apply_report ::
    "prepared_patch \<Rightarrow> agent_attempt \<Rightarrow> str \<Rightarrow> resolved_patch_diff \<Rightarrow> bool \<Rightarrow> patch_application \<Rightarrow> object_write_report \<Rightarrow>
     patch_apply_report" where
  "apply_report patch attempt head_commit resolved applied application object =
     \<lparr>par_patch_id = pp_patch_id patch, par_attempt_id = att_attempt_id attempt, par_base_commit = att_base_commit attempt,
      par_head_commit = head_commit, par_applied = applied, par_diff_hash = rd_diff_hash resolved,
      par_diff_bytes = rd_diff_bytes resolved, par_file_count = length (rd_file_paths resolved),
      par_file_paths = rd_file_paths resolved, par_application = application, par_object = object,
      par_replayed = (\<not> applied)\<rparr>"

text \<open>The part that changes the worktree, after the replay check.\<close>

definition apply_now ::
    "'s api \<Rightarrow> lib \<Rightarrow> patch_apply_input \<Rightarrow> prepared_patch \<Rightarrow> agent_attempt \<Rightarrow> str \<Rightarrow> resolved_patch_diff \<Rightarrow> str \<Rightarrow>
     ('s, cli_error, patch_apply_report) eff" where
  "apply_now A L input patch attempt head_commit resolved patch_file =
     e_bind (e_when (\<not> pai_allow_dirty input) (ensure_clean_worktree A (pai_repo input))) (\<lambda>_.
     e_bind (git_apply_file A (pai_repo input) patch_file True) (\<lambda>_.
     e_bind (git_apply_file A (pai_repo input) patch_file False) (\<lambda>_.
     e_bind (now_ms A) (\<lambda>now.
     (let application = \<lparr>pa_patch_id = pp_patch_id patch, pa_attempt_id = att_attempt_id attempt,
            pa_base_commit = att_base_commit attempt, pa_head_commit = head_commit, pa_diff_hash = rd_diff_hash resolved,
            pa_diff_bytes = rd_diff_bytes resolved, pa_file_paths = rd_file_paths resolved, pa_applied_by = pai_applied_by input,
            pa_reason = pai_reason input, pa_idempotency_key = pai_idempotency_key input, pa_applied_at_ms = now\<rparr>
      in e_bind (gitm L (a_write_cached A (pai_repo input) ''agent.patch_application'' (patch_application_json application)))
           (\<lambda>object. e_ret (apply_report patch attempt head_commit resolved True application object)))))))"

definition apply_or_replay ::
    "'s api \<Rightarrow> lib \<Rightarrow> patch_apply_input \<Rightarrow> prepared_patch \<Rightarrow> agent_attempt \<Rightarrow> str \<Rightarrow> resolved_patch_diff \<Rightarrow> str \<Rightarrow>
     ('s, cli_error, patch_apply_report) eff" where
  "apply_or_replay A L input patch attempt head_commit resolved patch_file =
     e_bind (case pai_idempotency_key input of
               None \<Rightarrow> e_ret None
             | Some key \<Rightarrow> find_patch_application_by_idempotency A L (pai_repo input) (pp_patch_id patch) key) (\<lambda>earlier.
       case earlier of
         Some (application, object) \<Rightarrow> e_ret (apply_report patch attempt head_commit resolved False application object)
       | None \<Rightarrow> apply_now A L input patch attempt head_commit resolved patch_file)"

definition patch_apply :: "'s api \<Rightarrow> lib \<Rightarrow> patch_apply_input \<Rightarrow> ('s, cli_error, patch_apply_report) eff" where
  "patch_apply A L input =
     e_bind (find_patch A L (pai_repo input) (pai_patch_id input)) (\<lambda>found.
     (let patch = en_value found in
      e_bind (attempt_of_patch A L (pai_repo input) patch) (\<lambda>attempt.
      e_bind (head_of_patch A L (pai_repo input) (pai_allow_base_drift input) patch) (\<lambda>head_commit.
      e_bind (diff_to A L ''apply'' (pai_repo input) patch attempt) (\<lambda>resolved.
      e_bind (temp_patch_file A L (pai_repo input) (pp_patch_id patch) (rd_raw_diff resolved)) (\<lambda>patch_file.
        dropping (a_remove_file A patch_file)
          (apply_or_replay A L input patch attempt head_commit resolved patch_file)))))))"

section \<open>Exporting\<close>

definition patch_export :: "'s api \<Rightarrow> lib \<Rightarrow> patch_export_input \<Rightarrow> ('s, cli_error, patch_export_report) eff" where
  "patch_export A L input =
     e_bind (find_patch A L (pei_repo input) (pei_patch_id input)) (\<lambda>found.
     (let patch = en_value found; output_path = pei_output input in
      e_bind (attempt_of_patch A L (pei_repo input) patch) (\<lambda>attempt.
      e_bind (diff_to A L ''export'' (pei_repo input) patch attempt) (\<lambda>resolved s.
       (let overwritten = a_exists A s output_path; parent = parent_of output_path in
        e_bind (ensure (\<not> overwritten \<or> pei_force input)
                  (''output file '' @ output_path @ '' already exists; pass --force to overwrite'')) (\<lambda>_.
        e_bind (e_when (parent \<noteq> []) (ctx (''failed to create output parent `'' @ parent @ ''`'') (a_create_dir_all A parent))) (\<lambda>_.
        e_bind (ctx (''failed to write patch file `'' @ output_path @ ''`'')
                  (a_write_file A output_path (rd_raw_diff resolved))) (\<lambda>_.
          e_ret \<lparr>per_patch_id = pp_patch_id patch, per_attempt_id = att_attempt_id attempt,
                 per_base_commit = att_base_commit attempt, per_output_path = output_path,
                 per_diff_hash = rd_diff_hash resolved, per_diff_bytes = rd_diff_bytes resolved,
                 per_file_count = length (rd_file_paths resolved), per_file_paths = rd_file_paths resolved,
                 per_overwritten = overwritten\<rparr>))) s)))))"

section \<open>Preparing\<close>

definition patch_prepare ::
    "'s api \<Rightarrow> lib \<Rightarrow> signing_key_args \<Rightarrow> str \<Rightarrow> str \<Rightarrow> ('s, cli_error, patch_prepare_report) eff" where
  "patch_prepare A L keys repo attempt_id =
     e_bind (resolve_signing_key A L keys None) (\<lambda>signing.
     e_bind (find_attempt A L repo attempt_id) (\<lambda>attempt.
     e_bind (list_changes A L repo) (\<lambda>listed.
     (let changes = filter (\<lambda>c. chg_attempt_id c = att_attempt_id attempt) (map en_value listed) in
      e_bind (ensure (changes \<noteq> []) (''no change evidence found for attempt '' @ att_attempt_id attempt)) (\<lambda>_.
      (let change_ids = sorted_dedup (map chg_change_id changes);
           run_ids = sorted_dedup (concat (map chg_run_ids changes));
           file_paths = sorted_dedup (concat (map chg_file_paths changes));
           diff_hashes = sorted_dedup (map chg_diff_hash changes);
           contract_hashes = sorted_dedup (concat (map chg_related_contract_hashes changes)) in
       e_bind (detect_attempt_diff A L repo attempt) (\<lambda>detected.
       e_bind (ensure (list_ex (\<lambda>c. chg_diff_hash c = dd_diff_hash detected) changes)
                 (''current attempt worktree diff hash '' @ dd_diff_hash detected @
                  '' does not match change evidence for attempt '' @ att_attempt_id attempt)) (\<lambda>_.
       e_bind (e_lift (core_bail (stable_json_hash L (json_obj [(''attempt_id'', jstr (att_attempt_id attempt)),
                 (''change_ids'', jstrs change_ids)])))) (\<lambda>patch_id.
       (let patch_diff = \<lparr>pd_patch_id = patch_id, pd_attempt_id = att_attempt_id attempt,
              pd_base_commit = att_base_commit attempt, pd_diff_hash = dd_diff_hash detected,
              pd_diff_bytes = dd_diff_bytes detected, pd_file_paths = dd_file_paths detected, pd_encoding = ''hex'',
              pd_encoded_diff = encode_hex (dd_raw_diff detected)\<rparr> in
        e_bind (write_signed_or_cached A L repo ''agent.patch_diff'' (patch_diff_json patch_diff) signing) (\<lambda>diff_object.
        (let patch = \<lparr>pp_patch_id = patch_id, pp_intent_id = att_intent_id attempt, pp_attempt_id = att_attempt_id attempt,
               pp_base_commit = att_base_commit attempt, pp_change_ids = change_ids, pp_run_ids = run_ids,
               pp_file_paths = file_paths, pp_diff_hashes = diff_hashes, pp_diff_object_ids = [wr_object_id diff_object],
               pp_related_contract_hashes = contract_hashes, pp_diagnostics = []\<rparr> in
         e_bind (write_signed_or_cached A L repo ''agent.patch'' (prepared_patch_json patch) signing) (\<lambda>object.
           e_ret \<lparr>ppr_patch = patch, ppr_object = object, ppr_change_count = length change_ids,
                  ppr_file_count = length file_paths\<rparr>)))))))))))))"

section \<open>Retiring\<close>

definition patch_retire :: "'s api \<Rightarrow> lib \<Rightarrow> patch_retire_input \<Rightarrow> ('s, cli_error, patch_retire_report) eff" where
  "patch_retire A L input =
     e_bind (find_patch A L (pri_repo input) (pri_patch_id input)) (\<lambda>_.
     e_bind (ensure (\<not> blank (pri_reason input)) ''patch retirement reason must be non-empty'') (\<lambda>_.
     e_bind (now_ms A) (\<lambda>now.
     (let retirement = \<lparr>pr_patch_id = pri_patch_id input, pr_reason = pri_reason input, pr_retired_by = pri_retired_by input,
            pr_idempotency_key = pri_idempotency_key input, pr_retired_at_ms = now\<rparr> in
      e_bind (gitm L (a_write_cached A (pri_repo input) ''agent.patch_retirement'' (patch_retirement_json retirement))) (\<lambda>object.
        e_ret \<lparr>prr_retirement = retirement, prr_object = object\<rparr>)))))"

definition retired_patch_ids :: "'s api \<Rightarrow> lib \<Rightarrow> str \<Rightarrow> ('s, cli_error, str list) eff" where
  "retired_patch_ids A L repo =
     e_bind (read_entries A L repo ''agent.patch_retirement'' patch_retirement_of_json) (\<lambda>listed.
       e_ret (sorted_dedup (map (\<lambda>e. pr_patch_id (en_value e)) listed)))"

definition patch_show :: "'s api \<Rightarrow> lib \<Rightarrow> str \<Rightarrow> str \<Rightarrow> ('s, cli_error, prepared_patch show_report) eff" where
  "patch_show A L repo patch_id = e_bind (list_patches A L repo)
     (show_entry A L repo (''patch '' @ patch_id @ '' was not found'') (\<lambda>p. pp_patch_id p = patch_id))"

section \<open>The review queue\<close>

text \<open>\<^verbatim>\<open>match\<close> on a result: an error becomes a diagnostic, a panic still ends the run.\<close>

definition noting :: "('s, cli_error, 'a) eff \<Rightarrow> ('s, cli_error, str + 'a) eff" where
  "noting m s = (case m s of
     (Inl (Bail t), s') \<Rightarrow> (Inr (Inl t), s')
   | (Inl (Panicked t), s') \<Rightarrow> (Inl (Panicked t), s')
   | (Inr x, s') \<Rightarrow> (Inr (Inr x), s'))"

definition noted :: "str \<Rightarrow> str + 'a \<Rightarrow> str list" where
  "noted what r = (case r of Inl t \<Rightarrow> [what @ t] | Inr _ \<Rightarrow> [])"

definition value_of :: "str + 'a \<Rightarrow> 'a option" where
  "value_of r = (case r of Inl _ \<Rightarrow> None | Inr x \<Rightarrow> Some x)"

definition review_patch ::
    "'s api \<Rightarrow> lib \<Rightarrow> str \<Rightarrow> str option \<Rightarrow> bool \<Rightarrow> prepared_patch \<Rightarrow> ('s, cli_error, patch_review_queue_entry) eff" where
  "review_patch A L repo head_commit clean patch =
     e_bind (noting (find_attempt A L repo (pp_attempt_id patch))) (\<lambda>attempt.
     e_bind (noting (effective_attempt_status A L repo (pp_attempt_id patch))) (\<lambda>status.
     e_bind (case attempt of Inl _ \<Rightarrow> e_ret []
             | Inr a \<Rightarrow> e_bind (noting (resolve_patch_diff A L repo patch a)) (\<lambda>r. e_ret (noted ''patch diff evidence is invalid: '' r)))
       (\<lambda>diff_notes.
       (let diagnostics = noted ''attempt is not readable: '' attempt @ noted ''attempt status is not readable: '' status @
              (if head_commit \<noteq> Some (pp_base_commit patch) then [''repository HEAD does not match patch base commit''] else []) @
              (if \<not> clean then [''repository worktree is dirty''] else []) @ diff_notes in
        e_ret \<lparr>rq_patch_id = pp_patch_id patch, rq_intent_id = pp_intent_id patch, rq_attempt_id = pp_attempt_id patch,
               rq_attempt_status = map_option fst (value_of status), rq_base_commit = pp_base_commit patch,
               rq_file_count = length (pp_file_paths patch), rq_file_paths = pp_file_paths patch,
               rq_run_count = length (pp_run_ids patch), rq_change_count = length (pp_change_ids patch),
               rq_apply_ready = (diagnostics = []), rq_diagnostics = diagnostics\<rparr>))))"

definition build_patch_review_queue :: "'s api \<Rightarrow> lib \<Rightarrow> str \<Rightarrow> ('s, cli_error, patch_review_queue_report) eff" where
  "build_patch_review_queue A L repo =
     e_bind (retired_patch_ids A L repo) (\<lambda>retired.
     e_bind (gitm L (a_inspect A repo)) (\<lambda>inspection.
     e_bind (list_patches A L repo) (\<lambda>patches.
     e_bind (e_map (review_patch A L repo (ri_head_commit inspection) (ri_dirty inspection = Some False))
              (filter (\<lambda>p. pp_patch_id p \<notin> set retired) (map en_value patches))) (\<lambda>queued.
       e_ret \<lparr>rqr_status = ''ok'', rqr_patch_count = length queued,
              rqr_ready_count = length (filter rq_apply_ready queued), rqr_patches = queued\<rparr>))))"

end
