(* ===== verification/Cli_Checkout.thy ===== *)
theory Cli_Checkout
  imports Cli_Patches
begin

text \<open>
  Review checkouts of \<^verbatim>\<open>crates/rickydata-git-cli/src/main.rs\<close>: a detached worktree at the base commit of a
  patch, with the diff applied and a marker file that says which patch it belongs to.  A checkout is only
  replaced when its marker names the same patch.
\<close>

section \<open>The marker\<close>

record review_checkout_marker =
  mk_patch_id :: str
  mk_attempt_id :: str
  mk_base_commit :: str
  mk_diff_hash :: str
  mk_created_at_ms :: u64

definition review_checkout_marker_fields :: "review_checkout_marker \<Rightarrow> (str \<times> json) list" where
  "review_checkout_marker_fields x =
     [(''patch_id'', jstr (mk_patch_id x)), (''attempt_id'', jstr (mk_attempt_id x)),
      (''base_commit'', jstr (mk_base_commit x)), (''diff_hash'', jstr (mk_diff_hash x)),
      (''created_at_ms'', ju64 (mk_created_at_ms x))]"

definition review_checkout_marker_json :: "review_checkout_marker \<Rightarrow> json" where
  "review_checkout_marker_json x = json_obj (review_checkout_marker_fields x)"

definition review_checkout_marker_of_json :: "json \<Rightarrow> review_checkout_marker option" where
  "review_checkout_marker_of_json v = do {
     x1 \<leftarrow> field d_str ''patch_id'' v;
     x2 \<leftarrow> field d_str ''attempt_id'' v;
     x3 \<leftarrow> field d_str ''base_commit'' v;
     x4 \<leftarrow> field d_str ''diff_hash'' v;
     x5 \<leftarrow> field d_u64 ''created_at_ms'' v;
     Some \<lparr>mk_patch_id = x1, mk_attempt_id = x2, mk_base_commit = x3, mk_diff_hash = x4, mk_created_at_ms = x5\<rparr> }"

lemma review_checkout_marker_get: "json_get (review_checkout_marker_json x) k = map_of (review_checkout_marker_fields x) k"
  unfolding review_checkout_marker_json_def by (rule json_get_json_obj) (simp add: wire_simps review_checkout_marker_fields_def)

lemma review_checkout_marker_round_trip [simp]: "review_checkout_marker_of_json (review_checkout_marker_json x) = Some x"
  by (simp add: wire_simps review_checkout_marker_of_json_def review_checkout_marker_get review_checkout_marker_fields_def)

lemma review_checkout_marker_plain: "json_plain JSON_DEPTH (review_checkout_marker_json x)"
proof -
  have "json_plain (Suc 0) (review_checkout_marker_json x)"
    unfolding review_checkout_marker_json_def
    by (rule json_plain_json_obj) (auto simp: review_checkout_marker_fields_def plain_simps)
  then show ?thesis by (rule json_plain_mono) (simp add: JSON_DEPTH_def)
qed

definition REVIEW_CHECKOUT_MARKER :: str where
  "REVIEW_CHECKOUT_MARKER = ''.rickydata-review.json''"

section \<open>Files and worktrees\<close>

text \<open>\<^verbatim>\<open>read_to_string\<close>.\<close>

definition read_text :: "'s api \<Rightarrow> str \<Rightarrow> ('s, str, str) eff" where
  "read_text A path = e_bind (a_read_file A path) (\<lambda>b.
     case from_utf8 b of Some t \<Rightarrow> e_ret t | None \<Rightarrow> e_fail ''stream did not contain valid UTF-8'')"

definition is_absolute :: "str \<Rightarrow> bool" where
  "is_absolute path \<longleftrightarrow> path \<noteq> [] \<and> hd path = CHR ''/''"

definition review_checkout_path :: "'s api \<Rightarrow> lib \<Rightarrow> str \<Rightarrow> str \<Rightarrow> str option \<Rightarrow> ('s, cli_error, str) eff" where
  "review_checkout_path A L repo patch_id requested_path = (case requested_path of
     Some path \<Rightarrow> e_ret (if is_absolute path then path else path_join repo path)
   | None \<Rightarrow>
       e_bind (git_dir_of A L repo) (\<lambda>git_dir.
       e_bind (e_lift (short_hex ''patch'' patch_id)) (\<lambda>hex.
         e_ret (foldl path_join git_dir [''rickydata'', ''reviews'', hex]))))"

definition read_review_checkout_marker :: "'s api \<Rightarrow> lib \<Rightarrow> str \<Rightarrow> ('s, cli_error, review_checkout_marker) eff" where
  "read_review_checkout_marker A L checkout_path =
     (let marker_path = path_join checkout_path REVIEW_CHECKOUT_MARKER in
      e_bind (ctx (''checkout path '' @ checkout_path @ '' is not marked as Rickydata-owned'') (read_text A marker_path)) (\<lambda>contents.
        ctx (''checkout marker `'' @ marker_path @ ''` is not valid Rickydata metadata'')
          (e_lift (parse_as L review_checkout_marker_of_json (str_bytes contents)))))"

definition add_review_worktree :: "'s api \<Rightarrow> str \<Rightarrow> str \<Rightarrow> str \<Rightarrow> ('s, cli_error, unit) eff" where
  "add_review_worktree A repo checkout_path base_commit =
     e_bind (e_when (parent_of checkout_path \<noteq> [])
              (ctx (''failed to create checkout parent `'' @ parent_of checkout_path @ ''`'')
                (a_create_dir_all A (parent_of checkout_path)))) (\<lambda>_.
     e_bind (run_git A (git_in repo [''worktree'', ''add'', ''--detach'', checkout_path, base_commit])
              ''failed to execute git worktree add for review checkout'' ''git worktree add'') (\<lambda>_.
       e_ret ()))"

definition remove_review_worktree :: "'s api \<Rightarrow> str \<Rightarrow> str \<Rightarrow> ('s, cli_error, unit) eff" where
  "remove_review_worktree A repo checkout_path =
     e_bind (ctx ''failed to execute git worktree remove for review checkout''
              (a_spawn A (git_in repo [''worktree'', ''remove'', ''--force'', checkout_path]))) (\<lambda>out s.
       if po_success out \<or> \<not> a_exists A s checkout_path then (Inr (), s)
       else if a_is_dir A s checkout_path
       then ctx (''failed to remove existing checkout `'' @ checkout_path @ ''`'') (a_remove_dir_all A checkout_path) s
       else ctx (''failed to remove existing checkout file `'' @ checkout_path @ ''`'') (a_remove_file A checkout_path) s)"

definition prepare_review_checkout_path ::
    "'s api \<Rightarrow> lib \<Rightarrow> str \<Rightarrow> str \<Rightarrow> str \<Rightarrow> bool \<Rightarrow> ('s, cli_error, bool) eff" where
  "prepare_review_checkout_path A L repo checkout_path patch_id force s =
     (if \<not> a_exists A s checkout_path then (Inr False, s)
      else e_bind (ensure force (''checkout path '' @ checkout_path @
                     '' already exists; pass --force to replace a Rickydata-owned checkout'')) (\<lambda>_.
           e_bind (read_review_checkout_marker A L checkout_path) (\<lambda>marker.
           e_bind (ensure (mk_patch_id marker = patch_id)
                     (''checkout path '' @ checkout_path @ '' belongs to patch '' @ mk_patch_id marker @ '', expected '' @ patch_id)) (\<lambda>_.
           e_bind (remove_review_worktree A repo checkout_path) (\<lambda>_.
             e_ret True)))) s)"

text \<open>The marker file is added to the exclude file of the checkout, once.\<close>

definition ignore_review_checkout_marker :: "'s api \<Rightarrow> str \<Rightarrow> ('s, cli_error, unit) eff" where
  "ignore_review_checkout_marker A checkout_path =
     e_bind (run_git A (git_in checkout_path [''rev-parse'', ''--git-path'', ''info/exclude''])
              ''failed to execute git rev-parse for review checkout'' ''git rev-parse --git-path info/exclude'') (\<lambda>out.
     (let printed = trim (from_utf8_lossy out);
          exclude_path = (if is_absolute printed then printed else path_join checkout_path printed) in
      e_bind (\<lambda>s. if a_exists A s exclude_path
                 then ctx (''failed to read checkout exclude `'' @ exclude_path @ ''`'') (read_text A exclude_path) s
                 else (Inr [], s)) (\<lambda>contents.
        if list_ex (\<lambda>line. trim line = REVIEW_CHECKOUT_MARKER) (lines_of contents) then e_ret ()
        else
          (let sep = (if contents \<noteq> [] \<and> last contents \<noteq> CHR 0x0A then [CHR 0x0A] else []) in
           e_bind (e_when (parent_of exclude_path \<noteq> [])
                    (ctx (''failed to create exclude parent `'' @ parent_of exclude_path @ ''`'')
                      (a_create_dir_all A (parent_of exclude_path)))) (\<lambda>_.
             ctx (''failed to write checkout exclude `'' @ exclude_path @ ''`'')
               (a_write_file A exclude_path (str_bytes (contents @ sep @ REVIEW_CHECKOUT_MARKER @ [CHR 0x0A]))))))))"

definition write_review_checkout_marker :: "'s api \<Rightarrow> lib \<Rightarrow> str \<Rightarrow> review_checkout_marker \<Rightarrow> ('s, cli_error, unit) eff" where
  "write_review_checkout_marker A L checkout_path marker =
     e_bind (ignore_review_checkout_marker A checkout_path) (\<lambda>_.
     (let marker_path = path_join checkout_path REVIEW_CHECKOUT_MARKER in
      e_bind (e_lift (map_err Bail (to_vec_pretty L (review_checkout_marker_json marker)))) (\<lambda>b.
        ctx (''failed to write checkout marker `'' @ marker_path @ ''`'') (a_write_file A marker_path b))))"

section \<open>The command\<close>

text \<open>Apply the diff and write the marker; on an error the new worktree is removed again.\<close>

definition fill_checkout ::
    "'s api \<Rightarrow> lib \<Rightarrow> str \<Rightarrow> str \<Rightarrow> prepared_patch \<Rightarrow> agent_attempt \<Rightarrow> resolved_patch_diff \<Rightarrow> str \<Rightarrow> ('s, cli_error, unit) eff" where
  "fill_checkout A L repo checkout_path patch attempt resolved patch_file s =
     (case e_bind (git_apply_file A checkout_path patch_file True) (\<lambda>_.
           e_bind (git_apply_file A checkout_path patch_file False) (\<lambda>_.
           e_bind (now_ms A) (\<lambda>now.
             write_review_checkout_marker A L checkout_path
               \<lparr>mk_patch_id = pp_patch_id patch, mk_attempt_id = att_attempt_id attempt,
                mk_base_commit = att_base_commit attempt, mk_diff_hash = rd_diff_hash resolved, mk_created_at_ms = now\<rparr>))) s of
        (Inr _, s') \<Rightarrow> (Inr (), s')
      | (Inl e, s') \<Rightarrow> (Inl e, snd (remove_review_worktree A repo checkout_path s')))"

definition patch_checkout :: "'s api \<Rightarrow> lib \<Rightarrow> patch_checkout_input \<Rightarrow> ('s, cli_error, patch_checkout_report) eff" where
  "patch_checkout A L input =
     e_bind (find_patch A L (pci_repo input) (pci_patch_id input)) (\<lambda>found.
     (let patch = en_value found in
      e_bind (attempt_of_patch A L (pci_repo input) patch) (\<lambda>attempt.
      e_bind (head_of_patch A L (pci_repo input) (pci_allow_base_drift input) patch) (\<lambda>head_commit.
      e_bind (diff_to A L ''check out'' (pci_repo input) patch attempt) (\<lambda>resolved.
      e_bind (review_checkout_path A L (pci_repo input) (pp_patch_id patch) (pci_path input)) (\<lambda>checkout_path.
      e_bind (prepare_review_checkout_path A L (pci_repo input) checkout_path (pp_patch_id patch) (pci_force input)) (\<lambda>replaced.
      e_bind (add_review_worktree A (pci_repo input) checkout_path (pp_base_commit patch)) (\<lambda>_.
      e_bind (temp_patch_file A L (pci_repo input) (pp_patch_id patch) (rd_raw_diff resolved)) (\<lambda>patch_file.
      dropping (a_remove_file A patch_file)
        (e_bind (fill_checkout A L (pci_repo input) checkout_path patch attempt resolved patch_file) (\<lambda>_.
           e_ret \<lparr>pcr_patch_id = pp_patch_id patch, pcr_attempt_id = att_attempt_id attempt,
                  pcr_base_commit = att_base_commit attempt, pcr_head_commit = head_commit,
                  pcr_checkout_path = checkout_path, pcr_applied = True, pcr_diff_hash = rd_diff_hash resolved,
                  pcr_diff_bytes = rd_diff_bytes resolved, pcr_file_count = length (rd_file_paths resolved),
                  pcr_file_paths = rd_file_paths resolved, pcr_replaced = replaced\<rparr>)))))))))))"

end
