(* ===== verification/Cli_Sync.thy ===== *)
theory Cli_Sync
  imports Cli_Checkout
begin

text \<open>
  The sync and status commands of \<^verbatim>\<open>crates/rickydata-git-cli/src/main.rs\<close>: listing the references of the
  two sides, comparing them, running git to exchange them, verifying every object and every patch of the
  store, and the status of a repository.
\<close>

section \<open>References\<close>

definition local_rickydata_refs :: "'s api \<Rightarrow> str \<Rightarrow> ('s, cli_error, (str \<times> str) list) eff" where
  "local_rickydata_refs A repo =
     e_bind (run_git A (git_in repo [''for-each-ref'', ''--format=%(objectname)%09%(refname)'', ''refs/rickydata''])
              ''failed to execute git for-each-ref'' ''git for-each-ref refs/rickydata'') (\<lambda>out.
       e_lift (parse_ref_lines out))"

definition remote_rickydata_refs :: "'s api \<Rightarrow> str \<Rightarrow> str \<Rightarrow> ('s, cli_error, (str \<times> str) list) eff" where
  "remote_rickydata_refs A repo remote_name =
     e_bind (run_git A (git_in repo [''ls-remote'', remote_name, ''refs/rickydata/*''])
              ''failed to execute git ls-remote'' (''git ls-remote '' @ remote_name @ '' refs/rickydata/*'')) (\<lambda>out.
       e_lift (parse_ref_lines out))"

record sync_input =
  sy_repo :: str
  sy_remote :: str

definition build_sync_status :: "'s api \<Rightarrow> lib \<Rightarrow> sync_input \<Rightarrow> ('s, cli_error, sync_status_report) eff" where
  "build_sync_status A L input =
     e_bind (local_rickydata_refs A (sy_repo input)) (\<lambda>local_refs.
     e_bind (remote_rickydata_refs A (sy_repo input) (sy_remote input)) (\<lambda>remote_refs.
       e_lift (sync_status_of L (sy_remote input) local_refs remote_refs)))"

section \<open>Exchanging references\<close>

record sync_report =
  sn_status :: str
  sn_direction :: str
  sn_remote :: str
  sn_refspec :: str
  sn_stdout_hash :: str
  sn_stderr_hash :: str
  sn_stdout_bytes :: u64
  sn_stderr_bytes :: u64
  sn_signed_ref_expectations :: "signed_ref_expectation list"

text \<open>\<^verbatim>\<open>{:?}\<close> of an optional exit code.\<close>

definition code_debug :: "32 word option \<Rightarrow> str" where
  "code_debug c = (case c of None \<Rightarrow> ''None''
     | Some n \<Rightarrow> ''Some('' @ (if sint n < 0 then ''-'' @ show_nat (nat (- sint n)) else show_nat (nat (sint n))) @ '')'')"

definition sync_refs ::
    "'s api \<Rightarrow> lib \<Rightarrow> str \<Rightarrow> str \<Rightarrow> sync_input \<Rightarrow> signed_ref_expectation list \<Rightarrow> ('s, cli_error, sync_report) eff" where
  "sync_refs A L direction git_subcommand input signed_ref_expectations =
     e_bind (ctx (''failed to execute git '' @ git_subcommand)
              (a_spawn A (git_in (sy_repo input) [git_subcommand, sy_remote input, RICKYDATA_REFSPEC]))) (\<lambda>out.
     e_bind (ensure (po_success out) (''git '' @ git_subcommand @ '' '' @ sy_remote input @ '' '' @ RICKYDATA_REFSPEC @
               '' failed with exit code '' @ code_debug (po_code out))) (\<lambda>_.
       e_ret \<lparr>sn_status = ''ok'', sn_direction = direction, sn_remote = sy_remote input, sn_refspec = RICKYDATA_REFSPEC,
              sn_stdout_hash = bytes_hash L (po_stdout out), sn_stderr_hash = bytes_hash L (po_stderr out),
              sn_stdout_bytes = of_nat (length (po_stdout out)), sn_stderr_bytes = of_nat (length (po_stderr out)),
              sn_signed_ref_expectations = signed_ref_expectations\<rparr>))"

text \<open>One expectation per reference, in the order of the names: it should stay where it is.\<close>

definition build_signed_ref_expectations ::
    "'s api \<Rightarrow> lib \<Rightarrow> str \<Rightarrow> bytes \<Rightarrow> str option \<Rightarrow> ('s, cli_error, signed_ref_expectation list) eff" where
  "build_signed_ref_expectations A L repo signing_key signer_label =
     e_bind (local_rickydata_refs A repo)
       (e_map (\<lambda>(ref_name, oid). e_lift (core_bail (sign_ref_expectation L ref_name (Some oid) oid signing_key signer_label))))"

definition sync_pull :: "'s api \<Rightarrow> lib \<Rightarrow> signing_key_args \<Rightarrow> sync_input \<Rightarrow> ('s, cli_error, sync_report) eff" where
  "sync_pull A L keys input =
     e_bind (resolve_signing_key A L keys None) (\<lambda>_. sync_refs A L ''pull'' ''fetch'' input [])"

definition sync_push :: "'s api \<Rightarrow> lib \<Rightarrow> signing_key_args \<Rightarrow> sync_input \<Rightarrow> ('s, cli_error, sync_report) eff" where
  "sync_push A L keys input =
     e_bind (resolve_signing_key A L keys None) (\<lambda>signing.
     e_bind (case signing of Some (key, label) \<Rightarrow> build_signed_ref_expectations A L (sy_repo input) key label
             | None \<Rightarrow> e_ret []) (\<lambda>expectations.
       sync_refs A L ''push'' ''push'' input expectations))"

section \<open>Verifying the store\<close>

record sync_verify_object_diagnostic =
  vo_object_id :: str
  vo_ref_name :: str
  vo_valid :: bool
  vo_source :: str
  vo_diagnostics :: "str list"

record sync_verify_patch_diagnostic =
  vp_patch_id :: str
  vp_attempt_id :: str
  vp_valid :: bool
  vp_diff_object_ids :: "str list"
  vp_diagnostics :: "str list"

record sync_verify_report =
  sv_status :: str
  sv_object_count :: nat
  sv_valid_object_count :: nat
  sv_recoverable_object_count :: nat
  sv_invalid_objects :: "sync_verify_object_diagnostic list"
  sv_patch_count :: nat
  sv_valid_patch_count :: nat
  sv_retired_patch_count :: nat
  sv_invalid_patches :: "sync_verify_patch_diagnostic list"
  sv_signed_object_count :: nat
  sv_valid_signature_count :: nat

fun object_read_source_name :: "object_read_source \<Rightarrow> str" where
  "object_read_source_name Cache = ''cache''"
| "object_read_source_name GitRef = ''git_ref''"

definition hard_diagnostics :: "object_diagnostic list \<Rightarrow> str list" where
  "hard_diagnostics ds = map (\<lambda>d. od_code d @ '': '' @ od_message d)
     (filter (\<lambda>d. od_code d \<noteq> ''OBJECT008'' \<and> od_code d \<noteq> ''OBJECT009'') ds)"

text \<open>What the loop learns of one object: its signature counts, and the diagnostic when it is invalid.\<close>

definition verify_entry ::
    "'s api \<Rightarrow> lib \<Rightarrow> str \<Rightarrow> object_list_entry \<Rightarrow>
     ('s, cli_error, object_verify_report \<times> sync_verify_object_diagnostic option) eff" where
  "verify_entry A L repo entry =
     e_bind (e_lift (object_ref_name_from_id (le_object_id entry))) (\<lambda>expected_ref.
     e_bind (gitm L (a_verify A repo (le_object_id entry))) (\<lambda>verify.
     (let diagnostics = (if le_ref_name entry \<noteq> expected_ref
            then [''object ref '' @ le_ref_name entry @ '' does not match canonical ref '' @ expected_ref] else []) @
            hard_diagnostics (vr_diagnostics verify) in
      e_ret (verify, if vr_valid verify \<and> diagnostics = [] then None
        else Some \<lparr>vo_object_id = le_object_id entry, vo_ref_name = le_ref_name entry, vo_valid = False,
               vo_source = object_read_source_name (vr_source verify), vo_diagnostics = diagnostics\<rparr>))))"

definition verify_diff_object :: "'s api \<Rightarrow> lib \<Rightarrow> str \<Rightarrow> str \<Rightarrow> ('s, cli_error, str list) eff" where
  "verify_diff_object A L repo diff_object_id =
     e_bind (gitm L (a_verify A repo diff_object_id)) (\<lambda>verify.
     e_bind (noting (gitm L (a_read A repo diff_object_id))) (\<lambda>report.
       e_ret (map (\<lambda>d. ''diff object '' @ diff_object_id @ '' '' @ od_code d @ '': '' @ od_message d) (vr_diagnostics verify) @
         (case report of
            Inr rep \<Rightarrow> (if co_kind (rr_object rep) = ''agent.patch_diff'' then []
              else [''diff object '' @ diff_object_id @ '' is kind `'' @ co_kind (rr_object rep) @ ''`, expected `agent.patch_diff`''])
          | Inl t \<Rightarrow> [''diff object '' @ diff_object_id @ '' is not readable: '' @ t]))))"

definition verify_patch :: "'s api \<Rightarrow> lib \<Rightarrow> str \<Rightarrow> prepared_patch \<Rightarrow> ('s, cli_error, sync_verify_patch_diagnostic option) eff" where
  "verify_patch A L repo patch =
     e_bind (e_map (verify_diff_object A L repo) (pp_diff_object_ids patch)) (\<lambda>diff_notes.
     e_bind (noting (find_attempt A L repo (pp_attempt_id patch))) (\<lambda>attempt.
     e_bind (case attempt of
               Inl t \<Rightarrow> e_ret [''attempt '' @ pp_attempt_id patch @ '' is not readable: '' @ t]
             | Inr a \<Rightarrow> e_bind (noting (resolve_patch_diff A L repo patch a)) (\<lambda>r.
                 e_ret (noted ''patch diff evidence is invalid: '' r))) (\<lambda>attempt_notes.
     (let diagnostics = (if pp_diff_object_ids patch = [] then [''prepared patch has no diff_object_ids''] else []) @
            concat diff_notes @ attempt_notes in
      e_ret (if diagnostics = [] then None
        else Some \<lparr>vp_patch_id = pp_patch_id patch, vp_attempt_id = pp_attempt_id patch, vp_valid = False,
               vp_diff_object_ids = pp_diff_object_ids patch, vp_diagnostics = diagnostics\<rparr>)))))"

definition somes :: "'a option list \<Rightarrow> 'a list" where
  "somes xs = concat (map (\<lambda>x. case x of Some y \<Rightarrow> [y] | None \<Rightarrow> []) xs)"

definition build_sync_verify :: "'s api \<Rightarrow> lib \<Rightarrow> str \<Rightarrow> ('s, cli_error, sync_verify_report) eff" where
  "build_sync_verify A L repo =
     e_bind (gitm L (a_list A repo None)) (\<lambda>listed.
     e_bind (e_map (verify_entry A L repo) listed) (\<lambda>verified.
     e_bind (list_patches A L repo) (\<lambda>patches.
     e_bind (retired_patch_ids A L repo) (\<lambda>retired.
     (let is_retired = (\<lambda>p. pp_patch_id p \<in> set retired); all_patches = map en_value patches;
          invalid_objects = somes (map snd verified) in
      e_bind (e_map (verify_patch A L repo) (filter (Not \<circ> is_retired) all_patches)) (\<lambda>checked.
      (let invalid_patches = somes checked; valid_patch_count = length (filter (\<lambda>c. c = None) checked);
           retired_patch_count = length (filter is_retired all_patches) in
       e_ret \<lparr>sv_status = (if invalid_objects = [] \<and> invalid_patches = [] then ''ok'' else ''failed''),
              sv_object_count = length listed,
              sv_valid_object_count = length (filter (\<lambda>v. snd v = None) verified),
              sv_recoverable_object_count = length (filter (\<lambda>v. snd v = None) verified),
              sv_invalid_objects = invalid_objects,
              sv_patch_count = valid_patch_count + retired_patch_count + length invalid_patches,
              sv_valid_patch_count = valid_patch_count, sv_retired_patch_count = retired_patch_count,
              sv_invalid_patches = invalid_patches,
              sv_signed_object_count = length (filter (\<lambda>v. 0 < vr_signature_count (fst v)) verified),
              sv_valid_signature_count = sum_list (map (\<lambda>v. unat (vr_valid_signature_count (fst v))) verified)\<rparr>)))))))"

section \<open>The status of a repository\<close>

record repo_data_locations =
  dl_metadata_dir :: "str option"
  dl_object_cache_dir :: "str option"
  dl_bundle_dir :: "str option"
  dl_temp_dir :: "str option"
  dl_attempt_worktrees_dir :: "str option"
  dl_review_worktrees_dir :: "str option"
  dl_refs_dir :: "str option"
  dl_object_ref_prefix :: str
  dl_refspec :: str

definition repo_data_locations :: "repo_inspection \<Rightarrow> repo_data_locations" where
  "repo_data_locations inspection =
     (let under = (\<lambda>parts. map_option (\<lambda>d. foldl path_join (path_text d) parts) (ri_git_dir inspection)) in
      \<lparr>dl_metadata_dir = under [''rickydata''],
       dl_object_cache_dir = under [''rickydata'', ''cache'', ''objects'', ''sha256''],
       dl_bundle_dir = under [''rickydata'', ''cache'', ''bundles''],
       dl_temp_dir = under [''rickydata'', ''tmp''],
       dl_attempt_worktrees_dir = under [''rickydata'', ''worktrees''],
       dl_review_worktrees_dir = under [''rickydata'', ''reviews''],
       dl_refs_dir = under [''refs'', ''rickydata''],
       dl_object_ref_prefix = ''refs/rickydata/objects/sha256/'', dl_refspec = RICKYDATA_REFSPEC\<rparr>)"

record repo_store_status =
  st_initialized :: bool
  st_store_version :: "str option"
  st_version_path :: "str option"
  st_diagnostics :: "str list"

text \<open>An unreadable version file is a diagnostic of the report, not an error of the command.\<close>

definition repo_store_status :: "'s api \<Rightarrow> repo_inspection \<Rightarrow> ('s, cli_error, repo_store_status) eff" where
  "repo_store_status A inspection s = (case ri_git_dir inspection of
     None \<Rightarrow> (Inr \<lparr>st_initialized = False, st_store_version = None, st_version_path = None,
         st_diagnostics = [''path is not inside a Git repository'']\<rparr>, s)
   | Some d \<Rightarrow>
       (let metadata_dir = path_join (path_text d) ''rickydata''; version_path = path_join metadata_dir ''VERSION'' in
        if \<not> a_exists A s version_path
        then (Inr \<lparr>st_initialized = False, st_store_version = None, st_version_path = Some version_path,
           st_diagnostics = [''Rickydata store is not initialized; run `rickygit init --repo <path> --json`'']\<rparr>, s)
        else (case read_text A version_path s of
          (Inr contents, s') \<Rightarrow>
            (let found = trim contents; version_matches = (found = RICKYDATA_STORE_VERSION);
                 temp_dir = path_join metadata_dir ''tmp''; temp_dir_exists = a_is_dir A s' temp_dir in
             (Inr \<lparr>st_initialized = (version_matches \<and> temp_dir_exists), st_store_version = Some found,
                st_version_path = Some version_path,
                st_diagnostics =
                  (if version_matches then []
                   else [''unsupported store version `'' @ found @ ''`; expected `'' @ RICKYDATA_STORE_VERSION @ ''`'']) @
                  (if temp_dir_exists then [] else [''Rickydata temp directory is missing at '' @ temp_dir])\<rparr>, s'))
        | (Inl e, s') \<Rightarrow>
            (Inr \<lparr>st_initialized = False, st_store_version = None, st_version_path = Some version_path,
               st_diagnostics = [''failed to read store version: '' @ e]\<rparr>, s'))))"

definition repo_status_value ::
    "repo_inspection \<Rightarrow> repo_store_status \<Rightarrow> sync_verify_report option \<Rightarrow> sync_status_report option \<Rightarrow> str" where
  "repo_status_value inspection store verify sync =
     (if \<not> ri_is_git_repo inspection then ''not_git''
      else if \<not> st_initialized store then ''not_initialized''
      else if (\<exists>r. verify = Some r \<and> sv_status r \<noteq> ''ok'') then ''failed''
      else if (\<exists>r. sync = Some r \<and> (ss_local_only_refs r \<noteq> [] \<or> ss_remote_only_refs r \<noteq> [] \<or> ss_divergent_refs r \<noteq> []))
      then ''out_of_sync'' else ''ok'')"

record repo_status_report =
  ros_status :: str
  ros_inspection :: repo_inspection
  ros_data_locations :: repo_data_locations
  ros_store :: repo_store_status
  ros_verify :: "sync_verify_report option"
  ros_sync :: "sync_status_report option"

definition repo_status :: "'s api \<Rightarrow> lib \<Rightarrow> str \<Rightarrow> str option \<Rightarrow> ('s, cli_error, repo_status_report) eff" where
  "repo_status A L repo remote_name =
     e_bind (gitm L (a_inspect A repo)) (\<lambda>inspection.
     e_bind (repo_store_status A inspection) (\<lambda>store.
     e_bind (if st_initialized store then e_bind (build_sync_verify A L repo) (\<lambda>v. e_ret (Some v)) else e_ret None) (\<lambda>verify.
     e_bind (case (st_initialized store, remote_name) of
               (True, Some r) \<Rightarrow> e_bind (build_sync_status A L \<lparr>sy_repo = repo, sy_remote = r\<rparr>) (\<lambda>v. e_ret (Some v))
             | _ \<Rightarrow> e_ret None) (\<lambda>sync.
       e_ret \<lparr>ros_status = repo_status_value inspection store verify sync, ros_inspection = inspection,
              ros_data_locations = repo_data_locations inspection, ros_store = store, ros_verify = verify, ros_sync = sync\<rparr>))))"

end
