(* ===== verification/Cli_Relay.thy ===== *)
theory Cli_Relay
  imports Cli_Sync Relay_Policy
begin

text \<open>
  The relay client of \<^verbatim>\<open>crates/rickydata-git-cli/src/main.rs\<close>: pushing the objects of the store in chunks,
  pulling the objects the store lacks, and comparing the counts.  The HTTP exchange is \<open>a_http\<close>.
\<close>

section \<open>The wire forms\<close>

definition push_request_json :: "bundle_push_request \<Rightarrow> json" where
  "push_request_json q = json_obj [(''repo_id'', jstr (bq_repo_id q)), (''idempotency_key'', jstr (bq_idempotency_key q)),
     (''objects'', jlist object_json (bq_objects q))]"

definition push_request_of_json :: "json \<Rightarrow> bundle_push_request option" where
  "push_request_of_json v = do {
     r \<leftarrow> field d_str ''repo_id'' v;
     k \<leftarrow> field d_str ''idempotency_key'' v;
     os \<leftarrow> field (d_list object_of_json) ''objects'' v;
     Some \<lparr>bq_repo_id = r, bq_idempotency_key = k, bq_objects = os\<rparr> }"

definition pull_request_json :: "bundle_pull_request \<Rightarrow> json" where
  "pull_request_json q = json_obj [(''repo_id'', jstr (lq_repo_id q)), (''known_object_ids'', jstrs (lq_known_object_ids q)),
     (''limit'', jopt ju64 (lq_limit q))]"

definition pull_request_of_json :: "json \<Rightarrow> bundle_pull_request option" where
  "pull_request_of_json v = do {
     r \<leftarrow> field d_str ''repo_id'' v;
     k \<leftarrow> field_default [] (d_list d_str) ''known_object_ids'' v;
     l \<leftarrow> field_opt d_u64 ''limit'' v;
     Some \<lparr>lq_repo_id = r, lq_known_object_ids = k, lq_limit = l\<rparr> }"

definition pull_report_json :: "bundle_pull_report \<Rightarrow> json" where
  "pull_report_json r = json_obj [(''status'', jstr (lp_status r)), (''repo_id'', jstr (lp_repo_id r)),
     (''object_count'', ju64 (lp_object_count r)), (''remaining_object_count'', ju64 (lp_remaining_object_count r)),
     (''objects'', jlist object_json (lp_objects r))]"

definition pull_report_of_json :: "json \<Rightarrow> bundle_pull_report option" where
  "pull_report_of_json v = do {
     s \<leftarrow> field d_str ''status'' v;
     r \<leftarrow> field d_str ''repo_id'' v;
     n \<leftarrow> field d_u64 ''object_count'' v;
     m \<leftarrow> field d_u64 ''remaining_object_count'' v;
     os \<leftarrow> field (d_list object_of_json) ''objects'' v;
     Some \<lparr>lp_status = s, lp_repo_id = r, lp_object_count = n, lp_remaining_object_count = m, lp_objects = os\<rparr> }"

definition status_report_of_json :: "json \<Rightarrow> repo_relay_status_report option" where
  "status_report_of_json v = do {
     s \<leftarrow> field d_str ''status'' v;
     r \<leftarrow> field d_str ''repo_id'' v;
     n \<leftarrow> field d_u64 ''object_count'' v;
     h \<leftarrow> field d_str ''object_ids_hash'' v;
     Some \<lparr>rs_status = s, rs_repo_id = r, rs_object_count = n, rs_object_ids_hash = h\<rparr> }"

section \<open>One exchange\<close>

text \<open>\<^verbatim>\<open>file_name\<close> of the last component, none for the root, \<^verbatim>\<open>.\<close> and \<^verbatim>\<open>..\<close>.\<close>

definition file_name_of :: "str \<Rightarrow> str option" where
  "file_name_of path = (let cs = filter (\<lambda>c. c \<notin> {[], ''.''}) (split_on CHR ''/'' path) in
     if cs = [] \<or> last cs = ''..'' then None else Some (last cs))"

definition relay_repo_id :: "'s api \<Rightarrow> lib \<Rightarrow> str \<Rightarrow> str option \<Rightarrow> ('s, cli_error, str) eff" where
  "relay_repo_id A L repo requested =
     e_bind (case requested of Some v \<Rightarrow> e_ret v
       | None \<Rightarrow>
           e_bind (gitm L (a_inspect A repo)) (\<lambda>inspection.
             some_or ''failed to derive relay repo id from repository path''
               (file_name_of (case ri_root_path inspection of Some p \<Rightarrow> path_text p | None \<Rightarrow> repo)))) (\<lambda>repo_id.
     e_bind (e_lift (ensure_safe_repo_id repo_id)) (\<lambda>_. e_ret repo_id))"

text \<open>An empty token counts as none.\<close>

definition relay_auth_token :: "(str \<Rightarrow> str option) \<Rightarrow> str option \<Rightarrow> str option" where
  "relay_auth_token env explicit =
     (case (case explicit of Some t \<Rightarrow> Some t | None \<Rightarrow> env ''RICKYDATA_RELAY_AUTH_TOKEN'') of
        Some t \<Rightarrow> if t = [] then None else Some t | None \<Rightarrow> None)"

text \<open>Send with the token when there is one, refuse an error status, parse the body.\<close>

definition relay_exchange ::
    "'s api \<Rightarrow> lib \<Rightarrow> (json \<Rightarrow> 'a option) \<Rightarrow> str \<Rightarrow> str \<Rightarrow> str option \<Rightarrow> json option \<Rightarrow> str \<times> str \<times> str \<Rightarrow> ('s, cli_error, 'a) eff" where
  "relay_exchange A L d method url auth_token body what s =
     (case what of (sending, rejected, parsing) \<Rightarrow>
      e_bind (ctx sending (a_http A \<lparr>hq_method = method, hq_url = url,
                hq_bearer = relay_auth_token (a_env A s) auth_token, hq_body = body\<rparr>)) (\<lambda>resp.
      e_bind (ensure (\<not> (400 \<le> hr_status resp \<and> hr_status resp < 600)) rejected) (\<lambda>_.
        ctx parsing (e_lift (parse_as L d (hr_body resp)))))) s"

section \<open>Push\<close>

text \<open>\<^verbatim>\<open>slice::chunks\<close>, for a positive size.\<close>

function chunks_of :: "nat \<Rightarrow> 'a list \<Rightarrow> 'a list list" where
  "chunks_of n xs = (if n = 0 \<or> xs = [] then [] else take n xs # chunks_of n (drop n xs))"
  by pat_completeness auto
termination
  by (relation "measure (length \<circ> snd)") auto

declare chunks_of.simps [simp del]

text \<open>\<^verbatim>\<open>{:04}\<close>.\<close>

definition pad4 :: "nat \<Rightarrow> str" where
  "pad4 n = (let d = show_nat n in replicate (4 - length d) CHR ''0'' @ d)"

definition chunk_key :: "str \<Rightarrow> nat \<Rightarrow> nat \<Rightarrow> str" where
  "chunk_key idempotency_key chunk_count index =
     (if chunk_count = 1 then idempotency_key
      else idempotency_key @ '':chunk:'' @ pad4 (index + 1) @ ''-of-'' @ pad4 chunk_count)"

definition chunk_requests :: "str \<Rightarrow> str \<Rightarrow> nat \<Rightarrow> canonical_object list \<Rightarrow> bundle_push_request list" where
  "chunk_requests repo_id idempotency_key chunk_size objects =
     (let size = max chunk_size 1; chunk_count = max ((length objects + size - 1) div size) 1 in
      map (\<lambda>(index, chunk). \<lparr>bq_repo_id = repo_id, bq_idempotency_key = chunk_key idempotency_key chunk_count index,
             bq_objects = chunk\<rparr>) (enumerate 0 (chunks_of size objects)))"

definition push_chunk :: "'s api \<Rightarrow> lib \<Rightarrow> str \<Rightarrow> str option \<Rightarrow> bundle_push_request \<Rightarrow> ('s, cli_error, bundle_push_report) eff" where
  "push_chunk A L base_url auth_token request =
     e_bind (e_lift (relay_url base_url (bq_repo_id request) ''bundles/push'')) (\<lambda>url.
       relay_exchange A L push_report_of_json ''POST'' url auth_token (Some (push_request_json request))
         (''failed to push bundle to relay'', ''relay rejected bundle push'', ''failed to parse relay bundle push response''))"

record relay_push_args =
  rp_repo :: str
  rp_url :: str
  rp_repo_id :: "str option"
  rp_idempotency_key :: "str option"
  rp_chunk_size :: nat
  rp_auth_token :: "str option"

definition read_objects :: "'s api \<Rightarrow> lib \<Rightarrow> str \<Rightarrow> ('s, cli_error, canonical_object list) eff" where
  "read_objects A L repo =
     e_bind (gitm L (a_list A repo None))
       (e_map (\<lambda>entry. e_bind (gitm L (a_read A repo (le_object_id entry))) (\<lambda>report. e_ret (rr_object report))))"

definition relay_push :: "'s api \<Rightarrow> lib \<Rightarrow> relay_push_args \<Rightarrow> ('s, cli_error, bundle_push_report) eff" where
  "relay_push A L args =
     e_bind (relay_repo_id A L (rp_repo args) (rp_repo_id args)) (\<lambda>repo_id.
     e_bind (read_objects A L (rp_repo args)) (\<lambda>objects.
     (let object_ids = map co_object_id objects in
      e_bind (case rp_idempotency_key args of Some v \<Rightarrow> e_ret v
        | None \<Rightarrow> e_lift (core_bail (stable_json_hash L
            (json_obj [(''repo_id'', jstr repo_id), (''object_ids'', jstrs object_ids)])))) (\<lambda>idempotency_key.
      e_bind (e_map (push_chunk A L (rp_url args) (rp_auth_token args))
               (chunk_requests repo_id idempotency_key (rp_chunk_size args) objects)) (\<lambda>reports.
      e_bind (e_lift (core_bail (stable_json_hash L (json_obj [(''object_ids'', jstrs object_ids)])))) (\<lambda>hash.
        e_ret \<lparr>bp_status = ''ok'', bp_repo_id = repo_id, bp_idempotency_key = idempotency_key,
               bp_accepted_object_count = sum_list (map bp_accepted_object_count reports),
               bp_duplicate_object_count = sum_list (map bp_duplicate_object_count reports),
               bp_object_ids = concat (map bp_object_ids reports), bp_bundle_hash = hash\<rparr>))))))"

section \<open>Pull and status\<close>

record relay_pull_cli_report =
  pl_status :: str
  pl_repo_id :: str
  pl_object_count :: u64
  pl_remaining_object_count :: u64
  pl_written_object_count :: nat
  pl_duplicate_object_count :: nat
  pl_object_ids :: "str list"

record relay_pull_args =
  rl_repo :: str
  rl_url :: str
  rl_repo_id :: "str option"
  rl_limit :: "u64 option"
  rl_auth_token :: "str option"

definition relay_pull :: "'s api \<Rightarrow> lib \<Rightarrow> relay_pull_args \<Rightarrow> ('s, cli_error, relay_pull_cli_report) eff" where
  "relay_pull A L args =
     e_bind (relay_repo_id A L (rl_repo args) (rl_repo_id args)) (\<lambda>repo_id.
     e_bind (gitm L (a_list A (rl_repo args) None)) (\<lambda>known.
     e_bind (e_lift (relay_url (rl_url args) repo_id ''bundles/pull'')) (\<lambda>url.
     e_bind (relay_exchange A L pull_report_of_json ''POST'' url (rl_auth_token args)
               (Some (pull_request_json \<lparr>lq_repo_id = repo_id, lq_known_object_ids = map le_object_id known, lq_limit = rl_limit args\<rparr>))
               (''failed to pull bundle from relay'', ''relay rejected bundle pull'', ''failed to parse relay bundle pull response''))
       (\<lambda>report.
     e_bind (e_map (\<lambda>obj. gitm L (a_write_canonical A (rl_repo args) obj)) (lp_objects report)) (\<lambda>writes.
       e_ret \<lparr>pl_status = lp_status report, pl_repo_id = lp_repo_id report, pl_object_count = lp_object_count report,
              pl_remaining_object_count = lp_remaining_object_count report,
              pl_written_object_count = length (filter (\<lambda>w. wr_status w = Written) writes),
              pl_duplicate_object_count = length (filter (\<lambda>w. wr_status w = AlreadyExists) writes),
              pl_object_ids = map co_object_id (lp_objects report)\<rparr>)))))"

record relay_status_cli_report =
  rc_status :: str
  rc_repo_id :: str
  rc_local_object_count :: nat
  rc_relay_object_count :: u64
  rc_relay_object_ids_hash :: str

definition build_relay_status ::
    "'s api \<Rightarrow> lib \<Rightarrow> str \<Rightarrow> str \<Rightarrow> str \<Rightarrow> str option \<Rightarrow> ('s, cli_error, relay_status_cli_report) eff" where
  "build_relay_status A L repo base_url repo_id auth_token =
     e_bind (gitm L (a_list A repo None)) (\<lambda>listed.
     e_bind (e_lift (relay_url base_url repo_id ''status'')) (\<lambda>url.
     e_bind (relay_exchange A L status_report_of_json ''GET'' url auth_token None
               (''failed to fetch relay status'', ''relay rejected status request'', ''failed to parse relay status response''))
       (\<lambda>report.
       e_ret \<lparr>rc_status = (if length listed = unat (rs_object_count report) then ''ok'' else ''out_of_sync''),
              rc_repo_id = rs_repo_id report, rc_local_object_count = length listed,
              rc_relay_object_count = rs_object_count report, rc_relay_object_ids_hash = rs_object_ids_hash report\<rparr>)))"

end
