(* ===== verification/Cli_Notes.thy ===== *)
theory Cli_Notes
  imports Cli_Checkout
begin

text \<open>
  The note and intent commands of \<^verbatim>\<open>crates/rickydata-git-cli/src/main.rs\<close>: notes between agents are
  objects of the ledger; what an agent has read is a marker file per agent, a time stamp.
\<close>

section \<open>Notes\<close>

record note_entry =
  ne_object_id :: str
  ne_ref_name :: str
  ne_git_object_id :: str
  ne_signature_count :: nat
  ne_note :: agent_note

record note_send_report =
  ns_status :: str
  ns_valid :: bool
  ns_diagnostics :: "intent_diagnostic list"
  ns_note :: agent_note
  ns_object :: "object_write_report option"

record note_inbox_report =
  ni_agent :: str
  ni_count :: nat
  ni_read_marker_ms :: u64
  ni_marker_advanced :: bool
  ni_notes :: "note_entry list"

definition read_note :: "'s api \<Rightarrow> lib \<Rightarrow> str \<Rightarrow> object_list_entry \<Rightarrow> ('s, cli_error, note_entry) eff" where
  "read_note A L repo entry =
     e_bind (gitm L (a_read A repo (le_object_id entry))) (\<lambda>report.
     e_bind (decode L agent_note_of_json (co_body (rr_object report))) (\<lambda>note.
       e_ret \<lparr>ne_object_id = le_object_id entry, ne_ref_name = le_ref_name entry,
              ne_git_object_id = le_git_object_id entry, ne_signature_count = length (co_signatures (rr_object report)),
              ne_note = note\<rparr>))"

definition list_notes :: "'s api \<Rightarrow> lib \<Rightarrow> str \<Rightarrow> ('s, cli_error, note_entry list) eff" where
  "list_notes A L repo =
     e_bind (gitm L (a_list A repo (Some ''agent.note''))) (\<lambda>listed.
     e_bind (e_map (read_note A L repo) listed) (\<lambda>notes.
       e_ret (sort_key (\<lambda>e. (note_created_at_ms (ne_note e), ne_object_id e)) notes)))"

definition note_send :: "'s api \<Rightarrow> lib \<Rightarrow> signing_key_args \<Rightarrow> str \<Rightarrow> agent_note \<Rightarrow> ('s, cli_error, note_send_report) eff" where
  "note_send A L keys repo draft =
     e_bind (resolve_signing_key A L keys (Some (note_from draft))) (\<lambda>signing.
     e_bind (now_ms A) (\<lambda>now.
     (let note = draft\<lparr>note_created_at_ms := now\<rparr>; diagnostics = validate_agent_note note in
      if diagnostics \<noteq> []
      then e_ret \<lparr>ns_status = ''invalid'', ns_valid = False, ns_diagnostics = diagnostics, ns_note = note, ns_object = None\<rparr>
      else e_bind (write_signed_or_cached A L repo ''agent.note'' (agent_note_json note) signing) (\<lambda>object.
        e_ret \<lparr>ns_status = ''ok'', ns_valid = True, ns_diagnostics = diagnostics, ns_note = note, ns_object = Some object\<rparr>))))"

section \<open>The inbox\<close>

definition note_state_path :: "'s api \<Rightarrow> lib \<Rightarrow> str \<Rightarrow> str \<Rightarrow> ('s, cli_error, str) eff" where
  "note_state_path A L repo agent =
     e_bind (gitm L (a_inspect A repo)) (\<lambda>inspection.
     e_bind (some_or ''repository has no .git directory; run `rickygit init` first'' (ri_git_dir inspection)) (\<lambda>git_dir.
       e_ret (foldl path_join (path_text git_dir)
         [''rickydata'', ''notes'', ''state'', sanitize_agent_filename agent @ ''.json''])))"

definition marker_of_json :: "json \<Rightarrow> u64 option" where
  "marker_of_json v = field d_u64 ''last_read_ms'' v"

definition marker_json :: "u64 \<Rightarrow> json" where
  "marker_json n = json_obj [(''last_read_ms'', ju64 n)]"

text \<open>Whatever is wrong with the marker file, the marker is zero.\<close>

definition read_note_marker :: "'s api \<Rightarrow> lib \<Rightarrow> str \<Rightarrow> ('s, cli_error, u64) eff" where
  "read_note_marker A L path s = (case a_read_file A path s of
     (Inr b, s') \<Rightarrow> (Inr (case parse_as L marker_of_json b of Inr n \<Rightarrow> n | Inl _ \<Rightarrow> 0), s')
   | (Inl _, s') \<Rightarrow> (Inr 0, s'))"

definition write_note_marker :: "'s api \<Rightarrow> lib \<Rightarrow> str \<Rightarrow> u64 \<Rightarrow> ('s, cli_error, unit) eff" where
  "write_note_marker A L path last_read_ms =
     e_bind (e_when (parent_of path \<noteq> []) (ctx (''failed to create note state dir '' @ parent_of path)
              (a_create_dir_all A (parent_of path)))) (\<lambda>_.
     e_bind (e_lift (map_err Bail (to_vec L (marker_json last_read_ms)))) (\<lambda>b.
       ctx (''failed to write note read marker '' @ path) (a_write_file A path b)))"

record note_inbox_args =
  nx_repo :: str
  nx_agent :: str
  nx_since_ms :: "u64 option"
  nx_all_history :: bool
  nx_include_self :: bool
  nx_peek :: bool

definition addressed :: "str \<Rightarrow> note_entry \<Rightarrow> bool" where
  "addressed agent entry \<longleftrightarrow> note_to (ne_note entry) = agent \<or> note_to (ne_note entry) = ''all''"

definition shown :: "note_inbox_args \<Rightarrow> u64 option \<Rightarrow> note_entry \<Rightarrow> bool" where
  "shown args lower_bound entry \<longleftrightarrow> addressed (nx_agent args) entry \<and>
     (nx_include_self args \<or> note_from (ne_note entry) \<noteq> nx_agent args) \<and>
     (case lower_bound of Some bound \<Rightarrow> bound < note_created_at_ms (ne_note entry) | None \<Rightarrow> True)"

text \<open>The loop over the notes: the newest one addressed to the agent, and those that are shown.\<close>

fun inbox_loop :: "note_inbox_args \<Rightarrow> u64 option \<Rightarrow> u64 \<times> note_entry list \<Rightarrow> note_entry list \<Rightarrow> u64 \<times> note_entry list" where
  "inbox_loop args bound acc [] = acc"
| "inbox_loop args bound (newest, matched) (entry # rest) =
     (if \<not> addressed (nx_agent args) entry then inbox_loop args bound (newest, matched) rest
      else inbox_loop args bound (max newest (note_created_at_ms (ne_note entry)),
             if shown args bound entry then matched @ [entry] else matched) rest)"

definition note_inbox :: "'s api \<Rightarrow> lib \<Rightarrow> note_inbox_args \<Rightarrow> ('s, cli_error, note_inbox_report) eff" where
  "note_inbox A L args =
     e_bind (list_notes A L (nx_repo args)) (\<lambda>all_notes.
     e_bind (note_state_path A L (nx_repo args) (nx_agent args)) (\<lambda>marker_path.
     e_bind (if nx_all_history args then e_ret None
             else (case nx_since_ms args of Some n \<Rightarrow> e_ret (Some n)
               | None \<Rightarrow> e_bind (read_note_marker A L marker_path) (\<lambda>n. e_ret (Some n)))) (\<lambda>lower_bound.
     e_bind (read_note_marker A L marker_path) (\<lambda>marker.
     (case inbox_loop args lower_bound (marker, []) all_notes of (newest_addressed, matched) \<Rightarrow>
      e_bind (e_when (\<not> nx_peek args) (write_note_marker A L marker_path newest_addressed)) (\<lambda>_.
        e_ret \<lparr>ni_agent = nx_agent args, ni_count = length matched, ni_read_marker_ms = newest_addressed,
               ni_marker_advanced = (\<not> nx_peek args), ni_notes = matched\<rparr>))))))"

record note_list_args =
  nl_repo :: str
  nl_from :: "str option"
  nl_to :: "str option"
  nl_thread :: "str option"

definition note_list :: "'s api \<Rightarrow> lib \<Rightarrow> note_list_args \<Rightarrow> ('s, cli_error, note_entry list) eff" where
  "note_list A L args =
     e_bind (list_notes A L (nl_repo args)) (\<lambda>notes.
       e_ret (filter (\<lambda>e. (nl_from args = None \<or> nl_from args = Some (note_from (ne_note e))) \<and>
         (nl_to args = None \<or> nl_to args = Some (note_to (ne_note e))) \<and>
         (nl_thread args = None \<or> nl_thread args = note_thread (ne_note e))) notes))"

section \<open>Intents and objects\<close>

record intent_hash_report =
  ih_object_id :: str
  ih_body_hash :: str
  ih_canonical_hash :: str
  ih_valid :: bool
  ih_diagnostics :: "intent_diagnostic list"

record intent_write_report =
  iw_valid :: bool
  iw_diagnostics :: "intent_diagnostic list"
  iw_object :: "object_write_report option"

record intent_show_report =
  ish_object_id :: str
  ish_source :: object_read_source
  ish_intent :: work_intent
  ish_valid :: bool
  ish_diagnostics :: "intent_diagnostic list"

definition read_intent :: "'s api \<Rightarrow> lib \<Rightarrow> str \<Rightarrow> ('s, cli_error, work_intent) eff" where
  "read_intent A L path =
     e_bind (ctx (''failed to read intent file `'' @ path @ ''`'') (read_text A path)) (\<lambda>contents.
       ctx (''failed to parse intent file `'' @ path @ ''` as JSON'') (e_lift (parse_as L work_intent_of_json (str_bytes contents))))"

definition read_json_value :: "'s api \<Rightarrow> lib \<Rightarrow> str \<Rightarrow> ('s, cli_error, json) eff" where
  "read_json_value A L path =
     e_bind (ctx (''failed to read file `'' @ path @ ''`'') (read_text A path)) (\<lambda>contents.
       ctx (''failed to parse `'' @ path @ ''` as JSON'') (e_lift (from_slice L (str_bytes contents))))"

definition intent_validate :: "'s api \<Rightarrow> lib \<Rightarrow> str \<Rightarrow> ('s, cli_error, bool \<times> intent_diagnostic list) eff" where
  "intent_validate A L intent_file =
     e_bind (read_intent A L intent_file) (\<lambda>intent.
       (let diagnostics = validate_work_intent intent in e_ret (diagnostics = [], diagnostics)))"

definition intent_hash :: "'s api \<Rightarrow> lib \<Rightarrow> str \<Rightarrow> ('s, cli_error, intent_hash_report) eff" where
  "intent_hash A L intent_file =
     e_bind (read_intent A L intent_file) (\<lambda>intent.
     (let diagnostics = validate_work_intent intent; body_value = work_intent_json intent in
      e_bind (e_lift (core_bail (canonical_object_new L ''agent.intent'' DEFAULT_SCHEMA_VERSION 0 body_value))) (\<lambda>object.
      e_bind (e_lift (core_bail (stable_json_hash L body_value))) (\<lambda>hash.
        e_ret \<lparr>ih_object_id = co_object_id object, ih_body_hash = co_body_hash object, ih_canonical_hash = hash,
               ih_valid = (diagnostics = []), ih_diagnostics = diagnostics\<rparr>))))"

definition intent_write :: "'s api \<Rightarrow> lib \<Rightarrow> signing_key_args \<Rightarrow> str \<Rightarrow> str \<Rightarrow> ('s, cli_error, intent_write_report) eff" where
  "intent_write A L keys repo intent_file =
     e_bind (resolve_signing_key A L keys None) (\<lambda>signing.
     e_bind (read_intent A L intent_file) (\<lambda>intent.
     (let diagnostics = validate_work_intent intent in
      if diagnostics \<noteq> [] then e_ret \<lparr>iw_valid = False, iw_diagnostics = diagnostics, iw_object = None\<rparr>
      else e_bind (write_signed_or_cached A L repo ''agent.intent'' (work_intent_json intent) signing) (\<lambda>object.
        e_ret \<lparr>iw_valid = True, iw_diagnostics = diagnostics, iw_object = Some object\<rparr>))))"

definition intent_show :: "'s api \<Rightarrow> lib \<Rightarrow> str \<Rightarrow> str \<Rightarrow> ('s, cli_error, intent_show_report) eff" where
  "intent_show A L repo object_id =
     e_bind (gitm L (a_read A repo object_id)) (\<lambda>report.
     e_bind (ensure (co_kind (rr_object report) = ''agent.intent'')
               (''object '' @ rr_object_id report @ '' is kind `'' @ co_kind (rr_object report) @ ''`, expected `agent.intent`'')) (\<lambda>_.
     e_bind (decode L work_intent_of_json (co_body (rr_object report))) (\<lambda>intent.
     (let diagnostics = validate_work_intent intent in
        e_ret \<lparr>ish_object_id = rr_object_id report, ish_source = rr_source report, ish_intent = intent,
               ish_valid = (diagnostics = []), ish_diagnostics = diagnostics\<rparr>))))"

definition object_write :: "'s api \<Rightarrow> lib \<Rightarrow> signing_key_args \<Rightarrow> str \<Rightarrow> str \<Rightarrow> str \<Rightarrow> ('s, cli_error, object_write_report) eff" where
  "object_write A L keys repo kind body_file =
     e_bind (resolve_signing_key A L keys None) (\<lambda>signing.
     e_bind (read_json_value A L body_file) (\<lambda>body. write_signed_or_cached A L repo kind body signing))"

section \<open>Receipts\<close>

record receipt_verify_report =
  rv_status :: str
  rv_object_id :: str
  rv_has_signatures :: bool
  rv_signature_count :: nat
  rv_tee_reachable :: "bool option"
  rv_tee_production_signing :: "bool option"

text \<open>\<open>tee\<close> is what the TEE health endpoint says, asked for when there is a URL.\<close>

definition receipt_verify ::
    "'s api \<Rightarrow> lib \<Rightarrow> (str \<Rightarrow> ('s, cli_error, bool option \<times> bool option) eff) \<Rightarrow> str \<Rightarrow> str \<Rightarrow> str option \<Rightarrow>
     ('s, cli_error, receipt_verify_report) eff" where
  "receipt_verify A L tee repo object_id tee_url =
     e_bind (gitm L (a_verify A repo object_id)) (\<lambda>verify.
     e_bind (case tee_url of Some url \<Rightarrow> tee url | None \<Rightarrow> e_ret (None, None)) (\<lambda>(reachable, production).
       e_ret \<lparr>rv_status = (if vr_valid verify then ''ok'' else ''failed''), rv_object_id = object_id,
              rv_has_signatures = (0 < vr_signature_count verify), rv_signature_count = unat (vr_signature_count verify),
              rv_tee_reachable = reachable, rv_tee_production_signing = production\<rparr>))"

end
