(* ===== verification/Cli_Commands.thy ===== *)
theory Cli_Commands
  imports Cli_Life Cli_Sync Cli_Relay Cli_Notes
begin

text \<open>
  What the commands do to the ledger: which of them only read, and that those that write take steps of
  \<open>ledger_step\<close>, whatever fails on the way.  The commands are gathered in one datatype, and a session is
  a list of them that stops at the first error.
\<close>

named_theorems quiets \<open>runs that leave the ledger alone\<close>

section \<open>Runs that read\<close>

lemma quiet_state: "(\<And>s. quiet P f (m s)) \<Longrightarrow> quiet P f (\<lambda>s. m s s)"
  unfolding quiet_def by blast

lemma quiet_pair: "(\<And>a b. quiet P f (k a b)) \<Longrightarrow> quiet P f (case x of (a, b) \<Rightarrow> k a b)"
  by (cases x) simp

lemma quiet_option: "quiet P f m \<Longrightarrow> (\<And>y. quiet P f (k y)) \<Longrightarrow> quiet P f (case x of None \<Rightarrow> m | Some y \<Rightarrow> k y)"
  by (cases x) simp_all

lemma quiet_sum: "(\<And>e. quiet P f (m e)) \<Longrightarrow> (\<And>y. quiet P f (k y)) \<Longrightarrow> quiet P f (case x of Inl e \<Rightarrow> m e | Inr y \<Rightarrow> k y)"
  by (cases x) simp_all

lemma quiet_list: "quiet P f m \<Longrightarrow> (\<And>y ys. quiet P f (k y ys)) \<Longrightarrow> quiet P f (case x of [] \<Rightarrow> m | y # ys \<Rightarrow> k y ys)"
  by (cases x) simp_all

lemma quiet_if: "(b \<Longrightarrow> quiet P f m) \<Longrightarrow> (\<not> b \<Longrightarrow> quiet P f n) \<Longrightarrow> quiet P f (if b then m else n)"
  by simp

lemma quiet_let: "(\<And>x. x = e \<Longrightarrow> quiet P f (k x)) \<Longrightarrow> quiet P f (let x = e in k x)"
  by simp

lemma quiet_ctx: "quiet P f m \<Longrightarrow> quiet P f (ctx t m)"
  and quiet_gitm: "quiet P f m' \<Longrightarrow> quiet P f (gitm L m')"
  by simp_all

lemma quiet_noting: "quiet P f m \<Longrightarrow> quiet P f (noting m)"
  unfolding quiet_def noting_def by (auto split: prod.splits sum.splits cli_error.splits)

lemma quiet_dropping:
  assumes "quiet P f c" "quiet P f m"
  shows "quiet P f (dropping c m)"
  unfolding quiet_def
proof (intro allI impI)
  fix s r s' assume P: "P s" and run: "dropping c m s = (r, s')"
  obtain s1 where m: "m s = (r, s1)" "s' = snd (c s1)" using run by (auto simp: dropping_def split: prod.splits)
  obtain r2 where c: "c s1 = (r2, s')" using m(2) by (cases "c s1") simp
  show "P s' \<and> f s' = f s" using quietD [OF assms(2) P m(1)] quietD [OF assms(1) _ c] by simp
qed

lemma quiet_bind_lift: "(\<And>x. r = Inr x \<Longrightarrow> quiet P f (k x)) \<Longrightarrow> quiet P f (e_bind (e_lift r) k)"
  by (cases r) (auto simp: quiet_def eff_simps)

text \<open>A run that looks at the state first.\<close>

lemma quiet_fun: "(\<And>s. \<exists>m. quiet P f m \<and> F s = m s) \<Longrightarrow> quiet P f F"
  unfolding quiet_def by metis

lemma quiet_now_or_zero: "quiet P f (now_ms A) \<Longrightarrow> quiet P f (now_or_zero A)"
  unfolding quiet_def now_or_zero_def by (auto split: prod.splits sum.splits)

lemmas [quiets] = quiet_basic quiet_bind quiet_pair quiet_option quiet_sum quiet_list quiet_if quiet_let quiet_ctx
  quiet_gitm quiet_noting quiet_dropping quiet_when quiet_e_map

text \<open>The files of the tool that are written are beside the cache.\<close>

lemma path_join_slash: "base \<noteq> [] \<Longrightarrow> x \<noteq> [] \<Longrightarrow> hd x \<noteq> CHR ''/'' \<Longrightarrow>
  \<exists>d. path_join base x = d @ ''/'' @ x"
  by (auto simp: path_join_def) (metis append_butlast_last_id append_assoc append_Cons append_Nil)

lemma path_join_nonempty: "x \<noteq> [] \<Longrightarrow> path_join base x \<noteq> []"
  by (simp add: path_join_def)

lemma side_fileI:
  assumes "dir \<in> {''tmp'', ''state''}" "CHR ''/'' \<notin> set name" "name \<notin> {[], ''.'', ''..''}"
    "base \<noteq> []" "path = path_join (path_join base dir) name"
  shows "side_file path"
proof -
  obtain d where d: "path_join base dir = d @ ''/'' @ dir" using path_join_slash [of base dir] assms(1,4) by auto
  have "last (d @ ''/'' @ dir) \<noteq> CHR ''/''" using assms(1) by auto
  moreover have "hd name \<noteq> CHR ''/''" using assms(2,3) by (cases name) auto
  ultimately have "path = d @ ''/'' @ dir @ ''/'' @ name"
    using assms(3,5) d by (auto simp: path_join_def)
  then show ?thesis using assms(1,2,3) unfolding side_file_def by blast
qed

lemma show_nat_no_slash: "CHR ''/'' \<notin> set (show_nat n)"
proof (induction n rule: show_nat.induct)
  case (1 n)
  then show ?case
    by (subst show_nat.simps) (auto simp: nth_Cons split: nat.splits)
qed

lemma short_hex_no_slash: "short_hex what i = Inr h \<Longrightarrow> CHR ''/'' \<notin> set i \<Longrightarrow> CHR ''/'' \<notin> set h"
proof -
  assume h: "short_hex what i = Inr h" and i: "CHR ''/'' \<notin> set i"
  then obtain x where x: "strip_prefix ''sha256:'' i = Some x" "h = take 12 x" by (auto simp: short_hex_def split: option.splits if_splits)
  have "set x \<subseteq> set i" using x(1) by (auto simp: strip_prefix_def split: if_splits dest!: in_set_dropD)
  then show ?thesis using i x(2) by (auto dest: in_set_takeD)
qed

context ledger
begin

lemmas [quiets] = list_quiet read_quiet now_quiet inspect_quiet read_file_quiet create_dir_quiet remove_quiet
  list_attempts_quiet list_runs_quiet list_changes_quiet list_patches_quiet find_attempt_quiet effective_status_quiet
  read_entries_quiet read_entry_quiet

lemma now_ms_quiet [quiets]: "quiet good objs (now_ms A)"
  unfolding now_ms_def by (intro quiets)

lemma load_key_quiet [quiets]: "quiet good objs (load_key A L path m)"
  unfolding load_key_def by (intro quiets)

lemma key_of_agent_quiet [quiets]: "quiet good objs (key_of_agent A L label i)"
proof (rule quiet_fun)
  fix s
  let ?m = "case (case i of Some i \<Rightarrow> Some i | None \<Rightarrow> a_env A s ''RICKYGIT_AGENT_ID'') of
        None \<Rightarrow> e_ret None
      | Some i \<Rightarrow> (let key_path = agent_key_file A s i in
           if a_exists A s key_path
           then e_bind (load_key A L key_path (''failed to load signing key for agent `'' @ i @ ''` from '' @ key_path))
                  (\<lambda>key. e_ret (Some (key, case label of Some l \<Rightarrow> Some l | None \<Rightarrow> Some i)))
           else e_ret None)"
  have "quiet good objs ?m" by (intro quiets)
  moreover have "key_of_agent A L label i s = ?m s" unfolding key_of_agent_def Let_def by (simp split: option.split)
  ultimately show "\<exists>m. quiet good objs m \<and> key_of_agent A L label i s = m s" by blast
qed

lemma key_of_env_quiet [quiets]: "quiet good objs (key_of_env A L label i)"
proof (rule quiet_fun)
  fix s
  let ?m = "case a_env A s ''RICKYGIT_SIGNING_KEY_FILE'' of
     Some path \<Rightarrow>
       if a_exists A s path
       then e_bind (load_key A L path (''failed to load signing key from RICKYGIT_SIGNING_KEY_FILE='' @ path))
              (\<lambda>key. e_ret (Some (key, label)))
       else key_of_agent A L label i
   | None \<Rightarrow> key_of_agent A L label i"
  have "quiet good objs ?m" by (intro quiets)
  moreover have "key_of_env A L label i s = ?m s" unfolding key_of_env_def by (simp split: option.split)
  ultimately show "\<exists>m. quiet good objs m \<and> key_of_env A L label i s = m s" by blast
qed

lemma resolve_signing_key_quiet [quiets]: "quiet good objs (resolve_signing_key A L args i)"
  unfolding resolve_signing_key_def by (cases "sk_file args"; cases "sk_key args") (simp_all, (intro quiets)+)

lemma git_dir_of_quiet [quiets]: "quiet good objs (git_dir_of A L repo)"
  unfolding git_dir_of_def by (intro quiets)

lemma attempt_worktree_path_quiet [quiets]: "quiet good objs (attempt_worktree_path A L repo i)"
  unfolding attempt_worktree_path_def by (intro quiets)

lemma run_git_quiet: "local_git c \<Longrightarrow> quiet good objs (run_git A c t u)"
  unfolding run_git_def by (intro quiets spawn_quiet)

lemma local_git_in [simp]: "local_git (git_in w (x # xs)) \<longleftrightarrow> x \<in> {''worktree'', ''read-tree'', ''add'', ''diff'', ''status'',
    ''apply'', ''rev-parse'', ''for-each-ref'', ''ls-remote''}"
  "local_git (c\<lparr>cmd_env := e\<rparr>) = local_git c"
  by (simp_all add: local_git_def git_in_def)

lemma existing_worktree_quiet [quiets]: "quiet good objs (existing_attempt_worktree_path A L repo i)"
  unfolding existing_attempt_worktree_path_def
proof (intro quiet_bind attempt_worktree_path_quiet)
  fix x show "quiet good objs (\<lambda>s. if a_is_dir A s x then (Inr x, s)
      else (Inl (Bail (''attempt worktree for '' @ i @ '' does not exist at '' @ x)), s))"
    by (simp add: quiet_def)
qed

lemma ensure_worktree_quiet [quiets]: "quiet good objs (ensure_attempt_worktree A L repo i base)"
  unfolding ensure_attempt_worktree_def
proof (intro quiet_bind attempt_worktree_path_quiet)
  fix x
  have q: "quiet good objs (run_git A (git_in repo [''worktree'', ''add'', ''--detach'', x, base])
      ''failed to execute git worktree add'' ''git worktree add'')"
    by (rule run_git_quiet) simp
  show "quiet good objs (\<lambda>s. if a_exists A s x then (Inr (x, False), s)
      else e_bind (ctx (''failed to create worktree parent `'' @ parent_of x @ ''`'') (a_create_dir_all A (parent_of x)))
        (\<lambda>_. e_bind (run_git A (git_in repo [''worktree'', ''add'', ''--detach'', x, base])
            ''failed to execute git worktree add'' ''git worktree add'') (\<lambda>_. e_ret (x, True))) s)"
    (is "quiet good objs (\<lambda>s. if _ then _ else ?m s)")
  proof (rule quiet_fun)
    fix s
    have "quiet good objs ?m" by (intro quiets q)
    then show "\<exists>m. quiet good objs m \<and> (if a_exists A s x then (Inr (x, False), s) else ?m s) = m s"
      using quiet_basic(1) [of good objs "(x, False)"] unfolding e_ret_def by (cases "a_exists A s x") force+
  qed
qed

lemma temp_git_index_quiet [quiets]: "quiet good objs (temp_git_index A L repo i)"
  unfolding temp_git_index_def by (intro quiets)

lemma drop_git_index_quiet [quiets]: "quiet good objs (drop_git_index A index)"
  unfolding quiet_def
proof (intro allI impI)
  fix s r s' assume P: "good s" and run: "drop_git_index A index s = (r, s')"
  obtain r1 s1 where m: "a_remove_file A index s = (r1, s1)" by (rule prod.exhaust)
  then have "a_remove_file A (index @ ''.lock'') s1 = (r, s')" using run by (simp add: drop_git_index_def)
  then show "good s' \<and> objs s' = objs s"
    using quietD [OF remove_quiet P m] quietD [OF remove_quiet] by metis
qed

lemma git_with_temp_index_quiet [quiets]:
  "x \<in> {''read-tree'', ''add'', ''diff''} \<Longrightarrow> quiet good objs (git_with_temp_index A w index (x # xs))"
  unfolding git_with_temp_index_def by (rule run_git_quiet) auto

lemma diff_in_worktree_quiet [quiets]: "quiet good objs (diff_in_worktree A L w index base)"
  unfolding diff_in_worktree_def by (intro quiets) simp_all

lemma detect_diff_quiet [quiets]: "quiet good objs (detect_attempt_diff A L repo a)"
  unfolding detect_attempt_diff_def by (intro quiets)

lemma resolve_patch_diff_quiet [quiets]: "quiet good objs (resolve_patch_diff A L repo p a)"
  unfolding resolve_patch_diff_def by (intro quiets)

lemma find_patch_quiet [quiets]: "quiet good objs (find_patch A L repo i)"
  and attempt_of_patch_quiet [quiets]: "quiet good objs (attempt_of_patch A L repo p)"
  and head_of_patch_quiet [quiets]: "quiet good objs (head_of_patch A L repo b p)"
  and diff_to_quiet [quiets]: "quiet good objs (diff_to A L use repo p a)"
  unfolding find_patch_def attempt_of_patch_def head_of_patch_def diff_to_def by (intro quiets)+

lemma retired_quiet [quiets]: "quiet good objs (retired_patch_ids A L repo)"
  unfolding retired_patch_ids_def by (intro quiets)

lemma review_patch_quiet [quiets]: "quiet good objs (review_patch A L repo h c p)"
  unfolding review_patch_def by (intro quiets)

lemma review_queue_quiet [quiets]: "quiet good objs (build_patch_review_queue A L repo)"
  unfolding build_patch_review_queue_def by (intro quiets)

lemma search_applications_quiet [quiets]: "quiet good objs (search_applications A L repo i k es)"
proof (induction es)
  case (Cons e es)
  then show ?case unfolding search_applications.simps by (intro quiets)
qed (simp only: search_applications.simps quiet_basic)

lemma find_application_quiet [quiets]: "quiet good objs (find_patch_application_by_idempotency A L repo i k)"
  unfolding find_patch_application_by_idempotency_def by (intro quiets)

lemma temp_patch_file_quiet:
  assumes "CHR ''/'' \<notin> set i"
  shows "quiet good objs (temp_patch_file A L repo i b)"
proof -
  have side: "quiet good objs (a_write_file A (path_join (foldl path_join git_dir [''rickydata'', ''tmp''])
      (''apply-'' @ hex @ ''-'' @ show_nat n @ ''.patch'')) b)"
    if "short_hex ''patch'' i = Inr hex" for hex n git_dir
  proof (rule side_write_quiet, rule side_fileI)
    show "''tmp'' \<in> {''tmp'', ''state''}" "path_join git_dir ''rickydata'' \<noteq> []" by (simp_all add: path_join_nonempty)
    show "CHR ''/'' \<notin> set (''apply-'' @ hex @ ''-'' @ show_nat n @ ''.patch'')"
      using short_hex_no_slash [OF that assms] show_nat_no_slash by auto
  qed simp_all
  show ?thesis
    unfolding temp_patch_file_def Let_def
    by (rule quiet_bind [OF git_dir_of_quiet], rule quiet_bind_lift) (intro quiets side, assumption)
qed

section \<open>Writing runs take steps\<close>

end

definition stepwise :: "('s \<Rightarrow> bool) \<Rightarrow> ('s \<Rightarrow> ledger_map) \<Rightarrow> ('s, 'e, 'a) eff \<Rightarrow> bool" where
  "stepwise good objs m \<longleftrightarrow> (\<forall>s r s'. good s \<longrightarrow> m s = (r, s') \<longrightarrow>
     ledger_steps (objs s) (objs s') \<and> (is_ok r \<longrightarrow> good s'))"

lemma stepwiseI:
  "(\<And>s r s'. good s \<Longrightarrow> m s = (r, s') \<Longrightarrow> ledger_steps (objs s) (objs s') \<and> (is_ok r \<longrightarrow> good s')) \<Longrightarrow> stepwise good objs m"
  unfolding stepwise_def by blast

lemma stepwiseD:
  "stepwise good objs m \<Longrightarrow> good s \<Longrightarrow> m s = (r, s') \<Longrightarrow> ledger_steps (objs s) (objs s') \<and> (is_ok r \<longrightarrow> good s')"
  unfolding stepwise_def by blast

lemma stepwise_quiet: "quiet good objs m \<Longrightarrow> stepwise good objs m"
  unfolding quiet_def stepwise_def by auto

lemma stepwise_bind:
  assumes "stepwise good objs m" "\<And>x. stepwise good objs (k x)"
  shows "stepwise good objs (e_bind m k)"
proof (rule stepwiseI)
  fix s r s' assume g: "good s" and run: "e_bind m k s = (r, s')"
  from run show "ledger_steps (objs s) (objs s') \<and> (is_ok r \<longrightarrow> good s')"
  proof (cases rule: e_bind_cases)
    case (err e)
    then show ?thesis using stepwiseD [OF assms(1) g] by auto
  next
    case (ok x s1)
    then have "ledger_steps (objs s) (objs s1)" "good s1" using stepwiseD [OF assms(1) g ok(1)] by auto
    then show ?thesis using stepwiseD [OF assms(2) _ ok(2)] by (meson rtranclp_trans)
  qed
qed

lemma stepwise_map_err: "stepwise good objs m \<Longrightarrow> stepwise good objs (e_map_err f m)"
  unfolding stepwise_def e_map_err_def by (auto split: prod.splits simp: is_ok_def split: sum.splits)

lemma stepwise_gitm: "stepwise good objs m \<Longrightarrow> stepwise good objs (gitm L m)"
  unfolding gitm_def by (rule stepwise_map_err)

lemma stepwise_if: "stepwise P f m \<Longrightarrow> stepwise P f n \<Longrightarrow> stepwise P f (if b then m else n)"
  by simp

lemma plain_bodyI: "json_plain d v \<Longrightarrow> d \<le> 120 \<Longrightarrow> plain_body v"
  unfolding plain_body_def by (rule json_plain_mono)

lemma plain_bodies [simp]:
  "plain_body (agent_attempt_json a)" "plain_body (attempt_status_transition_json t)" "plain_body (work_intent_json i)"
  "plain_body (agent_run_json r)" "plain_body (agent_run_trace_json tr)" "plain_body (change_evidence_json c)"
  "plain_body (prepared_patch_json p)" "plain_body (patch_diff_json d)" "plain_body (patch_application_json pa)"
  "plain_body (patch_retirement_json pr)" "plain_body (agent_note_json n)"
  by (simp_all add: plain_bodyI [OF agent_attempt_plain [where d = 0]]
      plain_bodyI [OF attempt_status_transition_plain [where d = 0]]
      plain_bodyI [OF work_intent_plain [where d = 0]]
      plain_bodyI [OF agent_run_plain [where d = 0]]
      plain_bodyI [OF agent_run_trace_plain [where d = 0]]
      plain_bodyI [OF change_evidence_plain [where d = 0]]
      plain_bodyI [OF prepared_patch_plain [where d = 0]]
      plain_bodyI [OF patch_diff_plain [where d = 0]]
      plain_bodyI [OF patch_application_plain [where d = 0]]
      plain_bodyI [OF patch_retirement_plain [where d = 0]]
      plain_bodyI [OF agent_note_plain [where d = 0]])

text \<open>The same from a given ledger, for what depends on what was read.\<close>

definition steps_from :: "('s \<Rightarrow> bool) \<Rightarrow> ('s \<Rightarrow> ledger_map) \<Rightarrow> ledger_map \<Rightarrow> ('s, 'e, 'a) eff \<Rightarrow> bool" where
  "steps_from good objs M m \<longleftrightarrow> (\<forall>s r s'. good s \<longrightarrow> objs s = M \<longrightarrow> m s = (r, s') \<longrightarrow>
     ledger_steps M (objs s') \<and> (is_ok r \<longrightarrow> good s'))"

lemma stepwise_from: "stepwise good objs m \<longleftrightarrow> (\<forall>M. steps_from good objs M m)"
  unfolding stepwise_def steps_from_def by blast

lemma steps_from_read:
  assumes "quiet good objs m"
    and "\<And>s x s'. good s \<Longrightarrow> objs s = M \<Longrightarrow> m s = (Inr x, s') \<Longrightarrow> steps_from good objs M (k x)"
  shows "steps_from good objs M (e_bind m k)"
  unfolding steps_from_def
proof (intro allI impI)
  fix s r s' assume g: "good s" "objs s = M" and run: "e_bind m k s = (r, s')"
  from run show "ledger_steps M (objs s') \<and> (is_ok r \<longrightarrow> good s')"
  proof (cases rule: e_bind_cases)
    case (err e)
    then show ?thesis using quietD [OF assms(1) g(1)] g(2) by (simp add: is_ok_def)
  next
    case (ok x s1)
    then have "good s1" "objs s1 = M" using quietD [OF assms(1) g(1) ok(1)] g(2) by simp_all
    then show ?thesis using assms(2) [OF g ok(1)] ok(2) unfolding steps_from_def by blast
  qed
qed

lemma steps_from_ret: "steps_from good objs M m \<Longrightarrow> steps_from good objs M (e_bind m (\<lambda>x. e_ret (f x)))"
  unfolding steps_from_def by (auto simp: eff_simps is_ok_def split: prod.splits sum.splits)

text \<open>The structure of a run that takes steps.\<close>

lemma stepwise_pair: "(\<And>a b. stepwise P f (k a b)) \<Longrightarrow> stepwise P f (case x of (a, b) \<Rightarrow> k a b)"
  by (cases x) simp

lemma stepwise_option: "stepwise P f m \<Longrightarrow> (\<And>y. stepwise P f (k y)) \<Longrightarrow> stepwise P f (case x of None \<Rightarrow> m | Some y \<Rightarrow> k y)"
  by (cases x) simp_all

lemma stepwise_let: "(\<And>x. x = e \<Longrightarrow> stepwise P f (k x)) \<Longrightarrow> stepwise P f (let x = e in k x)"
  by simp

lemmas stepping = stepwise_bind stepwise_pair stepwise_option stepwise_if stepwise_let

context ledger
begin

lemma stepwise_dropping:
  assumes "stepwise good objs m"
  shows "stepwise good objs (dropping (a_remove_file A x) m)"
proof (rule stepwiseI)
  fix s r s' assume g: "good s" and run: "dropping (a_remove_file A x) m s = (r, s')"
  obtain s1 where m: "m s = (r, s1)" "s' = snd (a_remove_file A x s1)" using run by (auto simp: dropping_def split: prod.splits)
  then obtain r2 where c: "a_remove_file A x s1 = (r2, s')" by (cases "a_remove_file A x s1") simp
  show "ledger_steps (objs s) (objs s') \<and> (is_ok r \<longrightarrow> good s')"
    using stepwiseD [OF assms g m(1)] remove_keeps [OF c] quietD [OF remove_quiet _ c] by simp
qed

text \<open>A write is one step, when what it adds is one.\<close>

lemma write_from:
  assumes "plain_body body"
    and "\<And>obj. fits M obj \<Longrightarrow> co_kind obj = kind \<Longrightarrow> co_body obj = body \<Longrightarrow> ledger_step M (add_object M obj)"
  shows "steps_from good objs M (write_signed_or_cached A L repo kind body signing)"
  unfolding steps_from_def
proof (intro allI impI)
  fix s r s' assume g: "good s" "objs s = M" and run: "write_signed_or_cached A L repo kind body signing s = (r, s')"
  show "ledger_steps M (objs s') \<and> (is_ok r \<longrightarrow> good s')"
  proof (cases r)
    case (Inl e)
    then show ?thesis using written(1) [OF g(1) assms(1) run] g(2) by (simp add: is_ok_def)
  next
    case (Inr rep)
    then obtain obj where "good s'" "objs s' = M(co_object_id obj \<mapsto> obj)" "co_kind obj = kind" "co_body obj = body"
      "M (co_object_id obj) \<in> {None, Some obj}" using written(2) [OF g(1) assms(1) run] g(2) by blast
    then show ?thesis using assms(2) [of obj] by (simp add: fits_def add_object_def)
  qed
qed

lemma stepwise_write:
  assumes "plain_body body"
    and "\<And>M obj. fits M obj \<Longrightarrow> co_kind obj = kind \<Longrightarrow> co_body obj = body \<Longrightarrow> ledger_step M (add_object M obj)"
  shows "stepwise good objs (write_signed_or_cached A L repo kind body signing)"
  unfolding stepwise_from using write_from [OF assms] by blast

lemma stepwise_record:
  "plain_body body \<Longrightarrow> kind \<notin> {''agent.attempt'', ''agent.attempt_status''} \<Longrightarrow>
    (\<And>obj. co_kind obj = kind \<Longrightarrow> co_body obj = body \<Longrightarrow> well_typed obj) \<Longrightarrow>
    stepwise good objs (write_signed_or_cached A L repo kind body signing)"
  by (rule stepwise_write) (simp_all add: ledger_step.recorded)

lemma stepwise_record_cached:
  "plain_body body \<Longrightarrow> kind \<notin> {''agent.attempt'', ''agent.attempt_status''} \<Longrightarrow>
    (\<And>obj. co_kind obj = kind \<Longrightarrow> co_body obj = body \<Longrightarrow> well_typed obj) \<Longrightarrow>
    stepwise good objs (gitm L (a_write_cached A repo kind body))"
  using stepwise_record [where signing = None] by (simp add: write_signed_or_cached_def)

lemma stepwise_start:
  "att_status a = Running \<Longrightarrow> stepwise good objs (write_signed_or_cached A L repo ''agent.attempt'' (agent_attempt_json a) signing)"
  by (rule stepwise_write) (auto intro: ledger_step.started)

lemma begin_attempt_steps:
  assumes "si_repo input = repo"
  shows "stepwise good objs (begin_attempt A L input in_place signing)"
  unfolding begin_attempt_def new_attempt_def assms
  by (intro stepping; ((rule stepwise_quiet, intro quiets) | (simp add: stepwise_start)))

lemma attempt_start_steps:
  assumes "si_repo input = repo"
  shows "stepwise good objs (attempt_start A L keys input in_place)"
  unfolding attempt_start_def assms
  by (intro stepping; ((rule stepwise_quiet, intro quiets) | rule begin_attempt_steps [OF assms]))

lemma make_intent_quiet [quiets]: "quiet good objs (make_intent A f privacy)"
  unfolding make_intent_def by (intro quiets quiet_now_or_zero now_ms_quiet)

lemma issue_import_steps: "stepwise good objs (issue_import A L keys repo f privacy)"
  unfolding issue_import_def
  by (intro stepping; ((rule stepwise_quiet, intro quiets) | simp add: stepwise_record well_typed_def))

lemma work_start_steps:
  assumes "si_repo input = repo"
  shows "stepwise good objs (work_start A L keys f privacy input in_place)"
  unfolding work_start_def assms
  by (intro stepping; ((rule stepwise_quiet, intro quiets) | (rule begin_attempt_steps, simp add: assms) | simp add: stepwise_record well_typed_def))

lemma record_run_steps:
  assumes "re_repo input = repo"
  shows "stepwise good objs (record_run A L hs input i signing out t u)"
  unfolding record_run_def assms
  by (intro stepping; ((rule stepwise_quiet, intro quiets) | simp add: stepwise_record well_typed_def))

lemma run_exec_steps:
  assumes "re_repo input = repo" "\<And>w. quiet good objs (a_spawn A (run_command input w))"
  shows "stepwise good objs (run_exec A L R schema keys input)"
  unfolding run_exec_def assms(1)
  by (intro stepping; ((rule stepwise_quiet, intro quiets assms(2)) | rule record_run_steps [OF assms(1)]))

lemma select_runs_quiet [quiets]: "quiet good objs (select_change_runs A L repo i ids)"
  unfolding select_change_runs_def by (intro quiets)

lemma change_detect_steps: "stepwise good objs (change_detect A L keys repo i ids)"
  unfolding change_detect_def
  by (intro stepping; ((rule stepwise_quiet, intro quiets) | simp add: stepwise_record well_typed_def))

lemma patch_prepare_steps: "stepwise good objs (patch_prepare A L keys repo i)"
  unfolding patch_prepare_def
  by (intro stepping; ((rule stepwise_quiet, intro quiets) | simp add: stepwise_record well_typed_def))

lemma patch_retire_steps:
  assumes "pri_repo input = repo"
  shows "stepwise good objs (patch_retire A L input)"
  unfolding patch_retire_def assms
  by (intro stepping; ((rule stepwise_quiet, intro quiets; fail) | simp add: stepwise_record_cached well_typed_def))

lemma note_send_steps: "stepwise good objs (note_send A L keys repo draft)"
  unfolding note_send_def
  by (intro stepping; ((rule stepwise_quiet, intro quiets) | simp add: stepwise_record well_typed_def))

lemma intent_write_steps: "stepwise good objs (intent_write A L keys repo path)"
proof -
  have r: "quiet good objs (read_intent A L path)" unfolding read_intent_def read_text_def by (intro quiets)
  show ?thesis
    unfolding intent_write_def
    by (intro stepping; ((rule stepwise_quiet, intro quiets r) | simp add: stepwise_record well_typed_def))
qed

text \<open>The transitions of an attempt: the status that was read is the status of the ledger.\<close>

lemma transition_from:
  assumes rp: "ti_repo input = repo"
    and st: "status = Abandoned \<or> status = Submitted \<and> patches_in M i = Some p \<and> pp_attempt_id p = ti_attempt_id input"
  shows "steps_from good objs M (write_attempt_transition A L input status signing)"
proof -
  have tail: "steps_from good objs M (e_bind (ensure (current = Running \<or> current = Planned) m) (\<lambda>_.
      e_bind (now_ms A) (\<lambda>now.
     (let transition = \<lparr>tr_attempt_id = att_attempt_id attempt, tr_status = status, tr_reason = ti_reason input,
            tr_created_by = ti_by input, tr_created_at_ms = now\<rparr>
      in e_bind (write_signed_or_cached A L repo ''agent.attempt_status''
             (attempt_status_transition_json transition) signing) (\<lambda>object.
           e_ret \<lparr>tp_status = ''ok'', tp_attempt_id = tr_attempt_id transition, tp_effective_status = status,
                  tp_transition = transition, tp_object = object\<rparr>)))))"
    if i: "att_attempt_id attempt = ti_attempt_id input"
      and e: "good s" "objs s = M" "effective_attempt_status A L repo (att_attempt_id attempt) s = (Inr (current, src), s2)"
    for m attempt current src s s2
  proof -
    note si = effective_status_in [OF e(1,3), unfolded e(2)]
    have step: "ledger_step M (add_object M obj)" if o: "fits M obj" "co_kind obj = ''agent.attempt_status''"
      "co_body obj = attempt_status_transition_json t" and t: "tr_attempt_id t = att_attempt_id attempt" "tr_status t = status"
      and c: "current = Running \<or> current = Planned" for obj t
    proof -
      have d: "attempt_status_transition_of_json (co_body obj) = Some t" using o(3) by simp
      have act: "status_in M (tr_attempt_id t) current src" "current \<in> {Running, Planned}" using si c t(1) by auto
      show ?thesis
        using ledger_step.abandoned [OF o(1,2) d _ act] ledger_step.submitted [OF o(1,2) d _ act] st t i by metis
    qed
    show ?thesis
      unfolding Let_def
      by (rule steps_from_read [OF quiet_basic(5)], rule steps_from_read [OF now_ms_quiet], rule steps_from_ret, rule write_from,
          simp, rule step, assumption+) simp_all
  qed
  show ?thesis
    unfolding write_attempt_transition_def rp
    apply (rule steps_from_read [OF find_attempt_quiet], rule steps_from_read [OF effective_status_quiet])
    apply (simp only: split_paired_all prod.case)
    apply (rule tail)
       apply (auto simp: least_with_def dest!: find_attempt_exact)
    done
qed

lemma attempt_abandon_steps:
  assumes "ti_repo input = repo"
  shows "stepwise good objs (attempt_abandon A L keys input)"
  unfolding attempt_abandon_def stepwise_from
  by (intro allI steps_from_read [OF resolve_signing_key_quiet] transition_from [OF assms]) simp

lemma attempt_submit_steps:
  assumes "ti_repo input = repo"
  shows "stepwise good objs (attempt_submit A L keys input)"
  unfolding attempt_submit_def stepwise_from assms
proof (intro allI, rule steps_from_read [OF resolve_signing_key_quiet], rule steps_from_read [OF list_patches_quiet],
    rule steps_from_read [OF quiet_basic(5)])
  fix M s s1 s2 s3 s4 s5 u signing patches
  assume l: "good s2" "objs s2 = M" "list_patches A L repo s2 = (Inr patches, s3)"
    and "ensure (list_ex (\<lambda>e. pp_attempt_id (en_value e) = ti_attempt_id input) patches)
      (''attempt '' @ ti_attempt_id input @ '' has no prepared patch; run `rickygit patch prepare` first'') s4 = (Inr u, s5)"
  then obtain e where e: "e \<in> set patches" "pp_attempt_id (en_value e) = ti_attempt_id input" by (auto simp: list_ex_iff)
  obtain es0 where "views (patches_in (objs s2)) es0" "patches = sort_key (\<lambda>e. pp_patch_id (en_value e)) es0"
    by (rule listed_values [OF l(1) l(3) [unfolded list_patches_def]])
  then have "patches_in M (en_object_id e) = Some (en_value e)" using e(1) l(2) by (auto simp: views_def)
  then show "steps_from good objs M (write_attempt_transition A L input Submitted signing)"
    using e(2) by (intro transition_from [OF assms]) simp
qed

text \<open>Applying a patch writes at most the application.\<close>

lemma git_apply_quiet [quiets]: "quiet good objs (git_apply_file A w x b)"
  unfolding git_apply_file_def by (intro quiets run_git_quiet) (simp add: git_in_def local_git_def)

lemma clean_worktree_quiet [quiets]: "quiet good objs (ensure_clean_worktree A w)"
  unfolding ensure_clean_worktree_def by (intro quiets run_git_quiet) simp

lemma patch_apply_steps:
  assumes "pai_repo input = repo" "CHR ''/'' \<notin> set (pai_patch_id input)"
  shows "stepwise good objs (patch_apply A L input)"
proof -
  have now: "stepwise good objs (apply_now A L input patch attempt head resolved patch_file)" for patch attempt head resolved patch_file
    unfolding apply_now_def assms(1)
    by (intro stepping; ((rule stepwise_quiet, intro quiets; fail) | simp add: stepwise_record_cached well_typed_def))
  have apply_it: "stepwise good objs (apply_or_replay A L input patch attempt head resolved patch_file)"
    for patch attempt head resolved patch_file
    unfolding apply_or_replay_def assms(1)
    by (intro stepping now; rule stepwise_quiet, intro quiets)
  have found: "find_patch A L repo (pai_patch_id input) s = (Inr e, s') \<Longrightarrow> pp_patch_id (en_value e) = pai_patch_id input" for s e s'
    unfolding find_patch_def by (auto elim!: e_bind_Inr simp: find_Some_iff)
  show ?thesis
    unfolding patch_apply_def assms(1) stepwise_from
  proof (intro allI, rule steps_from_read [OF find_patch_quiet])
    fix M s e s1 assume "find_patch A L repo (pai_patch_id input) s = (Inr e, s1)"
    then have i: "pp_patch_id (en_value e) = pai_patch_id input" by (rule found)
    have tf: "stepwise good objs (temp_patch_file A L repo (pp_patch_id (en_value e)) b)" for b
      using temp_patch_file_quiet [OF assms(2)] i by (simp add: stepwise_quiet)
    have "stepwise good objs (let patch = en_value e in
      e_bind (attempt_of_patch A L repo patch) (\<lambda>attempt.
      e_bind (head_of_patch A L repo (pai_allow_base_drift input) patch) (\<lambda>head_commit.
      e_bind (diff_to A L ''apply'' repo patch attempt) (\<lambda>resolved.
      e_bind (temp_patch_file A L repo (pp_patch_id patch) (rd_raw_diff resolved)) (\<lambda>patch_file.
        dropping (a_remove_file A patch_file) (apply_or_replay A L input patch attempt head_commit resolved patch_file))))))"
      unfolding Let_def
      by (intro stepwise_bind tf stepwise_dropping apply_it; rule stepwise_quiet, intro quiets)
    then show "steps_from good objs M (let patch = en_value e in
      e_bind (attempt_of_patch A L repo patch) (\<lambda>attempt.
      e_bind (head_of_patch A L repo (pai_allow_base_drift input) patch) (\<lambda>head_commit.
      e_bind (diff_to A L ''apply'' repo patch attempt) (\<lambda>resolved.
      e_bind (temp_patch_file A L repo (pp_patch_id patch) (rd_raw_diff resolved)) (\<lambda>patch_file.
        dropping (a_remove_file A patch_file) (apply_or_replay A L input patch attempt head_commit resolved patch_file))))))"
      unfolding stepwise_from by blast
  qed
qed

text \<open>Reading an inbox moves the read marker, a file beside the store.\<close>

lemma sanitized_no_slash: "CHR ''/'' \<notin> set (sanitize_agent_filename agent)"
  by (auto simp: sanitize_agent_filename_def is_ascii_alphanumeric_def split: if_splits)

lemma list_notes_quiet [quiets]: "quiet good objs (list_notes A L repo)"
proof -
  have "quiet good objs (read_note A L repo e)" for e unfolding read_note_def by (intro quiets)
  then show ?thesis unfolding list_notes_def by (intro quiets)
qed

lemma read_marker_quiet [quiets]: "quiet good objs (read_note_marker A L path)"
  unfolding quiet_def read_note_marker_def using quietD [OF read_file_quiet] by (auto split: prod.splits sum.splits)

lemma note_inbox_quiet:
  assumes "nx_repo args = repo"
  shows "quiet good objs (note_inbox A L args)"
proof -
  have side: "side_file (foldl path_join gd [''rickydata'', ''notes'', ''state'', sanitize_agent_filename agent @ ''.json''])" for gd agent
  proof (rule side_fileI)
    show "''state'' \<in> {''tmp'', ''state''}" by simp
    show "path_join (path_join gd ''rickydata'') ''notes'' \<noteq> []" by (simp add: path_join_nonempty)
    show "CHR ''/'' \<notin> set (sanitize_agent_filename agent @ ''.json'')" using sanitized_no_slash by auto
    show "sanitize_agent_filename agent @ ''.json'' \<notin> {[], ''.'', ''..''}" by (auto simp: append_eq_Cons_conv)
  qed simp
  have w: "quiet good objs (write_note_marker A L path n)" if "side_file path" for path n
    unfolding write_note_marker_def by (intro quiets side_write_quiet that)
  have path: "quiet good objs (note_state_path A L repo agent)" for agent
    unfolding note_state_path_def by (intro quiets)
  have named: "note_state_path A L repo agent s = (Inr p, s') \<Longrightarrow> side_file p" for agent s p s'
    unfolding note_state_path_def by (auto elim!: e_bind_Inr intro: side [simplified])
  show ?thesis
    unfolding note_inbox_def assms
  proof (rule quiet_bind [OF list_notes_quiet])
    fix listed
    show "quiet good objs (e_bind (note_state_path A L repo (nx_agent args)) (\<lambda>marker_path.
     e_bind (if nx_all_history args then e_ret None
             else (case nx_since_ms args of Some n \<Rightarrow> e_ret (Some n)
               | None \<Rightarrow> e_bind (read_note_marker A L marker_path) (\<lambda>n. e_ret (Some n)))) (\<lambda>lower_bound.
     e_bind (read_note_marker A L marker_path) (\<lambda>marker.
     (case inbox_loop args lower_bound (marker, []) listed of (newest_addressed, matched) \<Rightarrow>
      e_bind (e_when (\<not> nx_peek args) (write_note_marker A L marker_path newest_addressed)) (\<lambda>_.
        e_ret \<lparr>ni_agent = nx_agent args, ni_count = length matched, ni_read_marker_ms = newest_addressed,
               ni_marker_advanced = (\<not> nx_peek args), ni_notes = matched\<rparr>))))))" (is "quiet _ _ (e_bind ?m ?k)")
      unfolding quiet_def
    proof (intro allI impI)
      fix s r s' assume g: "good s" and run: "e_bind ?m ?k s = (r, s')"
      from run show "good s' \<and> objs s' = objs s"
      proof (cases rule: e_bind_cases)
        case (err e)
        then show ?thesis using quietD [OF path g] by blast
      next
        case (ok p s1)
        have "quiet good objs (?k p)" by (intro quiets w named [OF ok(1)])
        from quietD [OF this _ ok(2)] quietD [OF path g ok(1)] show ?thesis by simp
      qed
    qed
  qed
qed

text \<open>Verifying the store and building the queue read only.\<close>

lemma verify_entry_quiet [quiets]: "quiet good objs (verify_entry A L repo e)"
  and verify_diff_object_quiet [quiets]: "quiet good objs (verify_diff_object A L repo i)"
  unfolding verify_entry_def verify_diff_object_def by (intro quiets verify_quiet)+

lemma verify_patch_quiet [quiets]: "quiet good objs (verify_patch A L repo p)"
  unfolding verify_patch_def by (intro quiets)

lemma sync_verify_quiet [quiets]: "quiet good objs (build_sync_verify A L repo)"
  unfolding build_sync_verify_def by (intro quiets)

end

end
