(* ===== verification/Cli_Session.thy ===== *)
theory Cli_Session
  imports Cli_Commands
begin

text \<open>
  Sessions of the tool on a repository: a list of commands that stops at the first error.  A session on
  the Git store refines \<open>ledger_step\<close>, so the life of an attempt and the types of the ledger are
  invariants of a repository the tool writes.  \<^verbatim>\<open>object write\<close>, \<^verbatim>\<open>relay pull\<close> and \<^verbatim>\<open>sync pull\<close> put
  objects of any origin into the ledger and are not part of a session.
\<close>

section \<open>Commands and sessions\<close>

datatype tool_command =
    Intent_Write str
  | Issue_Import "privacy_class \<Rightarrow> issue_intent_fields" str
  | Work_Start "privacy_class \<Rightarrow> issue_intent_fields" str attempt_start_input bool
  | Attempt_Start attempt_start_input bool
  | Attempt_Submit attempt_transition_input
  | Attempt_Abandon attempt_transition_input
  | Attempt_Status str
  | Run_Exec run_exec_input
  | Change_Detect str "str list"
  | Patch_Prepare str
  | Patch_Apply patch_apply_input
  | Patch_Retire patch_retire_input
  | Review_Queue
  | Note_Send agent_note
  | Note_Inbox note_inbox_args
  | Sync_Verify

definition void :: "('s, 'e, 'a) eff \<Rightarrow> ('s, 'e, unit) eff" where
  "void m = e_bind m (\<lambda>_. e_ret ())"

text \<open>One command on one repository; \<open>R\<close> and \<open>schema\<close> are the manifest library of \<^verbatim>\<open>Rdl_Manifests\<close>.\<close>

fun run_tool ::
    "'s api \<Rightarrow> lib \<Rightarrow> 'm rdl_core \<Rightarrow> (str \<Rightarrow> json) \<Rightarrow> signing_key_args \<Rightarrow> str \<Rightarrow> tool_command \<Rightarrow> ('s, cli_error, unit) eff" where
  "run_tool A L R schema keys repo (Intent_Write path) = void (intent_write A L keys repo path)"
| "run_tool A L R schema keys repo (Issue_Import f privacy) = void (issue_import A L keys repo f privacy)"
| "run_tool A L R schema keys repo (Work_Start f privacy input in_place) =
     void (work_start A L keys f privacy (input\<lparr>si_repo := repo\<rparr>) in_place)"
| "run_tool A L R schema keys repo (Attempt_Start input in_place) = void (attempt_start A L keys (input\<lparr>si_repo := repo\<rparr>) in_place)"
| "run_tool A L R schema keys repo (Attempt_Submit input) = void (attempt_submit A L keys (input\<lparr>ti_repo := repo\<rparr>))"
| "run_tool A L R schema keys repo (Attempt_Abandon input) = void (attempt_abandon A L keys (input\<lparr>ti_repo := repo\<rparr>))"
| "run_tool A L R schema keys repo (Attempt_Status attempt_id) = void (build_attempt_status_report A L repo attempt_id)"
| "run_tool A L R schema keys repo (Run_Exec input) = void (run_exec A L R schema keys (input\<lparr>re_repo := repo\<rparr>))"
| "run_tool A L R schema keys repo (Change_Detect attempt_id run_ids) = void (change_detect A L keys repo attempt_id run_ids)"
| "run_tool A L R schema keys repo (Patch_Prepare attempt_id) = void (patch_prepare A L keys repo attempt_id)"
| "run_tool A L R schema keys repo (Patch_Apply input) = void (patch_apply A L (input\<lparr>pai_repo := repo\<rparr>))"
| "run_tool A L R schema keys repo (Patch_Retire input) = void (patch_retire A L (input\<lparr>pri_repo := repo\<rparr>))"
| "run_tool A L R schema keys repo Review_Queue = void (build_patch_review_queue A L repo)"
| "run_tool A L R schema keys repo (Note_Send draft) = void (note_send A L keys repo draft)"
| "run_tool A L R schema keys repo (Note_Inbox args) = void (note_inbox A L (args\<lparr>nx_repo := repo\<rparr>))"
| "run_tool A L R schema keys repo Sync_Verify = void (build_sync_verify A L repo)"

definition session ::
    "'s api \<Rightarrow> lib \<Rightarrow> 'm rdl_core \<Rightarrow> (str \<Rightarrow> json) \<Rightarrow> signing_key_args \<Rightarrow> str \<Rightarrow> tool_command list \<Rightarrow> ('s, cli_error, unit) eff" where
  "session A L R schema keys repo = e_each (run_tool A L R schema keys repo)"

text \<open>
  What a session must not do to the store behind the tool: the program of a \<^verbatim>\<open>run exec\<close> leaves the
  ledger alone, and the id of a patch to apply, which becomes part of a file name, has no slash.
\<close>

fun harmless :: "('s \<Rightarrow> bool) \<Rightarrow> ('s \<Rightarrow> ledger_map) \<Rightarrow> 's api \<Rightarrow> tool_command \<Rightarrow> bool" where
  "harmless good objs A (Run_Exec input) \<longleftrightarrow> (\<forall>w. quiet good objs (a_spawn A (run_command input w)))"
| "harmless good objs A (Patch_Apply input) \<longleftrightarrow> CHR ''/'' \<notin> set (pai_patch_id input)"
| "harmless good objs A c \<longleftrightarrow> True"

lemma stepwise_void: "stepwise good objs m \<Longrightarrow> stepwise good objs (void m)"
  unfolding void_def by (intro stepwise_bind) (simp_all add: stepwise_quiet)

lemma stepwise_each: "(\<And>x. x \<in> set xs \<Longrightarrow> stepwise good objs (f x)) \<Longrightarrow> stepwise good objs (e_each f xs)"
  by (induction xs) (auto intro: stepwise_bind stepwise_quiet)

context ledger
begin

lemma status_report_quiet: "quiet good objs (build_attempt_status_report A L repo i)"
  unfolding build_attempt_status_report_def
proof (rule quiet_bind [OF find_attempt_quiet], rule quiet_bind [OF effective_status_quiet], rule quiet_pair,
    rule quiet_bind [OF attempt_worktree_path_quiet])
  fix attempt st src path
  let ?k = "\<lambda>worktree_exists. e_bind (if worktree_exists then e_bind (detect_attempt_diff A L repo attempt) (\<lambda>d. e_ret (Some d)) else e_ret None)
          (\<lambda>detected. e_ret \<lparr>as_attempt_id = att_attempt_id attempt, as_intent_id = att_intent_id attempt,
             as_base_commit = att_base_commit attempt, as_agent_id = att_agent_id attempt, as_status = st,
             as_status_object_id = src, as_worktree_path = path, as_worktree_exists = worktree_exists,
             as_changed = map_option dd_changed detected, as_diff_hash = map_option dd_diff_hash detected,
             as_diff_bytes = map_option dd_diff_bytes detected,
             as_file_paths = (case detected of Some d \<Rightarrow> dd_file_paths d | None \<Rightarrow> [])\<rparr>)"
  have "quiet good objs (?k b)" for b by (intro quiets)
  then show "quiet good objs (\<lambda>s. let worktree_exists = a_is_dir A s path in ?k worktree_exists s)"
    unfolding Let_def by (rule quiet_fun [OF exI, OF conjI]) (rule refl)
qed

lemma tool_steps: "harmless good objs A c \<Longrightarrow> stepwise good objs (run_tool A L R schema keys repo c)"
proof (cases c)
  case (Run_Exec input)
  moreover assume "harmless good objs A c"
  ultimately have "quiet good objs (a_spawn A (run_command (input\<lparr>re_repo := repo\<rparr>) w))" for w
    by (simp add: run_command_def)
  then show ?thesis using Run_Exec by (auto intro!: stepwise_void run_exec_steps)
qed (auto intro!: stepwise_void intent_write_steps issue_import_steps work_start_steps attempt_start_steps attempt_submit_steps
    attempt_abandon_steps change_detect_steps patch_prepare_steps patch_apply_steps patch_retire_steps note_send_steps
    stepwise_quiet [OF status_report_quiet] stepwise_quiet [OF review_queue_quiet] stepwise_quiet [OF note_inbox_quiet]
    stepwise_quiet [OF sync_verify_quiet])

lemma session_steps: "list_all (harmless good objs A) cs \<Longrightarrow> stepwise good objs (session A L R schema keys repo cs)"
  unfolding session_def by (intro stepwise_each tool_steps) (simp add: list_all_iff)

end

end
