(* ===== verification/Cli_Progress.thy ===== *)
theory Cli_Progress
  imports Cli_Life
begin

text \<open>
  When listing and reading work, so do the commands over them: in a ledger whose bodies have their
  types, every listing is complete and every started attempt has a status that the command reports.
  The Git store fulfils the assumption in a calm state: an initialised store, no fault, and objects that
  match their ids.
\<close>

section \<open>The stronger contract\<close>

text \<open>The record of a transition made at a time.\<close>

definition transition_at :: "attempt_transition_input \<Rightarrow> attempt_status \<Rightarrow> u64 \<Rightarrow> attempt_status_transition" where
  "transition_at input status now = \<lparr>tr_attempt_id = ti_attempt_id input, tr_status = status, tr_reason = ti_reason input,
     tr_created_by = ti_by input, tr_created_at_ms = now\<rparr>"

locale live_ledger = ledger +
  fixes calm :: "'s \<Rightarrow> bool"
  assumes calm_good: "calm s \<Longrightarrow> good s"
    and list_returns: "calm s \<Longrightarrow> \<exists>es s'. a_list A repo k s = (Inr es, s') \<and> calm s'"
    and read_returns: "calm s \<Longrightarrow> objs s i = Some obj \<Longrightarrow> \<exists>rep s'. a_read A repo i s = (Inr rep, s') \<and> calm s'"
    and write_returns: "calm s \<Longrightarrow> plain_body body \<Longrightarrow>
      canonical_object_new L kind DEFAULT_SCHEMA_VERSION 0 body = Inr obj \<Longrightarrow> objs s (co_object_id obj) = None \<Longrightarrow>
      \<exists>rep s'. a_write_cached A repo kind body s = (Inr rep, s') \<and> calm s'"

lemma keeps_some_or: "keeps P (some_or m x)"
  by (simp add: some_or_def split: option.split)

context live_ledger
begin

lemma read_entry_returns:
  assumes "calm s" "objs s (le_object_id le) = Some obj" "d (co_body obj) \<noteq> None"
  shows "\<exists>e s'. read_entry A L repo d le s = (Inr e, s') \<and> calm s'"
proof -
  obtain rep s1 where r: "a_read A repo (le_object_id le) s = (Inr rep, s1)" "calm s1"
    using read_returns [OF assms(1,2)] by blast
  have "rr_object rep = obj" using read_exact [OF calm_good [OF assms(1)] assms(2) r(1)] by simp
  then obtain v where "d (co_body (rr_object rep)) = Some v" using assms(3) by auto
  then have v: "decode L d (co_body (rr_object rep)) s1 = (Inr v, s1)" by simp
  have g: "gitm L (a_read A repo (le_object_id le)) s = (Inr rep, s1)" using r by simp
  show ?thesis using r(2) by (simp add: read_entry_def e_bind_def e_ret_def g v)
qed

lemma read_each_returns:
  assumes "calm s" "\<forall>le \<in> set les. \<exists>obj. objs s (le_object_id le) = Some obj \<and> d (co_body obj) \<noteq> None"
  shows "\<exists>es s'. e_map (read_entry A L repo d) les s = (Inr es, s') \<and> calm s'"
  using assms
proof (induction les arbitrary: s)
  case (Cons le les)
  obtain obj where "objs s (le_object_id le) = Some obj" "d (co_body obj) \<noteq> None" using Cons.prems(2) by auto
  then have "\<exists>e s'. read_entry A L repo d le s = (Inr e, s') \<and> calm s'" by (rule read_entry_returns [OF Cons.prems(1)])
  then obtain e s1 where e: "read_entry A L repo d le s = (Inr e, s1)" "calm s1" by blast
  have "objs s1 = objs s" using quietD [OF read_entry_quiet calm_good [OF Cons.prems(1)] e(1)] by simp
  then have "\<forall>le \<in> set les. \<exists>obj. objs s1 (le_object_id le) = Some obj \<and> d (co_body obj) \<noteq> None"
    using Cons.prems(2) by simp
  then obtain es s2 where "e_map (read_entry A L repo d) les s1 = (Inr es, s2)" "calm s2"
    using Cons.IH [OF e(2)] by blast
  then have "e_map (read_entry A L repo d) (le # les) s = (Inr (e # es), s2)" by (simp add: e_bind_def e_ret_def e(1))
  then show ?case using \<open>calm s2\<close> by blast
qed (simp add: e_ret_def)

lemma read_entries_return:
  assumes "calm s" "\<forall>i obj. objs s i = Some obj \<longrightarrow> co_kind obj = kind \<longrightarrow> d (co_body obj) \<noteq> None"
  shows "\<exists>es s'. read_entries A L repo kind d s = (Inr es, s') \<and> calm s'"
proof -
  obtain les s1 where l: "a_list A repo (Some kind) s = (Inr les, s1)" "calm s1" using list_returns [OF assms(1)] by blast
  note lo = listed_object [OF calm_good [OF assms(1)] l(1)]
  have "\<exists>obj. objs s1 (le_object_id le) = Some obj \<and> d (co_body obj) \<noteq> None" if le: "le \<in> set les" for le
  proof -
    obtain obj where "objs s (le_object_id le) = Some obj" "co_kind obj = kind"
      using lo(3) le unfolding listing_of_def kind_matches_def by (metis (mono_tags, lifting) image_eqI option.inject option.simps(5))
    then show ?thesis using assms(2) lo(2) by auto
  qed
  then have "\<exists>es s'. e_map (read_entry A L repo d) les s1 = (Inr es, s') \<and> calm s'"
    by (intro read_each_returns [OF l(2)]) blast
  moreover have "gitm L (a_list A repo (Some kind)) s = (Inr les, s1)" using l by simp
  ultimately show ?thesis by (simp add: read_entries_def e_bind_def del: lifts_Inr)
qed

text \<open>In a well typed ledger, the first attempt with an id is found, and its status computed.\<close>

lemma find_attempt_returns:
  assumes "calm s" "ledger_typed (objs s)" "attempts_in (objs s) i = Some a"
  shows "\<exists>b s'. find_attempt A L repo (att_attempt_id a) s = (Inr b, s') \<and> calm s'"
proof -
  have "\<forall>i obj. objs s i = Some obj \<longrightarrow> co_kind obj = ''agent.attempt'' \<longrightarrow> agent_attempt_of_json (co_body obj) \<noteq> None"
    using assms(2) by (auto simp: ledger_typed_def well_typed_def)
  then obtain es s1 where es: "read_entries A L repo ''agent.attempt'' agent_attempt_of_json s = (Inr es, s1)" "calm s1"
    using read_entries_return [OF assms(1)] by metis
  have v: "views (attempts_in (objs s)) es" by (rule read_entries_view [OF calm_good [OF assms(1)] es(1)])
  then have "find (\<lambda>e. att_attempt_id (en_value e) = att_attempt_id a) es \<noteq> None"
    using views_find_None [OF v, of "\<lambda>b. att_attempt_id b = att_attempt_id a"] assms(3) by blast
  then show ?thesis using es
    by (auto simp: find_attempt_def list_attempts_def e_bind_def e_ret_def find_sort_key some_or_def)
qed

lemma effective_status_returns:
  assumes "calm s" "ledger_typed (objs s)" "attempts_in (objs s) i = Some a"
  shows "\<exists>st src s'. effective_attempt_status A L repo (att_attempt_id a) s = (Inr (st, src), s') \<and> calm s' \<and>
    objs s' = objs s \<and> status_in (objs s) (att_attempt_id a) st src"
proof -
  obtain b s1 where b: "find_attempt A L repo (att_attempt_id a) s = (Inr b, s1)" "calm s1"
    using find_attempt_returns [OF assms] by blast
  have o1: "objs s1 = objs s" using quietD [OF find_attempt_quiet calm_good [OF assms(1)] b(1)] by simp
  have "\<forall>i obj. objs s1 i = Some obj \<longrightarrow> co_kind obj = ''agent.attempt_status'' \<longrightarrow>
      attempt_status_transition_of_json (co_body obj) \<noteq> None"
    using assms(2) o1 by (auto simp: ledger_typed_def well_typed_def)
  then obtain es s2 where es: "read_entries A L repo ''agent.attempt_status'' attempt_status_transition_of_json s1 = (Inr es, s2)" "calm s2"
    using read_entries_return [OF b(2)] by metis
  have "\<exists>p. effective_attempt_status A L repo (att_attempt_id a) s = (Inr p, s2)"
    by (simp add: effective_attempt_status_def e_bind_def e_ret_def b(1) es(1))
  then obtain st src where r: "effective_attempt_status A L repo (att_attempt_id a) s = (Inr (st, src), s2)" by auto
  show ?thesis
    using r es(2) effective_status_in [OF calm_good [OF assms(1)] r]
      quietD [OF effective_status_quiet calm_good [OF assms(1)] r] by blast
qed

text \<open>With a clock that answers, a running attempt takes its next transition, unless the id is taken.\<close>

lemma write_unsigned_returns:
  assumes "calm s" "plain_body body" "canonical_object_new L kind DEFAULT_SCHEMA_VERSION 0 body = Inr obj"
    and "objs s (co_object_id obj) = None"
  shows "\<exists>rep s'. write_signed_or_cached A L repo kind body None s = (Inr rep, s') \<and> calm s'"
  using write_returns [OF assms] by (simp add: write_signed_or_cached_def)

lemma transition_returns:
  assumes c: "calm s" "ledger_typed (objs s)" and a: "attempts_in (objs s) i = Some a" "ti_attempt_id input = att_attempt_id a"
    and r: "ti_repo input = repo" and st: "status_in (objs s) (att_attempt_id a) st src" "st \<in> {Running, Planned}"
    and still: "I s" "\<And>kind (d :: json \<Rightarrow> agent_attempt option). keeps I (read_entries A L repo kind d)"
      "\<And>kind (d :: json \<Rightarrow> attempt_status_transition option). keeps I (read_entries A L repo kind d)"
    and clock: "\<And>s. calm s \<Longrightarrow> I s \<Longrightarrow> \<exists>s'. a_now A s = (Inr n, s') \<and> calm s'"
    and new: "canonical_object_new L ''agent.attempt_status'' DEFAULT_SCHEMA_VERSION 0
      (attempt_status_transition_json (transition_at input status n)) = Inr obj" "objs s (co_object_id obj) = None"
    and plain: "\<And>t. plain_body (attempt_status_transition_json t)"
  shows "\<exists>rep s'. write_attempt_transition A L input status None s = (Inr rep, s') \<and> calm s' \<and>
    tp_transition rep = transition_at input status n \<and> wr_object_id (tp_object rep) = co_object_id obj \<and>
    objs s' = (objs s)(co_object_id obj \<mapsto> obj)"
proof -
  obtain b s1 where b: "find_attempt A L repo (att_attempt_id a) s = (Inr b, s1)" "calm s1"
    using find_attempt_returns [OF c a(1)] by blast
  have s1: "objs s1 = objs s" using quietD [OF find_attempt_quiet calm_good [OF c(1)] b(1)] by simp
  have bid: "att_attempt_id b = att_attempt_id a"
    using find_attempt_exact [OF calm_good [OF c(1)] b(1)] b(1) unfolding find_attempt_def
    by (auto elim!: e_bind_Inr simp: find_Some_iff)
  obtain st' src' s2 where e: "effective_attempt_status A L repo (att_attempt_id a) s1 = (Inr (st', src'), s2)" "calm s2"
    "objs s2 = objs s" "status_in (objs s) (att_attempt_id a) st' src'"
    using effective_status_returns [OF b(2)] c(2) a(1) unfolding s1 by blast
  have active: "st' = Running \<or> st' = Planned" using status_in_unique [OF e(4) st(1)] st(2) by simp
  have find: "keeps I (find_attempt A L repo (att_attempt_id a))"
    unfolding find_attempt_def list_attempts_def by (intro keeps_bind keeps_basic still keeps_some_or)
  then have eff: "keeps I (effective_attempt_status A L repo (att_attempt_id a))"
    unfolding effective_attempt_status_def by (intro keeps_bind keeps_basic still)
  have "I s2" by (rule keepsD [OF eff e(1) keepsD [OF find b(1) still(1)]])
  then obtain s3 where n: "a_now A s2 = (Inr n, s3)" "calm s3" using clock [OF e(2)] by blast
  have s3: "objs s3 = objs s" using quietD [OF now_quiet calm_good [OF e(2)] n(1)] e(3) by simp
  let ?t = "transition_at input status n"
  note o1 = new
  then obtain rep s4 where w: "write_signed_or_cached A L repo ''agent.attempt_status'' (attempt_status_transition_json ?t) None s3 = (Inr rep, s4)"
    "calm s4" using write_unsigned_returns [OF n(2) plain] s3 by metis
  have s4: "wr_object_id rep = co_object_id obj \<and> objs s4 = (objs s)(co_object_id obj \<mapsto> obj)"
    using write_cached_new [OF _ calm_good [OF n(2)] plain] w(1) o1(1) s3 canonical_plain_body [OF plain]
    by (fastforce simp: write_signed_or_cached_def)
  have now: "now_ms A s2 = (Inr n, s3)" using n(1) by (simp add: now_ms_def)
  have "write_attempt_transition A L input status None s = (Inr \<lparr>tp_status = ''ok'', tp_attempt_id = att_attempt_id a,
      tp_effective_status = status, tp_transition = ?t, tp_object = rep\<rparr>, s4)"
    using active w(1)
    by (simp add: transition_at_def write_attempt_transition_def e_bind_def e_ret_def r a(2) b(1) bid e(1) now ensure_def Let_def)
  then show ?thesis using w(2) s4 by auto
qed

lemma submit_returns:
  assumes c: "calm s" "ledger_typed (objs s)" and a: "attempts_in (objs s) i = Some a" "ti_attempt_id input = att_attempt_id a"
    and p: "patches_in (objs s) j = Some p" "pp_attempt_id p = att_attempt_id a"
    and r: "ti_repo input = repo" and st: "status_in (objs s) (att_attempt_id a) st src" "st \<in> {Running, Planned}"
    and still: "I s" "\<And>kind (d :: json \<Rightarrow> agent_attempt option). keeps I (read_entries A L repo kind d)"
      "\<And>kind (d :: json \<Rightarrow> attempt_status_transition option). keeps I (read_entries A L repo kind d)"
      "\<And>kind (d :: json \<Rightarrow> prepared_patch option). keeps I (read_entries A L repo kind d)"
    and clock: "\<And>s. calm s \<Longrightarrow> I s \<Longrightarrow> \<exists>s'. a_now A s = (Inr n, s') \<and> calm s'"
    and new: "canonical_object_new L ''agent.attempt_status'' DEFAULT_SCHEMA_VERSION 0
      (attempt_status_transition_json (transition_at input Submitted n)) = Inr obj" "objs s (co_object_id obj) = None"
    and plain: "\<And>t. plain_body (attempt_status_transition_json t)"
    and key: "resolve_signing_key A L keys (ti_by input) s = (Inr None, s)"
  shows "\<exists>rep s'. attempt_submit A L keys input s = (Inr rep, s') \<and> calm s' \<and>
    tp_transition rep = transition_at input Submitted n \<and> wr_object_id (tp_object rep) = co_object_id obj \<and>
    objs s' = (objs s)(co_object_id obj \<mapsto> obj)"
proof -
  have "\<forall>i obj. objs s i = Some obj \<longrightarrow> co_kind obj = ''agent.patch'' \<longrightarrow> prepared_patch_of_json (co_body obj) \<noteq> None"
    using c(2) by (auto simp: ledger_typed_def well_typed_def)
  then obtain es s1 where es: "read_entries A L repo ''agent.patch'' prepared_patch_of_json s = (Inr es, s1)" "calm s1"
    using read_entries_return [OF c(1)] by metis
  have v: "views (patches_in (objs s)) es" by (rule read_entries_view [OF calm_good [OF c(1)] es(1)])
  have s1: "objs s1 = objs s" using quietD [OF read_entries_quiet calm_good [OF c(1)] es(1)] by simp
  let ?ps = "sort_key (\<lambda>e. pp_patch_id (en_value e)) es"
  have l: "list_patches A L repo s = (Inr ?ps, s1)" by (simp add: list_patches_def e_bind_def e_ret_def es(1))
  have "\<exists>e \<in> set es. en_object_id e = j \<and> en_value e = p" using v p(1) by (simp add: views_def)
  then have ex: "list_ex (\<lambda>e. pp_attempt_id (en_value e) = att_attempt_id a) ?ps" using p(2) by (auto simp: list_ex_iff)
  have i1: "I s1" by (rule keepsD [OF still(4) es(1) still(1)])
  obtain rep s' where t: "write_attempt_transition A L input Submitted None s1 = (Inr rep, s')" "calm s'"
    "tp_transition rep = transition_at input Submitted n" "wr_object_id (tp_object rep) = co_object_id obj"
    "objs s' = (objs s)(co_object_id obj \<mapsto> obj)"
    using transition_returns [OF es(2), unfolded s1, OF c(2) a r st i1 still(2,3) clock new plain] by blast
  have "attempt_submit A L keys input s = (Inr rep, s')"
    unfolding attempt_submit_def r a(2) using ex t(1) by (simp add: e_bind_def key l ensure_def)
  then show ?thesis using t by blast
qed

end

text \<open>The first transition of an attempt decides its status.\<close>

lemma first_transition_status:
  assumes "life_ok M" "status_in M x st src" "st \<in> {Running, Planned}" "M i = None"
    and "co_kind obj = ''agent.attempt_status''" "co_body obj = attempt_status_transition_json t" "tr_attempt_id t = x"
  shows "status_in (M(i \<mapsto> obj)) x (tr_status t) (Some i)"
proof -
  have "transitions_in (M(i \<mapsto> obj)) = (transitions_in M)(i \<mapsto> t)" using assms(5,6) by (auto simp: typed_def fun_eq_iff)
  moreover have "tr_attempt_id u \<noteq> x" if "transitions_in M j = Some u" for j u
    by (rule active_no_transition [OF assms(1-3) that])
  ultimately show ?thesis using assms(7) by (auto simp: status_in_def)
qed

section \<open>The Git store in a calm state\<close>

text \<open>What only works on the store leaves the outside, and so the next reading of the clock, alone.\<close>

lemma keeps_snd_world: "keeps (\<lambda>s. Q (snd s)) (on_world m)"
  by (rule keepsI) (simp add: on_world_iff)

lemma keeps_gitm: "keeps P m \<Longrightarrow> keeps P (gitm L m)"
  unfolding gitm_def by (rule keeps_map_err)

lemma keeps_snd_read: "keeps (\<lambda>s. Q (snd s)) (read_entries (git_api G L P) L' repo kind d)"
  unfolding read_entries_def read_entry_def
  by (auto intro!: keeps_bind keeps_gitm keeps_e_map simp: git_api_def keeps_snd_world decode_def)

definition cache_files :: "path \<Rightarrow> fs \<Rightarrow> bool" where
  "cache_files gd s \<longleftrightarrow> (\<forall>h. tree s (cache_path_of gd h) \<noteq> Some Dir) \<and> (\<forall>i. tree s (temp_path_of gd i) \<noteq> Some Dir)"

text \<open>A Git repository whose operations succeed, and a cache without files of unknown objects.\<close>

definition gix_calm :: "'g gix \<Rightarrow> bool" where
  "gix_calm G \<longleftrightarrow> (\<forall>g b. is_ok (fst (write_blob G b g))) \<and> (\<forall>g n. is_ok (find_reference G g n)) \<and>
     (\<forall>g n k m. find_reference G g n = Inr None \<longrightarrow> is_ok (fst (set_reference G n k MustNotExist m g))) \<and>
     (\<forall>g p. \<exists>rs. references_prefixed G g p = Inr rs \<and> list_all is_ok rs)"

definition cache_backed :: "'g gix \<Rightarrow> path \<Rightarrow> 'g world \<Rightarrow> bool" where
  "cache_backed G gd w \<longleftrightarrow> (\<forall>h b. hex_ok h \<longrightarrow> tree (w_fs w) (cache_path_of gd h) = Some (File b) \<longrightarrow>
     find_reference G (w_git w) (ref_name_of h) \<noteq> Inr None)"

definition host_calm :: "'g gix \<Rightarrow> lib \<Rightarrow> ('g, 'p) outside \<Rightarrow> str \<Rightarrow> 'g world \<times> 'p \<Rightarrow> bool" where
  "host_calm G L P repo s \<longleftrightarrow> host_good G L P repo s \<and> gix_calm G \<and> faults (w_fs (fst s)) = [] \<and>
     (\<exists>gd. store_ready G (o_path P repo) gd (fst s) \<and> store_dirs_ok gd (w_fs (fst s)) \<and> cache_files gd (w_fs (fst s)) \<and>
        cache_backed G gd (fst s)) \<and>
     (\<forall>h obj. holds G L (w_git (fst s)) h obj \<longrightarrow> fields_ok L obj \<and> json_ok (co_body obj))"

lemma cache_path_not_above_other: "cache_path_of gd h' \<notin> set (ancestors_of (butlast (cache_path_of gd h)))"
proof
  assume "cache_path_of gd h' \<in> set (ancestors_of (butlast (cache_path_of gd h)))"
  then obtain r where "butlast (cache_path_of gd h) = cache_path_of gd h' @ r" by (auto simp: in_ancestors_of)
  then have "length (butlast (cache_path_of gd h)) = length (cache_path_of gd h' @ r)" by (rule arg_cong)
  then show False by (simp add: cache_path_of_def)
qed

lemma cache_files_write:
  "keeps (cache_files gd) (write_object_cache_bytes (temp_dir_of gd) (cache_path_of gd h) i b)"
proof (rule keeps_write_cache)
  show "keeps (cache_files gd) (fs_create_dir_all (butlast (cache_path_of gd h)))"
  proof (rule keepsI)
    fix s r s' assume run: "fs_create_dir_all (butlast (cache_path_of gd h)) s = (r, s')" and c: "cache_files gd s"
    have "tree s' q = tree s q" if "q \<notin> set (ancestors_of (butlast (cache_path_of gd h)))" for q
      using fs_create_dir_all_tree(1) [OF run, of q] that by blast
    then show "cache_files gd s'"
      using c cache_path_not_above_other temp_path_not_above unfolding cache_files_def by metis
  qed
  show "keeps (cache_files gd) (fs_read (cache_path_of gd h))"
    by (rule keepsI) (simp add: cache_files_def fs_read_tree)
  show "keeps (cache_files gd) (fs_write (temp_dir_of gd @ [replace_char CHR '':'' CHR ''-'' i @ ''.tmp'']) b)"
    unfolding temp_path_of_def [symmetric]
  proof (rule keepsI)
    fix s r s' assume "fs_write (temp_path_of gd i) b s = (r, s')" and c: "cache_files gd s"
    then show "cache_files gd s'" by (cases rule: fs_write_tree) (auto simp: cache_files_def)
  qed
  show "keeps (cache_files gd) (fs_rename (temp_dir_of gd @ [replace_char CHR '':'' CHR ''-'' i @ ''.tmp'']) (cache_path_of gd h))"
    unfolding temp_path_of_def [symmetric]
  proof (rule keepsI)
    fix s r s' assume run: "fs_rename (temp_path_of gd i) (cache_path_of gd h) s = (r, s')" and c: "cache_files gd s"
    from run store_paths_distinct(1) show "cache_files gd s'"
      by (cases rule: fs_rename_tree) (use c in \<open>auto simp: cache_files_def\<close>)
  qed
qed

lemma calm_list:
  assumes "host_calm G L P repo s"
  shows "\<exists>es. a_list (git_api G L P) repo k s = (Inr es, s)"
proof -
  obtain gd where gd: "store_ready G (o_path P repo) gd (fst s)" using assms by (auto simp: host_calm_def)
  obtain rs where rs: "references_prefixed G (w_git (fst s)) OBJECT_PREFIX = Inr rs" "list_all is_ok rs"
    using assms unfolding host_calm_def gix_calm_def by blast
  have good: "lists_exactly G" "refs_good G L (w_git (fst s))" using assms by (auto simp: host_calm_def host_good_def store_good_def)
  have "is_ok (list_entry G L (w_git (fst s)) x)" if x: "x \<in> set rs" for x
  proof -
    obtain n i where nk: "x = Inr (n, i)" using rs(2) x by (cases x) (auto simp: list_all_iff is_ok_def)
    then have "starts_with n OBJECT_PREFIX" "find_reference G (w_git (fst s)) n = Inr (Some i)"
      using good(1) rs(1) x unfolding lists_exactly_def by blast+
    then obtain h obj where "n = ref_name_of h" "holds G L (w_git (fst s)) h obj" using good(2) unfolding refs_good_def by blast
    then obtain b where "find_blob G (w_git (fst s)) i = Inr b" "read_object_bytes L b = Inr obj"
      using \<open>find_reference G (w_git (fst s)) n = Inr (Some i)\<close> by (auto simp: holds_def)
    then show ?thesis by (simp add: nk list_entry_def)
  qed
  then have "list_entry G L (w_git (fst s)) x = Inr (projr (list_entry G L (w_git (fst s)) x))" if "x \<in> set rs" for x
    using that by (cases "list_entry G L (w_git (fst s)) x") fastforce+
  then have "r_collect (list_entry G L (w_git (fst s))) rs = Inr (map (\<lambda>x. projr (list_entry G L (w_git (fst s)) x)) rs)"
    by (rule r_collect_total)
  then obtain es where es: "r_collect (list_entry G L (w_git (fst s))) rs = Inr es" by blast
  have "open_initialized_store G (o_path P repo) (fst s) = (Inr \<lparr>st_git_dir = gd, st_temp_dir = temp_dir_of gd\<rparr>, fst s)"
    by (rule open_store_ready [OF gd]) (use assms in \<open>simp add: host_calm_def\<close>)
  then have "list_ref_backed_objects G L (o_path P repo) k (fst s) =
      (Inr (sort_key le_object_id (filter (\<lambda>e. case k of None \<Rightarrow> True | Some k \<Rightarrow> le_kind e = k) es)), fst s)"
    by (simp only: list_ref_backed_objects_def e_bind_def e_gets_def e_ret_def rs(1) [unfolded OBJECT_PREFIX_def] map_err_def
        r_bind_simps es prod.case sum.case)
  then show ?thesis by (cases s) (auto simp: git_api_def on_world_def)
qed

lemma cache_backed_write:
  assumes "cache_backed G gd w" "write_object_cache_bytes (temp_dir_of gd) (cache_path_of gd h) i b (w_fs w) = (r, s1)"
    and "find_reference G g' (ref_name_of h) \<noteq> Inr None"
    and "\<And>n. find_reference G (w_git w) n \<noteq> Inr None \<Longrightarrow> find_reference G g' n \<noteq> Inr None"
  shows "cache_backed G gd \<lparr>w_fs = s1, w_git = g'\<rparr>"
  unfolding cache_backed_def
proof (intro allI impI)
  fix h' b' assume h': "hex_ok h'" "tree (w_fs \<lparr>w_fs = s1, w_git = g'\<rparr>) (cache_path_of gd h') = Some (File b')"
  show "find_reference G (w_git \<lparr>w_fs = s1, w_git = g'\<rparr>) (ref_name_of h') \<noteq> Inr None"
  proof (cases "cache_path_of gd h' = cache_path_of gd h")
    case True
    then have "h' = h" by (simp add: cache_path_of_def)
    then show ?thesis using assms(3) by simp
  next
    case False
    then have "tree (w_fs w) (cache_path_of gd h') = Some (File b')"
      using write_cache_eff(2) [OF assms(2) False] h'(2) by auto
    then show ?thesis using assms(1,4) h'(1) by (auto simp: cache_backed_def)
  qed
qed

lemma calm_read:
  assumes c: "host_calm G L P repo s" and o1: "host_objects G L s i = Some obj"
  shows "\<exists>rep s'. a_read (git_api G L P) repo i s = (Inr rep, s') \<and> host_calm G L P repo s'"
proof -
  let ?p = "o_path P repo" and ?w = "fst s"
  obtain gd where gd: "store_ready G ?p gd ?w" "store_dirs_ok gd (w_fs ?w)" "cache_files gd (w_fs ?w)" "cache_backed G gd ?w"
    using c by (auto simp: host_calm_def)
  have calm: "faults (w_fs ?w) = []" using c by (simp add: host_calm_def)
  obtain wd where disc: "discover G (w_git ?w) ?p = Inr (gd, wd)" using gd(1) by (auto simp: store_ready_def)
  have good: "refs_good G L (w_git ?w)" "cache_agrees G L gd ?w"
    using c disc by (auto simp: host_calm_def host_good_def store_good_def)
  obtain h where h: "i = id_of h" "holds G L (w_git ?w) h obj" using o1 by (auto simp: host_objects_def repo_objects_iff)
  then obtain k b where k: "hex_ok h" "find_reference G (w_git ?w) (ref_name_of h) = Inr (Some k)"
    "find_blob G (w_git ?w) k = Inr b" "read_object_bytes L b = Inr obj" by (auto simp: holds_def)
  have hex: "object_hex i = Inr h" using k(1) h(1) by simp
  have fields: "fields_ok L obj" using c h(2) unfolding host_calm_def by blast
  have id: "co_object_id obj = i"
    using refs_goodD [OF good(1) k(2,1)] k h by (metis holds_def option.inject sum.inject(2))
  have "\<exists>rep w'. read_cached_object G L ?p i ?w = (Inr rep, w') \<and> faults (w_fs w') = [] \<and> store_ready G ?p gd w' \<and>
      store_dirs_ok gd (w_fs w') \<and> cache_files gd (w_fs w') \<and> cache_backed G gd w'"
  proof (cases "tree (w_fs ?w) (cache_path_of gd h)")
    case None
    obtain s1 where s1: "write_object_cache_bytes (temp_dir_of gd) (cache_path_of gd h) i b (w_fs ?w) = (Inr Written, s1)"
      using write_cache_succeeds [OF gd(2) calm None] by blast
    have "store_dirs_ok gd s1" by (rule keepsD [OF keeps_dirs_write_cache s1 gd(2)])
    moreover have "cache_files gd s1" by (rule keepsD [OF cache_files_write s1 gd(3)])
    moreover have "cache_backed G gd (?w\<lparr>w_fs := s1\<rparr>)"
      using cache_backed_write [OF gd(4) s1, of "w_git ?w"] k(2) by (cases ?w) simp
    moreover have "store_ready G ?p gd (?w\<lparr>w_fs := s1\<rparr>)"
      using gd(1) write_cache_eff(2) [OF s1, of "version_file_of gd"] write_cache_eff(2) [OF s1, of "temp_dir_of gd"]
      by (auto simp: store_ready_def)
    ultimately show ?thesis
      using read_ref_backed [OF gd(1) calm hex None k(4,2,3) fields id s1] write_cache_eff(4) [OF s1 calm] by simp
  next
    case (Some n)
    then obtain b' where b': "tree (w_fs ?w) (cache_path_of gd h) = Some (File b')"
      using gd(3) by (cases n) (auto simp: cache_files_def)
    then have "read_object_bytes L b' = Inr obj" using good(2) h(2) unfolding cache_agrees_def by blast
    from read_cached_file [OF gd(1) calm hex b' this] show ?thesis using gd calm by blast
  qed
  then obtain rep w' where r: "read_cached_object G L ?p i ?w = (Inr rep, w')" "faults (w_fs w') = []" "store_ready G ?p gd w'"
      "store_dirs_ok gd (w_fs w')" "cache_files gd (w_fs w')" "cache_backed G gd w'" by blast
  have g: "store_good G L ?p ?w" using c by (simp add: host_calm_def host_good_def)
  have "host_calm G L P repo (w', snd s)"
    using c r read_run(1,2) [OF g r(1)] by (auto simp: host_calm_def host_good_def)
  moreover have "a_read (git_api G L P) repo i s = (Inr rep, (w', snd s))"
    using r(1) by (cases s) (simp add: git_api_def on_world_def)
  ultimately show ?thesis by blast
qed

text \<open>A new object is written: cache file, blob, reference.\<close>

lemma e_bind_lifted: "e_bind (e_lift (Inr x)) k = k x"
  by (simp add: fun_eq_iff eff_simps)

lemma write_cached_is_canonical:
  assumes "canonical_object_new L kind DEFAULT_SCHEMA_VERSION 0 (canonical_json body) = Inr obj"
  shows "write_cached_object G L p kind body = write_canonical_object G L p obj"
proof -
  have "object_field_diagnostics L (co_object_id obj) obj = Inr ((co_object_id obj, co_body_hash obj), [])"
    using canonical_object_new_fields [OF assms] by (simp add: field_diagnostics_clean)
  then show ?thesis
    unfolding write_cached_object_def write_canonical_object_def by (simp add: assms e_bind_lifted)
qed

lemma new_reference:
  assumes "gix_calm G" "gix_laws G" "find_reference G g n = Inr None"
  obtains k g' where "write_git_object_ref G i n b g = (Inr k, g')" "find_reference G g' = (find_reference G g)(n := Inr (Some k))"
    "discover G g' = discover G g"
proof -
  obtain r1 g1 where b: "write_blob G b g = (r1, g1)" by (rule prod.exhaust)
  then obtain k where k: "r1 = Inr k" using assms(1) unfolding gix_calm_def by (cases r1) (metis fst_conv is_ok_simps(1))+
  have g1: "find_reference G g1 = find_reference G g" "discover G g1 = discover G g"
    using assms(2) b unfolding gix_laws_def by blast+
  obtain r2 g2 where st: "set_reference G n k MustNotExist (''rickygit object '' @ i) g1 = (r2, g2)" by (rule prod.exhaust)
  have "is_ok r2" using assms(1,3) g1(1) st unfolding gix_calm_def by (metis fst_conv)
  then obtain u where r2: "r2 = Inr u" by (cases r2) auto
  have g2: "find_reference G g2 = (find_reference G g1)(n := Inr (Some k))" "discover G g2 = discover G g1"
    using assms(2) st r2 unfolding gix_laws_def by fastforce+
  have "write_git_object_ref G i n b g = (Inr k, g2)"
    using b k g1(1) assms(3) st r2 by (simp add: write_git_object_ref_def eff_simps)
  then show thesis using that g1 g2 by simp
qed

lemma calm_write:
  assumes c: "host_calm G L P repo s" and pb: "plain_body body"
    and new: "canonical_object_new L kind DEFAULT_SCHEMA_VERSION 0 body = Inr obj" and fresh: "host_objects G L s (co_object_id obj) = None"
  shows "\<exists>rep s'. a_write_cached (git_api G L P) repo kind body s = (Inr rep, s') \<and> host_calm G L P repo s'"
proof -
  let ?p = "o_path P repo" and ?w = "fst s"
  obtain gd where gd: "store_ready G ?p gd ?w" "store_dirs_ok gd (w_fs ?w)" "cache_files gd (w_fs ?w)" "cache_backed G gd ?w"
    using c by (auto simp: host_calm_def)
  have calm: "faults (w_fs ?w) = []" "gix_calm G" using c by (simp_all add: host_calm_def)
  have good: "store_good G L ?p ?w" using c by (simp add: host_calm_def host_good_def)
  then have laws: "gix_laws G" "json_codec L" "hex_codec L" "sha_sized L" "refs_good G L (w_git ?w)" by (simp_all add: store_good_def)
  have cj: "canonical_json body = body" by (rule canonical_plain_body [OF pb])
  have new': "canonical_object_new L kind DEFAULT_SCHEMA_VERSION 0 (canonical_json body) = Inr obj" unfolding cj by (rule new)
  have fields: "fields_ok L obj" by (rule canonical_object_new_fields [OF new])
  have pbo: "plain_body (co_body obj)" using canonical_object_newD(5) [OF new] pb by simp
  obtain h where h: "object_hex (co_object_id obj) = Inr h" "co_object_id obj = id_of h" by (rule fields_ok_id_of [OF fields laws(3,4)])
  have hx: "hex_ok h" by (rule object_hex_id [OF h(1)])
  have "find_reference G (w_git ?w) (ref_name_of h) \<noteq> Inr (Some k)" for k
    using fresh refs_goodD [OF laws(5) _ hx] unfolding host_objects_def h(2) by (metis option.distinct(1) repo_objects_id)
  moreover have "is_ok (find_reference G (w_git ?w) (ref_name_of h))" using calm(2) by (simp add: gix_calm_def)
  ultimately have none: "find_reference G (w_git ?w) (ref_name_of h) = Inr None"
    by (cases "find_reference G (w_git ?w) (ref_name_of h)") (simp_all, blast)
  then have free: "tree (w_fs ?w) (cache_path_of gd h) = None"
  proof (cases "tree (w_fs ?w) (cache_path_of gd h)")
    case (Some n)
    then show ?thesis using gd(3,4) hx none by (cases n) (auto simp: cache_files_def cache_backed_def)
  qed simp
  obtain b where b: "canonical_object_bytes L obj = Inr b"
    using json_codecD [OF laws(2) canonical_json_ok [OF json_ok_object [OF pbo]]] by (auto simp: canonical_object_bytes_def)
  obtain s1 where s1: "write_object_cache_bytes (temp_dir_of gd) (cache_path_of gd h) (co_object_id obj) b (w_fs ?w) = (Inr Written, s1)"
    using write_cache_succeeds [OF gd(2) calm(1) free] by blast
  obtain k g' where g': "write_git_object_ref G (co_object_id obj) (ref_name_of h) b (w_git ?w) = (Inr k, g')"
    "find_reference G g' = (find_reference G (w_git ?w))(ref_name_of h := Inr (Some k))" "discover G g' = discover G (w_git ?w)"
    by (rule new_reference [OF calm(2) laws(1) none])
  let ?w' = "\<lparr>w_fs = s1, w_git = g'\<rparr>"
  have d: "object_field_diagnostics L (co_object_id obj) obj = Inr ((co_object_id obj, co_body_hash obj), [])"
    using fields by (simp add: field_diagnostics_clean)
  have run: "\<exists>rep. write_canonical_object G L ?p obj ?w = (Inr rep, ?w')"
    using open_store_ready [OF gd(1) calm(1)] d h(1) b g'(1) s1
    by (cases ?w) (simp add: write_canonical_object_def store_object_def eff_simps on_fs_def on_git_def
        object_cache_path_Inr object_ref_name_Inr)
  then obtain rep where run: "write_canonical_object G L ?p obj ?w = (Inr rep, ?w')" by blast
  have after: "store_good G L ?p ?w'" "repo_objects G L g' = (repo_objects G L (w_git ?w))(co_object_id obj \<mapsto> obj)"
    using write_canonical_good [OF good pbo run] by simp_all
  have "cache_backed G gd ?w'"
    by (rule cache_backed_write [OF gd(4) s1]) (use g'(2) in auto)
  moreover have "store_dirs_ok gd s1" by (rule keepsD [OF keeps_dirs_write_cache s1 gd(2)])
  moreover have "cache_files gd s1" by (rule keepsD [OF cache_files_write s1 gd(3)])
  moreover have "store_ready G ?p gd ?w'"
    using gd(1) g'(3) write_cache_eff(2) [OF s1, of "version_file_of gd"] write_cache_eff(2) [OF s1, of "temp_dir_of gd"]
    by (auto simp: store_ready_def)
  moreover have "fields_ok L obj' \<and> json_ok (co_body obj')" if "holds G L g' h' obj'" for h' obj'
  proof -
    have "repo_objects G L g' (id_of h') = Some obj'" using that by (simp add: repo_objects_id)
    then have "obj' = obj \<or> holds G L (w_git ?w) h' obj'" unfolding after(2) by (auto simp: repo_objects_id split: if_splits)
    then show ?thesis using fields json_ok_object [OF pbo] json_plain_ok [OF pbo [unfolded plain_body_def]] c
      unfolding host_calm_def by blast
  qed
  ultimately have "host_calm G L P repo (?w', snd s)"
    using after(1) c write_cache_eff(4) [OF s1 calm(1)] by (auto simp: host_calm_def host_good_def)
  moreover have "a_write_cached (git_api G L P) repo kind body s = (Inr rep, (?w', snd s))"
    using run unfolding write_cached_is_canonical [OF new', symmetric] by (cases s) (simp add: git_api_def on_world_def)
  ultimately show ?thesis by blast
qed

text \<open>An object with the id of a new one has its content, unless SHA-256 collides.\<close>

lemma taken_id:
  assumes c: "host_calm G L P repo s" and ok: "json_ok body"
    and new: "canonical_object_new L kind v n body = Inr obj" and taken: "host_objects G L s (co_object_id obj) = Some o2"
  shows "(co_kind o2 = kind \<and> canonical_json (co_body o2) = canonical_json body) \<or>
    documents_collide L (id_document (co_kind o2) (co_schema_version o2) (co_body o2)) (id_document kind v body)"
proof -
  have laws: "json_codec L" "hex_codec L" using c by (simp_all add: host_calm_def host_good_def store_good_def)
  obtain h where h: "co_object_id obj = id_of h" "holds G L (w_git (fst s)) h o2"
    using taken by (auto simp: host_objects_def repo_objects_iff)
  have o2: "fields_ok L o2" "json_ok (co_body o2)" using c h(2) unfolding host_calm_def by blast+
  obtain o3 where "holds G L (w_git (fst s)) h o3" "co_object_id o3 = id_of h"
    using h(2) c refs_goodD [of G L "w_git (fst s)" h] unfolding holds_def host_calm_def host_good_def store_good_def by metis
  then have "co_object_id o2 = co_object_id obj" using h by (auto simp: holds_def)
  then have ids: "canonical_object_id L (co_kind o2) (co_schema_version o2) (co_body o2) = Inr (co_object_id obj)"
    "canonical_object_id L kind v body = Inr (co_object_id obj)"
    using o2(1) canonical_object_newD(2) [OF new] by (simp_all add: fields_ok_def)
  from stable_json_hash_eq [OF ids [unfolded canonical_object_id_def] laws] o2(2) ok show ?thesis
    by (auto simp: json_ok_id_document canonical_id_document_eq)
qed

lemma canonical_transition_attempt:
  assumes "attempt_status_transition_of_json v = Some t" "json_ok v"
    and "canonical_json v = canonical_json (attempt_status_transition_json u)"
  shows "tr_attempt_id t = tr_attempt_id u"
proof -
  have id: "json_get w ''attempt_id'' = Some (JString (tr_attempt_id x))" if "attempt_status_transition_of_json w = Some x" for w x
    using that by (auto simp: attempt_status_transition_of_json_def field_def bind_eq_Some_conv elim!: d_str.elims)
  have ok: "json_ok (attempt_status_transition_json u)" using attempt_status_transition_plain [where d = 0] json_plain_ok by blast
  have "map_option canonical_json (Some (JString (tr_attempt_id t))) = map_option canonical_json (Some (JString (tr_attempt_id u)))"
    using json_get_canonical_json [OF assms(2), of "''attempt_id''"] json_get_canonical_json [OF ok, of "''attempt_id''"]
      id [OF assms(1)] id [of "attempt_status_transition_json u" u] assms(3) by simp
  then show ?thesis by simp
qed

interpretation git_live: live_ledger "git_api G L P" L repo "host_good G L P repo" "host_objects G L" "host_calm G L P repo"
  for G :: "'g gix" and L and P :: "('g, 'p) outside" and repo
proof (unfold_locales)
  show "host_calm G L P repo s \<Longrightarrow> host_good G L P repo s" for s by (simp add: host_calm_def)
  show "\<exists>es s'. a_list (git_api G L P) repo k s = (Inr es, s') \<and> host_calm G L P repo s'" if "host_calm G L P repo s" for s k
    using calm_list [OF that] that by blast
  show "\<exists>rep s'. a_read (git_api G L P) repo i s = (Inr rep, s') \<and> host_calm G L P repo s'"
    if "host_calm G L P repo s" "host_objects G L s i = Some obj" for s i obj
    by (rule calm_read [OF that])
  show "\<exists>rep s'. a_write_cached (git_api G L P) repo kind body s = (Inr rep, s') \<and> host_calm G L P repo s'"
    if "host_calm G L P repo s" "plain_body body" "canonical_object_new L kind DEFAULT_SCHEMA_VERSION 0 body = Inr obj"
      "host_objects G L s (co_object_id obj) = None" for s body kind obj
    by (rule calm_write [OF that])
qed

end
