(* ===== verification/Cli_Reference.thy ===== *)
theory Cli_Reference
  imports Cli_Session Cli_Progress
begin

text \<open>
  A concrete host for the witnesses: the reference Git store and library, a clock that stands at seven,
  an empty environment, no subprocess and no network, and a repository that holds given objects.
\<close>

definition ref_host :: "(ref_git, unit) outside" where
  "ref_host = \<lparr>o_cwd = [], o_env = (\<lambda>_ _. None), o_now = (\<lambda>s. (Inr 7, s)),
     o_spawn = (\<lambda>_ s. (Inl ''no subprocesses'', s)), o_http = (\<lambda>_ s. (Inl ''no network'', s))\<rparr>"

definition ref_keys :: signing_key_args where
  "ref_keys = \<lparr>sk_file = None, sk_key = None, sk_label = None\<rparr>"

abbreviation ref_api :: "(ref_git world \<times> unit) api" where
  "ref_api \<equiv> git_api ref_gix ref_lib ref_host"

lemma lists_exactly_ref: "lists_exactly ref_gix"
proof -
  have "distinct (map_of_entries (rev xs))" for xs :: "(str \<times> str) list"
    using entries_ok_distinct [OF entries_ok_map_of_entries] by (rule distinct_map [THEN iffD1, THEN conjunct1])
  moreover have "(n, k) \<in> set (map_of_entries (rev xs)) \<longleftrightarrow> map_of xs n = Some k" for n k and xs :: "(str \<times> str) list"
    using map_of_map_of_entries [of "rev xs"] entries_ok_distinct [OF entries_ok_map_of_entries]
    by (metis map_of_eq_Some_iff rev_rev_ident)
  ultimately show ?thesis
    by (auto simp: lists_exactly_def ref_gix_def distinct_map inj_on_def)
qed

section \<open>A repository with given objects\<close>

definition file_bytes :: "canonical_object \<Rightarrow> bytes" where
  "file_bytes obj = put (canonical_json (object_json obj))"

definition ref_store :: "canonical_object list \<Rightarrow> ref_git world" where
  "ref_store os = ref_world\<lparr>w_git :=
     \<lparr>rg_refs = map (\<lambda>obj. (ref_name_of (drop 7 (co_object_id obj)), lower_hex (file_bytes obj))) os,
      rg_blobs = map (\<lambda>obj. lower_hex (file_bytes obj)) os\<rparr>\<rparr>"

definition storable :: "canonical_object list \<Rightarrow> bool" where
  "storable os \<longleftrightarrow> distinct (map co_object_id os) \<and>
     list_all (\<lambda>obj. plain_body (co_body obj) \<and> object_hex (co_object_id obj) = Inr (drop 7 (co_object_id obj))) os"

lemma object_hex_drop: "object_hex i = Inr (drop 7 i) \<Longrightarrow> i = id_of (drop 7 i)"
proof -
  assume h: "object_hex i = Inr (drop 7 i)"
  then obtain x where "strip_prefix ''sha256:'' i = Some x" by (auto simp: object_hex_def split: option.splits)
  then have "i = ''sha256:'' @ x" by (simp only: strip_prefix_Some_iff)
  then show ?thesis by (simp add: id_of_def)
qed

lemma storableD:
  assumes "storable os" "obj \<in> set os"
  shows "plain_body (co_body obj)" "co_object_id obj = id_of (drop 7 (co_object_id obj))" "hex_ok (drop 7 (co_object_id obj))"
  using assms object_hex_drop [of "co_object_id obj"] object_hex_id by (auto simp: storable_def list_all_iff)

lemma file_bytes_read: "plain_body (co_body obj) \<Longrightarrow> read_object_bytes ref_lib (file_bytes obj) = Inr obj"
  by (rule object_bytes_read) (simp_all add: canonical_object_bytes_def file_bytes_def, simp add: ref_lib_def)

lemma ref_store_find:
  assumes "storable os" "hex_ok h"
  shows "find_reference ref_gix (w_git (ref_store os)) (ref_name_of h) = Inr (Some k) \<longleftrightarrow>
    (\<exists>obj \<in> set os. co_object_id obj = id_of h \<and> k = lower_hex (file_bytes obj))"
proof -
  let ?n = "\<lambda>obj. ref_name_of (drop 7 (co_object_id obj))"
  have hex: "?n obj = ref_name_of h \<longleftrightarrow> co_object_id obj = id_of h" if "obj \<in> set os" for obj
    using storableD(2,3) [OF assms(1) that] ref_name_inj [of "drop 7 (co_object_id obj)" h] assms(2) by (metis id_of_inj)
  have "inj_on ?n (set os)"
  proof (rule inj_onI)
    fix a b assume "a \<in> set os" "b \<in> set os" "?n a = ?n b"
    then have "co_object_id a = co_object_id b"
      using storableD(2,3) [OF assms(1)] ref_name_inj by metis
    then show "a = b" using assms(1) \<open>a \<in> set os\<close> \<open>b \<in> set os\<close> by (simp add: storable_def distinct_map inj_on_def)
  qed
  then have "distinct (map fst (map (\<lambda>obj. (?n obj, lower_hex (file_bytes obj))) os))"
    using assms(1) by (simp add: storable_def distinct_map comp_def)
  then have "map_of (map (\<lambda>obj. (?n obj, lower_hex (file_bytes obj))) os) (ref_name_of h) = Some k \<longleftrightarrow>
      (ref_name_of h, k) \<in> set (map (\<lambda>obj. (?n obj, lower_hex (file_bytes obj))) os)"
    by (rule map_of_eq_Some_iff)
  also have "\<dots> \<longleftrightarrow> (\<exists>obj \<in> set os. co_object_id obj = id_of h \<and> k = lower_hex (file_bytes obj))"
    (is "?l \<longleftrightarrow> ?r")
  proof
    assume ?l
    then obtain obj where "obj \<in> set os" "?n obj = ref_name_of h" "k = lower_hex (file_bytes obj)" by auto
    then show ?r using hex by blast
  next
    assume ?r
    then obtain obj where o1: "obj \<in> set os" "co_object_id obj = id_of h" "k = lower_hex (file_bytes obj)" by blast
    then have "?n obj = ref_name_of h" using hex by blast
    with o1 show ?l by (metis (mono_tags, lifting) image_eqI set_map)
  qed
  finally show ?thesis by (simp add: ref_gix_def ref_store_def)
qed

lemma ref_store_holds:
  assumes "storable os"
  shows "holds ref_gix ref_lib (w_git (ref_store os)) h obj \<longleftrightarrow> obj \<in> set os \<and> co_object_id obj = id_of h"
proof
  assume "holds ref_gix ref_lib (w_git (ref_store os)) h obj"
  then obtain k b where *: "hex_ok h" "find_reference ref_gix (w_git (ref_store os)) (ref_name_of h) = Inr (Some k)"
    "find_blob ref_gix (w_git (ref_store os)) k = Inr b" "read_object_bytes ref_lib b = Inr obj" by (auto simp: holds_def)
  then obtain o1 where "o1 \<in> set os" "co_object_id o1 = id_of h" "k = lower_hex (file_bytes o1)"
    using ref_store_find [OF assms] by blast
  moreover from this have "b = file_bytes o1" using *(3) by (auto simp: ref_gix_def unhex_lower_hex split: if_splits)
  ultimately show "obj \<in> set os \<and> co_object_id obj = id_of h"
    using *(4) file_bytes_read [OF storableD(1) [OF assms]] by auto
next
  assume o1: "obj \<in> set os \<and> co_object_id obj = id_of h"
  then have "drop 7 (co_object_id obj) = h" using storableD(2) [OF assms] id_of_inj by metis
  then have "hex_ok h" using o1 storableD(3) [OF assms] by metis
  moreover from this have "find_reference ref_gix (w_git (ref_store os)) (ref_name_of h) = Inr (Some (lower_hex (file_bytes obj)))"
    using ref_store_find [OF assms] o1 by blast
  moreover have "find_blob ref_gix (w_git (ref_store os)) (lower_hex (file_bytes obj)) = Inr (file_bytes obj)"
    using o1 by (auto simp: ref_gix_def ref_store_def unhex_lower_hex)
  ultimately show "holds ref_gix ref_lib (w_git (ref_store os)) h obj"
    using file_bytes_read [OF storableD(1) [OF assms]] o1 by (auto simp: holds_def)
qed

lemma map_of_objects: "distinct (map co_object_id os) \<Longrightarrow>
  map_of (map (\<lambda>obj. (co_object_id obj, obj)) os) i = Some obj \<longleftrightarrow> obj \<in> set os \<and> co_object_id obj = i"
  by (subst map_of_eq_Some_iff) (auto simp: comp_def)

lemma ref_store_objects:
  assumes "storable os"
  shows "host_objects ref_gix ref_lib (ref_store os, ()) = map_of (map (\<lambda>obj. (co_object_id obj, obj)) os)"
proof (rule ext)
  fix i
  have *: "host_objects ref_gix ref_lib (ref_store os, ()) i = Some obj \<longleftrightarrow> obj \<in> set os \<and> co_object_id obj = i" for obj
    using storableD(2) [OF assms] by (fastforce simp: host_objects_def repo_objects_iff ref_store_holds [OF assms])
  have "map_of (map (\<lambda>obj. (co_object_id obj, obj)) os) i = Some obj \<longleftrightarrow> host_objects ref_gix ref_lib (ref_store os, ()) i = Some obj" for obj
    using assms * by (simp add: map_of_objects storable_def)
  then show "host_objects ref_gix ref_lib (ref_store os, ()) i = map_of (map (\<lambda>obj. (co_object_id obj, obj)) os) i"
    by (metis not_None_eq)
qed

lemma ref_store_refs:
  assumes "storable os"
  shows "refs_good ref_gix ref_lib (w_git (ref_store os))"
  unfolding refs_good_def
proof (intro allI impI)
  fix n k assume "find_reference ref_gix (w_git (ref_store os)) n = Inr (Some k)"
  then have "(n, k) \<in> set (rg_refs (w_git (ref_store os)))" by (auto simp: ref_gix_def dest: map_of_SomeD)
  then obtain obj where o1: "obj \<in> set os" "n = ref_name_of (drop 7 (co_object_id obj))" by (auto simp: ref_store_def)
  note d = storableD [OF assms o1(1)]
  then have "holds ref_gix ref_lib (w_git (ref_store os)) (drop 7 (co_object_id obj)) obj"
    using ref_store_holds [OF assms] o1(1) by blast
  with o1(2) d(2) show "\<exists>h obj. n = ref_name_of h \<and> holds ref_gix ref_lib (w_git (ref_store os)) h obj \<and> co_object_id obj = id_of h"
    by blast
qed

lemma ref_spawn_keeps: "spawn_keeps ref_gix ref_lib ref_host p"
  by (simp add: spawn_keeps_def ref_host_def)

lemma ref_store_good:
  assumes "storable os"
  shows "host_good ref_gix ref_lib ref_host repo (ref_store os, ())"
proof -
  have "tree (w_fs (ref_store os)) (cache_path_of gd h) \<noteq> Some (File b)" for gd h b
    by (auto simp: ref_store_def ref_world_def cache_path_of_def tree_def)
  then show ?thesis using ref_store_refs [OF assms]
    by (auto simp: host_good_def store_good_def lists_exactly_ref ref_spawn_keeps cache_agrees_def)
qed

section \<open>A write that succeeds\<close>

lemma ref_store_ready: "store_ready ref_gix p [''r'', ''.git''] (ref_store os)"
  using version_line by (simp add: store_ready_def ref_store_def ref_world_def ref_gix_def path_defs tree_def)

lemma ref_store_dirs: "store_dirs_ok [''r'', ''.git''] (w_fs (ref_store os))"
  using ref_world_dirs by (simp add: ref_store_def)

lemma ref_store_calm [simp]: "faults (w_fs (ref_store os)) = []"
  by (simp add: ref_store_def)

lemma ref_write_new:
  assumes "storable os" "plain_body body"
    and "canonical_object_new ref_lib kind DEFAULT_SCHEMA_VERSION 0 body = Inr obj" "co_object_id obj \<notin> co_object_id ` set os"
  obtains rep s' where "a_write_cached ref_api ''r'' kind body (ref_store os, ()) = (Inr rep, s')"
proof -
  note d = canonical_object_newD [OF assms(3)]
  have "object_id_ok (co_object_id obj)"
    using d(2) unfolding canonical_object_id_def by (rule stable_json_hash_shape) simp_all
  then obtain h where h: "object_hex (co_object_id obj) = Inr h" "co_object_id obj = id_of h"
    using object_id_ok_hex unfolding id_of_def by blast
  have hx: "hex_ok h" by (rule object_hex_id [OF h(1)])
  have b: "canonical_object_bytes ref_lib obj = Inr (file_bytes obj)"
    by (simp add: canonical_object_bytes_def file_bytes_def ref_lib_def)
  have free: "tree (w_fs (ref_store os)) (cache_path_of [''r'', ''.git''] h) = None"
    by (simp add: ref_store_def ref_world_def cache_path_of_def tree_def)
  obtain s1 where s1: "write_object_cache_bytes (temp_dir_of [''r'', ''.git'']) (cache_path_of [''r'', ''.git''] h) (co_object_id obj)
      (file_bytes obj) (w_fs (ref_store os)) = (Inr Written, s1)"
    using write_cache_succeeds [OF ref_store_dirs ref_store_calm free] by blast
  have "\<nexists>k. find_reference ref_gix (w_git (ref_store os)) (ref_name_of h) = Inr (Some k)"
    using ref_store_find [OF assms(1) hx] assms(4) h(2) by (auto simp: image_iff)
  then have none: "map_of (rg_refs (w_git (ref_store os))) (ref_name_of h) = None"
    by (simp add: ref_gix_def)
  have "\<exists>k g'. write_git_object_ref ref_gix (co_object_id obj) (ref_name_of h) (file_bytes obj) (w_git (ref_store os)) = (Inr k, g')"
    using none by (simp add: write_git_object_ref_def eff_simps ref_gix_def)
  then obtain k g' where g': "write_git_object_ref ref_gix (co_object_id obj) (ref_name_of h) (file_bytes obj) (w_git (ref_store os)) = (Inr k, g')"
    by blast
  have "canonical_json body = body" by (rule canonical_plain_body [OF assms(2)])
  then have "\<exists>rep w'. write_cached_object ref_gix ref_lib (o_path ref_host ''r'') kind body (ref_store os) = (Inr rep, w')"
    using open_store_ready [OF ref_store_ready ref_store_calm] assms(3) b s1 g' h(1)
    by (simp add: write_cached_object_def store_object_def eff_simps on_fs_def on_git_def object_cache_path_Inr object_ref_name_Inr)
  then show thesis using that by (auto simp: git_api_def on_world_def)
qed

definition ref_note :: agent_note where
  "ref_note = \<lparr>note_from = ''a'', note_to = ''b'', note_body = ''hi'', note_thread = None, note_in_reply_to = None,
     note_refs = [], note_created_at_ms = 0\<rparr>"

lemma ref_note_valid: "validate_agent_note (ref_note\<lparr>note_created_at_ms := 7\<rparr>) = []"
  by code_simp

lemma ref_key_file: "resolve [] (agent_key_file ref_api s ''a'') = [''.rickydata'', ''signing-keys'', ''a.key'']"
proof -
  have "resolve [] (foldl path_join [] (agent_key_path (\<lambda>_. None) ''a'')) = [''.rickydata'', ''signing-keys'', ''a.key'']"
    by code_simp
  moreover have "a_env ref_api s = (\<lambda>_. None)" by (cases s) (simp add: git_api_def ref_host_def)
  ultimately show ?thesis by (simp add: agent_key_file_def)
qed

lemma ref_no_key_file: "\<not> a_exists ref_api (ref_store os, ()) (agent_key_file ref_api s ''a'')"
proof -
  have "\<not> exists_at (w_fs (ref_store os)) [''.rickydata'', ''signing-keys'', ''a.key'']"
    by (simp add: ref_store_def ref_world_def exists_at_def tree_def)
  moreover have "o_path ref_host = resolve []" by (simp add: ref_host_def)
  ultimately show ?thesis using ref_key_file by (simp add: git_api_def)
qed

lemma ref_unsigned:
  "resolve_signing_key ref_api ref_lib ref_keys (Some ''a'') (ref_store os, ()) = (Inr None, (ref_store os, ()))"
proof -
  have e: "a_env ref_api s = (\<lambda>_. None)" for s by (cases s) (simp add: git_api_def ref_host_def)
  show ?thesis using ref_no_key_file
    by (simp add: resolve_signing_key_def ref_keys_def key_of_env_def key_of_agent_def e Let_def eff_simps)
qed

lemma ref_now: "now_ms ref_api s = (Inr 7, s)"
  by (cases s) (simp add: now_ms_def git_api_def ref_host_def on_outside_def eff_simps ctx_def)

text \<open>A session of one note on such a repository succeeds, and the note is a new object.\<close>

definition ref_note_object :: canonical_object where
  "ref_note_object = (case canonical_object_new ref_lib ''agent.note'' DEFAULT_SCHEMA_VERSION 0
     (agent_note_json (ref_note\<lparr>note_created_at_ms := 7\<rparr>)) of Inr obj \<Rightarrow> obj)"

lemma ref_note_new: "canonical_object_new ref_lib ''agent.note'' DEFAULT_SCHEMA_VERSION 0
     (agent_note_json (ref_note\<lparr>note_created_at_ms := 7\<rparr>)) = Inr ref_note_object"
proof -
  have "json_ok (agent_note_json n)" for n
    using agent_note_plain [where d = 0] json_plain_ok by blast
  then show ?thesis
    using canonical_object_new_total [OF ref_lib_laws(1)] unfolding ref_note_object_def by (metis sum.simps(6))
qed

lemma ref_note_id: "\<exists>x. co_object_id ref_note_object = ''sha256:07'' @ x"
proof -
  have "canonical_object_id ref_lib k v b = Inr i \<Longrightarrow> \<exists>x. i = ''sha256:07'' @ x" for k v b i
  proof -
    assume "canonical_object_id ref_lib k v b = Inr i"
    then have i: "i = ''sha256:'' @ lower_hex (pad 32 (put (canonical_json (id_document k v b))))"
      by (simp add: canonical_object_id_def stable_json_hash_def ref_lib_def)
    have "\<exists>es. canonical_json (id_document k v b) = JObject es" by (simp add: id_document_def json_obj_def del: sort_key_simps)
    then obtain es r where "put (canonical_json (id_document k v b)) = 7 # r" by auto
    then have "lower_hex (pad 32 (put (canonical_json (id_document k v b)))) = hex_byte 7 @ lower_hex (take 31 (r @ replicate 32 0))"
      by (simp add: pad_def del: append_replicate_commute replicate_append_same)
    moreover have "hex_byte 7 = ''07''" by code_simp
    ultimately have "\<exists>y. lower_hex (pad 32 (put (canonical_json (id_document k v b)))) = ''07'' @ y" by auto
    with i show "\<exists>x. i = ''sha256:07'' @ x" by auto
  qed
  then show ?thesis using canonical_object_newD(2) [OF ref_note_new] by blast
qed

lemma ref_note_session:
  assumes "storable os" "co_object_id ref_note_object \<notin> co_object_id ` set os"
  obtains s' where "session ref_api ref_lib R schema ref_keys ''r'' [Note_Send ref_note] (ref_store os, ()) = (Inr (), s')"
proof -
  obtain rep s' where w: "a_write_cached ref_api ''r'' ''agent.note'' (agent_note_json (ref_note\<lparr>note_created_at_ms := 7\<rparr>)) (ref_store os, ()) = (Inr rep, s')"
    by (rule ref_write_new [OF assms(1) plain_bodies(11) ref_note_new assms(2)])
  have sender: "note_from ref_note = ''a''" by (simp add: ref_note_def)
  have wr: "write_signed_or_cached ref_api ref_lib ''r'' ''agent.note'' (agent_note_json (ref_note\<lparr>note_created_at_ms := 7\<rparr>)) None
      (ref_store os, ()) = (Inr rep, s')"
    unfolding write_signed_or_cached_def by (simp only: option.case gitm_def e_map_err_def w prod.case map_err_def sum.case)
  have "\<exists>x. note_send ref_api ref_lib ref_keys ''r'' ref_note (ref_store os, ()) = (Inr x, s')"
    unfolding note_send_def sender Let_def
    by (simp only: e_bind_def ref_unsigned ref_now ref_note_valid wr prod.case sum.case simp_thms if_False e_ret_def) (rule exI, rule refl)
  then have "session ref_api ref_lib R schema ref_keys ''r'' [Note_Send ref_note] (ref_store os, ()) = (Inr (), s')"
    by (auto simp: session_def void_def eff_simps)
  then show thesis by (rule that)
qed

section \<open>Attempts\<close>

definition object_at :: "char \<Rightarrow> str \<Rightarrow> json \<Rightarrow> canonical_object" where
  "object_at c kind body = \<lparr>co_schema_version = DEFAULT_SCHEMA_VERSION, co_kind = kind, co_object_id = id_of (replicate 64 c),
     co_created_at_ms = 0, co_body = body, co_body_hash = [], co_signatures = []\<rparr>"

lemma object_at_simps [simp]:
  "co_kind (object_at c k b) = k" "co_object_id (object_at c k b) = id_of (replicate 64 c)" "co_body (object_at c k b) = b"
  by (simp_all add: object_at_def)

lemma object_at_hex [simp]: "c \<in> set hex_alphabet \<Longrightarrow> object_hex (id_of (replicate 64 c)) = Inr (replicate 64 c)"
proof -
  assume c: "c \<in> set hex_alphabet"
  have "object_id_ok (id_of (replicate 64 c))"
    unfolding object_id_ok_def id_of_def using c by (intro exI [of _ "replicate 64 c"]) auto
  then show ?thesis using object_id_ok_hex unfolding id_of_def by (metis append_same_eq same_append_eq)
qed

definition ref_attempt :: agent_attempt where
  "ref_attempt = \<lparr>att_attempt_id = ''x'', att_intent_id = ''i'', att_base_commit = ''c'', att_agent_id = ''a'',
     att_lease_expires_at_ms = None, att_status = Running, att_in_place = True\<rparr>"

definition ref_submission :: attempt_status_transition where
  "ref_submission = \<lparr>tr_attempt_id = ''x'', tr_status = Submitted, tr_reason = None, tr_created_by = None, tr_created_at_ms = 5\<rparr>"

text \<open>One attempt, submitted.\<close>

definition submitted_store :: "canonical_object list" where
  "submitted_store = [object_at CHR ''a'' ''agent.attempt'' (agent_attempt_json ref_attempt),
     object_at CHR ''b'' ''agent.attempt_status'' (attempt_status_transition_json ref_submission)]"

lemma submitted_storable: "storable submitted_store"
  by (simp add: storable_def submitted_store_def id_of_def [symmetric] hex_alphabet_def) (simp add: id_of_def)

lemma submitted_fresh: "co_object_id ref_note_object \<notin> co_object_id ` set submitted_store"
  using ref_note_id by (auto simp: submitted_store_def id_of_def numeral_eq_Suc)

abbreviation ledger_of :: "canonical_object list \<Rightarrow> ledger_map" where
  "ledger_of os \<equiv> map_of (map (\<lambda>obj. (co_object_id obj, obj)) os)"

abbreviation submitted_ledger :: ledger_map where
  "submitted_ledger \<equiv> ledger_of submitted_store"

lemma submitted_views:
  "attempts_in submitted_ledger = [id_of (replicate 64 CHR ''a'') \<mapsto> ref_attempt]"
  "transitions_in submitted_ledger = [id_of (replicate 64 CHR ''b'') \<mapsto> ref_submission]"
  by (auto simp: typed_def submitted_store_def fun_eq_iff)

lemma submitted_life: "life_ok submitted_ledger" "ledger_typed submitted_ledger"
  "status_in submitted_ledger ''x'' Submitted (Some (id_of (replicate 64 CHR ''b'')))"
proof -
  show "life_ok submitted_ledger"
    unfolding life_ok_def submitted_views by (auto simp: ref_attempt_def ref_submission_def split: if_splits)
  show "ledger_typed submitted_ledger"
    by (auto simp: ledger_typed_def well_typed_def submitted_store_def split: if_splits)
  show "status_in submitted_ledger ''x'' Submitted (Some (id_of (replicate 64 CHR ''b'')))"
    unfolding status_in_def submitted_views by (auto simp: ref_submission_def split: if_splits)
qed

text \<open>One attempt, just started, as the tool writes it: the repository is calm.\<close>

lemma started_store:
  obtains obj where "storable [obj]" "co_kind obj = ''agent.attempt''" "co_body obj = agent_attempt_json ref_attempt" "fields_ok ref_lib obj"
proof -
  have "json_ok (agent_attempt_json ref_attempt)" using agent_attempt_plain [where d = 0] json_plain_ok by blast
  then obtain obj where o: "canonical_object_new ref_lib ''agent.attempt'' DEFAULT_SCHEMA_VERSION 0 (agent_attempt_json ref_attempt) = Inr obj"
    using canonical_object_new_total [OF ref_lib_laws(1)] by blast
  note d = canonical_object_newD [OF o]
  have f: "fields_ok ref_lib obj" by (rule canonical_object_new_fields [OF o])
  obtain h where "object_hex (co_object_id obj) = Inr h" "co_object_id obj = id_of h"
    by (rule fields_ok_id_of [OF f ref_lib_laws(2,3)])
  then have "storable [obj]" using d(5) by (simp add: storable_def id_of_def)
  then show thesis by (rule that [OF _ d(3,5) f])
qed

lemma ref_gix_calm: "gix_calm ref_gix"
  by (auto simp: gix_calm_def ref_gix_def list_all_iff)

lemma ref_store_host_calm:
  assumes "storable os" "list_all (fields_ok ref_lib) os"
  shows "host_calm ref_gix ref_lib ref_host repo (ref_store os, ())"
proof -
  have "cache_files [''r'', ''.git''] (w_fs (ref_store os))"
    by (auto simp: cache_files_def ref_store_def ref_world_def tree_def path_defs)
  moreover have "cache_backed ref_gix [''r'', ''.git''] (ref_store os)"
    by (auto simp: cache_backed_def ref_store_def ref_world_def tree_def path_defs)
  moreover note ref_gix_calm
  moreover have "fields_ok ref_lib obj \<and> json_ok (co_body obj)" if "holds ref_gix ref_lib (w_git (ref_store os)) h obj" for h obj
  proof -
    have "obj \<in> set os" using that assms(1) by (simp add: ref_store_holds)
    then show ?thesis using assms(2) json_plain_ok [OF storableD(1) [OF assms(1), unfolded plain_body_def]] by (simp add: list_all_iff)
  qed
  ultimately show ?thesis
    using ref_store_good [OF assms(1)] ref_store_ready ref_store_dirs by (fastforce simp: host_calm_def)
qed


text \<open>Objects as the tool makes them.\<close>

definition made :: "str \<Rightarrow> json \<Rightarrow> canonical_object" where
  "made kind body = projr (canonical_object_new ref_lib kind DEFAULT_SCHEMA_VERSION 0 body)"

lemma made_new: "plain_body body \<Longrightarrow> canonical_object_new ref_lib kind DEFAULT_SCHEMA_VERSION 0 body = Inr (made kind body)"
  using canonical_object_new_total [OF ref_lib_laws(1) json_plain_ok] unfolding made_def plain_body_def by (metis sum.sel(2))

lemma made_simps [simp]:
  "plain_body body \<Longrightarrow> co_kind (made kind body) = kind" "plain_body body \<Longrightarrow> co_body (made kind body) = body"
  "plain_body body \<Longrightarrow> fields_ok ref_lib (made kind body)"
  using canonical_object_newD [OF made_new] canonical_object_new_fields [OF made_new] by blast+

lemma made_id: "plain_body body \<Longrightarrow> co_object_id (made kind body) = projr (canonical_object_id ref_lib kind DEFAULT_SCHEMA_VERSION body)"
  using canonical_object_newD(2) [OF made_new] by (metis sum.sel(2))

lemma made_storable:
  assumes "\<forall>(k, b) \<in> set kbs. plain_body b" "distinct (map (\<lambda>(k, b). co_object_id (made k b)) kbs)"
  shows "storable (map (\<lambda>(k, b). made k b) kbs)" "list_all (fields_ok ref_lib) (map (\<lambda>(k, b). made k b) kbs)"
proof -
  have hex: "object_hex (co_object_id (made k b)) = Inr (drop 7 (co_object_id (made k b)))" if b: "plain_body b" for k b
  proof -
    obtain h where h: "object_hex (co_object_id (made k b)) = Inr h" "co_object_id (made k b) = id_of h"
      by (rule fields_ok_id_of [OF made_simps(3) [OF b] ref_lib_laws(2,3)])
    have "drop 7 (id_of h) = h" by (simp add: id_of_def)
    then show ?thesis using h by simp
  qed
  then show "storable (map (\<lambda>(k, b). made k b) kbs)"
    using assms by (auto simp: storable_def list_all_iff comp_def case_prod_unfold)
  show "list_all (fields_ok ref_lib) (map (\<lambda>(k, b). made k b) kbs)" using assms(1) by (auto simp: list_all_iff)
qed

definition ref_patch :: prepared_patch where
  "ref_patch = \<lparr>pp_patch_id = ''p'', pp_intent_id = ''i'', pp_attempt_id = ''x'', pp_base_commit = ''c'', pp_change_ids = [],
     pp_run_ids = [], pp_file_paths = [], pp_diff_hashes = [], pp_diff_object_ids = [], pp_related_contract_hashes = [],
     pp_diagnostics = []\<rparr>"

definition ref_retirement :: patch_retirement where
  "ref_retirement = \<lparr>pr_patch_id = ''p'', pr_reason = ''x'', pr_retired_by = None, pr_idempotency_key = None, pr_retired_at_ms = 7\<rparr>"

definition work_store :: "canonical_object list" where
  "work_store = map (\<lambda>(k, b). made k b) [(''agent.attempt'', agent_attempt_json ref_attempt), (''agent.patch'', prepared_patch_json ref_patch)]"

definition retired_store :: "canonical_object list" where
  "retired_store = map (\<lambda>(k, b). made k b) [(''agent.patch'', prepared_patch_json ref_patch),
     (''agent.patch_retirement'', patch_retirement_json ref_retirement)]"

lemma ref_ids:
  "projr (canonical_object_id ref_lib ''agent.attempt'' DEFAULT_SCHEMA_VERSION (agent_attempt_json ref_attempt)) \<noteq>
   projr (canonical_object_id ref_lib ''agent.patch'' DEFAULT_SCHEMA_VERSION (prepared_patch_json ref_patch))"
  "projr (canonical_object_id ref_lib ''agent.patch'' DEFAULT_SCHEMA_VERSION (prepared_patch_json ref_patch)) \<noteq>
   projr (canonical_object_id ref_lib ''agent.patch_retirement'' DEFAULT_SCHEMA_VERSION (patch_retirement_json ref_retirement))"
  by code_simp+

lemma work_storable: "storable work_store" "list_all (fields_ok ref_lib) work_store"
  and retired_storable: "storable retired_store" "list_all (fields_ok ref_lib) retired_store"
  unfolding work_store_def retired_store_def
  by (rule made_storable; use ref_ids in \<open>simp add: made_id\<close>)+

lemma work_views:
  "attempts_in (ledger_of work_store) (co_object_id (made ''agent.attempt'' (agent_attempt_json ref_attempt))) = Some ref_attempt"
  "patches_in (ledger_of work_store) (co_object_id (made ''agent.patch'' (prepared_patch_json ref_patch))) = Some ref_patch"
  "transitions_in (ledger_of work_store) i = None"
  "attempts_in (ledger_of work_store) i = Some a \<Longrightarrow> a = ref_attempt"
  using work_storable(1) by (auto simp: typed_def work_store_def storable_def split: if_splits)

lemma work_ledger: "ledger_typed (ledger_of work_store)" "life_ok (ledger_of work_store)" "status_in (ledger_of work_store) ''x'' Running None"
proof -
  show "ledger_typed (ledger_of work_store)"
    by (auto simp: ledger_typed_def well_typed_def work_store_def split: if_splits)
  have run: "att_status ref_attempt = Running" by (simp add: ref_attempt_def)
  then show "life_ok (ledger_of work_store)" unfolding life_ok_def work_views(3) using work_views(4) by auto
  have "least_with (attempts_in (ledger_of work_store)) (\<lambda>a. att_attempt_id a = ''x'')
      (co_object_id (made ''agent.attempt'' (agent_attempt_json ref_attempt))) ref_attempt"
    unfolding least_with_def work_views(1)
    using work_storable(1) by (auto simp: typed_def work_store_def ref_attempt_def split: if_splits)
  then show "status_in (ledger_of work_store) ''x'' Running None"
    unfolding status_in_def option.case work_views(3) using run by blast
qed

text \<open>A patch that is retired: the queue is read without any other command.\<close>

lemma retired_views:
  "patches_in (ledger_of retired_store) i = (if i = co_object_id (made ''agent.patch'' (prepared_patch_json ref_patch)) then Some ref_patch else None)"
  "typed (ledger_of retired_store) ''agent.patch_retirement'' patch_retirement_of_json
     (co_object_id (made ''agent.patch_retirement'' (patch_retirement_json ref_retirement))) = Some ref_retirement"
  using retired_storable(1) by (auto simp: typed_def retired_store_def storable_def split: if_splits)

lemma retired_typed: "ledger_typed (ledger_of retired_store)"
  by (auto simp: ledger_typed_def well_typed_def retired_store_def split: if_splits)

end
