(* ===== verification/Cli_Review.thy ===== *)
theory Cli_Review
  imports Cli_Session
begin

text \<open>
  What the patch commands return, as triples over the ledger: applying a patch records one application or
  finds the one recorded before under the same idempotency key, a prepared patch carries the diff that
  was detected, and the review queue lists the patches that are not retired.
\<close>

section \<open>Triples\<close>

text \<open>From a good state with ledger \<open>M\<close>, a run that returns leaves a good state and fulfils \<open>Q\<close>.\<close>

definition yields ::
    "('s \<Rightarrow> bool) \<Rightarrow> ('s \<Rightarrow> ledger_map) \<Rightarrow> ledger_map \<Rightarrow> ('s, 'e, 'a) eff \<Rightarrow> ('a \<Rightarrow> ledger_map \<Rightarrow> bool) \<Rightarrow> bool" where
  "yields good objs M m Q \<longleftrightarrow> (\<forall>s x s'. good s \<longrightarrow> objs s = M \<longrightarrow> m s = (Inr x, s') \<longrightarrow> good s' \<and> Q x (objs s'))"

lemma yieldsI:
  "(\<And>s x s'. good s \<Longrightarrow> objs s = M \<Longrightarrow> m s = (Inr x, s') \<Longrightarrow> good s' \<and> Q x (objs s')) \<Longrightarrow> yields good objs M m Q"
  unfolding yields_def by blast

lemma yieldsD: "yields good objs (objs s) m Q \<Longrightarrow> good s \<Longrightarrow> m s = (Inr x, s') \<Longrightarrow> good s' \<and> Q x (objs s')"
  unfolding yields_def by blast

lemma yields_bind:
  assumes "yields good objs M m R" "\<And>x M'. R x M' \<Longrightarrow> yields good objs M' (k x) Q"
  shows "yields good objs M (e_bind m k) Q"
proof (rule yieldsI)
  fix s y s' assume g: "good s" "objs s = M" and "e_bind m k s = (Inr y, s')"
  then obtain x s1 where r: "m s = (Inr x, s1)" "k x s1 = (Inr y, s')" by (auto elim!: e_bind_Inr)
  have "good s1 \<and> R x (objs s1)" using assms(1) g r(1) unfolding yields_def by blast
  then show "good s' \<and> Q y (objs s')" using yieldsD [OF assms(2) _ r(2)] by blast
qed

lemma yields_read:
  assumes "quiet good objs m"
    and "\<And>s x s'. good s \<Longrightarrow> objs s = M \<Longrightarrow> m s = (Inr x, s') \<Longrightarrow> yields good objs M (k x) Q"
  shows "yields good objs M (e_bind m k) Q"
proof (rule yieldsI)
  fix s y s' assume g: "good s" "objs s = M" and "e_bind m k s = (Inr y, s')"
  then obtain x s1 where r: "m s = (Inr x, s1)" "k x s1 = (Inr y, s')" by (auto elim!: e_bind_Inr)
  have s1: "good s1" "objs s1 = M" using quietD [OF assms(1) g(1) r(1)] g(2) by simp_all
  show "good s' \<and> Q y (objs s')" using assms(2) [OF g r(1)] s1 r(2) unfolding yields_def by blast
qed

lemma yields_ret: "Q x M \<Longrightarrow> yields good objs M (e_ret x) Q"
  by (auto simp: yields_def)

lemma yields_cong: "yields good objs M m R \<Longrightarrow> (\<And>x M'. R x M' \<Longrightarrow> Q x M') \<Longrightarrow> yields good objs M m Q"
  unfolding yields_def by blast

section \<open>Applying a patch\<close>

abbreviation applications_in :: "ledger_map \<Rightarrow> str \<rightharpoonup> patch_application" where
  "applications_in M \<equiv> typed M ''agent.patch_application'' patch_application_of_json"

abbreviation retirements_in :: "ledger_map \<Rightarrow> str \<rightharpoonup> patch_retirement" where
  "retirements_in M \<equiv> typed M ''agent.patch_retirement'' patch_retirement_of_json"

definition applied_before :: "ledger_map \<Rightarrow> str \<Rightarrow> str \<Rightarrow> bool" where
  "applied_before M patch_id key \<longleftrightarrow> (\<exists>i pa. applications_in M i = Some pa \<and> pa_patch_id pa = patch_id \<and>
     pa_idempotency_key pa = Some key)"

text \<open>The report of an application names a record of the ledger: a new one, or one found there.\<close>

definition applied_as :: "ledger_map \<Rightarrow> str \<Rightarrow> str option \<Rightarrow> patch_apply_report \<Rightarrow> ledger_map \<Rightarrow> bool" where
  "applied_as M patch_id key rep M' \<longleftrightarrow>
     par_patch_id rep = patch_id \<and> par_replayed rep = (\<not> par_applied rep) \<and>
     applications_in M' (wr_object_id (par_object rep)) = Some (par_application rep) \<and>
     pa_patch_id (par_application rep) = patch_id \<and> pa_idempotency_key (par_application rep) = key \<and>
     (if par_applied rep
      then (\<forall>k. key = Some k \<longrightarrow> \<not> applied_before M patch_id k) \<and>
           (\<exists>obj. M' = M(wr_object_id (par_object rep) \<mapsto> obj)) \<and> M \<subseteq>\<^sub>m M'
      else M' = M \<and> key \<noteq> None)"

context ledger
begin

lemma search_applications_exact:
  assumes "good s" "\<forall>e \<in> set es. \<exists>obj. objs s (le_object_id e) = Some obj \<and> co_kind obj = ''agent.patch_application''"
    and "search_applications A L repo patch_id key es s = (Inr found, s')"
  shows "case found of
      None \<Rightarrow> \<forall>e \<in> set es. \<forall>pa. applications_in (objs s) (le_object_id e) = Some pa \<longrightarrow>
        \<not> (pa_patch_id pa = patch_id \<and> pa_idempotency_key pa = Some key)
    | Some (pa, rep) \<Rightarrow> applications_in (objs s) (wr_object_id rep) = Some pa \<and> pa_patch_id pa = patch_id \<and>
        pa_idempotency_key pa = Some key"
  using assms
proof (induction es arbitrary: s)
  case (Cons e es)
  obtain rep s1 pa where r: "a_read A repo (le_object_id e) s = (Inr rep, s1)"
    "patch_application_of_json (co_body (rr_object rep)) = Some pa"
    and rest: "(if pa_patch_id pa = patch_id \<and> pa_idempotency_key pa = Some key
       then e_ret (Some (pa,
         \<lparr>wr_status = AlreadyExists, wr_object_id = le_object_id e, wr_body_hash = le_body_hash e,
          wr_kind = le_kind e, wr_schema_version = co_schema_version (rr_object rep),
          wr_cache_path = rr_cache_path rep, wr_ref_name = le_ref_name e,
          wr_git_object_id = le_git_object_id e, wr_bytes_written = 0\<rparr>))
       else search_applications A L repo patch_id key es) s1 = (Inr found, s')"
    using Cons.prems(3) by (auto elim!: e_bind_Inr)
  obtain obj where obj: "objs s (le_object_id e) = Some obj" "co_kind obj = ''agent.patch_application''"
    using Cons.prems(2) by auto
  have "rr_object rep = obj" using read_exact [OF Cons.prems(1) obj(1) r(1)] by simp
  then have app: "applications_in (objs s) (le_object_id e) = Some pa" using obj r(2) by (simp add: typed_def)
  have s1: "good s1" "objs s1 = objs s" using quietD [OF read_quiet Cons.prems(1) r(1)] by simp_all
  show ?case
  proof (cases "pa_patch_id pa = patch_id \<and> pa_idempotency_key pa = Some key")
    case True
    then show ?thesis using rest app by auto
  next
    case False
    have "search_applications A L repo patch_id key es s1 = (Inr found, s')" using rest unfolding if_not_P [OF False] .
    from Cons.IH [OF s1(1) _ this] Cons.prems(2) s1(2) app False show ?thesis by (auto split: option.splits)
  qed
qed simp

lemma find_application_exact:
  assumes "good s" "find_patch_application_by_idempotency A L repo patch_id key s = (Inr found, s')"
  shows "case found of
      None \<Rightarrow> \<not> applied_before (objs s) patch_id key
    | Some (pa, rep) \<Rightarrow> applications_in (objs s) (wr_object_id rep) = Some pa \<and> pa_patch_id pa = patch_id \<and>
        pa_idempotency_key pa = Some key"
proof -
  obtain es s1 where l: "a_list A repo (Some ''agent.patch_application'') s = (Inr es, s1)"
    "search_applications A L repo patch_id key es s1 = (Inr found, s')"
    using assms(2) unfolding find_patch_application_by_idempotency_def by (auto elim!: e_bind_Inr)
  note lo = listed_object [OF assms(1) l(1)]
  have "\<exists>obj. objs s1 (le_object_id e) = Some obj \<and> co_kind obj = ''agent.patch_application''" if "e \<in> set es" for e
  proof -
    have "le_object_id e \<in> le_object_id ` set es" using that by blast
    then show ?thesis using lo(2,3) by (auto simp: listing_of_def kind_matches_def)
  qed
  then have *: "case found of
      None \<Rightarrow> \<forall>e \<in> set es. \<forall>pa. applications_in (objs s) (le_object_id e) = Some pa \<longrightarrow>
        \<not> (pa_patch_id pa = patch_id \<and> pa_idempotency_key pa = Some key)
    | Some (pa, rep) \<Rightarrow> applications_in (objs s) (wr_object_id rep) = Some pa \<and> pa_patch_id pa = patch_id \<and>
        pa_idempotency_key pa = Some key"
    using search_applications_exact [OF lo(1) _ l(2)] unfolding lo(2) by blast
  show ?thesis
  proof (cases found)
    case None
    have "i \<in> le_object_id ` set es" if "applications_in (objs s) i = Some pa" for i pa
      using that lo(3) unfolding typed_Some listing_of_def kind_matches_def by fastforce
    then show ?thesis using * None unfolding applied_before_def by fastforce
  next
    case (Some x)
    then show ?thesis using * by auto
  qed
qed

text \<open>The application that is written is the one of the report.\<close>

lemma write_yields:
  assumes "plain_body body"
  shows "yields good objs M (write_signed_or_cached A L repo kind body signing) (\<lambda>rep M'.
    \<exists>obj. M' = M(wr_object_id rep \<mapsto> obj) \<and> co_kind obj = kind \<and> co_body obj = body \<and> M (wr_object_id rep) \<in> {None, Some obj})"
proof (rule yieldsI)
  fix s rep s' assume g: "good s" "objs s = M" and run: "write_signed_or_cached A L repo kind body signing s = (Inr rep, s')"
  then show "good s' \<and> (\<exists>obj. objs s' = M(wr_object_id rep \<mapsto> obj) \<and> co_kind obj = kind \<and> co_body obj = body \<and>
      M (wr_object_id rep) \<in> {None, Some obj})"
    using written(2) [OF g(1) assms run refl] by auto
qed

lemma write_cached_yields:
  assumes "plain_body body"
  shows "yields good objs M (gitm L (a_write_cached A repo kind body)) (\<lambda>rep M'.
    \<exists>obj. M' = M(wr_object_id rep \<mapsto> obj) \<and> co_kind obj = kind \<and> co_body obj = body \<and> M (wr_object_id rep) \<in> {None, Some obj})"
  using write_yields [OF assms, where signing = None] by (simp add: write_signed_or_cached_def)

lemma apply_now_yields:
  assumes "pai_repo input = repo"
    and new: "\<forall>k. pai_idempotency_key input = Some k \<longrightarrow> \<not> applied_before M (pp_patch_id patch) k"
  shows "yields good objs M (apply_now A L input patch attempt head resolved patch_file)
    (applied_as M (pp_patch_id patch) (pai_idempotency_key input))"
  unfolding apply_now_def assms(1) Let_def
proof (rule yields_read [OF quiet_when [OF clean_worktree_quiet]], rule yields_read [OF git_apply_quiet],
    rule yields_read [OF git_apply_quiet], rule yields_read [OF now_ms_quiet])
  fix now
  let ?app = "\<lparr>pa_patch_id = pp_patch_id patch, pa_attempt_id = att_attempt_id attempt,
            pa_base_commit = att_base_commit attempt, pa_head_commit = head, pa_diff_hash = rd_diff_hash resolved,
            pa_diff_bytes = rd_diff_bytes resolved, pa_file_paths = rd_file_paths resolved, pa_applied_by = pai_applied_by input,
            pa_reason = pai_reason input, pa_idempotency_key = pai_idempotency_key input, pa_applied_at_ms = now\<rparr>"
  show "yields good objs M (e_bind (gitm L (a_write_cached A repo ''agent.patch_application'' (patch_application_json ?app)))
      (\<lambda>object. e_ret (apply_report patch attempt head resolved True ?app object)))
    (applied_as M (pp_patch_id patch) (pai_idempotency_key input))"
  proof (rule yields_bind [OF write_cached_yields], simp, rule yields_ret)
    fix rep :: object_write_report and M' assume "\<exists>obj. M' = M(wr_object_id rep \<mapsto> obj) \<and> co_kind obj = ''agent.patch_application'' \<and>
      co_body obj = patch_application_json ?app \<and> M (wr_object_id rep) \<in> {None, Some obj}"
    then show "applied_as M (pp_patch_id patch) (pai_idempotency_key input) (apply_report patch attempt head resolved True ?app rep) M'"
      using new by (auto simp: applied_as_def apply_report_def typed_def map_le_def)
  qed
qed

lemma apply_or_replay_yields:
  assumes "pai_repo input = repo"
  shows "yields good objs M (apply_or_replay A L input patch attempt head resolved patch_file)
    (applied_as M (pp_patch_id patch) (pai_idempotency_key input))"
proof (cases "pai_idempotency_key input")
  case None
  then have "apply_or_replay A L input patch attempt head resolved patch_file = apply_now A L input patch attempt head resolved patch_file"
    by (simp add: apply_or_replay_def eff_simps fun_eq_iff)
  then show ?thesis using apply_now_yields [OF assms] None by simp
next
  case (Some key)
  show ?thesis
    unfolding apply_or_replay_def Some option.case assms
  proof (rule yields_read [OF find_application_quiet])
    fix s found s' assume g: "good s" "objs s = M"
      and run: "find_patch_application_by_idempotency A L repo (pp_patch_id patch) key s = (Inr found, s')"
    note f = find_application_exact [OF g(1) run, unfolded g(2)]
    show "yields good objs M (case found of
         Some (application, object) \<Rightarrow> e_ret (apply_report patch attempt head resolved False application object)
       | None \<Rightarrow> apply_now A L input patch attempt head resolved patch_file) (applied_as M (pp_patch_id patch) (Some key))"
    proof (cases found)
      case None
      then have "\<not> applied_before M (pp_patch_id patch) key" using f by simp
      then show ?thesis using apply_now_yields [OF assms, of M patch] Some None by simp
    next
      case (Some x)
      then show ?thesis using f by (auto intro!: yields_ret simp: applied_as_def apply_report_def split: prod.splits)
    qed
  qed
qed

lemma dropping_yields: "quiet good objs c \<Longrightarrow> yields good objs M m Q \<Longrightarrow> yields good objs M (dropping c m) Q"
proof (rule yieldsI)
  fix s x s' assume q: "quiet good objs c" and y: "yields good objs M m Q" and g: "good s" "objs s = M"
    and "dropping c m s = (Inr x, s')"
  then obtain s1 where m: "m s = (Inr x, s1)" "s' = snd (c s1)" by (auto simp: dropping_def split: prod.splits)
  have s1: "good s1 \<and> Q x (objs s1)" using y g m(1) unfolding yields_def by blast
  obtain r where "c s1 = (r, s')" using m(2) by (cases "c s1") simp
  then show "good s' \<and> Q x (objs s')" using quietD [OF q] s1 by metis
qed

lemma patch_apply_yields:
  assumes "pai_repo input = repo" "CHR ''/'' \<notin> set (pai_patch_id input)"
  shows "yields good objs M (patch_apply A L input) (applied_as M (pai_patch_id input) (pai_idempotency_key input))"
  unfolding patch_apply_def assms(1) Let_def
proof (rule yields_read [OF find_patch_quiet])
  fix s e s' assume "find_patch A L repo (pai_patch_id input) s = (Inr e, s')"
  then have i: "pp_patch_id (en_value e) = pai_patch_id input"
    unfolding find_patch_def by (auto elim!: e_bind_Inr simp: find_Some_iff)
  have tf: "quiet good objs (temp_patch_file A L repo (pp_patch_id (en_value e)) b)" for b
    using temp_patch_file_quiet [OF assms(2)] i by simp
  show "yields good objs M (e_bind (attempt_of_patch A L repo (en_value e)) (\<lambda>attempt.
      e_bind (head_of_patch A L repo (pai_allow_base_drift input) (en_value e)) (\<lambda>head_commit.
      e_bind (diff_to A L ''apply'' repo (en_value e) attempt) (\<lambda>resolved.
      e_bind (temp_patch_file A L repo (pp_patch_id (en_value e)) (rd_raw_diff resolved)) (\<lambda>patch_file.
        dropping (a_remove_file A patch_file)
          (apply_or_replay A L input (en_value e) attempt head_commit resolved patch_file))))))
     (applied_as M (pai_patch_id input) (pai_idempotency_key input))"
    using apply_or_replay_yields [OF assms(1), of M "en_value e"] unfolding i
    by (intro yields_read [OF attempt_of_patch_quiet] yields_read [OF head_of_patch_quiet] yields_read [OF diff_to_quiet]
        yields_read [OF tf [unfolded i]] dropping_yields remove_quiet)
qed

end

section \<open>The diff of a prepared patch\<close>

definition diff_recorded :: "lib \<Rightarrow> ledger_map \<Rightarrow> prepared_patch \<Rightarrow> resolved_patch_diff \<Rightarrow> bool" where
  "diff_recorded L M patch d \<longleftrightarrow> (\<exists>i rest obj pd. pp_diff_object_ids patch = i # rest \<and> M i = Some obj \<and>
     co_kind obj = ''agent.patch_diff'' \<and> patch_diff_of_json (co_body obj) = Some pd \<and> recorded_diff L patch i pd = Inr d)"

lemma diff_recorded_grows: "M \<subseteq>\<^sub>m M' \<Longrightarrow> diff_recorded L M patch d \<Longrightarrow> diff_recorded L M' patch d"
  unfolding diff_recorded_def map_le_def by (metis domI)

lemma detect_diff_exact:
  assumes "detect_attempt_diff A L repo a s = (Inr d, s')"
  shows "dd_diff_hash d = bytes_hash L (dd_raw_diff d)" "dd_diff_bytes d = of_nat (length (dd_raw_diff d))"
proof -
  obtain w i s1 s2 where "diff_in_worktree A L w i (att_base_commit a) s1 = (Inr d, s2)"
    using assms unfolding detect_attempt_diff_def by (auto elim!: e_bind_Inr simp: dropping_def split: prod.splits)
  then show "dd_diff_hash d = bytes_hash L (dd_raw_diff d)" "dd_diff_bytes d = of_nat (length (dd_raw_diff d))"
    unfolding diff_in_worktree_def by (auto elim!: e_bind_Inr simp: Let_def)
qed

lemma prepared_diff:
  assumes "dd_diff_hash det = bytes_hash L (dd_raw_diff det)" "dd_diff_bytes det = of_nat (length (dd_raw_diff det))"
    and "dd_diff_hash det \<in> set (pp_diff_hashes patch)"
    and "pd = \<lparr>pd_patch_id = pp_patch_id patch, pd_attempt_id = pp_attempt_id patch, pd_base_commit = pp_base_commit patch,
      pd_diff_hash = dd_diff_hash det, pd_diff_bytes = dd_diff_bytes det, pd_file_paths = dd_file_paths det,
      pd_encoding = ''hex'', pd_encoded_diff = encode_hex (dd_raw_diff det)\<rparr>"
  shows "recorded_diff L patch i pd = Inr \<lparr>rd_diff_hash = dd_diff_hash det, rd_diff_bytes = dd_diff_bytes det,
    rd_file_paths = dd_file_paths det, rd_raw_diff = dd_raw_diff det\<rparr>"
  using assms by (simp add: recorded_diff_def decode_encode_hex)

lemma prepared_records:
  assumes "M1 = M(i \<mapsto> o1)" "co_kind o1 = ''agent.patch_diff''" "co_body o1 = patch_diff_json pd" "M i \<in> {None, Some o1}"
    and "M2 = M1(j \<mapsto> o2)" "co_kind o2 = ''agent.patch''" "co_body o2 = prepared_patch_json patch" "M1 j \<in> {None, Some o2}"
    and "pp_diff_object_ids patch = [i]" "recorded_diff L patch i pd = Inr d"
  shows "M \<subseteq>\<^sub>m M2 \<and> patches_in M2 j = Some patch \<and> diff_recorded L M2 patch d"
proof -
  have "M \<subseteq>\<^sub>m M1" "M1 \<subseteq>\<^sub>m M2" using assms(1,4,5,8) by (auto simp: map_le_def)
  moreover have "diff_recorded L M1 patch d" using assms(1-3,9,10) by (simp add: diff_recorded_def)
  ultimately show ?thesis
    using map_le_trans diff_recorded_grows assms(5-7) by (auto simp: typed_def)
qed

context ledger
begin

lemma resolve_recorded:
  assumes "good s" "diff_recorded L (objs s) patch d" "resolve_patch_diff A L repo patch attempt s = (r, s')"
  shows "r = Inr d \<or> (\<exists>e. a_read A repo (hd (pp_diff_object_ids patch)) s = (Inl e, s') \<and> r = Inl (Bail (git_error_text L e)))"
proof -
  obtain i rest obj pd where d: "pp_diff_object_ids patch = i # rest" "objs s i = Some obj"
     "co_kind obj = ''agent.patch_diff''" "patch_diff_of_json (co_body obj) = Some pd" "recorded_diff L patch i pd = Inr d"
    using assms(2) by (auto simp: diff_recorded_def)
  obtain q s1 where q: "a_read A repo i s = (q, s1)" by (rule prod.exhaust)
  show ?thesis
  proof (cases q)
    case (Inl e)
    then show ?thesis using assms(3) q d(1) by (auto simp: resolve_patch_diff_def e_bind_def gitm_def e_map_err_def)
  next
    case (Inr rep)
    have rep: "rr_object rep = obj" using read_exact [OF assms(1) d(2) q [unfolded Inr]] by simp
    have "gitm L (a_read A repo i) s = (Inr rep, s1)" using q Inr by simp
    moreover have "decode L patch_diff_of_json (co_body obj) s1 = (Inr pd, s1)" using d(4) by simp
    moreover have "ensure True m s1 = (Inr (), s1)" for m :: str by simp
    ultimately show ?thesis using assms(3) d(1,3,5) rep by (simp add: resolve_patch_diff_def e_bind_def del: lifts_Inr guards_Inr)
  qed
qed

lemma patch_prepare_yields:
  "yields good objs M (patch_prepare A L keys repo attempt_id) (\<lambda>rep M'. M \<subseteq>\<^sub>m M' \<and>
     patches_in M' (wr_object_id (ppr_object rep)) = Some (ppr_patch rep) \<and>
     (\<exists>d. diff_recorded L M' (ppr_patch rep) d \<and> rd_diff_hash d = bytes_hash L (rd_raw_diff d) \<and>
        rd_diff_hash d \<in> set (pp_diff_hashes (ppr_patch rep))))"
  unfolding patch_prepare_def Let_def
proof (rule yields_read [OF resolve_signing_key_quiet], rule yields_read [OF find_attempt_quiet],
    rule yields_read [OF list_changes_quiet], rule yields_read [OF quiet_basic(5)], rule yields_read [OF detect_diff_quiet],
    rule yields_read [OF quiet_basic(5)], rule yields_read [OF quiet_basic(3)], rule yields_bind [OF write_yields],
    simp, rule yields_bind [OF write_yields], simp, rule yields_ret, goal_cases)
  case (1 s signing s1 s2 attempt s3 s4 listed s5 s6 u s7 s8 detected s9 s10 v s11 s12 patch_id s13 diff_object M1 object M2)
  note det = detect_diff_exact [OF 1(15)]
  let ?changes = "filter (\<lambda>c. chg_attempt_id c = att_attempt_id attempt) (map en_value listed)"
  have "list_ex (\<lambda>c. chg_diff_hash c = dd_diff_hash detected) ?changes" using 1(18) unfolding guards_Inr by (rule conjunct1)
  then obtain c where "c \<in> set ?changes" "chg_diff_hash c = dd_diff_hash detected" unfolding list_ex_iff by blast
  then have "dd_diff_hash detected \<in> set (map chg_diff_hash ?changes)" unfolding set_map by (metis image_eqI)
  then have hash: "dd_diff_hash detected \<in> set (sorted_dedup (map chg_diff_hash ?changes))" by (simp add: sorted_dedup_def)
  let ?pd = "\<lparr>pd_patch_id = patch_id, pd_attempt_id = att_attempt_id attempt,
              pd_base_commit = att_base_commit attempt, pd_diff_hash = dd_diff_hash detected,
              pd_diff_bytes = dd_diff_bytes detected, pd_file_paths = dd_file_paths detected, pd_encoding = ''hex'',
              pd_encoded_diff = encode_hex (dd_raw_diff detected)\<rparr>"
  let ?patch = "\<lparr>pp_patch_id = patch_id, pp_intent_id = att_intent_id attempt, pp_attempt_id = att_attempt_id attempt,
               pp_base_commit = att_base_commit attempt, pp_change_ids = sorted_dedup (map chg_change_id ?changes),
               pp_run_ids = sorted_dedup (concat (map chg_run_ids ?changes)),
               pp_file_paths = sorted_dedup (concat (map chg_file_paths ?changes)),
               pp_diff_hashes = sorted_dedup (map chg_diff_hash ?changes), pp_diff_object_ids = [wr_object_id diff_object],
               pp_related_contract_hashes = sorted_dedup (concat (map chg_related_contract_hashes ?changes)),
               pp_diagnostics = []\<rparr>"
  obtain o1 o2 where *: "M1 = M(wr_object_id diff_object \<mapsto> o1)" "co_kind o1 = ''agent.patch_diff''"
      "co_body o1 = patch_diff_json ?pd" "M (wr_object_id diff_object) \<in> {None, Some o1}"
    "M2 = M1(wr_object_id object \<mapsto> o2)" "co_kind o2 = ''agent.patch''"
      "co_body o2 = prepared_patch_json ?patch" "M1 (wr_object_id object) \<in> {None, Some o2}"
    using 1(22,23) by blast
  have "recorded_diff L ?patch (wr_object_id diff_object) ?pd = Inr \<lparr>rd_diff_hash = dd_diff_hash detected,
      rd_diff_bytes = dd_diff_bytes detected, rd_file_paths = dd_file_paths detected, rd_raw_diff = dd_raw_diff detected\<rparr>"
    by (rule prepared_diff [OF det]) (use hash in simp_all)
  from prepared_records [OF * _ this] hash det(1) show ?case by auto
qed

end

section \<open>The review queue\<close>

definition reviewed :: "ledger_map \<Rightarrow> str option \<Rightarrow> bool \<Rightarrow> prepared_patch \<Rightarrow> patch_review_queue_entry \<Rightarrow> bool" where
  "reviewed M head clean p e \<longleftrightarrow> rq_patch_id e = pp_patch_id p \<and> rq_attempt_id e = pp_attempt_id p \<and>
    (rq_apply_ready e \<longrightarrow> head = Some (pp_base_commit p) \<and> clean \<and>
      (\<exists>st src. rq_attempt_status e = Some st \<and> status_in M (pp_attempt_id p) st src))"

definition retired_in :: "ledger_map \<Rightarrow> str \<Rightarrow> bool" where
  "retired_in M patch_id \<longleftrightarrow> (\<exists>i r. retirements_in M i = Some r \<and> pr_patch_id r = patch_id)"

lemma retired_grows: "M \<subseteq>\<^sub>m M' \<Longrightarrow> retired_in M p \<Longrightarrow> retired_in M' p"
  unfolding retired_in_def using typed_grows [of M M' "''agent.patch_retirement''" patch_retirement_of_json] by blast

text \<open>The queue of a ledger: an entry for each patch that is not retired.\<close>

definition queue_of :: "ledger_map \<Rightarrow> patch_review_queue_report \<Rightarrow> bool" where
  "queue_of M rep \<longleftrightarrow>
     rq_patch_id ` set (rqr_patches rep) = {pp_patch_id p | i p. patches_in M i = Some p \<and> \<not> retired_in M (pp_patch_id p)} \<and>
     rqr_patch_count rep = length (rqr_patches rep) \<and> rqr_ready_count rep = length (filter rq_apply_ready (rqr_patches rep)) \<and>
     (\<forall>e \<in> set (rqr_patches rep). rq_apply_ready e \<longrightarrow>
        (\<exists>st src. rq_attempt_status e = Some st \<and> status_in M (rq_attempt_id e) st src))"

context ledger
begin

lemma noting_ok: "noting m s = (Inr (Inr x), s') \<Longrightarrow> m s = (Inr x, s')"
  by (auto simp: noting_def split: prod.splits sum.splits cli_error.splits)

text \<open>What an entry says of its patch; only when nothing is wrong is it ready.\<close>

lemma review_patch_exact:
  assumes "good s" "review_patch A L repo head clean p s = (Inr e, s')"
  shows "reviewed (objs s) head clean p e"
proof -
  obtain attempt s1 status s2 ds where *: "noting (find_attempt A L repo (pp_attempt_id p)) s = (Inr attempt, s1)"
    "noting (effective_attempt_status A L repo (pp_attempt_id p)) s1 = (Inr status, s2)"
    "rq_patch_id e = pp_patch_id p" "rq_attempt_id e = pp_attempt_id p" "rq_attempt_status e = map_option fst (value_of status)"
    "rq_apply_ready e = (noted ''attempt is not readable: '' attempt @ noted ''attempt status is not readable: '' status @
              (if head \<noteq> Some (pp_base_commit p) then [''repository HEAD does not match patch base commit''] else []) @
              (if \<not> clean then [''repository worktree is dirty''] else []) @ ds = [])"
    using assms(2) unfolding review_patch_def Let_def by (auto elim!: e_bind_Inr)
  have s1: "good s1" "objs s1 = objs s" using quietD [OF quiet_noting [OF find_attempt_quiet] assms(1) *(1)] by simp_all
  have "\<exists>st src. rq_attempt_status e = Some st \<and> status_in (objs s) (pp_attempt_id p) st src" if ready: "rq_apply_ready e"
  proof -
    obtain x where x: "status = Inr x" using ready *(6) by (cases status) (auto simp: noted_def)
    obtain st src where st: "x = (st, src)" by (cases x)
    have "status_in (objs s1) (pp_attempt_id p) st src"
      by (rule effective_status_in [OF s1(1) noting_ok [OF *(2) [unfolded x st]]])
    then show ?thesis using s1(2) *(5) x st by (auto simp: value_of_def)
  qed
  then show ?thesis using *(3,4,6) by (auto simp: reviewed_def split: if_splits)
qed

lemma review_each:
  assumes "good s" "e_map (review_patch A L repo head clean) ps s = (Inr es, s')"
  shows "list_all2 (reviewed (objs s) head clean) ps es"
  using assms
proof (induction ps arbitrary: s es)
  case (Cons p ps)
  obtain e s1 es1 where *: "review_patch A L repo head clean p s = (Inr e, s1)"
    "e_map (review_patch A L repo head clean) ps s1 = (Inr es1, s')" "es = e # es1" using Cons.prems(2) by (auto elim!: e_bind_Inr)
  have s1: "good s1" "objs s1 = objs s" using quietD [OF review_patch_quiet Cons.prems(1) *(1)] by simp_all
  from Cons.IH [OF s1(1) *(2)] review_patch_exact [OF Cons.prems(1) *(1)] show ?case
    unfolding *(3) s1(2) by simp
qed simp

lemma retired_exact:
  assumes "good s" "retired_patch_ids A L repo s = (Inr ids, s')"
  shows "x \<in> set ids \<longleftrightarrow> retired_in (objs s) x"
proof -
  obtain es s1 where es: "read_entries A L repo ''agent.patch_retirement'' patch_retirement_of_json s = (Inr es, s1)"
    "ids = sorted_dedup (map (\<lambda>e. pr_patch_id (en_value e)) es)"
    using assms(2) unfolding retired_patch_ids_def by (auto elim!: e_bind_Inr)
  have "views (retirements_in (objs s)) es" by (rule read_entries_view [OF assms(1) es(1)])
  then have "retirements_in (objs s) i = Some r \<longleftrightarrow> (\<exists>e \<in> set es. en_object_id e = i \<and> en_value e = r)" for i r
    by (simp add: views_def)
  then show ?thesis unfolding retired_in_def es(2) by (force simp: sorted_dedup_def)
qed

lemma queue_exact:
  assumes "good s" "build_patch_review_queue A L repo s = (Inr rep, s')"
  shows "queue_of (objs s) rep"
proof -
  obtain retired s1 insp s2 patches s3 queued s4 where *: "retired_patch_ids A L repo s = (Inr retired, s1)"
    "gitm L (a_inspect A repo) s1 = (Inr insp, s2)" "list_patches A L repo s2 = (Inr patches, s3)"
    "e_map (review_patch A L repo (ri_head_commit insp) (ri_dirty insp = Some False))
       (filter (\<lambda>p. pp_patch_id p \<notin> set retired) (map en_value patches)) s3 = (Inr queued, s4)"
    "rep = \<lparr>rqr_status = ''ok'', rqr_patch_count = length queued, rqr_ready_count = length (filter rq_apply_ready queued), rqr_patches = queued\<rparr>"
    using assms(2) unfolding build_patch_review_queue_def by (auto elim!: e_bind_Inr)
  have s1: "good s1" "objs s1 = objs s" using quietD [OF retired_quiet assms(1) *(1)] by simp_all
  have s2: "good s2" "objs s2 = objs s" using quietD [OF quiet_gitm [OF inspect_quiet] s1(1) *(2)] s1(2) by simp_all
  have s3: "good s3" "objs s3 = objs s" using quietD [OF list_patches_quiet s2(1) *(3)] s2(2) by simp_all
  obtain es0 where es0: "views (patches_in (objs s2)) es0" "patches = sort_key (\<lambda>e. pp_patch_id (en_value e)) es0"
    by (rule listed_values [OF s2(1) *(3) [unfolded list_patches_def]])
  have listed: "patches_in (objs s) i = Some p \<longleftrightarrow> (\<exists>e \<in> set patches. en_object_id e = i \<and> en_value e = p)" for i p
    using es0 s2(2) by (simp add: views_def)
  let ?ps = "filter (\<lambda>p. pp_patch_id p \<notin> set retired) (map en_value patches)"
  note all = review_each [OF s3(1) *(4), unfolded s3(2)]
  have "map rq_patch_id queued = map pp_patch_id ?ps" using all by (induction rule: list_all2_induct) (auto simp: reviewed_def)
  then have "rq_patch_id ` set queued = pp_patch_id ` set ?ps" by (metis set_map)
  also have "\<dots> = {pp_patch_id p | i p. patches_in (objs s) i = Some p \<and> \<not> retired_in (objs s) (pp_patch_id p)}"
    unfolding listed retired_exact [OF assms(1) *(1), symmetric] by auto
  finally have ids: "rq_patch_id ` set queued = {pp_patch_id p | i p. patches_in (objs s) i = Some p \<and> \<not> retired_in (objs s) (pp_patch_id p)}" .
  have "\<exists>st src. rq_attempt_status e = Some st \<and> status_in (objs s) (rq_attempt_id e) st src"
    if e: "e \<in> set queued" "rq_apply_ready e" for e
  proof -
    obtain n where n: "n < length queued" "queued ! n = e" using e(1) by (auto simp: in_set_conv_nth)
    then have "reviewed (objs s) (ri_head_commit insp) (ri_dirty insp = Some False) (?ps ! n) e"
      using list_all2_nthD2 [OF all n(1)] by simp
    then show ?thesis using e(2) by (auto simp: reviewed_def)
  qed
  with ids show ?thesis by (simp add: queue_of_def *(5))
qed

end

end
