(* ===== verification/Cli_Theorems.thy ===== *)
theory Cli_Theorems
  imports Cli_Reference Cli_Review
begin

text \<open>
  The properties of the commands on a Git repository.  Most follow from the contract \<open>ledger\<close>, which
  \<open>git_ledger\<close> discharges for the Git store: the clock, the subprocesses, the file system and the
  network may fail at any point.
\<close>

section \<open>Sessions\<close>

text \<open>
  C8: however a session of commands runs on a repository, and whatever fails on the way, the ledger only
  changes by steps of \<open>ledger_step\<close>: attempts start running, only a running or planned attempt is submitted
  or abandoned, submission needs a prepared patch, nothing is overwritten or removed, and every body
  written is one the tool can read back.  A session without error leaves the store consistent.  The
  commands of a session are those of \<open>tool_command\<close>, which write the ledger with the tool's own records;
  \<^verbatim>\<open>object write\<close>, \<^verbatim>\<open>relay pull\<close> and \<^verbatim>\<open>sync pull\<close>, which take in objects of any origin, are not among them.
  They are to be \<open>harmless\<close>: the program of a \<^verbatim>\<open>run exec\<close> leaves the ledger alone, and the id of a patch
  to apply has no slash.
\<close>

theorem commands_refine_steps:
  assumes "host_good G L P repo s"
    and "list_all (harmless (host_good G L P repo) (host_objects G L) (git_api G L P)) cs"
    and "session (git_api G L P) L R schema keys repo cs s = (r, s')"
  shows "ledger_steps (host_objects G L s) (host_objects G L s') \<and> (is_ok r \<longrightarrow> host_good G L P repo s')"
  by (rule stepwiseD [OF git_ledger.session_steps [OF assms(2)] assms(1,3)])

theorem commands_refine_steps_witness:
  "\<forall>(R :: unit rdl_core) schema. \<exists>s'. session ref_api ref_lib R schema ref_keys ''r'' [Note_Send ref_note] (ref_store [], ()) = (Inr (), s') \<and>
     ledger_steps Map.empty (host_objects ref_gix ref_lib s')"
proof (intro allI)
  fix R :: "unit rdl_core" and schema
  have st: "storable []" by (simp add: storable_def)
  obtain s' where s': "session ref_api ref_lib R schema ref_keys ''r'' [Note_Send ref_note] (ref_store [], ()) = (Inr (), s')"
    by (rule ref_note_session [OF st]) simp
  show "\<exists>s'. session ref_api ref_lib R schema ref_keys ''r'' [Note_Send ref_note] (ref_store [], ()) = (Inr (), s') \<and>
     ledger_steps Map.empty (host_objects ref_gix ref_lib s')"
    using commands_refine_steps [OF ref_store_good [OF st] _ s'] s' ref_store_objects [OF st] by auto
qed

text \<open>
  C9: a finished attempt stays finished.  Once an attempt is submitted or abandoned, no session of
  commands, failing or not, gives it another status or lets the status come from another record; the
  invariant of the ledger that this rests on is kept as well.
\<close>

theorem finished_attempts_stay:
  assumes "host_good G L P repo s" "life_ok (host_objects G L s)"
    and "list_all (harmless (host_good G L P repo) (host_objects G L) (git_api G L P)) cs"
    and "session (git_api G L P) L R schema keys repo cs s = (r, s')"
    and "status_in (host_objects G L s) attempt_id st src" "st \<notin> {Running, Planned}"
  shows "life_ok (host_objects G L s') \<and> status_in (host_objects G L s') attempt_id st src"
proof -
  have steps: "ledger_steps (host_objects G L s) (host_objects G L s')"
    using stepwiseD [OF git_ledger.session_steps [OF assms(3)] assms(1,4)] by blast
  obtain i where "src = Some i" by (rule status_final_source [OF assms(2,5,6)])
  then show ?thesis
    using final_status_kept [OF steps_keep_life [OF steps assms(2)] steps_grow [OF steps]] steps_keep_life [OF steps assms(2)] assms(5)
    by blast
qed

theorem finished_attempts_stay_witness:
  "\<forall>(R :: unit rdl_core) schema. \<exists>s'. session ref_api ref_lib R schema ref_keys ''r'' [Note_Send ref_note] (ref_store submitted_store, ()) = (Inr (), s') \<and>
     status_in (host_objects ref_gix ref_lib s') ''x'' Submitted (Some (id_of (replicate 64 CHR ''b'')))"
proof (intro allI)
  fix R :: "unit rdl_core" and schema
  obtain s' where s': "session ref_api ref_lib R schema ref_keys ''r'' [Note_Send ref_note] (ref_store submitted_store, ()) = (Inr (), s')"
    by (rule ref_note_session [OF submitted_storable submitted_fresh])
  have "life_ok (host_objects ref_gix ref_lib s') \<and>
      status_in (host_objects ref_gix ref_lib s') ''x'' Submitted (Some (id_of (replicate 64 CHR ''b'')))"
    by (rule finished_attempts_stay [OF ref_store_good [OF submitted_storable] _ _ s'])
      (simp_all add: ref_store_objects [OF submitted_storable] submitted_life)
  with s' show "\<exists>s'. session ref_api ref_lib R schema ref_keys ''r'' [Note_Send ref_note] (ref_store submitted_store, ()) = (Inr (), s') \<and>
     status_in (host_objects ref_gix ref_lib s') ''x'' Submitted (Some (id_of (replicate 64 CHR ''b'')))" by blast
qed

text \<open>
  C11: the types of the ledger are kept.  A session writes only bodies that decode as the record of their
  kind, so in a typed ledger the commands that read every record of a kind never meet one they cannot decode.
\<close>

theorem ledger_stays_typed:
  assumes "host_good G L P repo s" "ledger_typed (host_objects G L s)"
    and "list_all (harmless (host_good G L P repo) (host_objects G L) (git_api G L P)) cs"
    and "session (git_api G L P) L R schema keys repo cs s = (r, s')"
  shows "ledger_typed (host_objects G L s')"
proof -
  have "ledger_steps (host_objects G L s) (host_objects G L s')"
    using stepwiseD [OF git_ledger.session_steps [OF assms(3)] assms(1,4)] by blast
  then show ?thesis by (rule steps_typed [OF _ assms(2)])
qed

theorem ledger_stays_typed_witness:
  "\<forall>(R :: unit rdl_core) schema. \<exists>s'. session ref_api ref_lib R schema ref_keys ''r'' [Note_Send ref_note] (ref_store submitted_store, ()) = (Inr (), s') \<and>
     ledger_typed (host_objects ref_gix ref_lib s')"
proof (intro allI)
  fix R :: "unit rdl_core" and schema
  obtain s' where s': "session ref_api ref_lib R schema ref_keys ''r'' [Note_Send ref_note] (ref_store submitted_store, ()) = (Inr (), s')"
    by (rule ref_note_session [OF submitted_storable submitted_fresh])
  have "ledger_typed (host_objects ref_gix ref_lib s')"
    by (rule ledger_stays_typed [OF ref_store_good [OF submitted_storable] _ _ s'])
      (simp_all add: ref_store_objects [OF submitted_storable] submitted_life)
  with s' show "\<exists>s'. session ref_api ref_lib R schema ref_keys ''r'' [Note_Send ref_note] (ref_store submitted_store, ()) = (Inr (), s') \<and>
     ledger_typed (host_objects ref_gix ref_lib s')" by blast
qed

section \<open>The status of an attempt\<close>

text \<open>
  C12: the status that \<^verbatim>\<open>attempt status\<close> computes is the one of the ledger: the last transition by time and
  object id, or the status of the attempt itself where there is none; that status is unique, and
  computing it changes nothing.  So two computations on the same ledger agree, whatever the cache holds.
\<close>

theorem effective_status_exact:
  assumes "host_good G L P repo s"
    and "effective_attempt_status (git_api G L P) L repo attempt_id s = (Inr (st, src), s')"
  shows "(\<forall>st' src'. status_in (host_objects G L s) attempt_id st' src' \<longleftrightarrow> st' = st \<and> src' = src) \<and>
    host_good G L P repo s' \<and> host_objects G L s' = host_objects G L s"
  using git_ledger.effective_status_in [OF assms] status_in_unique quietD [OF git_ledger.effective_status_quiet assms]
  by metis

theorem effective_status_exact_witness:
  "\<exists>obj s'. storable [obj] \<and> effective_attempt_status ref_api ref_lib ''r'' ''x'' (ref_store [obj], ()) = (Inr (Running, None), s') \<and>
     status_in [co_object_id obj \<mapsto> obj] ''x'' Running None"
proof -
  obtain obj where o: "storable [obj]" "co_kind obj = ''agent.attempt''" "co_body obj = agent_attempt_json ref_attempt" "fields_ok ref_lib obj"
    by (rule started_store)
  let ?s = "(ref_store [obj], ())"
  have objs: "host_objects ref_gix ref_lib ?s = [co_object_id obj \<mapsto> obj]" by (simp add: ref_store_objects [OF o(1)])
  have calm: "host_calm ref_gix ref_lib ref_host ''r'' ?s" using o by (intro ref_store_host_calm) simp_all
  have typed: "ledger_typed (host_objects ref_gix ref_lib ?s)" unfolding objs
    using o by (auto simp: ledger_typed_def well_typed_def split: if_splits)
  have att: "attempts_in (host_objects ref_gix ref_lib ?s) (co_object_id obj) = Some ref_attempt"
    unfolding objs using o by (simp add: typed_def)
  have "att_attempt_id ref_attempt = ''x''" by (simp add: ref_attempt_def)
  then obtain st src s' where r: "effective_attempt_status ref_api ref_lib ''r'' ''x'' ?s = (Inr (st, src), s')"
    using git_live.effective_status_returns [OF calm typed att] by auto
  have "status_in [co_object_id obj \<mapsto> obj] ''x'' Running None"
    using o by (auto simp: status_in_def least_with_def typed_def ref_attempt_def split: if_splits)
  moreover from this have "st = Running \<and> src = None"
    using effective_status_exact [OF ref_store_good [OF o(1)] r] unfolding objs by metis
  ultimately show ?thesis using r o(1) by blast
qed

text \<open>
  C13: in a calm repository (an initialised store, no fault of the file system, objects that match their
  ids) with a typed ledger, the status of every started attempt is computed: the command returns, with
  the status of the ledger, and leaves the repository calm.
\<close>

theorem started_attempt_has_status:
  assumes "host_calm G L P repo s" "ledger_typed (host_objects G L s)"
    and "attempts_in (host_objects G L s) i = Some a"
  shows "\<exists>st src s'. effective_attempt_status (git_api G L P) L repo (att_attempt_id a) s = (Inr (st, src), s') \<and>
    status_in (host_objects G L s) (att_attempt_id a) st src \<and> host_calm G L P repo s'"
  using git_live.effective_status_returns [OF assms] by blast

theorem started_attempt_has_status_witness:
  "\<exists>obj st src s'. effective_attempt_status ref_api ref_lib ''r'' ''x'' (ref_store [obj], ()) = (Inr (st, src), s')"
proof -
  obtain obj where o: "storable [obj]" "co_kind obj = ''agent.attempt''" "co_body obj = agent_attempt_json ref_attempt" "fields_ok ref_lib obj"
    by (rule started_store)
  let ?s = "(ref_store [obj], ())"
  have objs: "host_objects ref_gix ref_lib ?s = [co_object_id obj \<mapsto> obj]" by (simp add: ref_store_objects [OF o(1)])
  have "host_calm ref_gix ref_lib ref_host ''r'' ?s" using o by (intro ref_store_host_calm) simp_all
  moreover have "ledger_typed (host_objects ref_gix ref_lib ?s)" unfolding objs
    using o by (auto simp: ledger_typed_def well_typed_def split: if_splits)
  moreover have "attempts_in (host_objects ref_gix ref_lib ?s) (co_object_id obj) = Some ref_attempt"
    unfolding objs using o by (simp add: typed_def)
  moreover have "att_attempt_id ref_attempt = ''x''" by (simp add: ref_attempt_def)
  ultimately show ?thesis using started_attempt_has_status by metis
qed

text \<open>
  C10: a running attempt with a prepared patch can be submitted.  In a calm repository, with no signing key
  configured and a clock that reads \<open>n\<close>, \<^verbatim>\<open>attempt submit\<close> returns, its report and the ledger hold the
  record of that transition at time \<open>n\<close>, the rest of the ledger is as before, the attempt is then submitted
  by that record, and the repository stays calm.  The one exception is that the ledger already has an
  object under the id of this very record, whose id document is another one: a collision of SHA-256.
\<close>

theorem running_attempt_can_be_submitted:
  assumes "host_calm G L P repo s" "ledger_typed (host_objects G L s)" "life_ok (host_objects G L s)"
    and "attempts_in (host_objects G L s) i = Some a" "ti_attempt_id input = att_attempt_id a" "ti_repo input = repo"
    and "status_in (host_objects G L s) (att_attempt_id a) st src" "st \<in> {Running, Planned}"
    and "patches_in (host_objects G L s) j = Some p" "pp_attempt_id p = att_attempt_id a"
    and "resolve_signing_key (git_api G L P) L keys (ti_by input) s = (Inr None, s)"
    and "o_now P (snd s) = (Inr n, q)"
  shows "\<exists>k body. body = attempt_status_transition_json (transition_at input Submitted n) \<and>
    canonical_object_id L ''agent.attempt_status'' DEFAULT_SCHEMA_VERSION body = Inr k \<and>
    (case host_objects G L s k of
       Some obj \<Rightarrow> documents_collide L (id_document (co_kind obj) (co_schema_version obj) (co_body obj))
         (id_document ''agent.attempt_status'' DEFAULT_SCHEMA_VERSION body)
     | None \<Rightarrow> \<exists>rep s' obj. attempt_submit (git_api G L P) L keys input s = (Inr rep, s') \<and> host_calm G L P repo s' \<and>
         tp_transition rep = transition_at input Submitted n \<and> wr_object_id (tp_object rep) = k \<and>
         host_objects G L s' = (host_objects G L s)(k \<mapsto> obj) \<and>
         co_kind obj = ''agent.attempt_status'' \<and> co_body obj = body \<and>
         status_in (host_objects G L s') (att_attempt_id a) Submitted (Some k))"
proof -
  let ?M = "host_objects G L s" and ?t = "transition_at input Submitted n"
  let ?body = "attempt_status_transition_json ?t"
  have laws: "json_codec L" using assms(1) by (simp add: host_calm_def host_good_def store_good_def)
  have ok: "json_ok ?body" using attempt_status_transition_plain [where d = 0] json_plain_ok by blast
  obtain new where new: "canonical_object_new L ''agent.attempt_status'' DEFAULT_SCHEMA_VERSION 0 ?body = Inr new"
    using canonical_object_new_total [OF laws ok] by blast
  note d = canonical_object_newD [OF new]
  have ta: "tr_attempt_id ?t = att_attempt_id a" "tr_status ?t = Submitted" using assms(5) by (simp_all add: transition_at_def)
  show ?thesis
  proof (cases "?M (co_object_id new)")
    case (Some o2)
    have "\<not> (co_kind o2 = ''agent.attempt_status'' \<and> canonical_json (co_body o2) = canonical_json ?body)"
    proof
      assume c: "co_kind o2 = ''agent.attempt_status'' \<and> canonical_json (co_body o2) = canonical_json ?body"
      obtain u where u: "attempt_status_transition_of_json (co_body o2) = Some u"
        using assms(2) Some c by (auto simp: ledger_typed_def well_typed_def)
      have "json_ok (co_body o2)" using Some assms(1) by (auto simp: host_objects_def repo_objects_iff host_calm_def)
      then have "tr_attempt_id u = att_attempt_id a" using canonical_transition_attempt [OF u] c ta(1) by metis
      moreover have "transitions_in ?M (co_object_id new) = Some u" using Some c u by (simp add: typed_def)
      ultimately show False using active_no_transition [OF assms(3,7,8)] by blast
    qed
    then have "documents_collide L (id_document (co_kind o2) (co_schema_version o2) (co_body o2))
        (id_document ''agent.attempt_status'' DEFAULT_SCHEMA_VERSION ?body)" using taken_id [OF assms(1) ok new Some] by blast
    then show ?thesis using Some d(2) by auto
  next
    case None
    have clock: "\<exists>s'. a_now (git_api G L P) s1 = (Inr n, s') \<and> host_calm G L P repo s'"
      if c: "host_calm G L P repo s1" and q: "snd s1 = snd s" for s1
    proof -
      have "a_now (git_api G L P) s1 = (Inr n, (fst s1, q))" using assms(12) q by (cases s1) (simp add: git_api_def on_outside_def)
      moreover have "host_calm G L P repo (fst s1, q)" using c by (simp add: host_calm_def host_good_def)
      ultimately show ?thesis by blast
    qed
    obtain rep s' where r: "attempt_submit (git_api G L P) L keys input s = (Inr rep, s')" "host_calm G L P repo s'"
      "tp_transition rep = ?t" "wr_object_id (tp_object rep) = co_object_id new" "host_objects G L s' = ?M(co_object_id new \<mapsto> new)"
      using git_live.submit_returns [where I = "\<lambda>s1. snd s1 = snd s", OF assms(1,2,4,5,9,10,6,7,8) refl
          keeps_snd_read keeps_snd_read keeps_snd_read clock new None plain_bodies(2) assms(11)] by blast
    have "status_in (?M(co_object_id new \<mapsto> new)) (att_attempt_id a) (tr_status ?t) (Some (co_object_id new))"
      by (rule first_transition_status [OF assms(3,7,8) None d(3,5) ta(1)])
    then show ?thesis using r None d(2,3,5) ta(2) by auto
  qed
qed

theorem running_attempt_can_be_submitted_witness:
  "storable work_store \<and> status_in (ledger_of work_store) ''x'' Running None \<and>
   (\<exists>rep s'. ledger_of work_store (wr_object_id (tp_object rep)) = None \<and>
      attempt_submit ref_api ref_lib ref_keys \<lparr>ti_repo = ''r'', ti_attempt_id = ''x'', ti_reason = None, ti_by = Some ''a''\<rparr>
         (ref_store work_store, ()) = (Inr rep, s') \<and>
      status_in (host_objects ref_gix ref_lib s') ''x'' Submitted (Some (wr_object_id (tp_object rep))))"
proof -
  let ?input = "\<lparr>ti_repo = ''r'', ti_attempt_id = ''x'', ti_reason = None, ti_by = Some ''a''\<rparr> :: attempt_transition_input"
  have objs: "host_objects ref_gix ref_lib (ref_store work_store, ()) = ledger_of work_store"
    by (rule ref_store_objects [OF work_storable(1)])
  have x: "att_attempt_id ref_attempt = ''x''" "pp_attempt_id ref_patch = ''x''" by (simp_all add: ref_attempt_def ref_patch_def)
  have clock: "o_now ref_host (snd (ref_store work_store, ())) = (Inr 7, ())" by (simp add: ref_host_def)
  have free: "ledger_of work_store k = None"
    if "canonical_object_id ref_lib ''agent.attempt_status'' DEFAULT_SCHEMA_VERSION
      (attempt_status_transition_json (transition_at ?input Submitted 7)) = Inr k" for k
  proof -
    have "list_all (\<lambda>obj. canonical_object_id ref_lib ''agent.attempt_status'' DEFAULT_SCHEMA_VERSION
        (attempt_status_transition_json (transition_at ?input Submitted 7)) \<noteq> Inr (co_object_id obj)) work_store"
      by code_simp
    then show ?thesis using that by (auto simp: map_of_eq_None_iff list_all_iff)
  qed
  show ?thesis
    using running_attempt_can_be_submitted [OF ref_store_host_calm [OF work_storable], unfolded objs, OF work_ledger(1,2) work_views(1) _ _ _ _
        work_views(2) _ _ clock, where st = Running and src = None and input = ?input and keys = ref_keys]
      work_storable(1) work_ledger(3) ref_unsigned x free by auto
qed

section \<open>Patches\<close>

text \<open>
  a patch is applied once per idempotency key.  When \<^verbatim>\<open>patch apply\<close> returns, its report names an
  application in the ledger for that patch and key.  If the ledger already had one under the key,
  the patch is not applied again and the ledger does not change; otherwise the report says that it was
  applied, and exactly one record is new.
\<close>

theorem patch_applied_once:
  assumes "host_good G L P (pai_repo input) s" "CHR ''/'' \<notin> set (pai_patch_id input)"
    and "patch_apply (git_api G L P) L input s = (r, s')"
  shows "\<forall>rep. r = Inr rep \<longrightarrow>
    applied_as (host_objects G L s) (pai_patch_id input) (pai_idempotency_key input) rep (host_objects G L s') \<and>
    (\<forall>key. pai_idempotency_key input = Some key \<longrightarrow> applied_before (host_objects G L s) (pai_patch_id input) key \<longrightarrow>
       \<not> par_applied rep \<and> host_objects G L s' = host_objects G L s)"
proof (intro allI impI)
  fix rep assume "r = Inr rep"
  then have "applied_as (host_objects G L s) (pai_patch_id input) (pai_idempotency_key input) rep (host_objects G L s')"
    using yieldsD [OF git_ledger.patch_apply_yields [OF refl assms(2)] assms(1)] assms(3) by blast
  then show "applied_as (host_objects G L s) (pai_patch_id input) (pai_idempotency_key input) rep (host_objects G L s') \<and>
    (\<forall>key. pai_idempotency_key input = Some key \<longrightarrow> applied_before (host_objects G L s) (pai_patch_id input) key \<longrightarrow>
       \<not> par_applied rep \<and> host_objects G L s' = host_objects G L s)"
    unfolding applied_as_def by (auto split: if_splits)
qed

text \<open>
  a prepared patch carries its diff.  After \<^verbatim>\<open>patch prepare\<close>, and any further session of commands, the
  diff resolved for the patch is always the same one, its hash is one of the hashes of the change evidence
  and is the hash of its bytes; the only other outcome is the error of reading the diff object.
\<close>

theorem prepared_patch_resolves:
  assumes "host_good G L P repo s" "patch_prepare (git_api G L P) L keys repo attempt_id s = (Inr rep, s1)"
    and "list_all (harmless (host_good G L P repo) (host_objects G L) (git_api G L P)) cs"
    and "session (git_api G L P) L R schema keys' repo cs s1 = (Inr u, s2)"
  shows "\<exists>d. rd_diff_hash d = bytes_hash L (rd_raw_diff d) \<and> rd_diff_hash d \<in> set (pp_diff_hashes (ppr_patch rep)) \<and>
    (\<forall>attempt r s3. resolve_patch_diff (git_api G L P) L repo (ppr_patch rep) attempt s2 = (r, s3) \<longrightarrow>
       r = Inr d \<or> (\<exists>e. a_read (git_api G L P) repo (hd (pp_diff_object_ids (ppr_patch rep))) s2 = (Inl e, s3) \<and>
         r = Inl (Bail (git_error_text L e))))"
proof -
  have p: "host_good G L P repo s1" "\<exists>d. diff_recorded L (host_objects G L s1) (ppr_patch rep) d \<and>
      rd_diff_hash d = bytes_hash L (rd_raw_diff d) \<and> rd_diff_hash d \<in> set (pp_diff_hashes (ppr_patch rep))"
    using yieldsD [OF git_ledger.patch_prepare_yields assms(1,2)] by blast+
  then obtain d where d: "diff_recorded L (host_objects G L s1) (ppr_patch rep) d" "rd_diff_hash d = bytes_hash L (rd_raw_diff d)"
    "rd_diff_hash d \<in> set (pp_diff_hashes (ppr_patch rep))" by blast
  have s2: "ledger_steps (host_objects G L s1) (host_objects G L s2)" "host_good G L P repo s2"
    using stepwiseD [OF git_ledger.session_steps [OF assms(3)] p(1) assms(4)] by (simp_all add: is_ok_def)
  have "diff_recorded L (host_objects G L s2) (ppr_patch rep) d"
    by (rule diff_recorded_grows [OF steps_grow [OF s2(1)] d(1)])
  then show ?thesis using d(2,3) git_ledger.resolve_recorded [OF s2(2)] by blast
qed

text \<open>
  C14: the review queue lists the patches of the ledger that are not retired, all of them and no other,
  with the right counts; an entry is ready only when the status of its attempt is known.  A patch that was
  retired before a session of commands stays out of the queue after it.
\<close>

theorem review_queue_exact:
  assumes "host_good G L P repo s"
    and "list_all (harmless (host_good G L P repo) (host_objects G L) (git_api G L P)) cs"
    and "session (git_api G L P) L R schema keys repo cs s = (Inr u, s1)"
    and "build_patch_review_queue (git_api G L P) L repo s1 = (Inr rep, s2)"
  shows "queue_of (host_objects G L s1) rep \<and>
    (\<forall>p. retired_in (host_objects G L s) p \<longrightarrow> p \<notin> rq_patch_id ` set (rqr_patches rep))"
proof -
  have s1: "ledger_steps (host_objects G L s) (host_objects G L s1)" "host_good G L P repo s1"
    using stepwiseD [OF git_ledger.session_steps [OF assms(2)] assms(1,3)] by (simp_all add: is_ok_def)
  have q: "queue_of (host_objects G L s1) rep" by (rule git_ledger.queue_exact [OF s1(2) assms(4)])
  have "rq_patch_id ` set (rqr_patches rep) = {pp_patch_id p | i p. patches_in (host_objects G L s1) i = Some p \<and>
      \<not> retired_in (host_objects G L s1) (pp_patch_id p)}" using q by (simp add: queue_of_def)
  then show ?thesis using q retired_grows [OF steps_grow [OF s1(1)]] by auto
qed

lemma retired_p: "retired_in (ledger_of retired_store) ''p''"
  unfolding retired_in_def by (intro exI conjI, rule retired_views(2)) (simp add: ref_retirement_def)

text \<open>The queue of the repository whose one patch is retired: it is empty, and reading it keeps the repository calm.\<close>

lemma retired_queue_returns:
  assumes c: "host_calm ref_gix ref_lib ref_host ''r'' s" and o: "host_objects ref_gix ref_lib s = ledger_of retired_store"
  shows "\<exists>s'. build_patch_review_queue ref_api ref_lib ''r'' s =
      (Inr \<lparr>rqr_status = ''ok'', rqr_patch_count = 0, rqr_ready_count = 0, rqr_patches = []\<rparr>, s') \<and>
    host_calm ref_gix ref_lib ref_host ''r'' s' \<and> host_objects ref_gix ref_lib s' = ledger_of retired_store"
proof -
  have typed: "\<forall>i obj. host_objects ref_gix ref_lib s i = Some obj \<longrightarrow> co_kind obj = ''agent.patch_retirement'' \<longrightarrow>
      patch_retirement_of_json (co_body obj) \<noteq> None"
    using retired_typed unfolding o by (auto simp: ledger_typed_def well_typed_def)
  obtain es s1 where es: "read_entries ref_api ref_lib ''r'' ''agent.patch_retirement'' patch_retirement_of_json s = (Inr es, s1)"
    "host_calm ref_gix ref_lib ref_host ''r'' s1" using git_live.read_entries_return [OF c typed] by blast
  have g: "host_good ref_gix ref_lib ref_host ''r'' s" "host_good ref_gix ref_lib ref_host ''r'' s1" using c es(2) by (simp_all add: host_calm_def)
  have o1: "host_objects ref_gix ref_lib s1 = ledger_of retired_store"
    using quietD [OF git_ledger.read_entries_quiet g(1) es(1)] o by simp
  let ?ids = "sorted_dedup (map (\<lambda>e. pr_patch_id (en_value e)) es)"
  have r: "retired_patch_ids ref_api ref_lib ''r'' s = (Inr ?ids, s1)"
    by (simp add: retired_patch_ids_def e_bind_def e_ret_def es(1))
  have "\<exists>insp. gitm ref_lib (a_inspect ref_api ''r'') s1 = (Inr insp, s1)"
    by (cases s1) (simp add: git_api_def on_world_def inspect_repository_def ref_gix_def status_has_any_change_def)
  then obtain insp where i: "gitm ref_lib (a_inspect ref_api ''r'') s1 = (Inr insp, s1)" by blast
  have "\<forall>i obj. host_objects ref_gix ref_lib s1 i = Some obj \<longrightarrow> co_kind obj = ''agent.patch'' \<longrightarrow> prepared_patch_of_json (co_body obj) \<noteq> None"
    using retired_typed unfolding o1 by (auto simp: ledger_typed_def well_typed_def)
  then obtain ps s2 where ps: "read_entries ref_api ref_lib ''r'' ''agent.patch'' prepared_patch_of_json s1 = (Inr ps, s2)"
    "host_calm ref_gix ref_lib ref_host ''r'' s2" using git_live.read_entries_return [OF es(2)] by blast
  have o2: "host_objects ref_gix ref_lib s2 = ledger_of retired_store"
    using quietD [OF git_ledger.read_entries_quiet g(2) ps(1)] o1 by simp
  let ?ps = "sort_key (\<lambda>e. pp_patch_id (en_value e)) ps"
  have l: "list_patches ref_api ref_lib ''r'' s1 = (Inr ?ps, s2)" by (simp add: list_patches_def e_bind_def e_ret_def ps(1))
  have "pp_patch_id (en_value e) = ''p''" if "e \<in> set ps" for e
  proof -
    have "views (patches_in (ledger_of retired_store)) ps" using git_ledger.read_entries_view [OF g(2) ps(1)] o1 by simp
    then have "patches_in (ledger_of retired_store) (en_object_id e) = Some (en_value e)" using that by (auto simp: views_def)
    then have "en_value e = ref_patch" unfolding retired_views(1) by (simp split: if_splits)
    then show ?thesis by (simp add: ref_patch_def)
  qed
  moreover have "''p'' \<in> set ?ids"
  proof -
    show ?thesis using git_ledger.retired_exact [OF g(1) r] retired_p unfolding o by blast
  qed
  ultimately have none: "filter (\<lambda>p. pp_patch_id p \<notin> set ?ids) (map en_value ?ps) = []" by (auto simp: filter_empty_conv)
  have "build_patch_review_queue ref_api ref_lib ''r'' s =
      (Inr \<lparr>rqr_status = ''ok'', rqr_patch_count = 0, rqr_ready_count = 0, rqr_patches = []\<rparr>, s2)"
    unfolding build_patch_review_queue_def by (simp add: e_bind_def r i l none e_ret_def del: lifts_Inr)
  then show ?thesis using ps(2) o2 by blast
qed

theorem review_queue_exact_witness:
  "\<forall>(R :: unit rdl_core) schema. \<exists>s1 rep s2. session ref_api ref_lib R schema ref_keys ''r'' [Review_Queue] (ref_store retired_store, ()) = (Inr (), s1) \<and>
     build_patch_review_queue ref_api ref_lib ''r'' s1 = (Inr rep, s2) \<and> ''p'' \<notin> rq_patch_id ` set (rqr_patches rep)"
proof (intro allI)
  fix R :: "unit rdl_core" and schema
  have o: "host_objects ref_gix ref_lib (ref_store retired_store, ()) = ledger_of retired_store"
    by (rule ref_store_objects [OF retired_storable(1)])
  obtain s1 where q1: "build_patch_review_queue ref_api ref_lib ''r'' (ref_store retired_store, ()) =
      (Inr \<lparr>rqr_status = ''ok'', rqr_patch_count = 0, rqr_ready_count = 0, rqr_patches = []\<rparr>, s1)"
    "host_calm ref_gix ref_lib ref_host ''r'' s1" "host_objects ref_gix ref_lib s1 = ledger_of retired_store"
    using retired_queue_returns [OF ref_store_host_calm [OF retired_storable] o] by blast
  obtain rep s2 where q2: "build_patch_review_queue ref_api ref_lib ''r'' s1 = (Inr rep, s2)"
    using retired_queue_returns [OF q1(2,3)] by blast
  have ses: "session ref_api ref_lib R schema ref_keys ''r'' [Review_Queue] (ref_store retired_store, ()) = (Inr (), s1)"
    by (simp only: session_def e_each.simps run_tool.simps void_def e_bind_def e_ret_def q1(1) prod.case sum.case)
  have h: "list_all (harmless (host_good ref_gix ref_lib ref_host ''r'') (host_objects ref_gix ref_lib) ref_api) [Review_Queue]" by simp
  show "\<exists>s1 rep s2. session ref_api ref_lib R schema ref_keys ''r'' [Review_Queue] (ref_store retired_store, ()) = (Inr (), s1) \<and>
     build_patch_review_queue ref_api ref_lib ''r'' s1 = (Inr rep, s2) \<and> ''p'' \<notin> rq_patch_id ` set (rqr_patches rep)"
    using review_queue_exact [OF ref_store_good [OF retired_storable(1)] h ses q2] retired_p ses q2 unfolding o by blast
qed

end
