(* ===== verification/Cli_Graph.thy ===== *)
theory Cli_Graph
  imports Cli_Sync Relay_Gcs
begin

text \<open>
  The graph of work and code of \<^verbatim>\<open>crates/rickydata-git-cli/src/main.rs\<close>: nodes for the repository, its
  commit, source files, symbols and every object of the ledger, edges between them, and the operations
  that write the graph to KFDB.  Version 5 UUIDs in the graph's namespace, Unicode lower case, the
  canonical path of a directory and the tree of files under it are parameters.
\<close>

section \<open>Nodes and edges\<close>

text \<open>
  A directory as \<^verbatim>\<open>read_dir\<close> finds it, one level after the other; links are neither files nor
  directories.  An entry or a directory may fail to be read.
\<close>

datatype source_tree =
    SourceFile
  | SourceOther
  | SourceDir "(str \<times> source_tree) list"
  | Unreadable str

record 's graph_env =
  ge_uuid :: "str \<Rightarrow> str"
  ge_lowercase :: "str \<Rightarrow> str"
  ge_canonicalize :: "'s \<Rightarrow> str \<Rightarrow> str option"
  ge_tree :: "'s \<Rightarrow> str \<Rightarrow> source_tree"

record graph_node =
  gn_id :: str
  gn_label :: str
  gn_source_object_id :: "str option"
  gn_properties :: "(str \<times> json) list"

record graph_edge =
  gd_id :: str
  gd_from :: str
  gd_to :: str
  gd_edge_type :: str
  gd_properties :: "(str \<times> json) list"

type_synonym graph = "graph_node list \<times> graph_edge list"

definition GRAPH_SCHEMA :: str where "GRAPH_SCHEMA = ''rickydata.repo_execution_graph.v1''"
definition UNIT_SEPARATOR :: str where "UNIT_SEPARATOR = [CHR 0x1F]"

definition graph_id :: "'s graph_env \<Rightarrow> str \<Rightarrow> str list \<Rightarrow> str" where
  "graph_id E kind parts = ge_uuid E (GRAPH_SCHEMA @ '':'' @ join_with UNIT_SEPARATOR (kind # parts))"

definition graph_edge_id :: "'s graph_env \<Rightarrow> str \<Rightarrow> str \<Rightarrow> str \<Rightarrow> str" where
  "graph_edge_id E src edge_type dest =
     ge_uuid E (GRAPH_SCHEMA @ '':edge:'' @ src @ UNIT_SEPARATOR @ edge_type @ UNIT_SEPARATOR @ dest)"

text \<open>The property map is a \<^verbatim>\<open>BTreeMap\<close>: the given properties are inserted after the two standard ones.\<close>

definition new_graph_node :: "str \<Rightarrow> str \<Rightarrow> str option \<Rightarrow> (str \<times> json) list \<Rightarrow> graph_node" where
  "new_graph_node label node_id source_object_id props = \<lparr>gn_id = node_id, gn_label = label,
     gn_source_object_id = source_object_id,
     gn_properties = map_of_entries ([(''rickydata_graph_schema_version'', JString GRAPH_SCHEMA),
       (''rickydata_graph_kind'', JString label)] @ props)\<rparr>"

definition new_graph_edge :: "'s graph_env \<Rightarrow> str \<Rightarrow> str \<Rightarrow> str \<Rightarrow> graph_edge" where
  "new_graph_edge E src edge_type dest = \<lparr>gd_id = graph_edge_id E src edge_type dest, gd_from = src, gd_to = dest,
     gd_edge_type = edge_type, gd_properties = [(''rickydata_graph_schema_version'', JString GRAPH_SCHEMA)]\<rparr>"

definition graph_node_json :: "graph_node \<Rightarrow> json" where
  "graph_node_json n = json_obj [(''id'', jstr (gn_id n)), (''label'', jstr (gn_label n)),
     (''source_object_id'', jopt jstr (gn_source_object_id n)), (''properties'', JObject (gn_properties n))]"

definition graph_edge_json :: "graph_edge \<Rightarrow> json" where
  "graph_edge_json e = json_obj [(''id'', jstr (gd_id e)), (''from'', jstr (gd_from e)), (''to'', jstr (gd_to e)),
     (''edge_type'', jstr (gd_edge_type e)), (''properties'', JObject (gd_properties e))]"

definition both :: "graph \<Rightarrow> graph \<Rightarrow> graph" where
  "both g h = (fst g @ fst h, snd g @ snd h)"

definition all_of :: "graph list \<Rightarrow> graph" where
  "all_of gs = foldr both gs ([], [])"

section \<open>Symbols of a source file\<close>

text \<open>\<^verbatim>\<open>str::find\<close>: what follows the first occurrence.\<close>

fun after_first :: "str \<Rightarrow> str \<Rightarrow> str option" where
  "after_first p [] = (if p = [] then Some [] else None)"
| "after_first p (c # cs) = (case strip_prefix p (c # cs) of Some rest \<Rightarrow> Some rest | None \<Rightarrow> after_first p cs)"

definition rust_symbol_name :: "str \<Rightarrow> str \<Rightarrow> str option" where
  "rust_symbol_name line keyword = (case after_first (keyword @ '' '') line of
     None \<Rightarrow> None
   | Some rest \<Rightarrow>
       (let name = takeWhile (\<lambda>c. is_ascii_alphanumeric c \<or> c = CHR ''_'') (trim_start rest)
        in if name = [] then None else Some name))"

definition function_graph :: "'s graph_env \<Rightarrow> str \<Rightarrow> str \<Rightarrow> str \<Rightarrow> bool \<Rightarrow> str \<Rightarrow> nat \<Rightarrow> graph" where
  "function_graph E relative_path repo_node_id file_id is_test name line_number =
     (let label = (if is_test then ''TestCase'' else ''Function'');
          symbol_id = graph_id E label [repo_node_id, relative_path, name, show_nat line_number] in
      ([new_graph_node label symbol_id None [(''name'', JString name), (''path'', JString relative_path),
          (''language'', JString ''rust''), (''start_line'', ju64 (of_nat line_number))]],
       new_graph_edge E file_id ''DEFINES'' symbol_id # (if is_test then [new_graph_edge E file_id ''TESTS'' symbol_id] else [])))"

definition type_graph :: "'s graph_env \<Rightarrow> str \<Rightarrow> str \<Rightarrow> str \<Rightarrow> str \<Rightarrow> str \<Rightarrow> nat \<Rightarrow> graph" where
  "type_graph E relative_path repo_node_id file_id kind name line_number =
     (let symbol_id = graph_id E ''TypeDefinition'' [repo_node_id, relative_path, name, show_nat line_number] in
      ([new_graph_node ''TypeDefinition'' symbol_id None [(''name'', JString name), (''kind'', JString kind),
          (''path'', JString relative_path), (''language'', JString ''rust''), (''start_line'', ju64 (of_nat line_number))]],
       [new_graph_edge E file_id ''DEFINES'' symbol_id]))"

text \<open>The first of the three keywords that names a type.\<close>

fun first_type :: "str \<Rightarrow> str list \<Rightarrow> (str \<times> str) option" where
  "first_type line [] = None"
| "first_type line (kind # kinds) = (case rust_symbol_name line kind of
     Some name \<Rightarrow> Some (kind, name) | None \<Rightarrow> first_type line kinds)"

text \<open>The loop over the lines: \<open>next_fn_is_test\<close> says that the line before was a test attribute.\<close>

fun symbol_loop :: "'s graph_env \<Rightarrow> str \<Rightarrow> str \<Rightarrow> str \<Rightarrow> nat \<Rightarrow> bool \<Rightarrow> str list \<Rightarrow> graph" where
  "symbol_loop E relative_path repo_node_id file_id line_number next_fn_is_test [] = ([], [])"
| "symbol_loop E relative_path repo_node_id file_id line_number next_fn_is_test (line # rest) =
     (let trimmed = trim_start line in
      if starts_with trimmed ''#[test]''
      then symbol_loop E relative_path repo_node_id file_id (line_number + 1) True rest
      else both (case rust_symbol_name trimmed ''fn'' of
          Some name \<Rightarrow> function_graph E relative_path repo_node_id file_id next_fn_is_test name line_number
        | None \<Rightarrow> (case first_type trimmed [''struct'', ''enum'', ''trait''] of
              Some (kind, name) \<Rightarrow> type_graph E relative_path repo_node_id file_id kind name line_number
            | None \<Rightarrow> ([], [])))
        (symbol_loop E relative_path repo_node_id file_id (line_number + 1) False rest))"

definition append_rust_symbols :: "'s graph_env \<Rightarrow> str \<Rightarrow> str \<Rightarrow> str \<Rightarrow> str \<Rightarrow> graph" where
  "append_rust_symbols E content relative_path repo_node_id file_id =
     symbol_loop E relative_path repo_node_id file_id 1 False (lines_of content)"

section \<open>Source files\<close>

text \<open>\<^verbatim>\<open>Path::extension\<close> is \<^verbatim>\<open>rs\<close>.\<close>

definition rust_file :: "str \<Rightarrow> bool" where
  "rust_file name = (case strip_suffix ''.rs'' name of None \<Rightarrow> False | Some stem \<Rightarrow> stem \<noteq> [])"

text \<open>
  The recursive visit, which yields the components of each path below the root; \<open>here\<close> are those of the
  directory.
\<close>

fun visit :: "str \<Rightarrow> str list \<Rightarrow> source_tree \<Rightarrow> cli_error + str list list"
and visit_entries :: "str \<Rightarrow> str list \<Rightarrow> (str \<times> source_tree) list \<Rightarrow> cli_error + str list list" where
  "visit base here (SourceDir es) = visit_entries base here es"
| "visit base here (Unreadable e) = Inl (Bail (''failed to read directory '' @ foldl path_join base here))"
| "visit base here SourceFile = Inr []"
| "visit base here SourceOther = Inr []"
| "visit_entries base here [] = Inr []"
| "visit_entries base here ((name, t) # es) =
     (if name \<in> {''.git'', ''target'', ''.rickygit-worktrees''} then visit_entries base here es
      else r_bind (case t of SourceFile \<Rightarrow> Inr (if rust_file name then [here @ [name]] else [])
                   | _ \<Rightarrow> visit base (here @ [name]) t) (\<lambda>files.
           r_map ((@) files) (visit_entries base here es)))"

text \<open>Paths are ordered component by component.\<close>

definition collect_rust_source_files :: "'s graph_env \<Rightarrow> str \<Rightarrow> ('s, cli_error, str list list) eff" where
  "collect_rust_source_files E repo_path s = e_lift (r_map sort
     (case ge_tree E s repo_path of
        SourceDir es \<Rightarrow> visit_entries repo_path [] es
      | _ \<Rightarrow> Inl (Bail (''failed to read directory '' @ repo_path)))) s"

definition from_utf8 :: "bytes \<Rightarrow> str option" where
  "from_utf8 b = (if str_bytes (from_utf8_lossy b) = b then Some (from_utf8_lossy b) else None)"

definition source_file_graph ::
    "'s api \<Rightarrow> lib \<Rightarrow> 's graph_env \<Rightarrow> str \<Rightarrow> str \<Rightarrow> str \<Rightarrow> str list \<Rightarrow> ('s, cli_error, graph) eff" where
  "source_file_graph A L E repo_path repo_node_id commit components =
     (let source_path = foldl path_join repo_path components;
          relative_path = replace_char (CHR 0x5C) CHR ''/'' (join_with ''/'' components);
          failed = ''failed to read Rust source file '' @ source_path in
      e_bind (ctx failed (a_read_file A source_path)) (\<lambda>raw.
      e_bind (some_or failed (from_utf8 raw)) (\<lambda>content.
      e_bind (e_lift (core_bail (stable_json_hash L (json_obj [(''content'', jstr content)])))) (\<lambda>content_hash.
      (let file_id = graph_id E ''File'' [repo_node_id, commit, relative_path, content_hash] in
       e_ret (both ([new_graph_node ''File'' file_id None [(''path'', JString relative_path), (''language'', JString ''rust''),
                (''content_hash'', JString content_hash)]],
              [new_graph_edge E repo_node_id ''CONTAINS'' file_id])
            (append_rust_symbols E content relative_path repo_node_id file_id)))))))"

definition append_code_structure_graph ::
    "'s api \<Rightarrow> lib \<Rightarrow> 's graph_env \<Rightarrow> str \<Rightarrow> str \<Rightarrow> str \<Rightarrow> ('s, cli_error, graph) eff" where
  "append_code_structure_graph A L E repo_path repo_node_id commit =
     e_bind (collect_rust_source_files E repo_path) (\<lambda>files.
     e_bind (e_map (source_file_graph A L E repo_path repo_node_id commit) files) (\<lambda>gs. e_ret (all_of gs)))"

section \<open>Objects of the ledger\<close>

definition intent_graph :: "'s graph_env \<Rightarrow> str \<Rightarrow> work_intent ledger_entry \<Rightarrow> graph" where
  "intent_graph E repo_node_id entry =
     (let node_id = graph_id E ''RickydataWorkIntent'' [repo_node_id, en_object_id entry] in
      ([new_graph_node ''RickydataWorkIntent'' node_id (Some (en_object_id entry))
          [(''objective'', JString (wi_objective (en_value entry))), (''object_id'', JString (en_object_id entry))]],
       [new_graph_edge E repo_node_id ''CONTAINS'' node_id]))"

definition attempt_graph :: "'s graph_env \<Rightarrow> str \<Rightarrow> agent_attempt ledger_entry \<Rightarrow> graph" where
  "attempt_graph E repo_node_id entry =
     (let a = en_value entry; node_id = graph_id E ''RickydataAttempt'' [repo_node_id, att_attempt_id a] in
      ([new_graph_node ''RickydataAttempt'' node_id (Some (en_object_id entry))
          [(''attempt_id'', JString (att_attempt_id a)), (''intent_id'', JString (att_intent_id a)),
           (''agent_id'', JString (att_agent_id a)), (''status'', attempt_status_json (att_status a))]],
       [new_graph_edge E repo_node_id ''CONTAINS'' node_id,
        new_graph_edge E node_id ''DERIVED_FROM_ISSUE'' (graph_id E ''RickydataWorkIntent'' [repo_node_id, att_intent_id a])]))"

definition run_graph :: "'s graph_env \<Rightarrow> str \<Rightarrow> agent_run ledger_entry \<Rightarrow> graph" where
  "run_graph E repo_node_id entry =
     (let r = en_value entry; node_id = graph_id E ''RickydataRun'' [repo_node_id, run_run_id r] in
      ([new_graph_node ''RickydataRun'' node_id (Some (en_object_id entry))
          [(''run_id'', JString (run_run_id r)), (''attempt_id'', JString (run_attempt_id r)),
           (''result'', jopt agent_run_result_json (run_result r))]],
       [new_graph_edge E (graph_id E ''RickydataAttempt'' [repo_node_id, run_attempt_id r]) ''HAS_RUN'' node_id]))"

definition touched_file :: "'s graph_env \<Rightarrow> str \<Rightarrow> str \<Rightarrow> str \<Rightarrow> str \<Rightarrow> str \<Rightarrow> graph" where
  "touched_file E repo_node_id commit origin node_id file =
     (let file_id = graph_id E ''File'' [repo_node_id, commit, file, origin] in
      ([new_graph_node ''File'' file_id None [(''path'', JString file)]], [new_graph_edge E node_id ''TOUCHES'' file_id]))"

definition change_graph :: "'s graph_env \<Rightarrow> str \<Rightarrow> str \<Rightarrow> change_evidence ledger_entry \<Rightarrow> graph" where
  "change_graph E repo_node_id commit entry =
     (let c = en_value entry; node_id = graph_id E ''RickydataProof'' [repo_node_id, chg_change_id c] in
      both ([new_graph_node ''RickydataProof'' node_id (Some (en_object_id entry))
          [(''change_id'', JString (chg_change_id c)), (''attempt_id'', JString (chg_attempt_id c)),
           (''diff_hash'', JString (chg_diff_hash c))]],
       [new_graph_edge E (graph_id E ''RickydataAttempt'' [repo_node_id, chg_attempt_id c]) ''PROVES'' node_id])
      (all_of (map (touched_file E repo_node_id commit (chg_diff_hash c) node_id) (chg_file_paths c))))"

definition patch_graph :: "'s graph_env \<Rightarrow> str \<Rightarrow> str \<Rightarrow> prepared_patch ledger_entry \<Rightarrow> graph" where
  "patch_graph E repo_node_id commit entry =
     (let p = en_value entry; node_id = graph_id E ''RickydataPatch'' [repo_node_id, pp_patch_id p] in
      both ([new_graph_node ''RickydataPatch'' node_id (Some (en_object_id entry))
          [(''patch_id'', JString (pp_patch_id p)), (''attempt_id'', JString (pp_attempt_id p))]],
       [new_graph_edge E (graph_id E ''RickydataAttempt'' [repo_node_id, pp_attempt_id p]) ''PRODUCED_BY'' node_id])
      (all_of (map (touched_file E repo_node_id commit ''patch'' node_id) (pp_file_paths p))))"

definition repository_graph :: "'s graph_env \<Rightarrow> str \<Rightarrow> str \<Rightarrow> str \<Rightarrow> str option \<Rightarrow> graph" where
  "repository_graph E repo repo_id repo_node_id commit =
     both ([new_graph_node ''Repository'' repo_node_id None [(''repo'', JString repo), (''repo_id'', JString repo_id),
        (''head_commit'', jopt JString commit)]], [])
     (case commit of None \<Rightarrow> ([], [])
      | Some head \<Rightarrow> (let commit_id = graph_id E ''Commit'' [repo_node_id, head] in
          ([new_graph_node ''Commit'' commit_id None [(''commit_sha'', JString head)]],
           [new_graph_edge E repo_node_id ''HAS_COMMIT'' commit_id])))"

section \<open>The scan\<close>

definition canonical_repo_id :: "'s graph_env \<Rightarrow> 's \<Rightarrow> str \<Rightarrow> str" where
  "canonical_repo_id E s repo = ge_lowercase E (trim_end_char CHR ''/''
     (case ge_canonicalize E s repo of Some p \<Rightarrow> p | None \<Rightarrow> repo))"

text \<open>Keep the first of every id, then sort by id.\<close>

fun keep_first :: "('a \<Rightarrow> str) \<Rightarrow> str list \<Rightarrow> 'a list \<Rightarrow> 'a list" where
  "keep_first f seen [] = []"
| "keep_first f seen (x # xs) =
     (if f x \<in> set seen then keep_first f seen xs else x # keep_first f (f x # seen) xs)"

definition dedupe_graph :: "graph \<Rightarrow> graph" where
  "dedupe_graph g = (sort_key gn_id (keep_first gn_id [] (fst g)), sort_key gd_id (keep_first gd_id [] (snd g)))"

record graph_scan_report =
  gr_repo :: str
  gr_repo_id :: str
  gr_commit :: "str option"
  gr_include_code_structure :: bool
  gr_node_count :: nat
  gr_edge_count :: nat
  gr_graph_hash :: str
  gr_nodes :: "graph_node list"
  gr_edges :: "graph_edge list"

definition graph_json :: "graph \<Rightarrow> json" where
  "graph_json g = json_obj [(''nodes'', JArray (map graph_node_json (fst g))), (''edges'', JArray (map graph_edge_json (snd g)))]"

definition scanned_graph :: "'s graph_env \<Rightarrow> str \<Rightarrow> str \<Rightarrow> str \<Rightarrow> str option \<Rightarrow> graph \<Rightarrow> work_intent ledger_entry list \<Rightarrow>
    agent_attempt ledger_entry list \<Rightarrow> agent_run ledger_entry list \<Rightarrow> change_evidence ledger_entry list \<Rightarrow>
    prepared_patch ledger_entry list \<Rightarrow> graph" where
  "scanned_graph E repo repo_id repo_node_id commit code intents attempts runs changes patches =
     (let commit_name = (case commit of Some c \<Rightarrow> c | None \<Rightarrow> ''unknown'') in
      all_of ([repository_graph E repo repo_id repo_node_id commit, code] @
        map (intent_graph E repo_node_id) intents @ map (attempt_graph E repo_node_id) attempts @
        map (run_graph E repo_node_id) runs @ map (change_graph E repo_node_id commit_name) changes @
        map (patch_graph E repo_node_id commit_name) patches))"

definition scan_report :: "lib \<Rightarrow> str \<Rightarrow> str \<Rightarrow> str option \<Rightarrow> bool \<Rightarrow> graph \<Rightarrow> cli_error + graph_scan_report" where
  "scan_report L repo repo_id commit include_code_structure g =
     r_map (\<lambda>graph_hash. \<lparr>gr_repo = repo, gr_repo_id = repo_id, gr_commit = commit,
         gr_include_code_structure = include_code_structure, gr_node_count = length (fst g),
         gr_edge_count = length (snd g), gr_graph_hash = graph_hash, gr_nodes = fst g, gr_edges = snd g\<rparr>)
       (core_bail (stable_json_hash L (graph_json g)))"

definition build_graph_scan ::
    "'s api \<Rightarrow> lib \<Rightarrow> 's graph_env \<Rightarrow> str \<Rightarrow> str option \<Rightarrow> bool \<Rightarrow> ('s, cli_error, graph_scan_report) eff" where
  "build_graph_scan A L E repo commit include_code_structure =
     e_bind (gitm L (a_inspect A repo)) (\<lambda>inspection.
     e_bind (e_gets (\<lambda>s. Inr (canonical_repo_id E s repo))) (\<lambda>repo_id.
     (let commit = (case commit of Some c \<Rightarrow> Some c | None \<Rightarrow> ri_head_commit inspection);
          commit_name = (case commit of Some c \<Rightarrow> c | None \<Rightarrow> ''unknown'');
          repo_node_id = graph_id E ''Repository'' [repo_id] in
      e_bind (if include_code_structure then append_code_structure_graph A L E repo repo_node_id commit_name
              else e_ret ([], [])) (\<lambda>code.
      e_bind (read_entries A L repo ''agent.intent'' work_intent_of_json) (\<lambda>intents.
      e_bind (list_attempts A L repo) (\<lambda>attempts.
      e_bind (list_runs A L repo) (\<lambda>runs.
      e_bind (list_changes A L repo) (\<lambda>changes.
      e_bind (list_patches A L repo) (\<lambda>patches.
        e_lift (scan_report L repo repo_id commit include_code_structure
          (dedupe_graph (scanned_graph E repo repo_id repo_node_id commit code intents attempts runs changes patches))))))))))))"

section \<open>The ends of edges\<close>

text \<open>Every edge starts at a node of the graph or of \<open>S\<close> and ends at a node of the graph or of \<open>T\<close>.\<close>

definition anchored :: "str set \<Rightarrow> str set \<Rightarrow> graph \<Rightarrow> bool" where
  "anchored S T g \<longleftrightarrow> (\<forall>e \<in> set (snd g). gd_from e \<in> S \<union> gn_id ` set (fst g) \<and> gd_to e \<in> T \<union> gn_id ` set (fst g))"

lemma graph_parts [simp]:
  "gn_id (new_graph_node l i o1 ps) = i" "gd_from (new_graph_edge E a t b) = a" "gd_to (new_graph_edge E a t b) = b"
  "gd_edge_type (new_graph_edge E a t b) = t"
  by (simp_all add: new_graph_node_def new_graph_edge_def)

lemma anchored_both: "anchored S T g \<Longrightarrow> anchored S T h \<Longrightarrow> anchored S T (both g h)"
  unfolding anchored_def both_def by fastforce

lemma anchored_absorb:
  assumes "anchored S T g" "anchored (insert x S) T h" "x \<in> gn_id ` set (fst g)"
  shows "anchored S T (both g h)"
  using assms unfolding anchored_def both_def by fastforce

lemma anchored_all: "(\<And>g. g \<in> set gs \<Longrightarrow> anchored S T g) \<Longrightarrow> anchored S T (all_of gs)"
  by (induction gs) (auto simp: all_of_def anchored_both, simp add: anchored_def)

lemma anchored_mono: "anchored S T g \<Longrightarrow> S \<subseteq> S' \<Longrightarrow> T \<subseteq> T' \<Longrightarrow> anchored S' T' g"
  unfolding anchored_def by blast

lemma anchored_empty [simp]: "anchored S T ([], [])"
  by (simp add: anchored_def)

lemma anchored_symbols: "anchored {file_id} {} (symbol_loop E p r file_id n t ls)"
proof (induction ls arbitrary: n t)
  case (Cons l ls)
  have "anchored {file_id} {} (function_graph E p r file_id t name n)" for name
    by (simp add: function_graph_def Let_def anchored_def)
  moreover have "anchored {file_id} {} (type_graph E p r file_id kind name n)" for kind name
    by (simp add: type_graph_def Let_def anchored_def)
  ultimately show ?case
    using Cons.IH by (auto simp: Let_def intro!: anchored_both split: option.split)
qed simp

lemma anchored_source_file:
  assumes "source_file_graph A L E repo_path r commit cs s = (Inr g, s')"
  shows "anchored {r} {} g"
proof -
  from assms obtain p content h where g: "g = both ([new_graph_node ''File'' (graph_id E ''File'' [r, commit, p, h]) None
      [(''path'', JString p), (''language'', JString ''rust''), (''content_hash'', JString h)]],
      [new_graph_edge E r ''CONTAINS'' (graph_id E ''File'' [r, commit, p, h])])
      (append_rust_symbols E content p r (graph_id E ''File'' [r, commit, p, h]))"
    unfolding source_file_graph_def Let_def by (elim e_bind_Inr) (auto simp: e_ret_def)
  show ?thesis unfolding g append_rust_symbols_def
    by (rule anchored_absorb [where x = "graph_id E ''File'' [r, commit, p, h]"])
       (auto simp: anchored_def [of _ _ "(_, _)"] intro: anchored_mono [OF anchored_symbols])
qed

lemma e_map_all:
  assumes "e_map f xs s = (Inr ys, s')" "\<And>x y s s'. x \<in> set xs \<Longrightarrow> f x s = (Inr y, s') \<Longrightarrow> Q y" "y \<in> set ys"
  shows "Q y"
  using assms
proof (induction xs arbitrary: s ys)
  case (Cons x xs)
  from Cons.prems(1) obtain z s1 zs s2 where "f x s = (Inr z, s1)" "e_map f xs s1 = (Inr zs, s2)" "ys = z # zs" "s' = s2"
    by (auto elim!: e_bind_Inr)
  with Cons.IH [of s1 zs] Cons.prems(2,3) show ?case by auto
qed simp

lemma anchored_code:
  assumes "append_code_structure_graph A L E repo_path r commit s = (Inr g, s')"
  shows "anchored {r} {} g"
proof -
  from assms obtain files gs s1 where m: "e_map (source_file_graph A L E repo_path r commit) files s1 = (Inr gs, s')"
    and g: "g = all_of gs"
    unfolding append_code_structure_graph_def by (elim e_bind_Inr) (auto simp: e_ret_def)
  show ?thesis unfolding g by (rule anchored_all) (rule e_map_all [OF m anchored_source_file])
qed

lemma anchored_touched: "anchored {n} {} (all_of (map (touched_file E r c origin n) fs))"
  by (rule anchored_all) (auto simp: touched_file_def Let_def anchored_def)

abbreviation attempt_node :: "'s graph_env \<Rightarrow> str \<Rightarrow> str \<Rightarrow> str" where
  "attempt_node E r x \<equiv> graph_id E ''RickydataAttempt'' [r, x]"

abbreviation intent_node :: "'s graph_env \<Rightarrow> str \<Rightarrow> str \<Rightarrow> str" where
  "intent_node E r x \<equiv> graph_id E ''RickydataWorkIntent'' [r, x]"

lemma anchored_objects:
  "anchored {r} {} (intent_graph E r i)" "anchored {r} {intent_node E r (att_intent_id (en_value a))} (attempt_graph E r a)"
  "anchored {attempt_node E r (run_attempt_id (en_value u))} {} (run_graph E r u)"
  "anchored {attempt_node E r (chg_attempt_id (en_value ch))} {} (change_graph E r c ch)"
  "anchored {attempt_node E r (pp_attempt_id (en_value p))} {} (patch_graph E r c p)"
proof -
  show "anchored {r} {} (intent_graph E r i)" "anchored {r} {intent_node E r (att_intent_id (en_value a))} (attempt_graph E r a)"
    "anchored {attempt_node E r (run_attempt_id (en_value u))} {} (run_graph E r u)"
    by (simp_all add: intent_graph_def attempt_graph_def run_graph_def Let_def anchored_def)
  show "anchored {attempt_node E r (chg_attempt_id (en_value ch))} {} (change_graph E r c ch)"
    unfolding change_graph_def Let_def
    by (rule anchored_absorb [where x = "graph_id E ''RickydataProof'' [r, chg_change_id (en_value ch)]"])
       (auto simp: anchored_def [of _ _ "(_, _)"] intro: anchored_mono [OF anchored_touched])
  show "anchored {attempt_node E r (pp_attempt_id (en_value p))} {} (patch_graph E r c p)"
    unfolding patch_graph_def Let_def
    by (rule anchored_absorb [where x = "graph_id E ''RickydataPatch'' [r, pp_patch_id (en_value p)]"])
       (auto simp: anchored_def [of _ _ "(_, _)"] intro: anchored_mono [OF anchored_touched])
qed

lemma anchored_repository: "anchored {r} {} (repository_graph E repo repo_id r commit)"
  by (auto simp: repository_graph_def both_def anchored_def Let_def split: option.split)

section \<open>Removing duplicates\<close>

lemma keep_first_set: "f ` set (keep_first f seen xs) = f ` set xs - set seen"
  by (induction xs arbitrary: seen) auto

lemma keep_first_sub: "set (keep_first f seen xs) \<subseteq> set xs"
  by (induction xs arbitrary: seen) auto

lemma keep_first_distinct: "distinct (map f (keep_first f seen xs))"
proof (induction xs arbitrary: seen)
  case (Cons x xs)
  have "f x \<notin> f ` set (keep_first f (f x # seen) xs)" by (simp add: keep_first_set)
  with Cons.IH show ?case by simp
qed simp

lemma sorted_by_id: "sorted_wrt (<) (map f (sort_key f (keep_first f [] xs)))"
proof -
  have "distinct (map f (sort_key f (keep_first f [] xs)))"
    using keep_first_distinct [of f "[]" xs] by (simp add: distinct_map)
  then show ?thesis by (simp add: strict_sorted_iff)
qed

lemma dedupe_facts:
  "sorted_wrt (<) (map gn_id (fst (dedupe_graph g)))" "sorted_wrt (<) (map gd_id (snd (dedupe_graph g)))"
  "gn_id ` set (fst (dedupe_graph g)) = gn_id ` set (fst g)" "set (snd (dedupe_graph g)) \<subseteq> set (snd g)"
  using keep_first_set [of gn_id "[]" "fst g"] keep_first_sub [of gd_id "[]" "snd g"]
  by (simp_all add: dedupe_graph_def sorted_by_id)

lemma dedupe_edges: "gd_id ` set (snd (dedupe_graph g)) = gd_id ` set (snd g)"
  using keep_first_set [of gd_id "[]" "snd g"] by (simp add: dedupe_graph_def)

lemma anchored_dedupe: "anchored S T g \<Longrightarrow> anchored S T (dedupe_graph g)"
  using dedupe_facts(3,4) [of g] unfolding anchored_def by blast

lemma in_all_of: "g \<in> set gs \<Longrightarrow> set (fst g) \<subseteq> set (fst (all_of gs))"
  by (induction gs) (auto simp: all_of_def both_def)

lemma in_all_of_edges: "g \<in> set gs \<Longrightarrow> set (snd g) \<subseteq> set (snd (all_of gs))"
  by (induction gs) (auto simp: all_of_def both_def)

section \<open>A scan in parts\<close>

text \<open>The runs a scan consists of.\<close>

definition scan_code :: "'s api \<Rightarrow> lib \<Rightarrow> 's graph_env \<Rightarrow> str \<Rightarrow> str option \<Rightarrow> str \<Rightarrow> bool \<Rightarrow> ('s, cli_error, graph) eff" where
  "scan_code A L E repo commit repo_id code =
     (if code then append_code_structure_graph A L E repo (graph_id E ''Repository'' [repo_id])
        (case commit of Some c \<Rightarrow> c | None \<Rightarrow> ''unknown'') else e_ret ([], []))"

definition scan_objects :: "'s api \<Rightarrow> lib \<Rightarrow> 's graph_env \<Rightarrow> str \<Rightarrow> str option \<Rightarrow> str \<Rightarrow> bool \<Rightarrow> graph \<Rightarrow> ('s, cli_error, graph_scan_report) eff" where
  "scan_objects A L E repo commit repo_id code cg =
     e_bind (read_entries A L repo ''agent.intent'' work_intent_of_json) (\<lambda>intents.
     e_bind (list_attempts A L repo) (\<lambda>attempts.
     e_bind (list_runs A L repo) (\<lambda>runs.
     e_bind (list_changes A L repo) (\<lambda>changes.
     e_bind (list_patches A L repo) (\<lambda>patches.
       e_lift (scan_report L repo repo_id commit code
         (dedupe_graph (scanned_graph E repo repo_id (graph_id E ''Repository'' [repo_id]) commit cg intents attempts runs changes patches))))))))"

lemma scan_parts:
  "build_graph_scan A L E repo commit code =
     e_bind (gitm L (a_inspect A repo)) (\<lambda>insp.
     e_bind (e_gets (\<lambda>s. Inr (canonical_repo_id E s repo))) (\<lambda>repo_id.
     (let c = (case commit of Some c \<Rightarrow> Some c | None \<Rightarrow> ri_head_commit insp) in
      e_bind (scan_code A L E repo c repo_id code) (scan_objects A L E repo c repo_id code))))"
  by (simp add: build_graph_scan_def scan_code_def scan_objects_def [abs_def] Let_def)

lemma scan_run:
  assumes "build_graph_scan A L E repo commit code s = (Inr rep, s')"
  obtains insp s1 c cg s2 where "a_inspect A repo s = (Inr insp, s1)"
    "c = (case commit of Some c \<Rightarrow> Some c | None \<Rightarrow> ri_head_commit insp)"
    "scan_code A L E repo c (canonical_repo_id E s1 repo) code s1 = (Inr cg, s2)"
    "scan_objects A L E repo c (canonical_repo_id E s1 repo) code cg s2 = (Inr rep, s')"
  using assms unfolding scan_parts Let_def by (elim e_bind_Inr) (auto simp: e_gets_def)

lemma objects_run:
  assumes "scan_objects A L E repo c rid code cg s = (Inr rep, s')"
  obtains intents s1 attempts s2 runs s3 changes s4 patches where
    "read_entries A L repo ''agent.intent'' work_intent_of_json s = (Inr intents, s1)"
    "list_attempts A L repo s1 = (Inr attempts, s2)" "list_runs A L repo s2 = (Inr runs, s3)"
    "list_changes A L repo s3 = (Inr changes, s4)" "list_patches A L repo s4 = (Inr patches, s')"
    "scan_report L repo rid c code (dedupe_graph (scanned_graph E repo rid (graph_id E ''Repository'' [rid]) c cg
       intents attempts runs changes patches)) = Inr rep"
  using assms unfolding scan_objects_def by (elim e_bind_Inr) (auto simp: e_lift_def intro: that)

lemma scan_report_fields:
  assumes "scan_report L repo rid c code g = Inr rep"
  shows "gr_nodes rep = fst g" "gr_edges rep = snd g" "gr_node_count rep = length (fst g)" "gr_edge_count rep = length (snd g)"
    "stable_json_hash L (graph_json g) = Inr (gr_graph_hash rep)" "gr_repo_id rep = rid" "gr_commit rep = c" "gr_repo rep = repo"
  using assms by (auto simp: scan_report_def r_map_Inr_iff)

lemma scan_code_anchored:
  assumes "scan_code A L E repo c rid code s = (Inr cg, s')"
  shows "anchored {graph_id E ''Repository'' [rid]} {} cg"
proof (cases code)
  case True
  then show ?thesis using anchored_code assms by (simp add: scan_code_def)
next
  case False
  with assms have "cg = ([], [])" by (simp add: scan_code_def e_ret_def)
  then show ?thesis by (simp only: anchored_empty)
qed

lemma scanned_has_parts:
  "g \<in> set ([repository_graph E repo rid r c, cg] @ map (intent_graph E r) intents @ map (attempt_graph E r) attempts @
     map (run_graph E r) runs @ map (change_graph E r (case c of Some c \<Rightarrow> c | None \<Rightarrow> ''unknown'')) changes @
     map (patch_graph E r (case c of Some c \<Rightarrow> c | None \<Rightarrow> ''unknown'')) patches) \<Longrightarrow>
   set (fst g) \<subseteq> set (fst (scanned_graph E repo rid r c cg intents attempts runs changes patches)) \<and>
   set (snd g) \<subseteq> set (snd (scanned_graph E repo rid r c cg intents attempts runs changes patches))"
  unfolding scanned_graph_def Let_def by (rule conjI [OF in_all_of in_all_of_edges])

text \<open>The attempts that runs, changes and patches name, and the intents that attempts name.\<close>

definition named_attempts :: "agent_run ledger_entry list \<Rightarrow> change_evidence ledger_entry list \<Rightarrow> prepared_patch ledger_entry list \<Rightarrow> str set" where
  "named_attempts runs changes patches = (\<lambda>e. run_attempt_id (en_value e)) ` set runs \<union>
     (\<lambda>e. chg_attempt_id (en_value e)) ` set changes \<union> (\<lambda>e. pp_attempt_id (en_value e)) ` set patches"

lemma scanned_anchored:
  assumes "anchored {r} {} cg"
  shows "anchored (attempt_node E r ` named_attempts runs changes patches) ((\<lambda>a. intent_node E r (att_intent_id (en_value a))) ` set attempts)
    (scanned_graph E repo rid r c cg intents attempts runs changes patches)" (is "anchored ?S ?T ?g")
proof -
  have part: "anchored (insert r ?S) ?T g" if "anchored S T g" "S \<subseteq> insert r ?S" "T \<subseteq> ?T" for g S T
    by (rule anchored_mono [OF that])
  have "anchored (insert r ?S) ?T ?g"
    unfolding scanned_graph_def Let_def
  proof (rule anchored_all, unfold set_append set_map list.set, elim UnE imageE insertE emptyE)
    show "g = repository_graph E repo rid r c \<Longrightarrow> anchored (insert r ?S) ?T g" for g
      by (simp only:, rule part [OF anchored_repository]) auto
    show "g = cg \<Longrightarrow> anchored (insert r ?S) ?T g" for g by (simp only:, rule part [OF assms]) auto
    show "g = intent_graph E r x \<Longrightarrow> anchored (insert r ?S) ?T g" for g x
      by (simp only:, rule part [OF anchored_objects(1)]) auto
    show "g = attempt_graph E r x \<Longrightarrow> x \<in> set attempts \<Longrightarrow> anchored (insert r ?S) ?T g" for g x
      by (simp only:, rule part [OF anchored_objects(2)]) auto
    show "g = run_graph E r x \<Longrightarrow> x \<in> set runs \<Longrightarrow> anchored (insert r ?S) ?T g" for g x
      by (simp only:, rule part [OF anchored_objects(3)]) (auto simp: named_attempts_def)
    show "g = change_graph E r d x \<Longrightarrow> x \<in> set changes \<Longrightarrow> anchored (insert r ?S) ?T g" for g x d
      by (simp only:, rule part [OF anchored_objects(4)]) (auto simp: named_attempts_def)
    show "g = patch_graph E r d x \<Longrightarrow> x \<in> set patches \<Longrightarrow> anchored (insert r ?S) ?T g" for g x d
      by (simp only:, rule part [OF anchored_objects(5)]) (auto simp: named_attempts_def)
  qed
  moreover have "r \<in> gn_id ` set (fst (repository_graph E repo rid r c))" by (simp add: repository_graph_def both_def)
  then have "r \<in> gn_id ` set (fst ?g)" using scanned_has_parts [of "repository_graph E repo rid r c" E repo rid r c cg intents attempts runs changes patches] by auto
  ultimately show ?thesis unfolding anchored_def by blast
qed

end
