(* ===== verification/Cli_Reports.thy ===== *)
theory Cli_Reports
  imports Cli_Graph Cli_Relay
begin

text \<open>
  The reports of \<^verbatim>\<open>crates/rickydata-git-cli/src/main.rs\<close> over the graph and over the places the ledger is
  kept: impact of a change, context for a query, projection of the graph to KFDB, and the proof that the
  copies agree.  The request of a projection carries headers, so it goes through the \<^verbatim>\<open>http_call\<close> of the
  relay crate's client.  The client of the TEE signer is a parameter (a public build has none).
\<close>

section \<open>KFDB operations of the graph\<close>

definition classify_graph_risk :: "str list \<Rightarrow> str" where
  "classify_graph_risk files =
     (if list_ex (\<lambda>f. contains_text ''Cargo.toml'' f \<or> contains_text ''package.json'' f \<or>
           contains_text ''deploy'' f \<or> contains_text ''infra'' f) files then ''high''
      else if length files > 10 then ''medium'' else ''low'')"

definition ends_with :: "str \<Rightarrow> str \<Rightarrow> bool" where
  "ends_with s tail \<longleftrightarrow> strip_suffix tail s \<noteq> None"

text \<open>The suggestions are a \<^verbatim>\<open>BTreeSet\<close>: \<^verbatim>\<open>cargo test\<close> comes before \<^verbatim>\<open>npm test\<close>.\<close>

definition suggest_tests_for_files :: "str list \<Rightarrow> str list" where
  "suggest_tests_for_files files =
     (let suggestions = (if list_ex (\<lambda>f. ends_with f ''.rs'' \<or> contains_text ''Cargo.toml'' f) files then [''cargo test''] else []) @
          (if list_ex (\<lambda>f. ends_with f ''.ts'' \<or> ends_with f ''.tsx'' \<or> contains_text ''package.json'' f) files
           then [''npm test''] else [])
      in if suggestions = [] then [''run the repo's standard CI test suite''] else suggestions)"

definition private_projection_label :: "str \<Rightarrow> str" where
  "private_projection_label label = ''rickydata'' @ (case strip_prefix ''Rickydata'' label of Some u \<Rightarrow> u
     | None \<Rightarrow> (case strip_prefix ''rickydata'' label of Some u \<Rightarrow> u | None \<Rightarrow> label))"

definition private_projection_edge_type :: "str \<Rightarrow> str" where
  "private_projection_edge_type edge_type = ''rickydata_'' @ to_ascii_lowercase
     (case strip_prefix ''RICKYDATA_'' edge_type of Some u \<Rightarrow> u
      | None \<Rightarrow> (case strip_prefix ''rickydata_'' edge_type of Some u \<Rightarrow> u | None \<Rightarrow> edge_type))"

text \<open>A value with its type as the key; the entries of an object keep their order.\<close>

fun graph_property_value :: "json \<Rightarrow> json" where
  "graph_property_value JNull = JObject [(''Null'', JNull)]"
| "graph_property_value (JBool b) = JObject [(''Boolean'', JBool b)]"
| "graph_property_value (JNumber n) =
     (if as_i64 n \<noteq> None \<or> as_u64 n \<noteq> None then JObject [(''Integer'', JNumber n)] else JObject [(''Float'', JNumber n)])"
| "graph_property_value (JString s) = JObject [(''String'', JString s)]"
| "graph_property_value (JArray vs) = JObject [(''Array'', JArray (map graph_property_value vs))]"
| "graph_property_value (JObject kvs) = JObject [(''Object'', JObject (map (\<lambda>(k, v). (k, graph_property_value v)) kvs))]"

definition graph_properties :: "(str \<times> json) list \<Rightarrow> json" where
  "graph_properties ps = JObject (map (\<lambda>(k, v). (k, graph_property_value v)) ps)"

definition node_operation :: "graph_node \<Rightarrow> json" where
  "node_operation n = json_obj [(''operation'', jstr ''create_node''), (''id'', jstr (gn_id n)),
     (''label'', jstr (private_projection_label (gn_label n))), (''properties'', graph_properties (gn_properties n)),
     (''mode'', jstr ''merge'')]"

definition edge_operation :: "graph_edge \<Rightarrow> json" where
  "edge_operation e = json_obj [(''operation'', jstr ''create_edge''), (''id'', jstr (gd_id e)), (''from'', jstr (gd_from e)),
     (''to'', jstr (gd_to e)), (''edge_type'', jstr (private_projection_edge_type (gd_edge_type e))),
     (''properties'', graph_properties (gd_properties e))]"

definition graph_kfdb_operations :: "graph_scan_report \<Rightarrow> json list" where
  "graph_kfdb_operations g = map node_operation (gr_nodes g) @ map edge_operation (gr_edges g)"

definition graph_kfdb_payload :: "json list \<Rightarrow> str option \<Rightarrow> json" where
  "graph_kfdb_payload operations scope = json_obj ([(''operations'', JArray operations), (''skip_embedding'', JBool True)] @
     (case scope of None \<Rightarrow> [] | Some s \<Rightarrow> [(''scope'', jstr s)]))"

section \<open>The projection\<close>

record project_kfdb_args =
  pk_repo :: str
  pk_kfdb_url :: "str option"
  pk_api_key_env :: str
  pk_scope :: "str option"
  pk_allow_public_kfdb :: bool
  pk_derive_session_id_env :: str
  pk_derive_key_env :: str
  pk_wallet_address_env :: str
  pk_batch_size :: nat
  pk_dry_run :: bool
  pk_include_code_structure :: bool

record project_private_auth =
  pv_derive_session_id :: str
  pv_derive_key :: str
  pv_wallet_address :: "str option"

record project_kfdb_report =
  pj_nodes_written :: nat
  pj_edges_written :: nat
  pj_batch_size :: nat
  pj_batches_written :: nat
  pj_projection_id :: str
  pj_projection_hash :: str
  pj_response_status :: "nat option"
  pj_kfdb_url :: "str option"

definition required_env :: "(str \<Rightarrow> str option) \<Rightarrow> str \<Rightarrow> cli_error + str" where
  "required_env env name = ok_or (Bail (''live KFDB projection is private by default; set '' @ name @
     '' or pass --allow-public-kfdb for intentionally public/demo data'')) (env name)"

definition project_kfdb_private_auth :: "(str \<Rightarrow> str option) \<Rightarrow> project_kfdb_args \<Rightarrow> cli_error + project_private_auth" where
  "project_kfdb_private_auth env args =
     r_bind (required_env env (pk_derive_session_id_env args)) (\<lambda>session.
     r_bind (required_env env (pk_derive_key_env args)) (\<lambda>key.
       Inr \<lparr>pv_derive_session_id = session, pv_derive_key = key, pv_wallet_address = env (pk_wallet_address_env args)\<rparr>))"

definition private_headers :: "project_private_auth option \<Rightarrow> (str \<times> str) list" where
  "private_headers auth = (case auth of None \<Rightarrow> []
     | Some a \<Rightarrow> [(''x-derive-session-id'', pv_derive_session_id a), (''x-derive-key'', pv_derive_key a)] @
         (case pv_wallet_address a of None \<Rightarrow> [] | Some w \<Rightarrow> [(''x-wallet-address'', w)]))"

text \<open>One batch after the other; the first that is rejected ends the projection.\<close>

fun write_batches ::
    "lib \<Rightarrow> (http_call \<Rightarrow> ('s, str, http_reply) eff) \<Rightarrow> (nat \<Rightarrow> str) \<Rightarrow> str \<Rightarrow> str option \<Rightarrow> project_private_auth option \<Rightarrow>
     str option \<Rightarrow> nat option \<times> nat \<Rightarrow> json list list \<Rightarrow> ('s, cli_error, nat option \<times> nat) eff" where
  "write_batches L send status_text write_url bearer auth scope acc [] = e_ret acc"
| "write_batches L send status_text write_url bearer auth scope acc (chunk # chunks) =
     e_bind (ctx ''failed to write graph projection to KFDB'' (e_bind (e_lift (to_vec L (graph_kfdb_payload chunk scope))) (\<lambda>body.
        send \<lparr>gq_method = Post, gq_url = write_url, gq_query = [], gq_headers = private_headers auth,
              gq_bearer = bearer, gq_body = body\<rparr>))) (\<lambda>r.
     if is_success r
     then write_batches L send status_text write_url bearer auth scope (Some (gr_status r), snd acc + 1) chunks
     else e_fail (Bail (''KFDB rejected graph projection with '' @ status_text (gr_status r) @ '': '' @
            (case gr_body r of Inl _ \<Rightarrow> [] | Inr b \<Rightarrow> from_utf8_lossy b))))"

definition url_of_args :: "(str \<Rightarrow> str option) \<Rightarrow> project_kfdb_args \<Rightarrow> str option" where
  "url_of_args env args = (case pk_kfdb_url args of Some u \<Rightarrow> Some u | None \<Rightarrow> env ''RICKYDATA_GIT_KFDB_URL'')"

definition project_live ::
    "'s api \<Rightarrow> lib \<Rightarrow> (http_call \<Rightarrow> ('s, str, http_reply) eff) \<Rightarrow> (nat \<Rightarrow> str) \<Rightarrow> project_kfdb_args \<Rightarrow> json list \<Rightarrow>
     ('s, cli_error, nat option \<times> nat) eff" where
  "project_live A L send status_text args operations s =
     (let env = a_env A s in
      e_bind (e_lift (if pk_allow_public_kfdb args then Inr None else r_map Some (project_kfdb_private_auth env args))) (\<lambda>auth.
      e_bind (some_or ''--kfdb-url or RICKYDATA_GIT_KFDB_URL is required unless --dry-run is set'' (url_of_args env args)) (\<lambda>url.
        write_batches L send status_text (trim_end_char CHR ''/'' url @ ''/api/v1/write'') (env (pk_api_key_env args)) auth
          (pk_scope args) (None, 0) (chunks_of (max 1 (pk_batch_size args)) operations))) s)"

definition run_project_kfdb ::
    "'s api \<Rightarrow> lib \<Rightarrow> 's graph_env \<Rightarrow> (http_call \<Rightarrow> ('s, str, http_reply) eff) \<Rightarrow> (nat \<Rightarrow> str) \<Rightarrow> project_kfdb_args \<Rightarrow>
     ('s, cli_error, project_kfdb_report) eff" where
  "run_project_kfdb A L E send status_text args =
     e_bind (build_graph_scan A L E (pk_repo args) None (pk_include_code_structure args)) (\<lambda>graph.
     e_bind (if pk_dry_run args then e_ret (None, 0)
             else project_live A L send status_text args (graph_kfdb_operations graph)) (\<lambda>(response_status, batches_written).
     e_bind (e_gets (\<lambda>s. Inr (url_of_args (a_env A s) args))) (\<lambda>kfdb_url.
       e_ret \<lparr>pj_nodes_written = length (gr_nodes graph), pj_edges_written = length (gr_edges graph),
              pj_batch_size = max 1 (pk_batch_size args), pj_batches_written = batches_written,
              pj_projection_id = graph_id E ''kfdbProjection'' [gr_repo_id graph, gr_graph_hash graph],
              pj_projection_hash = gr_graph_hash graph, pj_response_status = response_status, pj_kfdb_url = kfdb_url\<rparr>)))"

section \<open>Impact\<close>

record impact_args =
  ia_repo :: str
  ia_attempt_id :: "str option"
  ia_changed_file :: "str list"
  ia_base :: "str option"
  ia_head :: "str option"

record impact_report =
  im_changed_files :: "str list"
  im_affected_entities :: "json list"
  im_suggested_tests :: "str list"
  im_risk_class :: str
  im_summary :: str

definition files_of_attempt :: "'s api \<Rightarrow> lib \<Rightarrow> str \<Rightarrow> str list \<Rightarrow> str \<Rightarrow> ('s, cli_error, str list) eff" where
  "files_of_attempt A L repo given attempt_id =
     e_bind (list_changes A L repo) (\<lambda>changes.
     e_bind (list_patches A L repo) (\<lambda>patches.
     (let files = given @ concat (map chg_file_paths (filter (\<lambda>c. chg_attempt_id c = attempt_id) (map en_value changes))) @
            concat (map pp_file_paths (filter (\<lambda>p. pp_attempt_id p = attempt_id) (map en_value patches))) in
      if files \<noteq> [] then e_ret files
      else e_bind (noting (find_attempt A L repo attempt_id)) (\<lambda>found. case found of
          Inl _ \<Rightarrow> e_ret []
        | Inr attempt \<Rightarrow> e_bind (attempt_worktree_path A L repo (att_attempt_id attempt)) (\<lambda>worktree s.
            if a_is_dir A s worktree then e_bind (detect_attempt_diff A L repo attempt) (\<lambda>d. e_ret (dd_file_paths d)) s
            else e_ret [] s)))))"

definition files_of_diff :: "'s api \<Rightarrow> str \<Rightarrow> str \<Rightarrow> str \<Rightarrow> ('s, cli_error, str list) eff" where
  "files_of_diff A repo base_commit head_commit =
     e_bind (ctx ''failed to run git diff for impact analysis''
              (a_spawn A (git_in repo [''diff'', ''--name-only'', base_commit, head_commit]))) (\<lambda>out.
       e_ret (if po_success out
         then map trim (filter (\<lambda>l. \<not> blank l) (lines_of (from_utf8_lossy (po_stdout out)))) else []))"

definition node_path :: "graph_node \<Rightarrow> str option" where
  "node_path n = Option.bind (map_of (gn_properties n) ''path'') as_str"

text \<open>The nodes of the changed files, then up to fifty entries with the edges that touch a file.\<close>

fun touching_edges :: "json list \<Rightarrow> graph_edge list \<Rightarrow> json list" where
  "touching_edges entities [] = entities"
| "touching_edges entities (e # es) =
     touching_edges (if gd_edge_type e = ''TOUCHES'' \<and> length entities < 50
       then entities @ [JObject [(''edge'', graph_edge_json e)]] else entities) es"

definition affected_entities :: "graph_scan_report \<Rightarrow> str list \<Rightarrow> json list" where
  "affected_entities graph changed_files = touching_edges
     (map graph_node_json (filter (\<lambda>n. case node_path n of None \<Rightarrow> False | Some p \<Rightarrow> p \<in> set changed_files) (gr_nodes graph)))
     (gr_edges graph)"

definition run_impact :: "'s api \<Rightarrow> lib \<Rightarrow> 's graph_env \<Rightarrow> impact_args \<Rightarrow> ('s, cli_error, impact_report) eff" where
  "run_impact A L E args =
     e_bind (build_graph_scan A L E (ia_repo args) (ia_head args) False) (\<lambda>graph.
     e_bind (case ia_attempt_id args of None \<Rightarrow> e_ret (ia_changed_file args)
             | Some i \<Rightarrow> files_of_attempt A L (ia_repo args) (ia_changed_file args) i) (\<lambda>named.
     e_bind (case (named, ia_base args, ia_head args) of
               ([], Some b, Some h) \<Rightarrow> files_of_diff A (ia_repo args) b h | _ \<Rightarrow> e_ret named) (\<lambda>files.
     (let changed_files = sorted_dedup files; entities = affected_entities graph changed_files;
          risk_class = classify_graph_risk changed_files in
      e_ret \<lparr>im_changed_files = changed_files, im_affected_entities = entities,
             im_suggested_tests = suggest_tests_for_files changed_files, im_risk_class = risk_class,
             im_summary = show_nat (length changed_files) @ '' changed file(s), '' @ show_nat (length entities) @
               '' affected graph item(s), risk='' @ risk_class\<rparr>))))"

section \<open>Context\<close>

record context_args =
  ca_repo :: str
  ca_query :: "str option"
  ca_path :: "str option"
  ca_attempt_id :: "str option"
  ca_limit :: nat

record graph_context_report =
  gx_relevant_files :: "str list"
  gx_relevant_entities :: "json list"
  gx_related_work :: "json list"
  gx_recent_runs :: "json list"

definition run_entry_json :: "agent_run ledger_entry \<Rightarrow> json" where
  "run_entry_json e = json_obj [(''object_id'', jstr (en_object_id e)), (''ref_name'', jstr (en_ref_name e)),
     (''git_object_id'', jstr (en_git_object_id e)), (''run'', agent_run_json (en_value e))]"

text \<open>The text of a node is that of the structure: its fields in the order of their declaration.\<close>

definition graph_node_text :: "lib \<Rightarrow> graph_node \<Rightarrow> str" where
  "graph_node_text L n = json_text L (JObject [(''id'', jstr (gn_id n)), (''label'', jstr (gn_label n)),
     (''source_object_id'', jopt jstr (gn_source_object_id n)), (''properties'', JObject (gn_properties n))])"

definition matches_context :: "lib \<Rightarrow> 's graph_env \<Rightarrow> context_args \<Rightarrow> graph_node \<Rightarrow> bool" where
  "matches_context L E args n =
     (let serialized = ge_lowercase E (graph_node_text L n);
          query = ge_lowercase E (case ca_query args of Some q \<Rightarrow> q | None \<Rightarrow> []) in
      (query = [] \<or> contains_text query serialized) \<and>
      (case ca_path args of None \<Rightarrow> True | Some p \<Rightarrow> contains_text (ge_lowercase E p) serialized) \<and>
      (case ca_attempt_id args of None \<Rightarrow> True | Some i \<Rightarrow> contains_text i serialized))"

definition WORK_LABELS :: "str list" where
  "WORK_LABELS = [''RickydataWorkIntent'', ''RickydataAttempt'', ''RickydataPatch'', ''RickydataProof'']"

definition run_context :: "'s api \<Rightarrow> lib \<Rightarrow> 's graph_env \<Rightarrow> context_args \<Rightarrow> ('s, cli_error, graph_context_report) eff" where
  "run_context A L E args =
     e_bind (build_graph_scan A L E (ca_repo args) None False) (\<lambda>graph.
     (let matching = filter (matches_context L E args) (gr_nodes graph); files = List.map_filter node_path matching in
      e_bind (list_runs A L (ca_repo args)) (\<lambda>runs.
        e_ret \<lparr>gx_relevant_files = take (ca_limit args) (sorted_dedup files),
               gx_relevant_entities = map graph_node_json (take (ca_limit args) matching),
               gx_related_work = map graph_node_json (take (ca_limit args) (filter (\<lambda>n. gn_label n \<in> set WORK_LABELS) matching)),
               gx_recent_runs = map run_entry_json (take (ca_limit args) (rev runs))\<rparr>)))"

section \<open>The proof report\<close>

text \<open>\<^verbatim>\<open>value[key]\<close> and \<^verbatim>\<open>value[index]\<close>: null where there is nothing.\<close>

definition json_at :: "json \<Rightarrow> str \<Rightarrow> json" where
  "json_at v k = (case json_get v k of Some x \<Rightarrow> x | None \<Rightarrow> JNull)"

definition json_nth :: "json \<Rightarrow> nat \<Rightarrow> json" where
  "json_nth v i = (case as_array v of Some vs \<Rightarrow> if i < length vs then vs ! i else JNull | None \<Rightarrow> JNull)"

definition json_i64 :: "json \<Rightarrow> int option" where
  "json_i64 v = (case v of JNumber n \<Rightarrow> as_i64 n | _ \<Rightarrow> None)"

definition kfdb_query :: "'s api \<Rightarrow> lib \<Rightarrow> str \<Rightarrow> str option \<Rightarrow> str \<Rightarrow> ('s, cli_error, json) eff" where
  "kfdb_query A L base_url bearer_token query =
     e_bind (ctx ''failed to query KFDB'' (a_http A \<lparr>hq_method = ''POST'', hq_url = trim_end_char CHR ''/'' base_url @ ''/api/v1/query'',
               hq_bearer = bearer_token, hq_body = Some (JObject [(''query'', jstr query)])\<rparr>)) (\<lambda>resp.
     e_bind (ensure (\<not> (400 \<le> hr_status resp \<and> hr_status resp < 600)) ''KFDB rejected proof query'') (\<lambda>_.
       ctx ''failed to parse KFDB query response'' (e_lift (from_slice L (hr_body resp)))))"

definition kfdb_count :: "'s api \<Rightarrow> lib \<Rightarrow> str \<Rightarrow> str option \<Rightarrow> str \<Rightarrow> ('s, cli_error, int) eff" where
  "kfdb_count A L base_url bearer_token query =
     e_bind (kfdb_query A L base_url bearer_token query) (\<lambda>v.
     (let row = json_nth (json_at v ''data'') 0 in
      some_or ''KFDB count response did not include data[0].count.Integer''
        (case json_i64 (json_at (json_at row ''count'') ''Integer'') of Some n \<Rightarrow> Some n
         | None \<Rightarrow> json_i64 (json_at (json_at row ''total'') ''Integer''))))"

definition kfdb_string_values :: "'s api \<Rightarrow> lib \<Rightarrow> str \<Rightarrow> str option \<Rightarrow> str \<Rightarrow> str \<Rightarrow> ('s, cli_error, str list) eff" where
  "kfdb_string_values A L base_url bearer_token query field_name =
     e_bind (kfdb_query A L base_url bearer_token query) (\<lambda>v.
     e_bind (some_or ''KFDB value response did not include a data array'' (as_array (json_at v ''data''))) (\<lambda>rows.
       e_lift (r_collect (\<lambda>row. ok_or (Bail (''KFDB value response did not include '' @ field_name @ ''.String in every row''))
         (as_str (json_at (json_at row field_name) ''String''))) rows)))"

record kfdb_proof_report =
  kp_status :: str
  kp_url :: str
  kp_repo_id :: str
  kp_object_mirror_count :: int
  kp_prepared_patch_count :: int
  kp_expected_object_count :: nat
  kp_expected_patch_count :: nat

definition build_kfdb_proof ::
    "'s api \<Rightarrow> lib \<Rightarrow> str \<Rightarrow> str \<Rightarrow> str option \<Rightarrow> str option \<Rightarrow> nat \<Rightarrow> nat \<Rightarrow> ('s, cli_error, kfdb_proof_report) eff" where
  "build_kfdb_proof A L base_url repo_id bearer_token bearer_token_env expected_objects expected_patches =
     e_bind (\<lambda>s. (case (bearer_token, bearer_token_env) of
         (Some t, _) \<Rightarrow> e_ret (Some t)
       | (None, Some name) \<Rightarrow> e_bind (some_or (''failed to read KFDB bearer token env `'' @ name @ ''`'') (a_env A s name)) (\<lambda>t. e_ret (Some t))
       | (None, None) \<Rightarrow> e_ret None) s) (\<lambda>token.
     e_bind (kfdb_count A L base_url token
         (''MATCH (n:RickydataObjectMirror) WHERE n.repo_id = '' @ [CHR 0x27] @ repo_id @ [CHR 0x27] @ '' RETURN COUNT(n) AS total'')) (\<lambda>mirrors.
     e_bind (kfdb_string_values A L base_url token
         (''MATCH (n:RickydataPreparedPatch) WHERE n.repo_id = '' @ [CHR 0x27] @ repo_id @ [CHR 0x27] @ '' RETURN n.object_id AS object_id'')
         ''object_id'') (\<lambda>ids.
     (let patches = int (length (remdups ids)) in
       e_ret \<lparr>kp_status = (if mirrors = int expected_objects \<and> patches = int expected_patches then ''ok'' else ''out_of_sync''),
              kp_url = trim_end_char CHR ''/'' base_url, kp_repo_id = repo_id, kp_object_mirror_count = mirrors,
              kp_prepared_patch_count = patches, kp_expected_object_count = expected_objects,
              kp_expected_patch_count = expected_patches\<rparr>))))"

record proof_args =
  pa_repo :: str
  pa_remote :: "str option"
  pa_relay_url :: "str option"
  pa_repo_id :: "str option"
  pa_kfdb_url :: "str option"
  pa_kfdb_bearer_token :: "str option"
  pa_kfdb_bearer_token_env :: "str option"
  pa_tee_url :: "str option"

record proof_report =
  pf_status :: str
  pf_repo_id :: "str option"
  pf_local :: sync_verify_report
  pf_git_remote :: "sync_status_report option"
  pf_relay :: "relay_status_cli_report option"
  pf_kfdb :: "kfdb_proof_report option"
  pf_tee_reachable :: "bool option"
  pf_diagnostics :: "str list"

definition show_int :: "int \<Rightarrow> str" where
  "show_int i = (if i < 0 then ''-'' @ show_nat (nat (- i)) else show_nat (nat i))"

definition proof_diagnostics ::
    "sync_verify_report \<Rightarrow> sync_status_report option \<Rightarrow> relay_status_cli_report option \<Rightarrow> kfdb_proof_report option \<Rightarrow> str list" where
  "proof_diagnostics here git_remote relay kfdb =
     (if sv_status here \<noteq> ''ok'' then [''local sync verification failed''] else []) @
     (case git_remote of None \<Rightarrow> [] | Some sync \<Rightarrow>
        if ss_local_only_refs sync \<noteq> [] \<or> ss_remote_only_refs sync \<noteq> [] \<or> ss_divergent_refs sync \<noteq> []
        then [''Git remote refs/rickydata parity failed''] else []) @
     (case relay of None \<Rightarrow> [] | Some r \<Rightarrow> if rc_status r \<noteq> ''ok''
        then [''relay object count mismatch: local='' @ show_nat (rc_local_object_count r) @ '', relay='' @
              show_nat (unat (rc_relay_object_count r))] else []) @
     (case kfdb of None \<Rightarrow> [] | Some k \<Rightarrow> if kp_status k \<noteq> ''ok''
        then [''KFDB projection mismatch: mirror='' @ show_int (kp_object_mirror_count k) @ '' expected '' @
              show_nat (kp_expected_object_count k) @ '', patches='' @ show_int (kp_prepared_patch_count k) @ '' expected '' @
              show_nat (kp_expected_patch_count k)] else [])"

text \<open>The address of the TEE signer.\<close>

definition resolve_tee_url :: "'s api \<Rightarrow> 's \<Rightarrow> str option \<Rightarrow> str option" where
  "resolve_tee_url A s explicit = (case explicit of Some u \<Rightarrow> Some u | None \<Rightarrow> a_env A s ''RICKYGIT_TEE_URL'')"

definition run_proof ::
    "'s api \<Rightarrow> lib \<Rightarrow> (str \<Rightarrow> 's \<Rightarrow> bool \<times> 's) \<Rightarrow> proof_args \<Rightarrow> ('s, cli_error, proof_report) eff" where
  "run_proof A L tee_signer_reachable args =
     e_bind (if pa_relay_url args \<noteq> None \<or> pa_kfdb_url args \<noteq> None
             then e_bind (relay_repo_id A L (pa_repo args) (pa_repo_id args)) (\<lambda>i. e_ret (Some i))
             else e_ret (pa_repo_id args)) (\<lambda>repo_id.
     e_bind (build_sync_verify A L (pa_repo args)) (\<lambda>here.
     e_bind (case pa_remote args of None \<Rightarrow> e_ret None
             | Some remote \<Rightarrow> e_bind (build_sync_status A L \<lparr>sy_repo = pa_repo args, sy_remote = remote\<rparr>) (\<lambda>r. e_ret (Some r))) (\<lambda>git_remote.
     e_bind (case (pa_relay_url args, repo_id) of
               (Some u, Some i) \<Rightarrow> e_bind (build_relay_status A L (pa_repo args) u i None) (\<lambda>r. e_ret (Some r))
             | _ \<Rightarrow> e_ret None) (\<lambda>relay.
     e_bind (case (pa_kfdb_url args, repo_id) of
               (Some u, Some i) \<Rightarrow> e_bind (build_kfdb_proof A L u i (pa_kfdb_bearer_token args) (pa_kfdb_bearer_token_env args)
                  (sv_object_count here) (sv_patch_count here)) (\<lambda>k. e_ret (Some k))
             | _ \<Rightarrow> e_ret None) (\<lambda>kfdb.
     e_bind (\<lambda>s. case resolve_tee_url A s (pa_tee_url args) of
               None \<Rightarrow> (Inr None, s)
             | Some u \<Rightarrow> (case tee_signer_reachable u s of (b, s') \<Rightarrow> (Inr (Some b), s'))) (\<lambda>tee_reachable.
     (let diagnostics = proof_diagnostics here git_remote relay kfdb in
       e_ret \<lparr>pf_status = (if diagnostics = [] then ''ok'' else ''failed''), pf_repo_id = repo_id, pf_local = here,
              pf_git_remote = git_remote, pf_relay = relay, pf_kfdb = kfdb, pf_tee_reachable = tee_reachable,
              pf_diagnostics = diagnostics\<rparr>)))))))"

section \<open>Doctor\<close>

record doctor_args =
  do_relay_url :: "str option"
  do_tee_url :: "str option"
  do_agent_id :: "str option"

record doctor_report =
  dc_status :: str
  dc_workspace :: str
  dc_git_backend :: str
  dc_rdl_contracts :: nat
  dc_mutating_commands_enabled :: bool
  dc_signing_key_configured :: "bool option"
  dc_relay_health :: "str option"
  dc_signer_tee_reachable :: "bool option"

text \<open>What goes wrong is reported as a value of the report; the status is always \<^verbatim>\<open>ok\<close>.\<close>

definition relay_health_of :: "(nat \<Rightarrow> str) \<Rightarrow> str + http_response \<Rightarrow> str" where
  "relay_health_of status_text out = (case out of
     Inr resp \<Rightarrow> if 200 \<le> hr_status resp \<and> hr_status resp < 300 then ''ok''
       else ''unhealthy ('' @ status_text (hr_status resp) @ '')''
   | Inl e \<Rightarrow> ''unreachable ('' @ e @ '')'')"

definition run_doctor ::
    "'s api \<Rightarrow> (nat \<Rightarrow> str) \<Rightarrow> (str \<Rightarrow> 's \<Rightarrow> bool \<times> 's) \<Rightarrow> 'm rdl_core \<Rightarrow> (str \<Rightarrow> json) \<Rightarrow> doctor_args \<Rightarrow> ('s, cli_error, doctor_report) eff" where
  "run_doctor A status_text tee_signer_status_ok R schema args s =
     (let signing_key_configured = map_option (\<lambda>i. a_exists A s (agent_key_file A s i)) (do_agent_id args);
          (relay_health, s1) = (case do_relay_url args of None \<Rightarrow> (None, s)
            | Some u \<Rightarrow> (case a_http A \<lparr>hq_method = ''GET'', hq_url = trim_end_char CHR ''/'' u @ ''/health'', hq_bearer = None,
                  hq_body = None\<rparr> s of (out, s') \<Rightarrow> (Some (relay_health_of status_text out), s')));
          (signer_tee_reachable, s2) = (case do_tee_url args of None \<Rightarrow> (None, s1)
            | Some u \<Rightarrow> (case tee_signer_status_ok u s1 of (b, s') \<Rightarrow> (Some b, s')))
      in (Inr \<lparr>dc_status = ''ok'', dc_workspace = ''rickydata_git'', dc_git_backend = ''gix'', dc_rdl_contracts = length (command_manifest_exports R schema),
           dc_mutating_commands_enabled = True, dc_signing_key_configured = signing_key_configured,
           dc_relay_health = relay_health, dc_signer_tee_reachable = signer_tee_reachable\<rparr>, s2))"

end
