(* ===== verification/Cli_Insight.thy ===== *)
theory Cli_Insight
  imports Cli_Reports Cli_Reference
begin

text \<open>
  What the graph and the reports over it promise: the graph is closed and depends on the ledger only, a
  projection keeps its objects private unless it is told otherwise, and a proof report says exactly
  whether the copies agree.
\<close>

section \<open>The entries of a listing are determined by the ledger\<close>

definition kept :: "'a ledger_entry \<Rightarrow> str \<times> 'a" where
  "kept e = (en_object_id e, en_value e)"

definition bare :: "str \<times> 'a \<Rightarrow> 'a ledger_entry" where
  "bare x = \<lparr>en_object_id = fst x, en_ref_name = [], en_git_object_id = [], en_value = snd x\<rparr>"

lemma bare_kept [simp]: "en_object_id (bare (kept e)) = en_object_id e" "en_value (bare (kept e)) = en_value e"
  by (simp_all add: kept_def bare_def)

lemma views_set: "views V es \<Longrightarrow> set (map kept es) = {(i, v). V i = Some v}"
  unfolding views_def kept_def by auto

lemma views_unique:
  assumes "views V es" "views V es'"
  shows "map kept es = map kept es'"
proof (rule map_sorted_distinct_set_unique [where f = fst])
  show "set (map kept es) = set (map kept es')" using assms by (simp only: views_set)
  have m: "map fst (map kept es) = map en_object_id es" for es :: "'a ledger_entry list"
    by (induction es) (simp_all add: kept_def)
  show "sorted (map fst (map kept es))" "distinct (map fst (map kept es))"
    "sorted (map fst (map kept es'))" "distinct (map fst (map kept es'))"
    unfolding m using assms by (simp_all add: views_def strict_sorted_iff)
  show "inj_on fst (set (map kept es) \<union> set (map kept es'))"
    unfolding views_set [OF assms(1)] views_set [OF assms(2)] by (auto simp: inj_on_def)
qed

lemma map_sort_key_via: "map f (sort_key (\<lambda>x. g (f x)) xs) = sort_key g (map f xs)"
proof (induction xs)
  case (Cons x xs)
  have "map f (insort_key (\<lambda>x. g (f x)) x ys) = insort_key g (f x) (map f ys)" for ys by (induction ys) auto
  with Cons show ?case by simp
qed simp

lemma sorted_views_unique:
  assumes "views V es" "views V es'"
  shows "map kept (sort_key (\<lambda>e. g (en_value e)) es) = map kept (sort_key (\<lambda>e. g (en_value e)) es')"
proof -
  have g: "(\<lambda>e. g (en_value e)) = (\<lambda>e. (g \<circ> snd) (kept e))" by (rule ext) (simp add: kept_def)
  show ?thesis unfolding g map_sort_key_via views_unique [OF assms] by (rule refl)
qed

lemma graphs_of_kept:
  "map (intent_graph E r) es = map (intent_graph E r \<circ> bare) (map kept es)"
  "map (attempt_graph E r) as = map (attempt_graph E r \<circ> bare) (map kept as)"
  "map (run_graph E r) us = map (run_graph E r \<circ> bare) (map kept us)"
  "map (change_graph E r c) ks = map (change_graph E r c \<circ> bare) (map kept ks)"
  "map (patch_graph E r c) ps = map (patch_graph E r c \<circ> bare) (map kept ps)"
  by (simp_all add: intent_graph_def attempt_graph_def run_graph_def change_graph_def patch_graph_def)

lemma scanned_graph_kept:
  assumes "map kept ws = map kept ws'" "map kept as = map kept as'" "map kept us = map kept us'"
    and "map kept ks = map kept ks'" "map kept ps = map kept ps'"
  shows "scanned_graph E repo rid r c cg ws as us ks ps = scanned_graph E repo rid r c cg ws' as' us' ks' ps'"
  unfolding scanned_graph_def Let_def graphs_of_kept [of E r] assms by (rule refl)

section \<open>A scan of the ledger\<close>

abbreviation intents_in :: "ledger_map \<Rightarrow> str \<rightharpoonup> work_intent" where
  "intents_in M \<equiv> typed M ''agent.intent'' work_intent_of_json"

text \<open>
  Every intent, attempt, run, change and patch of the ledger has its node, and the edge that joins it to
  its intent or attempt.  The other kinds (notes, transitions, traces, applications, retirements, diffs)
  are not drawn.
\<close>

definition drawn :: "'s graph_env \<Rightarrow> str \<Rightarrow> ledger_map \<Rightarrow> graph \<Rightarrow> bool" where
  "drawn E r M g \<longleftrightarrow>
     (\<forall>i v. intents_in M i = Some v \<longrightarrow> graph_id E ''RickydataWorkIntent'' [r, i] \<in> gn_id ` set (fst g)) \<and>
     (\<forall>i a. attempts_in M i = Some a \<longrightarrow> graph_id E ''RickydataAttempt'' [r, att_attempt_id a] \<in> gn_id ` set (fst g) \<and>
        graph_edge_id E (graph_id E ''RickydataAttempt'' [r, att_attempt_id a]) ''DERIVED_FROM_ISSUE''
          (graph_id E ''RickydataWorkIntent'' [r, att_intent_id a]) \<in> gd_id ` set (snd g)) \<and>
     (\<forall>i u. runs_in M i = Some u \<longrightarrow> graph_id E ''RickydataRun'' [r, run_run_id u] \<in> gn_id ` set (fst g) \<and>
        graph_edge_id E (graph_id E ''RickydataAttempt'' [r, run_attempt_id u]) ''HAS_RUN''
          (graph_id E ''RickydataRun'' [r, run_run_id u]) \<in> gd_id ` set (snd g)) \<and>
     (\<forall>i c. changes_in M i = Some c \<longrightarrow> graph_id E ''RickydataProof'' [r, chg_change_id c] \<in> gn_id ` set (fst g) \<and>
        graph_edge_id E (graph_id E ''RickydataAttempt'' [r, chg_attempt_id c]) ''PROVES''
          (graph_id E ''RickydataProof'' [r, chg_change_id c]) \<in> gd_id ` set (snd g)) \<and>
     (\<forall>i p. patches_in M i = Some p \<longrightarrow> graph_id E ''RickydataPatch'' [r, pp_patch_id p] \<in> gn_id ` set (fst g) \<and>
        graph_edge_id E (graph_id E ''RickydataAttempt'' [r, pp_attempt_id p]) ''PRODUCED_BY''
          (graph_id E ''RickydataPatch'' [r, pp_patch_id p]) \<in> gd_id ` set (snd g))"

lemma drawn_dedupe: "drawn E r M g \<Longrightarrow> drawn E r M (fst (dedupe_graph g), snd (dedupe_graph g))"
  unfolding drawn_def by (simp only: fst_conv snd_conv dedupe_facts(3) dedupe_edges)

lemma views_entry: "views V es \<Longrightarrow> V i = Some v \<Longrightarrow> \<exists>e \<in> set es. en_object_id e = i \<and> en_value e = v"
  by (simp add: views_def)

lemma scanned_draws:
  assumes "views (intents_in M) ws" "views (attempts_in M) as" "views (runs_in M) us" "views (changes_in M) ks" "views (patches_in M) ps"
  shows "drawn E r M (scanned_graph E repo rid r c cg ws (sort_key f1 as) (sort_key f2 us) (sort_key f3 ks) (sort_key f4 ps))"
    (is "drawn E r M ?g")
proof -
  let ?c = "case c of Some c \<Rightarrow> c | None \<Rightarrow> ''unknown''"
  let ?as = "sort_key f1 as" and ?us = "sort_key f2 us" and ?ks = "sort_key f3 ks" and ?ps = "sort_key f4 ps"
  let ?all = "intent_graph E r ` set ws \<union> attempt_graph E r ` set as \<union> run_graph E r ` set us \<union>
    change_graph E r ?c ` set ks \<union> patch_graph E r ?c ` set ps"
  have put: "set (map gn_id (fst g)) \<subseteq> gn_id ` set (fst ?g)" "set (map gd_id (snd g)) \<subseteq> gd_id ` set (snd ?g)"
    if "g \<in> ?all" for g
    using scanned_has_parts [of g E repo rid r c cg ws ?as ?us ?ks ?ps] that by auto
  have i: "graph_id E ''RickydataWorkIntent'' [r, i] \<in> gn_id ` set (fst ?g)" if h: "intents_in M i = Some v" for i v
  proof -
    obtain e where e: "e \<in> set ws" "en_object_id e = i" using views_entry [OF assms(1) h] by blast
    then have "intent_graph E r e \<in> ?all" by blast
    from put(1) [OF this] e(2) show ?thesis by (simp add: intent_graph_def Let_def)
  qed
  have a: "graph_id E ''RickydataAttempt'' [r, att_attempt_id a] \<in> gn_id ` set (fst ?g) \<and>
      graph_edge_id E (graph_id E ''RickydataAttempt'' [r, att_attempt_id a]) ''DERIVED_FROM_ISSUE''
        (graph_id E ''RickydataWorkIntent'' [r, att_intent_id a]) \<in> gd_id ` set (snd ?g)" if h: "attempts_in M i = Some a" for i a
  proof -
    obtain e where e: "e \<in> set as" "en_value e = a" using views_entry [OF assms(2) h] by blast
    then have "attempt_graph E r e \<in> ?all" by blast
    from put [OF this] e(2) show ?thesis by (simp add: attempt_graph_def new_graph_edge_def Let_def)
  qed
  have u: "graph_id E ''RickydataRun'' [r, run_run_id u] \<in> gn_id ` set (fst ?g) \<and>
      graph_edge_id E (graph_id E ''RickydataAttempt'' [r, run_attempt_id u]) ''HAS_RUN''
        (graph_id E ''RickydataRun'' [r, run_run_id u]) \<in> gd_id ` set (snd ?g)" if h: "runs_in M i = Some u" for i u
  proof -
    obtain e where e: "e \<in> set us" "en_value e = u" using views_entry [OF assms(3) h] by blast
    then have "run_graph E r e \<in> ?all" by blast
    from put [OF this] e(2) show ?thesis by (simp add: run_graph_def new_graph_edge_def Let_def)
  qed
  have k: "graph_id E ''RickydataProof'' [r, chg_change_id k] \<in> gn_id ` set (fst ?g) \<and>
      graph_edge_id E (graph_id E ''RickydataAttempt'' [r, chg_attempt_id k]) ''PROVES''
        (graph_id E ''RickydataProof'' [r, chg_change_id k]) \<in> gd_id ` set (snd ?g)" if h: "changes_in M i = Some k" for i k
  proof -
    obtain e where e: "e \<in> set ks" "en_value e = k" using views_entry [OF assms(4) h] by blast
    then have "change_graph E r ?c e \<in> ?all" by blast
    from put [OF this] e(2) show ?thesis by (simp add: change_graph_def new_graph_edge_def both_def Let_def)
  qed
  have p: "graph_id E ''RickydataPatch'' [r, pp_patch_id p] \<in> gn_id ` set (fst ?g) \<and>
      graph_edge_id E (graph_id E ''RickydataAttempt'' [r, pp_attempt_id p]) ''PRODUCED_BY''
        (graph_id E ''RickydataPatch'' [r, pp_patch_id p]) \<in> gd_id ` set (snd ?g)" if h: "patches_in M i = Some p" for i p
  proof -
    obtain e where e: "e \<in> set ps" "en_value e = p" using views_entry [OF assms(5) h] by blast
    then have "patch_graph E r ?c e \<in> ?all" by blast
    from put [OF this] e(2) show ?thesis by (simp add: patch_graph_def new_graph_edge_def both_def Let_def)
  qed
  show ?thesis unfolding drawn_def using i a u k p by blast
qed

text \<open>What may be missing at an end of an edge: an attempt or an intent that is named, but not in the ledger.\<close>

definition attempt_named :: "ledger_map \<Rightarrow> str \<Rightarrow> bool" where
  "attempt_named M x \<longleftrightarrow> (\<exists>i u. runs_in M i = Some u \<and> run_attempt_id u = x) \<or>
     (\<exists>i c. changes_in M i = Some c \<and> chg_attempt_id c = x) \<or> (\<exists>i p. patches_in M i = Some p \<and> pp_attempt_id p = x)"

definition loose_attempts :: "'s graph_env \<Rightarrow> str \<Rightarrow> ledger_map \<Rightarrow> str set" where
  "loose_attempts E r M = {attempt_node E r x | x. attempt_named M x \<and> (\<nexists>i a. attempts_in M i = Some a \<and> att_attempt_id a = x)}"

definition loose_intents :: "'s graph_env \<Rightarrow> str \<Rightarrow> ledger_map \<Rightarrow> str set" where
  "loose_intents E r M = {intent_node E r (att_intent_id a) | i a. attempts_in M i = Some a \<and> intents_in M (att_intent_id a) = None}"

lemma views_member: "views V es \<Longrightarrow> e \<in> set es \<Longrightarrow> V (en_object_id e) = Some (en_value e)"
  unfolding views_def by blast

lemma named_in_ledger:
  assumes "views (runs_in M) us" "views (changes_in M) ks" "views (patches_in M) ps" "x \<in> named_attempts us ks ps"
  shows "attempt_named M x"
proof -
  from assms(4) consider e where "e \<in> set us" "x = run_attempt_id (en_value e)"
    | e where "e \<in> set ks" "x = chg_attempt_id (en_value e)" | e where "e \<in> set ps" "x = pp_attempt_id (en_value e)"
    unfolding named_attempts_def by blast
  then show ?thesis unfolding attempt_named_def
    by cases (use assms(1-3) [THEN views_member] in blast)+
qed

lemma anchored_views:
  assumes "anchored (attempt_node E r ` named_attempts us ks ps) ((\<lambda>a. intent_node E r (att_intent_id (en_value a))) ` set as) g"
    and "views (attempts_in M) as" "views (runs_in M) us" "views (changes_in M) ks" "views (patches_in M) ps" "drawn E r M g"
  shows "anchored (loose_attempts E r M) (loose_intents E r M) g"
proof -
  let ?nodes = "gn_id ` set (fst g)"
  have here: "intents_in M i = Some v \<Longrightarrow> intent_node E r i \<in> ?nodes" "attempts_in M i = Some a \<Longrightarrow> attempt_node E r (att_attempt_id a) \<in> ?nodes" for i v a
    using assms(6) unfolding drawn_def by simp_all
  have "attempt_node E r x \<in> loose_attempts E r M \<union> ?nodes" if "x \<in> named_attempts us ks ps" for x
    using named_in_ledger [OF assms(3-5) that] here(2) unfolding loose_attempts_def by blast
  moreover have "intent_node E r (att_intent_id (en_value a)) \<in> loose_intents E r M \<union> ?nodes" if "a \<in> set as" for a
    using views_member [OF assms(2) that] here(1) unfolding loose_intents_def by (cases "intents_in M (att_intent_id (en_value a))") blast+
  ultimately have "attempt_node E r ` named_attempts us ks ps \<subseteq> loose_attempts E r M \<union> ?nodes"
    "(\<lambda>a. intent_node E r (att_intent_id (en_value a))) ` set as \<subseteq> loose_intents E r M \<union> ?nodes" by blast+
  with assms(1) show ?thesis unfolding anchored_def by blast
qed

context ledger
begin

lemma collect_quiet [quiets]: "quiet good objs (collect_rust_source_files E repo)"
  unfolding collect_rust_source_files_def by (rule quiet_state) (intro quiets)

lemma scan_code_quiet [quiets]: "quiet good objs (scan_code A L E repo c rid code)"
  unfolding scan_code_def append_code_structure_graph_def source_file_graph_def Let_def by (intro quiets)

lemma scan_objects_quiet [quiets]: "quiet good objs (scan_objects A L E repo c rid code cg)"
  unfolding scan_objects_def by (intro quiets)

lemma scan_quiet [quiets]: "quiet good objs (build_graph_scan A L E repo commit code)"
  unfolding scan_parts Let_def by (intro quiets)

lemma objects_views:
  assumes "good s" "scan_objects A L E repo c rid code cg s = (Inr rep, s')"
  obtains intents attempts runs changes patches where
    "views (intents_in (objs s)) intents" "views (attempts_in (objs s)) attempts" "views (runs_in (objs s)) runs"
    "views (changes_in (objs s)) changes" "views (patches_in (objs s)) patches"
    "scan_report L repo rid c code (dedupe_graph (scanned_graph E repo rid (graph_id E ''Repository'' [rid]) c cg intents
       (sort_key (\<lambda>e. att_attempt_id (en_value e)) attempts) (sort_key (\<lambda>e. run_run_id (en_value e)) runs)
       (sort_key (\<lambda>e. chg_change_id (en_value e)) changes) (sort_key (\<lambda>e. pp_patch_id (en_value e)) patches))) = Inr rep"
proof -
  obtain intents s1 attempts s2 runs s3 changes s4 patches where
    r: "read_entries A L repo ''agent.intent'' work_intent_of_json s = (Inr intents, s1)"
    "list_attempts A L repo s1 = (Inr attempts, s2)" "list_runs A L repo s2 = (Inr runs, s3)"
    "list_changes A L repo s3 = (Inr changes, s4)" "list_patches A L repo s4 = (Inr patches, s')"
    and rep: "scan_report L repo rid c code (dedupe_graph (scanned_graph E repo rid (graph_id E ''Repository'' [rid]) c cg
       intents attempts runs changes patches)) = Inr rep"
    by (rule objects_run [OF assms(2)])
  note q1 = quietD [OF read_entries_quiet assms(1) r(1)]
  note q2 = quietD [OF list_attempts_quiet conjunct1 [OF q1] r(2)]
  note q3 = quietD [OF list_runs_quiet conjunct1 [OF q2] r(3)]
  note q4 = quietD [OF list_changes_quiet conjunct1 [OF q3] r(4)]
  note o1 = conjunct2 [OF q1] and o2 = conjunct2 [OF q2] and o3 = conjunct2 [OF q3] and o4 = conjunct2 [OF q4]
  show thesis
    using that listed_values [OF conjunct1 [OF q1] r(2) [unfolded list_attempts_def]]
      listed_values [OF conjunct1 [OF q2] r(3) [unfolded list_runs_def]]
      listed_values [OF conjunct1 [OF q3] r(4) [unfolded list_changes_def]]
      listed_values [OF conjunct1 [OF q4] r(5) [unfolded list_patches_def]] read_entries_view [OF assms(1) r(1)] rep
    unfolding o1 o2 o3 o4 by metis
qed

lemma scan_draws:
  assumes "good s" "build_graph_scan A L E repo commit code s = (Inr rep, s')"
  shows "drawn E (graph_id E ''Repository'' [gr_repo_id rep]) (objs s) (gr_nodes rep, gr_edges rep)"
    and "anchored (loose_attempts E (graph_id E ''Repository'' [gr_repo_id rep]) (objs s))
      (loose_intents E (graph_id E ''Repository'' [gr_repo_id rep]) (objs s)) (gr_nodes rep, gr_edges rep)"
    and "sorted_wrt (<) (map gn_id (gr_nodes rep)) \<and> sorted_wrt (<) (map gd_id (gr_edges rep))"
proof -
  obtain insp s1 c cg s2 where i: "a_inspect A repo s = (Inr insp, s1)"
    and cg: "scan_code A L E repo c (canonical_repo_id E s1 repo) code s1 = (Inr cg, s2)"
    and o: "scan_objects A L E repo c (canonical_repo_id E s1 repo) code cg s2 = (Inr rep, s')"
    by (rule scan_run [OF assms(2)])
  note q1 = quietD [OF inspect_quiet assms(1) i]
  note q2 = quietD [OF scan_code_quiet conjunct1 [OF q1] cg]
  have o2: "objs s2 = objs s" using q1 q2 by simp
  let ?r = "graph_id E ''Repository'' [canonical_repo_id E s1 repo]"
  obtain ws as us ks ps where v: "views (intents_in (objs s)) ws" "views (attempts_in (objs s)) as" "views (runs_in (objs s)) us"
    "views (changes_in (objs s)) ks" "views (patches_in (objs s)) ps"
    and rep: "scan_report L repo (canonical_repo_id E s1 repo) c code (dedupe_graph (scanned_graph E repo (canonical_repo_id E s1 repo) ?r c cg ws
       (sort_key (\<lambda>e. att_attempt_id (en_value e)) as) (sort_key (\<lambda>e. run_run_id (en_value e)) us)
       (sort_key (\<lambda>e. chg_change_id (en_value e)) ks) (sort_key (\<lambda>e. pp_patch_id (en_value e)) ps))) = Inr rep"
    by (rule objects_views [OF conjunct1 [OF q2] o, unfolded o2])
  let ?g = "scanned_graph E repo (canonical_repo_id E s1 repo) ?r c cg ws
       (sort_key (\<lambda>e. att_attempt_id (en_value e)) as) (sort_key (\<lambda>e. run_run_id (en_value e)) us)
       (sort_key (\<lambda>e. chg_change_id (en_value e)) ks) (sort_key (\<lambda>e. pp_patch_id (en_value e)) ps)"
  note f = scan_report_fields [OF rep]
  have d: "drawn E ?r (objs s) ?g"
    using v by (rule scanned_draws)
  show "drawn E (graph_id E ''Repository'' [gr_repo_id rep]) (objs s) (gr_nodes rep, gr_edges rep)"
    unfolding f by (rule drawn_dedupe [OF d])
  have "anchored (attempt_node E ?r ` named_attempts us ks ps) ((\<lambda>a. intent_node E ?r (att_intent_id (en_value a))) ` set as) ?g"
    using scanned_anchored [OF scan_code_anchored [OF cg], of E "sort_key (\<lambda>e. run_run_id (en_value e)) us"
        "sort_key (\<lambda>e. chg_change_id (en_value e)) ks" "sort_key (\<lambda>e. pp_patch_id (en_value e)) ps"
        "sort_key (\<lambda>e. att_attempt_id (en_value e)) as" repo "canonical_repo_id E s1 repo" c ws]
    by (simp add: named_attempts_def)
  from anchored_views [OF this v(2-5) d] show "anchored (loose_attempts E (graph_id E ''Repository'' [gr_repo_id rep]) (objs s))
      (loose_intents E (graph_id E ''Repository'' [gr_repo_id rep]) (objs s)) (gr_nodes rep, gr_edges rep)"
    unfolding f by (auto dest: anchored_dedupe)
  show "sorted_wrt (<) (map gn_id (gr_nodes rep)) \<and> sorted_wrt (<) (map gd_id (gr_edges rep))"
    unfolding f by (intro conjI dedupe_facts)
qed

end

context ledger
begin

lemma scan_views:
  assumes "good s" "build_graph_scan A L E repo commit False s = (Inr rep, s')"
  obtains ws as us ks ps where
    "views (intents_in (objs s)) ws" "views (attempts_in (objs s)) as" "views (runs_in (objs s)) us"
    "views (changes_in (objs s)) ks" "views (patches_in (objs s)) ps"
    "scan_report L repo (gr_repo_id rep) (gr_commit rep) False (dedupe_graph (scanned_graph E repo (gr_repo_id rep)
       (graph_id E ''Repository'' [gr_repo_id rep]) (gr_commit rep) ([], []) ws
       (sort_key (\<lambda>e. att_attempt_id (en_value e)) as) (sort_key (\<lambda>e. run_run_id (en_value e)) us)
       (sort_key (\<lambda>e. chg_change_id (en_value e)) ks) (sort_key (\<lambda>e. pp_patch_id (en_value e)) ps))) = Inr rep"
proof -
  obtain insp s1 c cg s2 where i: "a_inspect A repo s = (Inr insp, s1)"
    and cg: "scan_code A L E repo c (canonical_repo_id E s1 repo) False s1 = (Inr cg, s2)"
    and o: "scan_objects A L E repo c (canonical_repo_id E s1 repo) False cg s2 = (Inr rep, s')"
    by (rule scan_run [OF assms(2)])
  note q1 = quietD [OF inspect_quiet assms(1) i]
  have s2: "cg = ([], [])" "s2 = s1" using cg by (auto simp: scan_code_def)
  obtain ws as us ks ps where v: "views (intents_in (objs s1)) ws" "views (attempts_in (objs s1)) as" "views (runs_in (objs s1)) us"
    "views (changes_in (objs s1)) ks" "views (patches_in (objs s1)) ps"
    and rep: "scan_report L repo (canonical_repo_id E s1 repo) c False (dedupe_graph (scanned_graph E repo (canonical_repo_id E s1 repo)
       (graph_id E ''Repository'' [canonical_repo_id E s1 repo]) c ([], []) ws
       (sort_key (\<lambda>e. att_attempt_id (en_value e)) as) (sort_key (\<lambda>e. run_run_id (en_value e)) us)
       (sort_key (\<lambda>e. chg_change_id (en_value e)) ks) (sort_key (\<lambda>e. pp_patch_id (en_value e)) ps))) = Inr rep"
    by (rule objects_views [OF conjunct1 [OF q1] o [unfolded s2]])
  show thesis
    by (rule that [OF v [unfolded conjunct2 [OF q1]]]) (simp only: rep scan_report_fields(6,7) [OF rep])
qed

end

section \<open>A scan returns\<close>

definition plain_graph :: "graph \<Rightarrow> bool" where
  "plain_graph g \<longleftrightarrow> (\<forall>n \<in> set (fst g). json_plain 4 (graph_node_json n)) \<and>
     (\<forall>e \<in> set (snd g). json_plain 4 (graph_edge_json e))"

lemma plain_graph_node [simp]:
  assumes "list_all (\<lambda>kv. json_plain 2 (snd kv)) props"
  shows "json_plain 4 (graph_node_json (new_graph_node l i src props))"
proof -
  let ?ps = "[(''rickydata_graph_schema_version'', JString GRAPH_SCHEMA), (''rickydata_graph_kind'', JString l)] @ props"
  have d: "(4::nat) = Suc 3" "(3::nat) = Suc 2" by simp_all
  have "json_plain 3 (json_obj ?ps)" unfolding d(2) by (rule json_plain_json_obj) (use assms in \<open>auto simp: list_all_iff\<close>)
  then show ?thesis unfolding graph_node_json_def new_graph_node_def d(1)
    by (intro json_plain_json_obj) (auto simp: json_obj_def)
qed

lemma plain_graph_edge [simp]: "json_plain 4 (graph_edge_json (new_graph_edge E a t b))"
proof -
  have d: "(4::nat) = Suc (Suc 2)" by simp
  show ?thesis unfolding graph_edge_json_def new_graph_edge_def d by (intro json_plain_json_obj) auto
qed

lemma plain_graph_parts [simp]:
  "plain_graph ([], [])" "plain_graph (both g h) \<longleftrightarrow> plain_graph g \<and> plain_graph h"
  "plain_graph (all_of gs) \<longleftrightarrow> (\<forall>g \<in> set gs. plain_graph g)"
proof -
  show "plain_graph ([], [])" by (simp add: plain_graph_def)
  show "plain_graph (both g h) \<longleftrightarrow> plain_graph g \<and> plain_graph h" for g h by (auto simp: plain_graph_def both_def)
  then show "plain_graph (all_of gs) \<longleftrightarrow> (\<forall>g \<in> set gs. plain_graph g)"
    by (induction gs) (simp_all add: all_of_def, simp add: plain_graph_def)
qed

lemma plain_graph_list [simp]:
  "plain_graph (n # ns, es) \<longleftrightarrow> json_plain 4 (graph_node_json n) \<and> plain_graph (ns, es)"
  "plain_graph (ns, e # es) \<longleftrightarrow> json_plain 4 (graph_edge_json e) \<and> plain_graph (ns, es)"
  by (auto simp: plain_graph_def)

lemma plain_result [simp]: "json_plain d (agent_run_result_json x)"
  by (cases x) (simp_all add: agent_run_result_json_def)

lemma plain_objects:
  "plain_graph (repository_graph E repo rid r c)" "plain_graph (intent_graph E r i)" "plain_graph (attempt_graph E r a)"
  "plain_graph (run_graph E r u)" "plain_graph (change_graph E r cm ch)" "plain_graph (patch_graph E r cm p)"
  by (auto simp: repository_graph_def intent_graph_def attempt_graph_def run_graph_def change_graph_def patch_graph_def
      touched_file_def Let_def split: option.split)

lemma scanned_plain: "plain_graph (scanned_graph E repo rid r c ([], []) ws as us ks ps)"
  unfolding scanned_graph_def Let_def by (auto simp: plain_objects)

lemma plain_dedupe: "plain_graph g \<Longrightarrow> plain_graph (dedupe_graph g)"
  using keep_first_sub [of gn_id "[]" "fst g"] keep_first_sub [of gd_id "[]" "snd g"]
  by (auto simp: plain_graph_def dedupe_graph_def)

lemma scan_report_total:
  assumes "json_codec L" "plain_graph g"
  shows "\<exists>rep. scan_report L repo rid c code g = Inr rep"
proof -
  have "json_plain (Suc 5) (graph_json g)"
    unfolding graph_json_def
    by (rule json_plain_json_obj) (use assms(2) in \<open>auto simp: plain_graph_def list_all_iff split: nat.split\<close>)
  from stable_json_hash_total [OF assms(1) json_plain_ok [OF this]] obtain h where "stable_json_hash L (graph_json g) = Inr h" ..
  then show ?thesis by (simp add: scan_report_def core_bail_def)
qed

context live_ledger
begin

lemma reads_on:
  assumes "calm s" "\<forall>i obj. objs s i = Some obj \<longrightarrow> co_kind obj = kind \<longrightarrow> d (co_body obj) \<noteq> None"
  shows "\<exists>es s'. read_entries A L repo kind d s = (Inr es, s') \<and> calm s' \<and> objs s' = objs s"
  using read_entries_return [OF assms] quietD [OF read_entries_quiet calm_good [OF assms(1)]] by blast

lemma lists_on:
  assumes "calm s" "\<forall>i obj. objs s i = Some obj \<longrightarrow> co_kind obj = kind \<longrightarrow> d (co_body obj) \<noteq> None"
  shows "\<exists>es s'. e_bind (read_entries A L repo kind d) (\<lambda>es. e_ret (sort_key f es)) s = (Inr es, s') \<and> calm s' \<and> objs s' = objs s"
  using reads_on [OF assms] by (force simp: e_bind_def)

lemma scan_returns:
  assumes c: "calm s" and t: "ledger_typed (objs s)" and L: "json_codec L"
    and i: "a_inspect A repo s = (Inr insp, s1)" "calm s1"
  shows "\<exists>rep s'. build_graph_scan A L E repo commit False s = (Inr rep, s') \<and> calm s' \<and> objs s' = objs s"
proof -
  have o1: "objs s1 = objs s" using quietD [OF inspect_quiet calm_good [OF c] i(1)] by simp
  note typed = t [unfolded ledger_typed_def well_typed_def]
  have "\<forall>i obj. objs s1 i = Some obj \<longrightarrow> co_kind obj = ''agent.intent'' \<longrightarrow> work_intent_of_json (co_body obj) \<noteq> None"
    using typed o1 by auto
  from reads_on [OF i(2) this] obtain ws s2 where ws: "read_entries A L repo ''agent.intent'' work_intent_of_json s1 = (Inr ws, s2)"
    "calm s2" "objs s2 = objs s" using o1 by auto
  have "\<forall>i obj. objs s2 i = Some obj \<longrightarrow> co_kind obj = ''agent.attempt'' \<longrightarrow> agent_attempt_of_json (co_body obj) \<noteq> None"
    using typed ws(3) by auto
  from lists_on [OF ws(2) this] obtain as s3 where as: "list_attempts A L repo s2 = (Inr as, s3)" "calm s3" "objs s3 = objs s"
    unfolding list_attempts_def using ws(3) by fastforce
  have "\<forall>i obj. objs s3 i = Some obj \<longrightarrow> co_kind obj = ''agent.run'' \<longrightarrow> agent_run_of_json (co_body obj) \<noteq> None"
    using typed as(3) by auto
  from lists_on [OF as(2) this] obtain us s4 where us: "list_runs A L repo s3 = (Inr us, s4)" "calm s4" "objs s4 = objs s"
    unfolding list_runs_def using as(3) by fastforce
  have "\<forall>i obj. objs s4 i = Some obj \<longrightarrow> co_kind obj = ''agent.change'' \<longrightarrow> change_evidence_of_json (co_body obj) \<noteq> None"
    using typed us(3) by auto
  from lists_on [OF us(2) this] obtain ks s5 where ks: "list_changes A L repo s4 = (Inr ks, s5)" "calm s5" "objs s5 = objs s"
    unfolding list_changes_def using us(3) by fastforce
  have "\<forall>i obj. objs s5 i = Some obj \<longrightarrow> co_kind obj = ''agent.patch'' \<longrightarrow> prepared_patch_of_json (co_body obj) \<noteq> None"
    using typed ks(3) by auto
  from lists_on [OF ks(2) this] obtain ps s6 where ps: "list_patches A L repo s5 = (Inr ps, s6)" "calm s6" "objs s6 = objs s"
    unfolding list_patches_def using ks(3) by fastforce
  have "gitm L (a_inspect A repo) s = (Inr insp, s1)" using i(1) by simp
  moreover obtain rep where "scan_report L repo (canonical_repo_id E s1 repo) (case commit of Some c \<Rightarrow> Some c | None \<Rightarrow> ri_head_commit insp) False
      (dedupe_graph (scanned_graph E repo (canonical_repo_id E s1 repo) (graph_id E ''Repository'' [canonical_repo_id E s1 repo])
        (case commit of Some c \<Rightarrow> Some c | None \<Rightarrow> ri_head_commit insp) ([], []) ws as us ks ps)) = Inr rep"
    using scan_report_total [OF L plain_dedupe [OF scanned_plain]] by blast
  ultimately have "build_graph_scan A L E repo commit False s = (Inr rep, s6)"
    unfolding scan_parts Let_def scan_code_def scan_objects_def e_bind_apply e_basic_apply if_False
    by (simp only: prod.case sum.case ws(1) as(1) us(1) ks(1) ps(1))
  then show ?thesis using ps(2,3) by blast
qed

end

section \<open>The projection\<close>

definition PRIVATE_HEADERS :: "str list" where
  "PRIVATE_HEADERS = [''x-derive-session-id'', ''x-derive-key'']"

definition private_call :: "http_call \<Rightarrow> bool" where
  "private_call q \<longleftrightarrow> list_all (\<lambda>h. h \<in> fst ` set (gq_headers q)) PRIVATE_HEADERS"

lemma private_headers_call: "gq_headers q = private_headers (Some a) \<Longrightarrow> private_call q"
  by (simp add: private_call_def PRIVATE_HEADERS_def private_headers_def)

lemma keeps_batches:
  assumes "\<And>q. gq_headers q = private_headers auth \<Longrightarrow> keeps P (send q)"
  shows "keeps P (write_batches L send st url bearer auth scope acc chunks)"
proof (induction chunks arbitrary: acc)
  case (Cons chunk chunks)
  have "keeps P (ctx t (e_bind (e_lift b) (\<lambda>body. send \<lparr>gq_method = Post, gq_url = url, gq_query = [], gq_headers = private_headers auth,
      gq_bearer = bearer, gq_body = body\<rparr>)))" for t b
    unfolding ctx_def by (intro keeps_map_err keeps_bind keeps_basic) (rule assms, simp)
  then show ?case using Cons.IH by (auto intro!: keeps_bind)
qed simp

lemma keeps_live:
  assumes "\<And>q. pk_allow_public_kfdb args \<or> private_call q \<Longrightarrow> keeps P (send q)"
  shows "keeps P (project_live A L send st args ops)"
proof -
  have "keeps P (e_bind (e_lift (if pk_allow_public_kfdb args then Inr None else r_map Some (project_kfdb_private_auth env args))) (\<lambda>auth.
      e_bind (some_or m u) (\<lambda>url. write_batches L send st (f url) b auth sc acc chunks)))"
    for env m u f b sc acc and chunks :: "json list list"
  proof (cases "if pk_allow_public_kfdb args then Inr None else r_map Some (project_kfdb_private_auth env args)")
    case (Inr auth)
    then have "pk_allow_public_kfdb args \<or> (\<exists>a. auth = Some a)" by (auto simp: r_map_Inr_iff split: if_splits)
    then have "keeps P (send q)" if "gq_headers q = private_headers auth" for q
      using assms [of q] private_headers_call [of q] that by blast
    then have "keeps P (write_batches L send st (f url) b auth sc acc chunks)" for url by (rule keeps_batches)
    then have "keeps P (e_bind (some_or m u) (\<lambda>url. write_batches L send st (f url) b auth sc acc chunks))"
      by (intro keeps_bind keeps_some_or)
    then show ?thesis unfolding Inr by (simp add: keeps_def e_bind_def)
  qed (simp add: keeps_def e_bind_def)
  note all = this
  show ?thesis
  proof (rule keepsI)
    fix s r s' assume P: "P s" and run: "project_live A L send st args ops s = (r, s')"
    show "P s'" by (rule keepsD [OF all run [unfolded project_live_def Let_def] P])
  qed
qed

lemma write_batches_count:
  assumes "write_batches L send st url bearer auth scope acc chunks s = (Inr res, s')"
  shows "snd res = snd acc + length chunks"
  using assms
proof (induction chunks arbitrary: acc s)
  case (Cons chunk chunks)
  from Cons.prems obtain r s1 where "is_success r"
    "write_batches L send st url bearer auth scope (Some (gr_status r), snd acc + 1) chunks s1 = (Inr res, s')"
    by (auto elim!: e_bind_Inr split: if_splits)
  from Cons.IH [OF this(2)] show ?case by simp
qed (simp add: e_ret_def)

lemma length_chunks: "0 < n \<Longrightarrow> length (chunks_of n xs) = (length xs + n - 1) div n"
proof (induction n xs rule: chunks_of.induct)
  case (1 n xs)
  show ?case
  proof (cases "xs = []")
    case True
    then show ?thesis using 1(2) by (simp add: chunks_of.simps)
  next
    case False
    then have step: "length (chunks_of n xs) = Suc ((length xs - n + n - 1) div n)" using 1 by (simp add: chunks_of.simps [of n xs])
    have "0 < length xs" using False by simp
    show ?thesis
    proof (cases "n \<le> length xs")
      case True
      then have "(length xs + n - 1) div n = Suc ((length xs - 1) div n)"
        using 1(2) \<open>0 < length xs\<close> by (simp add: div_if)
      then show ?thesis using step True by simp
    next
      case small: False
      obtain k where k: "length xs = Suc k" using \<open>0 < length xs\<close> gr0_conv_Suc by blast
      have "(length xs + n - 1) div n = 1" unfolding k by (intro div_nat_eqI) (use small k in auto)
      moreover have "(length xs - n + n - 1) div n = 0" using small 1(2) by simp
      ultimately show ?thesis using step by simp
    qed
  qed
qed

lemma operations_length: "length (graph_kfdb_operations g) = length (gr_nodes g) + length (gr_edges g)"
  by (simp add: graph_kfdb_operations_def)

lemma live_count:
  assumes "project_live A L send st args ops s = (Inr res, s')"
  shows "snd res = length (chunks_of (max 1 (pk_batch_size args)) ops)"
proof -
  from assms obtain url bearer auth s1 where
    "write_batches L send st url bearer auth (pk_scope args) (None, 0) (chunks_of (max 1 (pk_batch_size args)) ops) s1 = (Inr res, s')"
    unfolding project_live_def Let_def by (auto elim!: e_bind_Inr)
  from write_batches_count [OF this] show ?thesis by simp
qed

section \<open>The parts of a proof report\<close>

lemma status_if: "(if b then ''ok'' else ''failed'') = ''ok'' \<longleftrightarrow> b" "(if b then ''ok'' else ''out_of_sync'') = ''ok'' \<longleftrightarrow> b"
  by simp_all

lemma sync_verify_ok:
  assumes "build_sync_verify A L repo s = (Inr rep, s')"
  shows "sv_status rep = ''ok'' \<longleftrightarrow> sv_invalid_objects rep = [] \<and> sv_invalid_patches rep = []"
  using assms unfolding build_sync_verify_def Let_def
  by (elim e_bind_Inr) (simp only: e_basic_apply prod.inject sum.inject, elim conjE, hypsubst, simp only: sync_verify_report.simps status_if)

lemma relay_status_ok:
  assumes "build_relay_status A L repo u i t s = (Inr rep, s')"
  shows "rc_status rep = ''ok'' \<longleftrightarrow> rc_local_object_count rep = unat (rc_relay_object_count rep)"
  using assms unfolding build_relay_status_def by (elim e_bind_Inr) (auto simp: e_ret_def split: if_splits)

lemma kfdb_proof_ok:
  assumes "build_kfdb_proof A L u i t e objects patches s = (Inr rep, s')"
  shows "kp_status rep = ''ok'' \<longleftrightarrow> kp_object_mirror_count rep = int objects \<and> kp_prepared_patch_count rep = int patches"
  using assms unfolding build_kfdb_proof_def Let_def by (elim e_bind_Inr) (simp only: e_basic_apply prod.inject sum.inject, clarsimp)

lemma parsed_refs_ok:
  assumes "parse_ref_lines b = Inr refs"
  shows "entries_ok refs"
  using parse_ref_loop_entries [OF assms [unfolded parse_ref_lines_def]] by (simp add: entries_ok_def)

lemma same_refs_hash:
  assumes "build_sync_status A L input s = (Inr rep, s')"
    and "ss_local_only_refs rep = []" "ss_remote_only_refs rep = []" "ss_divergent_refs rep = []"
  shows "ss_local_refs_hash rep = ss_remote_refs_hash rep"
proof -
  obtain l r b c where "parse_ref_lines b = Inr l" "parse_ref_lines c = Inr r" "sync_status_of L (sy_remote input) l r = Inr rep"
    using assms(1) unfolding build_sync_status_def local_rickydata_refs_def remote_rickydata_refs_def by (auto elim!: e_bind_Inr)
  then show ?thesis using no_ref_difference [OF parsed_refs_ok parsed_refs_ok _ assms(2-4)] by blast
qed

lemma proof_parts:
  assumes "run_proof A L tee args s = (Inr rep, s')"
  obtains repo_id here s1 s2 s3 s4 s5 where
    "pa_relay_url args \<noteq> None \<or> pa_kfdb_url args \<noteq> None \<longrightarrow> repo_id \<noteq> None"
    "build_sync_verify A L (pa_repo args) s1 = (Inr here, s2)"
    "(case pa_remote args of None \<Rightarrow> e_ret None | Some remote \<Rightarrow>
      e_bind (build_sync_status A L \<lparr>sy_repo = pa_repo args, sy_remote = remote\<rparr>) (\<lambda>r. e_ret (Some r))) s2 = (Inr (pf_git_remote rep), s3)"
    "(case (pa_relay_url args, repo_id) of (Some u, Some i) \<Rightarrow> e_bind (build_relay_status A L (pa_repo args) u i None) (\<lambda>r. e_ret (Some r))
      | _ \<Rightarrow> e_ret None) s3 = (Inr (pf_relay rep), s4)"
    "(case (pa_kfdb_url args, repo_id) of
       (Some u, Some i) \<Rightarrow> e_bind (build_kfdb_proof A L u i (pa_kfdb_bearer_token args) (pa_kfdb_bearer_token_env args)
          (sv_object_count here) (sv_patch_count here)) (\<lambda>k. e_ret (Some k))
      | _ \<Rightarrow> e_ret None) s4 = (Inr (pf_kfdb rep), s5)"
    "pf_local rep = here"
    "pf_status rep = (if proof_diagnostics here (pf_git_remote rep) (pf_relay rep) (pf_kfdb rep) = [] then ''ok'' else ''failed'')"
  using assms unfolding run_proof_def Let_def
  by (elim e_bind_Inr) (rule that; auto simp: e_ret_def elim!: e_bind_Inr split: if_splits)

section \<open>Reference runs\<close>

definition ref_graph_env :: "'s graph_env" where
  "ref_graph_env = \<lparr>ge_uuid = (\<lambda>x. x), ge_lowercase = (\<lambda>x. x), ge_canonicalize = (\<lambda>_ _. None), ge_tree = (\<lambda>_ _. SourceOther)\<rparr>"

abbreviation ref_env :: "(ref_git world \<times> unit) graph_env" where
  "ref_env \<equiv> ref_graph_env"

lemma scan_names:
  assumes "build_graph_scan A L E repo (Some c) code s = (Inr rep, s')" "E = ref_graph_env"
  shows "gr_repo_id rep = trim_end_char CHR ''/'' repo" "gr_commit rep = Some c"
proof -
  obtain insp s1 ca cg s2 where "a_inspect A repo s = (Inr insp, s1)" "ca = (case Some c of Some c \<Rightarrow> Some c | None \<Rightarrow> ri_head_commit insp)"
    and o: "scan_objects A L E repo ca (canonical_repo_id E s1 repo) code cg s2 = (Inr rep, s')"
    by (rule scan_run [OF assms(1)])
  moreover from o obtain g where g: "scan_report L repo (canonical_repo_id E s1 repo) ca code g = Inr rep"
    by (rule objects_run)
  ultimately show "gr_repo_id rep = trim_end_char CHR ''/'' repo" "gr_commit rep = Some c"
    using scan_report_fields(6,7) [OF g] assms(2) by (simp_all add: canonical_repo_id_def ref_graph_env_def)
qed

lemma ref_scan_returns:
  assumes "host_calm ref_gix ref_lib ref_host ''r'' s" "ledger_typed (host_objects ref_gix ref_lib s)"
  shows "\<exists>rep s'. build_graph_scan ref_api ref_lib ref_graph_env ''r'' commit False s = (Inr rep, s') \<and>
    host_calm ref_gix ref_lib ref_host ''r'' s' \<and> host_objects ref_gix ref_lib s' = host_objects ref_gix ref_lib s"
proof -
  have "\<exists>insp. a_inspect ref_api ''r'' s = (Inr insp, s)"
    by (cases s) (simp add: git_api_def on_world_def inspect_repository_def ref_gix_def status_has_any_change_def)
  then obtain insp where i: "a_inspect ref_api ''r'' s = (Inr insp, s)" by blast
  show ?thesis by (rule git_live.scan_returns [OF assms ref_lib_laws(1) i assms(1)])
qed

text \<open>An empty ledger verifies.\<close>

lemma ref_verify_returns:
  fixes s :: "ref_git world \<times> unit"
  assumes c: "host_calm ref_gix ref_lib ref_host ''r'' s" and o: "host_objects ref_gix ref_lib s = Map.empty"
  shows "\<exists>rep s'. build_sync_verify ref_api ref_lib ''r'' s = (Inr rep, s') \<and> sv_invalid_objects rep = [] \<and> sv_invalid_patches rep = []"
proof -
  note good = git_live.calm_good
  obtain es s1 where l: "a_list ref_api ''r'' None s = (Inr es, s1)" "host_calm ref_gix ref_lib ref_host ''r'' s1"
    using git_live.list_returns [OF c] by blast
  note lo = git_ledger.listed_object [OF good [OF c] l(1)]
  have es: "es = []" using lo(3) by (simp add: listing_of_def o)
  have o1: "host_objects ref_gix ref_lib s1 = Map.empty" using lo(2) o by simp
  have none: "\<exists>s2. read_entries ref_api ref_lib ''r'' kind d s1 = (Inr [], s2) \<and> host_calm ref_gix ref_lib ref_host ''r'' s2 \<and>
      host_objects ref_gix ref_lib s2 = Map.empty"
    if calm: "host_calm ref_gix ref_lib ref_host ''r'' s1" and empty: "host_objects ref_gix ref_lib s1 = Map.empty"
    for s1 kind and d :: "json \<Rightarrow> 'x option"
  proof -
    obtain es s2 where r: "read_entries ref_api ref_lib ''r'' kind d s1 = (Inr es, s2)" "host_calm ref_gix ref_lib ref_host ''r'' s2"
      "host_objects ref_gix ref_lib s2 = host_objects ref_gix ref_lib s1"
      using git_live.reads_on [OF calm, of kind d] empty by auto
    have "es = []" using git_ledger.read_entries_view [OF good [OF calm] r(1)] empty
      by (cases es) (auto simp: views_def typed_def)
    then show ?thesis using r empty by auto
  qed
  obtain s2 where s2: "read_entries ref_api ref_lib ''r'' ''agent.patch'' prepared_patch_of_json s1 = (Inr [], s2)"
    "host_calm ref_gix ref_lib ref_host ''r'' s2" "host_objects ref_gix ref_lib s2 = Map.empty" using none [OF l(2) o1] by blast
  obtain s3 where s3: "read_entries ref_api ref_lib ''r'' ''agent.patch_retirement'' patch_retirement_of_json s2 = (Inr [], s3)"
    using none [OF s2(2,3)] by blast
  have l0: "gitm ref_lib (a_list ref_api ''r'' None) s = (Inr [], s1)" using l(1) es by simp
  have p: "list_patches ref_api ref_lib ''r'' s1 = (Inr [], s2)" by (simp add: list_patches_def e_bind_def e_ret_def s2(1))
  have r: "retired_patch_ids ref_api ref_lib ''r'' s2 = (Inr [], s3)"
    by (simp add: retired_patch_ids_def e_bind_def e_ret_def s3 sorted_dedup_def)
  have "\<exists>rep. build_sync_verify ref_api ref_lib ''r'' s = (Inr rep, s3) \<and> sv_invalid_objects rep = [] \<and> sv_invalid_patches rep = []"
    by (simp add: build_sync_verify_def e_bind_def e_ret_def Let_def l0 p r somes_def del: lifts_Inr)
  then show ?thesis by blast
qed

text \<open>A host that records what is sent.\<close>

definition log_host :: "(ref_git, http_call list) outside" where
  "log_host = \<lparr>o_cwd = [], o_env = (\<lambda>_ name. Some name), o_now = (\<lambda>s. (Inr 7, s)),
     o_spawn = (\<lambda>_ s. (Inl ''no subprocesses'', s)), o_http = (\<lambda>_ s. (Inl ''no network'', s))\<rparr>"

definition log_send :: "http_call \<Rightarrow> (ref_git world \<times> http_call list, str, http_reply) eff" where
  "log_send q s = (Inr \<lparr>gr_status = 200, gr_body = Inr []\<rparr>, (fst s, snd s @ [q]))"

definition log_args :: project_kfdb_args where
  "log_args = \<lparr>pk_repo = ''r'', pk_kfdb_url = Some ''https://kfdb'', pk_api_key_env = ''KEY'', pk_scope = None,
     pk_allow_public_kfdb = False, pk_derive_session_id_env = ''SESSION'', pk_derive_key_env = ''DERIVE'',
     pk_wallet_address_env = ''WALLET'', pk_batch_size = 1, pk_dry_run = False, pk_include_code_structure = False\<rparr>"

lemma keeps_snd_scan: "keeps (\<lambda>s. Q (snd s)) (build_graph_scan (git_api ref_gix ref_lib log_host) L E repo c False)"
  unfolding scan_parts scan_code_def scan_objects_def Let_def list_attempts_def list_runs_def list_changes_def list_patches_def if_False
  by (intro keeps_bind keeps_basic keeps_snd_read keeps_gitm) (simp add: git_api_def keeps_snd_world)

section \<open>Properties\<close>

text \<open>
  C35: what a scan of the repository returns.  Its nodes and edges have distinct ids, in order; every
  intent, attempt, run, change and patch of the ledger has its node, with the edge from an attempt to its
  intent and the edges from the attempt of a run, a change and a patch (objects of other kinds are not
  drawn); and every edge joins two nodes of the graph, unless it starts at an attempt that a run, a change
  or a patch names and the ledger lacks, or ends at an intent that an attempt names and the ledger lacks.
  The ledger is not changed.
\<close>

theorem graph_scan_exact:
  assumes "host_good G L P repo s" "build_graph_scan (git_api G L P) L E repo commit code s = (Inr rep, s')"
    and "r = graph_id E ''Repository'' [gr_repo_id rep]" "M = host_objects G L s"
  shows "sorted_wrt (<) (map gn_id (gr_nodes rep)) \<and> sorted_wrt (<) (map gd_id (gr_edges rep)) \<and>
    drawn E r M (gr_nodes rep, gr_edges rep) \<and>
    anchored (loose_attempts E r M) (loose_intents E r M) (gr_nodes rep, gr_edges rep) \<and>
    host_objects G L s' = M"
  unfolding assms(3,4) using git_ledger.scan_draws [OF assms(1,2)] quietD [OF git_ledger.scan_quiet assms(1,2)] by blast

theorem graph_scan_exact_witness:
  "\<exists>rep s'. build_graph_scan ref_api ref_lib ref_env ''r'' (Some ''c'') False (ref_store work_store, ()) = (Inr rep, s') \<and>
     graph_id ref_env ''RickydataPatch'' [graph_id ref_env ''Repository'' [''r''], ''p''] \<in> gn_id ` set (gr_nodes rep)"
proof -
  have o: "host_objects ref_gix ref_lib (ref_store work_store, ()) = ledger_of work_store"
    by (rule ref_store_objects [OF work_storable(1)])
  obtain rep s' where run: "build_graph_scan ref_api ref_lib ref_env ''r'' (Some ''c'') False (ref_store work_store, ()) = (Inr rep, s')"
    using ref_scan_returns [OF ref_store_host_calm [OF work_storable], unfolded o, OF work_ledger(1)] by blast
  have "gr_repo_id rep = ''r''" using scan_names(1) [OF run refl] by (simp add: trim_end_char_def)
  then have "drawn ref_env (graph_id ref_env ''Repository'' [''r'']) (ledger_of work_store) (gr_nodes rep, gr_edges rep)"
    using graph_scan_exact [OF ref_store_good [OF work_storable(1)] run refl refl] unfolding o by simp
  then have "graph_id ref_env ''RickydataPatch'' [graph_id ref_env ''Repository'' [''r''], pp_patch_id ref_patch] \<in>
      gn_id ` set (fst (gr_nodes rep, gr_edges rep))"
    unfolding drawn_def using work_views(2) by blast
  then have "graph_id ref_env ''RickydataPatch'' [graph_id ref_env ''Repository'' [''r''], ''p''] \<in> gn_id ` set (gr_nodes rep)"
    by (simp add: ref_patch_def)
  then show ?thesis using run by blast
qed

text \<open>
  C36: the graph depends on the ledger only.  Two hosts whose stores hold the same objects, wherever the
  caches and references are and whatever was read before, return the same nodes, the same edges and
  the same hash for the same repository and commit, when source files are left out.
\<close>

theorem graph_scan_reproducible:
  assumes "host_good G L P repo s" "host_good G' L P' repo t" "host_objects G L s = host_objects G' L t"
    and "build_graph_scan (git_api G L P) L E repo c False s = (Inr rep, s')"
    and "build_graph_scan (git_api G' L P') L E repo c' False t = (Inr rep', t')"
    and "gr_repo_id rep = gr_repo_id rep'" "gr_commit rep = gr_commit rep'"
  shows "gr_nodes rep = gr_nodes rep' \<and> gr_edges rep = gr_edges rep' \<and> gr_graph_hash rep = gr_graph_hash rep'"
proof -
  let ?g = "\<lambda>ws as us ks ps. dedupe_graph (scanned_graph E repo (gr_repo_id rep) (graph_id E ''Repository'' [gr_repo_id rep]) (gr_commit rep)
       ([], []) ws (sort_key (\<lambda>e. att_attempt_id (en_value e)) as) (sort_key (\<lambda>e. run_run_id (en_value e)) us)
       (sort_key (\<lambda>e. chg_change_id (en_value e)) ks) (sort_key (\<lambda>e. pp_patch_id (en_value e)) ps))"
  let ?M = "host_objects G L s"
  obtain ws as us ks ps where v: "views (intents_in ?M) ws" "views (attempts_in ?M) as" "views (runs_in ?M) us"
    "views (changes_in ?M) ks" "views (patches_in ?M) ps"
    and g: "scan_report L repo (gr_repo_id rep) (gr_commit rep) False (?g ws as us ks ps) = Inr rep"
    by (rule git_ledger.scan_views [OF assms(1,4)])
  obtain ws' as' us' ks' ps' where v': "views (intents_in ?M) ws'" "views (attempts_in ?M) as'" "views (runs_in ?M) us'"
    "views (changes_in ?M) ks'" "views (patches_in ?M) ps'"
    and g': "scan_report L repo (gr_repo_id rep) (gr_commit rep) False (?g ws' as' us' ks' ps') = Inr rep'"
    using git_ledger.scan_views [OF assms(2,5)] unfolding assms(3,6,7) by blast
  have "?g ws as us ks ps = ?g ws' as' us' ks' ps'"
    by (rule arg_cong [where f = dedupe_graph], rule scanned_graph_kept)
       (rule views_unique [OF v(1) v'(1)] sorted_views_unique [OF v(2) v'(2)] sorted_views_unique [OF v(3) v'(3)]
         sorted_views_unique [OF v(4) v'(4)] sorted_views_unique [OF v(5) v'(5)])+
  then have "rep = rep'" using g g' by simp
  then show ?thesis by simp
qed

theorem graph_scan_reproducible_witness:
  "\<exists>rep s1 rep' s2. build_graph_scan ref_api ref_lib ref_env ''r'' (Some ''c'') False (ref_store work_store, ()) = (Inr rep, s1) \<and>
     build_graph_scan ref_api ref_lib ref_env ''r'' (Some ''c'') False s1 = (Inr rep', s2) \<and>
     gr_graph_hash rep = gr_graph_hash rep'"
proof -
  have o: "host_objects ref_gix ref_lib (ref_store work_store, ()) = ledger_of work_store"
    by (rule ref_store_objects [OF work_storable(1)])
  obtain rep s1 where run: "build_graph_scan ref_api ref_lib ref_env ''r'' (Some ''c'') False (ref_store work_store, ()) = (Inr rep, s1)"
    and s1: "host_calm ref_gix ref_lib ref_host ''r'' s1" "host_objects ref_gix ref_lib s1 = ledger_of work_store"
    using ref_scan_returns [OF ref_store_host_calm [OF work_storable], unfolded o, OF work_ledger(1)] by blast
  obtain rep' s2 where run': "build_graph_scan ref_api ref_lib ref_env ''r'' (Some ''c'') False s1 = (Inr rep', s2)"
    using ref_scan_returns [OF s1(1), unfolded s1(2), OF work_ledger(1)] by blast
  have "host_good ref_gix ref_lib ref_host ''r'' s1" using s1(1) by (simp add: host_calm_def)
  then have "gr_graph_hash rep = gr_graph_hash rep'"
    using graph_scan_reproducible [OF ref_store_good [OF work_storable(1)] _ _ run run'] scan_names [OF run refl] scan_names [OF run' refl] o s1(2)
    by simp
  then show ?thesis using run run' by blast
qed

text \<open>
  C37: a projection is private unless public writing is allowed.  Whatever the scan and a request with
  the two key headers preserve is preserved by the whole command, so no request without them is sent;
  a dry run sends nothing; and a report counts the operations and the batches that were written.
\<close>

theorem projection_private:
  assumes "keeps P (build_graph_scan A L E (pk_repo args) None (pk_include_code_structure args))"
    and "\<And>q. \<not> pk_dry_run args \<Longrightarrow> pk_allow_public_kfdb args \<or> private_call q \<Longrightarrow> keeps P (send q)"
  shows "keeps P (run_project_kfdb A L E send st args) \<and>
    (\<forall>s rep s'. run_project_kfdb A L E send st args s = (Inr rep, s') \<longrightarrow>
      pj_batches_written rep = (if pk_dry_run args then 0
        else (pj_nodes_written rep + pj_edges_written rep + pj_batch_size rep - 1) div pj_batch_size rep))"
proof (intro conjI allI impI)
  have "keeps P (if pk_dry_run args then e_ret (None, 0) else project_live A L send st args ops)" for ops
    by (cases "pk_dry_run args") (auto intro!: keeps_live assms(2))
  then show "keeps P (run_project_kfdb A L E send st args)"
    unfolding run_project_kfdb_def by (auto intro!: keeps_bind assms(1))
next
  fix s rep s' assume run: "run_project_kfdb A L E send st args s = (Inr rep, s')"
  let ?n = "max 1 (pk_batch_size args)"
  from run obtain graph res s1 s2 where
    w: "(if pk_dry_run args then e_ret (None, 0) else project_live A L send st args (graph_kfdb_operations graph)) s1 = (Inr res, s2)"
    and rep: "pj_batches_written rep = snd res" "pj_batch_size rep = ?n"
    "pj_nodes_written rep = length (gr_nodes graph)" "pj_edges_written rep = length (gr_edges graph)"
    unfolding run_project_kfdb_def by (auto elim!: e_bind_Inr)
  show "pj_batches_written rep = (if pk_dry_run args then 0
      else (pj_nodes_written rep + pj_edges_written rep + pj_batch_size rep - 1) div pj_batch_size rep)"
  proof (cases "pk_dry_run args")
    case True
    then have "res = (None, 0)" using w by simp
    then show ?thesis using True rep(1) by simp
  next
    case False
    then have "snd res = length (chunks_of ?n (graph_kfdb_operations graph))" using w by (simp add: live_count)
    then show ?thesis using False unfolding rep by (simp add: length_chunks operations_length)
  qed
qed

theorem projection_private_witness:
  "list_all private_call (snd (snd (run_project_kfdb (git_api ref_gix ref_lib log_host) ref_lib ref_graph_env log_send (\<lambda>_. [])
     log_args (ref_store work_store, []))))"
proof -
  let ?P = "\<lambda>s :: ref_git world \<times> http_call list. \<forall>q \<in> set (snd s). private_call q"
  have "keeps ?P (run_project_kfdb (git_api ref_gix ref_lib log_host) ref_lib ref_graph_env log_send (\<lambda>_. []) log_args)"
  proof (rule conjunct1 [OF projection_private])
    show "keeps ?P (build_graph_scan (git_api ref_gix ref_lib log_host) ref_lib ref_graph_env (pk_repo log_args) None
        (pk_include_code_structure log_args))"
      using keeps_snd_scan by (simp add: log_args_def)
    show "keeps ?P (log_send q)" if "pk_allow_public_kfdb log_args \<or> private_call q" for q
      using that by (auto simp: keeps_def log_send_def log_args_def)
  qed
  from this [unfolded keeps_def, rule_format, of "(ref_store work_store, [])"] show ?thesis by (simp add: list_all_iff)
qed

text \<open>
  C39: a proof report is exact.  It says \<^verbatim>\<open>ok\<close> if and only if the local objects and patches verify, no
  reference differs from the remote, the relay has as many objects as the repository, and KFDB as many
  object mirrors and patches; each part is there exactly when it was asked for.  When it says \<^verbatim>\<open>ok\<close> and a
  remote was named, the references of both sides are the same.
\<close>

theorem proof_ok_exact:
  assumes "run_proof A L tee args s = (Inr rep, s')"
  shows "(pf_status rep = ''ok'' \<longleftrightarrow> sv_invalid_objects (pf_local rep) = [] \<and> sv_invalid_patches (pf_local rep) = [] \<and>
      (\<forall>r. pf_git_remote rep = Some r \<longrightarrow> ss_local_only_refs r = [] \<and> ss_remote_only_refs r = [] \<and> ss_divergent_refs r = []) \<and>
      (\<forall>r. pf_relay rep = Some r \<longrightarrow> rc_local_object_count r = unat (rc_relay_object_count r)) \<and>
      (\<forall>k. pf_kfdb rep = Some k \<longrightarrow> kp_object_mirror_count k = int (sv_object_count (pf_local rep)) \<and>
         kp_prepared_patch_count k = int (sv_patch_count (pf_local rep)))) \<and>
    (pf_git_remote rep = None \<longleftrightarrow> pa_remote args = None) \<and> (pf_relay rep = None \<longleftrightarrow> pa_relay_url args = None) \<and>
    (pf_kfdb rep = None \<longleftrightarrow> pa_kfdb_url args = None) \<and>
    (\<forall>r. pf_status rep = ''ok'' \<longrightarrow> pf_git_remote rep = Some r \<longrightarrow> ss_local_refs_hash r = ss_remote_refs_hash r)"
proof -
  from assms obtain repo_id here s1 s2 s3 s4 s5 where
    i: "pa_relay_url args \<noteq> None \<or> pa_kfdb_url args \<noteq> None \<longrightarrow> repo_id \<noteq> None"
    and here: "build_sync_verify A L (pa_repo args) s1 = (Inr here, s2)"
    and g: "(case pa_remote args of None \<Rightarrow> e_ret None | Some remote \<Rightarrow>
      e_bind (build_sync_status A L \<lparr>sy_repo = pa_repo args, sy_remote = remote\<rparr>) (\<lambda>r. e_ret (Some r))) s2 = (Inr (pf_git_remote rep), s3)"
    and r: "(case (pa_relay_url args, repo_id) of (Some u, Some i) \<Rightarrow> e_bind (build_relay_status A L (pa_repo args) u i None) (\<lambda>r. e_ret (Some r))
      | _ \<Rightarrow> e_ret None) s3 = (Inr (pf_relay rep), s4)"
    and k: "(case (pa_kfdb_url args, repo_id) of
       (Some u, Some i) \<Rightarrow> e_bind (build_kfdb_proof A L u i (pa_kfdb_bearer_token args) (pa_kfdb_bearer_token_env args)
          (sv_object_count here) (sv_patch_count here)) (\<lambda>k. e_ret (Some k))
      | _ \<Rightarrow> e_ret None) s4 = (Inr (pf_kfdb rep), s5)"
    and rep: "pf_local rep = here" "pf_status rep = (if proof_diagnostics here (pf_git_remote rep) (pf_relay rep) (pf_kfdb rep) = [] then ''ok'' else ''failed'')"
    by (rule proof_parts)
  have relay: "pf_relay rep = None \<longleftrightarrow> pa_relay_url args = None" "\<forall>x. pf_relay rep = Some x \<longrightarrow>
      (rc_status x = ''ok'' \<longleftrightarrow> rc_local_object_count x = unat (rc_relay_object_count x))"
    using r i by (auto elim!: e_bind_Inr dest!: relay_status_ok sym [of "Some _"] split: option.splits)
  have kfdb: "pf_kfdb rep = None \<longleftrightarrow> pa_kfdb_url args = None" "\<forall>x. pf_kfdb rep = Some x \<longrightarrow>
      (kp_status x = ''ok'' \<longleftrightarrow> kp_object_mirror_count x = int (sv_object_count here) \<and> kp_prepared_patch_count x = int (sv_patch_count here))"
    using k i by (auto elim!: e_bind_Inr dest!: kfdb_proof_ok sym [of "Some _"] split: option.splits)
  have git: "pf_git_remote rep = None \<longleftrightarrow> pa_remote args = None" "\<forall>x. pf_git_remote rep = Some x \<longrightarrow>
      ss_local_only_refs x = [] \<longrightarrow> ss_remote_only_refs x = [] \<longrightarrow> ss_divergent_refs x = [] \<longrightarrow> ss_local_refs_hash x = ss_remote_refs_hash x"
    using g by (auto elim!: e_bind_Inr dest!: same_refs_hash sym [of "Some _"] split: option.splits)
  have "proof_diagnostics here (pf_git_remote rep) (pf_relay rep) (pf_kfdb rep) = [] \<longleftrightarrow> sv_status here = ''ok'' \<and>
      (\<forall>x. pf_git_remote rep = Some x \<longrightarrow> ss_local_only_refs x = [] \<and> ss_remote_only_refs x = [] \<and> ss_divergent_refs x = []) \<and>
      (\<forall>x. pf_relay rep = Some x \<longrightarrow> rc_status x = ''ok'') \<and> (\<forall>x. pf_kfdb rep = Some x \<longrightarrow> kp_status x = ''ok'')"
    by (auto simp: proof_diagnostics_def split: option.split)
  then show ?thesis using relay kfdb git sync_verify_ok [OF here] rep by auto
qed

theorem proof_ok_exact_witness:
  "\<exists>rep s'. run_proof ref_api ref_lib (\<lambda>_ s. (False, s)) \<lparr>pa_repo = ''r'', pa_remote = None, pa_relay_url = None, pa_repo_id = None,
     pa_kfdb_url = None, pa_kfdb_bearer_token = None, pa_kfdb_bearer_token_env = None, pa_tee_url = None\<rparr> (ref_store [], ()) =
     (Inr rep, s') \<and> pf_status rep = ''ok''"
proof -
  have st: "storable []" "list_all (fields_ok ref_lib) []" by (simp_all add: storable_def)
  have "host_objects ref_gix ref_lib (ref_store [], ()) = Map.empty" using ref_store_objects [OF st(1)] by simp
  from ref_verify_returns [OF ref_store_host_calm [OF st] this] obtain v s1 where
    v: "build_sync_verify ref_api ref_lib ''r'' (ref_store [], ()) = (Inr v, s1)" "sv_invalid_objects v = []" "sv_invalid_patches v = []"
    by blast
  let ?args = "\<lparr>pa_repo = ''r'', pa_remote = None, pa_relay_url = None, pa_repo_id = None,
     pa_kfdb_url = None, pa_kfdb_bearer_token = None, pa_kfdb_bearer_token_env = None, pa_tee_url = None\<rparr>"
  have env: "a_env ref_api s name = None" for s name by (simp add: git_api_def ref_host_def split: prod.split)
  obtain rep s' where run: "run_proof ref_api ref_lib (\<lambda>_ s. (False, s)) ?args (ref_store [], ()) = (Inr rep, s')" and rep: "pf_local rep = v"
    by (simp add: run_proof_def resolve_tee_url_def e_bind_def e_ret_def v(1) Let_def env)
  have "pf_status rep = ''ok''" using proof_ok_exact [OF run] v(2,3) rep by simp
  then show ?thesis using run by blast
qed

end
