(* ===== verification/Cli_Keys.thy ===== *)
theory Cli_Keys
  imports Cli_Reference
begin

text \<open>
  The key commands of \<^verbatim>\<open>crates/rickydata-git-cli/src/main.rs\<close>: a key is generated into a file, made
  the key of an agent, and shown.  The generator of random numbers and the permission bits of a file are
  parameters; the key that is made for an agent is the one its commands sign with.
\<close>

section \<open>Keys\<close>

record 's key_env =
  ke_fresh :: "'s \<Rightarrow> bytes \<times> 's"
  ke_chmod :: "str \<Rightarrow> nat \<Rightarrow> ('s, str, unit) eff"

definition OWNER_ONLY_FILE :: nat where "OWNER_ONLY_FILE = 6 * 64"
definition OWNER_ONLY_DIR :: nat where "OWNER_ONLY_DIR = 7 * 64"

text \<open>Creating the file and writing it are one operation; the callers replace the message of either failure.\<close>

definition save_signing_key_to_file :: "'s api \<Rightarrow> 's key_env \<Rightarrow> bytes \<Rightarrow> str \<Rightarrow> ('s, core_error, unit) eff" where
  "save_signing_key_to_file A K key path =
     e_bind (e_map_err (\<lambda>e. Signing (''failed to write signing key: '' @ e)) (a_write_file A path key)) (\<lambda>_.
       e_map_err (\<lambda>e. Signing (''failed to chmod 600 signing key file: '' @ e)) (ke_chmod K path OWNER_ONLY_FILE))"

definition generate_signing_keypair :: "'s key_env \<Rightarrow> ('s, 'e, bytes) eff" where
  "generate_signing_keypair K s = (case ke_fresh K s of (key, s') \<Rightarrow> (Inr key, s'))"

definition public_key_of :: "lib \<Rightarrow> bytes \<Rightarrow> str" where
  "public_key_of L key = hex_encode L (ed_public L key)"

record key_generate_report =
  kg_status :: str
  kg_algorithm :: str
  kg_public_key :: str
  kg_output_path :: str

definition key_generate :: "'s api \<Rightarrow> lib \<Rightarrow> 's key_env \<Rightarrow> str \<Rightarrow> ('s, cli_error, key_generate_report) eff" where
  "key_generate A L K output_path s =
     (if a_exists A s output_path then (Inl (Bail (''signing key output path already exists: '' @ output_path)), s)
      else e_bind (generate_signing_keypair K) (\<lambda>key.
           e_bind (ctx (''failed to save signing key to '' @ output_path) (save_signing_key_to_file A K key output_path)) (\<lambda>_.
             e_ret \<lparr>kg_status = ''ok'', kg_algorithm = SIGNATURE_ALGORITHM_ED25519,
                    kg_public_key = public_key_of L key, kg_output_path = output_path\<rparr>)) s)"

text \<open>\<^verbatim>\<open>Path::parent\<close> of a path whose last component is a file name.\<close>

definition parent_text :: "str \<Rightarrow> str" where
  "parent_text x = (case dropWhile (\<lambda>c. c \<noteq> CHR ''/'') (rev x) of
     [] \<Rightarrow> [] | c # cs \<Rightarrow> (let rest = dropWhile (\<lambda>c. c = CHR ''/'') cs in if rest = [] then ''/'' else rev rest))"

record key_init_report =
  ki_status :: str
  ki_algorithm :: str
  ki_public_key :: str
  ki_agent_id :: str
  ki_key_path :: str

definition key_directory :: "'s api \<Rightarrow> 's key_env \<Rightarrow> str \<Rightarrow> ('s, cli_error, unit) eff" where
  "key_directory A K parent =
     e_bind (ctx (''failed to create key directory '' @ parent) (a_create_dir_all A parent)) (\<lambda>_.
       ctx (''failed to chmod 700 key directory '' @ parent) (ke_chmod K parent OWNER_ONLY_DIR))"

definition key_init :: "'s api \<Rightarrow> lib \<Rightarrow> 's key_env \<Rightarrow> str \<Rightarrow> bool \<Rightarrow> ('s, cli_error, key_init_report) eff" where
  "key_init A L K agent_id force s =
     (let key_path = agent_key_file A s agent_id in
      if a_exists A s key_path \<and> \<not> force
      then (Inl (Bail (''key already exists at '' @ key_path @ ''; use --force to overwrite'')), s)
      else e_bind (key_directory A K (parent_text key_path)) (\<lambda>_.
           e_bind (generate_signing_keypair K) (\<lambda>key.
           e_bind (ctx (''failed to save signing key to '' @ key_path) (save_signing_key_to_file A K key key_path)) (\<lambda>_.
             e_ret \<lparr>ki_status = ''ok'', ki_algorithm = SIGNATURE_ALGORITHM_ED25519,
                    ki_public_key = public_key_of L key, ki_agent_id = agent_id, ki_key_path = key_path\<rparr>))) s)"

record key_show_report =
  ks_algorithm :: str
  ks_public_key :: str
  ks_signing_key_file :: str

definition key_show :: "'s api \<Rightarrow> lib \<Rightarrow> str \<Rightarrow> ('s, cli_error, key_show_report) eff" where
  "key_show A L signing_key_file =
     e_bind (load_key A L signing_key_file (''failed to load signing key from '' @ signing_key_file)) (\<lambda>key.
       e_ret \<lparr>ks_algorithm = SIGNATURE_ALGORITHM_ED25519, ks_public_key = public_key_of L key,
              ks_signing_key_file = signing_key_file\<rparr>)"

section \<open>What a key file holds\<close>

text \<open>Parameters that leave the files alone: the generator, permission bits, and an environment that stays.\<close>

definition key_env_ok :: "('g, 'p) outside \<Rightarrow> ('g world \<times> 'p) key_env \<Rightarrow> bool" where
  "key_env_ok P K \<longleftrightarrow> (\<forall>s. length (fst (ke_fresh K s)) = SECRET_KEY_LENGTH \<and> fst (snd (ke_fresh K s)) = fst s) \<and>
     (\<forall>x m s. fst (snd (ke_chmod K x m s)) = fst s) \<and> (\<forall>p q name. o_env P p name = o_env P q name)"

lemma saved_key:
  assumes "save_signing_key_to_file (git_api G L P) K key path s = (Inr u, s')" "key_env_ok P K" "faults (w_fs (fst s)) = []"
  shows "tree (w_fs (fst s')) (o_path P path) = Some (File key)" "faults (w_fs (fst s')) = []" "o_path P path \<noteq> []"
proof -
  obtain s1 where w: "a_write_file (git_api G L P) path key s = (Inr (), s1)"
    and c: "ke_chmod K path OWNER_ONLY_FILE s1 = (Inr u, s')"
    using assms(1) unfolding save_signing_key_to_file_def by (elim e_bind_Inr) (auto simp: e_map_err_def split: prod.splits)
  have s': "fst s' = fst s1" using assms(2) c unfolding key_env_ok_def by (metis snd_conv)
  have "fs_write (o_path P path) key (w_fs (fst s)) = (Inr (), w_fs (fst s1))"
    using w by (auto simp: git_api_def on_world_iff on_fs_def split: prod.splits dest!: arg_cong [where f = w_fs])
  then have "put_file (o_path P path) key (w_fs (fst s)) = (Inr (), w_fs (fst s1))" by (simp add: calm_ops(2) [OF assms(3)])
  from put_file_tree [OF this] have f: "w_fs (fst s1) = set_node (o_path P path) (Some (File key)) (w_fs (fst s))"
    "o_path P path \<noteq> []" by simp_all
  show "tree (w_fs (fst s')) (o_path P path) = Some (File key)" "faults (w_fs (fst s')) = []" "o_path P path \<noteq> []"
    using f assms(3) by (simp_all add: s')
qed

lemma loaded_key:
  assumes "tree (w_fs (fst s)) (o_path P path) = Some (File key)" "faults (w_fs (fst s)) = []" "length key = SECRET_KEY_LENGTH"
  shows "load_key (git_api G L P) L path m s = (Inr key, s)"
proof -
  have "fs_read (o_path P path) (w_fs (fst s)) = (Inr key, w_fs (fst s))"
    using assms(1,2) by (simp add: calm_ops(1) lookup_file_def)
  then have "a_read_file (git_api G L P) path s = (Inr key, s)"
    by (cases s) (simp add: git_api_def on_world_def on_fs_def)
  then show ?thesis using assms(3) by (simp add: load_key_def ctx_def e_map_err_def e_bind_def parse_signing_key_def)
qed

lemma directory_calm:
  assumes "key_directory (git_api G L P) K parent s = (r, s')" "key_env_ok P K" "faults (w_fs (fst s)) = []"
  shows "faults (w_fs (fst s')) = []"
proof -
  have d: "faults (w_fs (fst s1)) = []" if "a_create_dir_all (git_api G L P) parent s = (x, s1)" for x s1
  proof -
    have "fs_create_dir_all (o_path P parent) (w_fs (fst s)) = (x, w_fs (fst s1))"
      using that by (auto simp: git_api_def on_world_iff on_fs_def split: prod.splits dest!: arg_cong [where f = w_fs])
    then show ?thesis using make_dirs_tree assms(3) by (simp add: calm_ops(3) [OF assms(3)])
  qed
  have "fst s' = fst s1" if "ke_chmod K x m s1 = (y, s')" for x m s1 y
    using assms(2) that unfolding key_env_ok_def by (metis snd_conv)
  with d show ?thesis using assms(1)
    by (auto simp: key_directory_def e_bind_def ctx_def e_map_err_def split: prod.splits sum.splits)
qed

text \<open>
  C38: the key of an agent.  What \<^verbatim>\<open>key init\<close> reports is the public half of the key that the commands of
  that agent sign with afterwards, when no other key is named, and that \<^verbatim>\<open>key show\<close> reports for the file;
  and without \<^verbatim>\<open>--force\<close> there was no key before.
\<close>

theorem initialised_key_signs:
  assumes "key_init (git_api G L P) L K i force s = (Inr rep, s1)" "key_env_ok P K" "faults (w_fs (fst s)) = []"
    and "o_env P (snd s) ''RICKYGIT_SIGNING_KEY_FILE'' = None"
  shows "(\<exists>key. length key = SECRET_KEY_LENGTH \<and> ki_public_key rep = public_key_of L key \<and>
      resolve_signing_key (git_api G L P) L \<lparr>sk_file = None, sk_key = None, sk_label = None\<rparr> (Some i) s1 =
        (Inr (Some (key, Some i)), s1)) \<and>
    key_show (git_api G L P) L (ki_key_path rep) s1 =
      (Inr \<lparr>ks_algorithm = ki_algorithm rep, ks_public_key = ki_public_key rep, ks_signing_key_file = ki_key_path rep\<rparr>, s1) \<and>
    (force \<or> \<not> exists_at (w_fs (fst s)) (o_path P (ki_key_path rep)))"
proof -
  let ?A = "git_api G L P" and ?path = "agent_key_file (git_api G L P) s i"
  have env: "agent_key_file ?A t i = ?path" "a_env ?A t name = o_env P (snd s) name" for t name
  proof -
    have "o_env P (snd t) name = o_env P (snd s) name" for name using assms(2) unfolding key_env_ok_def by blast
    then have "o_env P (snd t) = o_env P (snd s)" by (rule ext)
    then show "agent_key_file ?A t i = ?path" "a_env ?A t name = o_env P (snd s) name"
      by (simp_all add: agent_key_file_def git_api_def split_def)
  qed
  have old: "force \<or> \<not> a_exists ?A s ?path" using assms(1) by (auto simp: key_init_def Let_def split: if_splits)
  from assms(1) obtain sd key sk u where d: "key_directory ?A K (parent_text ?path) s = (Inr (), sd)"
    and k: "generate_signing_keypair K sd = ((Inr key :: cli_error + bytes), sk)"
    and save: "save_signing_key_to_file ?A K key ?path sk = (Inr u, s1)"
    and rep: "ki_public_key rep = public_key_of L key" "ki_key_path rep = ?path" "ki_algorithm rep = SIGNATURE_ALGORITHM_ED25519"
    by (auto simp: key_init_def Let_def split: if_splits elim!: e_bind_Inr)
  have "key = fst (ke_fresh K sd)" "sk = snd (ke_fresh K sd)"
    using k by (auto simp: generate_signing_keypair_def split: prod.splits)
  then have len: "length key = SECRET_KEY_LENGTH" and "fst sk = fst sd"
    using assms(2) unfolding key_env_ok_def by blast+
  then have "faults (w_fs (fst sk)) = []" using directory_calm [OF d assms(2,3)] by simp
  note stored = saved_key [OF save assms(2) this]
  note load = loaded_key [OF stored(1,2) len]
  have "a_exists ?A s1 ?path" using stored(1) by (cases s1) (simp add: git_api_def exists_at_def)
  then have "resolve_signing_key ?A L \<lparr>sk_file = None, sk_key = None, sk_label = None\<rparr> (Some i) s1 = (Inr (Some (key, Some i)), s1)"
    by (simp add: resolve_signing_key_def key_of_env_def key_of_agent_def env(1) [of s1] env(2) assms(4) Let_def e_bind_def load)
  moreover have "key_show ?A L ?path s1 =
      (Inr \<lparr>ks_algorithm = SIGNATURE_ALGORITHM_ED25519, ks_public_key = public_key_of L key, ks_signing_key_file = ?path\<rparr>, s1)"
    by (simp add: key_show_def e_bind_def load)
  moreover have "a_exists ?A s ?path = exists_at (w_fs (fst s)) (o_path P ?path)" by (cases s) (simp add: git_api_def)
  ultimately show ?thesis using old len rep by auto
qed

text \<open>A generator with one key and no permission bits, on the reference host.\<close>

definition ref_key_env :: "(ref_git world \<times> unit) key_env" where
  "ref_key_env = \<lparr>ke_fresh = (\<lambda>s. (replicate 32 7, s)), ke_chmod = (\<lambda>_ _ s. (Inr (), s))\<rparr>"

lemma ref_key_init: "is_ok (fst (key_init ref_api ref_lib ref_key_env ''a'' False (ref_world, ())))"
  by code_simp

lemma initialised_key_signs_witness:
  "\<exists>rep s1 key. key_init ref_api ref_lib ref_key_env ''a'' False (ref_world, ()) = (Inr rep, s1) \<and>
     ki_public_key rep = public_key_of ref_lib key \<and>
     resolve_signing_key ref_api ref_lib \<lparr>sk_file = None, sk_key = None, sk_label = None\<rparr> (Some ''a'') s1 =
       (Inr (Some (key, Some ''a'')), s1)"
proof -
  obtain rep s1 where *: "key_init ref_api ref_lib ref_key_env ''a'' False (ref_world, ()) = (Inr rep, s1)"
    using ref_key_init unfolding is_ok_def by (metis prod.collapse sum.case_eq_if sum.collapse(2))
  have "key_env_ok ref_host ref_key_env"
    by (simp add: key_env_ok_def ref_key_env_def ref_host_def SECRET_KEY_LENGTH_def)
  moreover have "o_env ref_host (snd (ref_world, ())) ''RICKYGIT_SIGNING_KEY_FILE'' = None" by (simp add: ref_host_def)
  ultimately show ?thesis using initialised_key_signs [OF *] * by auto
qed

end
