(* ===== verification/Cli_Signer.thy ===== *)
theory Cli_Signer
  imports Cli_Reports Cli_Notes
begin

text \<open>
  What the commands of \<^verbatim>\<open>crates/rickydata-git-cli/src/main.rs\<close> ask of the TEE signer.  The client is a
  feature of the build: \<open>None\<close> is the public build, without it, and \<open>Some\<close> a query of the health of the
  signer at an address.
\<close>

record signer_health =
  sh_status :: "str option"
  sh_production_signing_enabled :: "bool option"

type_synonym 's signer = "(str \<Rightarrow> ('s, str, signer_health) eff) option"

definition tee_signer_status_ok :: "'s signer \<Rightarrow> str \<Rightarrow> 's \<Rightarrow> bool \<times> 's" where
  "tee_signer_status_ok T tee_url s = (case T of
     None \<Rightarrow> (False, s)
   | Some health \<Rightarrow> (case health tee_url s of
       (Inr h, s') \<Rightarrow> (sh_status h = Some ''ok'', s') | (Inl _, s') \<Rightarrow> (False, s')))"

definition tee_signer_reachable :: "'s signer \<Rightarrow> str \<Rightarrow> 's \<Rightarrow> bool \<times> 's" where
  "tee_signer_reachable T tee_url s = (case T of
     None \<Rightarrow> (False, s)
   | Some health \<Rightarrow> (case health tee_url s of (r, s') \<Rightarrow> (is_ok r, s')))"

definition tee_receipt_status :: "'s signer \<Rightarrow> str \<Rightarrow> 's \<Rightarrow> (bool option \<times> bool option) \<times> 's" where
  "tee_receipt_status T tee_url s = (case T of
     None \<Rightarrow> ((Some False, None), s)
   | Some health \<Rightarrow> (case health tee_url s of
       (Inr h, s') \<Rightarrow> ((Some True, sh_production_signing_enabled h), s') | (Inl _, s') \<Rightarrow> ((Some False, None), s')))"

definition run_receipt :: "'s api \<Rightarrow> lib \<Rightarrow> 's signer \<Rightarrow> str \<Rightarrow> str \<Rightarrow> str option \<Rightarrow> ('s, cli_error, receipt_verify_report) eff" where
  "run_receipt A L T repo object_id explicit s =
     receipt_verify A L (\<lambda>url s. case tee_receipt_status T url s of (r, s') \<Rightarrow> (Inr r, s'))
       repo object_id (resolve_tee_url A s explicit) s"

text \<open>The three answers of one query agree.\<close>

lemma signer_answers_agree:
  "snd (tee_signer_status_ok T u s) = snd (tee_signer_reachable T u s)"
  "snd (tee_receipt_status T u s) = snd (tee_signer_reachable T u s)"
  "fst (fst (tee_receipt_status T u s)) = Some (fst (tee_signer_reachable T u s))"
  "fst (tee_signer_status_ok T u s) \<Longrightarrow> fst (tee_signer_reachable T u s)"
  by (auto simp: tee_signer_status_ok_def tee_signer_reachable_def tee_receipt_status_def
      split: option.splits prod.splits sum.splits)

lemma signer_reached: "tee_receipt_status T u s = ((b, p), s') \<Longrightarrow> b = Some (fst (tee_signer_reachable T u s))"
  using signer_answers_agree(3) [of T u s] by simp

text \<open>
  Whatever the signer answers, it decides neither whether a receipt is produced nor its verdict: these
  are those of the verification of the object in the store.
\<close>

lemma receipt_is_verification:
  "is_ok (fst (run_receipt A L T repo i u s)) = is_ok (fst (gitm L (a_verify A repo i) s))"
  "run_receipt A L T repo i u s = (Inr r, s') \<Longrightarrow> gitm L (a_verify A repo i) s = (Inr v, s1) \<Longrightarrow>
     rv_status r = (if vr_valid v then ''ok'' else ''failed'') \<and> rv_signature_count r = unat (vr_signature_count v) \<and>
     rv_tee_reachable r = map_option (\<lambda>url. fst (tee_signer_reachable T url s1)) (resolve_tee_url A s u)"
  by (auto simp: run_receipt_def receipt_verify_def e_bind_def e_ret_def split: option.splits prod.splits sum.splits
      dest!: signer_reached)

end
