(* ===== verification/Spec2Isabelle.thy ===== *)
theory Spec2Isabelle
  imports Relay_Server Relay_Cloud Rdl_Manifests Cli_Theorems Cli_Insight Cli_Keys Cli_Signer
begin

text \<open>
  rickydata-git keeps a ledger of work done by software agents inside a Git repository: intents,
  attempts, runs, changes, prepared patches and notes are canonical JSON objects, named by the SHA-256
  hash of their content, signed with Ed25519, stored as blobs under \<^verbatim>\<open>refs/rickydata/objects/\<close> with a cache
  in the Git directory, and exchanged between repositories through Git or through a relay server.  This
  library is the model of the program under \<^verbatim>\<open>src/crates\<close> and the proof of what makes it correct.

  \<^bold>\<open>Parts and theories.\<close>  Each definition carries the name of the Rust item it translates where HOL
  allows it; a local loop or a block of a long function is a definition of its own.

  \<^item> Vocabulary: \<open>Prelude\<close> (results as sums, effects as functions \<open>'s \<Rightarrow> ('e + 'a) \<times> 's\<close>, loops over
    them, invariants \<open>keeps\<close>), \<open>Text\<close> (strings as UTF-8 bytes: trimming, splitting, hexadecimal),
    \<open>Json\<close> (\<^verbatim>\<open>serde_json::Value\<close> with its three kinds of number), \<open>Codec\<close> (the third-party code as one
    record \<open>lib\<close> with its documented laws, and the field decoders of \<^verbatim>\<open>serde\<close>), \<open>Fs\<close> (\<^verbatim>\<open>std::fs\<close> on a map
    from paths to nodes, with an oracle of faults that may tear a write).
  \<^item> \<^verbatim>\<open>rickydata-git-core/src/lib.rs\<close>: \<open>Json\<close> (\<open>canonical_json\<close>, \<open>canonical_number\<close>), \<open>Core_Objects\<close>
    (ids, objects, signing), \<open>Core_Crypto\<close> (encrypted bodies, key files, the TEE policy), \<open>Core_Schema\<close>
    (wire forms); properties in \<open>Canonical\<close>, \<open>Core_Signing\<close> and \<open>Core_Crypto\<close>.
  \<^item> \<^verbatim>\<open>rickydata-git-agent/src/lib.rs\<close>: \<open>Agent_Schema\<close>, every record with its wire form and the validations.
  \<^item> \<^verbatim>\<open>rickydata-git-git/src/lib.rs\<close>: \<open>Git_Store\<close> (the object store), \<open>Ref_Update\<close> (signed updates of a
    reference), with the properties in \<open>Git_Props\<close>, \<open>Git_Theorems\<close>, \<open>Git_Integrity\<close>.  The state is a
    \<open>world\<close>: the file system, and the Git state \<open>'g\<close> of the gix library, whose functions are a parameter.
  \<^item> \<^verbatim>\<open>rickydata-git-relay/src/lib.rs\<close>: \<open>Relay_Policy\<close> (records, signature policy, hashes), \<open>Relay_File\<close>
    (the store on a file system), \<open>Relay_Gcs\<close> (the store on a bucket of Google Cloud Storage),
    \<open>Relay_Http\<close> (the trait \<^verbatim>\<open>RelayStore\<close> as the record \<open>relay_ops\<close>, router and bearer gate), \<open>Relay_Index\<close>
    (the KFDB projection and the indexed store), \<open>Relay_Server\<close> (the HTTP sink, and the start of the
    process in \<^verbatim>\<open>src/main.rs\<close>); properties in \<open>Relay_Props\<close>, \<open>Relay_Bucket\<close>, \<open>Relay_Cloud\<close>.
  \<^item> \<^verbatim>\<open>rickydata-git-rdl/src/lib.rs\<close>: \<open>Rdl_Manifests\<close>, the manifest of every command with the capabilities
    it declares.
  \<^item> \<^verbatim>\<open>rickydata-git-cli/src/main.rs\<close>: \<open>Cli_Text\<close> (pure helpers), \<open>Cli_Api\<close> (what the commands call, as one
    record \<open>api\<close> of operations on a state: store functions, files, clock, environment, subprocesses,
    HTTP), \<open>Cli_Store\<close> (that record on the Git store of \<open>Git_Store\<close>), \<open>Cli_Attempts\<close>, \<open>Cli_Patches\<close>,
    \<open>Cli_Checkout\<close>, \<open>Cli_Sync\<close>, \<open>Cli_Relay\<close>, \<open>Cli_Notes\<close> (the commands), \<open>Cli_Life\<close>, \<open>Cli_Commands\<close>, \<open>Cli_Session\<close>, \<open>Cli_Progress\<close>, \<open>Cli_Review\<close> (what they do to the
    ledger), \<open>Cli_Reference\<close>, \<open>Cli_Theorems\<close> (a concrete host and the properties), \<open>Cli_Graph\<close> (the graph of
    work and code), \<open>Cli_Reports\<close> (impact, context, projection to KFDB, proof, doctor), \<open>Cli_Insight\<close>
    (what these promise) \<open>Cli_Keys\<close>
    (generating, installing and showing a key) and \<open>Cli_Signer\<close> (what is asked of the TEE signer).

  \<^bold>\<open>How the parts interact.\<close>  A command reads the ledger through \<open>list_ref_backed_objects\<close> and
  \<open>read_cached_object\<close>, decides, and writes one object through \<open>write_cached_object\<close>; the relay takes
  bundles of such objects, validates them and stores them; the indexed store sends a projection of a
  pushed bundle to KFDB.  Interfaces are locales, interpreted on the model's own definitions:
  \<open>ledger\<close> (what the commands need of a store) on the Git store, \<open>live_ledger\<close> on a calm Git store,
  \<open>relay_contract\<close> on the file store, on the indexed store and, below \<open>gcs_service\<close>, on the bucket store,
  \<open>gcs_service\<close> (the storage service as documented) on a reference bucket.

  \<^bold>\<open>What the lemmas show.\<close>
  \<^item> Canonical JSON decides equality of documents: two documents have one canonical form exactly when
    they differ in the order of keys and in numbers of equal value only (\<open>same_number\<close>, stated on the
    values, with the exceptions of the code at the double \<open>2^63\<close>), so an object id names one kind, schema version and body unless SHA-256
    collides; what is signed verifies, and messages of the two signing domains never coincide.
  \<^item> Every record of the ledger survives its wire form.
  \<^item> The object store reads back what was written, from the cache or the reference, is idempotent, never
    replaces bytes, keeps every cache file complete under any sequence of operations and any faults,
    and verifies exactly; a reference moves only under a valid signature from the expected value.
  \<^item> In a session, a list of the commands that write the tool's own records, and whatever fails, the
    ledger takes only the steps of \<open>ledger_step\<close> (a simulation of the commands by a step relation), as
    long as the subprocesses it starts leave the store alone (\<open>harmless\<close>); so bodies keep their types, a finished attempt
    keeps its status, the computed status is the last transition; in a calm store the commands
    return, and a submission fails only if the id of its new record is taken by other content.  The review queue is exactly the patches that are not retired.
  \<^item> The graph of a scan draws every intent, attempt, run, change and patch of the ledger, has no edge
    with a missing end except at attempts and intents that are named but not in the ledger, and is a
    function of the ledger; a
    projection sends nothing without its private headers unless it is told to; a proof report says \<^verbatim>\<open>ok\<close>
    exactly when the copies that were named agree.
  \<^item> A relay never alters a stored object, whatever requests it serves; a refused push changes nothing;
    when a push succeeds, what it stores and what a pull returns is stated exactly for the file store;
    a push to a bucket adds exactly the objects whose names are free (\<open>bucket_after\<close>) and leaves the
    bytes under the other names, without comparing them; listing a bucket returns when its pages end; the gate opens only for the
    exact token; an index batch is closed, goes out whole and in order, and never affects a push.

  \<^bold>\<open>Bounds, fuel and partiality.\<close>  There is no fuel.  Loops over data recurse structurally or have a
  measure; the loop over the pages of a listing may not end and is a \<open>partial_function (option)\<close>, with a
  theorem that it returns.  Machine integers are 64-bit words, counters wrap as \<^verbatim>\<open>usize\<close> in a release
  build would.  The parser of \<^verbatim>\<open>serde_json\<close> nests at most 127 levels (\<open>JSON_DEPTH\<close>) and may not read a
  double back exactly, so round trips are stated for bodies without doubles.

  \<^bold>\<open>Parameters and their laws.\<close>  SHA-256, Ed25519, AES-256-GCM, \<^verbatim>\<open>hex\<close>, \<^verbatim>\<open>serde_json\<close>, UUIDs (\<open>lib\<close>, laws
  \<open>json_codec\<close>, \<open>hex_codec\<close>, \<open>sha_sized\<close>, \<open>ed_correct\<close>, \<open>aes_correct\<close>), gix (\<open>gix_laws\<close>), the HTTP client
  and the storage service (\<open>gcs_service\<close>), \<^verbatim>\<open>rdl_core\<close> and the JSON schemas, the clock, the environment,
  subprocesses, version 5 UUIDs of the graph, the tree of source files and Unicode lower case (\<open>graph_env\<close>).  \<open>Reference_Lib\<close>, \<open>ref_gix\<close>, the reference bucket and \<open>Cli_Reference\<close> are concrete
  instances; they show that the laws can hold and carry the witnesses.

  \<^bold>\<open>Not modelled.\<close>  Argument parsing and printing (clap, generated code and copies of fields); random
  encryption keys (signing keys and the permissions of their files are parameters, \<open>key_env\<close>); the schema catalog (derived by \<^verbatim>\<open>schemars\<close>); the HTTP
  client of the TEE signer (a feature of the build; the query of its health is a parameter); binding sockets and
  running the servers; panics other than those of the slices and indices the model writes out; that \<^verbatim>\<open>serde\<close> also
  accepts a JSON array for a struct.  Sessions gather the commands that go through the ledger's own
  writes; \<^verbatim>\<open>object write\<close>, \<^verbatim>\<open>relay pull\<close> and \<^verbatim>\<open>sync pull\<close>, which take in foreign objects, are modelled but
  outside sessions.
\<close>

end
